(* ===== verification/Prelude.thy ===== *)
theory Prelude
  imports Main "HOL-Library.Word"
begin

text \<open>
  Shared vocabulary of the development: the machine integers of the Rust code as
  words, checked and saturating arithmetic, little-endian byte encodings, results
  (\<open>Inl\<close> an error, \<open>Inr\<close> a value), strings as their UTF-8 bytes, decimal and
  hexadecimal rendering, and two interfaces every component uses: a fixed-width
  byte codec and a labelled transition system with its reachable states.
\<close>

section \<open>Machine integers\<close>

type_synonym u8 = "8 word"
type_synonym u16 = "16 word"
type_synonym u32 = "32 word"
type_synonym u64 = "64 word"
type_synonym bytes = "u8 list"

named_theorems u_arith \<comment> \<open>unsigned arithmetic of the code read as natural numbers\<close>

definition checked_add :: "'a::len word \<Rightarrow> 'a word \<Rightarrow> 'a word option" where
  "checked_add a b = (if unat a + unat b < 2 ^ LENGTH('a) then Some (a + b) else None)"

definition saturating_add :: "'a::len word \<Rightarrow> 'a word \<Rightarrow> 'a word" where
  "saturating_add a b = (if unat a + unat b < 2 ^ LENGTH('a) then a + b else - 1)"

definition saturating_sub :: "'a::len word \<Rightarrow> 'a word \<Rightarrow> 'a word" where
  "saturating_sub a b = (if b \<le> a then a - b else 0)"

lemma unat_add_if_fits [u_arith]:
  fixes a b :: "'a::len word"
  assumes "unat a + unat b < 2 ^ LENGTH('a)"
  shows "unat (a + b) = unat a + unat b"
  using assms by (simp add: unat_word_ariths)

lemma checked_add_Some_iff [u_arith]:
  fixes a b :: "'a::len word"
  shows "checked_add a b = Some c \<longleftrightarrow> unat c = unat a + unat b"
proof
  assume "checked_add a b = Some c"
  then show "unat c = unat a + unat b"
    by (auto simp: checked_add_def unat_add_if_fits split: if_splits)
next
  assume c: "unat c = unat a + unat b"
  with unsigned_less [of c, where 'a = nat] have fits: "unat a + unat b < 2 ^ LENGTH('a)" by simp
  with c have "unat c = unat (a + b)" by (simp add: unat_add_if_fits)
  then have "c = a + b" by (rule word_unat_eq_iff [THEN iffD2])
  with fits show "checked_add a b = Some c" by (simp add: checked_add_def)
qed

lemma checked_add_None_iff [u_arith]:
  fixes a b :: "'a::len word"
  shows "checked_add a b = None \<longleftrightarrow> 2 ^ LENGTH('a) \<le> unat a + unat b"
  by (auto simp: checked_add_def)

lemma unat_max_word: "unat (- 1 :: 'a::len word) = 2 ^ LENGTH('a) - 1"
  by (simp add: unsigned_minus_1_eq_mask mask_eq_exp_minus_1)

lemma unat_saturating_add [u_arith]:
  fixes a b :: "'a::len word"
  shows "unat (saturating_add a b) = min (unat a + unat b) (2 ^ LENGTH('a) - 1)"
  by (auto simp: saturating_add_def unat_add_if_fits unat_max_word)

lemma unat_saturating_sub [u_arith]:
  "unat (saturating_sub a b) = unat a - unat b"
  by (auto simp: saturating_sub_def unat_sub word_le_nat_alt)

lemma unat_of_nat_fits [u_arith]:
  "n < 2 ^ LENGTH('a) \<Longrightarrow> unat (of_nat n :: 'a::len word) = n"
  by (simp add: unat_of_nat)

lemma of_nat_unat_mono [u_arith]:
  "unat w \<le> n \<Longrightarrow> n < 2 ^ LENGTH('a) \<Longrightarrow> w \<le> (of_nat n :: 'a::len word)"
  by (simp add: word_le_nat_alt unat_of_nat_fits)

section \<open>Results\<close>

text \<open>Rust's \<open>Result<T, E>\<close> is the sum \<open>'e + 'a\<close>; the \<open>?\<close> operator is \<open>res_bind\<close>.\<close>

fun res_bind :: "'e + 'a \<Rightarrow> ('a \<Rightarrow> 'e + 'b) \<Rightarrow> 'e + 'b" where
  "res_bind (Inl e) f = Inl e"
| "res_bind (Inr x) f = f x"

fun res_map_err :: "('e \<Rightarrow> 'f) \<Rightarrow> 'e + 'a \<Rightarrow> 'f + 'a" where
  "res_map_err g (Inl e) = Inl (g e)"
| "res_map_err g (Inr x) = Inr x"

fun ok_or :: "'e \<Rightarrow> 'a option \<Rightarrow> 'e + 'a" where
  "ok_or e None = Inl e"
| "ok_or e (Some x) = Inr x"

fun res_ok :: "'e + 'a \<Rightarrow> 'a option" where
  "res_ok (Inl e) = None"
| "res_ok (Inr x) = Some x"

lemma res_bind_Inr_iff:
  "res_bind m f = Inr y \<longleftrightarrow> (\<exists>x. m = Inr x \<and> f x = Inr y)"
  by (cases m) auto

lemma res_bind_Inl_iff:
  "res_bind m f = Inl e \<longleftrightarrow> m = Inl e \<or> (\<exists>x. m = Inr x \<and> f x = Inl e)"
  by (cases m) auto

lemma res_bind_case: "res_bind m f = (case m of Inl e \<Rightarrow> Inl e | Inr x \<Rightarrow> f x)"
  by (cases m) simp_all

lemmas res_bind_iffs = res_bind_Inr_iff res_bind_Inl_iff

lemma ok_or_Inr_iff [simp]: "ok_or e m = Inr x \<longleftrightarrow> m = Some x"
  by (cases m) auto

lemma ok_or_Inl_iff [simp]: "ok_or e m = Inl e' \<longleftrightarrow> m = None \<and> e' = e"
  by (cases m) auto

lemma res_map_err_Inr_iff [simp]: "res_map_err g m = Inr x \<longleftrightarrow> m = Inr x"
  by (cases m) auto

lemma res_map_err_Inl_iff: "res_map_err g m = Inl e \<longleftrightarrow> (\<exists>d. m = Inl d \<and> e = g d)"
  by (cases m) auto

lemma res_ok_Some_iff [simp]: "res_ok m = Some x \<longleftrightarrow> m = Inr x"
  by (cases m) auto

lemma res_ok_None_iff [simp]: "res_ok m = None \<longleftrightarrow> (\<exists>e. m = Inl e)"
  by (cases m) auto

section \<open>Little-endian integers\<close>

primrec nat_to_le :: "nat \<Rightarrow> nat \<Rightarrow> bytes" where
  "nat_to_le 0 x = []"
| "nat_to_le (Suc n) x = of_nat (x mod 256) # nat_to_le n (x div 256)"

primrec le_to_nat :: "bytes \<Rightarrow> nat" where
  "le_to_nat [] = 0"
| "le_to_nat (b # bs) = unat b + 256 * le_to_nat bs"

text \<open>\<open>to_le_bytes\<close> and \<open>from_le_bytes\<close> of the fixed-width unsigned types.\<close>

definition to_le_bytes :: "'a::len word \<Rightarrow> bytes" where
  "to_le_bytes w = nat_to_le (LENGTH('a) div 8) (unat w)"

definition from_le_bytes :: "bytes \<Rightarrow> 'a::len word" where
  "from_le_bytes bs = of_nat (le_to_nat bs)"

lemma length_nat_to_le [simp]: "length (nat_to_le n x) = n"
  by (induction n arbitrary: x) auto

lemma unat_byte_less: "unat (b :: u8) < 256"
  using unsigned_less [of b, where 'a = nat] by simp

lemma le_to_nat_nat_to_le: "le_to_nat (nat_to_le n x) = x mod 256 ^ n"
proof (induction n arbitrary: x)
  case 0
  then show ?case by simp
next
  case (Suc n)
  have "unat (of_nat (x mod 256) :: u8) = x mod 256"
    by (rule unat_of_nat_fits) simp
  with Suc show ?case
    by (simp add: mod_mult2_eq)
qed

lemma le_to_nat_bound: "le_to_nat bs < 256 ^ length bs"
proof (induction bs)
  case Nil
  then show ?case by simp
next
  case (Cons b bs)
  then have "1 + le_to_nat bs \<le> 256 ^ length bs" by simp
  then have "256 * (1 + le_to_nat bs) \<le> 256 * 256 ^ length bs"
    by (rule mult_le_mono2)
  with unat_byte_less [of b] show ?case by simp
qed

lemma nat_to_le_le_to_nat: "nat_to_le (length bs) (le_to_nat bs) = bs"
proof (induction bs)
  case Nil
  then show ?case by simp
next
  case (Cons b bs)
  have "(unat b + 256 * le_to_nat bs) mod 256 = unat b"
    using unat_byte_less [of b] by simp
  moreover have "(unat b + 256 * le_to_nat bs) div 256 = le_to_nat bs"
    using unat_byte_less [of b] by simp
  ultimately show ?case using Cons by simp
qed

section \<open>Fixed-width byte codecs\<close>

text \<open>
  The contract of a field of the wire header: a value occupies exactly \<open>width\<close>
  bytes, and encoding and decoding are inverse on that many bytes. The client
  lemmas peel one field off a longer buffer.
\<close>

locale fixed_codec =
  fixes enc :: "'a \<Rightarrow> bytes"
    and dec :: "bytes \<Rightarrow> 'a"
    and width :: nat
  assumes length_enc: "length (enc a) = width"
    and dec_enc: "dec (enc a) = a"
    and enc_dec: "length bs = width \<Longrightarrow> enc (dec bs) = bs"
begin

lemma dec_take: "dec (take width (enc a @ rest)) = a"
  by (simp add: length_enc dec_enc)

lemma drop_enc: "drop width (enc a @ rest) = rest"
  by (simp add: length_enc)

lemma enc_inject: "enc a = enc b \<longleftrightarrow> a = b"
  using dec_enc by metis

lemma peel: "width \<le> length bs \<Longrightarrow> enc (dec (take width bs)) = take width bs"
  by (simp add: enc_dec)

end

lemma codec_le:
  assumes "LENGTH('a::len) = 8 * n"
  shows "fixed_codec (to_le_bytes :: 'a word \<Rightarrow> bytes) from_le_bytes n"
proof
  have pow: "(256::nat) ^ n = 2 ^ LENGTH('a)"
    using assms by (simp add: power_mult)
  fix w :: "'a word" and bs :: bytes
  show "length (to_le_bytes w) = n"
    using assms by (simp add: to_le_bytes_def)
  have "le_to_nat (to_le_bytes w) = unat w"
    using assms unsigned_less [of w, where 'a = nat] pow
    by (simp add: to_le_bytes_def le_to_nat_nat_to_le)
  then show "from_le_bytes (to_le_bytes w) = w"
    by (simp add: from_le_bytes_def)
  assume len: "length bs = n"
  have "unat (from_le_bytes bs :: 'a word) = le_to_nat bs"
    using le_to_nat_bound [of bs] len pow
    by (simp add: from_le_bytes_def unat_of_nat_fits)
  then show "to_le_bytes (from_le_bytes bs :: 'a word) = bs"
    using assms len nat_to_le_le_to_nat [of bs] by (simp add: to_le_bytes_def)
qed

interpretation u16le: fixed_codec "to_le_bytes :: u16 \<Rightarrow> bytes" from_le_bytes 2
  by (rule codec_le) simp

interpretation u32le: fixed_codec "to_le_bytes :: u32 \<Rightarrow> bytes" from_le_bytes 4
  by (rule codec_le) simp

interpretation u64le: fixed_codec "to_le_bytes :: u64 \<Rightarrow> bytes" from_le_bytes 8
  by (rule codec_le) simp

lemmas le_lengths [simp] = u16le.length_enc u32le.length_enc u64le.length_enc
lemmas le_roundtrips [simp] = u16le.dec_enc u32le.dec_enc u64le.dec_enc

text \<open>
  The contract of a self-delimiting format: decoding succeeds exactly on buffers
  that start with the encoding of a well-formed value, and returns that value.
  Trailing bytes are left alone, so frames can follow one another on a stream.
\<close>

locale prefix_codec =
  fixes enc :: "'a \<Rightarrow> bytes"
    and dec :: "bytes \<Rightarrow> 'e + 'a"
    and wf :: "'a \<Rightarrow> bool"
  assumes dec_iff: "dec bs = Inr x \<longleftrightarrow> wf x \<and> (\<exists>rest. bs = enc x @ rest)"
begin

lemma dec_enc_append: "wf x \<Longrightarrow> dec (enc x @ rest) = Inr x"
  using dec_iff by blast

lemma dec_wf: "dec bs = Inr x \<Longrightarrow> wf x"
  using dec_iff by blast

lemma dec_prefix: "dec bs = Inr x \<Longrightarrow> bs = enc x @ drop (length (enc x)) bs"
  using dec_iff by fastforce

lemma enc_unambiguous:
  assumes "wf x" and "wf y" and "enc x @ r = enc y @ s"
  shows "x = y \<and> r = s"
proof -
  from dec_enc_append [OF assms(1), of r] dec_enc_append [OF assms(2), of s] assms(3)
  have "x = y" by simp
  with assms(3) show ?thesis by simp
qed

end

section \<open>Transition systems\<close>

text \<open>
  A component whose operations interleave is a set of initial states and a
  labelled step relation. The reachable states are the least set containing the
  former and closed under the latter, and an invariant of a component is a
  predicate that \<open>invariant_system\<close> accepts.
\<close>

inductive reachable :: "('s \<Rightarrow> bool) \<Rightarrow> ('s \<Rightarrow> 'e \<Rightarrow> 's \<Rightarrow> bool) \<Rightarrow> 's \<Rightarrow> bool"
  for start :: "'s \<Rightarrow> bool" and step :: "'s \<Rightarrow> 'e \<Rightarrow> 's \<Rightarrow> bool" where
  reachable_start: "start s \<Longrightarrow> reachable start step s"
| reachable_step: "reachable start step s \<Longrightarrow> step s e t \<Longrightarrow> reachable start step t"

inductive steps :: "('s \<Rightarrow> 'e \<Rightarrow> 's \<Rightarrow> bool) \<Rightarrow> 's \<Rightarrow> 'e list \<Rightarrow> 's \<Rightarrow> bool"
  for step :: "'s \<Rightarrow> 'e \<Rightarrow> 's \<Rightarrow> bool" where
  steps_Nil: "steps step s [] s"
| steps_Cons: "step s e t \<Longrightarrow> steps step t es u \<Longrightarrow> steps step s (e # es) u"

inductive_simps steps_Nil_iff [simp]: "steps step s [] u"
inductive_simps steps_Cons_iff: "steps step s (e # es) u"

lemma steps_append:
  "steps step s es t \<Longrightarrow> steps step t fs u \<Longrightarrow> steps step s (es @ fs) u"
  by (induction rule: steps.induct) (auto intro: steps_Cons)

lemma reachable_steps:
  "reachable start step s \<Longrightarrow> steps step s es t \<Longrightarrow> reachable start step t"
  by (rotate_tac 1, induction s es t rule: steps.induct) (auto intro: reachable_step)

locale invariant_system =
  fixes start :: "'s \<Rightarrow> bool"
    and step :: "'s \<Rightarrow> 'e \<Rightarrow> 's \<Rightarrow> bool"
    and invar :: "'s \<Rightarrow> bool"
  assumes invar_start: "start s \<Longrightarrow> invar s"
    and invar_step: "invar s \<Longrightarrow> step s e t \<Longrightarrow> invar t"
begin

lemma invar_reachable: "reachable start step s \<Longrightarrow> invar s"
  by (induction rule: reachable.induct) (auto intro: invar_start invar_step)

lemma invar_steps: "steps step s es t \<Longrightarrow> invar s \<Longrightarrow> invar t"
  by (induction rule: steps.induct) (auto intro: invar_step)

end

section \<open>Keyed tables\<close>

text \<open>
  The contract of the hash tables the crate keys its peers, transfers, routes and
  pending calls by.
\<close>

locale keyed_table =
  fixes fresh :: "'t"
    and get :: "'k \<Rightarrow> 't \<Rightarrow> 'v option"
    and put :: "'k \<Rightarrow> 'v \<Rightarrow> 't \<Rightarrow> 't"
    and del :: "'k \<Rightarrow> 't \<Rightarrow> 't"
  assumes get_fresh: "get k fresh = None"
    and get_put: "get k (put k' v t) = (if k = k' then Some v else get k t)"
    and get_del: "get k (del k' t) = (if k = k' then None else get k t)"
begin

text \<open>The last insertion under a key wins.\<close>

lemma get_puts:
  "get k (fold (\<lambda>(k, v). put k v) kvs t) =
     (case map_of (rev kvs) k of Some v \<Rightarrow> Some v | None \<Rightarrow> get k t)"
  by (induction kvs arbitrary: t)
    (auto simp: get_put map_add_def split: option.splits)

lemma get_put_del: "get k (del k' (put k' v t)) = get k (del k' t)"
  by (simp add: get_del get_put)

lemma get_dels: "get k (fold del ks t) = (if k \<in> set ks then None else get k t)"
  by (induction ks arbitrary: t) (auto simp: get_del)

end

end
