(* ===== verification/Rust_Text.thy ===== *)
theory Rust_Text
  imports Prelude
begin

text \<open>
  Rust strings. A \<open>str\<close> is the list of its UTF-8 bytes, each written as a HOL
  \<^typ>\<open>char\<close> (an 8-bit value); every character the code compares with is ASCII,
  and no byte of a multi-byte UTF-8 sequence is, so iterating bytes and iterating
  Unicode scalar values agree there. The theory holds the conversion to and from
  bytes, UTF-8 validation as \<open>std::str::from_utf8\<close> does it, its lossy variant,
  and the string operations the code calls.
\<close>

section \<open>Bytes and strings\<close>

definition as_bytes :: "string \<Rightarrow> bytes" where
  "as_bytes s = map of_char s"

definition str_of_bytes :: "bytes \<Rightarrow> string" where
  "str_of_bytes bs = map (\<lambda>b. char_of (unat b)) bs"

lemma unat_of_char_byte: "unat (of_char c :: u8) = of_char c"
proof -
  have "(of_char c :: u8) = of_nat (of_char c)"
    by (simp add: of_nat_of_char)
  then show ?thesis by (simp add: unat_of_nat_fits)
qed

lemma of_char_char_of_unat: "of_char (char_of (unat b) :: char) = (b :: u8)"
proof -
  have "of_char (char_of (unat b) :: char) = (of_nat (of_char (char_of (unat b) :: char)) :: u8)"
    by (simp only: of_nat_of_char)
  also have "\<dots> = b" using unat_byte_less [of b] by (simp only: of_char_of) simp
  finally show ?thesis .
qed

lemma str_of_as_bytes [simp]: "str_of_bytes (as_bytes s) = s"
  by (simp add: str_of_bytes_def as_bytes_def comp_def unat_of_char_byte)

lemma as_bytes_str_of [simp]: "as_bytes (str_of_bytes bs) = bs"
  by (simp add: str_of_bytes_def as_bytes_def comp_def of_char_char_of_unat)

lemma length_as_bytes [simp]: "length (as_bytes s) = length s"
  by (simp add: as_bytes_def)

lemma as_bytes_eq_iff [simp]: "as_bytes s = as_bytes t \<longleftrightarrow> s = t"
  by (metis str_of_as_bytes)

lemma as_bytes_empty_iff [simp]: "as_bytes s = [] \<longleftrightarrow> s = []"
  by (simp add: as_bytes_def)

lemma as_bytes_append [simp]: "as_bytes (s @ t) = as_bytes s @ as_bytes t"
  by (simp add: as_bytes_def)

section \<open>UTF-8\<close>

definition in_range :: "u8 \<Rightarrow> u8 \<Rightarrow> u8 \<Rightarrow> bool" where
  "in_range lo hi b \<longleftrightarrow> lo \<le> b \<and> b \<le> hi"

abbreviation utf8_cont :: "u8 \<Rightarrow> bool" where
  "utf8_cont b \<equiv> in_range 0x80 0xBF b"

definition utf8_width :: "u8 \<Rightarrow> nat" where
  "utf8_width b =
     (if b < 0x80 then 1 else if in_range 0xC2 0xDF b then 2
      else if in_range 0xE0 0xEF b then 3 else if in_range 0xF0 0xF4 b then 4 else 0)"

text \<open>The second byte of a three- or four-byte sequence, by its first.\<close>

definition utf8_second :: "u8 \<Rightarrow> u8 \<Rightarrow> bool" where
  "utf8_second b0 b1 =
     (if b0 = 0xE0 then in_range 0xA0 0xBF b1 else if b0 = 0xED then in_range 0x80 0x9F b1
      else if b0 = 0xF0 then in_range 0x90 0xBF b1 else if b0 = 0xF4 then in_range 0x80 0x8F b1
      else utf8_cont b1)"

text \<open>
  The sequence at the front of a non-empty buffer: well-formed with so many
  continuation bytes, or ill-formed after so many bytes (\<open>None\<close>: cut off by the
  end of the buffer), which is \<open>Utf8Error::error_len\<close>.
\<close>

datatype utf8_head = Utf8_Ok nat | Utf8_Err "nat option"

fun utf8_tail :: "nat \<Rightarrow> nat \<Rightarrow> bytes \<Rightarrow> utf8_head" where
  "utf8_tail 0 k bs = Utf8_Ok k"
| "utf8_tail (Suc n) k [] = Utf8_Err None"
| "utf8_tail (Suc n) k (b # bs) =
     (if utf8_cont b then utf8_tail n (Suc k) bs else Utf8_Err (Some (Suc k)))"

definition utf8_head :: "u8 \<Rightarrow> bytes \<Rightarrow> utf8_head" where
  "utf8_head b bs =
     (case utf8_width b of
        0 \<Rightarrow> Utf8_Err (Some 1)
      | Suc 0 \<Rightarrow> Utf8_Ok 0
      | Suc (Suc n) \<Rightarrow>
          (case bs of
             [] \<Rightarrow> Utf8_Err None
           | b1 # rest \<Rightarrow> if utf8_second b b1 then utf8_tail n 1 rest else Utf8_Err (Some 1)))"

fun utf8_check :: "nat \<Rightarrow> bytes \<Rightarrow> nat option" where
  "utf8_check pos [] = None"
| "utf8_check pos (b # bs) =
     (case utf8_head b bs of
        Utf8_Ok k \<Rightarrow> utf8_check (pos + Suc k) (drop k bs)
      | Utf8_Err _ \<Rightarrow> Some pos)"

text \<open>\<open>std::str::from_utf8\<close>; the error is \<open>Utf8Error::valid_up_to\<close>.\<close>

definition from_utf8 :: "bytes \<Rightarrow> nat + string" where
  "from_utf8 bs = (case utf8_check 0 bs of None \<Rightarrow> Inr (str_of_bytes bs) | Some pos \<Rightarrow> Inl pos)"

definition replacement_character :: string where
  "replacement_character = str_of_bytes [0xEF, 0xBF, 0xBD]"

fun from_utf8_lossy :: "bytes \<Rightarrow> string" where
  "from_utf8_lossy [] = []"
| "from_utf8_lossy (b # bs) =
     (case utf8_head b bs of
        Utf8_Ok k \<Rightarrow> str_of_bytes (b # take k bs) @ from_utf8_lossy (drop k bs)
      | Utf8_Err (Some n) \<Rightarrow> replacement_character @ from_utf8_lossy (drop (n - 1) bs)
      | Utf8_Err None \<Rightarrow> replacement_character)"

lemma from_utf8_Inr: "from_utf8 bs = Inr s \<Longrightarrow> as_bytes s = bs"
  by (auto simp: from_utf8_def split: option.splits)

lemma utf8_check_valid_up_to: "utf8_check pos bs = Some n \<Longrightarrow> pos \<le> n \<and> n < pos + length bs"
proof (induction pos bs rule: utf8_check.induct)
  case (1 pos)
  then show ?case by simp
next
  case (2 pos b bs)
  show ?case
  proof (cases "utf8_head b bs")
    case (Utf8_Ok k)
    with 2 have "pos + Suc k \<le> n \<and> n < pos + Suc k + length (drop k bs)" by simp
    moreover from this have "k \<le> length bs" by (cases "k \<le> length bs") auto
    ultimately show ?thesis by simp
  next
    case Utf8_Err
    with 2 show ?thesis by simp
  qed
qed

lemma lossy_eq_str:
  "utf8_check pos bs = None \<Longrightarrow> from_utf8_lossy bs = str_of_bytes bs"
proof (induction pos bs rule: utf8_check.induct)
  case (2 pos b bs)
  then obtain k where "utf8_head b bs = Utf8_Ok k" "utf8_check (pos + Suc k) (drop k bs) = None"
    by (auto split: utf8_head.splits)
  with 2 show ?case
    by (simp add: str_of_bytes_def flip: map_append)
qed (simp add: str_of_bytes_def)

lemma lossy_of_valid: "from_utf8 bs = Inr s \<Longrightarrow> from_utf8_lossy bs = s"
  by (auto simp: from_utf8_def lossy_eq_str split: option.splits)

lemma utf8_check_ascii: "list_all (\<lambda>b. b < 0x80) bs \<Longrightarrow> utf8_check pos bs = None"
  by (induction bs arbitrary: pos) (simp_all add: utf8_head_def utf8_width_def)

definition ascii_str :: "string \<Rightarrow> bool" where
  "ascii_str s \<longleftrightarrow> list_all (\<lambda>c. of_char c < (0x80 :: nat)) s"

lemma from_utf8_ascii: "ascii_str s \<Longrightarrow> from_utf8 (as_bytes s) = Inr s"
proof -
  assume "ascii_str s"
  then have "list_all (\<lambda>b. b < 0x80) (as_bytes s)"
    by (auto simp: ascii_str_def as_bytes_def list_all_iff word_less_nat_alt unat_of_char_byte)
  then show ?thesis by (simp add: from_utf8_def utf8_check_ascii)
qed

section \<open>String operations\<close>

definition starts_with :: "string \<Rightarrow> string \<Rightarrow> bool" where
  "starts_with s p \<longleftrightarrow> take (length p) s = p"

definition strip_prefix :: "string \<Rightarrow> string \<Rightarrow> string option" where
  "strip_prefix s p = (if starts_with s p then Some (drop (length p) s) else None)"

text \<open>\<open>str::split\<close> on one character: never empty, adjacent separators give empty pieces.\<close>

fun split_on :: "char \<Rightarrow> string \<Rightarrow> string list" where
  "split_on c [] = [[]]"
| "split_on c (x # xs) =
     (if x = c then [] # split_on c xs
      else (case split_on c xs of [] \<Rightarrow> [[x]] | t # ts \<Rightarrow> (x # t) # ts))"

fun join_with :: "char \<Rightarrow> string list \<Rightarrow> string" where
  "join_with c [] = []"
| "join_with c [t] = t"
| "join_with c (t # ts) = t @ c # join_with c ts"

text \<open>\<open>str::replace\<close> of one character by a string.\<close>

definition replace_char :: "char \<Rightarrow> string \<Rightarrow> string \<Rightarrow> string" where
  "replace_char c r s = concat (map (\<lambda>x. if x = c then r else [x]) s)"

definition trim_end_matches :: "char \<Rightarrow> string \<Rightarrow> string" where
  "trim_end_matches c s = rev (dropWhile (\<lambda>x. x = c) (rev s))"

lemma starts_with_iff: "starts_with s p \<longleftrightarrow> (\<exists>r. s = p @ r)"
  by (metis append_eq_conv_conj append_take_drop_id starts_with_def)

lemma strip_prefix_Some_iff: "strip_prefix s p = Some r \<longleftrightarrow> s = p @ r"
  by (auto simp: strip_prefix_def starts_with_def) (metis append_take_drop_id)

lemma strip_prefix_append [simp]: "strip_prefix (p @ r) p = Some r"
  by (simp add: strip_prefix_Some_iff)

lemma split_on_nonempty [simp]: "split_on c s \<noteq> []"
  by (induction s) (auto split: list.splits)

lemma join_split_on: "join_with c (split_on c s) = s"
proof (induction s)
  case (Cons x xs)
  then show ?case
    by (cases "split_on c xs"; cases "tl (split_on c xs)") (auto split: list.splits)
qed simp

lemma split_on_tokens: "t \<in> set (split_on c s) \<Longrightarrow> c \<notin> set t"
  by (induction s arbitrary: t) (auto split: if_splits list.splits)

lemma split_on_no_sep: "c \<notin> set t \<Longrightarrow> split_on c t = [t]"
  by (induction t) auto

lemma split_on_append_sep: "c \<notin> set t \<Longrightarrow> split_on c (t @ c # s) = t # split_on c s"
  by (induction t) auto

lemma split_on_join:
  "ts \<noteq> [] \<Longrightarrow> list_all (\<lambda>t. c \<notin> set t) ts \<Longrightarrow> split_on c (join_with c ts) = ts"
  by (induction c ts rule: join_with.induct)
    (auto simp: split_on_no_sep split_on_append_sep)

lemma replace_char_simps [simp]:
  "replace_char c r [] = []"
  "replace_char c r (x # xs) = (if x = c then r else [x]) @ replace_char c r xs"
  by (simp_all add: replace_char_def)

lemma replace_char_append [simp]:
  "replace_char c r (xs @ ys) = replace_char c r xs @ replace_char c r ys"
  by (simp add: replace_char_def)

lemma replace_char_absent: "c \<notin> set s \<Longrightarrow> replace_char c r s = s"
  by (induction s) auto

lemma trim_end_matches_last:
  "trim_end_matches c s \<noteq> [] \<Longrightarrow> last (trim_end_matches c s) \<noteq> c"
  using hd_dropWhile [of "\<lambda>x. x = c" "rev s"]
  by (simp add: trim_end_matches_def last_rev del: dropWhile_eq_Nil_conv)

lemma trim_end_matches_prefix:
  "\<exists>n. s = trim_end_matches c s @ replicate n c"
proof -
  have "rev s = takeWhile (\<lambda>x. x = c) (rev s) @ dropWhile (\<lambda>x. x = c) (rev s)" by simp
  moreover have "takeWhile (\<lambda>x. x = c) (rev s)
      = replicate (length (takeWhile (\<lambda>x. x = c) (rev s))) c"
    by (metis (mono_tags, lifting) replicate_length_same set_takeWhileD)
  ultimately have "s = rev (dropWhile (\<lambda>x. x = c) (rev s))
      @ rev (replicate (length (takeWhile (\<lambda>x. x = c) (rev s))) c)"
    by (metis rev_append rev_rev_ident)
  then show ?thesis by (auto simp: trim_end_matches_def)
qed

section \<open>Number rendering\<close>

definition hex_digit :: "nat \<Rightarrow> char" where
  "hex_digit d = (if d < 10 then char_of (48 + d) else char_of (87 + d))"

fun dec_str :: "nat \<Rightarrow> string" where
  "dec_str n = (if n < 10 then [hex_digit n] else dec_str (n div 10) @ [hex_digit (n mod 10)])"

declare dec_str.simps [simp del]

text \<open>The format \<open>{:04x}\<close> on a 16-bit value.\<close>

definition hex4 :: "u16 \<Rightarrow> string" where
  "hex4 w = map (\<lambda>k. hex_digit (unat w div k mod 16)) [4096, 256, 16, 1]"

lemma dec_str_ascii: "ascii_str (dec_str n)"
proof (induction n rule: dec_str.induct)
  case (1 n)
  have "n mod 10 < 80" by (rule less_trans [of _ 10]) simp_all
  with 1 show ?case
    by (subst dec_str.simps) (simp add: ascii_str_def hex_digit_def)
qed

end
