(* ===== verification/Bulk_Transfer.thy ===== *)
theory Bulk_Transfer
  imports Rust_Text
begin

text \<open>
  Flow control for bulk transfers, \<^verbatim>\<open>src/stream.rs\<close>: the replay ring, the
  per-transfer control shared by the producer and the inbound handlers, the
  transfer table and its idle watchdog.

  Every method of \<^verbatim>\<open>TransferControl\<close> takes the one mutex for its whole body, so
  it is one atomic update of the state; \<open>now\<close> is the \<^verbatim>\<open>Instant::now()\<close> it reads, in
  nanoseconds. The two waits release the mutex while parked: they are loops over a
  schedule of wake-ups, each with the operations other threads ran meanwhile.
  \<^verbatim>\<open>PeerHandle\<close> is a type parameter. Arithmetic on \<^verbatim>\<open>u64\<close> offsets wraps, as in a
  release build; the \<^verbatim>\<open>debug_assert!\<close> of \<^verbatim>\<open>push\<close> is the hypothesis \<open>abuts\<close>.
\<close>

type_synonym instant = nat

section \<open>The replay ring\<close>

record RingChunk =
  c_offset :: u64
  c_data_len :: u64
  c_last :: bool
  c_body_bytes :: bytes

record ReplayRing =
  r_chunks :: "RingChunk list"
  r_bytes_held :: u64
  r_capacity_bytes :: u64

definition ring_new :: "u64 \<Rightarrow> ReplayRing" where
  "ring_new capacity_bytes =
     \<lparr>r_chunks = [], r_bytes_held = 0, r_capacity_bytes = capacity_bytes\<rparr>"

text \<open>The loop \<^verbatim>\<open>while self.bytes_held > self.capacity_bytes && self.chunks.len() > 1\<close>.\<close>

fun ring_evict :: "u64 \<Rightarrow> u64 \<Rightarrow> RingChunk list \<Rightarrow> u64 \<times> RingChunk list" where
  "ring_evict cap held (front # c # cs) =
     (if held > cap
      then ring_evict cap (saturating_sub held (of_nat (length (c_body_bytes front)))) (c # cs)
      else (held, front # c # cs))"
| "ring_evict cap held cs = (held, cs)"

definition ring_push :: "u64 \<Rightarrow> u64 \<Rightarrow> bool \<Rightarrow> bytes \<Rightarrow> ReplayRing \<Rightarrow> ReplayRing" where
  "ring_push offset data_len last' body_bytes r =
     (let wire_len = of_nat (length body_bytes);
          chunks = r_chunks r @ [\<lparr>c_offset = offset, c_data_len = data_len, c_last = last',
                                  c_body_bytes = body_bytes\<rparr>];
          bytes_held = saturating_add (r_bytes_held r) wire_len;
          (held, chunks) = ring_evict (r_capacity_bytes r) bytes_held chunks
      in r\<lparr>r_chunks := chunks, r_bytes_held := held\<rparr>)"

definition ring_clear :: "ReplayRing \<Rightarrow> ReplayRing" where
  "ring_clear r = r\<lparr>r_chunks := [], r_bytes_held := 0\<rparr>"

definition chunk_end :: "RingChunk \<Rightarrow> u64" where
  "chunk_end c = c_offset c + c_data_len c"

definition highest_end_offset :: "ReplayRing \<Rightarrow> u64 option" where
  "highest_end_offset r =
     (if r_chunks r = [] then None else Some (chunk_end (last (r_chunks r))))"

definition covers :: "u64 \<Rightarrow> ReplayRing \<Rightarrow> bool" where
  "covers offset r =
     (if r_chunks r = [] then offset = 0
      else list_ex (\<lambda>chunk. c_offset chunk = offset) (r_chunks r)
           \<or> highest_end_offset r = Some offset)"

definition replay_from :: "u64 \<Rightarrow> ReplayRing \<Rightarrow> RingChunk list" where
  "replay_from offset r = filter (\<lambda>c. c_offset c \<ge> offset) (r_chunks r)"

section \<open>The transfer control\<close>

datatype CreditError = CE_Cancelled string | CE_Timeout

record PendingResume =
  p_resume_at_offset :: u64

datatype ReconnectOutcome = RO_ResumeReady PendingResume | RO_Cancelled string | RO_Timeout

datatype ResumeRejection = RR_WrongFileIndex u32 u32 | RR_OutOfWindow | RR_Cancelled

definition credit_error_display :: "CreditError \<Rightarrow> string" where
  "credit_error_display e =
     (case e of
        CE_Cancelled reason \<Rightarrow> ''transfer cancelled: '' @ reason
      | CE_Timeout \<Rightarrow> ''credit timeout'')"

definition resume_rejection_reason :: "ResumeRejection \<Rightarrow> string" where
  "resume_rejection_reason r =
     (case r of
        RR_WrongFileIndex _ _ \<Rightarrow> ''wrong_file_index''
      | RR_OutOfWindow \<Rightarrow> ''out_of_window''
      | RR_Cancelled \<Rightarrow> ''transfer_cancelled'')"

record 'p TransferControl =
  t_window_bytes :: u64
  t_sent_offset :: u64
  t_acked_offset :: u64
  t_current_file_index :: u32
  t_cancelled :: "string option"
  t_last_chunk_at :: instant
  t_last_ack_at :: instant
  t_replay :: ReplayRing
  t_peer :: "'p option"
  t_pending_resume :: "PendingResume option"

definition DEFAULT_WINDOW_BYTES :: u64 where
  "DEFAULT_WINDOW_BYTES = 64 * 1024 * 1024"

definition DEFAULT_REPLAY_RING_BYTES :: u64 where
  "DEFAULT_REPLAY_RING_BYTES = 64 * 1024 * 1024"

definition with_replay_capacity :: "instant \<Rightarrow> u64 \<Rightarrow> u64 \<Rightarrow> 'p TransferControl" where
  "with_replay_capacity now window_bytes replay_capacity_bytes =
     \<lparr>t_window_bytes = window_bytes, t_sent_offset = 0, t_acked_offset = 0,
      t_current_file_index = 0, t_cancelled = None, t_last_chunk_at = now, t_last_ack_at = now,
      t_replay = ring_new replay_capacity_bytes, t_peer = None, t_pending_resume = None\<rparr>"

definition control_new :: "instant \<Rightarrow> u64 \<Rightarrow> 'p TransferControl" where
  "control_new now window_bytes = with_replay_capacity now window_bytes DEFAULT_REPLAY_RING_BYTES"

definition set_peer :: "'p \<Rightarrow> 'p TransferControl \<Rightarrow> 'p TransferControl" where
  "set_peer peer g = g\<lparr>t_peer := Some peer\<rparr>"

definition push_replay ::
    "u64 \<Rightarrow> u64 \<Rightarrow> bool \<Rightarrow> bytes \<Rightarrow> 'p TransferControl \<Rightarrow> 'p TransferControl" where
  "push_replay offset data_len last' body_bytes g =
     g\<lparr>t_replay := ring_push offset data_len last' body_bytes (t_replay g)\<rparr>"

definition replay_chunks_from :: "u64 \<Rightarrow> 'p TransferControl \<Rightarrow> RingChunk list" where
  "replay_chunks_from offset g = replay_from offset (t_replay g)"

definition request_resume ::
    "instant \<Rightarrow> 'p \<Rightarrow> u32 \<Rightarrow> u64 \<Rightarrow> 'p TransferControl
      \<Rightarrow> (ResumeRejection + u64) \<times> 'p TransferControl" where
  "request_resume now new_peer file_index last_received_offset g =
     (if t_cancelled g \<noteq> None then (Inl RR_Cancelled, g)
      else if file_index \<noteq> t_current_file_index g
      then (Inl (RR_WrongFileIndex file_index (t_current_file_index g)), g)
      else if \<not> covers last_received_offset (t_replay g) then (Inl RR_OutOfWindow, g)
      else
        let g = g\<lparr>t_peer := Some new_peer\<rparr>;
            g = g\<lparr>t_pending_resume := Some \<lparr>p_resume_at_offset = last_received_offset\<rparr>\<rparr>;
            g = g\<lparr>t_last_chunk_at := now, t_last_ack_at := now\<rparr>;
            g = (if last_received_offset > t_acked_offset g
                    \<and> last_received_offset \<le> t_sent_offset g
                 then g\<lparr>t_acked_offset := last_received_offset\<rparr> else g)
        in (Inr last_received_offset, g))"

definition record_sent :: "instant \<Rightarrow> u64 \<Rightarrow> 'p TransferControl \<Rightarrow> 'p TransferControl" where
  "record_sent now new_offset g =
     (let g = (if new_offset > t_sent_offset g then g\<lparr>t_sent_offset := new_offset\<rparr> else g)
      in g\<lparr>t_last_chunk_at := now\<rparr>)"

definition record_ack :: "instant \<Rightarrow> u32 \<Rightarrow> u64 \<Rightarrow> 'p TransferControl \<Rightarrow> 'p TransferControl" where
  "record_ack now file_index received_through_offset g =
     (let g = g\<lparr>t_last_ack_at := now\<rparr>
      in if file_index = t_current_file_index g
         then let capped = min received_through_offset (t_sent_offset g)
              in if capped > t_acked_offset g then g\<lparr>t_acked_offset := capped\<rparr> else g
         else g)"

definition cancel :: "string \<Rightarrow> 'p TransferControl \<Rightarrow> 'p TransferControl" where
  "cancel reason g = (if t_cancelled g = None then g\<lparr>t_cancelled := Some reason\<rparr> else g)"

definition is_cancelled :: "'p TransferControl \<Rightarrow> bool" where
  "is_cancelled g \<longleftrightarrow> t_cancelled g \<noteq> None"

definition advance_to_file :: "instant \<Rightarrow> u32 \<Rightarrow> 'p TransferControl \<Rightarrow> 'p TransferControl" where
  "advance_to_file now next_file_index g =
     g\<lparr>t_current_file_index := next_file_index, t_sent_offset := 0, t_acked_offset := 0,
       t_replay := ring_clear (t_replay g), t_pending_resume := None,
       t_last_chunk_at := now, t_last_ack_at := now\<rparr>"

definition timestamps :: "'p TransferControl \<Rightarrow> instant \<times> instant" where
  "timestamps g = (t_last_chunk_at g, t_last_ack_at g)"

definition offsets :: "'p TransferControl \<Rightarrow> u64 \<times> u64" where
  "offsets g = (t_sent_offset g, t_acked_offset g)"

section \<open>Operations and waits\<close>

datatype 'p control_op =
    SetPeer 'p
  | PushReplay u64 u64 bool bytes
  | RequestResume 'p u32 u64
  | RecordSent u64
  | RecordAck u32 u64
  | Cancel string
  | AdvanceToFile u32

fun control_apply :: "instant \<times> 'p control_op \<Rightarrow> 'p TransferControl \<Rightarrow> 'p TransferControl" where
  "control_apply (now, SetPeer p) g = set_peer p g"
| "control_apply (now, PushReplay off len lst body) g = push_replay off len lst body g"
| "control_apply (now, RequestResume p fi off) g = snd (request_resume now p fi off g)"
| "control_apply (now, RecordSent off) g = record_sent now off g"
| "control_apply (now, RecordAck fi off) g = record_ack now fi off g"
| "control_apply (now, Cancel reason) g = cancel reason g"
| "control_apply (now, AdvanceToFile fi) g = advance_to_file now fi g"

text \<open>
  A wake-up of the condvar: what the other threads did while the caller was
  parked, in order, and the time read on waking.
\<close>

type_synonym 'p wakeup = "(instant \<times> 'p control_op) list \<times> instant"

text \<open>\<open>None\<close> means that the caller is still parked when the schedule ends.\<close>

fun wait_for_credit ::
    "u64 \<Rightarrow> instant \<Rightarrow> instant \<Rightarrow> 'p wakeup list \<Rightarrow> 'p TransferControl
      \<Rightarrow> (CreditError + unit) option \<times> 'p TransferControl" where
  "wait_for_credit chunk_len deadline now schedule guard =
     (case t_cancelled guard of
        Some reason \<Rightarrow> (Some (Inl (CE_Cancelled reason)), guard)
      | None \<Rightarrow>
          let in_flight = saturating_sub (t_sent_offset guard) (t_acked_offset guard)
          in if in_flight = 0 \<or> in_flight + chunk_len \<le> t_window_bytes guard
             then (Some (Inr ()), guard)
             else if now \<ge> deadline then (Some (Inl CE_Timeout), guard)
             else (case schedule of
                     [] \<Rightarrow> (None, guard)
                   | (others, now') # rest \<Rightarrow>
                       wait_for_credit chunk_len deadline now' rest (fold control_apply others guard)))"

fun reconnect_loop ::
    "instant \<Rightarrow> instant \<Rightarrow> 'p wakeup list \<Rightarrow> 'p TransferControl
      \<Rightarrow> ReconnectOutcome option \<times> 'p TransferControl" where
  "reconnect_loop deadline now schedule g =
     (case t_cancelled g of
        Some reason \<Rightarrow> (Some (RO_Cancelled reason), g)
      | None \<Rightarrow>
          (case t_pending_resume g of
             Some pending \<Rightarrow> (Some (RO_ResumeReady pending), g\<lparr>t_pending_resume := None\<rparr>)
           | None \<Rightarrow>
               if now \<ge> deadline then (Some RO_Timeout, g)
               else (case schedule of
                       [] \<Rightarrow> (None, g)
                     | (others, now') # rest \<Rightarrow>
                         reconnect_loop deadline now' rest (fold control_apply others g))))"

definition wait_for_reconnect ::
    "nat \<Rightarrow> instant \<Rightarrow> 'p wakeup list \<Rightarrow> 'p TransferControl
      \<Rightarrow> ReconnectOutcome option \<times> 'p TransferControl" where
  "wait_for_reconnect timeout now schedule g = reconnect_loop (now + timeout) now schedule g"

section \<open>The transfer table and the watchdog\<close>

text \<open>
  Controls are shared (\<^verbatim>\<open>Arc\<close>), so the table maps keys to references into a store of
  controls. A snapshot is the table's entries in the unspecified order of the
  \<^verbatim>\<open>HashMap\<close>'s iterator, which is an argument.
\<close>

type_synonym 'k transfer_table = "'k \<rightharpoonup> nat"
type_synonym 'p control_store = "nat \<Rightarrow> 'p TransferControl"

definition table_new :: "'k transfer_table" where
  "table_new = Map.empty"

definition table_register :: "'k \<Rightarrow> nat \<Rightarrow> 'k transfer_table \<Rightarrow> 'k transfer_table" where
  "table_register key control m = m(key \<mapsto> control)"

definition table_unregister :: "'k \<Rightarrow> 'k transfer_table \<Rightarrow> nat option \<times> 'k transfer_table" where
  "table_unregister key m = (m key, m(key := None))"

definition table_get :: "'k \<Rightarrow> 'k transfer_table \<Rightarrow> nat option" where
  "table_get key m = m key"

definition table_snapshot :: "'k list \<Rightarrow> 'k transfer_table \<Rightarrow> ('k \<times> nat) list" where
  "table_snapshot order m = List.map_filter (\<lambda>k. map_option (Pair k) (m k)) order"

definition watchdog_tick :: "nat \<Rightarrow> nat" where
  "watchdog_tick idle_timeout = max (min (idle_timeout div 4) 5000000000) 1000000000"

definition watchdog_check :: "instant \<Rightarrow> nat \<Rightarrow> 'p TransferControl \<Rightarrow> 'p TransferControl" where
  "watchdog_check now idle_timeout control =
     (if is_cancelled control then control
      else let (last_chunk_at, last_ack_at) = timestamps control;
               last_progress = max last_chunk_at last_ack_at
           in if now - last_progress \<ge> idle_timeout then cancel ''transfer idle'' control
              else control)"

definition watchdog_scan ::
    "instant \<Rightarrow> nat \<Rightarrow> ('k \<times> nat) list \<Rightarrow> 'p control_store \<Rightarrow> 'p control_store" where
  "watchdog_scan now idle_timeout snapshot store =
     fold (\<lambda>(key, control) store. store(control := watchdog_check now idle_timeout (store control)))
       snapshot store"

text \<open>
  Each element of the schedule is one tick: what the other threads did during the
  sleep, and the time and snapshot the thread then reads, or \<open>None\<close> once the last
  strong reference to the table is gone. The flag says whether the thread has
  exited.
\<close>

fun watchdog_loop ::
    "nat \<Rightarrow> (('p control_store \<Rightarrow> 'p control_store) \<times> (instant \<times> ('k \<times> nat) list) option) list
      \<Rightarrow> 'p control_store \<Rightarrow> bool \<times> 'p control_store" where
  "watchdog_loop idle_timeout [] store = (False, store)"
| "watchdog_loop idle_timeout ((others, None) # ticks) store = (True, others store)"
| "watchdog_loop idle_timeout ((others, Some (now, snapshot)) # ticks) store =
     watchdog_loop idle_timeout ticks (watchdog_scan now idle_timeout snapshot (others store))"

declare wait_for_credit.simps [simp del] reconnect_loop.simps [simp del]

section \<open>The replay ring holds the tail of what was emitted\<close>

definition wire_bytes :: "RingChunk list \<Rightarrow> nat" where
  "wire_bytes cs = sum_list (map (\<lambda>c. length (c_body_bytes c)) cs)"

definition end_from :: "nat \<Rightarrow> RingChunk list \<Rightarrow> nat" where
  "end_from s cs = s + sum_list (map (\<lambda>c. unat (c_data_len c)) cs)"

text \<open>Chunks that abut from offset \<open>s\<close> on, none empty, and whose end fits 64 bits.\<close>

fun abuts :: "nat \<Rightarrow> RingChunk list \<Rightarrow> bool" where
  "abuts s [] \<longleftrightarrow> s < 2 ^ 64"
| "abuts s (c # cs) \<longleftrightarrow>
     unat (c_offset c) = s \<and> 0 < unat (c_data_len c) \<and> abuts (s + unat (c_data_len c)) cs"

lemma wire_bytes_simps [simp]:
  "wire_bytes [] = 0"
  "wire_bytes (c # cs) = length (c_body_bytes c) + wire_bytes cs"
  "wire_bytes (cs @ ds) = wire_bytes cs + wire_bytes ds"
  by (simp_all add: wire_bytes_def)

lemma end_from_simps [simp]:
  "end_from s [] = s"
  "end_from s (c # cs) = end_from (s + unat (c_data_len c)) cs"
  "end_from s (cs @ ds) = end_from (end_from s cs) ds"
  by (simp_all add: end_from_def)

lemma end_from_ge: "s \<le> end_from s cs"
  by (simp add: end_from_def)

lemma abuts_end: "abuts s cs \<Longrightarrow> end_from s cs < 2 ^ 64"
  by (induction cs arbitrary: s) auto

lemma abuts_append: "abuts s (cs @ ds) \<longleftrightarrow> abuts s cs \<and> abuts (end_from s cs) ds"
proof (induction cs arbitrary: s)
  case Nil
  have "abuts s ds \<Longrightarrow> s < 2 ^ 64" using abuts_end end_from_ge le_less_trans by blast
  then show ?case by auto
qed auto

lemma abuts_prefix_below:
  assumes "abuts s cs" and "c \<in> set cs"
  shows "unat (c_offset c) < end_from s cs"
  using assms
proof (induction cs arbitrary: s)
  case (Cons d ds)
  show ?case
  proof (cases "c = d")
    case True
    with Cons.prems(1) end_from_ge [of "s + unat (c_data_len d)" ds] show ?thesis by simp
  next
    case False
    with Cons show ?thesis by simp
  qed
qed simp

lemma abuts_above:
  assumes "abuts s cs" and "c \<in> set cs"
  shows "s \<le> unat (c_offset c)"
  using assms by (induction cs arbitrary: s) fastforce+

lemma abuts_split_eq:
  assumes "abuts s (p @ q)" and "p @ q = p' @ q'" and "end_from s p = end_from s p'"
  shows "p = p' \<and> q = q'"
proof -
  have strict: "end_from s u < end_from s (u @ w)" if "abuts s (u @ w)" "w \<noteq> []" for u w
  proof -
    from that obtain c cs where w: "w = c # cs" by (cases w) auto
    with that(1) have "0 < unat (c_data_len c)" by (simp add: abuts_append)
    with end_from_ge [of "end_from s u + unat (c_data_len c)" cs] show ?thesis by (simp add: w)
  qed
  from assms(2) obtain w where "(p = p' @ w \<and> w @ q = q') \<or> (p @ w = p' \<and> q = w @ q')"
    by (auto simp: append_eq_append_conv2)
  then show ?thesis
  proof
    assume *: "p = p' @ w \<and> w @ q = q'"
    with assms(1) have "abuts s (p' @ w)" by (auto simp: abuts_append)
    with strict * assms(3) show ?thesis by fastforce
  next
    assume *: "p @ w = p' \<and> q = w @ q'"
    with assms(1) have "abuts s (p @ w)" by (auto simp: abuts_append)
    with strict * assms(3) show ?thesis by fastforce
  qed
qed

lemma filter_from_boundary:
  assumes "abuts s (p @ q)"
  shows "filter (\<lambda>c. c_offset c \<ge> of_nat (end_from s p)) p = []"
    and "filter (\<lambda>c. c_offset c \<ge> of_nat (end_from s p)) q = q"
proof -
  from assms have p: "abuts s p" and q: "abuts (end_from s p) q" by (simp_all add: abuts_append)
  from abuts_end [OF p] have "unat (of_nat (end_from s p) :: u64) = end_from s p"
    by (simp add: unat_of_nat)
  then show "filter (\<lambda>c. c_offset c \<ge> of_nat (end_from s p)) p = []"
    and "filter (\<lambda>c. c_offset c \<ge> of_nat (end_from s p)) q = q"
    using abuts_prefix_below [OF p] abuts_above [OF q]
    by (auto simp: filter_empty_conv filter_id_conv word_le_nat_alt not_le)
qed

text \<open>
  The ring against the log of all chunks emitted for the file: it holds a suffix,
  never loses the newest chunk, counts its wire bytes exactly, and respects the
  capacity unless a single chunk exceeds it.
\<close>

definition ring_of :: "RingChunk list \<Rightarrow> ReplayRing \<Rightarrow> bool" where
  "ring_of log r \<longleftrightarrow>
     (\<exists>evicted. log = evicted @ r_chunks r) \<and> (log \<noteq> [] \<longrightarrow> r_chunks r \<noteq> [])
     \<and> unat (r_bytes_held r) = wire_bytes (r_chunks r)
     \<and> (r_bytes_held r \<le> r_capacity_bytes r \<or> length (r_chunks r) \<le> 1)"

lemma ring_evict_spec:
  assumes "unat held = wire_bytes cs" and "ring_evict cap held cs = (held', cs')"
  shows "(\<exists>evicted. cs = evicted @ cs') \<and> (cs \<noteq> [] \<longrightarrow> cs' \<noteq> []) \<and> unat held' = wire_bytes cs'
    \<and> (held' \<le> cap \<or> length cs' \<le> 1)"
  using assms
proof (induction cap held cs rule: ring_evict.induct)
  case (1 cap held front c cs)
  show ?case
  proof (cases "held > cap")
    case True
    let ?len = "length (c_body_bytes front)"
    have "unat held < 2 ^ 64" using unsigned_less [of held, where 'a = nat] by simp
    with "1.prems"(1) have "unat (of_nat ?len :: u64) = ?len" by (simp add: unat_of_nat)
    with "1.prems"(1) have "unat (saturating_sub held (of_nat ?len)) = wire_bytes (c # cs)"
      by (simp add: unat_saturating_sub)
    from "1.IH" [OF True this] "1.prems"(2) True show ?thesis
      by simp (metis append_Cons)
  next
    case False
    with "1.prems" show ?thesis by auto
  qed
qed auto

text \<open>Eviction stops as soon as it can: one chunk more would exceed the capacity.\<close>

lemma ring_evict_minimal:
  assumes "unat held = wire_bytes cs" and "ring_evict cap held cs = (held', cs')"
    and "cs = evicted @ [c] @ cs'"
  shows "unat cap < wire_bytes ([c] @ cs')"
  using assms
proof (induction cap held cs arbitrary: evicted rule: ring_evict.induct)
  case (1 cap held front d cs)
  show ?case
  proof (cases "held > cap")
    case True
    let ?held = "saturating_sub held (of_nat (length (c_body_bytes front)))"
    have "unat held < 2 ^ 64" using unsigned_less [of held, where 'a = nat] by simp
    with "1.prems"(1) have held: "unat ?held = wire_bytes (d # cs)"
      by (simp add: unat_saturating_sub unat_of_nat)
    show ?thesis
    proof (cases evicted)
      case Nil
      with "1.prems" True show ?thesis by (auto simp: word_less_nat_alt)
    next
      case (Cons e es)
      with "1.prems"(3) have "d # cs = es @ [c] @ cs'" by simp
      moreover from "1.prems"(2) True have "ring_evict cap ?held (d # cs) = (held', cs')" by simp
      ultimately show ?thesis using "1.IH" [OF True held] by blast
    qed
  next
    case False
    with "1.prems"(2) have "cs' = front # d # cs" by simp
    with arg_cong [OF "1.prems"(3), of length] show ?thesis by simp
  qed
qed (auto simp: Cons_eq_append_conv)

lemma ring_push_of:
  assumes "ring_of log r" and "unat (r_bytes_held r) + length body < 2 ^ 64"
  shows "ring_of (log @ [\<lparr>c_offset = off, c_data_len = len, c_last = lst, c_body_bytes = body\<rparr>])
    (ring_push off len lst body r)"
proof -
  let ?c = "\<lparr>c_offset = off, c_data_len = len, c_last = lst, c_body_bytes = body\<rparr>"
  let ?held = "saturating_add (r_bytes_held r) (of_nat (length body))"
  obtain held' cs' where ev: "ring_evict (r_capacity_bytes r) ?held (r_chunks r @ [?c]) = (held', cs')"
    by (cases "ring_evict (r_capacity_bytes r) ?held (r_chunks r @ [?c])") auto
  from assms have "unat ?held = wire_bytes (r_chunks r @ [?c])"
    by (simp add: unat_saturating_add unat_of_nat ring_of_def)
  from ring_evict_spec [OF this ev] assms(1) show ?thesis
    unfolding ring_of_def ring_push_def Let_def ev
    by auto
qed

lemma ring_clear_of: "ring_of [] (ring_clear r)"
  by (simp add: ring_of_def ring_clear_def)

lemma ring_new_of: "ring_of [] (ring_new cap)"
  by (simp add: ring_of_def ring_new_def)

text \<open>
  An offset the ring covers is the end of a prefix of the log that has not been
  evicted further, and what the ring replays from there is the rest of the log.
\<close>

lemma replay_from_boundary:
  assumes "abuts 0 (evicted @ ds @ q)" and "r_chunks r = ds @ q" and "unat off = end_from 0 (evicted @ ds)"
  shows "replay_from off r = q"
proof -
  from assms(3) have "off = of_nat (end_from 0 (evicted @ ds))"
    by (simp del: end_from_simps flip: assms(3))
  then show ?thesis
    using filter_from_boundary [of 0 "evicted @ ds" q] assms(1,2) by (simp add: replay_from_def)
qed

lemma covers_boundary:
  assumes log: "abuts 0 log" and ring: "ring_of log r" and cov: "covers off r"
  shows "\<exists>received. log = received @ replay_from off r \<and> unat off = end_from 0 received"
proof -
  from ring obtain evicted where split: "log = evicted @ r_chunks r" by (auto simp: ring_of_def)
  have *: ?thesis if "r_chunks r = ds @ q" "unat off = end_from 0 (evicted @ ds)" for ds q
    using replay_from_boundary [OF _ that] log that split
    by (intro exI [of _ "evicted @ ds"]) simp
  consider "log = []" "off = 0" | ds c es where "r_chunks r = ds @ c # es" "c_offset c = off"
    | "r_chunks r \<noteq> []" "off = chunk_end (last (r_chunks r))"
    using cov ring by (auto simp: covers_def ring_of_def highest_end_offset_def list_ex_iff
        split: if_splits dest!: split_list)
  then show ?thesis
  proof cases
    case 1
    with split show ?thesis by (simp add: replay_from_def)
  next
    case (2 ds c es)
    with log split have "unat off = end_from 0 (evicted @ ds)" by (auto simp: abuts_append)
    with 2(1) show ?thesis by (rule *)
  next
    case 3
    then obtain cs c where cs: "r_chunks r = cs @ [c]" by (metis rev_exhaust)
    with 3 log split have "unat off = end_from 0 (evicted @ r_chunks r)"
      using abuts_end [OF log] by (simp add: abuts_append chunk_end_def unat_word_ariths)
    with * [of "r_chunks r" "[]"] show ?thesis by simp
  qed
qed

section \<open>The control as a transition system\<close>

text \<open>
  A state is a control together with the log of the chunks the producer has
  pushed for the current file. The guards are the producer's documented
  obligations: pushed chunks abut (the \<^verbatim>\<open>debug_assert!\<close>) and are not empty, the
  bytes held fit 64 bits, and \<^verbatim>\<open>record_sent\<close> follows a send of pushed data. Acks,
  cancels and resume requests come from the other side and are unconstrained.
\<close>

datatype 'p control_event = Call instant "'p control_op" | ConsumeResume

inductive control_step ::
    "'p TransferControl \<times> RingChunk list \<Rightarrow> 'p control_event
      \<Rightarrow> 'p TransferControl \<times> RingChunk list \<Rightarrow> bool" where
  step_push:
    "abuts 0 (log @ [\<lparr>c_offset = off, c_data_len = len, c_last = lst, c_body_bytes = body\<rparr>])
     \<Longrightarrow> unat (r_bytes_held (t_replay g)) + length body < 2 ^ 64
     \<Longrightarrow> control_step (g, log) (Call now (PushReplay off len lst body))
           (push_replay off len lst body g,
            log @ [\<lparr>c_offset = off, c_data_len = len, c_last = lst, c_body_bytes = body\<rparr>])"
| step_sent:
    "unat off \<le> end_from 0 log
     \<Longrightarrow> control_step (g, log) (Call now (RecordSent off)) (record_sent now off g, log)"
| step_advance:
    "control_step (g, log) (Call now (AdvanceToFile fi)) (advance_to_file now fi g, [])"
| step_set_peer: "control_step (g, log) (Call now (SetPeer p)) (set_peer p g, log)"
| step_resume:
    "control_step (g, log) (Call now (RequestResume p fi off)) (snd (request_resume now p fi off g), log)"
| step_ack: "control_step (g, log) (Call now (RecordAck fi off)) (record_ack now fi off g, log)"
| step_cancel: "control_step (g, log) (Call now (Cancel reason)) (cancel reason g, log)"
| step_consume: "control_step (g, log) ConsumeResume (g\<lparr>t_pending_resume := None\<rparr>, log)"

definition control_start :: "'p TransferControl \<times> RingChunk list \<Rightarrow> bool" where
  "control_start s \<longleftrightarrow>
     (\<exists>now window cap. s = (with_replay_capacity now window cap, []))"

definition boundary :: "RingChunk list \<Rightarrow> nat \<Rightarrow> bool" where
  "boundary log n \<longleftrightarrow> (\<exists>received rest. log = received @ rest \<and> n = end_from 0 received)"

lemma boundary_append: "boundary log n \<Longrightarrow> boundary (log @ later) n"
  unfolding boundary_def by (metis append.assoc)

definition control_invar :: "'p TransferControl \<times> RingChunk list \<Rightarrow> bool" where
  "control_invar s \<longleftrightarrow>
     (case s of (g, log) \<Rightarrow>
        t_acked_offset g \<le> t_sent_offset g \<and> unat (t_sent_offset g) \<le> end_from 0 log
        \<and> abuts 0 log \<and> ring_of log (t_replay g)
        \<and> (\<forall>p. t_pending_resume g = Some p \<longrightarrow> boundary log (unat (p_resume_at_offset p))))"

lemmas control_defs = set_peer_def push_replay_def record_sent_def record_ack_def cancel_def
  advance_to_file_def Let_def

lemma request_resume_cases:
  obtains (rejected) e where "request_resume now p fi off g = (Inl e, g)"
  | (accepted) g' where "request_resume now p fi off g = (Inr off, g')"
      and "t_cancelled g = None" and "fi = t_current_file_index g" and "covers off (t_replay g)"
      and "g' = g\<lparr>t_peer := Some p, t_pending_resume := Some \<lparr>p_resume_at_offset = off\<rparr>,
        t_last_chunk_at := now, t_last_ack_at := now,
        t_acked_offset := (if off > t_acked_offset g \<and> off \<le> t_sent_offset g then off
          else t_acked_offset g)\<rparr>"
  using that by (cases "t_cancelled g"; cases "fi = t_current_file_index g"; cases "covers off (t_replay g)")
    (auto simp: request_resume_def Let_def)

lemma control_invar_step:
  assumes "control_step s e t" and "control_invar s"
  shows "control_invar t"
  using assms
proof (induction rule: control_step.induct)
  case (step_push log off len lst body g now)
  from step_push.prems step_push.hyps ring_push_of [of log "t_replay g" body off len lst]
  show ?case
    by (auto simp: control_invar_def push_replay_def abuts_append intro: boundary_append)
next
  case (step_resume g log now p fi off)
  show ?case
  proof (cases rule: request_resume_cases [of now p fi off g])
    case (accepted g')
    moreover from step_resume.prems have "abuts 0 log" "ring_of log (t_replay g)"
      by (simp_all add: control_invar_def)
    from covers_boundary [OF this accepted(4)] have "boundary log (unat off)"
      unfolding boundary_def by blast
    ultimately show ?thesis using step_resume.prems by (auto simp: control_invar_def)
  qed (use step_resume.prems in simp)
qed (auto simp: control_invar_def control_defs ring_clear_of min_def split: if_splits)

interpretation xfer: invariant_system control_start control_step control_invar
proof
  fix s :: "'p TransferControl \<times> RingChunk list" and e t
  show "control_start s \<Longrightarrow> control_invar s"
    by (auto simp: control_start_def control_invar_def with_replay_capacity_def ring_new_of)
  show "control_invar s \<Longrightarrow> control_step s e t \<Longrightarrow> control_invar t"
    by (rule control_invar_step)
qed

section \<open>Waiting\<close>

definition in_flight :: "'p TransferControl \<Rightarrow> nat" where
  "in_flight g = unat (t_sent_offset g) - unat (t_acked_offset g)"

lemma in_flight_0: "in_flight g = 0 \<longleftrightarrow> saturating_sub (t_sent_offset g) (t_acked_offset g) = 0"
  by (simp add: in_flight_def saturating_sub_def word_le_nat_alt unat_sub flip: unat_eq_0)

text \<open>What may happen between the grant of credit and the send it was granted for.\<close>

fun keeps_sent :: "'p control_op \<Rightarrow> bool" where
  "keeps_sent (RecordSent off) = False"
| "keeps_sent (AdvanceToFile fi) = False"
| "keeps_sent op = True"

lemma control_apply_keeps_sent:
  assumes "keeps_sent op"
  shows "t_sent_offset (control_apply (now, op) g) = t_sent_offset g
    \<and> t_window_bytes (control_apply (now, op) g) = t_window_bytes g
    \<and> t_acked_offset g \<le> t_acked_offset (control_apply (now, op) g)"
proof (cases op)
  case (RequestResume p fi off)
  then show ?thesis by (cases rule: request_resume_cases [of now p fi off g]) auto
qed (use assms in \<open>auto simp: control_defs\<close>)

lemma fold_keeps_sent:
  assumes "\<forall>(now, op) \<in> set others. keeps_sent op"
  shows "t_sent_offset (fold control_apply others g) = t_sent_offset g
    \<and> t_window_bytes (fold control_apply others g) = t_window_bytes g
    \<and> t_acked_offset g \<le> t_acked_offset (fold control_apply others g)"
  using assms
proof (induction others arbitrary: g)
  case (Cons x xs)
  obtain now op where x: "x = (now, op)" by (cases x)
  with Cons.prems have "keeps_sent op" by simp
  with control_apply_keeps_sent [OF this, of now g] Cons.IH [of "control_apply x g"] Cons.prems
  show ?case by (auto simp: x)
qed simp

lemmas credit_unfold =
  wait_for_credit.simps [where schedule = "[]", unfolded list.case]
  wait_for_credit.simps [where schedule = "(others, t) # rest" for others t rest, unfolded list.case prod.case]

lemmas reconnect_unfold =
  reconnect_loop.simps [where schedule = "[]", unfolded list.case]
  reconnect_loop.simps [where schedule = "(others, t) # rest" for others t rest, unfolded list.case prod.case]

lemma wait_for_credit_granted:
  assumes "wait_for_credit chunk_len deadline now schedule g = (Some (Inr ()), g')"
  shows "t_cancelled g' = None \<and> (in_flight g' = 0
    \<or> saturating_sub (t_sent_offset g') (t_acked_offset g') + chunk_len \<le> t_window_bytes g')"
  using assms
proof (induction schedule arbitrary: now g)
  case (Cons w schedule)
  show ?case
  proof (cases w)
    case (Pair others t)
    with Cons.prems Cons.IH show ?thesis
      by (auto simp: credit_unfold Let_def in_flight_0 split: option.splits if_splits)
  qed
qed (auto simp: credit_unfold Let_def in_flight_0 split: option.splits if_splits)

lemma wait_for_credit_returns:
  assumes "now \<ge> deadline \<or> list_ex (\<lambda>w. snd w \<ge> deadline) schedule"
  shows "\<exists>r g'. wait_for_credit chunk_len deadline now schedule g = (Some r, g')"
  using assms
proof (induction schedule arbitrary: now g)
  case (Cons w schedule)
  show ?case
  proof (cases w)
    case (Pair others t)
    with Cons.prems Cons.IH show ?thesis
      by (auto simp: credit_unfold Let_def split: option.splits)
  qed
qed (auto simp: credit_unfold Let_def split: option.splits)

lemma reconnect_loop_returns:
  assumes "now \<ge> deadline \<or> list_ex (\<lambda>w. snd w \<ge> deadline) schedule"
  shows "\<exists>r g'. reconnect_loop deadline now schedule g = (Some r, g')"
  using assms
proof (induction schedule arbitrary: now g)
  case (Cons w schedule)
  show ?case
  proof (cases w)
    case (Pair others t)
    with Cons.prems Cons.IH show ?thesis
      by (auto simp: reconnect_unfold split: option.splits)
  qed
qed (auto simp: reconnect_unfold split: option.splits)

lemma control_apply_cancelled: "t_cancelled g = Some reason \<Longrightarrow> t_cancelled (control_apply x g) = Some reason"
  by (cases "(x, g)" rule: control_apply.cases)
    (auto simp: control_defs request_resume_def)

lemma fold_cancelled:
  "t_cancelled g = Some reason \<Longrightarrow> t_cancelled (fold control_apply others g) = Some reason"
  by (induction others arbitrary: g) (simp_all add: control_apply_cancelled)

section \<open>Properties\<close>

text \<open>
  C14. Whatever the order in which producer, acks, cancels, resume requests and
  file changes interleave, as long as the producer pushes abutting chunks and
  records sends of pushed data: the acknowledged offset never passes the sent one,
  the sent one never passes what was pushed, the ring is the tail of what was
  pushed for the file and always contains the newest chunk, it counts its wire
  bytes exactly and exceeds its capacity only with a single chunk, and a staged
  resume offset is a chunk boundary of the current file.
\<close>

theorem control_invariant:
  assumes "reachable control_start control_step (g, log)"
  shows "t_acked_offset g \<le> t_sent_offset g \<and> unat (t_sent_offset g) \<le> end_from 0 log
    \<and> ring_of log (t_replay g)
    \<and> (\<forall>p. t_pending_resume g = Some p \<longrightarrow> boundary log (unat (p_resume_at_offset p)))"
  using xfer.invar_reachable [OF assms] by (simp add: control_invar_def)

definition example_control :: "unit TransferControl" where
  "example_control = push_replay 0 3 False [7, 8, 9] (with_replay_capacity 0 100 100)"

definition example_log :: "RingChunk list" where
  "example_log = [\<lparr>c_offset = 0, c_data_len = 3, c_last = False, c_body_bytes = [7, 8, 9]\<rparr>]"

lemma example_reachable: "reachable control_start control_step (example_control, example_log)"
proof -
  have "reachable control_start control_step (with_replay_capacity 0 100 100 :: unit TransferControl, [])"
    by (rule reachable_start) (auto simp: control_start_def)
  moreover have "control_step (with_replay_capacity 0 100 100 :: unit TransferControl, [])
      (Call 0 (PushReplay 0 3 False [7, 8, 9])) (example_control, [] @ example_log)"
    unfolding example_control_def example_log_def
    by (rule step_push) (simp_all add: with_replay_capacity_def ring_new_def)
  ultimately show ?thesis by (auto intro: reachable_step)
qed

theorem control_invariant_witness:
  "t_acked_offset example_control \<le> t_sent_offset example_control
    \<and> unat (t_sent_offset example_control) \<le> end_from 0 example_log
    \<and> ring_of example_log (t_replay example_control)"
  using control_invariant [OF example_reachable] by simp

text \<open>
  C5. Resuming loses and repeats nothing: when \<^verbatim>\<open>request_resume\<close> accepts an
  offset, that offset ends a prefix of the chunks pushed for the file, and
  \<^verbatim>\<open>replay_chunks_from\<close> returns exactly the chunks after it, in order, up to the
  newest one; and this prefix is the only one that ends there.
\<close>

theorem resume_replays_missing:
  assumes "reachable control_start control_step (g, log)"
    and "request_resume now p fi off g = (Inr r, g')"
  shows "r = off \<and> (\<exists>!received. (\<exists>rest. log = received @ rest) \<and> unat off = end_from 0 received
    \<and> log = received @ replay_chunks_from off g')"
proof -
  from xfer.invar_reachable [OF assms(1)]
  have log: "abuts 0 log" "ring_of log (t_replay g)" by (simp_all add: control_invar_def)
  from assms(2) have acc: "r = off" "covers off (t_replay g)" "t_replay g' = t_replay g"
    by (cases rule: request_resume_cases [of now p fi off g], auto)+
  from covers_boundary [OF log acc(2)] obtain received where
    "log = received @ replay_from off (t_replay g)" "unat off = end_from 0 received" by blast
  then show ?thesis
    unfolding replay_chunks_from_def acc using abuts_split_eq log(1) by metis
qed

theorem resume_replays_missing_witness:
  "(0 :: u64) = 0 \<and> (\<exists>!received. (\<exists>rest. example_log = received @ rest) \<and> unat (0 :: u64) = end_from 0 received
    \<and> example_log = received @ replay_chunks_from 0 (snd (request_resume 5 () 0 0 example_control)))"
proof (rule resume_replays_missing [OF example_reachable])
  show "request_resume 5 () 0 0 example_control = (Inr 0, snd (request_resume 5 () 0 0 example_control))"
    by (simp add: request_resume_def example_control_def push_replay_def with_replay_capacity_def
        ring_new_def ring_push_def covers_def Let_def)
qed



text \<open>
  Both waits end: \<^verbatim>\<open>wait_for_credit\<close> and \<^verbatim>\<open>wait_for_reconnect\<close> have returned by
  the first wake-up at or after the deadline, whatever other threads do meanwhile.
\<close>

theorem waits_return:
  assumes "list_ex (\<lambda>w. snd w \<ge> deadline) schedule" and "deadline = now + timeout"
  shows "(\<exists>r g'. wait_for_credit chunk_len deadline now schedule g = (Some r, g'))
    \<and> (\<exists>r g'. wait_for_reconnect timeout now schedule g = (Some r, g'))"
  unfolding wait_for_reconnect_def assms(2) [symmetric]
  using assms(1) by (intro conjI wait_for_credit_returns reconnect_loop_returns disjI2)

theorem waits_return_witness:
  "(\<exists>r g'. wait_for_credit 200 30 0 [([(3, RecordAck 0 1)], 5), ([], 31)] example_control = (Some r, g'))
    \<and> (\<exists>r g'. wait_for_reconnect 30 0 [([(3, RecordAck 0 1)], 5), ([], 31)] example_control = (Some r, g'))"
  by (rule waits_return) simp_all

text \<open>
  Cancellation is sticky and the first reason wins: after \<^verbatim>\<open>cancel(reason)\<close> on
  a live transfer and any further operations, \<^verbatim>\<open>cancel_reason\<close> is that reason,
  every resume request is refused and both waits return the cancellation at once,
  without parking.
\<close>

theorem cancel_sticky:
  assumes "\<not> is_cancelled g" and "h = fold control_apply others (cancel reason g)"
  shows "t_cancelled h = Some reason
    \<and> request_resume now p fi off h = (Inl RR_Cancelled, h)
    \<and> wait_for_credit chunk_len deadline now schedule h = (Some (Inl (CE_Cancelled reason)), h)
    \<and> wait_for_reconnect timeout now schedule h = (Some (RO_Cancelled reason), h)"
proof -
  from assms have "t_cancelled h = Some reason"
    by (simp add: fold_cancelled is_cancelled_def cancel_def)
  then show ?thesis
    by (simp add: request_resume_def wait_for_credit.simps wait_for_reconnect_def reconnect_loop.simps)
qed

theorem cancel_sticky_witness:
  "t_cancelled (fold control_apply [(4, Cancel ''later''), (5, AdvanceToFile 2)] (cancel ''stop'' example_control))
     = Some ''stop''"
  using cancel_sticky [of example_control _ "[(4, Cancel ''later''), (5, AdvanceToFile 2)]" "''stop''", OF _ refl]
  by (simp add: is_cancelled_def example_control_def push_replay_def with_replay_capacity_def)

text \<open>
  The sum \<^verbatim>\<open>in_flight + chunk_len\<close> is not guarded against overflow: with ten
  bytes in flight and a window of 100, a request for \<^verbatim>\<open>u64::MAX - 4\<close> bytes wraps to
  5 and is granted.
\<close>

theorem credit_overflow_granted:
  "\<exists>g :: unit TransferControl. t_window_bytes g = 100 \<and> in_flight g = 10
    \<and> wait_for_credit 18446744073709551611 50 1 [] g = (Some (Inr ()), g)"
  by (rule exI [of _ "record_sent 0 10 (with_replay_capacity 0 100 100)"])
    (simp add: credit_unfold with_replay_capacity_def record_sent_def in_flight_def saturating_sub_def)

interpretation transfers: keyed_table table_new table_get table_register
  "\<lambda>key m. snd (table_unregister key m)"
  by standard (simp_all add: table_new_def table_get_def table_register_def table_unregister_def)

lemma table_snapshot_refs:
  assumes "dom m \<subseteq> set order"
  shows "snd ` set (table_snapshot order m) = ran m"
  using assms
  by (auto simp: table_snapshot_def map_filter_def ran_def image_iff dom_def subset_iff) force

lemma watchdog_check_idem: "watchdog_check now idle (watchdog_check now idle g) = watchdog_check now idle g"
  by (simp add: watchdog_check_def is_cancelled_def cancel_def timestamps_def Let_def)

lemma watchdog_scan_at:
  "watchdog_scan now idle snapshot store r =
     (if r \<in> snd ` set snapshot then watchdog_check now idle (store r) else store r)"
proof (induction snapshot arbitrary: store)
  case (Cons x xs)
  obtain k c where "x = (k, c)" by (cases x)
  moreover have "watchdog_scan now idle ((k, c) # xs) store =
      watchdog_scan now idle xs (store(c := watchdog_check now idle (store c)))"
    by (simp add: watchdog_scan_def)
  ultimately show ?case by (auto simp: Cons.IH watchdog_check_idem)
qed (simp add: watchdog_scan_def)

text \<open>
  One pass of the watchdog cancels, with the reason \<open>transfer idle\<close>, exactly
  the registered transfers that are not cancelled yet and whose last chunk and last
  ack are both at least \<^verbatim>\<open>idle_timeout\<close> old, in whatever order the table is
  enumerated and even if a control is registered twice; it changes nothing else.
\<close>

theorem watchdog_cancels_idle:
  assumes "dom m \<subseteq> set order"
  shows "watchdog_scan now idle_timeout (table_snapshot order m) store r =
    (if r \<in> ran m \<and> t_cancelled (store r) = None
        \<and> idle_timeout \<le> now - t_last_chunk_at (store r) \<and> idle_timeout \<le> now - t_last_ack_at (store r)
     then (store r)\<lparr>t_cancelled := Some ''transfer idle''\<rparr> else store r)"
  by (auto simp: watchdog_scan_at table_snapshot_refs [OF assms] watchdog_check_def is_cancelled_def
      cancel_def timestamps_def max_def)

theorem watchdog_cancels_idle_witness:
  "t_cancelled (watchdog_scan 100 60 (table_snapshot [True] [True \<mapsto> 3]) (\<lambda>_. example_control) 3)
     = Some ''transfer idle''"
  by (subst watchdog_cancels_idle)
    (simp_all add: example_control_def push_replay_def with_replay_capacity_def)

text \<open>
  The watchdog's latency: with ticks every \<^verbatim>\<open>tick\<close>, a transfer that makes no
  progress after time \<open>p\<close> is found idle by a tick less than one \<^verbatim>\<open>tick\<close> after it
  expires, and for an \<^verbatim>\<open>idle_timeout\<close> of at least a second that is before
  \<open>p + 2 * idle_timeout\<close>, as the comment in the code says.
\<close>

theorem watchdog_latency:
  assumes "start \<le> p + idle_timeout" and "1000000000 \<le> idle_timeout"
  shows "\<exists>k. p + idle_timeout \<le> start + k * watchdog_tick idle_timeout
    \<and> start + k * watchdog_tick idle_timeout < p + idle_timeout + watchdog_tick idle_timeout
    \<and> start + k * watchdog_tick idle_timeout < p + 2 * idle_timeout"
proof -
  let ?t = "watchdog_tick idle_timeout" and ?d = "p + idle_timeout - start"
  let ?k = "(?d + (?t - 1)) div ?t"
  have pos: "0 < ?t" and le: "?t \<le> idle_timeout" using assms(2) by (auto simp: watchdog_tick_def)
  have "?d + (?t - 1) = ?k * ?t + (?d + (?t - 1)) mod ?t" by simp
  moreover have "(?d + (?t - 1)) mod ?t < ?t" using pos by simp
  ultimately have "?d \<le> ?k * ?t" and "?k * ?t < ?d + ?t" using pos by linarith+
  with assms(1) le have "p + idle_timeout \<le> start + ?k * ?t \<and> start + ?k * ?t < p + idle_timeout + ?t
      \<and> start + ?k * ?t < p + 2 * idle_timeout" by linarith
  then show ?thesis by blast
qed

theorem watchdog_latency_witness:
  "\<exists>k. 0 + 60000000000 \<le> 0 + k * watchdog_tick 60000000000
    \<and> 0 + k * watchdog_tick 60000000000 < 0 + 60000000000 + watchdog_tick 60000000000
    \<and> 0 + k * watchdog_tick 60000000000 < 0 + 2 * 60000000000"
  by (rule watchdog_latency) simp_all

end
