(* ===== verification/Constants.thy ===== *)
theory Constants
  imports Rust_Text
begin

text \<open>
  The protocol constants and enums of \<^verbatim>\<open>repe-core/src/constants.rs\<close>, with the
  conversions between a variant and its wire code. The contract the rest of the
  crate relies on when it casts a variant to a code and later calls
  \<^verbatim>\<open>try_from\<close> on it is the interface \<open>wire_enum\<close>.
\<close>

definition REPE_SPEC :: u16 where
  "REPE_SPEC = 0x1507"

definition REPE_VERSION :: u8 where
  "REPE_VERSION = 1"

definition HEADER_SIZE :: nat where
  "HEADER_SIZE = 48"

datatype ErrorCode =
    EC_Ok | EC_VersionMismatch | EC_InvalidHeader | EC_InvalidQuery | EC_InvalidBody
  | EC_ParseError | EC_MethodNotFound | EC_Timeout | EC_ResourceExhausted
  | EC_InternalError | EC_ApplicationErrorBase

fun error_code_u32 :: "ErrorCode \<Rightarrow> u32" where
  "error_code_u32 EC_Ok = 0"
| "error_code_u32 EC_VersionMismatch = 1"
| "error_code_u32 EC_InvalidHeader = 2"
| "error_code_u32 EC_InvalidQuery = 3"
| "error_code_u32 EC_InvalidBody = 4"
| "error_code_u32 EC_ParseError = 5"
| "error_code_u32 EC_MethodNotFound = 6"
| "error_code_u32 EC_Timeout = 7"
| "error_code_u32 EC_ResourceExhausted = 8"
| "error_code_u32 EC_InternalError = 9"
| "error_code_u32 EC_ApplicationErrorBase = 4096"

definition error_code_try_from :: "u32 \<Rightarrow> u32 + ErrorCode" where
  "error_code_try_from value =
     (if value = 0 then Inr EC_Ok
      else if value = 1 then Inr EC_VersionMismatch
      else if value = 2 then Inr EC_InvalidHeader
      else if value = 3 then Inr EC_InvalidQuery
      else if value = 4 then Inr EC_InvalidBody
      else if value = 5 then Inr EC_ParseError
      else if value = 6 then Inr EC_MethodNotFound
      else if value = 7 then Inr EC_Timeout
      else if value = 8 then Inr EC_ResourceExhausted
      else if value = 9 then Inr EC_InternalError
      else if value = 4096 then Inr EC_ApplicationErrorBase
      else Inl value)"

fun error_code_display :: "ErrorCode \<Rightarrow> string" where
  "error_code_display EC_Ok = ''OK''"
| "error_code_display EC_VersionMismatch = ''Version mismatch''"
| "error_code_display EC_InvalidHeader = ''Invalid header''"
| "error_code_display EC_InvalidQuery = ''Invalid query''"
| "error_code_display EC_InvalidBody = ''Invalid body''"
| "error_code_display EC_ParseError = ''Parse error''"
| "error_code_display EC_MethodNotFound = ''Method not found''"
| "error_code_display EC_Timeout = ''Timeout''"
| "error_code_display EC_ResourceExhausted = ''Resource exhausted''"
| "error_code_display EC_InternalError = ''Internal error''"
| "error_code_display EC_ApplicationErrorBase = ''Application error''"

datatype QueryFormat = QF_RawBinary | QF_JsonPointer

fun query_format_u16 :: "QueryFormat \<Rightarrow> u16" where
  "query_format_u16 QF_RawBinary = 0"
| "query_format_u16 QF_JsonPointer = 1"

definition query_format_try_from :: "u16 \<Rightarrow> u16 + QueryFormat" where
  "query_format_try_from value =
     (if value = 0 then Inr QF_RawBinary
      else if value = 1 then Inr QF_JsonPointer
      else Inl value)"

datatype BodyFormat = BF_RawBinary | BF_Beve | BF_Json | BF_Utf8

fun body_format_u16 :: "BodyFormat \<Rightarrow> u16" where
  "body_format_u16 BF_RawBinary = 0"
| "body_format_u16 BF_Beve = 1"
| "body_format_u16 BF_Json = 2"
| "body_format_u16 BF_Utf8 = 3"

definition body_format_try_from :: "u16 \<Rightarrow> u16 + BodyFormat" where
  "body_format_try_from value =
     (if value = 0 then Inr BF_RawBinary
      else if value = 1 then Inr BF_Beve
      else if value = 2 then Inr BF_Json
      else if value = 3 then Inr BF_Utf8
      else Inl value)"

text \<open>The derived \<open>Debug\<close> of a body format, which error messages print.\<close>

fun body_format_debug :: "BodyFormat \<Rightarrow> string" where
  "body_format_debug BF_RawBinary = ''RawBinary''"
| "body_format_debug BF_Beve = ''Beve''"
| "body_format_debug BF_Json = ''Json''"
| "body_format_debug BF_Utf8 = ''Utf8''"

section \<open>Variants and their wire codes\<close>

locale wire_enum =
  fixes code :: "'e \<Rightarrow> 'w"
    and of_code :: "'w \<Rightarrow> 'w + 'e"
  assumes of_code_code: "of_code (code e) = Inr e"
    and of_code_sound: "of_code w = Inr e \<Longrightarrow> code e = w"
    and of_code_reject: "of_code w = Inl v \<Longrightarrow> v = w"
begin

lemma code_eq_iff: "code d = code e \<longleftrightarrow> d = e"
  by (metis of_code_code sum.inject(2))

lemma of_code_Inr_iff: "of_code w = Inr e \<longleftrightarrow> code e = w"
  using of_code_code of_code_sound by blast

lemma of_code_Inl_iff: "of_code w = Inl v \<longleftrightarrow> v = w \<and> w \<notin> range code"
proof
  assume "of_code w = Inl v"
  then show "v = w \<and> w \<notin> range code"
    using of_code_reject of_code_code by fastforce
next
  assume "v = w \<and> w \<notin> range code"
  then show "of_code w = Inl v"
    by (cases "of_code w") (auto dest: of_code_reject of_code_sound)
qed

end

interpretation ec: wire_enum error_code_u32 error_code_try_from
proof
  fix e w v
  show "error_code_try_from (error_code_u32 e) = Inr e"
    by (cases e) (simp_all add: error_code_try_from_def)
  show "error_code_try_from w = Inr e \<Longrightarrow> error_code_u32 e = w"
    by (auto simp: error_code_try_from_def split: if_splits)
  show "error_code_try_from w = Inl v \<Longrightarrow> v = w"
    by (simp add: error_code_try_from_def split: if_splits)
qed

interpretation qf: wire_enum query_format_u16 query_format_try_from
proof
  fix e w v
  show "query_format_try_from (query_format_u16 e) = Inr e"
    by (cases e) (simp_all add: query_format_try_from_def)
  show "query_format_try_from w = Inr e \<Longrightarrow> query_format_u16 e = w"
    by (auto simp: query_format_try_from_def split: if_splits)
  show "query_format_try_from w = Inl v \<Longrightarrow> v = w"
    by (simp add: query_format_try_from_def split: if_splits)
qed

interpretation bf: wire_enum body_format_u16 body_format_try_from
proof
  fix e w v
  show "body_format_try_from (body_format_u16 e) = Inr e"
    by (cases e) (simp_all add: body_format_try_from_def)
  show "body_format_try_from w = Inr e \<Longrightarrow> body_format_u16 e = w"
    by (auto simp: body_format_try_from_def split: if_splits)
  show "body_format_try_from w = Inl v \<Longrightarrow> v = w"
    by (simp add: body_format_try_from_def split: if_splits)
qed

lemmas wire_code_simps [simp] = ec.of_code_code qf.of_code_code bf.of_code_code
  ec.code_eq_iff qf.code_eq_iff bf.code_eq_iff

lemma error_code_ok_iff [simp]: "error_code_u32 c = 0 \<longleftrightarrow> c = EC_Ok"
  by (cases c) simp_all

end
