(* ===== verification/Repe_Error.thy ===== *)
theory Repe_Error
  imports Constants
begin

text \<open>
  The crate's error type and its two translations, of
  \<^verbatim>\<open>src/error.rs\<close>: the code it is answered with on the wire and
  the message it prints. The parse errors of the \<^verbatim>\<open>structio\<close> crate are a type
  parameter \<open>'s\<close>; where the code builds one (\<^verbatim>\<open>structio::Error::new\<close> with
  \<^verbatim>\<open>InvalidUtf8\<close> and a position) the constructor is an argument.
\<close>

text \<open>
  \<^verbatim>\<open>std::io::Error\<close> in the three ways the crate meets it: a bare kind
  (\<^verbatim>\<open>Error::from(ErrorKind::UnexpectedEof)\<close>), an error code of the operating
  system, and a kind with a message of the crate's own (\<^verbatim>\<open>Error::new\<close> and
  \<^verbatim>\<open>Error::other\<close>). \<^verbatim>\<open>kind()\<close> maps the codes as the standard library does on
  Linux, for the kinds the crate tells apart.
\<close>

datatype io_kind =
    K_UnexpectedEof | K_TimedOut | K_ConnectionRefused | K_ConnectionReset
  | K_ConnectionAborted | K_NotConnected | K_WouldBlock | K_Interrupted | K_BrokenPipe
  | K_InvalidInput | K_InvalidData | K_AlreadyExists | K_Other

datatype io_error = UnexpectedEof | OsError nat | IoError io_kind string

definition errno_kind :: "nat \<Rightarrow> io_kind" where
  "errno_kind code =
     (if code = 4 then K_Interrupted
      else if code = 11 then K_WouldBlock
      else if code = 32 then K_BrokenPipe
      else if code = 103 then K_ConnectionAborted
      else if code = 104 then K_ConnectionReset
      else if code = 107 then K_NotConnected
      else if code = 110 then K_TimedOut
      else if code = 111 then K_ConnectionRefused
      else K_Other)"

fun io_error_kind :: "io_error \<Rightarrow> io_kind" where
  "io_error_kind UnexpectedEof = K_UnexpectedEof"
| "io_error_kind (OsError code) = errno_kind code"
| "io_error_kind (IoError kind message) = kind"

datatype 's RepeError =
    RE_VersionMismatch u8
  | RE_InvalidSpec u16
  | RE_InvalidHeaderLength nat
  | RE_LengthMismatch (lm_expected: u64) (lm_got: u64)
  | RE_BufferTooSmall (bts_need: nat) (bts_have: nat)
  | RE_FrameLengthOverflow (flo_query_length: u64) (flo_body_length: u64)
  | RE_ResponseIdMismatch (rim_expected: u64) (rim_got: u64)
  | RE_Io io_error
  | RE_Json 's
  | RE_Beve 's
  | RE_UnknownEnumValue u64
  | RE_UnexpectedBodyFormat (ubf_expected: BodyFormat) (ubf_got: u16)
  | RE_ServerError (se_code: ErrorCode) (se_message: string)
  | RE_MessageTooLarge (mtl_size: nat) (mtl_limit: nat)

text \<open>\<^verbatim>\<open>matches!(err, RepeError::Io(e) if e.kind() == kind)\<close>\<close>

fun is_io_kind :: "io_kind \<Rightarrow> 's RepeError \<Rightarrow> bool" where
  "is_io_kind kind (RE_Io e) = (io_error_kind e = kind)"
| "is_io_kind kind _ = False"

definition repe_error_decode :: "BodyFormat \<Rightarrow> 's \<Rightarrow> 's RepeError" where
  "repe_error_decode format source = (case format of BF_Beve \<Rightarrow> RE_Beve source | _ \<Rightarrow> RE_Json source)"

text \<open>The variants of \<^verbatim>\<open>structio::StreamError\<close> that the code tells apart; it is
  non-exhaustive.\<close>

datatype 's StreamError = SE_Io io_error | SE_Parse 's | SE_Other

fun repe_error_decode_stream :: "(nat \<Rightarrow> 's) \<Rightarrow> BodyFormat \<Rightarrow> 's StreamError \<Rightarrow> 's RepeError" where
  "repe_error_decode_stream invalid_utf8 format (SE_Io err) = RE_Io err"
| "repe_error_decode_stream invalid_utf8 format (SE_Parse err) = repe_error_decode format err"
| "repe_error_decode_stream invalid_utf8 format SE_Other = repe_error_decode format (invalid_utf8 0)"

fun to_error_code :: "'s RepeError \<Rightarrow> ErrorCode" where
  "to_error_code (RE_VersionMismatch v) = EC_VersionMismatch"
| "to_error_code (RE_InvalidSpec s) = EC_InvalidHeader"
| "to_error_code (RE_InvalidHeaderLength n) = EC_InvalidHeader"
| "to_error_code (RE_LengthMismatch e g) = EC_InvalidHeader"
| "to_error_code (RE_BufferTooSmall n h) = EC_ParseError"
| "to_error_code (RE_FrameLengthOverflow q b) = EC_InvalidHeader"
| "to_error_code (RE_ResponseIdMismatch e g) = EC_InvalidHeader"
| "to_error_code (RE_Io e) = EC_ParseError"
| "to_error_code (RE_Json e) = EC_ParseError"
| "to_error_code (RE_Beve e) = EC_ParseError"
| "to_error_code (RE_UnknownEnumValue v) = EC_ParseError"
| "to_error_code (RE_UnexpectedBodyFormat e g) = EC_InvalidBody"
| "to_error_code (RE_ServerError code m) = code"
| "to_error_code (RE_MessageTooLarge s l) = EC_InternalError"

text \<open>
  The messages of the \<^verbatim>\<open>#[error]\<close> attributes. How the two foreign error types
  print themselves is an argument.
\<close>

fun repe_error_display ::
    "(io_error \<Rightarrow> string) \<Rightarrow> ('s \<Rightarrow> string) \<Rightarrow> 's RepeError \<Rightarrow> string" where
  "repe_error_display dio ds (RE_VersionMismatch v) = ''version mismatch: '' @ dec_str (unat v)"
| "repe_error_display dio ds (RE_InvalidSpec s) = ''invalid spec magic: 0x'' @ hex4 s"
| "repe_error_display dio ds (RE_InvalidHeaderLength n) =
     ''invalid header length: expected 48, got '' @ dec_str n"
| "repe_error_display dio ds (RE_LengthMismatch e g) =
     ''header length mismatch: expected '' @ dec_str (unat e) @ '', got '' @ dec_str (unat g)"
| "repe_error_display dio ds (RE_BufferTooSmall n h) =
     ''buffer too small: need '' @ dec_str n @ '' bytes, have '' @ dec_str h"
| "repe_error_display dio ds (RE_FrameLengthOverflow q b) =
     ''frame lengths are not representable: 48-byte header + query '' @ dec_str (unat q)
       @ '' + body '' @ dec_str (unat b)"
| "repe_error_display dio ds (RE_ResponseIdMismatch e g) =
     ''response id mismatch: expected '' @ dec_str (unat e) @ '', got '' @ dec_str (unat g)"
| "repe_error_display dio ds (RE_Io e) = ''io error: '' @ dio e"
| "repe_error_display dio ds (RE_Json e) = ''json error: '' @ ds e"
| "repe_error_display dio ds (RE_Beve e) = ''beve error: '' @ ds e"
| "repe_error_display dio ds (RE_UnknownEnumValue v) =
     ''unknown value for enum conversion: '' @ dec_str (unat v)"
| "repe_error_display dio ds (RE_UnexpectedBodyFormat e g) =
     ''unexpected body format: expected '' @ body_format_debug e @ '', got format code ''
       @ dec_str (unat g)"
| "repe_error_display dio ds (RE_ServerError code m) =
     ''server error '' @ error_code_display code @ '': '' @ m"
| "repe_error_display dio ds (RE_MessageTooLarge s l) =
     ''outbound message of '' @ dec_str s @ '' bytes exceeds the assumed peer frame limit of ''
       @ dec_str l @ '' bytes''"

text \<open>
  A failure raised by this crate is never reported as success and never tells
  the peer to retry (\<^verbatim>\<open>ResourceExhausted\<close>): those codes appear on the wire only
  when a handler chose them itself in a \<^verbatim>\<open>ServerError\<close>. In particular an
  undeliverable oversized message is an internal error.
\<close>

theorem to_error_code_retryable:
  "to_error_code err \<in> {EC_Ok, EC_ResourceExhausted} \<longleftrightarrow>
     (\<exists>code m. err = RE_ServerError code m \<and> code \<in> {EC_Ok, EC_ResourceExhausted})"
  by (cases err) auto

end
