(* ===== verification/Wire_Header.thy ===== *)
theory Wire_Header
  imports Repe_Error
begin

text \<open>
  The fixed 48-byte frame header of \<^verbatim>\<open>src/header.rs\<close>: \<^verbatim>\<open>Header::new\<close>,
  \<^verbatim>\<open>Header::encode\<close> (fields copied into a zeroed buffer at running offsets) and
  \<^verbatim>\<open>Header::decode\<close> (slices at the same offsets, then the magic, overflow and
  length checks). \<open>usize_max\<close> is the target's \<^verbatim>\<open>usize::MAX\<close>; the crate also
  builds for a 32-bit target, so no width is fixed.
\<close>

record Header =
  h_length :: u64
  h_spec :: u16
  h_version :: u8
  h_notify :: u8
  h_reserved :: u32
  h_id :: u64
  h_query_length :: u64
  h_body_length :: u64
  h_query_format :: u16
  h_body_format :: u16
  h_ec :: u32

definition header_default :: Header where
  "header_default = \<lparr>h_length = 0, h_spec = 0, h_version = 0, h_notify = 0, h_reserved = 0,
     h_id = 0, h_query_length = 0, h_body_length = 0, h_query_format = 0, h_body_format = 0,
     h_ec = 0\<rparr>"

definition header_new :: Header where
  "header_new = header_default\<lparr>h_spec := REPE_SPEC, h_version := REPE_VERSION\<rparr>"

text \<open>\<open>buf[o..o + n].copy_from_slice(src)\<close> and \<open>&buf[o..o + n]\<close>.\<close>

definition copy_at :: "nat \<Rightarrow> bytes \<Rightarrow> bytes \<Rightarrow> bytes" where
  "copy_at off src buf = take off buf @ src @ drop (off + length src) buf"

definition byte_slice :: "nat \<Rightarrow> nat \<Rightarrow> bytes \<Rightarrow> bytes" where
  "byte_slice off n buf = take n (drop off buf)"

definition header_encode :: "Header \<Rightarrow> bytes" where
  "header_encode h =
     (let buf = replicate HEADER_SIZE 0;
          buf = copy_at 0 (to_le_bytes (h_length h)) buf;
          buf = copy_at 8 (to_le_bytes (h_spec h)) buf;
          buf = buf[10 := h_version h];
          buf = buf[11 := h_notify h];
          buf = copy_at 12 (to_le_bytes (h_reserved h)) buf;
          buf = copy_at 16 (to_le_bytes (h_id h)) buf;
          buf = copy_at 24 (to_le_bytes (h_query_length h)) buf;
          buf = copy_at 32 (to_le_bytes (h_body_length h)) buf;
          buf = copy_at 40 (to_le_bytes (h_query_format h)) buf;
          buf = copy_at 42 (to_le_bytes (h_body_format h)) buf;
          buf = copy_at 44 (to_le_bytes (h_ec h)) buf
      in buf)"

definition header_decode :: "nat \<Rightarrow> bytes \<Rightarrow> 's RepeError + Header" where
  "header_decode usize_max input =
     (if length input < HEADER_SIZE then Inl (RE_InvalidHeaderLength (length input))
      else
        let len = from_le_bytes (byte_slice 0 8 input);
            spec = from_le_bytes (byte_slice 8 2 input);
            version = input ! 10;
            notify = input ! 11;
            reserved = from_le_bytes (byte_slice 12 4 input);
            ident = from_le_bytes (byte_slice 16 8 input);
            query_length = from_le_bytes (byte_slice 24 8 input);
            body_length = from_le_bytes (byte_slice 32 8 input);
            query_format = from_le_bytes (byte_slice 40 2 input);
            body_format = from_le_bytes (byte_slice 42 2 input);
            ec = from_le_bytes (byte_slice 44 4 input)
        in if spec \<noteq> REPE_SPEC then Inl (RE_InvalidSpec spec)
           else res_bind
             (ok_or (RE_FrameLengthOverflow query_length body_length)
               (case Option.bind (checked_add (of_nat HEADER_SIZE) query_length)
                       (\<lambda>tot. checked_add tot body_length) of
                  None \<Rightarrow> None
                | Some tot \<Rightarrow> if unat tot \<le> usize_max then Some tot else None))
             (\<lambda>expected.
               if len \<noteq> expected then Inl (RE_LengthMismatch expected len)
               else Inr \<lparr>h_length = len, h_spec = spec, h_version = version, h_notify = notify,
                          h_reserved = reserved, h_id = ident, h_query_length = query_length,
                          h_body_length = body_length, h_query_format = query_format,
                          h_body_format = body_format, h_ec = ec\<rparr>))"

section \<open>Layout\<close>

text \<open>The frame size a header announces, as a natural number.\<close>

definition framed_total :: "Header \<Rightarrow> nat" where
  "framed_total h = HEADER_SIZE + unat (h_query_length h) + unat (h_body_length h)"

definition wf_header :: "nat \<Rightarrow> Header \<Rightarrow> bool" where
  "wf_header usize_max h \<longleftrightarrow>
     h_spec h = REPE_SPEC \<and> unat (h_length h) = framed_total h \<and> framed_total h \<le> usize_max"

text \<open>The reference layout: the fields in declaration order, one after the other.\<close>

definition header_layout :: "Header \<Rightarrow> bytes" where
  "header_layout h =
     to_le_bytes (h_length h) @ to_le_bytes (h_spec h) @ [h_version h] @ [h_notify h]
     @ to_le_bytes (h_reserved h) @ to_le_bytes (h_id h) @ to_le_bytes (h_query_length h)
     @ to_le_bytes (h_body_length h) @ to_le_bytes (h_query_format h)
     @ to_le_bytes (h_body_format h) @ to_le_bytes (h_ec h)"

lemma length_copy_at: "off + length src \<le> length buf \<Longrightarrow> length (copy_at off src buf) = length buf"
  by (simp add: copy_at_def)

lemma copy_at_append:
  "off = length pre \<Longrightarrow> length src = n \<Longrightarrow> n \<le> k \<Longrightarrow>
     copy_at off src (pre @ replicate k 0) = (pre @ src) @ replicate (k - n) 0"
  by (simp add: copy_at_def)

lemma update_append:
  "off = length pre \<Longrightarrow> 0 < k \<Longrightarrow>
     (pre @ replicate k 0)[off := b] = (pre @ [b]) @ replicate (k - 1) 0"
  by (cases k) (simp_all add: list_update_append)

lemma header_encode_layout: "header_encode h = header_layout h"
proof -
  have start: "replicate HEADER_SIZE 0 = [] @ replicate 48 (0 :: u8)"
    by (simp add: HEADER_SIZE_def)
  show ?thesis
    unfolding header_encode_def Let_def start
    by (simp add: copy_at_append [OF _ u64le.length_enc] copy_at_append [OF _ u32le.length_enc]
          copy_at_append [OF _ u16le.length_enc] update_append del: append_assoc append.simps)
      (simp add: header_layout_def)
qed

lemma length_header_encode [simp]: "length (header_encode h) = HEADER_SIZE"
  by (simp add: header_encode_layout header_layout_def HEADER_SIZE_def)

text \<open>Reading a field back: its slice of the layout is its encoding.\<close>

lemma slice_append:
  "off = length pre \<Longrightarrow> n = length fld \<Longrightarrow> byte_slice off n (pre @ fld @ rest) = fld"
  by (simp add: byte_slice_def)

lemma layout_fields:
  assumes "buf = header_encode h @ rest"
  shows "byte_slice 0 8 buf = to_le_bytes (h_length h)"
    and "byte_slice 8 2 buf = to_le_bytes (h_spec h)"
    and "buf ! 10 = h_version h"
    and "buf ! 11 = h_notify h"
    and "byte_slice 12 4 buf = to_le_bytes (h_reserved h)"
    and "byte_slice 16 8 buf = to_le_bytes (h_id h)"
    and "byte_slice 24 8 buf = to_le_bytes (h_query_length h)"
    and "byte_slice 32 8 buf = to_le_bytes (h_body_length h)"
    and "byte_slice 40 2 buf = to_le_bytes (h_query_format h)"
    and "byte_slice 42 2 buf = to_le_bytes (h_body_format h)"
    and "byte_slice 44 4 buf = to_le_bytes (h_ec h)"
  unfolding assms header_encode_layout header_layout_def
  by (simp_all add: byte_slice_def nth_append)

text \<open>The fields of any 48 bytes, and that they determine those bytes.\<close>

definition header_fields :: "bytes \<Rightarrow> Header" where
  "header_fields buf =
     \<lparr>h_length = from_le_bytes (byte_slice 0 8 buf), h_spec = from_le_bytes (byte_slice 8 2 buf),
      h_version = buf ! 10, h_notify = buf ! 11,
      h_reserved = from_le_bytes (byte_slice 12 4 buf), h_id = from_le_bytes (byte_slice 16 8 buf),
      h_query_length = from_le_bytes (byte_slice 24 8 buf),
      h_body_length = from_le_bytes (byte_slice 32 8 buf),
      h_query_format = from_le_bytes (byte_slice 40 2 buf),
      h_body_format = from_le_bytes (byte_slice 42 2 buf), h_ec = from_le_bytes (byte_slice 44 4 buf)\<rparr>"

lemma slice_length: "off + n \<le> length buf \<Longrightarrow> length (byte_slice off n buf) = n"
  by (simp add: byte_slice_def)

lemma slice_singleton: "off < length buf \<Longrightarrow> byte_slice off (Suc 0) buf = [buf ! off]"
  by (simp add: byte_slice_def Cons_nth_drop_Suc [symmetric])

lemma slice_join: "byte_slice off m buf @ byte_slice (off + m) n buf = byte_slice off (m + n) buf"
  by (simp add: byte_slice_def take_add add.commute)

lemma header_encode_fields:
  assumes "HEADER_SIZE \<le> length buf"
  shows "header_encode (header_fields buf) = take HEADER_SIZE buf"
proof -
  have len: "48 \<le> length buf" using assms by (simp add: HEADER_SIZE_def)
  have "header_layout (header_fields buf) =
      byte_slice 0 8 buf @ byte_slice 8 2 buf @ byte_slice 10 1 buf @ byte_slice 11 1 buf @ byte_slice 12 4 buf
      @ byte_slice 16 8 buf @ byte_slice 24 8 buf @ byte_slice 32 8 buf @ byte_slice 40 2 buf @ byte_slice 42 2 buf
      @ byte_slice 44 4 buf"
    using len
    by (simp add: header_layout_def header_fields_def u64le.enc_dec u32le.enc_dec u16le.enc_dec
        slice_length slice_singleton)
  also have "\<dots> = byte_slice 0 48 buf"
    using slice_join [of 42 2 buf 4] slice_join [of 40 2 buf 6] slice_join [of 32 8 buf 8]
      slice_join [of 24 8 buf 16] slice_join [of 16 8 buf 24] slice_join [of 12 4 buf 32]
      slice_join [of 11 1 buf 36] slice_join [of 10 1 buf 37] slice_join [of 8 2 buf 38]
      slice_join [of 0 8 buf 40]
    by simp
  finally show ?thesis
    by (simp add: header_encode_layout byte_slice_def HEADER_SIZE_def)
qed

lemma header_fields_encode: "header_fields (header_encode h @ rest) = h"
  by (simp add: header_fields_def layout_fields [OF refl])

section \<open>Decoding\<close>

lemma unat_header_size: "unat (of_nat HEADER_SIZE :: u64) = HEADER_SIZE"
  by (simp add: HEADER_SIZE_def)

text \<open>The checked sum of the code, read as natural numbers.\<close>

lemma framed_total_checked:
  "Option.bind (checked_add (of_nat HEADER_SIZE) q) (\<lambda>tot. checked_add tot b) = Some (t :: u64)
     \<longleftrightarrow> unat t = HEADER_SIZE + unat q + unat b"
proof
  assume "Option.bind (checked_add (of_nat HEADER_SIZE) q) (\<lambda>tot. checked_add tot b) = Some t"
  then show "unat t = HEADER_SIZE + unat q + unat b"
    by (auto simp: bind_eq_Some_conv checked_add_Some_iff unat_header_size)
next
  assume t: "unat t = HEADER_SIZE + unat q + unat b"
  with unsigned_less [of t, where 'a = nat] have "HEADER_SIZE + unat q < 2 ^ LENGTH(64)" by simp
  then have "checked_add (of_nat HEADER_SIZE) q = Some (of_nat HEADER_SIZE + q)"
    by (simp add: checked_add_Some_iff unat_add_if_fits unat_header_size)
  moreover from this have "unat (of_nat HEADER_SIZE + q) = HEADER_SIZE + unat q"
    by (simp add: checked_add_Some_iff unat_header_size)
  moreover from this t have "checked_add (of_nat HEADER_SIZE + q) b = Some t"
    by (simp add: checked_add_Some_iff)
  ultimately show
    "Option.bind (checked_add (of_nat HEADER_SIZE) q) (\<lambda>tot. checked_add tot b) = Some t"
    by simp
qed

lemma framed_total_overflow:
  "Option.bind (checked_add (of_nat HEADER_SIZE) q) (\<lambda>tot. checked_add tot b) = (None :: u64 option)
     \<longleftrightarrow> 2 ^ 64 \<le> HEADER_SIZE + unat q + unat b"
proof -
  let ?s = "Option.bind (checked_add (of_nat HEADER_SIZE) q) (\<lambda>tot. checked_add tot b)"
  show ?thesis
  proof (cases ?s)
    case None
    have "\<not> HEADER_SIZE + unat q + unat b < 2 ^ LENGTH(64)"
    proof
      assume "HEADER_SIZE + unat q + unat b < 2 ^ LENGTH(64)"
      then have "unat (of_nat (HEADER_SIZE + unat q + unat b) :: u64)
          = HEADER_SIZE + unat q + unat b" by (rule unat_of_nat_fits)
      with None framed_total_checked [of q b "of_nat (HEADER_SIZE + unat q + unat b)"]
      show False by simp
    qed
    with None show ?thesis by simp
  next
    case (Some t)
    with framed_total_checked [of q b t] unsigned_less [of t, where 'a = nat]
    show ?thesis by simp
  qed
qed

lemma header_decode_cases:
  assumes "HEADER_SIZE \<le> length buf" and h: "h = header_fields buf"
  shows "header_decode usize_max buf =
    (if h_spec h \<noteq> REPE_SPEC then Inl (RE_InvalidSpec (h_spec h))
     else if 2 ^ 64 \<le> framed_total h \<or> usize_max < framed_total h
       then Inl (RE_FrameLengthOverflow (h_query_length h) (h_body_length h))
     else if unat (h_length h) \<noteq> framed_total h
       then Inl (RE_LengthMismatch (of_nat (framed_total h)) (h_length h))
     else Inr h)"
proof -
  let ?sum = "Option.bind (checked_add (of_nat HEADER_SIZE) (h_query_length h))
      (\<lambda>tot. checked_add tot (h_body_length h))"
  have unfolded: "header_decode usize_max buf =
     (if h_spec h \<noteq> REPE_SPEC then Inl (RE_InvalidSpec (h_spec h))
      else res_bind
        (ok_or (RE_FrameLengthOverflow (h_query_length h) (h_body_length h))
          (case ?sum of None \<Rightarrow> None
             | Some tot \<Rightarrow> if unat tot \<le> usize_max then Some tot else None))
        (\<lambda>expected. if h_length h \<noteq> expected then Inl (RE_LengthMismatch expected (h_length h))
                     else Inr h))"
    using assms(1) by (simp add: header_decode_def h header_fields_def Let_def cong: if_cong)
  show ?thesis
  proof (cases ?sum)
    case None
    then have "2 ^ 64 \<le> framed_total h"
      by (simp add: framed_total_overflow framed_total_def)
    with None show ?thesis unfolding unfolded by simp
  next
    case (Some t)
    then have t: "unat t = framed_total h"
      by (simp add: framed_total_checked framed_total_def)
    with unsigned_less [of t, where 'a = nat] have "framed_total h < 2 ^ 64" by simp
    moreover have "of_nat (framed_total h) = t" by (simp flip: t)
    moreover have "unat (h_length h) = framed_total h \<longleftrightarrow> h_length h = t"
      by (simp add: word_unat_eq_iff t)
    ultimately show ?thesis unfolding unfolded using Some t by (simp add: not_le)
  qed
qed

lemma header_decode_Inr_iff:
  "header_decode usize_max buf = Inr h \<longleftrightarrow>
     wf_header usize_max h \<and> (\<exists>rest. buf = header_encode h @ rest)"
proof (cases "HEADER_SIZE \<le> length buf")
  case False
  then have "\<not> (\<exists>rest. buf = header_encode h @ rest)" by auto
  with False show ?thesis by (simp add: header_decode_def)
next
  case True
  show ?thesis
  proof
    assume ok: "header_decode usize_max buf = Inr h"
    then have h: "h = header_fields buf" and wf: "wf_header usize_max h"
      by (auto simp: header_decode_cases [OF True refl] wf_header_def split: if_splits)
    from header_encode_fields [OF True] h have "buf = header_encode h @ drop HEADER_SIZE buf"
      by simp
    with wf show "wf_header usize_max h \<and> (\<exists>rest. buf = header_encode h @ rest)" by blast
  next
    assume r: "wf_header usize_max h \<and> (\<exists>rest. buf = header_encode h @ rest)"
    then have h: "h = header_fields buf" by (auto simp: header_fields_encode)
    from r have "framed_total h < 2 ^ 64"
      using unsigned_less [of "h_length h", where 'a = nat] by (simp add: wf_header_def)
    with r show "header_decode usize_max buf = Inr h"
      by (simp add: header_decode_cases [OF True h] wf_header_def)
  qed
qed

interpretation hdr: prefix_codec header_encode "header_decode usize_max" "wf_header usize_max"
  for usize_max
  by standard (rule header_decode_Inr_iff)

text \<open>\<open>x as usize\<close> on the target: the low bits of \<open>x\<close>.\<close>

definition as_usize :: "nat \<Rightarrow> u64 \<Rightarrow> nat" where
  "as_usize usize_max x = unat x mod (usize_max + 1)"

lemma wf_header_casts:
  assumes "wf_header usize_max h"
  shows "as_usize usize_max (h_query_length h) = unat (h_query_length h)"
    and "as_usize usize_max (h_body_length h) = unat (h_body_length h)"
    and "HEADER_SIZE + unat (h_query_length h) + unat (h_body_length h) = unat (h_length h)"
    and "unat (h_length h) \<le> usize_max"
  using assms by (auto simp: wf_header_def framed_total_def as_usize_def)

text \<open>
  C25. \<^verbatim>\<open>Header::decode\<close> accepts exactly the encodings of well-formed headers:
  it returns \<open>h\<close> on a buffer if and only if the buffer starts with
  \<^verbatim>\<open>h.encode()\<close>, \<open>h\<close> carries the REPE magic, its \<^verbatim>\<open>length\<close> field is the
  mathematical sum of header, query and body lengths, and that sum fits the
  target's address space. So decoding inverts encoding, no crafted pair of
  lengths that wraps around is accepted, and accepted bytes re-encode to
  themselves.
\<close>

theorem header_decode_exact:
  "header_decode usize_max buf = Inr h \<longleftrightarrow>
     wf_header usize_max h \<and> (\<exists>rest. buf = header_encode h @ rest)"
  by (rule header_decode_Inr_iff)

text \<open>
  Every rejection of \<^verbatim>\<open>Header::decode\<close>, with the error it names and in the
  code's order: a short buffer, then a wrong magic, then lengths whose sum does
  not fit 64 bits or the target's \<^verbatim>\<open>usize\<close>, then a \<^verbatim>\<open>length\<close> field that
  disagrees with that sum (reporting the exact sum). The \<^verbatim>\<open>reserved\<close> field and
  the version are never a reason to reject.
\<close>

theorem header_decode_errors:
  "header_decode usize_max buf = Inl err \<longleftrightarrow>
     (if length buf < HEADER_SIZE then err = RE_InvalidHeaderLength (length buf)
      else let h = header_fields buf in
        if h_spec h \<noteq> REPE_SPEC then err = RE_InvalidSpec (h_spec h)
        else if 2 ^ 64 \<le> framed_total h \<or> usize_max < framed_total h
          then err = RE_FrameLengthOverflow (h_query_length h) (h_body_length h)
        else unat (h_length h) \<noteq> framed_total h
          \<and> err = RE_LengthMismatch (of_nat (framed_total h)) (h_length h))"
proof (cases "length buf < HEADER_SIZE")
  case True
  then show ?thesis by (auto simp: header_decode_def)
next
  case False
  then have "HEADER_SIZE \<le> length buf" by simp
  with False show ?thesis
    by (auto simp: Let_def header_decode_cases [OF _ refl])
qed

text \<open>
  The casts \<^verbatim>\<open>as usize\<close> that the rest of the crate applies to the lengths of
  a decoded header lose nothing, and their sum with the header size neither
  overflows \<^verbatim>\<open>usize\<close> nor differs from the \<^verbatim>\<open>length\<close> field, on a target of any
  width.
\<close>

theorem decoded_lengths_addressable:
  assumes "header_decode usize_max buf = Inr h"
  shows "HEADER_SIZE + as_usize usize_max (h_query_length h) + as_usize usize_max (h_body_length h)
           = unat (h_length h)
         \<and> unat (h_length h) \<le> usize_max"
  using wf_header_casts [OF hdr.dec_wf [OF assms]] by simp

definition example_header :: Header where
  "example_header = header_new\<lparr>h_length := 60, h_query_length := 5, h_body_length := 7\<rparr>"

lemma wf_example_header: "60 \<le> usize_max \<Longrightarrow> wf_header usize_max example_header"
  by (simp add: example_header_def wf_header_def framed_total_def header_new_def
      header_default_def HEADER_SIZE_def)

theorem decoded_lengths_addressable_witness:
  "HEADER_SIZE + as_usize 65535 (h_query_length example_header)
     + as_usize 65535 (h_body_length example_header) = unat (h_length example_header)
   \<and> unat (h_length example_header) \<le> 65535"
proof (rule decoded_lengths_addressable)
  show "header_decode 65535 (header_encode example_header @ []) = (Inr example_header :: unit RepeError + Header)"
    by (rule hdr.dec_enc_append) (simp add: wf_example_header)
qed

end
