(* ===== verification/Message.thy ===== *)
theory Message
  imports Wire_Header
begin

text \<open>
  Messages of \<^verbatim>\<open>src/message.rs\<close>: the owned \<^verbatim>\<open>Message\<close> and the borrowing
  \<^verbatim>\<open>MessageView\<close> with their parsers and serialisers, the builder, and the
  functions that construct responses. Body encoders and decoders of the
  \<^verbatim>\<open>structio\<close> crate are arguments. A borrowed slice is the bytes it denotes, and
  a \<^verbatim>\<open>Vec\<close>'s spare capacity, which only \<^verbatim>\<open>into_wire_bytes\<close> observes, is an
  argument there.
\<close>

section \<open>Serialising\<close>

record Message =
  m_header :: Header
  m_query :: bytes
  m_body :: bytes

definition message_new :: "Header \<Rightarrow> bytes \<Rightarrow> bytes \<Rightarrow> 's RepeError + Message" where
  "message_new header query body =
     (if h_query_length header \<noteq> of_nat (length query)
         \<or> h_body_length header \<noteq> of_nat (length body)
      then Inl (RE_LengthMismatch
        (saturating_add (saturating_add (of_nat HEADER_SIZE) (h_query_length header))
           (h_body_length header))
        (of_nat HEADER_SIZE + of_nat (length query) + of_nat (length body)))
      else Inr \<lparr>m_header = header, m_query = query, m_body = body\<rparr>)"

definition message_to_vec :: "Message \<Rightarrow> bytes" where
  "message_to_vec m =
     (let out = header_encode (m_header m);
          out = (if m_query m \<noteq> [] then out @ m_query m else out);
          out = (if m_body m \<noteq> [] then out @ m_body m else out)
      in out)"

definition serialized_len :: "Message \<Rightarrow> nat" where
  "serialized_len m = HEADER_SIZE + length (m_query m) + length (m_body m)"

text \<open>\<^verbatim>\<open>Vec::resize\<close> with zeroes and \<^verbatim>\<open>copy_within(0..n, dest)\<close>.\<close>

definition vec_resize :: "nat \<Rightarrow> bytes \<Rightarrow> bytes" where
  "vec_resize n buf = take n buf @ replicate (n - length buf) 0"

definition copy_within :: "nat \<Rightarrow> nat \<Rightarrow> bytes \<Rightarrow> bytes" where
  "copy_within n dest buf = copy_at dest (take n buf) buf"

definition into_wire_bytes :: "nat \<Rightarrow> Message \<Rightarrow> bytes" where
  "into_wire_bytes body_capacity m =
     (let query = m_query m;
          body = m_body m;
          prefix_len = HEADER_SIZE + length query;
          body_len = length body;
          total_len = prefix_len + body_len
      in if body_capacity \<ge> total_len
         then let body = vec_resize total_len body;
                  body = (if body_len > 0 then copy_within body_len prefix_len body else body);
                  body = copy_at 0 (header_encode (m_header m)) body;
                  body = (if query \<noteq> [] then copy_at HEADER_SIZE query body else body)
              in body
         else let out = header_encode (m_header m);
                  out = (if query \<noteq> [] then out @ query else out);
                  out = (if body_len > 0 then out @ body else out)
              in out)"

section \<open>Parsing\<close>

text \<open>\<open>+\<close> on \<^verbatim>\<open>usize\<close>, which wraps in a release build.\<close>

definition usize_add :: "nat \<Rightarrow> nat \<Rightarrow> nat \<Rightarrow> nat" where
  "usize_add usize_max a b = (a + b) mod (usize_max + 1)"

definition message_from_slice :: "nat \<Rightarrow> bytes \<Rightarrow> 's RepeError + Message" where
  "message_from_slice usize_max buf =
     (if length buf < HEADER_SIZE then Inl (RE_InvalidHeaderLength (length buf))
      else res_bind (header_decode usize_max (take HEADER_SIZE buf)) (\<lambda>header.
        let ql = as_usize usize_max (h_query_length header);
            bl = as_usize usize_max (h_body_length header);
            expected = usize_add usize_max (usize_add usize_max HEADER_SIZE ql) bl
        in if length buf < expected then Inl (RE_BufferTooSmall expected (length buf))
           else let off = HEADER_SIZE;
                    query = byte_slice off ql buf;
                    off = usize_add usize_max off ql;
                    body = byte_slice off bl buf
                in message_new header query body))"

definition message_from_slice_exact :: "nat \<Rightarrow> bytes \<Rightarrow> 's RepeError + Message" where
  "message_from_slice_exact usize_max buf =
     res_bind (message_from_slice usize_max buf) (\<lambda>message.
       let expected = HEADER_SIZE + length (m_query message) + length (m_body message)
       in if length buf \<noteq> expected
          then Inl (RE_LengthMismatch (of_nat expected) (of_nat (length buf)))
          else Inr message)"

record MessageView =
  v_header :: Header
  v_query :: bytes
  v_body :: bytes

definition view_from_slice :: "nat \<Rightarrow> bytes \<Rightarrow> 's RepeError + MessageView" where
  "view_from_slice usize_max buf =
     (if length buf < HEADER_SIZE then Inl (RE_InvalidHeaderLength (length buf))
      else res_bind (header_decode usize_max (take HEADER_SIZE buf)) (\<lambda>header.
        let ql = as_usize usize_max (h_query_length header);
            bl = as_usize usize_max (h_body_length header);
            expected = usize_add usize_max (usize_add usize_max HEADER_SIZE ql) bl
        in if length buf < expected then Inl (RE_BufferTooSmall expected (length buf))
           else let q_start = HEADER_SIZE;
                    q_end = usize_add usize_max q_start ql;
                    b_end = usize_add usize_max q_end bl
                in Inr \<lparr>v_header = header,
                        v_query = byte_slice q_start (q_end - q_start) buf,
                        v_body = byte_slice q_end (b_end - q_end) buf\<rparr>))"

definition view_from_slice_exact :: "nat \<Rightarrow> bytes \<Rightarrow> 's RepeError + MessageView" where
  "view_from_slice_exact usize_max buf =
     res_bind (view_from_slice usize_max buf) (\<lambda>view.
       let expected = HEADER_SIZE + length (v_query view) + length (v_body view)
       in if length buf \<noteq> expected
          then Inl (RE_LengthMismatch (of_nat expected) (of_nat (length buf)))
          else Inr view)"

definition to_message :: "MessageView \<Rightarrow> Message" where
  "to_message view = \<lparr>m_header = v_header view, m_query = v_query view, m_body = v_body view\<rparr>"

section \<open>Reading a message\<close>

definition is_error :: "Message \<Rightarrow> bool" where
  "is_error m \<longleftrightarrow> h_ec (m_header m) \<noteq> error_code_u32 EC_Ok"

definition message_error_code :: "Message \<Rightarrow> ErrorCode option" where
  "message_error_code m = res_ok (error_code_try_from (h_ec (m_header m)))"

definition error_message_utf8 :: "Message \<Rightarrow> string option" where
  "error_message_utf8 m = (if \<not> is_error m then None else Some (from_utf8_lossy (m_body m)))"

definition query_str :: "Message \<Rightarrow> nat + string" where
  "query_str m = from_utf8 (m_query m)"

definition query_utf8 :: "Message \<Rightarrow> string" where
  "query_utf8 m = (case query_str m of Inr s \<Rightarrow> s | Inl _ \<Rightarrow> from_utf8_lossy (m_query m))"

definition body_utf8 :: "Message \<Rightarrow> string" where
  "body_utf8 m = from_utf8_lossy (m_body m)"

definition require_body_format :: "Message \<Rightarrow> BodyFormat \<Rightarrow> 's RepeError + unit" where
  "require_body_format m expected =
     (if h_body_format (m_header m) = body_format_u16 expected then Inr ()
      else Inl (RE_UnexpectedBodyFormat expected (h_body_format (m_header m))))"

text \<open>
  \<open>json_read\<close> and \<open>beve_read\<close> stand for \<^verbatim>\<open>structio\<close>'s readers into a default
  value, and \<open>invalid_utf8\<close> for its error at a byte position.
\<close>

definition json_body ::
    "(nat \<Rightarrow> 's) \<Rightarrow> (string \<Rightarrow> 's + 'r) \<Rightarrow> Message \<Rightarrow> 's RepeError + 'r" where
  "json_body invalid_utf8 json_read m =
     res_bind (require_body_format m BF_Json) (\<lambda>_.
     res_bind (res_map_err (\<lambda>pos. RE_Json (invalid_utf8 pos)) (from_utf8 (m_body m))) (\<lambda>text.
     res_map_err RE_Json (json_read text)))"

definition beve_body :: "(bytes \<Rightarrow> 's + 'r) \<Rightarrow> Message \<Rightarrow> 's RepeError + 'r" where
  "beve_body beve_read m =
     res_bind (require_body_format m BF_Beve) (\<lambda>_. res_map_err RE_Beve (beve_read (m_body m)))"

definition decode_body ::
    "(nat \<Rightarrow> 's) \<Rightarrow> (string \<Rightarrow> 's + 'r) \<Rightarrow> (bytes \<Rightarrow> 's + 'r) \<Rightarrow> Message \<Rightarrow> 's RepeError + 'r" where
  "decode_body invalid_utf8 json_read beve_read m =
     (let unexpected = Inl (RE_UnexpectedBodyFormat BF_Json (h_body_format (m_header m)))
      in case body_format_try_from (h_body_format (m_header m)) of
           Inr format \<Rightarrow>
             (if format = BF_Json \<or> format = BF_Utf8
              then res_bind (res_map_err (\<lambda>pos. RE_Json (invalid_utf8 pos)) (from_utf8 (m_body m)))
                     (\<lambda>text. res_map_err RE_Json (json_read text))
              else if format = BF_Beve then res_map_err RE_Beve (beve_read (m_body m))
              else unexpected)
         | Inl _ \<Rightarrow> unexpected)"

section \<open>Building\<close>

record MessageBuilder =
  b_id :: u64
  b_query :: bytes
  b_body :: bytes
  b_query_format :: u16
  b_body_format :: u16
  b_notify :: bool
  b_ec :: u32

definition builder :: MessageBuilder where
  "builder = \<lparr>b_id = 0, b_query = [], b_body = [], b_query_format = 0, b_body_format = 0,
              b_notify = False, b_ec = 0\<rparr>"

definition with_id :: "u64 \<Rightarrow> MessageBuilder \<Rightarrow> MessageBuilder" where
  "with_id i b = b\<lparr>b_id := i\<rparr>"

definition with_notify :: "bool \<Rightarrow> MessageBuilder \<Rightarrow> MessageBuilder" where
  "with_notify n b = b\<lparr>b_notify := n\<rparr>"

definition with_error_code :: "ErrorCode \<Rightarrow> MessageBuilder \<Rightarrow> MessageBuilder" where
  "with_error_code ec b = b\<lparr>b_ec := error_code_u32 ec\<rparr>"

definition with_query_format :: "QueryFormat \<Rightarrow> MessageBuilder \<Rightarrow> MessageBuilder" where
  "with_query_format f b = b\<lparr>b_query_format := query_format_u16 f\<rparr>"

definition with_query_format_code :: "u16 \<Rightarrow> MessageBuilder \<Rightarrow> MessageBuilder" where
  "with_query_format_code format_code b = b\<lparr>b_query_format := format_code\<rparr>"

definition with_body_format :: "BodyFormat \<Rightarrow> MessageBuilder \<Rightarrow> MessageBuilder" where
  "with_body_format f b = b\<lparr>b_body_format := body_format_u16 f\<rparr>"

definition with_body_format_code :: "u16 \<Rightarrow> MessageBuilder \<Rightarrow> MessageBuilder" where
  "with_body_format_code format_code b = b\<lparr>b_body_format := format_code\<rparr>"

definition with_query_bytes :: "bytes \<Rightarrow> MessageBuilder \<Rightarrow> MessageBuilder" where
  "with_query_bytes q b = b\<lparr>b_query := q\<rparr>"

definition with_query_str :: "string \<Rightarrow> MessageBuilder \<Rightarrow> MessageBuilder" where
  "with_query_str q b = b\<lparr>b_query := as_bytes q\<rparr>"

definition with_body_bytes :: "bytes \<Rightarrow> MessageBuilder \<Rightarrow> MessageBuilder" where
  "with_body_bytes d b = b\<lparr>b_body := d\<rparr>"

definition with_body_utf8 :: "string \<Rightarrow> MessageBuilder \<Rightarrow> MessageBuilder" where
  "with_body_utf8 s b = b\<lparr>b_body := as_bytes s, b_body_format := body_format_u16 BF_Utf8\<rparr>"

text \<open>
  \<open>json_to_vec\<close> and \<open>to_beve\<close> stand for \<^verbatim>\<open>structio\<close>'s encoders, which cannot
  fail; \<^verbatim>\<open>body_typed_slice\<close> and \<^verbatim>\<open>body_complex_slice\<close> append the same BEVE
  encoding of a slice into a pre-sized buffer.
\<close>

definition with_body_json :: "('v \<Rightarrow> bytes) \<Rightarrow> 'v \<Rightarrow> MessageBuilder \<Rightarrow> MessageBuilder" where
  "with_body_json json_to_vec v b =
     b\<lparr>b_body := json_to_vec v, b_body_format := body_format_u16 BF_Json\<rparr>"

definition with_body_beve :: "('v \<Rightarrow> bytes) \<Rightarrow> 'v \<Rightarrow> MessageBuilder \<Rightarrow> MessageBuilder" where
  "with_body_beve to_beve v b =
     b\<lparr>b_body := to_beve v, b_body_format := body_format_u16 BF_Beve\<rparr>"

definition with_body_typed_slice :: "('t list \<Rightarrow> bytes) \<Rightarrow> 't list \<Rightarrow> MessageBuilder \<Rightarrow> MessageBuilder" where
  "with_body_typed_slice to_beve vs b =
     (let body = [] @ to_beve vs
      in b\<lparr>b_body := body, b_body_format := body_format_u16 BF_Beve\<rparr>)"

text \<open>\<^verbatim>\<open>structio::Complex<T>\<close> is a pair of a real and an imaginary part.\<close>

type_synonym 't complex_value = "'t \<times> 't"

definition with_body_complex_slice ::
    "('t complex_value list \<Rightarrow> bytes) \<Rightarrow> 't complex_value list \<Rightarrow> MessageBuilder \<Rightarrow> MessageBuilder" where
  "with_body_complex_slice to_beve vs b =
     (let body = [] @ to_beve vs
      in b\<lparr>b_body := body, b_body_format := body_format_u16 BF_Beve\<rparr>)"

text \<open>The aligned writer of \<^verbatim>\<open>structio\<close> is told the payload's offset in the frame.\<close>

definition with_body_aligned_typed_slice ::
    "(nat \<Rightarrow> 't list \<Rightarrow> bytes) \<Rightarrow> 't list \<Rightarrow> MessageBuilder \<Rightarrow> MessageBuilder" where
  "with_body_aligned_typed_slice to_beve_aligned_at vs b =
     (let base_offset = HEADER_SIZE + length (b_query b)
      in b\<lparr>b_body := to_beve_aligned_at base_offset vs,
           b_body_format := body_format_u16 BF_Beve\<rparr>)"

text \<open>The decoders named for the slice payloads.\<close>

definition decode_typed_slice :: "(bytes \<Rightarrow> 's + 't list) \<Rightarrow> Message \<Rightarrow> 's RepeError + 't list" where
  "decode_typed_slice from_beve m = beve_body from_beve m"

definition decode_complex_slice ::
    "(bytes \<Rightarrow> 's + 't complex_value list) \<Rightarrow> Message \<Rightarrow> 's RepeError + 't complex_value list" where
  "decode_complex_slice from_beve m = beve_body from_beve m"

definition build :: "MessageBuilder \<Rightarrow> Message" where
  "build b =
     (let header = header_new\<lparr>h_id := b_id b,
            h_query_length := of_nat (length (b_query b)),
            h_body_length := of_nat (length (b_body b))\<rparr>;
          header = header\<lparr>h_length := of_nat HEADER_SIZE + h_query_length header
                            + h_body_length header\<rparr>;
          header = header\<lparr>h_query_format := (if b_query_format b = 0
                            then query_format_u16 QF_RawBinary else b_query_format b)\<rparr>;
          header = header\<lparr>h_body_format := (if b_body_format b = 0
                            then body_format_u16 BF_RawBinary else b_body_format b)\<rparr>;
          header = header\<lparr>h_notify := (if b_notify b then 1 else 0), h_ec := b_ec b\<rparr>
      in \<lparr>m_header = header, m_query = b_query b, m_body = b_body b\<rparr>)"

section \<open>Responses\<close>

definition create_error_message :: "ErrorCode \<Rightarrow> string \<Rightarrow> Message" where
  "create_error_message code msg =
     build (with_body_format BF_Utf8 (with_body_bytes (as_bytes msg) (with_error_code code builder)))"

definition create_error_response_for :: "u64 \<Rightarrow> bytes \<Rightarrow> ErrorCode \<Rightarrow> string \<Rightarrow> Message" where
  "create_error_response_for ident query code msg =
     (let err = create_error_message code msg;
          err = err\<lparr>m_header := (m_header err)\<lparr>h_id := ident\<rparr>\<rparr>;
          err = err\<lparr>m_query := query\<rparr>;
          err = err\<lparr>m_header := (m_header err)\<lparr>h_query_length := of_nat (length (m_query err))\<rparr>\<rparr>;
          err = err\<lparr>m_header := (m_header err)\<lparr>h_length :=
                  of_nat HEADER_SIZE + h_query_length (m_header err)
                    + h_body_length (m_header err)\<rparr>\<rparr>
      in err)"

definition create_error_response_like :: "Message \<Rightarrow> ErrorCode \<Rightarrow> string \<Rightarrow> Message" where
  "create_error_response_like request code msg =
     create_error_response_for (h_id (m_header request)) (m_query request) code msg"

definition response_header_builder :: "u64 \<Rightarrow> u16 \<Rightarrow> MessageBuilder" where
  "response_header_builder ident query_format =
     with_error_code EC_Ok
       (with_query_format
          (case query_format_try_from query_format of Inr f \<Rightarrow> f | Inl _ \<Rightarrow> QF_RawBinary)
          (with_id ident builder))"

text \<open>What \<^verbatim>\<open>structio\<close> provides for a result type (the bound \<^verbatim>\<open>ServableWrite\<close>).\<close>

record 'v servable_write =
  json_to_vec :: "'v \<Rightarrow> bytes"
  json_to_string :: "'v \<Rightarrow> string"
  to_beve :: "'v \<Rightarrow> bytes"

definition finish_response ::
    "'v servable_write \<Rightarrow> MessageBuilder \<Rightarrow> 'v \<Rightarrow> BodyFormat \<Rightarrow> Message" where
  "finish_response sw b result body_format =
     build (case body_format of
         BF_Json \<Rightarrow> with_body_json (json_to_vec sw) result b
       | BF_Utf8 \<Rightarrow> with_body_utf8 (json_to_string sw result) b
       | BF_RawBinary \<Rightarrow> with_body_format BF_RawBinary (with_body_bytes (json_to_vec sw result) b)
       | BF_Beve \<Rightarrow> with_body_beve (to_beve sw) result b)"

definition create_response ::
    "'v servable_write \<Rightarrow> Message \<Rightarrow> 'v \<Rightarrow> BodyFormat \<Rightarrow> Message" where
  "create_response sw request result body_format =
     finish_response sw
       (with_query_bytes (m_query request)
          (response_header_builder (h_id (m_header request)) (h_query_format (m_header request))))
       result body_format"

definition create_response_unstamped ::
    "'v servable_write \<Rightarrow> Message \<Rightarrow> 'v \<Rightarrow> BodyFormat \<Rightarrow> Message" where
  "create_response_unstamped sw request result body_format =
     finish_response sw
       (response_header_builder (h_id (m_header request)) (h_query_format (m_header request)))
       result body_format"

definition create_body_response_unstamped :: "Message \<Rightarrow> bytes \<Rightarrow> BodyFormat \<Rightarrow> Message" where
  "create_body_response_unstamped request body body_format =
     build (with_body_format body_format (with_body_bytes body
       (response_header_builder (h_id (m_header request)) (h_query_format (m_header request)))))"

definition stamp_response_query :: "Message \<Rightarrow> bytes \<Rightarrow> Message" where
  "stamp_response_query response request_query =
     (if request_query = [] \<or> m_query response \<noteq> [] then response
      else let response = response\<lparr>m_query := request_query\<rparr>;
               response = response\<lparr>m_header := (m_header response)
                 \<lparr>h_query_length := of_nat (length (m_query response))\<rparr>\<rparr>
           in response\<lparr>m_header := (m_header response)\<lparr>h_length :=
                of_nat HEADER_SIZE + h_query_length (m_header response)
                  + h_body_length (m_header response)\<rparr>\<rparr>)"

definition response_echo_query :: "Message \<Rightarrow> bytes \<Rightarrow> bytes" where
  "response_echo_query response request_query =
     (if m_query response = [] then request_query else m_query response)"

definition create_typed_slice_response_unstamped :: "('t list \<Rightarrow> bytes) \<Rightarrow> Message \<Rightarrow> 't list \<Rightarrow> Message" where
  "create_typed_slice_response_unstamped slice_to_beve request result =
     build (with_body_typed_slice slice_to_beve result
       (response_header_builder (h_id (m_header request)) (h_query_format (m_header request))))"

definition create_typed_slice_response_unstamped_view ::
    "('t list \<Rightarrow> bytes) \<Rightarrow> MessageView \<Rightarrow> 't list \<Rightarrow> Message" where
  "create_typed_slice_response_unstamped_view slice_to_beve view result =
     build (with_body_typed_slice slice_to_beve result
       (response_header_builder (h_id (v_header view)) (h_query_format (v_header view))))"

definition create_response_unstamped_view ::
    "'v servable_write \<Rightarrow> MessageView \<Rightarrow> 'v \<Rightarrow> BodyFormat \<Rightarrow> Message" where
  "create_response_unstamped_view sw view result body_format =
     finish_response sw
       (response_header_builder (h_id (v_header view)) (h_query_format (v_header view)))
       result body_format"

definition create_error_response_unstamped_view :: "MessageView \<Rightarrow> ErrorCode \<Rightarrow> string \<Rightarrow> Message" where
  "create_error_response_unstamped_view view code msg =
     (let err = create_error_message code msg
      in err\<lparr>m_header := (m_header err)\<lparr>h_id := h_id (v_header view)\<rparr>\<rparr>)"

lemmas builder_defs = builder_def with_id_def with_notify_def with_error_code_def
  with_query_format_def with_query_format_code_def with_body_format_def with_body_format_code_def
  with_query_bytes_def with_query_str_def with_body_bytes_def with_body_utf8_def with_body_json_def
  with_body_beve_def with_body_typed_slice_def with_body_aligned_typed_slice_def
  response_header_builder_def header_new_def header_default_def

section \<open>The wire format of a message\<close>

definition wf_message :: "nat \<Rightarrow> Message \<Rightarrow> bool" where
  "wf_message usize_max m \<longleftrightarrow>
     wf_header usize_max (m_header m)
     \<and> unat (h_query_length (m_header m)) = length (m_query m)
     \<and> unat (h_body_length (m_header m)) = length (m_body m)"

lemma to_vec_append: "message_to_vec m = header_encode (m_header m) @ m_query m @ m_body m"
  by (simp add: message_to_vec_def Let_def)

lemma length_to_vec [simp]: "length (message_to_vec m) = serialized_len m"
  by (simp add: to_vec_append serialized_len_def)

lemma wf_message_len: "wf_message usize_max m \<Longrightarrow> unat (h_length (m_header m)) = serialized_len m"
  by (simp add: wf_message_def wf_header_def framed_total_def serialized_len_def)

text \<open>The view the code returns once the header has been accepted.\<close>

definition framed_view :: "Header \<Rightarrow> bytes \<Rightarrow> MessageView" where
  "framed_view h buf =
     \<lparr>v_header = h,
      v_query = byte_slice HEADER_SIZE (unat (h_query_length h)) buf,
      v_body = byte_slice (HEADER_SIZE + unat (h_query_length h)) (unat (h_body_length h)) buf\<rparr>"

lemma usize_add_fits: "a + b \<le> usize_max \<Longrightarrow> usize_add usize_max a b = a + b"
  by (simp add: usize_add_def)

lemma wf_header_usize:
  assumes "wf_header usize_max h"
  shows "usize_add usize_max HEADER_SIZE (unat (h_query_length h))
           = HEADER_SIZE + unat (h_query_length h)"
    and "usize_add usize_max (HEADER_SIZE + unat (h_query_length h)) (unat (h_body_length h))
           = framed_total h"
  using assms by (simp_all add: wf_header_def framed_total_def usize_add_fits)

lemma header_decode_take:
  "HEADER_SIZE \<le> length buf \<Longrightarrow> header_decode usize_max (take HEADER_SIZE buf) = header_decode usize_max buf"
proof -
  assume len: "HEADER_SIZE \<le> length buf"
  then have "header_fields (take HEADER_SIZE buf) = header_fields buf"
    by (simp add: header_fields_def byte_slice_def HEADER_SIZE_def take_drop min_def)
  with len show ?thesis by (simp add: header_decode_cases [OF _ refl])
qed

lemma header_decode_framed:
  "wf_header usize_max h \<Longrightarrow> header_decode usize_max (header_encode h) = Inr h"
  using hdr.dec_enc_append [of usize_max h "[]"] by simp

lemma view_from_slice_framed:
  assumes wf: "wf_header usize_max h" and buf: "buf = header_encode h @ rest"
  shows "view_from_slice usize_max buf =
    (if length buf < framed_total h then Inl (RE_BufferTooSmall (framed_total h) (length buf))
     else Inr (framed_view h buf))"
proof -
  from buf have len: "HEADER_SIZE \<le> length buf" by simp
  with wf show ?thesis
    by (simp add: buf header_decode_framed view_from_slice_def framed_view_def Let_def wf_header_casts(1,2) [OF wf]
        wf_header_usize [OF wf] framed_total_def)
qed

lemma view_from_slice_rejected:
  assumes "HEADER_SIZE \<le> length buf" and "header_decode usize_max buf = Inl err"
  shows "view_from_slice usize_max buf = Inl err"
  using assms by (simp add: view_from_slice_def header_decode_take)

lemma message_new_framed:
  assumes "framed_total h \<le> length buf"
  shows "message_new h (v_query (framed_view h buf)) (v_body (framed_view h buf))
    = Inr (to_message (framed_view h buf))"
  using assms
  by (simp add: message_new_def framed_view_def to_message_def byte_slice_def framed_total_def)

lemma message_from_slice_framed:
  assumes wf: "wf_header usize_max h" and buf: "buf = header_encode h @ rest"
  shows "message_from_slice usize_max buf = (
    if length buf < framed_total h then Inl (RE_BufferTooSmall (framed_total h) (length buf))
     else Inr (to_message (framed_view h buf)) :: 's RepeError + Message)"
proof -
  from buf have len: "HEADER_SIZE \<le> length buf" by simp
  have "message_from_slice usize_max buf = (
    if length buf < framed_total h then Inl (RE_BufferTooSmall (framed_total h) (length buf))
     else message_new h (v_query (framed_view h buf)) (v_body (framed_view h buf)) :: 's RepeError + Message)"
    using len wf
    by (simp add: buf header_decode_framed message_from_slice_def framed_view_def Let_def wf_header_casts(1,2) [OF wf]
        wf_header_usize [OF wf] framed_total_def)
  then show ?thesis by (simp add: message_new_framed not_less)
qed

lemma message_from_slice_eq_view:
  "message_from_slice usize_max buf = res_bind (view_from_slice usize_max buf) (\<lambda>v. Inr (to_message v))"
proof (cases "length buf < HEADER_SIZE")
  case True
  then show ?thesis by (simp add: message_from_slice_def view_from_slice_def)
next
  case False
  then have len: "HEADER_SIZE \<le> length buf" by simp
  show ?thesis
  proof (cases "header_decode usize_max buf :: 'a RepeError + Header")
    case (Inl err)
    with len show ?thesis
      by (simp add: message_from_slice_def view_from_slice_def header_decode_take)
  next
    case (Inr h)
    then obtain rest where "wf_header usize_max h" "buf = header_encode h @ rest"
      by (auto simp: header_decode_Inr_iff)
    then show ?thesis
      by (simp add: message_from_slice_framed view_from_slice_framed)
  qed
qed

lemma framed_view_append:
  assumes "unat (h_query_length h) = length q" and "unat (h_body_length h) = length b"
  shows "framed_view h (header_encode h @ q @ b @ rest) = \<lparr>v_header = h, v_query = q, v_body = b\<rparr>"
  using assms by (simp add: framed_view_def byte_slice_def)

lemma framed_view_prefix:
  assumes buf: "buf = header_encode h @ rest" and len: "framed_total h \<le> length buf"
  shows "\<exists>tail. buf = message_to_vec (to_message (framed_view h buf)) @ tail"
    and "length (v_query (framed_view h buf)) = unat (h_query_length h)"
    and "length (v_body (framed_view h buf)) = unat (h_body_length h)"
proof -
  let ?q = "unat (h_query_length h)" and ?b = "unat (h_body_length h)"
  have "rest = take ?q rest @ take ?b (drop ?q rest) @ drop (?q + ?b) rest"
    by (metis append_take_drop_id drop_drop add.commute)
  then show "\<exists>tail. buf = message_to_vec (to_message (framed_view h buf)) @ tail"
    by (intro exI [of _ "drop (?q + ?b) rest"])
      (simp add: buf to_vec_append to_message_def framed_view_def byte_slice_def)
  from len show "length (v_query (framed_view h buf)) = ?q"
    and "length (v_body (framed_view h buf)) = ?b"
    by (simp_all add: buf framed_view_def byte_slice_def framed_total_def)
qed

lemma message_from_slice_Inr_iff:
  "message_from_slice usize_max buf = (Inr m :: 's RepeError + Message) \<longleftrightarrow>
     wf_message usize_max m \<and> (\<exists>rest. buf = message_to_vec m @ rest)"
proof
  assume ok: "message_from_slice usize_max buf = (Inr m :: 's RepeError + Message)"
  then have len: "HEADER_SIZE \<le> length buf"
    by (auto simp: message_from_slice_def split: if_splits)
  with ok obtain h where "header_decode usize_max buf = (Inr h :: 's RepeError + Header)"
    by (auto simp: message_from_slice_def header_decode_take res_bind_Inr_iff)
  then obtain rest where wf: "wf_header usize_max h" and buf: "buf = header_encode h @ rest"
    by (auto simp: header_decode_Inr_iff)
  with ok have total_le: "framed_total h \<le> length buf" and m: "m = to_message (framed_view h buf)"
    by (auto simp: message_from_slice_framed split: if_splits)
  from framed_view_prefix(2,3) [OF buf total_le] wf m have "wf_message usize_max m"
    by (simp add: wf_message_def to_message_def framed_view_def)
  with framed_view_prefix(1) [OF buf total_le] m
  show "wf_message usize_max m \<and> (\<exists>rest. buf = message_to_vec m @ rest)" by simp
next
  assume "wf_message usize_max m \<and> (\<exists>rest. buf = message_to_vec m @ rest)"
  then obtain rest where wf: "wf_message usize_max m" and buf: "buf = message_to_vec m @ rest"
    by blast
  let ?h = "m_header m"
  from wf have h: "wf_header usize_max ?h" and lens: "unat (h_query_length ?h) = length (m_query m)"
      "unat (h_body_length ?h) = length (m_body m)"
    by (simp_all add: wf_message_def)
  have buf': "buf = header_encode ?h @ m_query m @ m_body m @ rest"
    by (simp add: buf to_vec_append)
  from lens have "framed_total ?h \<le> length buf" by (simp add: buf' framed_total_def)
  moreover have "to_message (framed_view ?h buf) = m"
    unfolding buf' framed_view_append [OF lens] by (simp add: to_message_def)
  ultimately show "message_from_slice usize_max buf = (Inr m :: 's RepeError + Message)"
    using message_from_slice_framed [OF h buf'] by simp
qed

interpretation msg: prefix_codec message_to_vec "message_from_slice usize_max" "wf_message usize_max"
  for usize_max
  by standard (rule message_from_slice_Inr_iff)

text \<open>Buffers no longer than \<^verbatim>\<open>usize::MAX\<close> have lengths that fit 64 bits.\<close>

lemma view_from_slice_Inr_iff:
  "view_from_slice usize_max buf = (Inr v :: 's RepeError + MessageView) \<longleftrightarrow>
     message_from_slice usize_max buf = (Inr (to_message v) :: 's RepeError + Message)"
  by (auto simp: message_from_slice_eq_view res_bind_Inr_iff to_message_def)

lemma message_from_slice_exact_Inr_iff:
  "message_from_slice_exact usize_max buf = Inr m \<longleftrightarrow> wf_message usize_max m \<and> buf = message_to_vec m"
  by (auto simp: message_from_slice_exact_def res_bind_Inr_iff message_from_slice_Inr_iff
      serialized_len_def Let_def split: if_splits)

lemma message_from_slice_exact_trailing:
  assumes "wf_message usize_max m" and "rest \<noteq> []"
  shows "message_from_slice_exact usize_max (message_to_vec m @ rest)
    = Inl (RE_LengthMismatch (of_nat (serialized_len m)) (of_nat (serialized_len m + length rest)))"
  using assms(2)
  by (simp add: msg.dec_enc_append [OF assms(1)] message_from_slice_exact_def Let_def serialized_len_def)

lemma view_from_slice_exact_eq:
  "message_from_slice_exact usize_max buf
     = res_bind (view_from_slice_exact usize_max buf) (\<lambda>v. Inr (to_message v) :: 's RepeError + Message)"
  by (cases "view_from_slice usize_max buf :: 's RepeError + MessageView")
    (simp_all add: message_from_slice_exact_def view_from_slice_exact_def message_from_slice_eq_view
      Let_def to_message_def)

lemma into_wire_bytes_in_place:
  assumes "HEADER_SIZE + length (m_query m) + length (m_body m) \<le> cap"
  shows "into_wire_bytes cap m = message_to_vec m"
  using assms
  by (simp add: into_wire_bytes_def Let_def to_vec_append vec_resize_def copy_within_def copy_at_def)

lemma into_wire_bytes_to_vec: "into_wire_bytes cap m = message_to_vec m"
proof (cases "HEADER_SIZE + length (m_query m) + length (m_body m) \<le> cap")
  case False
  then show ?thesis by (simp add: into_wire_bytes_def Let_def to_vec_append)
qed (rule into_wire_bytes_in_place)

section \<open>Built messages and responses\<close>

lemma build_wf:
  assumes "HEADER_SIZE + length (b_query b) + length (b_body b) \<le> usize_max" and "usize_max < 2 ^ 64"
  shows "wf_message usize_max (build b)"
proof -
  have "unat (of_nat (length (b_query b)) :: u64) = length (b_query b)"
    and "unat (of_nat (length (b_body b)) :: u64) = length (b_body b)"
    and "unat (of_nat (HEADER_SIZE + length (b_query b) + length (b_body b)) :: u64)
           = HEADER_SIZE + length (b_query b) + length (b_body b)"
    using assms by (simp_all add: unat_of_nat del: of_nat_add)
  with assms(1) show ?thesis
    by (simp add: wf_message_def wf_header_def framed_total_def build_def Let_def header_new_def)
qed

lemma stamp_build:
  "stamp_response_query (build b) q =
     build (b\<lparr>b_query := response_echo_query (build b) q\<rparr>)"
  by (simp add: stamp_response_query_def response_echo_query_def build_def Let_def)

lemma stamped_query: "m_query (stamp_response_query m q) = response_echo_query m q"
  by (simp add: stamp_response_query_def response_echo_query_def Let_def)

lemma build_fields [simp]:
  "m_query (build b) = b_query b" "m_body (build b) = b_body b" "h_id (m_header (build b)) = b_id b"
  "h_ec (m_header (build b)) = b_ec b"
  by (simp_all add: build_def Let_def)

lemma stamp_finish_response:
  assumes "b_query b = []"
  shows "stamp_response_query (finish_response sw b v f) q = finish_response sw (with_query_bytes q b) v f"
  using assms
  by (cases f; cases "q = []")
    (simp_all add: finish_response_def builder_defs stamp_response_query_def build_def Let_def)

lemma create_error_message_build:
  "create_error_response_for ident q code msg =
     build (with_id ident (with_query_bytes q
       (with_body_format BF_Utf8 (with_body_bytes (as_bytes msg) (with_error_code code builder)))))"
  by (simp add: create_error_response_for_def create_error_message_def build_def builder_defs Let_def)

lemma create_error_unstamped_build:
  "create_error_response_unstamped_view view code msg =
     build (with_id (h_id (v_header view))
       (with_body_format BF_Utf8 (with_body_bytes (as_bytes msg) (with_error_code code builder))))"
  by (simp add: create_error_response_unstamped_view_def create_error_message_def build_def
      builder_defs Let_def)

text \<open>
  C3. \<^verbatim>\<open>Message::from_slice\<close> accepts exactly the buffers that start with the
  serialisation of a well-formed message, and returns that message: the header
  is valid, its \<^verbatim>\<open>query_length\<close> and \<^verbatim>\<open>body_length\<close> are the true lengths, and
  trailing bytes are ignored. \<^verbatim>\<open>from_slice_exact\<close> accepts the serialisation alone.
\<close>

theorem message_parse_exact:
  "(message_from_slice usize_max buf = Inr m \<longleftrightarrow>
      wf_message usize_max m \<and> (\<exists>rest. buf = message_to_vec m @ rest))
   \<and> (message_from_slice_exact usize_max buf = Inr m \<longleftrightarrow>
      wf_message usize_max m \<and> buf = message_to_vec m)"
  by (simp add: message_from_slice_Inr_iff message_from_slice_exact_Inr_iff)

text \<open>
  The zero-copy parser agrees with the owned one on every buffer, errors
  included: \<^verbatim>\<open>MessageView::from_slice\<close> followed by \<^verbatim>\<open>to_message\<close> is
  \<^verbatim>\<open>Message::from_slice\<close>, and likewise for the exact variants.
\<close>

theorem view_parse_agrees:
  "res_bind (view_from_slice usize_max buf) (\<lambda>v. Inr (to_message v)) = message_from_slice usize_max buf
   \<and> res_bind (view_from_slice_exact usize_max buf) (\<lambda>v. Inr (to_message v))
       = message_from_slice_exact usize_max buf"
  by (simp only: message_from_slice_eq_view view_from_slice_exact_eq)

text \<open>
  \<^verbatim>\<open>Message::into_wire_bytes\<close>, which reuses the body's allocation when its
  spare capacity allows and moves the body within it, yields the bytes of
  \<^verbatim>\<open>to_vec\<close> for every message and every capacity.
\<close>

theorem into_wire_bytes_agrees: "into_wire_bytes body_capacity m = message_to_vec m"
  by (rule into_wire_bytes_to_vec)

text \<open>
  Whatever a \<^verbatim>\<open>MessageBuilder\<close> holds, the message it builds parses back from
  its serialisation to itself, provided the frame fits the address space.
\<close>

theorem build_roundtrip:
  assumes "HEADER_SIZE + length (b_query b) + length (b_body b) \<le> usize_max" and "usize_max < 2 ^ 64"
  shows "message_from_slice_exact usize_max (message_to_vec (build b)) = Inr (build b)"
  by (simp add: message_from_slice_exact_Inr_iff build_wf [OF assms])

theorem build_roundtrip_witness:
  "message_from_slice_exact 65535 (message_to_vec (build (with_query_str ''/a'' (with_body_utf8 ''hi'' builder))))
     = Inr (build (with_query_str ''/a'' (with_body_utf8 ''hi'' builder)))"
  by (rule build_roundtrip) (simp_all add: builder_defs HEADER_SIZE_def as_bytes_def)

text \<open>
  Stamping the request's query onto an unstamped response gives the response
  built with the query from the start, for results and for errors: the
  zero-copy server path and the owned one send the same messages.
\<close>

theorem stamped_responses_agree:
  "stamp_response_query (create_response_unstamped sw request result format) (m_query request)
     = create_response sw request result format
   \<and> stamp_response_query (create_error_response_unstamped_view view code msg) (v_query view)
     = create_error_response_like (to_message view) code msg
   \<and> create_response_unstamped_view sw view result format
     = create_response_unstamped sw (to_message view) result format"
proof (intro conjI)
  show "stamp_response_query (create_response_unstamped sw request result format) (m_query request)
     = create_response sw request result format"
    unfolding create_response_unstamped_def create_response_def
    by (rule stamp_finish_response) (simp add: builder_defs)
  show "stamp_response_query (create_error_response_unstamped_view view code msg) (v_query view)
     = create_error_response_like (to_message view) code msg"
    by (simp add: create_error_response_like_def create_error_message_build create_error_unstamped_build
        to_message_def stamp_build response_echo_query_def builder_defs)
qed (simp add: create_response_unstamped_view_def create_response_unstamped_def to_message_def)

end
