(* ===== verification/Framing_IO.thy ===== *)
theory Framing_IO
  imports Message
begin

text \<open>
  Framing over byte streams, \<^verbatim>\<open>src/io.rs\<close> and \<^verbatim>\<open>src/async_io.rs\<close>. The generic
  reader \<^verbatim>\<open>R: Read\<close> is an argument \<open>rd\<close>, one call of \<^verbatim>\<open>Read::read\<close> on a buffer
  of the given size; tokio's \<^verbatim>\<open>read_exact\<close> and the \<^verbatim>\<open>write_all\<close> of \<^verbatim>\<open>W: Write\<close>
  are arguments as well. What those promise is stated as locales: \<open>byte_source\<close>
  for a reader that may return any non-empty part of what was asked,
  \<open>exact_source\<close> for one that fills the whole buffer or reports the end of the
  stream, \<open>byte_sink\<close> for a writer. \<open>byte_source\<close> gives \<open>exact_source\<close> through the
  loop of \<^verbatim>\<open>read_exact\<close>, so each framing theorem is proved once.
\<close>

section \<open>Fallible actions on a stream\<close>

text \<open>\<open>None\<close> is a panic, \<open>Inl\<close> an error the function returns.\<close>

type_synonym ('r, 'e, 'a) io = "'r \<Rightarrow> (('e + 'a) \<times> 'r) option"

definition io_result :: "'e + 'a \<Rightarrow> ('r, 'e, 'a) io" where
  "io_result x r = Some (x, r)"

definition io_bind :: "('r, 'e, 'a) io \<Rightarrow> ('a \<Rightarrow> ('r, 'e, 'b) io) \<Rightarrow> ('r, 'e, 'b) io" where
  "io_bind act k r =
     (case act r of
        None \<Rightarrow> None
      | Some (Inl e, r') \<Rightarrow> Some (Inl e, r')
      | Some (Inr x, r') \<Rightarrow> k x r')"

text \<open>The conversion \<^verbatim>\<open>From<io::Error> for RepeError\<close> that \<^verbatim>\<open>?\<close> applies.\<close>

definition io_from :: "('r, io_error, 'a) io \<Rightarrow> ('r, 's RepeError, 'a) io" where
  "io_from act r = map_option (\<lambda>(x, r'). (res_map_err RE_Io x, r')) (act r)"

lemma io_bind_simps [simp]:
  "act r = None \<Longrightarrow> io_bind act k r = None"
  "act r = Some (Inl e, r') \<Longrightarrow> io_bind act k r = Some (Inl e, r')"
  "act r = Some (Inr x, r') \<Longrightarrow> io_bind act k r = k x r'"
  by (simp_all add: io_bind_def)

lemma io_bind_result [simp]:
  "io_bind (io_result (Inr x)) k = k x"
  "io_bind (io_result (Inl e)) k = io_result (Inl e)"
  by (simp_all add: io_bind_def io_result_def fun_eq_iff)

lemma io_bind_cong_at:
  "act r = act' r \<Longrightarrow> (\<And>x r'. act r = Some (Inr x, r') \<Longrightarrow> k x r' = k' x r')
    \<Longrightarrow> io_bind act k r = io_bind act' k' r"
  by (auto simp: io_bind_def split: option.splits sum.splits)

section \<open>Reading\<close>

text \<open>
  \<^verbatim>\<open>rd n r\<close> is \<^verbatim>\<open>r.read(buf)\<close> for a buffer of \<open>n\<close> bytes, returning the bytes it put
  in the buffer. A count beyond the buffer makes \<^verbatim>\<open>&mut tmp[n..]\<close> panic. The
  result is the buffer's final contents.
\<close>

function read_exact ::
    "(nat \<Rightarrow> 'r \<Rightarrow> (io_error + bytes) \<times> 'r) \<Rightarrow> nat \<Rightarrow> ('r, io_error, bytes) io" where
  "read_exact rd 0 r = Some (Inr [], r)"
| "read_exact rd (Suc k) r =
     (case rd (Suc k) r of
        (Inl e, r') \<Rightarrow> Some (Inl e, r')
      | (Inr chunk, r') \<Rightarrow>
          if chunk = [] then Some (Inl UnexpectedEof, r')
          else if length chunk > Suc k then None
          else (case read_exact rd (Suc k - length chunk) r' of
                  None \<Rightarrow> None
                | Some (Inl e, r'') \<Rightarrow> Some (Inl e, r'')
                | Some (Inr rest, r'') \<Rightarrow> Some (Inr (chunk @ rest), r'')))"
  by pat_completeness auto

termination
  by (relation "measure (\<lambda>(rd, n, r). n)") auto

text \<open>\<^verbatim>\<open>let mut v = vec![0u8; n]; if !v.is_empty() { read_exact(r, &mut v)?; }\<close>\<close>

definition read_part :: "(nat \<Rightarrow> ('r, io_error, bytes) io) \<Rightarrow> nat \<Rightarrow> ('r, 's RepeError, bytes) io" where
  "read_part rx n = (if n > 0 then io_from (rx n) else io_result (Inr []))"

definition read_message ::
    "nat \<Rightarrow> (nat \<Rightarrow> 'r \<Rightarrow> (io_error + bytes) \<times> 'r) \<Rightarrow> ('r, 's RepeError, Message) io" where
  "read_message usize_max rd =
     io_bind (io_from (read_exact rd HEADER_SIZE)) (\<lambda>hdr_buf.
     io_bind (io_result (header_decode usize_max hdr_buf)) (\<lambda>header.
     let query_len = as_usize usize_max (h_query_length header) in
     io_bind (read_part (read_exact rd) query_len) (\<lambda>query.
     let body_len = as_usize usize_max (h_body_length header) in
     io_bind (read_part (read_exact rd) body_len) (\<lambda>body.
     io_result (message_new header query body)))))"

text \<open>The value is the contents of \<^verbatim>\<open>buf\<close> on success.\<close>

definition read_message_into ::
    "nat \<Rightarrow> (nat \<Rightarrow> 'r \<Rightarrow> (io_error + bytes) \<times> 'r) \<Rightarrow> ('r, 's RepeError, bytes) io" where
  "read_message_into usize_max rd =
     io_bind (io_from (read_exact rd HEADER_SIZE)) (\<lambda>buf.
     io_bind (io_result (header_decode usize_max buf)) (\<lambda>header.
     let tot = usize_add usize_max
           (usize_add usize_max HEADER_SIZE (as_usize usize_max (h_query_length header)))
           (as_usize usize_max (h_body_length header)) in
     io_bind (io_from (read_exact rd (tot - HEADER_SIZE))) (\<lambda>rest.
     io_result (Inr (buf @ rest)))))"

definition read_message_async ::
    "nat \<Rightarrow> (nat \<Rightarrow> ('r, io_error, bytes) io) \<Rightarrow> ('r, 's RepeError, Message) io" where
  "read_message_async usize_max rx =
     io_bind (io_from (rx HEADER_SIZE)) (\<lambda>hdr.
     io_bind (io_result (header_decode usize_max hdr)) (\<lambda>header.
     let query_len = as_usize usize_max (h_query_length header) in
     io_bind (read_part rx query_len) (\<lambda>query.
     let body_len = as_usize usize_max (h_body_length header) in
     io_bind (read_part rx body_len) (\<lambda>body.
     io_result (message_new header query body)))))"

definition read_message_into_async ::
    "nat \<Rightarrow> (nat \<Rightarrow> ('r, io_error, bytes) io) \<Rightarrow> ('r, 's RepeError, bytes) io" where
  "read_message_into_async usize_max rx =
     io_bind (io_from (rx HEADER_SIZE)) (\<lambda>buf.
     io_bind (io_result (header_decode usize_max buf)) (\<lambda>header.
     let tot = usize_add usize_max
           (usize_add usize_max HEADER_SIZE (as_usize usize_max (h_query_length header)))
           (as_usize usize_max (h_body_length header)) in
     io_bind (io_from (rx (tot - HEADER_SIZE))) (\<lambda>rest.
     io_result (Inr (buf @ rest)))))"

section \<open>Writing\<close>

definition write_message ::
    "(bytes \<Rightarrow> ('w, io_error, unit) io) \<Rightarrow> Message \<Rightarrow> ('w, 's RepeError, unit) io" where
  "write_message write_all m =
     (let header_bytes = header_encode (m_header m) in
      io_bind (io_from (write_all header_bytes)) (\<lambda>_.
      io_bind (if m_query m \<noteq> [] then io_from (write_all (m_query m)) else io_result (Inr ())) (\<lambda>_.
      io_bind (if m_body m \<noteq> [] then io_from (write_all (m_body m)) else io_result (Inr ())) (\<lambda>_.
      io_result (Inr ())))))"

definition write_message_async ::
    "(bytes \<Rightarrow> ('w, io_error, unit) io) \<Rightarrow> Message \<Rightarrow> ('w, 's RepeError, unit) io" where
  "write_message_async write_all m =
     (let header_bytes = header_encode (m_header m) in
      io_bind (io_from (write_all header_bytes)) (\<lambda>_.
      io_bind (if m_query m \<noteq> [] then io_from (write_all (m_query m)) else io_result (Inr ())) (\<lambda>_.
      io_bind (if m_body m \<noteq> [] then io_from (write_all (m_body m)) else io_result (Inr ())) (\<lambda>_.
      io_result (Inr ())))))"

text \<open>\<open>body_writer\<close> is the caller's closure, its error already converted.\<close>

definition write_message_streaming ::
    "(bytes \<Rightarrow> ('w, io_error, unit) io) \<Rightarrow> Header \<Rightarrow> bytes \<Rightarrow> u64
      \<Rightarrow> ('w, 's RepeError, unit) io \<Rightarrow> ('w, 's RepeError, unit) io" where
  "write_message_streaming write_all header query body_len body_writer =
     (let header = header\<lparr>h_query_length := of_nat (length query)\<rparr>;
          header = header\<lparr>h_body_length := body_len\<rparr>;
          header = header\<lparr>h_length := of_nat HEADER_SIZE + h_query_length header + body_len\<rparr> in
      io_bind (io_from (write_all (header_encode header))) (\<lambda>_.
      io_bind (if query \<noteq> [] then io_from (write_all query) else io_result (Inr ())) (\<lambda>_.
      io_bind body_writer (\<lambda>_.
      io_result (Inr ())))))"

text \<open>\<open>beve_size\<close> and \<open>to_beve_writer\<close> stand for \<^verbatim>\<open>structio\<close>'s functions on a slice.\<close>

definition write_message_typed_slice ::
    "(bytes \<Rightarrow> ('w, io_error, unit) io) \<Rightarrow> ('t list \<Rightarrow> nat) \<Rightarrow> ('t list \<Rightarrow> ('w, io_error, unit) io)
      \<Rightarrow> Header \<Rightarrow> bytes \<Rightarrow> 't list \<Rightarrow> ('w, 's RepeError, unit) io" where
  "write_message_typed_slice write_all beve_size to_beve_writer header query slice' =
     (let header = header\<lparr>h_body_format := body_format_u16 BF_Beve\<rparr>;
          body_len = of_nat (beve_size slice')
      in write_message_streaming write_all header query body_len (io_from (to_beve_writer slice')))"

definition write_message_complex_slice ::
    "(bytes \<Rightarrow> ('w, io_error, unit) io) \<Rightarrow> ('t complex_value list \<Rightarrow> nat)
      \<Rightarrow> ('t complex_value list \<Rightarrow> ('w, io_error, unit) io)
      \<Rightarrow> Header \<Rightarrow> bytes \<Rightarrow> 't complex_value list \<Rightarrow> ('w, 's RepeError, unit) io" where
  "write_message_complex_slice write_all beve_size to_beve_writer header query slice' =
     (let header = header\<lparr>h_body_format := body_format_u16 BF_Beve\<rparr>;
          body_len = of_nat (beve_size slice')
      in write_message_streaming write_all header query body_len (io_from (to_beve_writer slice')))"

section \<open>What a reader returns\<close>

text \<open>
  The reference: which header the bytes still to come, up to the end of the
  stream, are accepted with.
\<close>

definition next_frame :: "nat \<Rightarrow> bytes \<Rightarrow> 's RepeError + Header" where
  "next_frame usize_max c =
     (if length c < HEADER_SIZE then Inl (RE_Io UnexpectedEof)
      else res_bind (header_decode usize_max c) (\<lambda>h.
        if length c < framed_total h then Inl (RE_Io UnexpectedEof) else Inr h))"

lemma next_frame_Inr:
  assumes "next_frame usize_max c = Inr h"
  shows "wf_header usize_max h" and "\<exists>rest. c = header_encode h @ rest" and "framed_total h \<le> length c"
  using assms
  by (auto simp: next_frame_def res_bind_Inr_iff header_decode_Inr_iff split: if_splits)

lemma next_frame_message:
  assumes "wf_message usize_max m"
  shows "next_frame usize_max (message_to_vec m @ rest) = Inr (m_header m)"
proof -
  from assms have wf: "wf_header usize_max (m_header m)" by (simp add: wf_message_def)
  from assms have "\<not> HEADER_SIZE + length (m_query m) + length (m_body m) + length rest < framed_total (m_header m)"
    by (simp add: wf_message_def framed_total_def serialized_len_def)
  then show ?thesis
    by (simp add: next_frame_def serialized_len_def to_vec_append hdr.dec_enc_append [OF wf])
qed

lemma next_frame_truncated:
  assumes "wf_message usize_max m" and "message_to_vec m = c @ missing" and "missing \<noteq> []"
  shows "next_frame usize_max c = Inl (RE_Io UnexpectedEof)"
proof (cases "length c < HEADER_SIZE")
  case False
  then have len: "HEADER_SIZE \<le> length c" by simp
  have "take HEADER_SIZE c = header_encode (m_header m)"
    using arg_cong [OF assms(2), of "take HEADER_SIZE"] len by (simp add: to_vec_append)
  moreover from assms(1) have wf: "wf_header usize_max (m_header m)" by (simp add: wf_message_def)
  ultimately have dec: "header_decode usize_max c = Inr (m_header m)"
    by (simp add: header_decode_take [OF len, symmetric] header_decode_framed)
  from arg_cong [OF assms(2), of length] assms(1,3) have "length c < framed_total (m_header m)"
    by (simp add: wf_message_def framed_total_def serialized_len_def flip: length_greater_0_conv)
  with False show ?thesis by (simp add: next_frame_def dec)
qed (simp add: next_frame_def)

locale exact_source =
  fixes rx :: "nat \<Rightarrow> ('r, io_error, bytes) io"
    and content :: "'r \<Rightarrow> bytes"
  assumes rx_ok: "n \<le> length (content r) \<Longrightarrow>
      \<exists>r'. rx n r = Some (Inr (take n (content r)), r') \<and> content r' = drop n (content r)"
    and rx_eof: "length (content r) < n \<Longrightarrow> \<exists>r'. rx n r = Some (Inl UnexpectedEof, r')"
begin

text \<open>An empty part is skipped rather than read; either way the reader delivers it.\<close>

lemma part_ok:
  assumes "n \<le> length (content r)"
  obtains r' where "read_part rx n r
      = Some (Inr (take n (content r)), r')"
    and "content r' = drop n (content r)"
proof (cases "n = 0")
  case True
  then show ?thesis by (intro that [of r]) (simp_all add: read_part_def io_result_def)
next
  case False
  with rx_ok [OF assms] that show ?thesis by (auto simp: read_part_def io_from_def)
qed

lemma part_eof:
  assumes "length (content r) < n"
  obtains r' where "read_part rx n r
      = Some (Inl (RE_Io UnexpectedEof), r')"
  using rx_eof [OF assms] assms that by (auto simp: read_part_def io_from_def)

lemma read_message_header_error:
  assumes "HEADER_SIZE \<le> length (content r)"
    and "header_decode usize_max (content r) = (Inl err :: 's RepeError + Header)"
  shows "\<exists>r'. read_message_async usize_max rx r = Some (Inl err :: 's RepeError + Message, r')"
    and "\<exists>r'. read_message_into_async usize_max rx r = Some (Inl err :: 's RepeError + bytes, r')"
  using rx_ok [OF assms(1)] assms
  by (auto simp: read_message_async_def read_message_into_async_def io_from_def header_decode_take
      io_bind_def io_result_def)

lemma read_message_short_header:
  assumes "length (content r) < HEADER_SIZE"
  shows "\<exists>r'. read_message_async usize_max rx r = Some (Inl (RE_Io UnexpectedEof), r')"
    and "\<exists>r'. read_message_into_async usize_max rx r = Some (Inl (RE_Io UnexpectedEof), r')"
  using rx_eof [OF assms]
  by (auto simp: read_message_async_def read_message_into_async_def io_from_def io_bind_def)

lemma read_message_parts:
  assumes wf: "wf_header usize_max h" and c: "content r = header_encode h @ rest"
  obtains r1 where "content r1 = rest"
    and "read_message_async usize_max rx r =
      io_bind (read_part rx (unat (h_query_length h))) (\<lambda>query.
      io_bind (read_part rx (unat (h_body_length h))) (\<lambda>body.
      io_result (message_new h query body))) r1"
    and "read_message_into_async usize_max rx r =
      io_bind (io_from (rx (framed_total h - HEADER_SIZE))) (\<lambda>rest.
      io_result (Inr (header_encode h @ rest))) r1"
proof -
  have "HEADER_SIZE \<le> length (content r)" by (simp add: c)
  from rx_ok [OF this] obtain r1 where
    r1: "rx HEADER_SIZE r = Some (Inr (header_encode h), r1)" "content r1 = rest"
    by (auto simp: c)
  show ?thesis
  proof (rule that [OF r1(2)])
    show "read_message_async usize_max rx r =
      io_bind (read_part rx (unat (h_query_length h))) (\<lambda>query.
      io_bind (read_part rx (unat (h_body_length h))) (\<lambda>body.
      io_result (message_new h query body))) r1"
      using r1(1) by (simp add: read_message_async_def io_from_def header_decode_framed [OF wf]
          wf_header_casts [OF wf] Let_def)
    show "read_message_into_async usize_max rx r =
      io_bind (io_from (rx (framed_total h - HEADER_SIZE))) (\<lambda>rest.
      io_result (Inr (header_encode h @ rest))) r1"
      using r1(1) by (simp add: read_message_into_async_def io_from_def header_decode_framed [OF wf]
          wf_header_casts [OF wf] wf_header_usize [OF wf] Let_def)
  qed
qed

end

context exact_source
begin

lemma read_message_frame:
  assumes wf: "wf_header usize_max h" and c: "content r = header_encode h @ rest"
    and len: "framed_total h \<le> length (content r)"
  shows "\<exists>r'. (read_message_async usize_max rx r :: (('s RepeError + Message) \<times> 'r) option) = Some (Inr (to_message (framed_view h (content r))), r')
    \<and> content r' = drop (framed_total h) (content r)"
proof -
  let ?q = "unat (h_query_length h)" and ?b = "unat (h_body_length h)"
  obtain r1 where r1: "content r1 = rest" and run: "(read_message_async usize_max rx r :: (('s RepeError + Message) \<times> 'r) option) =
      io_bind (read_part rx ?q) (\<lambda>query.
      io_bind (read_part rx ?b) (\<lambda>body.
      io_result (message_new h query body))) r1"
    by (rule read_message_parts [OF wf c])
  from len r1 have "?q \<le> length (content r1)" by (simp add: c framed_total_def)
  then obtain r2 where r2: "read_part rx ?q r1
      = Some (Inr (take ?q rest) :: 's RepeError + bytes, r2)" "content r2 = drop ?q rest"
    using r1 by (metis part_ok)
  from len r2(2) have "?b \<le> length (content r2)" by (simp add: c framed_total_def)
  then obtain r3 where r3: "read_part rx ?b r2
      = Some (Inr (take ?b (drop ?q rest)) :: 's RepeError + bytes, r3)" "content r3 = drop ?b (drop ?q rest)"
    using r2(2) by (metis part_ok)
  have parts: "take ?q rest = v_query (framed_view h (content r))"
    "take ?b (drop ?q rest) = v_body (framed_view h (content r))"
    by (simp_all add: c framed_view_def byte_slice_def)
  have "content r3 = drop (framed_total h) (content r)"
    by (simp add: r3(2) c framed_total_def ac_simps)
  then show ?thesis
    using r2(1) r3(1)
    by (simp add: run io_bind_def io_result_def parts message_new_framed [OF len])
qed

lemma read_message_eof:
  assumes wf: "wf_header usize_max h" and c: "content r = header_encode h @ rest"
    and len: "length (content r) < framed_total h"
  shows "\<exists>r'. (read_message_async usize_max rx r :: (('s RepeError + Message) \<times> 'r) option) = Some (Inl (RE_Io UnexpectedEof), r')"
proof -
  let ?q = "unat (h_query_length h)" and ?b = "unat (h_body_length h)"
  obtain r1 where r1: "content r1 = rest" and run: "(read_message_async usize_max rx r :: (('s RepeError + Message) \<times> 'r) option) =
      io_bind (read_part rx ?q) (\<lambda>query.
      io_bind (read_part rx ?b) (\<lambda>body.
      io_result (message_new h query body))) r1"
    by (rule read_message_parts [OF wf c])
  show ?thesis
  proof (cases "length rest < ?q")
    case True
    with r1 have "length (content r1) < ?q" by simp
    then obtain r2 where "read_part rx ?q r1
        = Some (Inl (RE_Io UnexpectedEof) :: 's RepeError + bytes, r2)"
      by (rule part_eof)
    then show ?thesis by (simp add: run io_bind_def)
  next
    case False
    with r1 have "?q \<le> length (content r1)" by simp
    then obtain r2 where r2: "read_part rx ?q r1
        = Some (Inr (take ?q rest) :: 's RepeError + bytes, r2)" "content r2 = drop ?q rest"
      using r1 by (metis part_ok)
    from len False r2(2) have "length (content r2) < ?b"
      by (simp add: c framed_total_def less_diff_conv2)
    then obtain r3 where "read_part rx ?b r2
        = Some (Inl (RE_Io UnexpectedEof) :: 's RepeError + bytes, r3)"
      by (rule part_eof)
    with r2(1) show ?thesis by (simp add: run io_bind_def)
  qed
qed

lemma read_message_into_frame:
  assumes wf: "wf_header usize_max h" and c: "content r = header_encode h @ rest"
    and len: "framed_total h \<le> length (content r)"
  shows "\<exists>r'. (read_message_into_async usize_max rx r :: (('s RepeError + bytes) \<times> 'r) option) = Some (Inr (take (framed_total h) (content r)), r')
    \<and> content r' = drop (framed_total h) (content r)"
proof -
  obtain r1 where r1: "content r1 = rest" and run: "(read_message_into_async usize_max rx r :: (('s RepeError + bytes) \<times> 'r) option) =
      io_bind (io_from (rx (framed_total h - HEADER_SIZE))) (\<lambda>rest.
      io_result (Inr (header_encode h @ rest))) r1"
    by (rule read_message_parts [OF wf c])
  from len r1 have "framed_total h - HEADER_SIZE \<le> length (content r1)"
    by (simp add: c framed_total_def)
  then show ?thesis
    using rx_ok r1 by (fastforce simp: run c io_from_def io_bind_def io_result_def framed_total_def)
qed

lemma read_message_into_eof:
  assumes wf: "wf_header usize_max h" and c: "content r = header_encode h @ rest"
    and len: "length (content r) < framed_total h"
  shows "\<exists>r'. (read_message_into_async usize_max rx r :: (('s RepeError + bytes) \<times> 'r) option) = Some (Inl (RE_Io UnexpectedEof), r')"
proof -
  obtain r1 where r1: "content r1 = rest" and run: "(read_message_into_async usize_max rx r :: (('s RepeError + bytes) \<times> 'r) option) =
      io_bind (io_from (rx (framed_total h - HEADER_SIZE))) (\<lambda>rest.
      io_result (Inr (header_encode h @ rest))) r1"
    by (rule read_message_parts [OF wf c])
  from len r1 have "length (content r1) < framed_total h - HEADER_SIZE"
    by (auto simp: c framed_total_def)
  from rx_eof [OF this] show ?thesis by (auto simp: run io_from_def io_bind_def)
qed

end

context exact_source
begin

lemma read_message_spec:
  "\<exists>r'. read_message_async usize_max rx r =
      Some (res_bind (next_frame usize_max (content r)) (\<lambda>h. Inr (to_message (framed_view h (content r)))
        :: 's RepeError + Message), r')
    \<and> (\<forall>h. next_frame usize_max (content r) = (Inr h :: 's RepeError + Header) \<longrightarrow>
        content r' = drop (framed_total h) (content r))"
proof (cases "length (content r) < HEADER_SIZE")
  case True
  then show ?thesis using read_message_short_header(1) by (auto simp: next_frame_def)
next
  case long: False
  show ?thesis
  proof (cases "header_decode usize_max (content r) :: 's RepeError + Header")
    case (Inl err)
    with long read_message_header_error(1) [of r usize_max err] show ?thesis
      by (auto simp: next_frame_def)
  next
    case (Inr h)
    then obtain rest where h: "wf_header usize_max h" "content r = header_encode h @ rest"
      by (auto simp: header_decode_Inr_iff)
    from read_message_eof [OF h] read_message_frame [OF h] show ?thesis
      by (cases "length (content r) < framed_total h") (simp_all add: long next_frame_def Inr)
  qed
qed

lemma read_message_into_spec:
  "\<exists>r'. read_message_into_async usize_max rx r =
      Some (res_bind (next_frame usize_max (content r)) (\<lambda>h. Inr (take (framed_total h) (content r))
        :: 's RepeError + bytes), r')
    \<and> (\<forall>h. next_frame usize_max (content r) = (Inr h :: 's RepeError + Header) \<longrightarrow>
        content r' = drop (framed_total h) (content r))"
proof (cases "length (content r) < HEADER_SIZE")
  case True
  then show ?thesis using read_message_short_header(2) by (auto simp: next_frame_def)
next
  case long: False
  show ?thesis
  proof (cases "header_decode usize_max (content r) :: 's RepeError + Header")
    case (Inl err)
    with long read_message_header_error(2) [of r usize_max err] show ?thesis
      by (auto simp: next_frame_def)
  next
    case (Inr h)
    then obtain rest where h: "wf_header usize_max h" "content r = header_encode h @ rest"
      by (auto simp: header_decode_Inr_iff)
    from read_message_into_eof [OF h] read_message_into_frame [OF h] show ?thesis
      by (cases "length (content r) < framed_total h") (simp_all add: long next_frame_def Inr)
  qed
qed

lemma read_frame_ok:
  assumes "wf_message usize_max m" and c: "content r = message_to_vec m @ rest"
  shows "\<exists>r'. read_message_async usize_max rx r = Some (Inr m :: 's RepeError + Message, r') \<and> content r' = rest"
proof -
  from assms(1) have lens: "unat (h_query_length (m_header m)) = length (m_query m)"
    "unat (h_body_length (m_header m)) = length (m_body m)" by (simp_all add: wf_message_def)
  have "to_message (framed_view (m_header m) (content r)) = m"
    by (simp add: c to_vec_append framed_view_append [OF lens] to_message_def)
  moreover have "drop (framed_total (m_header m)) (content r) = rest"
    by (simp add: c framed_total_def lens serialized_len_def)
  ultimately show ?thesis
    using read_message_spec [of usize_max r, where 's = 's]
    by (simp add: c next_frame_message [OF assms(1)])
qed

lemma read_frame_truncated:
  assumes "wf_message usize_max m" and "message_to_vec m = content r @ missing" and "missing \<noteq> []"
  shows "\<exists>r'. read_message_async usize_max rx r = Some (Inl (RE_Io UnexpectedEof) :: 's RepeError + Message, r')"
  using read_message_spec [of usize_max r, where 's = 's] by (auto simp: next_frame_truncated [OF assms])

end

section \<open>From partial reads to whole buffers\<close>

lemma read_message_as_async: "read_message usize_max rd = read_message_async usize_max (read_exact rd)"
  by (simp add: read_message_def read_message_async_def)

lemma read_message_into_as_async:
  "read_message_into usize_max rd = read_message_into_async usize_max (read_exact rd)"
  by (simp add: read_message_into_def read_message_into_async_def)

locale byte_source =
  fixes rd :: "nat \<Rightarrow> 'r \<Rightarrow> (io_error + bytes) \<times> 'r"
    and content :: "'r \<Rightarrow> bytes"
  assumes rd_data: "n > 0 \<Longrightarrow> content r \<noteq> [] \<Longrightarrow>
      \<exists>chunk r'. rd n r = (Inr chunk, r') \<and> chunk \<noteq> [] \<and> length chunk \<le> n
        \<and> content r = chunk @ content r'"
    and rd_end: "n > 0 \<Longrightarrow> content r = [] \<Longrightarrow> \<exists>r'. rd n r = (Inr [], r')"
begin

lemma read_exact_ok:
  "n \<le> length (content r) \<Longrightarrow>
    \<exists>r'. read_exact rd n r = Some (Inr (take n (content r)), r') \<and> content r' = drop n (content r)"
proof (induction n arbitrary: r rule: less_induct)
  case (less n)
  show ?case
  proof (cases n)
    case (Suc k)
    with less.prems have "content r \<noteq> []" by auto
    from rd_data [OF _ this, of n] Suc obtain chunk r1 where
      read: "rd n r = (Inr chunk, r1)" "chunk \<noteq> []" "length chunk \<le> n"
        "content r = chunk @ content r1" by auto
    from read(2) have "n - length chunk < n" using Suc by (simp add: diff_less)
    moreover from less.prems read(4) have "n - length chunk \<le> length (content r1)" by simp
    ultimately obtain r' where "read_exact rd (n - length chunk) r1
        = Some (Inr (take (n - length chunk) (content r1)), r')"
        "content r' = drop (n - length chunk) (content r1)"
      using less.IH by blast
    with read show ?thesis by (simp add: Suc)
  qed simp
qed

lemma read_exact_eof:
  "length (content r) < n \<Longrightarrow> \<exists>r'. read_exact rd n r = Some (Inl UnexpectedEof, r')"
proof (induction n arbitrary: r rule: less_induct)
  case (less n)
  then obtain k where k: "n = Suc k" by (cases n) auto
  show ?case
  proof (cases "content r = []")
    case True
    with rd_end [of n r] k show ?thesis by auto
  next
    case False
    from rd_data [OF _ this, of n] k obtain chunk r1 where
      read: "rd n r = (Inr chunk, r1)" "chunk \<noteq> []" "length chunk \<le> n"
        "content r = chunk @ content r1" by auto
    from read(2) have "n - length chunk < n" using k by (simp add: diff_less)
    moreover from less.prems read(4) have "length (content r1) < n - length chunk" by simp
    ultimately obtain r' where "read_exact rd (n - length chunk) r1 = Some (Inl UnexpectedEof, r')"
      using less.IH by blast
    with read show ?thesis by (simp add: k)
  qed
qed

lemma read_exact_is_exact: "exact_source (read_exact rd) content"
  by standard (rule read_exact_ok read_exact_eof, assumption)+

end

sublocale byte_source \<subseteq> exact: exact_source "read_exact rd" content
  by (rule read_exact_is_exact)

text \<open>
  The reader of a byte slice (\<^verbatim>\<open>impl Read for &[u8]\<close>) and that of a connection
  whose bytes arrive in segments, cut anywhere and possibly empty: a call returns
  bytes of the first non-empty segment only.
\<close>

definition slice_read :: "nat \<Rightarrow> bytes \<Rightarrow> (io_error + bytes) \<times> bytes" where
  "slice_read n r = (Inr (take n r), drop n r)"

fun segment_read :: "nat \<Rightarrow> bytes list \<Rightarrow> (io_error + bytes) \<times> bytes list" where
  "segment_read n [] = (Inr [], [])"
| "segment_read n (s # ss) =
     (if s = [] then segment_read n ss
      else (Inr (take n s), if length s \<le> n then ss else drop n s # ss))"

interpretation slice_src: byte_source slice_read "\<lambda>r. r"
  by standard (auto simp: slice_read_def)

lemma segment_read_data:
  "n > 0 \<Longrightarrow> concat r \<noteq> [] \<Longrightarrow>
    \<exists>chunk r'. segment_read n r = (Inr chunk, r') \<and> chunk \<noteq> [] \<and> length chunk \<le> n
      \<and> concat r = chunk @ concat r'"
proof (induction r)
  case (Cons s ss)
  then show ?case by (cases "s = []") (auto simp flip: append_assoc)
qed simp

lemma segment_read_end: "concat r = [] \<Longrightarrow> segment_read n r = (Inr [], [])"
  by (induction r) auto

interpretation segment_src: byte_source segment_read concat
  by standard (auto simp: segment_read_data segment_read_end)

section \<open>Writers\<close>

locale byte_sink =
  fixes write_all :: "bytes \<Rightarrow> ('w, io_error, unit) io"
    and written :: "'w \<Rightarrow> bytes"
  assumes write_total: "write_all bs w \<noteq> None"
    and write_ok: "write_all bs w = Some (Inr u, w') \<Longrightarrow> written w' = written w @ bs"
    and write_failed: "write_all bs w = Some (Inl e, w') \<Longrightarrow>
      \<exists>sent unsent. bs = sent @ unsent \<and> written w' = written w @ sent"
begin

definition emits :: "('w, 'e, unit) io \<Rightarrow> bytes \<Rightarrow> bool" where
  "emits act bs \<longleftrightarrow> (\<forall>w. \<exists>x w'. act w = Some (x, w') \<and>
     (case x of
        Inr _ \<Rightarrow> written w' = written w @ bs
      | Inl _ \<Rightarrow> \<exists>sent unsent. bs = sent @ unsent \<and> written w' = written w @ sent))"

lemma emits_write: "emits (io_from (write_all bs)) bs"
  unfolding emits_def
proof
  fix w
  obtain x w' where "write_all bs w = Some (x, w')"
    using write_total [of bs w] by (cases "write_all bs w") auto
  then show "\<exists>x w'. io_from (write_all bs) w = Some (x, w') \<and>
     (case x of
        Inr _ \<Rightarrow> written w' = written w @ bs
      | Inl _ \<Rightarrow> \<exists>sent unsent. bs = sent @ unsent \<and> written w' = written w @ sent)"
    using write_ok write_failed by (cases x) (auto simp: io_from_def)
qed

lemma emits_nothing: "emits (io_result (Inr ())) []"
  by (simp add: emits_def io_result_def)

lemma emits_bind:
  assumes "emits act bs" and "emits act' bs'"
  shows "emits (io_bind act (\<lambda>_. act')) (bs @ bs')"
  unfolding emits_def
proof
  fix w
  from assms(1) obtain x w1 where x: "act w = Some (x, w1)"
    "case x of Inr _ \<Rightarrow> written w1 = written w @ bs
     | Inl _ \<Rightarrow> \<exists>sent unsent. bs = sent @ unsent \<and> written w1 = written w @ sent"
    unfolding emits_def by blast
  from assms(2) obtain y w2 where y: "act' w1 = Some (y, w2)"
    "case y of Inr _ \<Rightarrow> written w2 = written w1 @ bs'
     | Inl _ \<Rightarrow> \<exists>sent unsent. bs' = sent @ unsent \<and> written w2 = written w1 @ sent"
    unfolding emits_def by blast
  show "\<exists>x w'. io_bind act (\<lambda>_. act') w = Some (x, w') \<and>
     (case x of
        Inr _ \<Rightarrow> written w' = written w @ bs @ bs'
      | Inl _ \<Rightarrow> \<exists>sent unsent. bs @ bs' = sent @ unsent \<and> written w' = written w @ sent)"
    using x y by (cases x; cases y) (auto simp: io_bind_def intro: exI [of _ "bs @ _"])
qed

lemma emits_if: "emits (if bs \<noteq> [] then io_from (write_all bs) else io_result (Inr ())) bs"
  by (simp add: emits_write emits_nothing)

lemma emits_message: "emits (write_message write_all m) (message_to_vec m)"
proof -
  have "emits (write_message write_all m) (header_encode (m_header m) @ m_query m @ m_body m @ [])"
    unfolding write_message_def Let_def
    by (intro emits_bind emits_write emits_if emits_nothing)
  then show ?thesis by (simp add: to_vec_append)
qed

lemma emits_streaming:
  assumes "emits body_writer body" and "body_len = of_nat (length body)"
    and "h' = header\<lparr>h_query_length := of_nat (length query), h_body_length := body_len,
      h_length := of_nat HEADER_SIZE + of_nat (length query) + body_len\<rparr>"
  shows "emits (write_message_streaming write_all header query body_len body_writer)
    (message_to_vec \<lparr>m_header = h', m_query = query, m_body = body\<rparr>)"
proof -
  have "emits (write_message_streaming write_all header query body_len body_writer)
    (header_encode h' @ query @ body @ [])"
    unfolding write_message_streaming_def Let_def assms(3)
    using emits_bind [OF emits_write emits_bind [OF emits_if emits_bind [OF assms(1) emits_nothing]]]
    by simp
  then show ?thesis by (simp add: to_vec_append)
qed

end

text \<open>
  A growable buffer (\<^verbatim>\<open>impl Write for Vec<u8>\<close>), and a connection that breaks
  after a number of further bytes.
\<close>

definition vec_write_all :: "bytes \<Rightarrow> (bytes, io_error, unit) io" where
  "vec_write_all bs w = Some (Inr (), w @ bs)"

definition breaking_write_all :: "bytes \<Rightarrow> (nat \<times> bytes, io_error, unit) io" where
  "breaking_write_all bs w =
     (case w of (room, sent) \<Rightarrow>
        if length bs \<le> room then Some (Inr (), (room - length bs, sent @ bs))
        else Some (Inl (OsError 32), (0, sent @ take room bs)))"

interpretation vec_sink: byte_sink vec_write_all "\<lambda>w. w"
  by standard (auto simp: vec_write_all_def)

interpretation breaking_sink: byte_sink breaking_write_all snd
proof
  fix bs w u e and w' :: "nat \<times> bytes"
  show "breaking_write_all bs w \<noteq> None"
    by (simp add: breaking_write_all_def split: prod.splits)
  show "breaking_write_all bs w = Some (Inr u, w') \<Longrightarrow> snd w' = snd w @ bs"
    by (auto simp: breaking_write_all_def split: prod.splits if_splits)
  show "breaking_write_all bs w = Some (Inl e, w') \<Longrightarrow>
      \<exists>sent unsent. bs = sent @ unsent \<and> snd w' = snd w @ sent"
    by (auto simp: breaking_write_all_def split: prod.splits if_splits) (metis append_take_drop_id)
qed

section \<open>Properties\<close>

text \<open>
  C11. The complete behaviour of \<^verbatim>\<open>read_message\<close> on any reader that obeys the
  \<^verbatim>\<open>Read\<close> contract, however it fragments the stream: it never panics and never
  loops; with fewer than 48 bytes before the end of the stream, or fewer than a
  valid header announces, it returns the I/O error \<^verbatim>\<open>UnexpectedEof\<close>; on an invalid
  header it returns the error of \<^verbatim>\<open>Header::decode\<close>; otherwise it returns the
  message, having consumed the bytes of its frame and no more.
\<close>

theorem read_message_behaviour:
  assumes "byte_source rd content"
  shows "\<exists>r'. read_message usize_max rd r =
      Some (res_bind (next_frame usize_max (content r)) (\<lambda>h. Inr (to_message (framed_view h (content r)))
        :: 's RepeError + Message), r')
    \<and> (\<forall>h. next_frame usize_max (content r) = (Inr h :: 's RepeError + Header) \<longrightarrow>
        content r' = drop (framed_total h) (content r))"
  unfolding read_message_as_async
  by (rule exact_source.read_message_spec [OF byte_source.read_exact_is_exact [OF assms]])

theorem read_message_behaviour_witness:
  "\<exists>r'. read_message 65535 segment_read [header_encode example_header, [], replicate 11 7] =
      Some (Inl (RE_Io UnexpectedEof) :: unit RepeError + Message, r')"
proof -
  let ?segs = "[header_encode example_header, [], replicate 11 7]"
  have "next_frame 65535 (concat ?segs) = (Inl (RE_Io UnexpectedEof) :: unit RepeError + Header)"
    by (simp add: next_frame_def hdr.dec_enc_append [OF wf_example_header] framed_total_def)
      (simp add: example_header_def)
  with read_message_behaviour [OF segment_src.byte_source_axioms, of 65535 ?segs, where 's = unit]
  show ?thesis by auto
qed

text \<open>
  A frame sent by \<^verbatim>\<open>write_message\<close> is received by \<^verbatim>\<open>read_message\<close>: from a stream
  that continues with the serialisation of a well-formed message the reader
  returns that very message and leaves exactly what follows it, under any
  fragmentation. When the stream ends inside the frame the reader reports
  \<^verbatim>\<open>UnexpectedEof\<close>, never another message.
\<close>

theorem read_message_roundtrip:
  assumes "byte_source rd content" and "wf_message usize_max m"
  shows "(content r = message_to_vec m @ rest \<longrightarrow>
      (\<exists>r'. read_message usize_max rd r = Some (Inr m :: 's RepeError + Message, r') \<and> content r' = rest))
    \<and> (message_to_vec m = content r @ missing \<and> missing \<noteq> [] \<longrightarrow>
      (\<exists>r'. read_message usize_max rd r = Some (Inl (RE_Io UnexpectedEof) :: 's RepeError + Message, r')))"
  using exact_source.read_frame_ok [OF byte_source.read_exact_is_exact [OF assms(1)] assms(2), of r rest]
    exact_source.read_frame_truncated [OF byte_source.read_exact_is_exact [OF assms(1)] assms(2), of r missing]
  unfolding read_message_as_async by blast

definition example_message :: Message where
  "example_message = build (with_query_str ''/a'' (with_body_utf8 ''hi'' builder))"

lemma wf_example_message: "wf_message 65535 example_message"
  unfolding example_message_def by (rule build_wf) (simp_all add: builder_defs HEADER_SIZE_def as_bytes_def)

theorem read_message_roundtrip_witness:
  "(\<exists>r'. read_message 65535 segment_read
        [take 3 (message_to_vec example_message), [], drop 3 (message_to_vec example_message), [1, 2]]
      = Some (Inr example_message :: unit RepeError + Message, r') \<and> concat r' = [1, 2])
   \<and> (\<exists>r'. read_message 65535 slice_read (take 50 (message_to_vec example_message))
      = Some (Inl (RE_Io UnexpectedEof) :: unit RepeError + Message, r'))"
proof (rule conjI)
  show "\<exists>r'. read_message 65535 segment_read
        [take 3 (message_to_vec example_message), [], drop 3 (message_to_vec example_message), [1, 2]]
      = Some (Inr example_message :: unit RepeError + Message, r') \<and> concat r' = [1, 2]"
    using read_message_roundtrip [OF segment_src.byte_source_axioms wf_example_message,
        of "[take 3 (message_to_vec example_message), [], drop 3 (message_to_vec example_message), [1, 2]]"
          "[1, 2]", where 's = unit]
    by simp
  have "drop 50 (message_to_vec example_message) \<noteq> []"
    by (simp add: example_message_def serialized_len_def builder_defs HEADER_SIZE_def as_bytes_def)
  then show "\<exists>r'. read_message 65535 slice_read (take 50 (message_to_vec example_message))
      = Some (Inl (RE_Io UnexpectedEof) :: unit RepeError + Message, r')"
    using read_message_roundtrip [OF slice_src.byte_source_axioms wf_example_message,
        of "take 50 (message_to_vec example_message)" _ "drop 50 (message_to_vec example_message)",
        where 's = unit]
    by simp
qed

lemma frame_parses:
  assumes "next_frame usize_max c = (Inr h :: 's RepeError + Header)"
  shows "message_from_slice_exact usize_max (take (framed_total h) c)
    = (Inr (to_message (framed_view h c)) :: 's RepeError + Message)"
proof -
  from next_frame_Inr(2) [OF assms] obtain rest where c: "c = header_encode h @ rest" ..
  note len = next_frame_Inr(3) [OF assms]
  from framed_view_prefix(1) [OF c len] obtain tail
    where tail: "c = message_to_vec (to_message (framed_view h c)) @ tail" ..
  have "serialized_len (to_message (framed_view h c)) = framed_total h"
    using framed_view_prefix(2,3) [OF c len]
    by (simp add: serialized_len_def framed_total_def to_message_def)
  with arg_cong [OF tail, of "take (framed_total h)"]
  have "take (framed_total h) c = message_to_vec (to_message (framed_view h c))" by simp
  moreover have "wf_message usize_max (to_message (framed_view h c))"
    using next_frame_Inr(1) [OF assms] framed_view_prefix(2,3) [OF c len]
    by (simp add: wf_message_def to_message_def framed_view_def)
  ultimately show ?thesis by (simp add: message_from_slice_exact_Inr_iff)
qed

text \<open>
  The allocation-free reader agrees with the owned one: on the same reader,
  parsing the buffer that \<^verbatim>\<open>read_message_into\<close> fills gives what \<^verbatim>\<open>read_message\<close>
  returns, errors included, and both leave the same rest of the stream after a
  message. The tokio versions do the same when their \<^verbatim>\<open>read_exact\<close> behaves as
  this crate's own.
\<close>

theorem read_message_into_agrees:
  assumes "byte_source rd content"
  shows "\<exists>x r1 r2. read_message_into usize_max rd r = Some (x, r1)
    \<and> read_message usize_max rd r
        = Some (res_bind x (message_from_slice_exact usize_max) :: 's RepeError + Message, r2)
    \<and> (\<forall>frame. x = Inr frame \<longrightarrow> content r1 = content r2 \<and> content r = frame @ content r1)
    \<and> read_message_into_async usize_max (read_exact rd) r = Some (x, r1)"
proof -
  note exact = byte_source.read_exact_is_exact [OF assms]
  obtain r1 where r1: "read_message_into usize_max rd r =
      Some (res_bind (next_frame usize_max (content r)) (\<lambda>h. Inr (take (framed_total h) (content r))
        :: 's RepeError + bytes), r1)"
    "\<forall>h. next_frame usize_max (content r) = (Inr h :: 's RepeError + Header) \<longrightarrow>
        content r1 = drop (framed_total h) (content r)"
    using exact_source.read_message_into_spec [OF exact] unfolding read_message_into_as_async by blast
  obtain r2 where r2: "read_message usize_max rd r =
      Some (res_bind (next_frame usize_max (content r)) (\<lambda>h. Inr (to_message (framed_view h (content r)))
        :: 's RepeError + Message), r2)"
    "\<forall>h. next_frame usize_max (content r) = (Inr h :: 's RepeError + Header) \<longrightarrow>
        content r2 = drop (framed_total h) (content r)"
    using exact_source.read_message_spec [OF exact] unfolding read_message_as_async by blast
  have async: "read_message_into_async usize_max (read_exact rd) = read_message_into usize_max rd"
    by (simp add: read_message_into_as_async)
  show ?thesis
  proof (cases "next_frame usize_max (content r) :: 's RepeError + Header")
    case (Inl e)
    with r1(1) r2(1) show ?thesis by (simp add: async)
  next
    case (Inr h)
    with r1 r2 show ?thesis by (simp add: async frame_parses)
  qed
qed

theorem read_message_into_agrees_witness:
  "\<exists>x r1 r2. read_message_into 65535 slice_read (message_to_vec example_message) = Some (x, r1)
    \<and> read_message 65535 slice_read (message_to_vec example_message)
        = Some (res_bind x (message_from_slice_exact 65535) :: unit RepeError + Message, r2)"
  using read_message_into_agrees [OF slice_src.byte_source_axioms, of 65535 "message_to_vec example_message",
      where 's = unit]
  by blast

text \<open>
  \<^verbatim>\<open>write_message\<close> sends exactly the bytes of \<^verbatim>\<open>to_vec\<close>, and when the writer
  fails it has sent a prefix of them and reports the writer's error.
  \<^verbatim>\<open>write_message_streaming\<close> with a body writer that emits the promised number of
  bytes sends the frame of the message whose header has the three lengths filled
  in, whatever lengths the caller's header held.
\<close>

theorem writers_emit_frames:
  assumes "byte_sink write_all written"
    and "byte_sink.emits written body_writer body"
  shows "byte_sink.emits written (write_message write_all m :: ('w, 's RepeError, unit) io) (message_to_vec m)
    \<and> byte_sink.emits written
        (write_message_streaming write_all header query (of_nat (length body)) body_writer
          :: ('w, 's RepeError, unit) io)
        (message_to_vec \<lparr>m_header = header\<lparr>h_query_length := of_nat (length query),
             h_body_length := of_nat (length body),
             h_length := of_nat HEADER_SIZE + of_nat (length query) + of_nat (length body)\<rparr>,
           m_query = query, m_body = body\<rparr>)"
  using byte_sink.emits_message [OF assms(1)] byte_sink.emits_streaming [OF assms refl refl] by blast

theorem writers_emit_frames_witness:
  "byte_sink.emits snd (write_message breaking_write_all example_message
      :: (nat \<times> bytes, unit RepeError, unit) io) (message_to_vec example_message)"
  using writers_emit_frames [OF breaking_sink.byte_sink_axioms breaking_sink.emits_write [of "[1, 2, 3]"],
      where 's = unit]
  by blast

text \<open>
  The documented equivalence of \<^verbatim>\<open>write_message_typed_slice\<close>: when \<^verbatim>\<open>beve_size\<close>
  is the length of the encoding and \<^verbatim>\<open>to_beve_writer\<close> writes the encoding, the
  bytes on the wire are those of the message a \<^verbatim>\<open>MessageBuilder\<close> with
  \<^verbatim>\<open>body_typed_slice\<close> builds for the same header fields and query.
\<close>

theorem typed_slice_frame:
  assumes "\<And>vs. beve_size vs = length (encode_slice vs)"
    and "\<And>vs. to_beve_writer vs = vec_write_all (encode_slice vs)"
  shows "write_message_typed_slice vec_write_all beve_size to_beve_writer (m_header (build b)) (b_query b) vs w
    = Some (Inr (), w @ message_to_vec (build (with_body_typed_slice encode_slice vs b)))"
  using assms
  by (simp add: write_message_typed_slice_def write_message_streaming_def Let_def io_from_def io_bind_def
      io_result_def vec_write_all_def to_vec_append build_def with_body_typed_slice_def header_new_def
      header_default_def)

theorem typed_slice_frame_witness:
  "write_message_typed_slice vec_write_all (\<lambda>vs. length vs) vec_write_all (m_header (build builder)) []
      [1, 2] [] = Some (Inr (), [] @ message_to_vec (build (with_body_typed_slice (\<lambda>vs. vs) [1, 2] builder)))"
  using typed_slice_frame [of length "\<lambda>vs. vs" vec_write_all builder "[1, 2]" "[]"]
  by (simp add: builder_def)

end
