(* ===== verification/Client_Core.thy ===== *)
theory Client_Core
  imports Framing_IO
begin

text \<open>
  What the blocking, the asynchronous and the WebSocket client have in common: calls
  of many threads or tasks multiplexed over one connection. A call allocates an
  id, registers a one-shot channel for its response in the pending table, writes its
  frame and waits; one response loop reads frames and hands each to the channel
  registered under its id, and when reading fails it shuts the connection down
  and fails everything still pending.

  The three clients differ in how they register, what they do to the table when a
  call ends without a response, and in their transport. Those are the fields of
  \<open>client_ops\<close>; each client's own theory fills them with its source's functions. The
  steps below are the atomic actions of the code: what it does between two
  acquisitions of a lock or two suspension points.
\<close>

section \<open>The pending table\<close>

text \<open>
  A channel carries at most one value. Dropping its sender before that closes it.
  Channels are named by the call that made them.
\<close>

datatype 's channel = Ch_Open | Ch_Sent "'s RepeError + Message" | Ch_Closed

record 's Pending =
  pd_map :: "u64 \<rightharpoonup> nat"
  pd_chan :: "nat \<Rightarrow> 's channel"

definition pending_new :: "'s Pending" where
  "pending_new = \<lparr>pd_map = Map.empty, pd_chan = (\<lambda>_. Ch_Open)\<rparr>"

definition drop_sender :: "nat \<Rightarrow> (nat \<Rightarrow> 's channel) \<Rightarrow> (nat \<Rightarrow> 's channel)" where
  "drop_sender j chan = (if chan j = Ch_Open then chan(j := Ch_Closed) else chan)"

definition channel_send ::
    "nat \<Rightarrow> 's RepeError + Message \<Rightarrow> (nat \<Rightarrow> 's channel) \<Rightarrow> (nat \<Rightarrow> 's channel)" where
  "channel_send j v chan = (if chan j = Ch_Open then chan(j := Ch_Sent v) else chan)"

text \<open>\<^verbatim>\<open>HashMap::insert\<close> drops the sender it replaces; \<^verbatim>\<open>HashMap::remove\<close> the one it removes.\<close>

definition pending_insert :: "u64 \<Rightarrow> nat \<Rightarrow> 's Pending \<Rightarrow> 's Pending" where
  "pending_insert rid k p =
     \<lparr>pd_map = (pd_map p)(rid \<mapsto> k),
      pd_chan = (case pd_map p rid of None \<Rightarrow> (pd_chan p)(k := Ch_Open)
                 | Some j \<Rightarrow> (drop_sender j (pd_chan p))(k := Ch_Open))\<rparr>"

definition pending_remove :: "u64 \<Rightarrow> 's Pending \<Rightarrow> 's Pending" where
  "pending_remove rid p =
     (case pd_map p rid of
        None \<Rightarrow> p
      | Some j \<Rightarrow> \<lparr>pd_map = (pd_map p)(rid := None), pd_chan = drop_sender j (pd_chan p)\<rparr>)"

section \<open>The parts of a client\<close>

datatype 's read_result = Read_Message Message | Read_Skip | Read_Failed "'s RepeError"

record ('w, 'r, 's) client_ops =
  op_register :: "u64 \<Rightarrow> nat \<Rightarrow> 's Pending \<Rightarrow> 's RepeError + 's Pending"
  op_remove :: "u64 \<Rightarrow> 's Pending \<Rightarrow> 's Pending"
  op_settle :: "u64 \<Rightarrow> 's Pending \<Rightarrow> 's Pending"
  op_write :: "Message \<Rightarrow> ('w, 's RepeError, unit) io"
  op_shut :: "'w \<Rightarrow> 'w"
  op_read :: "'r \<Rightarrow> ('s read_result \<times> 'r) option"
  op_routes :: "Message \<Rightarrow> bool"
  op_clone :: "'s RepeError \<Rightarrow> u64 \<Rightarrow> 's RepeError"
  op_closed :: "u64 \<Rightarrow> 's RepeError"
  op_timed_out :: "u64 \<Rightarrow> nat \<Rightarrow> 's RepeError"
  op_forwards :: bool
  op_cancels :: bool

text \<open>
  A call: the id and message it sends, its timeout in nanoseconds, the check its response must
  pass, and how far it got. \<open>Dropped\<close> is an asynchronous call whose future was
  dropped before it returned.
\<close>

datatype 's phase =
    Built | Registered | Waiting | Abandoning "'s RepeError" | Done "'s RepeError + Message" | Dropped

record 's call =
  ca_id :: u64
  ca_msg :: Message
  ca_timeout :: "nat option"
  ca_check :: "u64 \<Rightarrow> Message \<Rightarrow> 's RepeError + Message"
  ca_phase :: "'s phase"

datatype 's loop_phase =
    R_Reading
  | R_Matched nat Message
  | R_Failed "'s RepeError"
  | R_Draining "'s RepeError"
  | R_Failing "'s RepeError" "(u64 \<times> nat) list"
  | R_Stopped

text \<open>\<open>cs_log\<close> records the messages the loop has read; nothing reads it.\<close>

record ('w, 'r, 's) ClientState =
  cs_next_id :: u64
  cs_pending :: "'s Pending"
  cs_writer :: 'w
  cs_reader :: 'r
  cs_loop :: "'s loop_phase"
  cs_calls :: "nat \<rightharpoonup> 's call"
  cs_log :: "Message list"

definition client_connected :: "'w \<Rightarrow> 'r \<Rightarrow> ('w, 'r, 's) ClientState" where
  "client_connected w r =
     \<lparr>cs_next_id = 1, cs_pending = pending_new, cs_writer = w, cs_reader = r, cs_loop = R_Reading,
      cs_calls = Map.empty, cs_log = []\<rparr>"

definition next_request_id :: "('w, 'r, 's) ClientState \<Rightarrow> u64 \<times> ('w, 'r, 's) ClientState" where
  "next_request_id s = (cs_next_id s, s\<lparr>cs_next_id := cs_next_id s + 1\<rparr>)"

text \<open>The response a client returns must carry the protocol version, the id asked for and no error.\<close>

definition validate_response :: "u64 \<Rightarrow> Message \<Rightarrow> 's RepeError + Message" where
  "validate_response expected_id resp =
     (if h_version (m_header resp) \<noteq> REPE_VERSION then Inl (RE_VersionMismatch (h_version (m_header resp)))
      else if h_id (m_header resp) \<noteq> expected_id
           then Inl (RE_ResponseIdMismatch expected_id (h_id (m_header resp)))
      else if h_ec (m_header resp) \<noteq> error_code_u32 EC_Ok
           then let code = (case error_code_try_from (h_ec (m_header resp)) of
                              Inr code \<Rightarrow> code | Inl _ \<Rightarrow> EC_ParseError);
                    msg = (case error_message_utf8 resp of
                             Some m \<Rightarrow> m | None \<Rightarrow> error_code_display code)
                in Inl (RE_ServerError code msg)
      else Inr resp)"

text \<open>
  A forwarded message (\<^verbatim>\<open>forward_message\<close>) returns the response as it came, errors
  included, after checking its version and id.
\<close>

definition check_forwarded :: "u64 \<Rightarrow> Message \<Rightarrow> 's RepeError + Message" where
  "check_forwarded request_id response =
     (if h_version (m_header response) \<noteq> REPE_VERSION
      then Inl (RE_VersionMismatch (h_version (m_header response)))
      else if h_id (m_header response) \<noteq> request_id
      then Inl (RE_ResponseIdMismatch request_id (h_id (m_header response)))
      else Inr response)"

text \<open>\<^verbatim>\<open>Duration\<close> in nanoseconds.\<close>

definition request_timeout_error :: "u64 \<Rightarrow> nat \<Rightarrow> 's RepeError" where
  "request_timeout_error request_id timeout =
     RE_Io (IoError K_TimedOut
       (''request '' @ dec_str (unat request_id) @ '' timed out after ''
         @ dec_str (timeout div 1000000) @ ''ms''))"

definition response_channel_closed_error :: "u64 \<Rightarrow> 's RepeError" where
  "response_channel_closed_error request_id =
     RE_Io (IoError K_ConnectionAborted
       (''response channel closed for request '' @ dec_str (unat request_id)))"

text \<open>The failure of the connection, as told to each waiter; \<open>dio\<close> prints an I/O error.\<close>

fun clone_fatal_error_for_waiter ::
    "(io_error \<Rightarrow> string) \<Rightarrow> 's RepeError \<Rightarrow> u64 \<Rightarrow> 's RepeError" where
  "clone_fatal_error_for_waiter dio (RE_Io io_err) request_id =
     RE_Io (IoError (io_error_kind io_err)
       (''request '' @ dec_str (unat request_id) @ '': '' @ dio io_err))"
| "clone_fatal_error_for_waiter dio err request_id = err"

section \<open>Steps\<close>

text \<open>
  A request of a caller: the path and body it builds its message from, and its
  timeout.
\<close>

record request =
  rq_path :: string
  rq_query_format :: u16
  rq_timeout :: "nat option"
  rq_body_fn :: "MessageBuilder \<Rightarrow> MessageBuilder"

definition request_message :: "u64 \<Rightarrow> request \<Rightarrow> Message" where
  "request_message rid req =
     build (rq_body_fn req (with_query_format_code (rq_query_format req)
       (with_query_str (rq_path req) (with_id rid builder))))"

definition notify_message :: "u64 \<Rightarrow> request \<Rightarrow> Message" where
  "notify_message rid req =
     build (rq_body_fn req (with_query_format_code (rq_query_format req)
       (with_query_str (rq_path req) (with_notify True (with_id rid builder)))))"

definition set_phase :: "nat \<Rightarrow> 's phase \<Rightarrow> ('w, 'r, 's) ClientState \<Rightarrow> ('w, 'r, 's) ClientState" where
  "set_phase k ph s =
     s\<lparr>cs_calls := (case cs_calls s k of None \<Rightarrow> cs_calls s | Some c \<Rightarrow> (cs_calls s)(k \<mapsto> c\<lparr>ca_phase := ph\<rparr>))\<rparr>"

definition call_result :: "'s call \<Rightarrow> 's RepeError + Message \<Rightarrow> 's RepeError + Message" where
  "call_result c v = res_bind v (ca_check c (ca_id c))"

text \<open>What the loop does with a message: look its id up and take the sender out of the table.\<close>

definition dispatch_response :: "Message \<Rightarrow> 's Pending \<Rightarrow> nat option \<times> 's Pending" where
  "dispatch_response response p =
     (let rid = h_id (m_header response)
      in (pd_map p rid, p\<lparr>pd_map := (pd_map p)(rid := None)\<rparr>))"

datatype actor = Caller nat | Response_Loop

inductive client_step ::
    "('w, 'r, 's) client_ops \<Rightarrow> ('w, 'r, 's) ClientState \<Rightarrow> actor \<Rightarrow> ('w, 'r, 's) ClientState \<Rightarrow> bool"
  for ops :: "('w, 'r, 's) client_ops" where
  start_call: "cs_calls s k = None \<Longrightarrow> next_request_id s = (rid, s1) \<Longrightarrow>
    client_step ops s (Caller k)
      (s1\<lparr>cs_calls := (cs_calls s1)(k \<mapsto>
        \<lparr>ca_id = rid, ca_msg = request_message rid req, ca_timeout = rq_timeout req,
         ca_check = validate_response, ca_phase = Built\<rparr>)\<rparr>)"
| start_forward: "op_forwards ops \<Longrightarrow> cs_calls s k = None \<Longrightarrow> h_notify (m_header msg) \<noteq> 1 \<Longrightarrow>
    client_step ops s (Caller k)
      (s\<lparr>cs_calls := (cs_calls s)(k \<mapsto>
        \<lparr>ca_id = h_id (m_header msg), ca_msg = msg, ca_timeout = timeout,
         ca_check = check_forwarded, ca_phase = Built\<rparr>)\<rparr>)"
| notify: "next_request_id s = (rid, s1) \<Longrightarrow>
    op_write ops (notify_message rid req) (cs_writer s1) = Some (x, w) \<Longrightarrow>
    client_step ops s (Caller k) (s1\<lparr>cs_writer := w\<rparr>)"
| forward_notify: "op_forwards ops \<Longrightarrow> h_notify (m_header msg) = 1 \<Longrightarrow>
    op_write ops msg (cs_writer s) = Some (x, w) \<Longrightarrow>
    client_step ops s (Caller k) (s\<lparr>cs_writer := w\<rparr>)"
| register_ok: "cs_calls s k = Some c \<Longrightarrow> ca_phase c = Built \<Longrightarrow>
    op_register ops (ca_id c) k (cs_pending s) = Inr p \<Longrightarrow>
    client_step ops s (Caller k) (set_phase k Registered (s\<lparr>cs_pending := p\<rparr>))"
| register_refused: "cs_calls s k = Some c \<Longrightarrow> ca_phase c = Built \<Longrightarrow>
    op_register ops (ca_id c) k (cs_pending s) = Inl e \<Longrightarrow>
    client_step ops s (Caller k) (set_phase k (Done (Inl e)) s)"
| write_ok: "cs_calls s k = Some c \<Longrightarrow> ca_phase c = Registered \<Longrightarrow>
    op_write ops (ca_msg c) (cs_writer s) = Some (Inr (), w) \<Longrightarrow>
    client_step ops s (Caller k) (set_phase k Waiting (s\<lparr>cs_writer := w\<rparr>))"
| write_failed: "cs_calls s k = Some c \<Longrightarrow> ca_phase c = Registered \<Longrightarrow>
    op_write ops (ca_msg c) (cs_writer s) = Some (Inl e, w) \<Longrightarrow>
    client_step ops s (Caller k) (set_phase k (Abandoning e) (s\<lparr>cs_writer := w\<rparr>))"
| receive: "cs_calls s k = Some c \<Longrightarrow> ca_phase c = Waiting \<Longrightarrow>
    pd_chan (cs_pending s) k = Ch_Sent v \<Longrightarrow>
    client_step ops s (Caller k) (set_phase k (Done (call_result c v))
      (s\<lparr>cs_pending := (if isl v then op_settle ops (ca_id c) (cs_pending s) else cs_pending s)\<rparr>))"
| disconnected: "cs_calls s k = Some c \<Longrightarrow> ca_phase c = Waiting \<Longrightarrow>
    pd_chan (cs_pending s) k = Ch_Closed \<Longrightarrow>
    client_step ops s (Caller k) (set_phase k (Abandoning (op_closed ops (ca_id c))) s)"
| timed_out: "cs_calls s k = Some c \<Longrightarrow> ca_phase c = Waiting \<Longrightarrow> ca_timeout c = Some d \<Longrightarrow>
    pd_chan (cs_pending s) k = Ch_Open \<Longrightarrow>
    client_step ops s (Caller k) (set_phase k (Abandoning (op_timed_out ops (ca_id c) d)) s)"
| abandon: "cs_calls s k = Some c \<Longrightarrow> ca_phase c = Abandoning e \<Longrightarrow>
    client_step ops s (Caller k)
      (set_phase k (Done (Inl e)) (s\<lparr>cs_pending := op_remove ops (ca_id c) (cs_pending s)\<rparr>))"
| cancel: "op_cancels ops \<Longrightarrow> cs_calls s k = Some c \<Longrightarrow> ca_phase c \<in> {Registered, Waiting} \<Longrightarrow>
    client_step ops s (Caller k)
      (set_phase k Dropped (s\<lparr>cs_pending := op_remove ops (ca_id c) (cs_pending s)\<rparr>))"
| loop_matched: "cs_loop s = R_Reading \<Longrightarrow> op_read ops (cs_reader s) = Some (Read_Message m, r) \<Longrightarrow>
    op_routes ops m \<Longrightarrow> dispatch_response m (cs_pending s) = (Some j, p) \<Longrightarrow>
    client_step ops s Response_Loop
      (s\<lparr>cs_reader := r, cs_pending := p, cs_loop := R_Matched j m, cs_log := cs_log s @ [m]\<rparr>)"
| loop_unrecognized: "cs_loop s = R_Reading \<Longrightarrow> op_read ops (cs_reader s) = Some (Read_Message m, r) \<Longrightarrow>
    op_routes ops m \<Longrightarrow> dispatch_response m (cs_pending s) = (None, p) \<Longrightarrow>
    client_step ops s Response_Loop (s\<lparr>cs_reader := r, cs_pending := p, cs_log := cs_log s @ [m]\<rparr>)"
| loop_other: "cs_loop s = R_Reading \<Longrightarrow> op_read ops (cs_reader s) = Some (Read_Message m, r) \<Longrightarrow>
    \<not> op_routes ops m \<Longrightarrow>
    client_step ops s Response_Loop (s\<lparr>cs_reader := r, cs_log := cs_log s @ [m]\<rparr>)"
| loop_skip: "cs_loop s = R_Reading \<Longrightarrow> op_read ops (cs_reader s) = Some (Read_Skip, r) \<Longrightarrow>
    client_step ops s Response_Loop (s\<lparr>cs_reader := r\<rparr>)"
| loop_deliver: "cs_loop s = R_Matched j m \<Longrightarrow>
    client_step ops s Response_Loop
      (s\<lparr>cs_pending := (cs_pending s)\<lparr>pd_chan := channel_send j (Inr m) (pd_chan (cs_pending s))\<rparr>,
         cs_loop := R_Reading\<rparr>)"
| loop_failed: "cs_loop s = R_Reading \<Longrightarrow> op_read ops (cs_reader s) = Some (Read_Failed e, r) \<Longrightarrow>
    client_step ops s Response_Loop (s\<lparr>cs_reader := r, cs_loop := R_Failed e\<rparr>)"
| loop_shut: "cs_loop s = R_Failed e \<Longrightarrow>
    client_step ops s Response_Loop (s\<lparr>cs_writer := op_shut ops (cs_writer s), cs_loop := R_Draining e\<rparr>)"
| loop_drain: "cs_loop s = R_Draining e \<Longrightarrow> distinct waiters \<Longrightarrow>
    set waiters = {(rid, j). pd_map (cs_pending s) rid = Some j} \<Longrightarrow>
    client_step ops s Response_Loop
      (s\<lparr>cs_pending := (cs_pending s)\<lparr>pd_map := Map.empty\<rparr>, cs_loop := R_Failing e waiters\<rparr>)"
| loop_fail: "cs_loop s = R_Failing e ((rid, j) # waiters) \<Longrightarrow>
    client_step ops s Response_Loop
      (s\<lparr>cs_pending := (cs_pending s)\<lparr>pd_chan :=
           channel_send j (Inl (op_clone ops e rid)) (pd_chan (cs_pending s))\<rparr>,
         cs_loop := R_Failing e waiters\<rparr>)"
| loop_stop: "cs_loop s = R_Failing e [] \<Longrightarrow>
    client_step ops s Response_Loop (s\<lparr>cs_loop := R_Stopped\<rparr>)"

section \<open>What the steps preserve\<close>

lemma set_phase_fields [simp]:
  "cs_next_id (set_phase k ph s) = cs_next_id s"
  "cs_pending (set_phase k ph s) = cs_pending s"
  "cs_writer (set_phase k ph s) = cs_writer s"
  "cs_reader (set_phase k ph s) = cs_reader s"
  "cs_loop (set_phase k ph s) = cs_loop s"
  "cs_log (set_phase k ph s) = cs_log s"
  by (simp_all add: set_phase_def split: option.split)

lemma set_phase_calls [simp]:
  "cs_calls (set_phase k ph s) =
     (\<lambda>j. if j = k then map_option (\<lambda>c. c\<lparr>ca_phase := ph\<rparr>) (cs_calls s k) else cs_calls s j)"
  by (auto simp: set_phase_def fun_eq_iff split: option.split)

lemma pending_insert_map [simp]: "pd_map (pending_insert rid k p) = (pd_map p)(rid \<mapsto> k)"
  by (simp add: pending_insert_def)

lemma pending_remove_map [simp]: "pd_map (pending_remove rid p) = (pd_map p)(rid := None)"
  by (auto simp: pending_remove_def split: option.split)

lemma pending_insert_chan [simp]:
  "pd_chan (pending_insert rid k p) j =
     (if j = k then Ch_Open
      else if pd_map p rid = Some j \<and> pd_chan p j = Ch_Open then Ch_Closed else pd_chan p j)"
  by (auto simp: pending_insert_def drop_sender_def split: option.split)

lemma pending_remove_chan [simp]:
  "pd_chan (pending_remove rid p) j =
     (if pd_map p rid = Some j \<and> pd_chan p j = Ch_Open then Ch_Closed else pd_chan p j)"
  by (auto simp: pending_remove_def drop_sender_def split: option.split)

lemma channel_send_apply [simp]:
  "channel_send j v chan i = (if i = j \<and> chan i = Ch_Open then Ch_Sent v else chan i)"
  by (auto simp: channel_send_def)

lemma dispatch_response_iff:
  "dispatch_response m p = (j, p') \<longleftrightarrow>
     j = pd_map p (h_id (m_header m)) \<and> p' = p\<lparr>pd_map := (pd_map p)(h_id (m_header m) := None)\<rparr>"
  by (auto simp: dispatch_response_def Let_def)

text \<open>The call that registered under an id.\<close>

definition owns :: "('w, 'r, 's) ClientState \<Rightarrow> nat \<Rightarrow> u64 \<Rightarrow> bool" where
  "owns s j rid \<longleftrightarrow> (\<exists>c. cs_calls s j = Some c \<and> ca_id c = rid \<and> ca_phase c \<noteq> Built)"

text \<open>The table holds each sender under the id of the call that made it.\<close>

definition inv_table :: "('w, 'r, 's) ClientState \<Rightarrow> bool" where
  "inv_table s \<longleftrightarrow> finite (dom (pd_map (cs_pending s))) \<and>
     (\<forall>rid j. pd_map (cs_pending s) rid = Some j \<longrightarrow> owns s j rid)"

text \<open>A response travels only to the call whose id it carries.\<close>

definition inv_delivery :: "('w, 'r, 's) ClientState \<Rightarrow> bool" where
  "inv_delivery s \<longleftrightarrow>
     (\<forall>j m. pd_chan (cs_pending s) j = Ch_Sent (Inr m) \<or> cs_loop s = R_Matched j m \<longrightarrow>
        m \<in> set (cs_log s) \<and> owns s j (h_id (m_header m)))"

definition inv_results :: "('w, 'r, 's) ClientState \<Rightarrow> bool" where
  "inv_results s \<longleftrightarrow>
     (\<forall>j c. cs_calls s j = Some c \<longrightarrow>
        (ca_check c = validate_response \<or> ca_check c = check_forwarded) \<and>
        (\<forall>m. ca_phase c = Done (Inr m) \<longrightarrow>
           m \<in> set (cs_log s) \<and> h_id (m_header m) = ca_id c \<and> ca_check c (ca_id c) m = Inr m))"

text \<open>A channel still open has its sender in the table or in the loop's hands.\<close>

definition held_by_loop :: "nat \<Rightarrow> 's loop_phase \<Rightarrow> bool" where
  "held_by_loop k l \<longleftrightarrow> (case l of R_Matched j m \<Rightarrow> j = k | R_Failing e ws \<Rightarrow> k \<in> snd ` set ws | _ \<Rightarrow> False)"

definition inv_sender :: "('w, 'r, 's) ClientState \<Rightarrow> bool" where
  "inv_sender s \<longleftrightarrow>
     (\<forall>k c. cs_calls s k = Some c \<longrightarrow> ca_phase c = Registered \<or> ca_phase c = Waiting \<longrightarrow>
        pd_chan (cs_pending s) k = Ch_Open \<longrightarrow>
        pd_map (cs_pending s) (ca_id c) = Some k \<or> held_by_loop k (cs_loop s))"

text \<open>
  Once the loop has shut the connection down no write succeeds any more, and once it has
  drained the table every call still waiting is in its hands.
\<close>

fun loop_shutdown :: "'s loop_phase \<Rightarrow> bool" where
  "loop_shutdown (R_Draining e) = True"
| "loop_shutdown (R_Failing e ws) = True"
| "loop_shutdown R_Stopped = True"
| "loop_shutdown _ = False"

fun loop_drained :: "'s loop_phase \<Rightarrow> bool" where
  "loop_drained (R_Failing e ws) = True"
| "loop_drained R_Stopped = True"
| "loop_drained _ = False"

definition inv_shutdown :: "('w \<Rightarrow> bool) \<Rightarrow> ('w, 'r, 's) ClientState \<Rightarrow> bool" where
  "inv_shutdown dead s \<longleftrightarrow>
     (loop_shutdown (cs_loop s) \<longrightarrow> dead (cs_writer s)) \<and>
     (loop_drained (cs_loop s) \<longrightarrow>
        (\<forall>k c. cs_calls s k = Some c \<longrightarrow> ca_phase c = Waiting \<longrightarrow>
           pd_chan (cs_pending s) k = Ch_Open \<longrightarrow> held_by_loop k (cs_loop s)))"

locale client_contract =
  fixes ops :: "('w, 'r, 's) client_ops"
    and dead :: "'w \<Rightarrow> bool"
  assumes register_law: "op_register ops rid k p = Inr p' \<Longrightarrow> p' = pending_insert rid k p"
    and remove_law: "op_remove ops rid p = p \<or> op_remove ops rid p = pending_remove rid p"
    and settle_law: "op_settle ops rid p = p \<or> op_settle ops rid p = pending_remove rid p"
    and write_total: "op_write ops m w \<noteq> None"
    and write_dead: "dead w \<Longrightarrow> \<exists>e w'. op_write ops m w = Some (Inl e, w') \<and> dead w'"
    and shut_dead: "dead (op_shut ops w)"
begin

lemma owns_step: "client_step ops s a t \<Longrightarrow> owns s j rid \<Longrightarrow> owns t j rid"
  by (induction rule: client_step.induct) (auto simp: owns_def next_request_id_def)

lemma log_step: "client_step ops s a t \<Longrightarrow> m \<in> set (cs_log s) \<Longrightarrow> m \<in> set (cs_log t)"
  by (induction rule: client_step.induct) (auto simp: next_request_id_def)

lemma map_step:
  "client_step ops s a t \<Longrightarrow> pd_map (cs_pending t) rid = Some j \<Longrightarrow>
     pd_map (cs_pending s) rid = Some j \<or> owns t j rid"
proof (induction rule: client_step.induct)
  case (register_ok s k c p)
  then show ?case by (auto simp: owns_def dest!: register_law split: if_splits)
next
  case (receive s k c v)
  then show ?case using settle_law [of "ca_id c" "cs_pending s"] by (auto split: if_splits)
next
  case (abandon s k c e)
  then show ?case using remove_law [of "ca_id c" "cs_pending s"] by (auto split: if_splits)
next
  case (cancel s k c)
  then show ?case using remove_law [of "ca_id c" "cs_pending s"] by (auto split: if_splits)
qed (auto simp: next_request_id_def dispatch_response_iff split: if_splits)

lemma table_finite:
  "client_step ops s a t \<Longrightarrow> finite (dom (pd_map (cs_pending s))) \<Longrightarrow> finite (dom (pd_map (cs_pending t)))"
proof (induction rule: client_step.induct)
  case (register_ok s k c p)
  then show ?case by (auto dest!: register_law)
next
  case (receive s k c v)
  then show ?case using settle_law [of "ca_id c" "cs_pending s"] by auto
next
  case (abandon s k c e)
  then show ?case using remove_law [of "ca_id c" "cs_pending s"] by auto
next
  case (cancel s k c)
  then show ?case using remove_law [of "ca_id c" "cs_pending s"] by auto
qed (auto simp: next_request_id_def dispatch_response_iff)

lemma table_step: "client_step ops s a t \<Longrightarrow> inv_table s \<Longrightarrow> inv_table t"
  unfolding inv_table_def using table_finite map_step owns_step by blast

text \<open>Only the loop puts a value in a channel, and only one it had in hand.\<close>

lemma sent_step:
  "client_step ops s a t \<Longrightarrow> pd_chan (cs_pending t) j = Ch_Sent (Inr m) \<Longrightarrow>
     pd_chan (cs_pending s) j = Ch_Sent (Inr m) \<or> cs_loop s = R_Matched j m"
proof (induction rule: client_step.induct)
  case (register_ok s k c p)
  then show ?case by (auto dest!: register_law split: if_splits)
next
  case (receive s k c v)
  then show ?case using settle_law [of "ca_id c" "cs_pending s"] by (auto split: if_splits)
next
  case (abandon s k c e)
  then show ?case using remove_law [of "ca_id c" "cs_pending s"] by (auto split: if_splits)
next
  case (cancel s k c)
  then show ?case using remove_law [of "ca_id c" "cs_pending s"] by (auto split: if_splits)
qed (auto simp: next_request_id_def dispatch_response_iff split: if_splits)

lemma matched_step:
  "client_step ops s a t \<Longrightarrow> cs_loop t = R_Matched j m \<Longrightarrow>
     cs_loop s = R_Matched j m \<or>
     pd_map (cs_pending s) (h_id (m_header m)) = Some j \<and> m \<in> set (cs_log t)"
  by (induction rule: client_step.induct) (auto simp: next_request_id_def dispatch_response_iff)

lemma delivery_step:
  assumes "client_step ops s a t" and "inv_table s" and "inv_delivery s"
  shows "inv_delivery t"
  unfolding inv_delivery_def
proof (intro allI impI)
  fix j m
  assume "pd_chan (cs_pending t) j = Ch_Sent (Inr m) \<or> cs_loop t = R_Matched j m"
  then consider "pd_chan (cs_pending s) j = Ch_Sent (Inr m) \<or> cs_loop s = R_Matched j m"
    | "pd_map (cs_pending s) (h_id (m_header m)) = Some j" "m \<in> set (cs_log t)"
    using sent_step [OF assms(1)] matched_step [OF assms(1)] by blast
  then show "m \<in> set (cs_log t) \<and> owns t j (h_id (m_header m))"
  proof cases
    case 1
    with assms(3) have "m \<in> set (cs_log s)" "owns s j (h_id (m_header m))"
      unfolding inv_delivery_def by blast+
    then show ?thesis using log_step owns_step assms(1) by blast
  next
    case 2
    with assms(2) have "owns s j (h_id (m_header m))" unfolding inv_table_def by blast
    with 2 show ?thesis using owns_step [OF assms(1)] by blast
  qed
qed

text \<open>A check accepts only the message it was given.\<close>

lemma check_returns:
  "validate_response rid m = Inr m' \<Longrightarrow> m' = m"
  "check_forwarded rid m = Inr m' \<Longrightarrow> m' = m"
  by (auto simp: validate_response_def check_forwarded_def Let_def split: if_splits)

lemma done_step:
  "client_step ops s a t \<Longrightarrow> cs_calls t j = Some c \<Longrightarrow> ca_phase c = Done (Inr m) \<Longrightarrow>
     cs_calls s j = Some c \<or>
     (\<exists>c' v. cs_calls s j = Some c' \<and> c = c'\<lparr>ca_phase := Done (call_result c' v)\<rparr>
        \<and> call_result c' v = Inr m \<and> pd_chan (cs_pending s) j = Ch_Sent v)"
  by (induction rule: client_step.induct) (auto simp: next_request_id_def split: if_splits)

lemma check_step:
  "client_step ops s a t \<Longrightarrow> cs_calls t j = Some c \<Longrightarrow>
     (\<exists>c'. cs_calls s j = Some c' \<and> ca_check c' = ca_check c)
     \<or> ca_check c = validate_response \<or> ca_check c = check_forwarded"
  by (induction rule: client_step.induct) (auto simp: next_request_id_def split: if_splits)

lemma results_step:
  assumes step: "client_step ops s a t" and "inv_delivery s" and res: "inv_results s"
  shows "inv_results t"
  unfolding inv_results_def
proof (intro allI impI conjI)
  fix j c
  assume c: "cs_calls t j = Some c"
  show "ca_check c = validate_response \<or> ca_check c = check_forwarded"
    using check_step [OF step c] res unfolding inv_results_def by metis
  fix m
  assume ph: "ca_phase c = Done (Inr m)"
  have "m \<in> set (cs_log s) \<and> h_id (m_header m) = ca_id c \<and> ca_check c (ca_id c) m = Inr m"
    using done_step [OF step c ph]
  proof
    assume "cs_calls s j = Some c"
    with res ph show ?thesis unfolding inv_results_def by blast
  next
    assume "\<exists>c' v. cs_calls s j = Some c' \<and> c = c'\<lparr>ca_phase := Done (call_result c' v)\<rparr>
        \<and> call_result c' v = Inr m \<and> pd_chan (cs_pending s) j = Ch_Sent v"
    then obtain c' v where c': "cs_calls s j = Some c'" "c = c'\<lparr>ca_phase := Done (call_result c' v)\<rparr>"
      "call_result c' v = Inr m" "pd_chan (cs_pending s) j = Ch_Sent v" by blast
    from c'(3) obtain m0 where v: "v = Inr m0" "ca_check c' (ca_id c') m0 = Inr m"
      by (cases v) (auto simp: call_result_def)
    moreover have "ca_check c' = validate_response \<or> ca_check c' = check_forwarded"
      using res c'(1) unfolding inv_results_def by blast
    ultimately have m: "m0 = m" using check_returns by metis
    from c'(1,4) v(1) assms(2) have "m0 \<in> set (cs_log s) \<and> ca_id c' = h_id (m_header m0)"
      unfolding inv_delivery_def owns_def by fastforce
    with m v(2) c'(2) show ?thesis by simp
  qed
  then show "m \<in> set (cs_log t)" "h_id (m_header m) = ca_id c" "ca_check c (ca_id c) m = Inr m"
    using log_step [OF step] by blast+
qed

lemma chan_open_step:
  "client_step ops s a t \<Longrightarrow> pd_chan (cs_pending t) k = Ch_Open \<Longrightarrow>
     pd_chan (cs_pending s) k = Ch_Open \<or> (\<forall>c. cs_calls s k = Some c \<longrightarrow> ca_phase c = Built)"
proof (induction rule: client_step.induct)
  case (register_ok s k c p)
  then show ?case by (auto dest!: register_law split: if_splits)
next
  case (receive s k c v)
  then show ?case using settle_law [of "ca_id c" "cs_pending s"] by (auto split: if_splits)
next
  case (abandon s k c e)
  then show ?case using remove_law [of "ca_id c" "cs_pending s"] by (auto split: if_splits)
next
  case (cancel s k c)
  then show ?case using remove_law [of "ca_id c" "cs_pending s"] by (auto split: if_splits)
qed (auto simp: next_request_id_def dispatch_response_iff split: if_splits)

text \<open>A sender is never lost: it leaves the table for the loop's hands, or its channel closes.\<close>

lemma holder_step:
  "client_step ops s a t \<Longrightarrow> pd_map (cs_pending s) rid = Some k \<or> held_by_loop k (cs_loop s) \<Longrightarrow>
     pd_chan (cs_pending t) k = Ch_Open \<Longrightarrow> \<forall>c. cs_calls s k = Some c \<longrightarrow> ca_phase c \<noteq> Built \<Longrightarrow>
     pd_map (cs_pending t) rid = Some k \<or> held_by_loop k (cs_loop t)"
proof (induction rule: client_step.induct)
  case (register_ok s k c p)
  then show ?case by (auto dest!: register_law split: if_splits)
next
  case (receive s k c v)
  then show ?case using settle_law [of "ca_id c" "cs_pending s"] by (auto split: if_splits)
next
  case (abandon s k c e)
  then show ?case using remove_law [of "ca_id c" "cs_pending s"] by (auto split: if_splits)
next
  case (cancel s k c)
  then show ?case using remove_law [of "ca_id c" "cs_pending s"] by (auto split: if_splits)
next
  case (loop_drain s e waiters)
  then show ?case by (force simp: held_by_loop_def)
qed (auto simp: held_by_loop_def next_request_id_def dispatch_response_iff split: if_splits)

lemma registered_step:
  "client_step ops s a t \<Longrightarrow> cs_calls t k = Some c \<Longrightarrow> ca_phase c = Registered \<or> ca_phase c = Waiting \<Longrightarrow>
     (\<exists>c'. cs_calls s k = Some c' \<and> ca_id c' = ca_id c \<and> (ca_phase c' = Registered \<or> ca_phase c' = Waiting))
     \<or> pd_map (cs_pending t) (ca_id c) = Some k"
  by (induction rule: client_step.induct)
    (auto simp: next_request_id_def dest!: register_law split: if_splits)

lemma sender_step:
  assumes step: "client_step ops s a t" and inv: "inv_sender s"
  shows "inv_sender t"
  unfolding inv_sender_def
proof (intro allI impI)
  fix k c
  assume c: "cs_calls t k = Some c" "ca_phase c = Registered \<or> ca_phase c = Waiting"
    and opened: "pd_chan (cs_pending t) k = Ch_Open"
  from registered_step [OF step c]
  show "pd_map (cs_pending t) (ca_id c) = Some k \<or> held_by_loop k (cs_loop t)"
  proof
    assume "\<exists>c'. cs_calls s k = Some c' \<and> ca_id c' = ca_id c \<and> (ca_phase c' = Registered \<or> ca_phase c' = Waiting)"
    then obtain c' where c': "cs_calls s k = Some c'" "ca_id c' = ca_id c"
      "ca_phase c' = Registered \<or> ca_phase c' = Waiting" by blast
    then have unbuilt: "\<forall>c. cs_calls s k = Some c \<longrightarrow> ca_phase c \<noteq> Built" by auto
    with chan_open_step [OF step opened] c' have "pd_chan (cs_pending s) k = Ch_Open" by blast
    with inv c' have "pd_map (cs_pending s) (ca_id c) = Some k \<or> held_by_loop k (cs_loop s)"
      unfolding inv_sender_def by metis
    then show ?thesis using holder_step [OF step _ opened unbuilt] by blast
  qed blast
qed

text \<open>What a dead writer does to the steps.\<close>

lemma writer_step: "client_step ops s a t \<Longrightarrow> dead (cs_writer s) \<Longrightarrow> dead (cs_writer t)"
proof (induction rule: client_step.induct)
  case (write_ok s k c w)
  then show ?case using write_dead [of "cs_writer s" "ca_msg c"] by auto
next
  case (write_failed s k c e w)
  then show ?case using write_dead [of "cs_writer s" "ca_msg c"] by auto
next
  case (notify s rid s1 req x w k)
  then show ?case using write_dead [of "cs_writer s1" "notify_message rid req"]
    by (auto simp: next_request_id_def)
next
  case (forward_notify msg s x w k)
  then show ?case using write_dead [of "cs_writer s" msg] by auto
next
  case (loop_shut s e)
  then show ?case by (simp add: shut_dead)
qed (auto simp: next_request_id_def)

lemma waiting_step:
  "client_step ops s a t \<Longrightarrow> cs_calls t k = Some c \<Longrightarrow> ca_phase c = Waiting \<Longrightarrow>
     cs_calls s k = Some c \<or> \<not> dead (cs_writer s)"
proof (induction rule: client_step.induct)
  case (write_ok s k' c' w)
  then show ?case using write_dead [of "cs_writer s" "ca_msg c'"] by auto
qed (auto simp: next_request_id_def split: if_splits)

lemma shutdown_loop_step:
  "client_step ops s a t \<Longrightarrow> loop_shutdown (cs_loop t) \<Longrightarrow>
     loop_shutdown (cs_loop s) \<or> dead (cs_writer t)"
  by (induction rule: client_step.induct) (auto simp: next_request_id_def shut_dead)

lemma drained_step:
  "client_step ops s a t \<Longrightarrow> loop_drained (cs_loop t) \<Longrightarrow>
     loop_drained (cs_loop s) \<or>
     (\<exists>e ws. cs_loop s = R_Draining e \<and> cs_loop t = R_Failing e ws \<and> cs_calls t = cs_calls s
        \<and> set ws = {(rid, j). pd_map (cs_pending s) rid = Some j}
        \<and> pd_chan (cs_pending t) = pd_chan (cs_pending s))"
  by (induction rule: client_step.induct) (auto simp: next_request_id_def)

lemma drained_held_step:
  "client_step ops s a t \<Longrightarrow> loop_drained (cs_loop s) \<Longrightarrow> held_by_loop k (cs_loop s) \<Longrightarrow>
     held_by_loop k (cs_loop t) \<or> pd_chan (cs_pending t) k \<noteq> Ch_Open"
  by (induction rule: client_step.induct) (auto simp: next_request_id_def held_by_loop_def)

lemma drained_is_shutdown: "loop_drained l \<Longrightarrow> loop_shutdown l"
  by (cases l) auto

lemma shutdown_step:
  assumes step: "client_step ops s a t" and "inv_sender s" and inv: "inv_shutdown dead s"
  shows "inv_shutdown dead t"
  unfolding inv_shutdown_def
proof (intro allI impI conjI)
  assume "loop_shutdown (cs_loop t)"
  then show "dead (cs_writer t)"
    using shutdown_loop_step [OF step] writer_step [OF step] inv unfolding inv_shutdown_def by blast
next
  fix k c
  assume drained: "loop_drained (cs_loop t)" and c: "cs_calls t k = Some c" "ca_phase c = Waiting"
    and opened: "pd_chan (cs_pending t) k = Ch_Open"
  from drained_step [OF step drained] show "held_by_loop k (cs_loop t)"
  proof
    assume d: "loop_drained (cs_loop s)"
    with inv drained_is_shutdown have "dead (cs_writer s)" unfolding inv_shutdown_def by blast
    with waiting_step [OF step c] have c': "cs_calls s k = Some c" by blast
    with chan_open_step [OF step opened] c(2) have "pd_chan (cs_pending s) k = Ch_Open" by auto
    with inv d c' c(2) have "held_by_loop k (cs_loop s)" unfolding inv_shutdown_def by blast
    with drained_held_step [OF step d] opened show ?thesis by blast
  next
    assume "\<exists>e ws. cs_loop s = R_Draining e \<and> cs_loop t = R_Failing e ws \<and> cs_calls t = cs_calls s
        \<and> set ws = {(rid, j). pd_map (cs_pending s) rid = Some j}
        \<and> pd_chan (cs_pending t) = pd_chan (cs_pending s)"
    then obtain e ws where d: "cs_loop s = R_Draining e" "cs_loop t = R_Failing e ws"
      "cs_calls s k = Some c" "set ws = {(rid, j). pd_map (cs_pending s) rid = Some j}"
      "pd_chan (cs_pending s) k = Ch_Open" using c opened by auto
    with assms(2) c(2) have "pd_map (cs_pending s) (ca_id c) = Some k"
      unfolding inv_sender_def held_by_loop_def by fastforce
    with d show ?thesis by (force simp: held_by_loop_def)
  qed
qed

definition invar :: "('w, 'r, 's) ClientState \<Rightarrow> bool" where
  "invar s \<longleftrightarrow> inv_table s \<and> inv_delivery s \<and> inv_results s \<and> inv_sender s \<and> inv_shutdown dead s"

lemma invar_connected: "invar (client_connected w r)"
  by (simp add: invar_def client_connected_def pending_new_def inv_table_def inv_delivery_def
      inv_results_def inv_sender_def inv_shutdown_def)

lemma invar_client_step: "invar s \<Longrightarrow> client_step ops s a t \<Longrightarrow> invar t"
  unfolding invar_def
  using table_step delivery_step results_step sender_step shutdown_step by blast

end

definition connected :: "('w, 'r, 's) ClientState \<Rightarrow> bool" where
  "connected s \<longleftrightarrow> (\<exists>w r. s = client_connected w r)"

sublocale client_contract \<subseteq> sys: invariant_system connected "client_step ops" invar
  by unfold_locales (auto simp: connected_def invar_connected intro: invar_client_step)

section \<open>What a call can rely on\<close>

context client_contract
begin

lemma response_is_own:
  assumes "reachable connected (client_step ops) s" and "cs_calls s k = Some c"
    and "ca_phase c = Done (Inr m)"
  shows "m \<in> set (cs_log s) \<and> h_id (m_header m) = ca_id c \<and> h_version (m_header m) = REPE_VERSION
    \<and> (ca_check c = validate_response \<longrightarrow> h_ec (m_header m) = error_code_u32 EC_Ok)"
proof -
  from sys.invar_reachable [OF assms(1)] have "inv_results s" by (simp add: invar_def)
  with assms(2,3) have "m \<in> set (cs_log s)" "h_id (m_header m) = ca_id c" "ca_check c (ca_id c) m = Inr m"
    "ca_check c = validate_response \<or> ca_check c = check_forwarded"
    unfolding inv_results_def by blast+
  moreover from this(3,4) have "h_version (m_header m) = REPE_VERSION"
    by (auto simp: validate_response_def check_forwarded_def Let_def split: if_splits)
  moreover have "h_ec (m_header m) = error_code_u32 EC_Ok" if "ca_check c = validate_response"
    using calculation(3) that by (auto simp: validate_response_def Let_def split: if_splits)
  ultimately show ?thesis by blast
qed

lemma phase_after [simp]:
  "cs_calls s k = Some c \<Longrightarrow> cs_calls (set_phase k ph s) k = Some (c\<lparr>ca_phase := ph\<rparr>)"
  by simp

lemma abandon_finishes:
  assumes "cs_calls s k = Some c" and "ca_phase c = Abandoning e"
  shows "\<exists>t. client_step ops s (Caller k) t \<and> cs_calls t k = Some (c\<lparr>ca_phase := Done (Inl e)\<rparr>)
    \<and> cs_loop t = cs_loop s \<and> cs_writer t = cs_writer s"
  using assms(1) by (auto intro!: exI client_step.abandon [where ops = ops, OF assms])

lemma write_dead_finishes:
  assumes "cs_calls s k = Some c" and "ca_phase c = Registered" and "dead (cs_writer s)"
  shows "\<exists>t e. steps (client_step ops) s [Caller k, Caller k] t
    \<and> cs_calls t k = Some (c\<lparr>ca_phase := Done (Inl e)\<rparr>)"
proof -
  from write_dead [OF assms(3)] obtain e w where "op_write ops (ca_msg c) (cs_writer s) = Some (Inl e, w)"
    by blast
  from client_step.write_failed [where ops = ops, OF assms(1,2) this]
  have first: "client_step ops s (Caller k) (set_phase k (Abandoning e) (s\<lparr>cs_writer := w\<rparr>))" .
  have "cs_calls (set_phase k (Abandoning e) (s\<lparr>cs_writer := w\<rparr>)) k = Some (c\<lparr>ca_phase := Abandoning e\<rparr>)"
    using assms(1) by simp
  from abandon_finishes [OF this] show ?thesis
    using first by (fastforce simp: steps_Cons_iff)
qed

lemma built_finishes:
  assumes "cs_calls s k = Some c" and "ca_phase c = Built" and "dead (cs_writer s)"
  shows "\<exists>n\<le>3. \<exists>t e. steps (client_step ops) s (replicate n (Caller k)) t
    \<and> cs_calls t k = Some (c\<lparr>ca_phase := Done (Inl e)\<rparr>)"
proof (cases "op_register ops (ca_id c) k (cs_pending s)")
  case (Inl e)
  from client_step.register_refused [where ops = ops, OF assms(1,2) this]
  obtain t where "client_step ops s (Caller k) t" "cs_calls t k = Some (c\<lparr>ca_phase := Done (Inl e)\<rparr>)"
    using assms(1) by fastforce
  then show ?thesis by (intro exI [of _ 1]) (auto simp: steps_Cons_iff)
next
  case (Inr p)
  let ?s = "set_phase k Registered (s\<lparr>cs_pending := p\<rparr>)"
  have "cs_calls ?s k = Some (c\<lparr>ca_phase := Registered\<rparr>)" "dead (cs_writer ?s)"
    using assms by simp_all
  from write_dead_finishes [OF this(1) _ this(2)] obtain t e where
    "steps (client_step ops) ?s [Caller k, Caller k] t" "cs_calls t k = Some (c\<lparr>ca_phase := Done (Inl e)\<rparr>)"
    by auto
  with client_step.register_ok [where ops = ops, OF assms(1,2) Inr]
  have "steps (client_step ops) s (replicate 3 (Caller k)) t" by (simp add: numeral_3_eq_3 steps_Cons)
  with \<open>cs_calls t k = _\<close> show ?thesis by (intro exI [of _ 3]) auto
qed

lemma waiting_finishes:
  assumes "cs_calls s k = Some c" and "ca_phase c = Waiting" and "pd_chan (cs_pending s) k \<noteq> Ch_Open"
  shows "\<exists>n\<le>2. \<exists>t r. steps (client_step ops) s (replicate n (Caller k)) t
    \<and> cs_calls t k = Some (c\<lparr>ca_phase := Done r\<rparr>)"
proof (cases "pd_chan (cs_pending s) k")
  case (Ch_Sent v)
  from client_step.receive [where ops = ops, OF assms(1,2) this]
  obtain t where "client_step ops s (Caller k) t" "cs_calls t k = Some (c\<lparr>ca_phase := Done (call_result c v)\<rparr>)"
    using assms(1) by fastforce
  then show ?thesis by (intro exI [of _ 1]) (auto simp: steps_Cons_iff)
next
  case Ch_Closed
  let ?s = "set_phase k (Abandoning (op_closed ops (ca_id c))) s"
  from abandon_finishes [of ?s k "c\<lparr>ca_phase := Abandoning (op_closed ops (ca_id c))\<rparr>"] assms(1)
  obtain t where "client_step ops ?s (Caller k) t"
    "cs_calls t k = Some (c\<lparr>ca_phase := Done (Inl (op_closed ops (ca_id c)))\<rparr>)" by auto
  with client_step.disconnected [where ops = ops, OF assms(1,2) Ch_Closed]
  have "steps (client_step ops) s (replicate 2 (Caller k)) t"
    by (auto simp: numeral_2_eq_2 steps_Cons_iff)
  with \<open>cs_calls t k = _\<close> show ?thesis by (intro exI [of _ 2]) auto
qed (use assms(3) in simp)

text \<open>After the loop has stopped, every call left returns within three steps of its own.\<close>

lemma stopped_finishes:
  assumes "reachable connected (client_step ops) s" and "cs_loop s = R_Stopped"
    and c: "cs_calls s k = Some c" and "ca_phase c \<noteq> Dropped"
  shows "\<exists>n\<le>3. \<exists>t r. steps (client_step ops) s (replicate n (Caller k)) t
    \<and> cs_calls t k = Some (c\<lparr>ca_phase := Done r\<rparr>)"
proof -
  from sys.invar_reachable [OF assms(1)] have "inv_shutdown dead s" by (simp add: invar_def)
  with assms(2) c have d: "dead (cs_writer s)"
    and w: "ca_phase c = Waiting \<Longrightarrow> pd_chan (cs_pending s) k \<noteq> Ch_Open"
    unfolding inv_shutdown_def held_by_loop_def by auto
  show ?thesis
  proof (cases "ca_phase c")
    case Built
    with built_finishes [OF c _ d] show ?thesis by blast
  next
    case Registered
    from write_dead_finishes [OF c this d] show ?thesis
      by (intro exI [of _ 2]) (auto simp: numeral_2_eq_2)
  next
    case Waiting
    from waiting_finishes [OF c this w [OF this]] obtain n t r where "n \<le> 2"
      "steps (client_step ops) s (replicate n (Caller k)) t" "cs_calls t k = Some (c\<lparr>ca_phase := Done r\<rparr>)"
      by blast
    then show ?thesis by (intro exI [of _ n]) auto
  next
    case (Abandoning e)
    from abandon_finishes [OF c this] show ?thesis
      by (intro exI [of _ 1]) (auto simp: steps_Cons_iff)
  next
    case (Done r)
    then have "c = c\<lparr>ca_phase := Done r\<rparr>" by simp
    with c show ?thesis by (intro exI [of _ 0]) (auto intro!: exI [of _ r])
  qed (use assms(4) in simp)
qed

text \<open>A loop that failed to read runs to its end and leaves the calls to their own steps.\<close>

lemma failing_finishes:
  "cs_loop s = R_Failing e ws \<Longrightarrow>
     \<exists>n t. steps (client_step ops) s (replicate n Response_Loop) t \<and> cs_loop t = R_Stopped \<and> cs_calls t = cs_calls s"
proof (induction ws arbitrary: s)
  case Nil
  show ?case
    using client_step.loop_stop [where ops = ops, OF Nil]
    by (intro exI [of _ 1] exI [of _ "s\<lparr>cs_loop := R_Stopped\<rparr>"]) (simp add: steps_Cons_iff)
next
  case (Cons w ws)
  obtain rid j where w: "w = (rid, j)" by (cases w)
  with Cons.prems have l: "cs_loop s = R_Failing e ((rid, j) # ws)" by simp
  define s1 where "s1 = s\<lparr>cs_pending := (cs_pending s)\<lparr>pd_chan :=
      channel_send j (Inl (op_clone ops e rid)) (pd_chan (cs_pending s))\<rparr>, cs_loop := R_Failing e ws\<rparr>"
  have step: "client_step ops s Response_Loop s1"
    unfolding s1_def by (rule client_step.loop_fail [OF l])
  have "cs_loop s1 = R_Failing e ws" "cs_calls s1 = cs_calls s" by (simp_all add: s1_def)
  with Cons.IH obtain n t where "steps (client_step ops) s1 (replicate n Response_Loop) t"
    "cs_loop t = R_Stopped" "cs_calls t = cs_calls s" by metis
  with step show ?case by (intro exI [of _ "Suc n"] exI [of _ t]) (simp add: steps_Cons)
qed

lemma failed_finishes:
  assumes "inv_table s" and "cs_loop s = R_Failed e"
  shows "\<exists>n t. steps (client_step ops) s (replicate n Response_Loop) t \<and> cs_loop t = R_Stopped
    \<and> cs_calls t = cs_calls s"
proof -
  define s1 where "s1 = s\<lparr>cs_writer := op_shut ops (cs_writer s), cs_loop := R_Draining e\<rparr>"
  have step1: "client_step ops s Response_Loop s1"
    unfolding s1_def by (rule client_step.loop_shut [OF assms(2)])
  let ?table = "{(rid, j). pd_map (cs_pending s1) rid = Some j}"
  have "?table = (\<lambda>rid. (rid, the (pd_map (cs_pending s1) rid))) ` dom (pd_map (cs_pending s1))"
    by force
  with assms(1) have "finite ?table" by (simp add: inv_table_def s1_def)
  then obtain ws where ws: "set ws = ?table" "distinct ws" using finite_distinct_list by blast
  have l1: "cs_loop s1 = R_Draining e" by (simp add: s1_def)
  define s2 where "s2 = s1\<lparr>cs_pending := (cs_pending s1)\<lparr>pd_map := Map.empty\<rparr>, cs_loop := R_Failing e ws\<rparr>"
  have step2: "client_step ops s1 Response_Loop s2"
    unfolding s2_def by (rule client_step.loop_drain [OF l1 ws(2,1)])
  have "cs_loop s2 = R_Failing e ws" "cs_calls s2 = cs_calls s" by (simp_all add: s2_def s1_def)
  with failing_finishes obtain n t where "steps (client_step ops) s2 (replicate n Response_Loop) t"
    "cs_loop t = R_Stopped" "cs_calls t = cs_calls s" by metis
  with step1 step2 show ?thesis by (intro exI [of _ "Suc (Suc n)"] exI [of _ t]) (simp add: steps_Cons)
qed

lemma failed_call_returns:
  assumes "reachable connected (client_step ops) s" and "cs_loop s = R_Failed e"
    and "cs_calls s k = Some c" and "ca_phase c \<noteq> Dropped"
  shows "\<exists>l n t r. n \<le> 3 \<and> steps (client_step ops) s (replicate l Response_Loop @ replicate n (Caller k)) t
    \<and> cs_calls t k = Some (c\<lparr>ca_phase := Done r\<rparr>)"
proof -
  from sys.invar_reachable [OF assms(1)] have "inv_table s" by (simp add: invar_def)
  from failed_finishes [OF this assms(2)] obtain l u where u:
    "steps (client_step ops) s (replicate l Response_Loop) u" "cs_loop u = R_Stopped" "cs_calls u = cs_calls s"
    by blast
  have "reachable connected (client_step ops) u" using reachable_steps [OF assms(1) u(1)] .
  moreover have "cs_calls u k = Some c" using assms(3) u(3) by simp
  ultimately obtain n t r where "n \<le> 3"
    "steps (client_step ops) u (replicate n (Caller k)) t" "cs_calls t k = Some (c\<lparr>ca_phase := Done r\<rparr>)"
    using stopped_finishes [of u k c] u(2) assms(4) by blast
  with steps_append [OF u(1)] show ?thesis by blast
qed

text \<open>A client that does not forward validates every response.\<close>

lemma validates_unless_forwarding:
  "reachable connected (client_step ops) s \<Longrightarrow> \<not> op_forwards ops \<Longrightarrow>
     cs_calls s k = Some c \<Longrightarrow> ca_check c = validate_response"
proof (induction arbitrary: c rule: reachable.induct)
  case (reachable_start s)
  then show ?case by (auto simp: connected_def client_connected_def)
next
  case (reachable_step s a t)
  from reachable_step.hyps(2) reachable_step.prems reachable_step.IH show ?case
    by (cases rule: client_step.cases) (auto simp: next_request_id_def split: if_splits)
qed

text \<open>The undisturbed course of a call: up to the wait, and from the response to the result.\<close>

lemma run_request:
  assumes s: "reachable connected (client_step ops) s" and "cs_calls s k = None"
    and reg: "op_register ops (cs_next_id s) k (cs_pending s) = Inr p"
    and w: "op_write ops (request_message (cs_next_id s) req) (cs_writer s) = Some (Inr (), w)"
  shows "reachable connected (client_step ops)
    (s\<lparr>cs_next_id := cs_next_id s + 1, cs_pending := p, cs_writer := w,
       cs_calls := (cs_calls s)(k \<mapsto>
         \<lparr>ca_id = cs_next_id s, ca_msg = request_message (cs_next_id s) req, ca_timeout = rq_timeout req,
          ca_check = validate_response, ca_phase = Waiting\<rparr>)\<rparr>)" (is "reachable _ _ ?t")
proof -
  let ?c = "\<lambda>ph. \<lparr>ca_id = cs_next_id s, ca_msg = request_message (cs_next_id s) req,
      ca_timeout = rq_timeout req, ca_check = validate_response, ca_phase = ph\<rparr>"
  define s1 where "s1 = s\<lparr>cs_next_id := cs_next_id s + 1, cs_calls := (cs_calls s)(k \<mapsto> ?c Built)\<rparr>"
  define s2 where "s2 = set_phase k Registered (s1\<lparr>cs_pending := p\<rparr>)"
  define s3 where "s3 = set_phase k Waiting (s2\<lparr>cs_writer := w\<rparr>)"
  have c1: "cs_calls s1 k = Some (?c Built)" and c2: "cs_calls s2 k = Some (?c Registered)"
    by (simp_all add: s1_def s2_def)
  have "client_step ops s (Caller k) s1"
    using client_step.start_call [OF assms(2), of "cs_next_id s" _ ops req]
    by (simp add: next_request_id_def s1_def)
  moreover have "client_step ops s1 (Caller k) s2"
    unfolding s2_def by (rule client_step.register_ok [OF c1]) (simp_all add: reg s1_def)
  moreover have "client_step ops s2 (Caller k) s3"
    unfolding s3_def by (rule client_step.write_ok [OF c2]) (simp_all add: w s2_def s1_def)
  ultimately have "reachable connected (client_step ops) s3" using s by (blast intro: reachable_step)
  moreover have "s3 = ?t"
    by (simp add: s3_def s2_def s1_def set_phase_def)
  ultimately show ?thesis by simp
qed

lemma run_response:
  assumes s: "reachable connected (client_step ops) s" and "cs_loop s = R_Reading"
    and "op_read ops (cs_reader s) = Some (Read_Message m, r)" and "op_routes ops m"
    and k: "pd_map (cs_pending s) (h_id (m_header m)) = Some k" "pd_chan (cs_pending s) k = Ch_Open"
    and c: "cs_calls s k = Some c" "ca_phase c = Waiting"
  shows "reachable connected (client_step ops)
    (s\<lparr>cs_reader := r, cs_log := cs_log s @ [m],
       cs_pending := \<lparr>pd_map = (pd_map (cs_pending s))(h_id (m_header m) := None),
         pd_chan = (pd_chan (cs_pending s))(k := Ch_Sent (Inr m))\<rparr>,
       cs_calls := (cs_calls s)(k \<mapsto> c\<lparr>ca_phase := Done (ca_check c (ca_id c) m)\<rparr>)\<rparr>)"
    (is "reachable _ _ ?t")
proof -
  let ?p = "(cs_pending s)\<lparr>pd_map := (pd_map (cs_pending s))(h_id (m_header m) := None)\<rparr>"
  define s1 where "s1 = s\<lparr>cs_reader := r, cs_pending := ?p, cs_loop := R_Matched k m, cs_log := cs_log s @ [m]\<rparr>"
  define s2 where "s2 = s1\<lparr>cs_pending := (cs_pending s1)\<lparr>pd_chan :=
      channel_send k (Inr m) (pd_chan (cs_pending s1))\<rparr>, cs_loop := R_Reading\<rparr>"
  have "client_step ops s Response_Loop s1"
    unfolding s1_def
    by (rule client_step.loop_matched [OF assms(2-4)]) (simp add: dispatch_response_iff k)
  moreover have "client_step ops s1 Response_Loop s2"
    unfolding s2_def by (rule client_step.loop_deliver) (simp add: s1_def)
  moreover have "client_step ops s2 (Caller k) (set_phase k (Done (call_result c (Inr m)))
      (s2\<lparr>cs_pending := (if isl (Inr m :: 's RepeError + Message) then op_settle ops (ca_id c) (cs_pending s2)
        else cs_pending s2)\<rparr>))"
    by (rule client_step.receive) (simp_all add: s2_def s1_def c k)
  ultimately have "reachable connected (client_step ops) (set_phase k (Done (call_result c (Inr m))) s2)"
    using s by simp (meson reachable_step)
  moreover have "set_phase k (Done (call_result c (Inr m))) s2 = ?t"
    using assms(2) k c by (simp add: s2_def s1_def set_phase_def call_result_def channel_send_def)
  ultimately show ?thesis by simp
qed

text \<open>
  Two calls on one connection; the first is answered, then reading fails. The witnesses run
  their client through it.
\<close>

lemma two_calls:
  assumes reg: "\<And>rid k p. pd_map p rid = None \<Longrightarrow> op_register ops rid k p = Inr (pending_insert rid k p)"
    and w1: "op_write ops (request_message 1 req) w = Some (Inr (), w1)"
    and w2: "op_write ops (request_message 2 req) w1 = Some (Inr (), w2)"
    and m: "op_read ops r = Some (Read_Message m, r1)" "op_routes ops m" "h_id (m_header m) = 1"
      "validate_response 1 m = (Inr m :: 's RepeError + Message)"
    and eof: "op_read ops r1 = Some (Read_Failed e, r2)"
  shows "\<exists>s c0 c1. reachable connected (client_step ops) s \<and> cs_loop s = R_Failed e
    \<and> cs_calls s 0 = Some c0 \<and> ca_phase c0 = Done (Inr m) \<and> ca_id c0 = 1
    \<and> cs_calls s 1 = Some c1 \<and> ca_phase c1 = Waiting \<and> pd_map (cs_pending s) 2 = Some 1"
proof -
  define s0 where "s0 = (client_connected w r :: ('w, 'r, 's) ClientState)"
  have s0: "reachable connected (client_step ops) s0"
    unfolding s0_def by (intro reachable_start) (auto simp: connected_def)
  let ?c = "\<lambda>rid ph. \<lparr>ca_id = rid, ca_msg = request_message rid req, ca_timeout = rq_timeout req,
      ca_check = validate_response, ca_phase = ph\<rparr>"
  let ?p1 = "pending_insert 1 0 pending_new :: 's Pending"
  let ?p2 = "pending_insert 2 1 ?p1"
  define s1 where "s1 = s0\<lparr>cs_next_id := 2, cs_pending := ?p1, cs_writer := w1, cs_calls := [0 \<mapsto> ?c 1 Waiting]\<rparr>"
  have s1: "reachable connected (client_step ops) s1"
    using run_request [OF s0, of 0 ?p1 req w1] w1 reg [of pending_new 1 0]
    by (simp add: s1_def s0_def client_connected_def pending_new_def)
  define s2 where "s2 = s1\<lparr>cs_next_id := 3, cs_pending := ?p2, cs_writer := w2,
      cs_calls := [0 \<mapsto> ?c 1 Waiting, 1 \<mapsto> ?c 2 Waiting]\<rparr>"
  have s2: "reachable connected (client_step ops) s2"
    using run_request [OF s1, of 1 ?p2 req w2] w2 reg [of ?p1 2 1]
    by (simp add: s2_def s1_def s0_def client_connected_def pending_new_def)
  note s3 = run_response [OF s2, of m r1 0 "?c 1 Waiting"]
  have "\<exists>s. reachable connected (client_step ops) s \<and> cs_loop s = R_Reading \<and> cs_reader s = r1
      \<and> cs_calls s 0 = Some (?c 1 (Done (Inr m))) \<and> cs_calls s 1 = Some (?c 2 Waiting)
      \<and> pd_map (cs_pending s) 2 = Some 1"
    by (rule exI, rule conjI, rule s3)
      (simp_all add: s2_def s1_def s0_def client_connected_def m pending_new_def)
  then obtain s where s: "reachable connected (client_step ops) s" "cs_loop s = R_Reading" "cs_reader s = r1"
      "cs_calls s 0 = Some (?c 1 (Done (Inr m)))" "cs_calls s 1 = Some (?c 2 Waiting)"
      "pd_map (cs_pending s) 2 = Some 1" by blast
  have "client_step ops s Response_Loop (s\<lparr>cs_reader := r2, cs_loop := R_Failed e\<rparr>)"
    by (rule client_step.loop_failed [OF s(2)]) (simp add: s(3) eof)
  from reachable_step [OF s(1) this] s(4-6) show ?thesis
    by (intro exI [of _ "s\<lparr>cs_reader := r2, cs_loop := R_Failed e\<rparr>"]
        exI [of _ "?c 1 (Done (Inr m))"] exI [of _ "?c 2 Waiting"]) simp
qed

end

end
