(* ===== verification/Buffered_Writer.thy ===== *)
theory Buffered_Writer
  imports Framing_IO
begin

text \<open>
  The writing half of a client's connection as the standard library has it: a
  \<^verbatim>\<open>BufWriter\<close> over a \<^verbatim>\<open>TcpStream\<close>. The socket belongs to the operating system, so
  its \<open>send\<close> is an argument; the locale \<open>byte_socket\<close> states what the clients rely
  on, in particular that a socket that was shut down refuses every write. The
  buffered writer over such a socket is a \<open>byte_sink\<close>.
\<close>

section \<open>The buffered writer\<close>

text \<open>
  \<open>send bs k\<close> is \<^verbatim>\<open>write_all\<close> on the socket: how many bytes of \<open>bs\<close> it accepted, and
  the error that stopped it, if any. A send with a write timeout may accept a part
  and then fail.
\<close>

type_synonym 'k send_op = "bytes \<Rightarrow> 'k \<Rightarrow> (io_error option \<times> nat) \<times> 'k"

record 'k BufWriter =
  bw_buf :: bytes
  bw_capacity :: nat
  bw_inner :: 'k

definition bufwriter_new :: "'k \<Rightarrow> 'k BufWriter" where
  "bufwriter_new k = \<lparr>bw_buf = [], bw_capacity = 8192, bw_inner = k\<rparr>"

fun send_result :: "io_error option \<Rightarrow> io_error + unit" where
  "send_result None = Inr ()"
| "send_result (Some e) = Inl e"

text \<open>A failed flush keeps the bytes the socket did not take.\<close>

definition flush_buf :: "'k send_op \<Rightarrow> ('k BufWriter, io_error, unit) io" where
  "flush_buf send w =
     (if bw_buf w = [] then Some (Inr (), w)
      else (case send (bw_buf w) (bw_inner w) of
              ((err, n), k) \<Rightarrow>
                Some (send_result err, w\<lparr>bw_buf := drop n (bw_buf w), bw_inner := k\<rparr>)))"

text \<open>A write that does not fit in an empty buffer goes to the socket directly.\<close>

definition buf_write_direct :: "'k send_op \<Rightarrow> bytes \<Rightarrow> ('k BufWriter, io_error, unit) io" where
  "buf_write_direct send bs w =
     (if bs = [] then Some (Inr (), w)
      else (case send bs (bw_inner w) of
              ((err, n), k) \<Rightarrow> Some (send_result err, w\<lparr>bw_inner := k\<rparr>)))"

definition buf_push :: "bytes \<Rightarrow> ('k BufWriter, io_error, unit) io" where
  "buf_push bs w = Some (Inr (), w\<lparr>bw_buf := bw_buf w @ bs\<rparr>)"

definition buf_write_all :: "'k send_op \<Rightarrow> bytes \<Rightarrow> ('k BufWriter, io_error, unit) io" where
  "buf_write_all send bs w =
     (let spare = bw_capacity w - length (bw_buf w) in
      if length bs < spare then buf_push bs w
      else io_bind (if length bs > spare then flush_buf send else io_result (Inr ()))
             (\<lambda>_. if length bs \<ge> bw_capacity w then buf_write_direct send bs else buf_push bs) w)"

text \<open>\<^verbatim>\<open>TcpStream::flush\<close> does nothing.\<close>

definition buf_flush :: "'k send_op \<Rightarrow> ('k BufWriter, io_error, unit) io" where
  "buf_flush send = flush_buf send"

section \<open>A socket\<close>

locale byte_socket =
  fixes send :: "'k send_op"
    and shut :: "'k \<Rightarrow> 'k"
    and sent :: "'k \<Rightarrow> bytes"
    and dead :: "'k \<Rightarrow> bool"
  assumes send_sent: "send bs k = ((err, n), k') \<Longrightarrow>
      n \<le> length bs \<and> sent k' = sent k @ take n bs \<and> (err = None \<longrightarrow> n = length bs)"
    and send_dead: "dead k \<Longrightarrow> bs \<noteq> [] \<Longrightarrow> \<exists>e k'. send bs k = ((Some e, 0), k') \<and> dead k'"
    and shut_dead: "dead (shut k)"
    and shut_sent: "sent (shut k) = sent k"
begin

text \<open>What the writer was given and did not refuse: on the wire or still buffered.\<close>

definition stream :: "'k BufWriter \<Rightarrow> bytes" where
  "stream w = sent (bw_inner w) @ bw_buf w"

definition writer_dead :: "'k BufWriter \<Rightarrow> bool" where
  "writer_dead w \<longleftrightarrow> dead (bw_inner w)"

lemma flush_buf_total: "\<exists>x w'. flush_buf send w = Some (x, w')"
  by (auto simp: flush_buf_def split: prod.splits)

lemma flush_buf_stream: "flush_buf send w = Some (x, w') \<Longrightarrow> stream w' = stream w"
  by (auto simp: flush_buf_def stream_def split: if_splits prod.splits dest!: send_sent)

lemma flush_buf_empties: "flush_buf send w = Some (Inr u, w') \<Longrightarrow> bw_buf w' = []"
  by (auto simp: flush_buf_def split: if_splits prod.splits dest!: send_sent)

lemma direct_cases:
  "buf_write_direct send bs w = Some (x, w') \<Longrightarrow>
     \<exists>n. n \<le> length bs \<and> bw_buf w' = bw_buf w \<and> sent (bw_inner w') = sent (bw_inner w) @ take n bs
       \<and> (isl x \<or> n = length bs)"
  by (auto simp: buf_write_direct_def split: if_splits prod.splits dest!: send_sent)

text \<open>A direct write happens only on an empty buffer, so it keeps the order.\<close>

lemma write_all_total: "\<exists>x w'. buf_write_all send bs w = Some (x, w')"
  using flush_buf_total [of w]
  by (auto simp: buf_write_all_def buf_push_def buf_write_direct_def io_bind_def io_result_def Let_def
      split: if_splits prod.splits sum.splits)

lemma push_stream: "buf_push bs w = Some (x, w') \<Longrightarrow> x = Inr () \<and> stream w' = stream w @ bs"
  by (auto simp: buf_push_def stream_def)

lemma direct_stream:
  assumes "buf_write_direct send bs w = Some (x, w')" and "bw_buf w = []"
  shows "\<exists>n. n \<le> length bs \<and> stream w' = stream w @ take n bs \<and> (isl x \<or> n = length bs)"
  using direct_cases [OF assms(1)] assms(2) by (auto simp: stream_def)

lemma write_all_cases:
  assumes "buf_write_all send bs w = Some (x, w')"
  shows "\<exists>n. n \<le> length bs \<and> stream w' = stream w @ take n bs \<and> (isl x \<or> n = length bs)"
proof -
  let ?spare = "bw_capacity w - length (bw_buf w)"
  consider (fits) "length bs < ?spare" "buf_push bs w = Some (x, w')"
    | (unflushed) e where "flush_buf send w = Some (Inl e, w')" "x = Inl e"
    | (cold) u w1 where
        "flush_buf send w = Some (Inr u, w1) \<or> w1 = w \<and> length bs = ?spare"
        "(if length bs \<ge> bw_capacity w then buf_write_direct send bs else buf_push bs) w1 = Some (x, w')"
    using assms flush_buf_total [of w]
    by (auto simp: buf_write_all_def Let_def io_bind_def io_result_def split: if_splits sum.splits)
  then show ?thesis
  proof cases
    case fits
    then show ?thesis using push_stream by fastforce
  next
    case unflushed
    then show ?thesis using flush_buf_stream by (intro exI [of _ 0]) auto
  next
    case cold
    from cold(1) have str: "stream w1 = stream w" using flush_buf_stream by auto
    show ?thesis
    proof (cases "length bs \<ge> bw_capacity w")
      case True
      with cold(2) have direct: "buf_write_direct send bs w1 = Some (x, w')" by simp
      from cold(1) True have "bw_buf w1 = [] \<or> bs = []"
        by (cases "bw_buf w"; cases bs) (auto dest: flush_buf_empties)
      then show ?thesis
        using direct_stream [OF direct] direct str by (auto simp: buf_write_direct_def)
    next
      case False
      with cold(2) str push_stream show ?thesis by fastforce
    qed
  qed
qed

text \<open>On a socket that was shut down nothing more reaches the wire.\<close>

lemma flush_buf_dead:
  assumes "writer_dead w"
  shows "if bw_buf w = [] then flush_buf send w = Some (Inr (), w)
    else \<exists>e w'. flush_buf send w = Some (Inl e, w') \<and> writer_dead w'"
  using send_dead [of "bw_inner w" "bw_buf w"] assms
  by (auto simp: flush_buf_def writer_dead_def)

lemma write_all_dead:
  assumes "writer_dead w" and "bs \<noteq> []"
  shows "\<exists>x w'. buf_write_all send bs w = Some (x, w') \<and> writer_dead w' \<and> (isl x \<or> bw_buf w' \<noteq> [])"
proof -
  have direct: "\<exists>e w'. buf_write_direct send bs w = Some (Inl e, w') \<and> writer_dead w'"
    using send_dead [of "bw_inner w" bs] assms by (auto simp: buf_write_direct_def writer_dead_def)
  have push: "\<exists>w'. buf_push bs w = Some (Inr (), w') \<and> writer_dead w' \<and> bw_buf w' \<noteq> []"
    using assms by (auto simp: buf_push_def writer_dead_def)
  show ?thesis
    using direct push flush_buf_dead [OF assms(1)]
    by (fastforce simp: buf_write_all_def Let_def io_bind_def io_result_def split: if_splits)
qed

end

sublocale byte_socket \<subseteq> buffered: byte_sink "buf_write_all send" stream
proof
  fix bs w u e and w' :: "'k BufWriter"
  show "buf_write_all send bs w \<noteq> None"
    using write_all_total [of bs w] by auto
  show "buf_write_all send bs w = Some (Inr u, w') \<Longrightarrow> stream w' = stream w @ bs"
    by (drule write_all_cases) auto
  show "buf_write_all send bs w = Some (Inl e, w') \<Longrightarrow>
      \<exists>sent unsent. bs = sent @ unsent \<and> stream w' = stream w @ sent"
    by (drule write_all_cases) (metis append_take_drop_id)
qed

text \<open>
  A TCP socket: what reached the peer, whether it is still open for writing, and
  how much each of the next sends may take before the write timeout strikes
  (none listed: all of it). A closed socket answers \<^verbatim>\<open>EPIPE\<close>, a timed-out send
  \<^verbatim>\<open>EAGAIN\<close>.
\<close>

record Tcp =
  tcp_sent :: bytes
  tcp_open :: bool
  tcp_room :: "nat list"

definition tcp_send :: "Tcp send_op" where
  "tcp_send bs k =
     (if \<not> tcp_open k then ((if bs = [] then None else Some (OsError 32), 0), k)
      else (case tcp_room k of
              [] \<Rightarrow> ((None, length bs), k\<lparr>tcp_sent := tcp_sent k @ bs\<rparr>)
            | room # rooms \<Rightarrow>
                if length bs \<le> room then ((None, length bs), k\<lparr>tcp_sent := tcp_sent k @ bs, tcp_room := rooms\<rparr>)
                else ((Some (OsError 11), room), k\<lparr>tcp_sent := tcp_sent k @ take room bs, tcp_room := rooms\<rparr>)))"

definition tcp_shut :: "Tcp \<Rightarrow> Tcp" where
  "tcp_shut k = k\<lparr>tcp_open := False\<rparr>"

interpretation tcp: byte_socket tcp_send tcp_shut tcp_sent "\<lambda>k. \<not> tcp_open k"
proof
  fix bs err n and k k' :: Tcp
  show "tcp_send bs k = ((err, n), k') \<Longrightarrow>
      n \<le> length bs \<and> tcp_sent k' = tcp_sent k @ take n bs \<and> (err = None \<longrightarrow> n = length bs)"
    by (auto simp: tcp_send_def split: if_splits list.splits)
  show "\<not> tcp_open k \<Longrightarrow> bs \<noteq> [] \<Longrightarrow> \<exists>e k'. tcp_send bs k = ((Some e, 0), k') \<and> \<not> tcp_open k'"
    by (simp add: tcp_send_def)
qed (simp_all add: tcp_shut_def)

end
