(* ===== verification/Client.thy ===== *)
theory Client
  imports Client_Core Buffered_Writer
begin

text \<open>
  The blocking client of \<^verbatim>\<open>src/client.rs\<close>: its registration, writing, reading and
  failure functions, the methods a caller uses, and the worker pool of
  \<^verbatim>\<open>batch_json\<close>. The functions fill the interface of \<^verbatim>\<open>Client_Core\<close>; the socket under the
  buffered writer is an argument. \<open>lock_ok\<close> is what acquiring a mutex returned
  (false: poisoned).
\<close>

section \<open>The connection\<close>

definition poisoned_lock_error :: "string \<Rightarrow> 's RepeError" where
  "poisoned_lock_error name = RE_Io (IoError K_Other (name @ '' lock poisoned''))"

definition client_register :: "bool \<Rightarrow> u64 \<Rightarrow> nat \<Rightarrow> 's Pending \<Rightarrow> 's RepeError + 's Pending" where
  "client_register lock_ok rid k p =
     (if lock_ok then Inr (pending_insert rid k p)
      else Inl (poisoned_lock_error ''client pending map''))"

definition remove_pending :: "bool \<Rightarrow> u64 \<Rightarrow> 's Pending \<Rightarrow> 's Pending" where
  "remove_pending lock_ok rid p = (if lock_ok then pending_remove rid p else p)"

definition write_request ::
    "bool \<Rightarrow> 'k send_op \<Rightarrow> Message \<Rightarrow> ('k BufWriter, 's RepeError, unit) io" where
  "write_request lock_ok send msg =
     (if lock_ok
      then io_bind (write_message (buf_write_all send) msg) (\<lambda>_. io_from (buf_flush send))
      else io_result (Inl (poisoned_lock_error ''client writer'')))"

text \<open>One turn of the response loop at the reader: an interrupted read is tried again.\<close>

definition read_response ::
    "nat \<Rightarrow> (nat \<Rightarrow> 'r \<Rightarrow> (io_error + bytes) \<times> 'r) \<Rightarrow> 'r \<Rightarrow> ('s read_result \<times> 'r) option" where
  "read_response usize_max rd r =
     (case read_message usize_max rd r of
        None \<Rightarrow> None
      | Some (Inr message, r) \<Rightarrow> Some (Read_Message message, r)
      | Some (Inl err, r) \<Rightarrow>
          Some (if is_io_kind K_Interrupted err then Read_Skip else Read_Failed err, r))"

definition shutdown_writer :: "('k \<Rightarrow> 'k) \<Rightarrow> 'k BufWriter \<Rightarrow> 'k BufWriter" where
  "shutdown_writer shut w = w\<lparr>bw_inner := shut (bw_inner w)\<rparr>"

definition blocking_ops ::
    "nat \<Rightarrow> (io_error \<Rightarrow> string) \<Rightarrow> bool \<Rightarrow> bool \<Rightarrow> 'k send_op \<Rightarrow> ('k \<Rightarrow> 'k)
      \<Rightarrow> (nat \<Rightarrow> 'r \<Rightarrow> (io_error + bytes) \<times> 'r) \<Rightarrow> ('k BufWriter, 'r, 's) client_ops" where
  "blocking_ops usize_max dio pending_ok writer_ok send shut rd =
     \<lparr>op_register = client_register pending_ok, op_remove = remove_pending pending_ok,
      op_settle = (\<lambda>rid p. p), op_write = write_request writer_ok send,
      op_shut = shutdown_writer shut, op_read = read_response usize_max rd, op_routes = (\<lambda>m. True),
      op_clone = clone_fatal_error_for_waiter dio, op_closed = response_channel_closed_error,
      op_timed_out = request_timeout_error, op_forwards = False, op_cancels = False\<rparr>"

definition client_connect ::
    "('a \<Rightarrow> io_error + 'k \<times> 'r) \<Rightarrow> 'a \<Rightarrow> io_error + ('k BufWriter, 'r, 's) ClientState" where
  "client_connect tcp_connect addr =
     res_bind (tcp_connect addr) (\<lambda>(stream, reader_stream).
     Inr (client_connected (bufwriter_new stream) reader_stream))"

text \<open>The last handle goes: the connection is shut down and whoever is still registered is told.\<close>

definition client_closed_error :: "u64 \<Rightarrow> 's RepeError" where
  "client_closed_error request_id =
     RE_Io (IoError K_ConnectionAborted
       (''client closed while waiting for request '' @ dec_str (unat request_id)))"

definition client_drop ::
    "bool \<Rightarrow> bool \<Rightarrow> ('k \<Rightarrow> 'k) \<Rightarrow> (u64 \<times> nat) list \<Rightarrow> ('k BufWriter, 'r, 's) ClientState
      \<Rightarrow> ('k BufWriter, 'r, 's) ClientState" where
  "client_drop writer_ok pending_ok shut drained s =
     (let s = (if writer_ok then s\<lparr>cs_writer := shutdown_writer shut (cs_writer s)\<rparr> else s)
      in if pending_ok
         then s\<lparr>cs_pending :=
           \<lparr>pd_map = Map.empty,
            pd_chan = fold (\<lambda>(rid, j). channel_send j (Inl (client_closed_error rid))) drained
              (pd_chan (cs_pending s))\<rparr>\<rparr>
         else s)"

section \<open>The methods\<close>

text \<open>
  A method is the request it makes and what it does with the response; \<^verbatim>\<open>call\<close> in the
  comments of the code is \<open>client_step\<close>. The encoders and decoders of \<^verbatim>\<open>structio\<close> are
  arguments, a \<open>codec\<close> for each value type.
\<close>

record ('v, 's) codec =
  cd_to_json :: "'v \<Rightarrow> bytes"
  cd_to_beve :: "'v \<Rightarrow> bytes"
  cd_from_json :: "string \<Rightarrow> 's + 'v"
  cd_from_beve :: "bytes \<Rightarrow> 's + 'v"
  cd_invalid_utf8 :: "nat \<Rightarrow> 's"

record ('s, 'v) api_call =
  ac_request :: request
  ac_decode :: "Message \<Rightarrow> 's RepeError + 'v"

definition api_result :: "('s, 'v) api_call \<Rightarrow> 's RepeError + Message \<Rightarrow> 's RepeError + 'v" where
  "api_result api r = res_bind r (ac_decode api)"

definition pointer_request ::
    "string \<Rightarrow> nat option \<Rightarrow> (MessageBuilder \<Rightarrow> MessageBuilder) \<Rightarrow> request" where
  "pointer_request path timeout body_fn =
     \<lparr>rq_path = path, rq_query_format = query_format_u16 QF_JsonPointer, rq_timeout = timeout,
      rq_body_fn = body_fn\<rparr>"

definition call_typed_json_with_optional_timeout ::
    "('v, 's) codec \<Rightarrow> ('u, 's) codec \<Rightarrow> string \<Rightarrow> 'v \<Rightarrow> nat option \<Rightarrow> ('s, 'u) api_call" where
  "call_typed_json_with_optional_timeout cv cu path body timeout =
     \<lparr>ac_request = pointer_request path timeout (with_body_json (cd_to_json cv) body),
      ac_decode = decode_body (cd_invalid_utf8 cu) (cd_from_json cu) (cd_from_beve cu)\<rparr>"

definition call_typed_json where
  "call_typed_json cv cu path body = call_typed_json_with_optional_timeout cv cu path body None"

definition call_typed_json_with_timeout where
  "call_typed_json_with_timeout cv cu path body timeout =
     call_typed_json_with_optional_timeout cv cu path body (Some timeout)"

definition call_typed_beve_with_optional_timeout ::
    "('v, 's) codec \<Rightarrow> ('u, 's) codec \<Rightarrow> string \<Rightarrow> 'v \<Rightarrow> nat option \<Rightarrow> ('s, 'u) api_call" where
  "call_typed_beve_with_optional_timeout cv cu path body timeout =
     \<lparr>ac_request = pointer_request path timeout (with_body_beve (cd_to_beve cv) body),
      ac_decode = decode_body (cd_invalid_utf8 cu) (cd_from_json cu) (cd_from_beve cu)\<rparr>"

definition call_typed_beve where
  "call_typed_beve cv cu path body = call_typed_beve_with_optional_timeout cv cu path body None"

definition call_typed_beve_with_timeout where
  "call_typed_beve_with_timeout cv cu path body timeout =
     call_typed_beve_with_optional_timeout cv cu path body (Some timeout)"

definition call_typed_slice_with_optional_timeout ::
    "('t list, 's) codec \<Rightarrow> ('u list, 's) codec \<Rightarrow> string \<Rightarrow> 't list \<Rightarrow> nat option \<Rightarrow> ('s, 'u list) api_call" where
  "call_typed_slice_with_optional_timeout cv cu path body timeout =
     \<lparr>ac_request = pointer_request path timeout (with_body_typed_slice (cd_to_beve cv) body),
      ac_decode = decode_typed_slice (cd_from_beve cu)\<rparr>"

definition call_typed_slice where
  "call_typed_slice cv cu path body = call_typed_slice_with_optional_timeout cv cu path body None"

definition call_typed_slice_with_timeout where
  "call_typed_slice_with_timeout cv cu path body timeout =
     call_typed_slice_with_optional_timeout cv cu path body (Some timeout)"

definition call_typed_slice_aligned_with_optional_timeout ::
    "(nat \<Rightarrow> 't list \<Rightarrow> bytes) \<Rightarrow> ('u list, 's) codec \<Rightarrow> string \<Rightarrow> 't list \<Rightarrow> nat option
      \<Rightarrow> ('s, 'u list) api_call" where
  "call_typed_slice_aligned_with_optional_timeout to_beve_aligned_at cu path body timeout =
     \<lparr>ac_request = pointer_request path timeout (with_body_aligned_typed_slice to_beve_aligned_at body),
      ac_decode = decode_typed_slice (cd_from_beve cu)\<rparr>"

definition call_typed_slice_aligned where
  "call_typed_slice_aligned to_beve_aligned_at cu path body =
     call_typed_slice_aligned_with_optional_timeout to_beve_aligned_at cu path body None"

definition call_typed_slice_aligned_with_timeout where
  "call_typed_slice_aligned_with_timeout to_beve_aligned_at cu path body timeout =
     call_typed_slice_aligned_with_optional_timeout to_beve_aligned_at cu path body (Some timeout)"

text \<open>The body of the low-level methods: raw bytes if any, under the caller's format code.\<close>

definition formats_body :: "bytes option \<Rightarrow> u16 \<Rightarrow> MessageBuilder \<Rightarrow> MessageBuilder" where
  "formats_body body body_format b =
     (case body of
        Some bs \<Rightarrow> with_body_format_code body_format (with_body_bytes bs b)
      | None \<Rightarrow> with_body_format_code body_format b)"

definition call_message_with_formats_and_timeout ::
    "string \<Rightarrow> u16 \<Rightarrow> bytes option \<Rightarrow> u16 \<Rightarrow> nat option \<Rightarrow> ('s, Message) api_call" where
  "call_message_with_formats_and_timeout path query_format body body_format timeout =
     \<lparr>ac_request = \<lparr>rq_path = path, rq_query_format = query_format, rq_timeout = timeout,
        rq_body_fn = formats_body body body_format\<rparr>,
      ac_decode = Inr\<rparr>"

definition call_message :: "string \<Rightarrow> ('s, Message) api_call" where
  "call_message path =
     call_message_with_formats_and_timeout path (query_format_u16 QF_JsonPointer) None
       (body_format_u16 BF_RawBinary) None"

definition call_message_with_timeout :: "string \<Rightarrow> nat \<Rightarrow> ('s, Message) api_call" where
  "call_message_with_timeout path timeout =
     call_message_with_formats_and_timeout path (query_format_u16 QF_JsonPointer) None
       (body_format_u16 BF_RawBinary) (Some timeout)"

definition call_with_formats :: "string \<Rightarrow> u16 \<Rightarrow> bytes option \<Rightarrow> u16 \<Rightarrow> ('s, Message) api_call" where
  "call_with_formats path query_format body body_format =
     call_message_with_formats_and_timeout path query_format body body_format None"

definition call_with_formats_and_timeout ::
    "string \<Rightarrow> u16 \<Rightarrow> bytes option \<Rightarrow> u16 \<Rightarrow> nat \<Rightarrow> ('s, Message) api_call" where
  "call_with_formats_and_timeout path query_format body body_format timeout =
     call_message_with_formats_and_timeout path query_format body body_format (Some timeout)"

definition registry_read_typed :: "('v, 's) codec \<Rightarrow> string \<Rightarrow> ('s, 'v) api_call" where
  "registry_read_typed cv path =
     (let api = call_message path :: ('s, Message) api_call
      in \<lparr>ac_request = ac_request api, ac_decode = (\<lambda>m.
        res_bind (ac_decode api m) (json_body (cd_invalid_utf8 cv) (cd_from_json cv)))\<rparr>)"

definition registry_read_typed_with_timeout :: "('v, 's) codec \<Rightarrow> string \<Rightarrow> nat \<Rightarrow> ('s, 'v) api_call" where
  "registry_read_typed_with_timeout cv path timeout =
     (let api = call_message_with_timeout path timeout :: ('s, Message) api_call
      in \<lparr>ac_request = ac_request api, ac_decode = (\<lambda>m.
        res_bind (ac_decode api m) (json_body (cd_invalid_utf8 cv) (cd_from_json cv)))\<rparr>)"

text \<open>Notifications: allocate an id, write, and expect nothing. \<open>write\<close> is \<^verbatim>\<open>write_request\<close>.\<close>

definition notify_with_builder ::
    "(Message \<Rightarrow> ('w, 's RepeError, unit) io) \<Rightarrow> string \<Rightarrow> u16 \<Rightarrow> (MessageBuilder \<Rightarrow> MessageBuilder)
      \<Rightarrow> (('w, 'r, 's) ClientState, 's RepeError, unit) io" where
  "notify_with_builder write path query_format body_fn s =
     (case next_request_id s of
        (rid, s) \<Rightarrow>
          (case write (notify_message rid \<lparr>rq_path = path, rq_query_format = query_format,
                  rq_timeout = None, rq_body_fn = body_fn\<rparr>) (cs_writer s) of
             None \<Rightarrow> None
           | Some (x, w) \<Rightarrow> Some (x, s\<lparr>cs_writer := w\<rparr>)))"

definition notify_with_body where
  "notify_with_body write path body_fn =
     notify_with_builder write path (query_format_u16 QF_JsonPointer) body_fn"

definition notify_json where
  "notify_json write cv path body = notify_with_body write path (with_body_json (cd_to_json cv) body)"

definition notify_beve where
  "notify_beve write cv path body = notify_with_body write path (with_body_beve (cd_to_beve cv) body)"

definition notify_with_message_formats where
  "notify_with_message_formats write path query_format body body_format =
     notify_with_builder write path query_format (formats_body body body_format)"

definition notify_with_formats where
  "notify_with_formats write path query_format body body_format =
     notify_with_message_formats write path query_format body body_format"

section \<open>Batches\<close>

definition MAX_BATCH_WORKERS :: nat where
  "MAX_BATCH_WORKERS = 64"

text \<open>\<open>parallelism\<close> is what \<^verbatim>\<open>available_parallelism\<close> returned.\<close>

definition batch_worker_count :: "nat \<Rightarrow> nat option \<Rightarrow> nat \<Rightarrow> nat" where
  "batch_worker_count usize_max parallelism request_count =
     (if request_count = 0 then 0
      else let parallelism = (case parallelism of Some count \<Rightarrow> count | None \<Rightarrow> 1);
               cap = max 1 (min MAX_BATCH_WORKERS (min usize_max (parallelism * 4)))
           in min request_count cap)"

definition batch_worker_panic_error :: "'s RepeError" where
  "batch_worker_panic_error = RE_Io (IoError K_Other ''batch worker panicked'')"

definition batch_worker_missing_result_error :: "'s RepeError" where
  "batch_worker_missing_result_error = RE_Io (IoError K_Other ''batch worker missing result'')"

text \<open>
  The pool: a worker takes the next request off the shared queue, makes the call,
  and stores its result in the slot of the request; with the queue empty it stops. \<open>returns
  q x\<close> is that the call for \<open>q\<close> may return \<open>x\<close>. \<open>bt_taken\<close> records the indices
  taken, in order.
\<close>

datatype 'q worker = W_Idle | W_Busy nat 'q | W_Stopped | W_Panicked

record ('q, 'x) Batch =
  bt_queue :: "(nat \<times> 'q) list"
  bt_results :: "'x option list"
  bt_workers :: "'q worker list"
  bt_taken :: "nat list"

definition batch_start :: "nat \<Rightarrow> 'q list \<Rightarrow> ('q, 'x) Batch" where
  "batch_start worker_count requests =
     \<lparr>bt_queue = zip [0..<length requests] requests,
      bt_results = replicate (length requests) None,
      bt_workers = replicate worker_count W_Idle, bt_taken = []\<rparr>"

inductive batch_step :: "('q \<Rightarrow> 'x \<Rightarrow> bool) \<Rightarrow> ('q, 'x) Batch \<Rightarrow> nat \<Rightarrow> ('q, 'x) Batch \<Rightarrow> bool"
  for returns :: "'q \<Rightarrow> 'x \<Rightarrow> bool" where
  take_next: "i < length (bt_workers b) \<Longrightarrow> bt_workers b ! i = W_Idle \<Longrightarrow>
    bt_queue b = (index, q) # rest \<Longrightarrow>
    batch_step returns b i (b\<lparr>bt_queue := rest, bt_workers := (bt_workers b)[i := W_Busy index q],
      bt_taken := bt_taken b @ [index]\<rparr>)"
| no_more: "i < length (bt_workers b) \<Longrightarrow> bt_workers b ! i = W_Idle \<Longrightarrow> bt_queue b = [] \<Longrightarrow>
    batch_step returns b i (b\<lparr>bt_workers := (bt_workers b)[i := W_Stopped]\<rparr>)"
| store: "i < length (bt_workers b) \<Longrightarrow> bt_workers b ! i = W_Busy index q \<Longrightarrow> returns q x \<Longrightarrow>
    batch_step returns b i (b\<lparr>bt_results := (bt_results b)[index := Some x],
      bt_workers := (bt_workers b)[i := W_Idle]\<rparr>)"
| panicked: "i < length (bt_workers b) \<Longrightarrow> bt_workers b ! i = W_Busy index q \<Longrightarrow>
    batch_step returns b i (b\<lparr>bt_workers := (bt_workers b)[i := W_Panicked]\<rparr>)"

definition batch_joined :: "('q, 'x) Batch \<Rightarrow> bool" where
  "batch_joined b \<longleftrightarrow> set (bt_workers b) \<subseteq> {W_Stopped, W_Panicked}"

definition batch_collect :: "('q, 's RepeError + 'v) Batch \<Rightarrow> ('s RepeError + 'v) list" where
  "batch_collect b =
     map (\<lambda>entry. case entry of
            Some result \<Rightarrow> result
          | None \<Rightarrow> if W_Panicked \<in> set (bt_workers b) then Inl batch_worker_panic_error
                    else Inl batch_worker_missing_result_error) (bt_results b)"

text \<open>The lists \<^verbatim>\<open>batch_json_inner\<close> may return for a list of requests.\<close>

definition batch_json_inner ::
    "('q \<Rightarrow> 's RepeError + 'v \<Rightarrow> bool) \<Rightarrow> nat \<Rightarrow> 'q list \<Rightarrow> ('s RepeError + 'v) list \<Rightarrow> bool" where
  "batch_json_inner returns worker_count requests out \<longleftrightarrow>
     (if length requests = 0 then out = []
      else (\<exists>is b. steps (batch_step returns) (batch_start worker_count requests) is b
              \<and> batch_joined b \<and> out = batch_collect b))"

section \<open>The blocking client keeps the contract\<close>

lemma header_encode_not_empty: "header_encode h \<noteq> []"
  by (metis HEADER_SIZE_def length_header_encode list.size(3) zero_neq_numeral)

context byte_socket
begin

text \<open>A frame goes out whole and in order, or the call is told it did not.\<close>

lemma write_message_stream:
  "\<exists>x w' n. write_message (buf_write_all send) msg w = Some (x :: 's RepeError + unit, w') \<and> n \<le> length (message_to_vec msg)
     \<and> stream w' = stream w @ take n (message_to_vec msg) \<and> (isl x \<or> n = length (message_to_vec msg))"
proof -
  obtain x w' where x: "write_message (buf_write_all send) msg w = Some (x :: 's RepeError + unit, w')"
    "case x of Inr _ \<Rightarrow> stream w' = stream w @ message_to_vec msg
     | Inl _ \<Rightarrow> \<exists>done rest. message_to_vec msg = done @ rest \<and> stream w' = stream w @ done"
    using buffered.emits_message [of msg] unfolding buffered.emits_def by blast
  show ?thesis
  proof (cases x)
    case (Inl e)
    with x(2) obtain sent' rest where "message_to_vec msg = sent' @ rest" "stream w' = stream w @ sent'" by auto
    with x(1) Inl show ?thesis by (intro exI [of _ x] exI [of _ w'] exI [of _ "length sent'"]) auto
  next
    case (Inr u)
    with x show ?thesis by (intro exI [of _ x] exI [of _ w'] exI [of _ "length (message_to_vec msg)"]) auto
  qed
qed

lemma write_request_cases:
  "\<exists>x w' n. write_request lock_ok send msg w = Some (x :: 's RepeError + unit, w') \<and> n \<le> length (message_to_vec msg)
     \<and> stream w' = stream w @ take n (message_to_vec msg)
     \<and> (isl x \<or> n = length (message_to_vec msg) \<and> bw_buf w' = [])"
proof (cases lock_ok)
  case True
  obtain x w1 n where w1: "write_message (buf_write_all send) msg w = Some (x :: 's RepeError + unit, w1)"
    "n \<le> length (message_to_vec msg)" "stream w1 = stream w @ take n (message_to_vec msg)"
    "isl x \<or> n = length (message_to_vec msg)"
    using write_message_stream by blast
  obtain y w2 where w2: "flush_buf send w1 = Some (y, w2)" using flush_buf_total by blast
  show ?thesis
  proof (cases x)
    case (Inl e)
    with w1 True show ?thesis by (auto simp: write_request_def io_bind_def)
  next
    case (Inr u)
    with w1(4) have "n = length (message_to_vec msg)" by simp
    with w1 w2 Inr True flush_buf_stream [OF w2] flush_buf_empties [of w1 _ w2] show ?thesis
      by (cases y) (auto simp: write_request_def io_bind_def io_from_def buf_flush_def)
  qed
qed (auto simp: write_request_def io_result_def intro: exI [of _ 0])

text \<open>On a connection that was shut down every request fails.\<close>

lemma write_part_dead:
  assumes "writer_dead w" and "bw_buf w \<noteq> []"
  shows "\<exists>x w'. (if bs \<noteq> [] then io_from (buf_write_all send bs) else io_result (Inr ())) w
      = Some (x :: 's RepeError + unit, w') \<and> writer_dead w' \<and> (isl x \<or> bw_buf w' \<noteq> [])"
proof (cases "bs = []")
  case False
  from write_all_dead [OF assms(1) this] obtain x w' where
    "buf_write_all send bs w = Some (x, w')" "writer_dead w'" "isl x \<or> bw_buf w' \<noteq> []" by blast
  with False show ?thesis by (cases x) (auto simp: io_from_def)
qed (use assms in \<open>simp add: io_result_def\<close>)

lemma write_header_dead:
  assumes "writer_dead w"
  shows "\<exists>x w'. io_from (buf_write_all send (header_encode h)) w = Some (x :: 's RepeError + unit, w')
    \<and> writer_dead w' \<and> (isl x \<or> bw_buf w' \<noteq> [])"
proof -
  from write_all_dead [OF assms header_encode_not_empty] obtain x w' where
    "buf_write_all send (header_encode h) w = Some (x, w')" "writer_dead w'" "isl x \<or> bw_buf w' \<noteq> []"
    by blast
  then show ?thesis by (cases x) (auto simp: io_from_def)
qed

lemma bind_dead:
  assumes "\<exists>x w'. act w = Some (x :: 's RepeError + unit, w') \<and> writer_dead w' \<and> (isl x \<or> bw_buf w' \<noteq> [])"
    and "\<And>u w'. writer_dead w' \<Longrightarrow> bw_buf w' \<noteq> [] \<Longrightarrow>
      \<exists>x w''. k u w' = Some (x, w'') \<and> writer_dead w'' \<and> (isl x \<or> bw_buf w'' \<noteq> [])"
  shows "\<exists>x w'. io_bind act k w = Some (x :: 's RepeError + unit, w') \<and> writer_dead w' \<and> (isl x \<or> bw_buf w' \<noteq> [])"
proof -
  from assms(1) obtain x w' where x: "act w = Some (x, w')" "writer_dead w'" "isl x \<or> bw_buf w' \<noteq> []"
    by blast
  then show ?thesis using assms(2) [of w'] by (cases x) (auto simp: io_bind_def)
qed

lemma write_message_dead:
  assumes "writer_dead w"
  shows "\<exists>x w'. write_message (buf_write_all send) msg w = Some (x :: 's RepeError + unit, w')
    \<and> writer_dead w' \<and> (isl x \<or> bw_buf w' \<noteq> [])"
  unfolding write_message_def Let_def
  by (intro bind_dead write_header_dead [OF assms] write_part_dead) (auto simp: io_result_def)

lemma write_request_dead:
  assumes "writer_dead w"
  shows "\<exists>e w'. write_request lock_ok send msg w = Some (Inl e :: 's RepeError + unit, w') \<and> writer_dead w'"
proof (cases lock_ok)
  case True
  from write_message_dead [OF assms, of msg] obtain x w1 where
    w1: "write_message (buf_write_all send) msg w = Some (x :: 's RepeError + unit, w1)"
    "writer_dead w1" "isl x \<or> bw_buf w1 \<noteq> []" by blast
  show ?thesis
  proof (cases x)
    case (Inl e)
    with w1 True show ?thesis by (simp add: write_request_def io_bind_def)
  next
    case (Inr u)
    with w1(3) flush_buf_dead [OF w1(2)] obtain e w2 where
      "flush_buf send w1 = Some (Inl e, w2)" "writer_dead w2" by auto
    with w1 Inr True show ?thesis by (simp add: write_request_def io_bind_def io_from_def buf_flush_def)
  qed
qed (use assms in \<open>simp add: write_request_def io_result_def\<close>)

end

sublocale byte_socket \<subseteq> blocking: client_contract
    "blocking_ops usize_max dio pending_ok writer_ok send shut rd" writer_dead
  for usize_max dio pending_ok writer_ok rd
proof
  fix rid k p p' m w
  let ?ops = "blocking_ops usize_max dio pending_ok writer_ok send shut rd"
  show "op_register ?ops rid k p = Inr p' \<Longrightarrow> p' = pending_insert rid k p"
    by (simp add: blocking_ops_def client_register_def split: if_splits)
  show "op_remove ?ops rid p = p \<or> op_remove ?ops rid p = pending_remove rid p"
    by (simp add: blocking_ops_def remove_pending_def)
  show "op_settle ?ops rid p = p \<or> op_settle ?ops rid p = pending_remove rid p"
    by (simp add: blocking_ops_def)
  show "op_write ?ops m w \<noteq> None"
    using write_request_cases [of writer_ok m w] by (auto simp: blocking_ops_def)
  show "writer_dead w \<Longrightarrow> \<exists>e w'. op_write ?ops m w = Some (Inl e, w') \<and> writer_dead w'"
    using write_request_dead by (simp add: blocking_ops_def)
  show "writer_dead (op_shut ?ops w)"
    by (simp add: blocking_ops_def shutdown_writer_def writer_dead_def shut_dead)
qed

section \<open>Batches keep their order\<close>

text \<open>The queue is taken from the front, each request once.\<close>

definition queue_ok :: "'q list \<Rightarrow> ('q, 'x) Batch \<Rightarrow> bool" where
  "queue_ok requests b \<longleftrightarrow> (\<exists>t\<le>length requests. bt_taken b = [0..<t] \<and>
     bt_queue b = drop t (zip [0..<length requests] requests))"

text \<open>A slot is filled by a call for its request; one that is taken and not filled has a worker on it.\<close>

definition slots_ok :: "('q \<Rightarrow> 'x \<Rightarrow> bool) \<Rightarrow> 'q list \<Rightarrow> nat \<Rightarrow> ('q, 'x) Batch \<Rightarrow> bool" where
  "slots_ok returns requests n b \<longleftrightarrow>
     length (bt_results b) = length requests \<and> length (bt_workers b) = n \<and>
     (\<forall>i<length requests. \<forall>x. bt_results b ! i = Some x \<longrightarrow> returns (requests ! i) x) \<and>
     (\<forall>i q. W_Busy i q \<in> set (bt_workers b) \<longrightarrow> i < length requests \<and> q = requests ! i) \<and>
     (\<forall>i\<in>set (bt_taken b). bt_results b ! i = None \<longrightarrow>
        W_Busy i (requests ! i) \<in> set (bt_workers b) \<or> W_Panicked \<in> set (bt_workers b)) \<and>
     (W_Stopped \<in> set (bt_workers b) \<longrightarrow> bt_queue b = [])"

definition batch_ok :: "('q \<Rightarrow> 'x \<Rightarrow> bool) \<Rightarrow> 'q list \<Rightarrow> nat \<Rightarrow> ('q, 'x) Batch \<Rightarrow> bool" where
  "batch_ok returns requests n b \<longleftrightarrow> queue_ok requests b \<and> slots_ok returns requests n b"

lemma batch_ok_start: "batch_ok returns requests worker_count (batch_start worker_count requests)"
  by (auto simp: batch_ok_def queue_ok_def slots_ok_def batch_start_def)

lemma in_set_update: "w \<in> set (ws[i := v]) \<Longrightarrow> w = v \<or> w \<in> set ws"
  using set_update_subset_insert by fastforce

text \<open>Replacing a worker keeps the others.\<close>

lemma keeps_others:
  "i < length ws \<Longrightarrow> w \<in> set ws \<Longrightarrow> w \<noteq> ws ! i \<Longrightarrow> w \<in> set (ws[i := v])"
  by (metis in_set_conv_nth length_list_update nth_list_update_neq)

lemma sets_new: "i < length ws \<Longrightarrow> v \<in> set (ws[i := v])"
  by (simp add: set_update_memI)

lemma queue_head:
  assumes "queue_ok requests b" and "bt_queue b = (index, q) # rest"
  shows "index < length requests \<and> q = requests ! index \<and> bt_taken b = [0..<index]
    \<and> rest = drop (Suc index) (zip [0..<length requests] requests)"
proof -
  let ?z = "zip [0..<length requests] requests"
  from assms obtain t where t: "bt_taken b = [0..<t]" "(index, q) # rest = drop t ?z"
    unfolding queue_ok_def by auto
  then have lt: "t < length ?z" by (metis drop_all list.distinct(1) not_le)
  then have "drop t ?z = ?z ! t # drop (Suc t) ?z" by (rule Cons_nth_drop_Suc [symmetric])
  with t lt show ?thesis by simp
qed

lemma queue_ok_step:
  assumes "batch_step returns b i b'" and "queue_ok requests b"
  shows "queue_ok requests b'"
  using assms(1)
proof cases
  case (take_next index q rest)
  with queue_head [OF assms(2) take_next(4)] show ?thesis
    unfolding queue_ok_def by (intro exI [of _ "Suc index"]) simp
qed (use assms(2) in \<open>auto simp: queue_ok_def\<close>)

lemma slots_okD:
  assumes "slots_ok returns requests n b"
  shows "length (bt_results b) = length requests" and "length (bt_workers b) = n"
    and "i < length requests \<Longrightarrow> bt_results b ! i = Some x \<Longrightarrow> returns (requests ! i) x"
    and "W_Busy i q \<in> set (bt_workers b) \<Longrightarrow> i < length requests \<and> q = requests ! i"
    and "i \<in> set (bt_taken b) \<Longrightarrow> bt_results b ! i = None \<Longrightarrow>
      W_Busy i (requests ! i) \<in> set (bt_workers b) \<or> W_Panicked \<in> set (bt_workers b)"
    and "W_Stopped \<in> set (bt_workers b) \<Longrightarrow> bt_queue b = []"
  using assms unfolding slots_ok_def by blast+

text \<open>A worker moves from one state to another.\<close>

lemma slots_ok_replace:
  assumes ok: "slots_ok returns requests n b" and i: "i < length (bt_workers b)"
    and b': "bt_workers b' = (bt_workers b)[i := v]" "length (bt_results b') = length requests"
    and res: "\<And>j x. j < length requests \<Longrightarrow> bt_results b' ! j = Some x \<Longrightarrow>
      bt_results b ! j = Some x \<or> returns (requests ! j) x"
    and busy: "\<And>j q. v = W_Busy j q \<Longrightarrow> j < length requests \<and> q = requests ! j"
    and unfilled: "\<And>j. j \<in> set (bt_taken b') \<Longrightarrow> bt_results b' ! j = None \<Longrightarrow>
      v = W_Busy j (requests ! j) \<or> v = W_Panicked \<or>
      j \<in> set (bt_taken b) \<and> bt_results b ! j = None
        \<and> bt_workers b ! i \<noteq> W_Busy j (requests ! j) \<and> bt_workers b ! i \<noteq> W_Panicked"
    and stopped: "v = W_Stopped \<or> W_Stopped \<in> set (bt_workers b) \<Longrightarrow> bt_queue b' = []"
  shows "slots_ok returns requests n b'"
  unfolding slots_ok_def
proof (intro conjI allI ballI impI)
  fix j x q
  show "returns (requests ! j) x" if "j < length requests" "bt_results b' ! j = Some x"
    using res [OF that] slots_okD(3) [OF ok that(1)] by blast
  show "j < length requests" "q = requests ! j" if "W_Busy j q \<in> set (bt_workers b')"
    using that in_set_update [of "W_Busy j q" "bt_workers b" i v] busy slots_okD(4) [OF ok] by (auto simp: b')
  show "W_Busy j (requests ! j) \<in> set (bt_workers b') \<or> W_Panicked \<in> set (bt_workers b')"
    if "j \<in> set (bt_taken b')" "bt_results b' ! j = None"
    using unfilled [OF that] sets_new [OF i, of v] keeps_others [OF i, of _ v] slots_okD(5) [OF ok, of j]
    unfolding b' by metis
next
  show "bt_queue b' = []" if "W_Stopped \<in> set (bt_workers b')"
    using that in_set_update [of W_Stopped "bt_workers b" i v] stopped by (auto simp: b')
qed (use slots_okD(2) [OF ok] b' in simp_all)

lemma slots_ok_step:
  assumes "batch_step returns b i b'" and "queue_ok requests b" and ok: "slots_ok returns requests n b"
  shows "slots_ok returns requests n b'"
  using assms(1)
proof cases
  case (take_next index q rest)
  then show ?thesis
    using queue_head [OF assms(2) take_next(4)] slots_okD(1,6) [OF ok]
    by (intro slots_ok_replace [OF ok take_next(2)]) auto
next
  case no_more
  then show ?thesis using slots_okD(1) [OF ok] by (intro slots_ok_replace [OF ok no_more(2)]) auto
next
  case (store index q x)
  then have "W_Busy index q \<in> set (bt_workers b)" by (metis nth_mem)
  with store slots_okD(1,4,6) [OF ok] show ?thesis
    by (intro slots_ok_replace [OF ok store(2)]) (auto simp: nth_list_update split: if_splits)
next
  case (panicked index q)
  then show ?thesis using slots_okD(1,6) [OF ok] by (intro slots_ok_replace [OF ok panicked(2)]) auto
qed

lemma batch_ok_step: "batch_step returns b i b' \<Longrightarrow> batch_ok returns requests n b \<Longrightarrow> batch_ok returns requests n b'"
  unfolding batch_ok_def using queue_ok_step slots_ok_step by blast

lemma batch_ok_steps:
  "steps (batch_step returns) b is b' \<Longrightarrow> batch_ok returns requests n b \<Longrightarrow> batch_ok returns requests n b'"
  by (induction rule: steps.induct) (auto intro: batch_ok_step)

lemma batch_joined_result:
  assumes "batch_ok returns requests n b" and "batch_joined b" and "n > 0" and "i < length requests"
  shows "case bt_results b ! i of Some x \<Rightarrow> returns (requests ! i) x | None \<Rightarrow> W_Panicked \<in> set (bt_workers b)"
proof (cases "bt_results b ! i")
  case None
  have "W_Panicked \<in> set (bt_workers b)"
  proof (rule ccontr)
    assume no_panic: "W_Panicked \<notin> set (bt_workers b)"
    have ok: "slots_ok returns requests n b" "queue_ok requests b" using assms(1) by (simp_all add: batch_ok_def)
    then have "length (bt_workers b) = n" by (simp add: slots_ok_def)
    with assms(3) obtain w where "w \<in> set (bt_workers b)" by (cases "bt_workers b") auto
    with no_panic assms(2) have "W_Stopped \<in> set (bt_workers b)" by (auto simp: batch_joined_def)
    with ok(1) have "bt_queue b = []" by (simp add: slots_ok_def)
    with ok(2) have "bt_taken b = [0..<length requests]" by (auto simp: queue_ok_def)
    with ok(1) assms(4) None no_panic have "W_Busy i (requests ! i) \<in> set (bt_workers b)"
      by (auto simp: slots_ok_def)
    with assms(2) show False by (auto simp: batch_joined_def)
  qed
  with None show ?thesis by simp
next
  case (Some x)
  with assms(1,4) show ?thesis by (simp add: batch_ok_def slots_ok_def)
qed

text \<open>Every step brings the pool nearer to its end.\<close>

fun worker_work :: "'q worker \<Rightarrow> nat" where
  "worker_work W_Idle = 1"
| "worker_work (W_Busy i q) = 2"
| "worker_work W_Stopped = 0"
| "worker_work W_Panicked = 0"

definition batch_work :: "('q, 'x) Batch \<Rightarrow> nat" where
  "batch_work b = 2 * length (bt_queue b) + (\<Sum>w\<leftarrow>bt_workers b. worker_work w)"

lemma worker_work_update:
  "i < length ws \<Longrightarrow> (\<Sum>w\<leftarrow>ws[i := v]. worker_work w) + worker_work (ws ! i)
     = (\<Sum>w\<leftarrow>ws. worker_work w) + worker_work v"
  by (induction ws arbitrary: i) (auto split: nat.split)

lemma batch_work_step: "batch_step returns b i b' \<Longrightarrow> batch_work b' < batch_work b"
proof (induction rule: batch_step.induct)
  case (take_next i b index q rest)
  then show ?case using worker_work_update [of i "bt_workers b" "W_Busy index q"] by (simp add: batch_work_def)
next
  case (no_more i b)
  then show ?case using worker_work_update [of i "bt_workers b" W_Stopped] by (simp add: batch_work_def)
next
  case (store i b index q x)
  then show ?case using worker_work_update [of i "bt_workers b" W_Idle] by (simp add: batch_work_def)
next
  case (panicked i b index q)
  then show ?case using worker_work_update [of i "bt_workers b" W_Panicked] by (simp add: batch_work_def)
qed

lemma batch_work_steps: "steps (batch_step returns) b is b' \<Longrightarrow> length is + batch_work b' \<le> batch_work b"
  by (induction rule: steps.induct) (auto dest: batch_work_step)

lemma batch_work_start: "batch_work (batch_start n requests) = 2 * length requests + n"
  by (simp add: batch_work_def batch_start_def map_replicate sum_list_replicate)

lemma batch_not_stuck:
  assumes "\<not> batch_joined b" and "\<And>q. \<exists>x. returns q x"
  shows "\<exists>i b'. batch_step returns b i b'"
proof -
  from assms(1) obtain i where i: "i < length (bt_workers b)" "bt_workers b ! i \<noteq> W_Stopped"
    "bt_workers b ! i \<noteq> W_Panicked"
    unfolding batch_joined_def by (metis in_set_conv_nth insertI1 insertI2 subsetI)
  show ?thesis
  proof (cases "bt_workers b ! i")
    case W_Idle
    show ?thesis
    proof (cases "bt_queue b")
      case Nil
      then show ?thesis using batch_step.no_more [OF i(1) W_Idle] by blast
    next
      case (Cons e rest)
      obtain index q where "e = (index, q)" by (cases e)
      with Cons have "bt_queue b = (index, q) # rest" by simp
      from batch_step.take_next [OF i(1) W_Idle this] show ?thesis by blast
    qed
  next
    case (W_Busy index q)
    then show ?thesis using i(1) assms(2) by (blast intro: batch_step.store)
  qed (use i in auto)
qed

section \<open>Properties of the blocking client\<close>

text \<open>
  An example connection: two calls are made, the peer answers the first and then
  closes the stream.
\<close>

definition sample_request :: request where
  "sample_request = pointer_request '''' None (\<lambda>b. b)"

definition sample_response :: Message where
  "sample_response = build (with_id 1 builder)"

definition sample_socket :: Tcp where
  "sample_socket = \<lparr>tcp_sent = [], tcp_open = True, tcp_room = []\<rparr>"

definition sample_ops :: "(Tcp BufWriter, bytes, unit) client_ops" where
  "sample_ops = blocking_ops 65535 (\<lambda>_. '''') True True tcp_send tcp_shut slice_read"

lemma sample_response_wf: "wf_message 65535 sample_response"
  unfolding sample_response_def by (rule build_wf) (simp_all add: builder_defs HEADER_SIZE_def)

lemma sample_read:
  "read_response 65535 slice_read (message_to_vec sample_response)
     = Some (Read_Message sample_response :: unit read_result, [])"
  using exact_source.read_frame_ok [OF byte_source.read_exact_is_exact [OF slice_src.byte_source_axioms]
      sample_response_wf, of "message_to_vec sample_response" "[]", where 's = unit]
  by (auto simp: read_response_def read_message_as_async)

lemma sample_read_eof:
  "\<exists>r. read_response 65535 slice_read [] = Some (Read_Failed (RE_Io UnexpectedEof) :: unit read_result, r)"
  using exact_source.read_frame_truncated [OF byte_source.read_exact_is_exact [OF slice_src.byte_source_axioms]
      sample_response_wf, of "[]" "message_to_vec sample_response", where 's = unit]
  by (auto simp: read_response_def read_message_as_async to_vec_append header_encode_not_empty)

lemma sample_write:
  assumes "tcp_open (bw_inner w)" and "tcp_room (bw_inner w) = []" and "bw_buf w = []" and "bw_capacity w = 8192"
  shows "\<exists>w'. write_request True tcp_send (request_message rid sample_request) w
      = Some (Inr () :: unit RepeError + unit, w')
    \<and> tcp_open (bw_inner w') \<and> tcp_room (bw_inner w') = [] \<and> bw_buf w' = [] \<and> bw_capacity w' = 8192"
  using assms
  by (simp add: write_request_def write_message_def request_message_def sample_request_def pointer_request_def
      builder_defs as_bytes_def io_bind_def io_from_def io_result_def buf_write_all_def buf_push_def buf_flush_def
      flush_buf_def tcp_send_def HEADER_SIZE_def header_encode_not_empty)

interpretation sample_client: client_contract sample_ops tcp.writer_dead
  unfolding sample_ops_def by (rule tcp.blocking.client_contract_axioms)

lemma sample_ops_fields:
  "op_register sample_ops rid k p = Inr (pending_insert rid k p)"
  "op_write sample_ops = write_request True tcp_send"
  "op_read sample_ops = read_response 65535 slice_read"
  "op_routes sample_ops m"
  by (simp_all add: sample_ops_def blocking_ops_def client_register_def)

lemma sample_response_answers:
  "h_id (m_header sample_response) = 1" "validate_response 1 sample_response = Inr sample_response"
  by (simp_all add: sample_response_def validate_response_def builder_defs build_def)

lemma sample_run:
  "\<exists>s c0 c1. reachable connected (client_step sample_ops) s \<and> cs_loop s = R_Failed (RE_Io UnexpectedEof)
    \<and> cs_calls s 0 = Some c0 \<and> ca_phase c0 = Done (Inr sample_response) \<and> ca_id c0 = 1
    \<and> cs_calls s 1 = Some c1 \<and> ca_phase c1 = Waiting \<and> pd_map (cs_pending s) 2 = Some 1"
proof -
  obtain w1 where w1: "write_request True tcp_send (request_message 1 sample_request) (bufwriter_new sample_socket)
      = Some (Inr () :: unit RepeError + unit, w1)"
    "tcp_open (bw_inner w1)" "tcp_room (bw_inner w1) = []" "bw_buf w1 = []" "bw_capacity w1 = 8192"
    using sample_write [of "bufwriter_new sample_socket" 1] by (auto simp: bufwriter_new_def sample_socket_def)
  obtain w2 where w2: "write_request True tcp_send (request_message 2 sample_request) w1
      = Some (Inr () :: unit RepeError + unit, w2)"
    using sample_write [OF w1(2-5), of 2] by blast
  obtain r where eof: "read_response 65535 slice_read [] = Some (Read_Failed (RE_Io UnexpectedEof) :: unit read_result, r)"
    using sample_read_eof by blast
  show ?thesis
    by (rule sample_client.two_calls [of sample_request "bufwriter_new sample_socket" w1 w2
          "message_to_vec sample_response" sample_response "[]" "RE_Io UnexpectedEof" r])
      (simp_all add: sample_ops_fields w1(1) w2 sample_read eof sample_response_answers)
qed

context byte_socket
begin

lemma blocking_contract:
  "client_contract (blocking_ops usize_max dio pending_ok writer_ok send shut rd) writer_dead"
  by (rule blocking.client_contract_axioms)

end

text \<open>
  C4. However the calls of the threads and the response loop interleave, and whatever the
  peer sends, a call that returns a response returns one the loop read from this connection, of this
  protocol version, carrying the id the call sent and no error code: no call is given
  another's answer.
\<close>

theorem client_response_is_own:
  assumes "byte_socket send shut sent dead"
    and "reachable connected (client_step (blocking_ops usize_max dio pending_ok writer_ok send shut rd)) s"
    and "cs_calls s k = Some c" and "ca_phase c = Done (Inr m)"
  shows "m \<in> set (cs_log s) \<and> h_id (m_header m) = ca_id c \<and> h_version (m_header m) = REPE_VERSION
    \<and> h_ec (m_header m) = error_code_u32 EC_Ok"
proof -
  note blocking = byte_socket.blocking_contract [OF assms(1)]
  have "ca_check c = validate_response"
    by (rule client_contract.validates_unless_forwarding [OF blocking assms(2) _ assms(3)])
      (simp add: blocking_ops_def)
  with client_contract.response_is_own [OF blocking assms(2-4)] show ?thesis by blast
qed

theorem client_response_is_own_witness:
  "\<exists>s c. cs_calls s 0 = Some c \<and> ca_phase c = Done (Inr sample_response)
    \<and> reachable connected (client_step sample_ops) s
    \<and> sample_response \<in> set (cs_log s) \<and> h_id (m_header sample_response) = ca_id c"
proof -
  obtain s c0 c1 where s: "reachable connected (client_step sample_ops) s" "cs_calls s 0 = Some c0"
    "ca_phase c0 = Done (Inr sample_response)" using sample_run by blast
  with client_response_is_own [OF tcp.byte_socket_axioms s(1) [unfolded sample_ops_def] s(2,3)]
  show ?thesis by blast
qed




text \<open>Two workers on two requests; the second request is answered first.\<close>

lemma sample_batch:
  "batch_json_inner (\<lambda>q x. x = (Inr (q * 10) :: unit RepeError + nat))
     (batch_worker_count 65535 (Some 1) (length [7, 8 :: nat])) [7, 8] [Inr 70, Inr 80]"
proof -
  let ?ret = "\<lambda>q x. x = (Inr (q * 10) :: unit RepeError + nat)"
  let ?b = "\<lambda>queue res ws ts. \<lparr>bt_queue = queue, bt_results = res, bt_workers = ws, bt_taken = ts\<rparr>"
  have count: "batch_worker_count 65535 (Some 1) (length [7, 8 :: nat]) = 2"
    by (simp add: batch_worker_count_def MAX_BATCH_WORKERS_def)
  have start: "batch_start 2 [7, 8] = ?b [(0, 7), (1, 8)] [None, None] [W_Idle, W_Idle] []"
    by (simp add: batch_start_def upt_conv_Cons numeral_2_eq_2)
  have "batch_step ?ret (?b [(0, 7), (1, 8)] [None, None] [W_Idle, W_Idle] []) 0
      (?b [(1, 8)] [None, None] [W_Busy 0 7, W_Idle] [0])"
    using batch_step.take_next [of 0 "?b [(0, 7), (1, 8)] [None, None] [W_Idle, W_Idle] []" 0 7 "[(1, 8)]" ?ret]
    by simp
  moreover have "batch_step ?ret (?b [(1, 8)] [None, None] [W_Busy 0 7, W_Idle] [0]) 1
      (?b [] [None, None] [W_Busy 0 7, W_Busy 1 8] [0, 1])"
    using batch_step.take_next [of 1 "?b [(1, 8)] [None, None] [W_Busy 0 7, W_Idle] [0]" 1 8 "[]" ?ret] by simp
  moreover have "batch_step ?ret (?b [] [None, None] [W_Busy 0 7, W_Busy 1 8] [0, 1]) 1
      (?b [] [None, Some (Inr 80)] [W_Busy 0 7, W_Idle] [0, 1])"
    using batch_step.store [of 1 "?b [] [None, None] [W_Busy 0 7, W_Busy 1 8] [0, 1]" 1 8 ?ret] by simp
  moreover have "batch_step ?ret (?b [] [None, Some (Inr 80)] [W_Busy 0 7, W_Idle] [0, 1]) 1
      (?b [] [None, Some (Inr 80)] [W_Busy 0 7, W_Stopped] [0, 1])"
    using batch_step.no_more [of 1 "?b [] [None, Some (Inr 80)] [W_Busy 0 7, W_Idle] [0, 1]" ?ret] by simp
  moreover have "batch_step ?ret (?b [] [None, Some (Inr 80)] [W_Busy 0 7, W_Stopped] [0, 1]) 0
      (?b [] [Some (Inr 70), Some (Inr 80)] [W_Idle, W_Stopped] [0, 1])"
    using batch_step.store [of 0 "?b [] [None, Some (Inr 80)] [W_Busy 0 7, W_Stopped] [0, 1]" 0 7 ?ret] by simp
  moreover have "batch_step ?ret (?b [] [Some (Inr 70), Some (Inr 80)] [W_Idle, W_Stopped] [0, 1]) 0
      (?b [] [Some (Inr 70), Some (Inr 80)] [W_Stopped, W_Stopped] [0, 1])"
    using batch_step.no_more [of 0 "?b [] [Some (Inr 70), Some (Inr 80)] [W_Idle, W_Stopped] [0, 1]" ?ret] by simp
  ultimately have "steps (batch_step ?ret) (batch_start 2 [7, 8]) [0, 1, 1, 1, 0, 0]
      (?b [] [Some (Inr 70), Some (Inr 80)] [W_Stopped, W_Stopped] [0, 1])"
    unfolding start by (meson steps_Cons steps_Nil)
  moreover have "batch_joined (?b [] [Some (Inr 70), Some (Inr 80)] [W_Stopped, W_Stopped] [0, 1])"
    by (simp add: batch_joined_def)
  moreover have "[Inr 70, Inr 80] = batch_collect (?b [] [Some (Inr 70), Some (Inr 80 :: unit RepeError + nat)]
      [W_Stopped, W_Stopped] [0, 1])" by (simp add: batch_collect_def)
  ultimately show ?thesis unfolding batch_json_inner_def count by auto
qed


text \<open>
  C17. Every batch ends: with calls that return, no schedule of the workers gets stuck before all of
  them have stopped, and none runs for more than twice the number of requests plus
  the number of workers, of which there are between one and 64 and no more than requests.
\<close>

theorem batch_terminates:
  assumes "\<And>q. \<exists>x. returns q x" and "requests \<noteq> []"
    and "n = batch_worker_count usize_max parallelism (length requests)"
    and "steps (batch_step returns) (batch_start n requests) ks b"
  shows "length ks \<le> 2 * length requests + n \<and> 1 \<le> n \<and> n \<le> 64 \<and> n \<le> length requests
    \<and> (batch_joined b \<or> (\<exists>i b'. batch_step returns b i b'))"
proof -
  have "length ks \<le> 2 * length requests + n"
    using batch_work_steps [OF assms(4)] by (simp add: batch_work_start)
  moreover have "1 \<le> n \<and> n \<le> 64 \<and> n \<le> length requests"
    using assms(2,3) by (auto simp: batch_worker_count_def Let_def MAX_BATCH_WORKERS_def Suc_le_eq)
  ultimately show ?thesis using batch_not_stuck [of b returns] assms(1) by blast
qed

theorem batch_terminates_witness:
  "batch_worker_count 65535 (Some 1) 1 = 1 \<and>
    (\<exists>i b'. batch_step (\<lambda>(q :: nat) x. x = Inr q) (batch_start 1 [7]) i
       (b' :: (nat, unit RepeError + nat) Batch))"
proof -
  have n: "1 = batch_worker_count 65535 (Some 1) (length [7 :: nat])"
    by (simp add: batch_worker_count_def MAX_BATCH_WORKERS_def)
  have "\<not> batch_joined (batch_start 1 [7 :: nat] :: (nat, unit RepeError + nat) Batch)"
    by (simp add: batch_joined_def batch_start_def)
  with batch_terminates [of "\<lambda>(q :: nat) x. x = (Inr q :: unit RepeError + nat)", OF _ _ n steps_Nil]
  show ?thesis using n by auto
qed

section \<open>Two ways to lose the frame boundary\<close>

text \<open>
  The response loop retries a read that was interrupted. \<^verbatim>\<open>read_exact\<close> does not
  retry, so an interruption inside a frame discards the bytes already read and the
  next read starts in the middle of it: here a response whose first eight bytes
  arrive before the signal is lost, and the connection with it, although all of it arrived.
\<close>

fun script_read :: "nat \<Rightarrow> (io_error + bytes) list \<Rightarrow> (io_error + bytes) \<times> (io_error + bytes) list" where
  "script_read n [] = (Inr [], [])"
| "script_read n (Inl e # rest) = (Inl e, rest)"
| "script_read n (Inr seg # rest) =
     (if length seg \<le> n then (Inr seg, rest) else (Inr (take n seg), Inr (drop n seg) # rest))"

lemma read_exact_pos:
  "0 < n \<Longrightarrow> read_exact rd n r =
     (case rd n r of
        (Inl e, r') \<Rightarrow> Some (Inl e, r')
      | (Inr chunk, r') \<Rightarrow>
          if chunk = [] then Some (Inl UnexpectedEof, r')
          else if length chunk > n then None
          else (case read_exact rd (n - length chunk) r' of
                  None \<Rightarrow> None
                | Some (Inl e, r'') \<Rightarrow> Some (Inl e, r'')
                | Some (Inr rest, r'') \<Rightarrow> Some (Inr (chunk @ rest), r'')))"
  by (cases n) auto

theorem interrupted_read_loses_frame:
  "\<exists>r. read_response usize_max script_read
        [Inr (take 8 (message_to_vec sample_response)), Inl (OsError 4), Inr (drop 8 (message_to_vec sample_response))]
      = Some (Read_Skip :: 's read_result, r)
    \<and> read_response usize_max script_read r = Some (Read_Failed (RE_Io UnexpectedEof) :: 's read_result, [])"
proof -
  let ?f = "message_to_vec sample_response"
  have len: "length ?f = 48"
    by (simp add: serialized_len_def sample_response_def builder_defs HEADER_SIZE_def)
  have ne: "?f \<noteq> []" by (simp add: to_vec_append header_encode_not_empty)
  have ne': "drop 8 ?f \<noteq> []" using len by (simp del: length_to_vec)
  have "read_response usize_max script_read [Inr (take 8 ?f), Inl (OsError 4), Inr (drop 8 ?f)]
      = Some (Read_Skip :: 's read_result, [Inr (drop 8 ?f)])"
    using len ne ne' by (simp add: read_response_def read_message_def io_bind_def io_from_def HEADER_SIZE_def
        read_exact_pos errno_kind_def min_def)
  moreover have "read_response usize_max script_read [Inr (drop 8 ?f)]
      = Some (Read_Failed (RE_Io UnexpectedEof) :: 's read_result, [])"
    using len ne ne' by (simp add: read_response_def read_message_def io_bind_def io_from_def HEADER_SIZE_def
        read_exact_pos)
  ultimately show ?thesis by blast
qed

text \<open>
  A write timeout (\<^verbatim>\<open>set_write_timeout\<close>) that strikes while a large body is being
  sent leaves a part of the frame on the wire. The call reports the error, but the connection stays in use, and the next
  request is written after the part: the peer takes it for the rest of
  the first body.
\<close>

definition large_request :: Message where
  "large_request = build (with_body_bytes (replicate 8192 0) (with_id 1 builder))"

definition small_request :: Message where
  "small_request = build (with_id 2 builder)"

theorem write_timeout_splits_frames:
  "\<exists>w1 w2. write_request True tcp_send large_request
        (bufwriter_new \<lparr>tcp_sent = [], tcp_open = True, tcp_room = [48, 100]\<rparr>)
      = Some (Inl (RE_Io (OsError 11)) :: 's RepeError + unit, w1)
    \<and> write_request True tcp_send small_request w1 = Some (Inr () :: 's RepeError + unit, w2)
    \<and> tcp_sent (bw_inner w2) = take 148 (message_to_vec large_request) @ message_to_vec small_request
    \<and> next_frame usize_max (tcp_sent (bw_inner w2)) \<noteq> (Inr (m_header small_request) :: 's RepeError + Header)"
proof -
  let ?h1 = "header_encode (m_header large_request)" and ?h2 = "header_encode (m_header small_request)"
  have parts: "m_query large_request = []" "m_body large_request = replicate 8192 0"
    "m_query small_request = []" "m_body small_request = []"
    by (simp_all add: large_request_def small_request_def builder_defs)
  define k where "k = \<lparr>tcp_sent = ?h1 @ replicate 100 0, tcp_open = True, tcp_room = []\<rparr>"
  have "write_request True tcp_send large_request
        (bufwriter_new \<lparr>tcp_sent = [], tcp_open = True, tcp_room = [48, 100]\<rparr>)
      = Some (Inl (RE_Io (OsError 11)) :: 's RepeError + unit, bufwriter_new k)"
    by (simp add: write_request_def write_message_def parts io_bind_def io_from_def io_result_def buf_write_all_def
        buf_push_def buf_write_direct_def flush_buf_def tcp_send_def bufwriter_new_def HEADER_SIZE_def
        header_encode_not_empty k_def)
  moreover define k' where "k' = k\<lparr>tcp_sent := tcp_sent k @ ?h2\<rparr>"
  have "write_request True tcp_send small_request (bufwriter_new k)
      = Some (Inr () :: 's RepeError + unit, bufwriter_new k')"
    by (simp add: write_request_def write_message_def parts io_bind_def io_from_def io_result_def buf_write_all_def
        buf_push_def buf_flush_def flush_buf_def tcp_send_def bufwriter_new_def HEADER_SIZE_def
        header_encode_not_empty k_def k'_def)
  moreover have "tcp_sent k' = take 148 (message_to_vec large_request) @ message_to_vec small_request"
    by (simp add: k'_def k_def to_vec_append parts HEADER_SIZE_def)
  moreover have "next_frame usize_max (tcp_sent k') \<noteq> (Inr (m_header small_request) :: 's RepeError + Header)"
  proof
    assume "next_frame usize_max (tcp_sent k') = (Inr (m_header small_request) :: 's RepeError + Header)"
    from next_frame_Inr(2) [OF this] obtain rest where "?h1 @ replicate 100 0 @ ?h2 = ?h2 @ rest"
      by (auto simp: k'_def k_def)
    then have "?h1 = ?h2" by simp
    then have "m_header large_request = m_header small_request"
      by (metis header_fields_encode append_Nil2)
    then show False by (simp add: large_request_def small_request_def builder_defs build_def)
  qed
  ultimately show ?thesis by (auto simp: bufwriter_new_def)
qed

end
