(* ===== verification/Client_Table.thy ===== *)
theory Client_Table
  imports Client_Core
begin

text \<open>
  The pending table of a client holds no more than its calls in progress.

  A client that takes its registration out when it gives up keeps the table to the
  calls in progress, each with its channel still open and its sender nowhere else.
\<close>

locale clean_client = client_contract +
  assumes remove_exact: "op_remove ops rid p = pending_remove rid p"
begin

definition in_progress :: "'s phase \<Rightarrow> bool" where
  "in_progress ph \<longleftrightarrow> ph = Registered \<or> ph = Waiting \<or> (\<exists>e. ph = Abandoning e)"

definition inv_clean :: "('w, 'r, 's) ClientState \<Rightarrow> bool" where
  "inv_clean s \<longleftrightarrow>
     (\<forall>rid j. pd_map (cs_pending s) rid = Some j \<longrightarrow>
        (\<exists>c. cs_calls s j = Some c \<and> in_progress (ca_phase c))
        \<and> pd_chan (cs_pending s) j = Ch_Open \<and> \<not> held_by_loop j (cs_loop s)) \<and>
     (\<forall>j. held_by_loop j (cs_loop s) \<longrightarrow> (\<exists>rid. owns s j rid))"

lemma held_step:
  "client_step ops s a t \<Longrightarrow> held_by_loop j (cs_loop t) \<Longrightarrow>
     held_by_loop j (cs_loop s) \<or> (\<exists>rid. pd_map (cs_pending s) rid = Some j)"
  by (induction rule: client_step.induct)
    (auto simp: held_by_loop_def next_request_id_def dispatch_response_iff eq_commute [of "Some _"])

lemma table_injective:
  "inv_table s \<Longrightarrow> pd_map (cs_pending s) rid = Some j \<Longrightarrow> pd_map (cs_pending s) rid' = Some j \<Longrightarrow> rid = rid'"
  unfolding inv_table_def owns_def by (metis option.inject)

lemma table_live:
  "inv_table s \<Longrightarrow> pd_map (cs_pending s) rid = Some j \<Longrightarrow> \<exists>c. cs_calls s j = Some c \<and> ca_phase c \<noteq> Built"
  unfolding inv_table_def owns_def by blast

lemma table_id:
  "inv_table s \<Longrightarrow> pd_map (cs_pending s) rid = Some j \<Longrightarrow> cs_calls s j = Some c \<Longrightarrow> ca_id c = rid"
  unfolding inv_table_def owns_def by fastforce

lemma removed_entry:
  assumes "inv_table s" and "pd_map (pending_remove rid' (cs_pending s)) rid = Some j"
  shows "pd_map (cs_pending s) rid = Some j \<and> rid \<noteq> rid'
    \<and> pd_chan (pending_remove rid' (cs_pending s)) j = pd_chan (cs_pending s) j"
  using assms(2) table_injective [OF assms(1), of rid j rid'] by (auto split: if_splits)

text \<open>The entries a step leaves in the table were there before, or the step registered them.\<close>

lemma clean_entry_step:
  assumes "client_step ops s a t" and "inv_table s" and "inv_clean s"
    and "pd_map (cs_pending t) rid = Some j"
  shows "(\<exists>c. cs_calls t j = Some c \<and> in_progress (ca_phase c))
    \<and> pd_chan (cs_pending t) j = Ch_Open \<and> \<not> held_by_loop j (cs_loop t)"
  using assms
proof (induction rule: client_step.induct)
  case (start_call s k rid' s1 req)
  then have m: "pd_map (cs_pending s) rid = Some j" by (auto simp: next_request_id_def)
  with table_live [OF start_call(3) m] start_call(1) have "j \<noteq> k" by auto
  with start_call m show ?case unfolding inv_clean_def by (auto simp: next_request_id_def)
next
  case (start_forward s k msg timeout)
  with table_live [OF start_forward(4), of rid j] have "j \<noteq> k" by auto
  with start_forward show ?case unfolding inv_clean_def by auto
next
  case (register_refused s k c e)
  with table_live [OF register_refused(4), of rid j] have "j \<noteq> k" by auto
  with register_refused show ?case unfolding inv_clean_def by auto
next
  case (register_ok s k c p)
  have k: "\<not> held_by_loop k (cs_loop s)" "\<And>r. pd_map (cs_pending s) r \<noteq> Some k"
    using register_ok unfolding inv_clean_def inv_table_def owns_def by fastforce+
  have p: "p = pending_insert (ca_id c) k (cs_pending s)" by (rule register_law [OF register_ok(3)])
  show ?case
  proof (cases "rid = ca_id c")
    case True
    with register_ok p k show ?thesis by (auto simp: in_progress_def)
  next
    case False
    with register_ok p k have m: "pd_map (cs_pending s) rid = Some j" "j \<noteq> k" by auto
    moreover have "pd_map (cs_pending s) (ca_id c) \<noteq> Some j"
      using table_injective [OF register_ok(4) m(1)] False by blast
    ultimately show ?thesis using register_ok p unfolding inv_clean_def by auto
  qed
next
  case (receive s k c v)
  then have "pd_map (cs_pending s) rid = Some j"
    using settle_law [of "ca_id c" "cs_pending s"] by (auto split: if_splits)
  with receive have "j \<noteq> k" unfolding inv_clean_def by fastforce
  with receive settle_law [of "ca_id c" "cs_pending s"] removed_entry [OF receive(4), of "ca_id c" rid j]
  show ?case unfolding inv_clean_def by (auto split: if_splits)
next
  case (disconnected s k c)
  then show ?case unfolding inv_clean_def by fastforce
next
  case (timed_out s k c d)
  then show ?case unfolding inv_clean_def by (auto simp: in_progress_def)
next
  case (abandon s k c e)
  then have "pd_map (pending_remove (ca_id c) (cs_pending s)) rid = Some j" by (simp add: remove_exact)
  with removed_entry [OF abandon(3) this] table_id [OF abandon(3), of rid j c] abandon
  show ?case unfolding inv_clean_def by (auto simp: remove_exact)
next
  case (cancel s k c)
  then have "pd_map (pending_remove (ca_id c) (cs_pending s)) rid = Some j" by (simp add: remove_exact)
  with removed_entry [OF cancel(4) this] table_id [OF cancel(4), of rid j c] cancel
  show ?case unfolding inv_clean_def by (auto simp: remove_exact)
next
  case (loop_matched s m r i p)
  then have e: "pd_map (cs_pending s) rid = Some j" "rid \<noteq> h_id (m_header m)"
    "pd_map (cs_pending s) (h_id (m_header m)) = Some i" by (auto simp: dispatch_response_iff split: if_splits)
  with table_injective [OF loop_matched(5) e(1)] have "j \<noteq> i" by blast
  with loop_matched e show ?case unfolding inv_clean_def by (auto simp: dispatch_response_iff held_by_loop_def)
qed (auto simp: inv_clean_def inv_table_def owns_def in_progress_def held_by_loop_def next_request_id_def
    dispatch_response_iff split: if_splits)

lemma clean_step: "client_step ops s a t \<Longrightarrow> inv_table s \<Longrightarrow> inv_clean s \<Longrightarrow> inv_clean t"
proof -
  assume step: "client_step ops s a t" and inv: "inv_table s" "inv_clean s"
  have "\<exists>rid. owns t j rid" if "held_by_loop j (cs_loop t)" for j
    using held_step [OF step that] inv owns_step [OF step] unfolding inv_clean_def inv_table_def by blast
  with clean_entry_step [OF step inv] show ?thesis unfolding inv_clean_def [of t] by blast
qed

lemma clean_reachable: "reachable connected (client_step ops) s \<Longrightarrow> inv_clean s"
proof (induction rule: reachable.induct)
  case (reachable_start s)
  then show ?case
    by (auto simp: connected_def client_connected_def pending_new_def inv_clean_def held_by_loop_def)
next
  case (reachable_step s a t)
  from sys.invar_reachable [OF reachable_step.hyps(1)] have "inv_table s" by (simp add: invar_def)
  with clean_step [OF reachable_step.hyps(2)] reachable_step.IH show ?case by blast
qed

lemma pending_in_progress:
  assumes "reachable connected (client_step ops) s" and "pd_map (cs_pending s) rid = Some k"
  shows "\<exists>c. cs_calls s k = Some c \<and> ca_id c = rid
    \<and> (ca_phase c = Registered \<or> ca_phase c = Waiting \<or> (\<exists>e. ca_phase c = Abandoning e))"
proof -
  from sys.invar_reachable [OF assms(1)] assms(2) have "owns s k rid" by (simp add: invar_def inv_table_def)
  then obtain c where "cs_calls s k = Some c" "ca_id c = rid" by (auto simp: owns_def)
  moreover from clean_reachable [OF assms(1)] assms(2) calculation have "in_progress (ca_phase c)"
    unfolding inv_clean_def by fastforce
  ultimately show ?thesis by (simp add: in_progress_def)
qed

end

section \<open>What is routed to the calls\<close>

context client_contract
begin

definition inv_routed :: "('w, 'r, 's) ClientState \<Rightarrow> bool" where
  "inv_routed s \<longleftrightarrow>
     (\<forall>j m. pd_chan (cs_pending s) j = Ch_Sent (Inr m) \<or> cs_loop s = R_Matched j m \<longrightarrow> op_routes ops m) \<and>
     (\<forall>j c m. cs_calls s j = Some c \<longrightarrow> ca_phase c = Done (Inr m) \<longrightarrow> op_routes ops m)"

lemma matched_routed_step:
  "client_step ops s a t \<Longrightarrow> cs_loop t = R_Matched j m \<Longrightarrow> cs_loop s = R_Matched j m \<or> op_routes ops m"
  by (induction rule: client_step.induct) (auto simp: next_request_id_def)

lemma done_routed_step:
  assumes step: "client_step ops s a t" and "inv_results s" and routed: "inv_routed s"
    and c: "cs_calls t j = Some c" "ca_phase c = Done (Inr m)"
  shows "op_routes ops m"
  using done_step [OF step c]
proof
  assume "cs_calls s j = Some c"
  with routed c(2) show ?thesis unfolding inv_routed_def by blast
next
  assume "\<exists>c' v. cs_calls s j = Some c' \<and> c = c'\<lparr>ca_phase := Done (call_result c' v)\<rparr>
      \<and> call_result c' v = Inr m \<and> pd_chan (cs_pending s) j = Ch_Sent v"
  then obtain c' v where c': "cs_calls s j = Some c'" "call_result c' v = Inr m" "pd_chan (cs_pending s) j = Ch_Sent v"
    by blast
  then obtain m0 where v: "v = Inr m0" "ca_check c' (ca_id c') m0 = Inr m"
    by (cases v) (auto simp: call_result_def)
  have "ca_check c' = validate_response \<or> ca_check c' = check_forwarded"
    using assms(2) c'(1) unfolding inv_results_def by blast
  with v(2) check_returns have "m0 = m" by metis
  with c'(3) v(1) routed show ?thesis unfolding inv_routed_def by blast
qed

lemma routed_reachable: "reachable connected (client_step ops) s \<Longrightarrow> inv_routed s"
proof (induction rule: reachable.induct)
  case (reachable_start s)
  then show ?case by (auto simp: connected_def client_connected_def pending_new_def inv_routed_def)
next
  case (reachable_step s a t)
  note step = reachable_step.hyps(2)
  from sys.invar_reachable [OF reachable_step.hyps(1)] have "inv_results s" by (simp add: invar_def)
  with done_routed_step [OF step _ reachable_step.IH]
  have "\<And>j c m. cs_calls t j = Some c \<Longrightarrow> ca_phase c = Done (Inr m) \<Longrightarrow> op_routes ops m" by blast
  moreover have "\<And>j m. pd_chan (cs_pending t) j = Ch_Sent (Inr m) \<or> cs_loop t = R_Matched j m \<Longrightarrow> op_routes ops m"
    using sent_step [OF step] matched_routed_step [OF step] reachable_step.IH unfolding inv_routed_def by blast
  ultimately show ?case unfolding inv_routed_def by blast
qed

lemma result_routed:
  "reachable connected (client_step ops) s \<Longrightarrow> cs_calls s k = Some c \<Longrightarrow> ca_phase c = Done (Inr m) \<Longrightarrow>
     op_routes ops m"
  using routed_reachable unfolding inv_routed_def by blast

end

end
