(* ===== verification/Async_Client.thy ===== *)
theory Async_Client
  imports Client Client_Table
begin

text \<open>
  The asynchronous client of \<^verbatim>\<open>src/async_client.rs\<close>. It differs from the blocking one in
  four ways: it refuses an id that is already pending, a guard takes the
  registration out again on every way a call can end but with a response (a
  dropped future included), it can forward a message with an id of the sender's choosing, and its
  shutdown flushes first. \<open>rx\<close> is \<^verbatim>\<open>AsyncReadExt::read_exact\<close>.
\<close>

section \<open>The connection\<close>

definition duplicate_request_id_error :: "u64 \<Rightarrow> 's RepeError" where
  "duplicate_request_id_error request_id =
     RE_Io (IoError K_AlreadyExists
       (''request id '' @ dec_str (unat request_id) @ '' is already pending''))"

definition guard_register :: "u64 \<Rightarrow> nat \<Rightarrow> 's Pending \<Rightarrow> 's RepeError + 's Pending" where
  "guard_register request_id k p =
     (if request_id \<in> dom (pd_map p) then Inl (duplicate_request_id_error request_id)
      else Inr (pending_insert request_id k p))"

definition guard_drop :: "bool \<Rightarrow> u64 \<Rightarrow> 's Pending \<Rightarrow> 's Pending" where
  "guard_drop disarmed request_id p = (if disarmed then p else pending_remove request_id p)"

definition async_write_request :: "'k send_op \<Rightarrow> Message \<Rightarrow> ('k BufWriter, 's RepeError, unit) io" where
  "async_write_request send msg =
     io_bind (write_message_async (buf_write_all send) msg) (\<lambda>_. io_from (buf_flush send))"

text \<open>
  \<^verbatim>\<open>BufWriter::shutdown\<close> flushes and then shuts the socket down; a failed flush is
  where it ends, and the caller ignores the error.
\<close>

definition async_shutdown :: "'k send_op \<Rightarrow> ('k \<Rightarrow> 'k) \<Rightarrow> 'k BufWriter \<Rightarrow> 'k BufWriter" where
  "async_shutdown send shut w =
     (case flush_buf send w of
        Some (Inr _, w) \<Rightarrow> w\<lparr>bw_inner := shut (bw_inner w)\<rparr>
      | Some (Inl _, w) \<Rightarrow> w
      | None \<Rightarrow> w)"

definition async_read_response ::
    "nat \<Rightarrow> (nat \<Rightarrow> ('r, io_error, bytes) io) \<Rightarrow> 'r \<Rightarrow> ('s read_result \<times> 'r) option" where
  "async_read_response usize_max rx r =
     (case read_message_async usize_max rx r of
        None \<Rightarrow> None
      | Some (Inr message, r) \<Rightarrow> Some (Read_Message message, r)
      | Some (Inl err, r) \<Rightarrow> Some (Read_Failed err, r))"

fun async_clone_fatal_error_for_waiter ::
    "(io_error \<Rightarrow> string) \<Rightarrow> 's RepeError \<Rightarrow> u64 \<Rightarrow> 's RepeError" where
  "async_clone_fatal_error_for_waiter dio (RE_Io io_err) request_id =
     RE_Io (IoError (io_error_kind io_err)
       (''request '' @ dec_str (unat request_id) @ '': '' @ dio io_err))"
| "async_clone_fatal_error_for_waiter dio err request_id = err"

definition async_validate_response :: "u64 \<Rightarrow> Message \<Rightarrow> 's RepeError + Message" where
  "async_validate_response expected_id resp =
     (if h_version (m_header resp) \<noteq> REPE_VERSION then Inl (RE_VersionMismatch (h_version (m_header resp)))
      else if h_id (m_header resp) \<noteq> expected_id
           then Inl (RE_ResponseIdMismatch expected_id (h_id (m_header resp)))
      else if h_ec (m_header resp) \<noteq> error_code_u32 EC_Ok
           then let code = (case error_code_try_from (h_ec (m_header resp)) of
                              Inr code \<Rightarrow> code | Inl _ \<Rightarrow> EC_ParseError);
                    msg = (case error_message_utf8 resp of
                             Some m \<Rightarrow> m | None \<Rightarrow> error_code_display code)
                in Inl (RE_ServerError code msg)
      else Inr resp)"

definition async_ops ::
    "nat \<Rightarrow> (io_error \<Rightarrow> string) \<Rightarrow> 'k send_op \<Rightarrow> ('k \<Rightarrow> 'k) \<Rightarrow> (nat \<Rightarrow> ('r, io_error, bytes) io)
      \<Rightarrow> ('k BufWriter, 'r, 's) client_ops" where
  "async_ops usize_max dio send shut rx =
     \<lparr>op_register = guard_register, op_remove = guard_drop False, op_settle = guard_drop False,
      op_write = async_write_request send, op_shut = async_shutdown send shut,
      op_read = async_read_response usize_max rx, op_routes = (\<lambda>m. True),
      op_clone = async_clone_fatal_error_for_waiter dio, op_closed = response_channel_closed_error,
      op_timed_out = request_timeout_error, op_forwards = True, op_cancels = True\<rparr>"

definition async_connect ::
    "('a \<Rightarrow> io_error + 'k \<times> 'r) \<Rightarrow> ('k \<Rightarrow> io_error + unit) \<Rightarrow> 'a
      \<Rightarrow> io_error + ('k BufWriter, 'r, 's) ClientState" where
  "async_connect tcp_connect set_nodelay addr =
     res_bind (tcp_connect addr) (\<lambda>(write_half, read_half).
     res_bind (set_nodelay write_half) (\<lambda>_.
     Inr (client_connected (bufwriter_new write_half) read_half)))"

section \<open>Forwarding\<close>

text \<open>
  What \<^verbatim>\<open>forward_message\<close> returns for a notify: nothing, once it is written. Otherwise it is a
  call (\<open>start_forward\<close>) whose response passes \<open>check_forwarded\<close>.
\<close>

definition forward_notify_result ::
    "'k send_op \<Rightarrow> Message \<Rightarrow> ('k BufWriter, 's RepeError, Message option) io" where
  "forward_notify_result send msg = io_bind (async_write_request send msg) (\<lambda>_. io_result (Inr None))"

section \<open>Batches\<close>

text \<open>
  One task for each request, awaited in order. \<open>join i\<close> is what awaiting the task of
  request \<open>i\<close> gave: its result, or how the task failed.
\<close>

definition batch_worker_join_error :: "string \<Rightarrow> 's RepeError" where
  "batch_worker_join_error err = RE_Io (IoError K_Other (''batch worker failed: '' @ err))"

fun await_workers ::
    "(nat \<Rightarrow> string + ('s RepeError + 'v)) \<Rightarrow> nat list \<Rightarrow> ('s RepeError + 'v) option list
      \<Rightarrow> ('s RepeError + 'v) option list" where
  "await_workers join [] out = out"
| "await_workers join (index # workers) out =
     (let result = (case join index of Inr value \<Rightarrow> value | Inl err \<Rightarrow> Inl (batch_worker_join_error err))
      in await_workers join workers (out[index := Some result]))"

definition async_batch_json_inner ::
    "(nat \<Rightarrow> string + ('s RepeError + 'v)) \<Rightarrow> 'q list \<Rightarrow> ('s RepeError + 'v) list" where
  "async_batch_json_inner join requests =
     (let workers = [0..<length requests];
          out = await_workers join workers (replicate (length workers) None)
      in map (\<lambda>entry. case entry of Some result \<Rightarrow> result | None \<Rightarrow> Inl batch_worker_missing_result_error) out)"

section \<open>The methods\<close>

definition async_call_typed_json_with_optional_timeout ::
    "('v, 's) codec \<Rightarrow> ('u, 's) codec \<Rightarrow> string \<Rightarrow> 'v \<Rightarrow> nat option \<Rightarrow> ('s, 'u) api_call" where
  "async_call_typed_json_with_optional_timeout cv cu path body timeout =
     \<lparr>ac_request = pointer_request path timeout (with_body_json (cd_to_json cv) body),
      ac_decode = decode_body (cd_invalid_utf8 cu) (cd_from_json cu) (cd_from_beve cu)\<rparr>"

definition async_call_typed_json where
  "async_call_typed_json cv cu path body = async_call_typed_json_with_optional_timeout cv cu path body None"

definition async_call_typed_json_with_timeout where
  "async_call_typed_json_with_timeout cv cu path body timeout =
     async_call_typed_json_with_optional_timeout cv cu path body (Some timeout)"

definition async_call_typed_beve_with_optional_timeout ::
    "('v, 's) codec \<Rightarrow> ('u, 's) codec \<Rightarrow> string \<Rightarrow> 'v \<Rightarrow> nat option \<Rightarrow> ('s, 'u) api_call" where
  "async_call_typed_beve_with_optional_timeout cv cu path body timeout =
     \<lparr>ac_request = pointer_request path timeout (with_body_beve (cd_to_beve cv) body),
      ac_decode = decode_body (cd_invalid_utf8 cu) (cd_from_json cu) (cd_from_beve cu)\<rparr>"

definition async_call_typed_beve where
  "async_call_typed_beve cv cu path body = async_call_typed_beve_with_optional_timeout cv cu path body None"

definition async_call_typed_beve_with_timeout where
  "async_call_typed_beve_with_timeout cv cu path body timeout =
     async_call_typed_beve_with_optional_timeout cv cu path body (Some timeout)"

definition async_call_typed_slice_with_optional_timeout ::
    "('t list, 's) codec \<Rightarrow> ('u list, 's) codec \<Rightarrow> string \<Rightarrow> 't list \<Rightarrow> nat option \<Rightarrow> ('s, 'u list) api_call" where
  "async_call_typed_slice_with_optional_timeout cv cu path body timeout =
     \<lparr>ac_request = pointer_request path timeout (with_body_typed_slice (cd_to_beve cv) body),
      ac_decode = decode_typed_slice (cd_from_beve cu)\<rparr>"

definition async_call_typed_slice where
  "async_call_typed_slice cv cu path body = async_call_typed_slice_with_optional_timeout cv cu path body None"

definition async_call_typed_slice_with_timeout where
  "async_call_typed_slice_with_timeout cv cu path body timeout =
     async_call_typed_slice_with_optional_timeout cv cu path body (Some timeout)"

definition async_call_typed_slice_aligned_with_optional_timeout ::
    "(nat \<Rightarrow> 't list \<Rightarrow> bytes) \<Rightarrow> ('u list, 's) codec \<Rightarrow> string \<Rightarrow> 't list \<Rightarrow> nat option
      \<Rightarrow> ('s, 'u list) api_call" where
  "async_call_typed_slice_aligned_with_optional_timeout to_beve_aligned_at cu path body timeout =
     \<lparr>ac_request = pointer_request path timeout (with_body_aligned_typed_slice to_beve_aligned_at body),
      ac_decode = decode_typed_slice (cd_from_beve cu)\<rparr>"

definition async_call_typed_slice_aligned where
  "async_call_typed_slice_aligned to_beve_aligned_at cu path body =
     async_call_typed_slice_aligned_with_optional_timeout to_beve_aligned_at cu path body None"

definition async_call_typed_slice_aligned_with_timeout where
  "async_call_typed_slice_aligned_with_timeout to_beve_aligned_at cu path body timeout =
     async_call_typed_slice_aligned_with_optional_timeout to_beve_aligned_at cu path body (Some timeout)"

definition async_call_message_with_formats_and_timeout ::
    "string \<Rightarrow> u16 \<Rightarrow> bytes option \<Rightarrow> u16 \<Rightarrow> nat option \<Rightarrow> ('s, Message) api_call" where
  "async_call_message_with_formats_and_timeout path query_format body body_format timeout =
     \<lparr>ac_request = \<lparr>rq_path = path, rq_query_format = query_format, rq_timeout = timeout,
        rq_body_fn = formats_body body body_format\<rparr>,
      ac_decode = Inr\<rparr>"

definition async_call_message :: "string \<Rightarrow> ('s, Message) api_call" where
  "async_call_message path =
     async_call_message_with_formats_and_timeout path (query_format_u16 QF_JsonPointer) None
       (body_format_u16 BF_RawBinary) None"

definition async_call_message_with_timeout :: "string \<Rightarrow> nat \<Rightarrow> ('s, Message) api_call" where
  "async_call_message_with_timeout path timeout =
     async_call_message_with_formats_and_timeout path (query_format_u16 QF_JsonPointer) None
       (body_format_u16 BF_RawBinary) (Some timeout)"

definition async_call_with_formats :: "string \<Rightarrow> u16 \<Rightarrow> bytes option \<Rightarrow> u16 \<Rightarrow> ('s, Message) api_call" where
  "async_call_with_formats path query_format body body_format =
     async_call_message_with_formats_and_timeout path query_format body body_format None"

definition async_call_with_formats_and_timeout ::
    "string \<Rightarrow> u16 \<Rightarrow> bytes option \<Rightarrow> u16 \<Rightarrow> nat \<Rightarrow> ('s, Message) api_call" where
  "async_call_with_formats_and_timeout path query_format body body_format timeout =
     async_call_message_with_formats_and_timeout path query_format body body_format (Some timeout)"

definition async_registry_read_typed :: "('v, 's) codec \<Rightarrow> string \<Rightarrow> ('s, 'v) api_call" where
  "async_registry_read_typed cv path =
     (let api = async_call_message path :: ('s, Message) api_call
      in \<lparr>ac_request = ac_request api, ac_decode = (\<lambda>m.
        res_bind (ac_decode api m) (json_body (cd_invalid_utf8 cv) (cd_from_json cv)))\<rparr>)"

definition async_registry_read_typed_with_timeout :: "('v, 's) codec \<Rightarrow> string \<Rightarrow> nat \<Rightarrow> ('s, 'v) api_call" where
  "async_registry_read_typed_with_timeout cv path timeout =
     (let api = async_call_message_with_timeout path timeout :: ('s, Message) api_call
      in \<lparr>ac_request = ac_request api, ac_decode = (\<lambda>m.
        res_bind (ac_decode api m) (json_body (cd_invalid_utf8 cv) (cd_from_json cv)))\<rparr>)"

definition async_notify_with_builder ::
    "(Message \<Rightarrow> ('w, 's RepeError, unit) io) \<Rightarrow> string \<Rightarrow> u16 \<Rightarrow> (MessageBuilder \<Rightarrow> MessageBuilder)
      \<Rightarrow> (('w, 'r, 's) ClientState, 's RepeError, unit) io" where
  "async_notify_with_builder write path query_format body_fn s =
     (case next_request_id s of
        (rid, s) \<Rightarrow>
          (case write (notify_message rid \<lparr>rq_path = path, rq_query_format = query_format,
                  rq_timeout = None, rq_body_fn = body_fn\<rparr>) (cs_writer s) of
             None \<Rightarrow> None
           | Some (x, w) \<Rightarrow> Some (x, s\<lparr>cs_writer := w\<rparr>)))"

definition async_notify_with_body where
  "async_notify_with_body write path body_fn =
     async_notify_with_builder write path (query_format_u16 QF_JsonPointer) body_fn"

definition async_notify_json where
  "async_notify_json write cv path body = async_notify_with_body write path (with_body_json (cd_to_json cv) body)"

definition async_notify_beve where
  "async_notify_beve write cv path body = async_notify_with_body write path (with_body_beve (cd_to_beve cv) body)"

definition async_notify_with_message_formats where
  "async_notify_with_message_formats write path query_format body body_format =
     async_notify_with_builder write path query_format (formats_body body body_format)"

definition async_notify_with_formats where
  "async_notify_with_formats write path query_format body body_format =
     async_notify_with_message_formats write path query_format body body_format"

section \<open>The asynchronous client keeps the contract\<close>

text \<open>
  An asynchronous socket has no write timeout: a send that fails has lost the
  connection.
\<close>

locale async_socket = byte_socket +
  assumes send_failed_dead: "send bs k = ((Some e, n), k') \<Longrightarrow> dead k'"
begin

lemma async_write_is_write: "async_write_request send = write_request True send"
  by (simp add: fun_eq_iff async_write_request_def write_request_def write_message_async_def write_message_def)

lemma flush_failed_dead: "flush_buf send w = Some (Inl e, w') \<Longrightarrow> writer_dead w'"
  by (auto simp: flush_buf_def writer_dead_def split: if_splits prod.splits elim!: send_result.elims
      dest: send_failed_dead)

lemma async_shutdown_dead: "writer_dead (async_shutdown send shut w)"
  using flush_buf_total [of w] flush_failed_dead [of w]
  by (auto simp: async_shutdown_def writer_dead_def shut_dead split: sum.splits)

end

sublocale async_socket \<subseteq> asynchronous: client_contract "async_ops usize_max dio send shut rx" writer_dead
  for usize_max dio rx
proof
  fix rid k p p' m w
  let ?ops = "async_ops usize_max dio send shut rx"
  show "op_register ?ops rid k p = Inr p' \<Longrightarrow> p' = pending_insert rid k p"
    by (simp add: async_ops_def guard_register_def split: if_splits)
  show "op_remove ?ops rid p = p \<or> op_remove ?ops rid p = pending_remove rid p"
    by (simp add: async_ops_def guard_drop_def)
  show "op_settle ?ops rid p = p \<or> op_settle ?ops rid p = pending_remove rid p"
    by (simp add: async_ops_def guard_drop_def)
  show "op_write ?ops m w \<noteq> None"
    using write_request_cases [of True m w] by (auto simp: async_ops_def async_write_is_write)
  show "writer_dead w \<Longrightarrow> \<exists>e w'. op_write ?ops m w = Some (Inl e, w') \<and> writer_dead w'"
    using write_request_dead by (simp add: async_ops_def async_write_is_write)
  show "writer_dead (op_shut ?ops w)"
    by (simp add: async_ops_def async_shutdown_dead)
qed

sublocale async_socket \<subseteq> asynchronous_table: clean_client "async_ops usize_max dio send shut rx" writer_dead
  for usize_max dio rx
  by unfold_locales (simp add: async_ops_def guard_drop_def)

context async_socket
begin

lemma async_contract: "clean_client (async_ops usize_max dio send shut rx) writer_dead"
  by (rule asynchronous_table.clean_client_axioms)

end

text \<open>A socket whose peer resets the connection after a number of further bytes.\<close>

definition reset_send :: "Tcp send_op" where
  "reset_send bs k =
     (if \<not> tcp_open k then ((if bs = [] then None else Some (OsError 32), 0), k)
      else (case tcp_room k of
              [] \<Rightarrow> ((None, length bs), k\<lparr>tcp_sent := tcp_sent k @ bs\<rparr>)
            | room # rooms \<Rightarrow>
                if length bs \<le> room
                then ((None, length bs), k\<lparr>tcp_sent := tcp_sent k @ bs, tcp_room := (room - length bs) # rooms\<rparr>)
                else ((Some (OsError 104), room),
                  k\<lparr>tcp_sent := tcp_sent k @ take room bs, tcp_open := False\<rparr>)))"

interpretation resetting: async_socket reset_send tcp_shut tcp_sent "\<lambda>k. \<not> tcp_open k"
proof
  fix bs err n e and k k' :: Tcp
  show "reset_send bs k = ((err, n), k') \<Longrightarrow>
      n \<le> length bs \<and> tcp_sent k' = tcp_sent k @ take n bs \<and> (err = None \<longrightarrow> n = length bs)"
    by (auto simp: reset_send_def split: if_splits list.splits)
  show "\<not> tcp_open k \<Longrightarrow> bs \<noteq> [] \<Longrightarrow> \<exists>e k'. reset_send bs k = ((Some e, 0), k') \<and> \<not> tcp_open k'"
    by (simp add: reset_send_def)
  show "reset_send bs k = ((Some e, n), k') \<Longrightarrow> \<not> tcp_open k'"
    by (auto simp: reset_send_def split: if_splits list.splits)
qed (simp_all add: tcp_shut_def)

section \<open>The clients agree\<close>

text \<open>A method of the asynchronous client makes the request its blocking twin makes.\<close>

lemmas async_method_defs =
  async_call_typed_json_with_optional_timeout_def async_call_typed_json_def async_call_typed_json_with_timeout_def
  async_call_typed_beve_with_optional_timeout_def async_call_typed_beve_def async_call_typed_beve_with_timeout_def
  async_call_typed_slice_with_optional_timeout_def async_call_typed_slice_def async_call_typed_slice_with_timeout_def
  async_call_typed_slice_aligned_with_optional_timeout_def async_call_typed_slice_aligned_def
  async_call_typed_slice_aligned_with_timeout_def async_call_message_with_formats_and_timeout_def
  async_call_message_def async_call_message_with_timeout_def async_call_with_formats_def
  async_call_with_formats_and_timeout_def async_registry_read_typed_def async_registry_read_typed_with_timeout_def
  async_notify_with_builder_def async_notify_with_body_def async_notify_json_def async_notify_beve_def
  async_notify_with_message_formats_def async_notify_with_formats_def

lemma async_validate_is_validate: "async_validate_response = validate_response"
  by (simp add: fun_eq_iff async_validate_response_def validate_response_def)

lemma async_clone_is_clone: "async_clone_fatal_error_for_waiter dio err rid = clone_fatal_error_for_waiter dio err rid"
  by (cases err) auto

section \<open>Properties of the asynchronous client\<close>

lemma await_workers_length [simp]: "length (await_workers join workers out) = length out"
  by (induction workers arbitrary: out) (simp_all add: Let_def)

lemma await_workers_nth:
  "distinct workers \<Longrightarrow> i < length out \<Longrightarrow>
     await_workers join workers out ! i =
       (if i \<in> set workers
        then Some (case join i of Inr value \<Rightarrow> value | Inl err \<Rightarrow> Inl (batch_worker_join_error err))
        else out ! i)"
  by (induction workers arbitrary: out) (auto simp: Let_def nth_list_update)

text \<open>The example connection of the blocking client, on the asynchronous one.\<close>

definition sample_async_ops :: "(Tcp BufWriter, bytes, unit) client_ops" where
  "sample_async_ops = async_ops 65535 (\<lambda>_. []) reset_send tcp_shut (read_exact slice_read)"

interpretation sample_async: clean_client sample_async_ops resetting.writer_dead
  unfolding sample_async_ops_def by (rule resetting.async_contract)

lemma sample_async_write:
  assumes "tcp_open (bw_inner w)" and "tcp_room (bw_inner w) = []" and "bw_buf w = []" and "bw_capacity w = 8192"
  shows "\<exists>w'. async_write_request reset_send (request_message rid sample_request) w
      = Some (Inr () :: unit RepeError + unit, w')
    \<and> tcp_open (bw_inner w') \<and> tcp_room (bw_inner w') = [] \<and> bw_buf w' = [] \<and> bw_capacity w' = 8192"
  using assms
  by (simp add: async_write_request_def write_message_async_def request_message_def sample_request_def
      pointer_request_def builder_defs as_bytes_def io_bind_def io_from_def io_result_def buf_write_all_def
      buf_push_def buf_flush_def flush_buf_def reset_send_def HEADER_SIZE_def header_encode_not_empty)

lemma sample_async_read:
  "async_read_response 65535 (read_exact slice_read) (message_to_vec sample_response)
     = Some (Read_Message sample_response :: unit read_result, [])"
  "\<exists>r. async_read_response 65535 (read_exact slice_read) []
     = Some (Read_Failed (RE_Io UnexpectedEof) :: unit read_result, r)"
proof -
  have source: "exact_source (read_exact slice_read) (\<lambda>r. r)"
    by (rule byte_source.read_exact_is_exact [OF slice_src.byte_source_axioms])
  show "async_read_response 65535 (read_exact slice_read) (message_to_vec sample_response)
     = Some (Read_Message sample_response :: unit read_result, [])"
    using exact_source.read_frame_ok [OF source sample_response_wf, of "message_to_vec sample_response" "[]", where 's = unit]
    by (auto simp: async_read_response_def)
  show "\<exists>r. async_read_response 65535 (read_exact slice_read) []
     = Some (Read_Failed (RE_Io UnexpectedEof) :: unit read_result, r)"
    using exact_source.read_frame_truncated [OF source sample_response_wf, of "[]" "message_to_vec sample_response",
        where 's = unit]
    by (auto simp: async_read_response_def to_vec_append header_encode_not_empty)
qed

lemma sample_async_run:
  "\<exists>s c0 c1. reachable connected (client_step sample_async_ops) s \<and> cs_loop s = R_Failed (RE_Io UnexpectedEof)
    \<and> cs_calls s 0 = Some c0 \<and> ca_phase c0 = Done (Inr sample_response) \<and> ca_id c0 = 1
    \<and> cs_calls s 1 = Some c1 \<and> ca_phase c1 = Waiting \<and> pd_map (cs_pending s) 2 = Some 1"
proof -
  obtain w1 where w1: "async_write_request reset_send (request_message 1 sample_request) (bufwriter_new sample_socket)
      = Some (Inr () :: unit RepeError + unit, w1)"
    "tcp_open (bw_inner w1)" "tcp_room (bw_inner w1) = []" "bw_buf w1 = []" "bw_capacity w1 = 8192"
    using sample_async_write [of "bufwriter_new sample_socket" 1] by (auto simp: bufwriter_new_def sample_socket_def)
  obtain w2 where w2: "async_write_request reset_send (request_message 2 sample_request) w1
      = Some (Inr () :: unit RepeError + unit, w2)"
    using sample_async_write [OF w1(2-5), of 2] by blast
  obtain r where eof: "async_read_response 65535 (read_exact slice_read) []
      = Some (Read_Failed (RE_Io UnexpectedEof) :: unit read_result, r)"
    using sample_async_read(2) by blast
  show ?thesis
    by (rule sample_async.two_calls [of sample_request "bufwriter_new sample_socket" w1 w2
          "message_to_vec sample_response" sample_response "[]" "RE_Io UnexpectedEof" r])
      (auto simp: sample_async_ops_def async_ops_def guard_register_def w1(1) w2 sample_async_read(1) eof
        sample_response_answers)
qed

text \<open>
  In every interleaving, a response an asynchronous call returns was read from this connection, has this
  protocol version and carries the id the call sent; unless it was a forwarded
  message, whose response is passed on as it came, it carries no error.
\<close>

theorem async_response_is_own:
  assumes "async_socket send shut sent dead"
    and "reachable connected (client_step (async_ops usize_max dio send shut rx)) s"
    and "cs_calls s k = Some c" and "ca_phase c = Done (Inr m)"
  shows "m \<in> set (cs_log s) \<and> h_id (m_header m) = ca_id c \<and> h_version (m_header m) = REPE_VERSION
    \<and> (ca_check c = validate_response \<longrightarrow> h_ec (m_header m) = error_code_u32 EC_Ok)"
  by (rule client_contract.response_is_own
      [OF clean_client.axioms(1) [OF async_socket.async_contract [OF assms(1)]] assms(2-4)])

theorem async_response_is_own_witness:
  "\<exists>s c. cs_calls s 0 = Some c \<and> ca_phase c = Done (Inr sample_response)
    \<and> reachable connected (client_step sample_async_ops) s
    \<and> sample_response \<in> set (cs_log s) \<and> h_id (m_header sample_response) = ca_id c"
proof -
  obtain s c0 where s: "reachable connected (client_step sample_async_ops) s" "cs_calls s 0 = Some c0"
    "ca_phase c0 = Done (Inr sample_response)" using sample_async_run by blast
  with async_response_is_own [OF resetting.async_socket_axioms s(1) [unfolded sample_async_ops_def] s(2,3)]
  show ?thesis by blast
qed

text \<open>
  C13. The table of pending requests never grows beyond the calls in progress: an entry
  belongs to a call that has registered and not yet ended, under the id that call
  sent. A call that returned, timed out, failed to write or was dropped has left none behind.
\<close>

theorem async_table_in_progress:
  assumes "async_socket send shut sent dead"
    and "reachable connected (client_step (async_ops usize_max dio send shut rx)) s"
    and "pd_map (cs_pending s) rid = Some k"
  shows "\<exists>c. cs_calls s k = Some c \<and> ca_id c = rid
    \<and> (ca_phase c = Registered \<or> ca_phase c = Waiting \<or> (\<exists>e. ca_phase c = Abandoning e))"
  by (rule clean_client.pending_in_progress [OF async_socket.async_contract [OF assms(1)] assms(2,3)])

theorem async_table_in_progress_witness:
  "\<exists>s c. reachable connected (client_step sample_async_ops) s \<and> pd_map (cs_pending s) 2 = Some 1
    \<and> cs_calls s 1 = Some c \<and> ca_id c = 2"
proof -
  obtain s where s: "reachable connected (client_step sample_async_ops) s" "pd_map (cs_pending s) 2 = Some 1"
    using sample_async_run by blast
  with async_table_in_progress [OF resetting.async_socket_axioms s(1) [unfolded sample_async_ops_def] s(2)]
  show ?thesis by blast
qed

text \<open>
  When reading fails, every asynchronous call that is not dropped returns: the
  remaining steps of the loop and at most three of the call lead there, from every reachable state.
\<close>

theorem async_failure_wakes_calls:
  assumes "async_socket send shut sent dead"
    and "reachable connected (client_step (async_ops usize_max dio send shut rx)) s"
    and "cs_loop s = R_Failed e" and "cs_calls s k = Some c" and "ca_phase c \<noteq> Dropped"
  shows "\<exists>l n t r. n \<le> 3
    \<and> steps (client_step (async_ops usize_max dio send shut rx)) s
        (replicate l Response_Loop @ replicate n (Caller k)) t
    \<and> cs_calls t k = Some (c\<lparr>ca_phase := Done r\<rparr>)"
  by (rule client_contract.failed_call_returns
      [OF clean_client.axioms(1) [OF async_socket.async_contract [OF assms(1)]] assms(2-5)])

theorem async_failure_wakes_calls_witness:
  "\<exists>s c l n t r. ca_phase c = Waiting \<and> cs_calls s 1 = Some c \<and> n \<le> 3
    \<and> steps (client_step sample_async_ops) s (replicate l Response_Loop @ replicate n (Caller 1)) t
    \<and> cs_calls t 1 = Some (c\<lparr>ca_phase := Done r\<rparr>)"
proof -
  obtain s c1 where s: "reachable connected (client_step sample_async_ops) s"
    "cs_loop s = R_Failed (RE_Io UnexpectedEof)" "cs_calls s 1 = Some c1" "ca_phase c1 = Waiting"
    using sample_async_run by blast
  have "ca_phase c1 \<noteq> Dropped" by (simp add: s(4))
  with async_failure_wakes_calls [OF resetting.async_socket_axioms s(1) [unfolded sample_async_ops_def] s(2,3)] s(3,4)
  show ?thesis unfolding sample_async_ops_def by blast
qed

text \<open>
  The asynchronous \<^verbatim>\<open>batch_json\<close> returns one result for each request, in the order of the requests: what
  its task returned, or that the task failed.
\<close>

theorem async_batch_in_order:
  "async_batch_json_inner join requests =
     map (\<lambda>i. case join i of Inr value \<Rightarrow> value | Inl err \<Rightarrow> Inl (batch_worker_join_error err)) [0..<length requests]"
  by (rule nth_equalityI) (auto simp: async_batch_json_inner_def Let_def await_workers_nth)

section \<open>A guard that removes another call's registration\<close>

text \<open>
  The guard removes by id, not by the registration it made. A forwarded call that has timed out, and whose answer
  arrives before its guard runs, no longer has an entry; if the id is forwarded again meanwhile, the guard removes
  the second call's. Its channel closes, and it fails with a closed channel on a connection that is
  still being read.
\<close>

definition forwarded :: Message where
  "forwarded = build (with_id 1 builder)"

theorem reused_id_loses_call:
  assumes "async_socket send shut sent dead"
    and w1: "async_write_request send forwarded w = Some (Inr () :: 's RepeError + unit, w1)"
    and w2: "async_write_request send forwarded w1 = Some (Inr () :: 's RepeError + unit, w2)"
    and r: "async_read_response usize_max rx r = Some (Read_Message sample_response :: 's read_result, r1)"
  shows "\<exists>s c. reachable connected (client_step (async_ops usize_max dio send shut rx)) s \<and> cs_loop s = R_Reading
    \<and> cs_calls s 1 = Some c \<and> ca_phase c = Done (Inl (response_channel_closed_error 1) :: 's RepeError + Message)"
proof -
  let ?ops = "async_ops usize_max dio send shut rx :: (_, _, 's) client_ops"
  let ?S = "\<lambda>p w r l cs log. \<lparr>cs_next_id = 1, cs_pending = p, cs_writer = w, cs_reader = r, cs_loop = l,
      cs_calls = cs, cs_log = log\<rparr> :: (_, _, 's) ClientState"
  let ?c = "\<lambda>t ph. \<lparr>ca_id = 1, ca_msg = forwarded, ca_timeout = t, ca_check = check_forwarded, ca_phase = ph\<rparr>
      :: 's call"
  let ?late = "request_timeout_error 1 1 :: 's RepeError" and ?gone = "response_channel_closed_error 1 :: 's RepeError"
  let ?P = "\<lambda>m ch. \<lparr>pd_map = m, pd_chan = ch\<rparr> :: 's Pending"
  have fields: "h_id (m_header forwarded) = 1" "h_notify (m_header forwarded) \<noteq> 1" "h_id (m_header sample_response) = 1"
    by (simp_all add: forwarded_def sample_response_def builder_defs build_def)
  let ?R = "reachable connected (client_step ?ops)"
  let ?open = "\<lambda>_. Ch_Open :: 's channel"
  let ?sent = "?open(0 := Ch_Sent (Inr sample_response))"
  note ops = async_ops_def guard_register_def guard_drop_def pending_insert_def pending_remove_def drop_sender_def
    pending_new_def set_phase_def
  have "?R (?S (?P Map.empty ?open) w r R_Reading Map.empty [])"
    by (rule reachable_start) (auto simp: connected_def client_connected_def pending_new_def)
  from reachable_step [OF this client_step.start_forward [of ?ops _ 0 forwarded "Some 1"]]
  have "?R (?S (?P Map.empty ?open) w r R_Reading [0 \<mapsto> ?c (Some 1) Built] [])"
    by (simp add: fields async_ops_def)
  from reachable_step [OF this client_step.register_ok [of _ 0 "?c (Some 1) Built" ?ops "?P [1 \<mapsto> 0] ?open"]]
  have "?R (?S (?P [1 \<mapsto> 0] ?open) w r R_Reading [0 \<mapsto> ?c (Some 1) Registered] [])"
    by (simp add: ops fun_upd_idem)
  from reachable_step [OF this client_step.write_ok [of _ 0 "?c (Some 1) Registered" ?ops w1]]
  have "?R (?S (?P [1 \<mapsto> 0] ?open) w1 r R_Reading [0 \<mapsto> ?c (Some 1) Waiting] [])"
    by (simp add: ops w1)
  from reachable_step [OF this client_step.timed_out [of _ 0 "?c (Some 1) Waiting" 1 ?ops]]
  have "?R (?S (?P [1 \<mapsto> 0] ?open) w1 r R_Reading [0 \<mapsto> ?c (Some 1) (Abandoning ?late)] [])"
    by (simp add: ops)
  from reachable_step [OF this client_step.loop_matched [of _ ?ops sample_response r1 0 "?P Map.empty ?open"]]
  have "?R (?S (?P Map.empty ?open) w1 r1 (R_Matched 0 sample_response)
      [0 \<mapsto> ?c (Some 1) (Abandoning ?late)] [sample_response])"
    by (simp add: ops r dispatch_response_iff fields)
  from reachable_step [OF this client_step.loop_deliver [of _ 0 sample_response ?ops]]
  have "?R (?S (?P Map.empty ?sent) w1 r1 R_Reading [0 \<mapsto> ?c (Some 1) (Abandoning ?late)] [sample_response])"
    by (simp add: channel_send_def)
  from reachable_step [OF this client_step.start_forward [of ?ops _ 1 forwarded None]]
  have "?R (?S (?P Map.empty ?sent) w1 r1 R_Reading
      [0 \<mapsto> ?c (Some 1) (Abandoning ?late), 1 \<mapsto> ?c None Built] [sample_response])"
    by (simp add: fields async_ops_def)
  from reachable_step [OF this client_step.register_ok [of _ 1 "?c None Built" ?ops "?P [1 \<mapsto> 1] ?sent"]]
  have "?R (?S (?P [1 \<mapsto> 1] ?sent) w1 r1 R_Reading
      [0 \<mapsto> ?c (Some 1) (Abandoning ?late), 1 \<mapsto> ?c None Registered] [sample_response])"
    by (simp add: ops fun_upd_idem)
  from reachable_step [OF this client_step.write_ok [of _ 1 "?c None Registered" ?ops w2]]
  have "?R (?S (?P [1 \<mapsto> 1] ?sent) w2 r1 R_Reading
      [0 \<mapsto> ?c (Some 1) (Abandoning ?late), 1 \<mapsto> ?c None Waiting] [sample_response])"
    by (simp add: ops w2)
  from reachable_step [OF this client_step.abandon [of _ 0 "?c (Some 1) (Abandoning ?late)" ?late ?ops]]
  have "?R (?S (?P Map.empty (?sent(1 := Ch_Closed))) w2 r1 R_Reading
      [0 \<mapsto> ?c (Some 1) (Done (Inl ?late)), 1 \<mapsto> ?c None Waiting] [sample_response])"
    by (simp add: ops fun_upd_twist)
  from reachable_step [OF this client_step.disconnected [of _ 1 "?c None Waiting" ?ops]]
  have "?R (?S (?P Map.empty (?sent(1 := Ch_Closed))) w2 r1 R_Reading
      [0 \<mapsto> ?c (Some 1) (Done (Inl ?late)), 1 \<mapsto> ?c None (Abandoning ?gone)] [sample_response])"
    by (simp add: ops)
  from reachable_step [OF this client_step.abandon [of _ 1 "?c None (Abandoning ?gone)" ?gone ?ops]]
  have "?R (?S (?P Map.empty (?sent(1 := Ch_Closed))) w2 r1 R_Reading
      [0 \<mapsto> ?c (Some 1) (Done (Inl ?late)), 1 \<mapsto> ?c None (Done (Inl ?gone))] [sample_response])"
    by (simp add: ops)
  then show ?thesis
    by - (rule exI, rule exI [of _ "?c None (Done (Inl ?gone))"], intro conjI, assumption, simp_all)
qed

end
