(* ===== verification/Notify_Slot.thy ===== *)
theory Notify_Slot
  imports Message
begin

text \<open>
  The slot for the one notify subscriber of a client. \<^verbatim>\<open>src/notify_slot.rs\<close> has it for
  the browser client; the native WebSocket client (\<^verbatim>\<open>src/websocket_client.rs\<close>) keeps a
  copy of the same rules, in which a notify is sent and the slot cleared in separate
  critical sections.

  A subscription is a channel, named by a number: what its receiver has been
  sent, whether the receiver still exists, and whether every sender is gone, so that the
  receiver's stream has ended.
\<close>

record NotifyChannels =
  nc_slot :: "nat option"
  nc_receiver :: "nat \<Rightarrow> bool"
  nc_ended :: "nat \<Rightarrow> bool"
  nc_queue :: "nat \<Rightarrow> Message list"
  nc_fresh :: nat

definition channels_new :: NotifyChannels where
  "channels_new =
     \<lparr>nc_slot = None, nc_receiver = (\<lambda>_. False), nc_ended = (\<lambda>_. False), nc_queue = (\<lambda>_. []), nc_fresh = 0\<rparr>"

datatype AlreadySubscribed = AlreadySubscribed

definition end_stream :: "nat option \<Rightarrow> (nat \<Rightarrow> bool) \<Rightarrow> (nat \<Rightarrow> bool)" where
  "end_stream sender ended = (case sender of None \<Rightarrow> ended | Some ch \<Rightarrow> ended(ch := True))"

text \<open>Installing a channel drops the sender that was in the slot.\<close>

definition install :: "NotifyChannels \<Rightarrow> nat \<times> NotifyChannels" where
  "install s =
     (let ch = nc_fresh s
      in (ch, s\<lparr>nc_slot := Some ch, nc_receiver := (nc_receiver s)(ch := True),
                nc_ended := (end_stream (nc_slot s) (nc_ended s))(ch := False),
                nc_queue := (nc_queue s)(ch := []), nc_fresh := Suc ch\<rparr>))"

definition notify_subscribe :: "NotifyChannels \<Rightarrow> (AlreadySubscribed + nat) \<times> NotifyChannels" where
  "notify_subscribe s =
     (case nc_slot s of
        Some existing \<Rightarrow>
          if nc_receiver s existing then (Inl AlreadySubscribed, s)
          else (case install s of (ch, s) \<Rightarrow> (Inr ch, s))
      | None \<Rightarrow> (case install s of (ch, s) \<Rightarrow> (Inr ch, s)))"

definition notify_unsubscribe :: "NotifyChannels \<Rightarrow> NotifyChannels" where
  "notify_unsubscribe s = s\<lparr>nc_slot := None, nc_ended := end_stream (nc_slot s) (nc_ended s)\<rparr>"

definition notify_route :: "Message \<Rightarrow> NotifyChannels \<Rightarrow> NotifyChannels" where
  "notify_route notify s =
     (case nc_slot s of
        None \<Rightarrow> s
      | Some ch \<Rightarrow>
          if nc_receiver s ch then s\<lparr>nc_queue := (nc_queue s)(ch := nc_queue s ch @ [notify])\<rparr>
          else s\<lparr>nc_slot := None, nc_ended := (nc_ended s)(ch := True)\<rparr>)"

definition route_notify :: "Message \<Rightarrow> NotifyChannels \<Rightarrow> Message option \<times> NotifyChannels" where
  "route_notify msg s =
     (if h_notify (m_header msg) = 0 then (Some msg, s) else (None, notify_route msg s))"

section \<open>The native client's copy\<close>

text \<open>
  \<^verbatim>\<open>subscribe_notifies\<close> and \<^verbatim>\<open>take_notify_sender\<close> act under the mutex. The response loop
  clones the sender under the mutex, sends outside it, and if that failed takes the mutex again to
  clear the slot, provided it still holds the channel the send failed on. Between the two any thread may
  subscribe.
\<close>

definition subscribe_notifies :: "NotifyChannels \<Rightarrow> (AlreadySubscribed + nat) \<times> NotifyChannels" where
  "subscribe_notifies s =
     (case nc_slot s of
        Some existing \<Rightarrow>
          if nc_receiver s existing then (Inl AlreadySubscribed, s)
          else (case install s of (ch, s) \<Rightarrow> (Inr ch, s))
      | None \<Rightarrow> (case install s of (ch, s) \<Rightarrow> (Inr ch, s)))"

definition take_notify_sender :: "NotifyChannels \<Rightarrow> NotifyChannels" where
  "take_notify_sender s = s\<lparr>nc_slot := None, nc_ended := end_stream (nc_slot s) (nc_ended s)\<rparr>"

datatype PendingNotify = Idle | Cloned nat Message | SendFailed nat

definition dispatch_notify :: "Message \<Rightarrow> NotifyChannels \<Rightarrow> PendingNotify" where
  "dispatch_notify response s =
     (case nc_slot s of Some sender \<Rightarrow> Cloned sender response | None \<Rightarrow> Idle)"

text \<open>\<^verbatim>\<open>sender.send(response)\<close>, and the clearing of a stale slot. The loop's own clone keeps a
  channel from ending until it is dropped.\<close>

definition send_notify :: "nat \<Rightarrow> Message \<Rightarrow> NotifyChannels \<Rightarrow> PendingNotify \<times> NotifyChannels" where
  "send_notify sender response s =
     (if nc_receiver s sender
      then (Idle, s\<lparr>nc_queue := (nc_queue s)(sender := nc_queue s sender @ [response])\<rparr>)
      else (SendFailed sender, s))"

definition clear_stale :: "nat \<Rightarrow> NotifyChannels \<Rightarrow> NotifyChannels" where
  "clear_stale sender s =
     (let stale = (case nc_slot s of Some cur \<Rightarrow> cur = sender | None \<Rightarrow> False)
      in if stale then s\<lparr>nc_slot := None, nc_ended := (nc_ended s)(sender := True)\<rparr> else s)"

section \<open>Interleavings\<close>

text \<open>
  What can happen to the native client's slot: threads subscribe, unsubscribe and drop
  receivers while the loop is anywhere in the handling of a notify.
\<close>

datatype notify_event =
    Ev_Subscribe | Ev_Unsubscribe | Ev_DropReceiver nat | Ev_Notify Message | Ev_Send | Ev_Clear

inductive notify_step ::
    "NotifyChannels \<times> PendingNotify \<Rightarrow> notify_event \<Rightarrow> NotifyChannels \<times> PendingNotify \<Rightarrow> bool" where
  subscribe: "subscribe_notifies s = (r, t) \<Longrightarrow> notify_step (s, p) Ev_Subscribe (t, p)"
| unsubscribe: "notify_step (s, p) Ev_Unsubscribe (take_notify_sender s, p)"
| drop_receiver:
    "notify_step (s, p) (Ev_DropReceiver ch) (s\<lparr>nc_receiver := (nc_receiver s)(ch := False)\<rparr>, p)"
| notify: "h_notify (m_header m) \<noteq> 0 \<Longrightarrow> notify_step (s, Idle) (Ev_Notify m) (s, dispatch_notify m s)"
| send: "send_notify ch m s = (p, t) \<Longrightarrow> notify_step (s, Cloned ch m) Ev_Send (t, p)"
| clear: "notify_step (s, SendFailed ch) Ev_Clear (clear_stale ch s, Idle)"

inductive_cases notify_stepE: "notify_step sp e tq"

fun pending_channel :: "PendingNotify \<Rightarrow> nat option" where
  "pending_channel Idle = None"
| "pending_channel (Cloned ch m) = Some ch"
| "pending_channel (SendFailed ch) = Some ch"

fun slot_ok :: "NotifyChannels \<times> PendingNotify \<Rightarrow> bool" where
  "slot_ok (s, p) \<longleftrightarrow>
     (\<forall>ch. nc_slot s = Some ch \<longrightarrow> ch < nc_fresh s \<and> \<not> nc_ended s ch) \<and>
     (\<forall>ch<nc_fresh s. nc_slot s \<noteq> Some ch \<longrightarrow> nc_ended s ch) \<and>
     (\<forall>ch\<ge>nc_fresh s. \<not> nc_receiver s ch) \<and>
     (\<forall>ch. pending_channel p = Some ch \<longrightarrow> ch < nc_fresh s) \<and>
     (\<forall>ch. p = SendFailed ch \<longrightarrow> \<not> nc_receiver s ch)"

lemmas slot_defs = install_def end_stream_def notify_subscribe_def notify_unsubscribe_def notify_route_def
  route_notify_def subscribe_notifies_def take_notify_sender_def dispatch_notify_def send_notify_def
  clear_stale_def Let_def

lemma slot_ok_new: "slot_ok (channels_new, Idle)"
  by (simp add: channels_new_def)

lemma slot_ok_step: "notify_step sp e tq \<Longrightarrow> slot_ok sp \<Longrightarrow> slot_ok tq"
  by (induction rule: notify_step.induct)
    (auto simp: slot_defs less_Suc_eq split: option.splits if_splits)

definition slot_start :: "NotifyChannels \<times> PendingNotify \<Rightarrow> bool" where
  "slot_start sp \<longleftrightarrow> sp = (channels_new, Idle)"

interpretation notify_slot_system: invariant_system slot_start notify_step slot_ok
  by unfold_locales (auto simp: slot_start_def slot_ok_new simp del: slot_ok.simps intro: slot_ok_step)

lemma live_slot_kept:
  assumes "slot_ok (s, p)" and "notify_step (s, p) e (t, q)"
    and "nc_slot s = Some ch" and "nc_receiver s ch"
    and "e \<noteq> Ev_Unsubscribe" and "e \<noteq> Ev_DropReceiver ch"
  shows "nc_slot t = Some ch \<and> nc_receiver t ch \<and> \<not> nc_ended t ch
    \<and> (\<exists>later. nc_queue t ch = nc_queue s ch @ later)"
  using assms(2,1,3-6)
  by (induction "(s, p)" e "(t, q)" rule: notify_step.induct)
    (auto simp: slot_defs split: option.splits if_splits)

section \<open>Properties\<close>

text \<open>
  C10. A live subscription is never displaced. Whatever the threads and the response loop
  are in the middle of, only an explicit \<^verbatim>\<open>unsubscribe\<close> (or the end of the
  connection, which does the same) or its own receiver going away
  takes a subscriber out of the slot: not another \<^verbatim>\<open>subscribe_notifies\<close>, and not the loop
  clearing the slot after a send to an earlier subscriber failed.
\<close>

theorem live_subscription_kept:
  assumes "reachable slot_start notify_step (s, p)" and "notify_step (s, p) e (t, q)"
    and "nc_slot s = Some ch" and "nc_receiver s ch"
    and "e \<noteq> Ev_Unsubscribe" and "e \<noteq> Ev_DropReceiver ch"
  shows "nc_slot t = Some ch \<and> nc_receiver t ch \<and> \<not> nc_ended t ch
    \<and> (\<exists>later. nc_queue t ch = nc_queue s ch @ later)"
  by (rule live_slot_kept [OF notify_slot_system.invar_reachable [OF assms(1)] assms(2-6)])

text \<open>A subscriber goes away during the handling of a notify, and another comes before the slot is cleared.\<close>

definition sample_notify :: Message where
  "sample_notify = build (with_notify True builder)"

definition resubscribed :: NotifyChannels where
  "resubscribed =
     \<lparr>nc_slot = Some 1, nc_receiver = (\<lambda>_. False)(1 := True), nc_ended = (\<lambda>_. False)(0 := True),
      nc_queue = (\<lambda>_. []), nc_fresh = 2\<rparr>"

lemma resubscribed_reachable: "reachable slot_start notify_step (resubscribed, SendFailed 0)"
proof -
  let ?R = "reachable slot_start notify_step"
  define s1 where "s1 = \<lparr>nc_slot = Some 0, nc_receiver = (\<lambda>_. False)(0 := True), nc_ended = \<lambda>_. False,
      nc_queue = \<lambda>_. [], nc_fresh = 1\<rparr>"
  define s2 where "s2 = s1\<lparr>nc_receiver := (nc_receiver s1)(0 := False)\<rparr>"
  have "subscribe_notifies channels_new = (Inr 0, s1)"
    by (simp add: subscribe_notifies_def install_def end_stream_def channels_new_def s1_def fun_eq_iff)
  moreover have "?R (channels_new, Idle)" by (rule reachable_start) (simp add: slot_start_def)
  ultimately have "?R (s1, Idle)" by (metis reachable_step notify_step.subscribe)
  moreover have "notify_step (s1, Idle) (Ev_Notify sample_notify) (s1, dispatch_notify sample_notify s1)"
    by (rule notify_step.notify) (simp add: sample_notify_def builder_defs build_def)
  moreover have "dispatch_notify sample_notify s1 = Cloned 0 sample_notify"
    by (simp add: dispatch_notify_def s1_def)
  ultimately have "?R (s1, Cloned 0 sample_notify)" by (metis reachable_step)
  then have "?R (s2, Cloned 0 sample_notify)" unfolding s2_def by (rule reachable_step) (rule notify_step.drop_receiver)
  moreover have "send_notify 0 sample_notify s2 = (SendFailed 0, s2)" by (simp add: send_notify_def s2_def)
  ultimately have "?R (s2, SendFailed 0)" by (metis reachable_step notify_step.send)
  moreover have "subscribe_notifies s2 = (Inr 1, resubscribed)"
    by (auto simp: subscribe_notifies_def install_def end_stream_def s1_def s2_def resubscribed_def fun_eq_iff)
  ultimately show ?thesis by (metis reachable_step notify_step.subscribe)
qed

theorem live_subscription_kept_witness:
  "nc_slot (clear_stale 0 resubscribed) = Some 1"
proof -
  have "notify_step (resubscribed, SendFailed 0) Ev_Clear (clear_stale 0 resubscribed, Idle)"
    by (rule notify_step.clear)
  from live_subscription_kept [OF resubscribed_reachable this, of 1] show ?thesis
    by (simp add: resubscribed_def)
qed

text \<open>
  Every subscription that has been made and is not the one in the slot has ended: no receiver waits on
  a sender that nobody can reach any more.
\<close>

theorem displaced_subscriptions_end:
  assumes "reachable slot_start notify_step (s, p)" and "ch < nc_fresh s"
  shows "nc_ended s ch \<longleftrightarrow> nc_slot s \<noteq> Some ch"
  using notify_slot_system.invar_reachable [OF assms(1)] assms(2) by auto

theorem displaced_subscriptions_end_witness:
  "nc_ended resubscribed 0 \<longleftrightarrow> nc_slot resubscribed \<noteq> Some 0"
  using displaced_subscriptions_end [OF resubscribed_reachable, of 0] by (simp add: resubscribed_def)

text \<open>A sequence of inbound messages.\<close>

fun route_all :: "Message list \<Rightarrow> NotifyChannels \<Rightarrow> Message list \<times> NotifyChannels" where
  "route_all [] s = ([], s)"
| "route_all (m # ms) s =
     (case route_notify m s of
        (r, s) \<Rightarrow> (case route_all ms s of
                     (rest, s) \<Rightarrow> ((case r of Some m \<Rightarrow> m # rest | None \<Rightarrow> rest), s)))"

lemma route_all_live:
  "nc_slot s = Some ch \<Longrightarrow> nc_receiver s ch \<Longrightarrow>
     route_all ms s = (filter (\<lambda>m. h_notify (m_header m) = 0) ms,
       s\<lparr>nc_queue := (nc_queue s)(ch := nc_queue s ch @ filter (\<lambda>m. h_notify (m_header m) \<noteq> 0) ms)\<rparr>)"
  by (induction ms arbitrary: s) (auto simp: slot_defs)

text \<open>
  The browser client sorts its inbound messages: with a live subscriber, a sequence of messages splits
  into the notifies, which the subscriber receives in order after what it had, and the rest, which go on to the pending calls in order;
  a notify is never matched against a pending call.
\<close>

theorem notifies_sorted_in_order:
  assumes "nc_slot s = Some ch" and "nc_receiver s ch"
  shows "fst (route_all ms s) = filter (\<lambda>m. h_notify (m_header m) = 0) ms
    \<and> nc_queue (snd (route_all ms s)) ch = nc_queue s ch @ filter (\<lambda>m. h_notify (m_header m) \<noteq> 0) ms"
  by (simp add: route_all_live [OF assms])

theorem notifies_sorted_in_order_witness:
  "nc_queue (snd (route_all [sample_notify, build builder, sample_notify] resubscribed)) 1
     = [sample_notify, sample_notify]"
  using notifies_sorted_in_order [of resubscribed 1 "[sample_notify, build builder, sample_notify]"]
  by (simp add: resubscribed_def sample_notify_def builder_defs build_def)

end
