(* ===== verification/Wasm_Client.thy ===== *)
theory Wasm_Client
  imports Client Notify_Slot
begin

text \<open>
  The browser client of \<^verbatim>\<open>src/wasm_client.rs\<close>. It runs on one thread, so its parts are the
  handlers the browser calls and the synchronous beginning of a call; the waiting ends when a handler
  resolves the call's channel. The browser's \<^verbatim>\<open>WebSocket\<close> is an argument:
  \<open>send bs w\<close> is \<^verbatim>\<open>send_with_u8_array\<close>, with the text of the exception it threw, if any.
\<close>

section \<open>Errors and events\<close>

definition wasm_websocket_closed_error :: "'s RepeError" where
  "wasm_websocket_closed_error = RE_Io (IoError K_ConnectionAborted ''websocket connection closed'')"

definition websocket_event_error :: "string \<Rightarrow> 's RepeError" where
  "websocket_event_error message = RE_Io (IoError K_Other message)"

definition wasm_websocket_invalid_data_error :: "string \<Rightarrow> 's RepeError" where
  "wasm_websocket_invalid_data_error message = RE_Io (IoError K_InvalidData message)"

definition js_to_io_error :: "string \<Rightarrow> 's RepeError" where
  "js_to_io_error value = RE_Io (IoError K_Other value)"

definition wasm_duplicate_request_id_error :: "u64 \<Rightarrow> 's RepeError" where
  "wasm_duplicate_request_id_error request_id =
     RE_Io (IoError K_AlreadyExists
       (''request id '' @ dec_str (unat request_id) @ '' is already pending''))"

fun wasm_clone_fatal_error_for_waiter ::
    "(io_error \<Rightarrow> string) \<Rightarrow> 's RepeError \<Rightarrow> u64 \<Rightarrow> 's RepeError" where
  "wasm_clone_fatal_error_for_waiter dio (RE_Io io_err) request_id =
     RE_Io (IoError (io_error_kind io_err)
       (''request '' @ dec_str (unat request_id) @ '': '' @ dio io_err))"
| "wasm_clone_fatal_error_for_waiter dio err request_id = err"

text \<open>The data of a message event: an \<^verbatim>\<open>ArrayBuffer\<close> or something else.\<close>

datatype event_data = ArrayBuffer bytes | OtherData

definition decode_message_event :: "nat \<Rightarrow> event_data \<Rightarrow> 's RepeError + Message" where
  "decode_message_event usize_max data =
     (case data of
        ArrayBuffer payload \<Rightarrow> message_from_slice_exact usize_max payload
      | OtherData \<Rightarrow> Inl (wasm_websocket_invalid_data_error ''websocket transport requires ArrayBuffer''))"

section \<open>The client\<close>

record ('w, 's) WasmClient =
  wm_ws :: 'w
  wm_pending :: "'s Pending"
  wm_next_id :: u64
  wm_notify_tx :: NotifyChannels

definition wasm_client_new :: "'w \<Rightarrow> ('w, 's) WasmClient" where
  "wasm_client_new ws =
     \<lparr>wm_ws = ws, wm_pending = pending_new, wm_next_id = 1, wm_notify_tx = channels_new\<rparr>"

text \<open>
  \<open>opened\<close> is what the first of the open and error events delivered; none means the channel
  was dropped.
\<close>

definition wasm_connect ::
    "('a \<Rightarrow> string + 'w) \<Rightarrow> ('w \<Rightarrow> ('s RepeError + unit) option) \<Rightarrow> 'a \<Rightarrow> 's RepeError + ('w, 's) WasmClient" where
  "wasm_connect websocket_new opened url =
     res_bind (res_map_err js_to_io_error (websocket_new url)) (\<lambda>ws.
     res_bind (case opened ws of
                 Some result \<Rightarrow> result
               | None \<Rightarrow> Inl (websocket_event_error ''websocket open channel closed'')) (\<lambda>_.
     Inr (wasm_client_new ws)))"

definition wasm_next_request_id :: "('w, 's) WasmClient \<Rightarrow> u64 \<times> ('w, 's) WasmClient" where
  "wasm_next_request_id c = (wm_next_id c, c\<lparr>wm_next_id := wm_next_id c + 1\<rparr>)"

definition wasm_write_request ::
    "(bytes \<Rightarrow> 'w \<Rightarrow> (string + unit) \<times> 'w) \<Rightarrow> Message \<Rightarrow> 'w \<Rightarrow> ('s RepeError + unit) \<times> 'w" where
  "wasm_write_request send msg ws =
     (case send (message_to_vec msg) ws of (r, ws) \<Rightarrow> (res_map_err js_to_io_error r, ws))"

definition wasm_guard_register :: "u64 \<Rightarrow> nat \<Rightarrow> 's Pending \<Rightarrow> 's RepeError + 's Pending" where
  "wasm_guard_register request_id k p =
     (if request_id \<in> dom (pd_map p) then Inl (wasm_duplicate_request_id_error request_id)
      else Inr (pending_insert request_id k p))"

definition wasm_guard_drop :: "bool \<Rightarrow> u64 \<Rightarrow> 's Pending \<Rightarrow> 's Pending" where
  "wasm_guard_drop disarmed request_id p = (if disarmed then p else pending_remove request_id p)"

text \<open>
  The browser's timer takes milliseconds as an \<^verbatim>\<open>i32\<close>. \<open>window\<close> is whether there is a window;
  \<open>set_timeout\<close> is its method, which returns the handle of the timer.
\<close>

definition js_timeout_ms :: "nat \<Rightarrow> nat" where
  "js_timeout_ms duration = min (duration div 1000000) (2 ^ 31 - 1)"

definition js_timeout_new :: "bool \<Rightarrow> (nat \<Rightarrow> string + int) \<Rightarrow> nat \<Rightarrow> 's RepeError + int" where
  "js_timeout_new window set_timeout duration =
     (if \<not> window then Inl (websocket_event_error ''window is not available'')
      else res_map_err js_to_io_error (set_timeout (js_timeout_ms duration)))"

text \<open>
  A call up to its first suspension: with the channel named \<open>k\<close>, either it has failed or it waits
  on that channel under the id returned.
\<close>

definition wasm_start_call ::
    "(bytes \<Rightarrow> 'w \<Rightarrow> (string + unit) \<times> 'w) \<Rightarrow> (nat \<Rightarrow> 's RepeError + int) \<Rightarrow> request \<Rightarrow> nat
      \<Rightarrow> ('w, 's) WasmClient \<Rightarrow> ('s RepeError + u64) \<times> ('w, 's) WasmClient" where
  "wasm_start_call send timer req k c =
     (case wasm_next_request_id c of
        (rid, c) \<Rightarrow>
          (case wasm_guard_register rid k (wm_pending c) of
             Inl err \<Rightarrow> (Inl err, c)
           | Inr p \<Rightarrow>
               (case wasm_write_request send (request_message rid req) (wm_ws c) of
                  (Inl err, ws) \<Rightarrow> (Inl err, c\<lparr>wm_ws := ws, wm_pending := wasm_guard_drop False rid p\<rparr>)
                | (Inr _, ws) \<Rightarrow>
                    (case rq_timeout req of
                       None \<Rightarrow> (Inr rid, c\<lparr>wm_ws := ws, wm_pending := p\<rparr>)
                     | Some duration \<Rightarrow>
                         (case timer duration of
                            Inl err \<Rightarrow> (Inl err, c\<lparr>wm_ws := ws, wm_pending := wasm_guard_drop False rid p\<rparr>)
                          | Inr _ \<Rightarrow> (Inr rid, c\<lparr>wm_ws := ws, wm_pending := p\<rparr>))))))"

text \<open>The end of a call: what the channel was sent, checked; or the timer.\<close>

definition wasm_finish_call ::
    "u64 \<Rightarrow> nat option \<Rightarrow> nat \<Rightarrow> ('w, 's) WasmClient \<Rightarrow> (('s RepeError + Message) \<times> ('w, 's) WasmClient) option" where
  "wasm_finish_call rid timer k c =
     (let dropped = c\<lparr>wm_pending := wasm_guard_drop False rid (wm_pending c)\<rparr>
      in case pd_chan (wm_pending c) k of
           Ch_Sent (Inr response) \<Rightarrow> Some (validate_response rid response, c)
         | Ch_Sent (Inl err) \<Rightarrow> Some (Inl err, dropped)
         | Ch_Closed \<Rightarrow> Some (Inl (response_channel_closed_error rid), dropped)
         | Ch_Open \<Rightarrow>
             (case timer of
                Some duration \<Rightarrow> Some (Inl (request_timeout_error rid duration), dropped)
              | None \<Rightarrow> None))"

text \<open>\<open>waiters\<close> is the table's content in the order it drains.\<close>

definition wasm_fail_all_pending ::
    "(io_error \<Rightarrow> string) \<Rightarrow> (u64 \<times> nat) list \<Rightarrow> 's RepeError \<Rightarrow> ('w, 's) WasmClient \<Rightarrow> ('w, 's) WasmClient" where
  "wasm_fail_all_pending dio waiters err c =
     c\<lparr>wm_pending :=
         \<lparr>pd_map = Map.empty,
          pd_chan = fold (\<lambda>(rid, j). channel_send j (Inl (wasm_clone_fatal_error_for_waiter dio err rid))) waiters
            (pd_chan (wm_pending c))\<rparr>\<rparr>"

definition wasm_fail_connection ::
    "(io_error \<Rightarrow> string) \<Rightarrow> (u64 \<times> nat) list \<Rightarrow> 's RepeError \<Rightarrow> ('w, 's) WasmClient \<Rightarrow> ('w, 's) WasmClient" where
  "wasm_fail_connection dio waiters err c =
     (let c = wasm_fail_all_pending dio waiters err c
      in c\<lparr>wm_notify_tx := notify_unsubscribe (wm_notify_tx c)\<rparr>)"

definition handle_message ::
    "nat \<Rightarrow> (io_error \<Rightarrow> string) \<Rightarrow> (u64 \<times> nat) list \<Rightarrow> event_data \<Rightarrow> ('w, 's) WasmClient \<Rightarrow> ('w, 's) WasmClient" where
  "handle_message usize_max dio waiters data c =
     (case decode_message_event usize_max data of
        Inl err \<Rightarrow> wasm_fail_all_pending dio waiters err c
      | Inr response \<Rightarrow>
          (case route_notify response (wm_notify_tx c) of
             (None, channels) \<Rightarrow> c\<lparr>wm_notify_tx := channels\<rparr>
           | (Some response, channels) \<Rightarrow>
               let rid = h_id (m_header response); p = wm_pending c
               in (case pd_map p rid of
                     Some sender \<Rightarrow>
                       c\<lparr>wm_pending := \<lparr>pd_map = (pd_map p)(rid := None),
                          pd_chan = channel_send sender (Inr response) (pd_chan p)\<rparr>\<rparr>
                   | None \<Rightarrow> c)))"

definition on_error where
  "on_error dio waiters c = wasm_fail_connection dio waiters (websocket_event_error ''websocket error'') c"

definition on_close where
  "on_close dio waiters c = wasm_fail_connection dio waiters wasm_websocket_closed_error c"

definition wasm_subscribe_notifies :: "('w, 's) WasmClient \<Rightarrow> (AlreadySubscribed + nat) \<times> ('w, 's) WasmClient" where
  "wasm_subscribe_notifies c =
     (case notify_subscribe (wm_notify_tx c) of (r, channels) \<Rightarrow> (r, c\<lparr>wm_notify_tx := channels\<rparr>))"

definition wasm_unsubscribe_notifies :: "('w, 's) WasmClient \<Rightarrow> ('w, 's) WasmClient" where
  "wasm_unsubscribe_notifies c = c\<lparr>wm_notify_tx := notify_unsubscribe (wm_notify_tx c)\<rparr>"

text \<open>The last handle goes: the handlers are detached, the socket is closed and the waiters are told.\<close>

definition wasm_drop ::
    "(io_error \<Rightarrow> string) \<Rightarrow> ('w \<Rightarrow> 'w) \<Rightarrow> (u64 \<times> nat) list \<Rightarrow> ('w, 's) WasmClient \<Rightarrow> ('w, 's) WasmClient" where
  "wasm_drop dio close waiters c =
     (let c = c\<lparr>wm_ws := close (wm_ws c)\<rparr>
      in wasm_fail_all_pending dio waiters wasm_websocket_closed_error c)"

text \<open>\<^verbatim>\<open>join_all\<close> keeps the order of its futures; \<open>outcome\<close> is what each call returned.\<close>

definition wasm_batch_json_inner :: "('q \<Rightarrow> 'x) \<Rightarrow> 'q list \<Rightarrow> 'x list" where
  "wasm_batch_json_inner outcome requests = map outcome requests"

section \<open>The methods\<close>

definition wasm_call_typed_json_with_optional_timeout ::
    "('v, 's) codec \<Rightarrow> ('u, 's) codec \<Rightarrow> string \<Rightarrow> 'v \<Rightarrow> nat option \<Rightarrow> ('s, 'u) api_call" where
  "wasm_call_typed_json_with_optional_timeout cv cu path body timeout =
     \<lparr>ac_request = pointer_request path timeout (with_body_json (cd_to_json cv) body),
      ac_decode = decode_body (cd_invalid_utf8 cu) (cd_from_json cu) (cd_from_beve cu)\<rparr>"

definition wasm_call_typed_json where
  "wasm_call_typed_json cv cu path body = wasm_call_typed_json_with_optional_timeout cv cu path body None"

definition wasm_call_typed_json_with_timeout where
  "wasm_call_typed_json_with_timeout cv cu path body timeout =
     wasm_call_typed_json_with_optional_timeout cv cu path body (Some timeout)"

definition wasm_call_typed_beve_with_optional_timeout ::
    "('v, 's) codec \<Rightarrow> ('u, 's) codec \<Rightarrow> string \<Rightarrow> 'v \<Rightarrow> nat option \<Rightarrow> ('s, 'u) api_call" where
  "wasm_call_typed_beve_with_optional_timeout cv cu path body timeout =
     \<lparr>ac_request = pointer_request path timeout (with_body_beve (cd_to_beve cv) body),
      ac_decode = decode_body (cd_invalid_utf8 cu) (cd_from_json cu) (cd_from_beve cu)\<rparr>"

definition wasm_call_typed_beve where
  "wasm_call_typed_beve cv cu path body = wasm_call_typed_beve_with_optional_timeout cv cu path body None"

definition wasm_call_typed_beve_with_timeout where
  "wasm_call_typed_beve_with_timeout cv cu path body timeout =
     wasm_call_typed_beve_with_optional_timeout cv cu path body (Some timeout)"

definition wasm_call_message_with_formats_and_timeout ::
    "string \<Rightarrow> u16 \<Rightarrow> bytes option \<Rightarrow> u16 \<Rightarrow> nat option \<Rightarrow> ('s, Message) api_call" where
  "wasm_call_message_with_formats_and_timeout path query_format body body_format timeout =
     \<lparr>ac_request = \<lparr>rq_path = path, rq_query_format = query_format, rq_timeout = timeout,
        rq_body_fn = formats_body body body_format\<rparr>,
      ac_decode = Inr\<rparr>"

definition wasm_call_message :: "string \<Rightarrow> ('s, Message) api_call" where
  "wasm_call_message path =
     wasm_call_message_with_formats_and_timeout path (query_format_u16 QF_JsonPointer) None
       (body_format_u16 BF_RawBinary) None"

definition wasm_call_message_with_timeout :: "string \<Rightarrow> nat \<Rightarrow> ('s, Message) api_call" where
  "wasm_call_message_with_timeout path timeout =
     wasm_call_message_with_formats_and_timeout path (query_format_u16 QF_JsonPointer) None
       (body_format_u16 BF_RawBinary) (Some timeout)"

definition wasm_call_with_formats :: "string \<Rightarrow> u16 \<Rightarrow> bytes option \<Rightarrow> u16 \<Rightarrow> ('s, Message) api_call" where
  "wasm_call_with_formats path query_format body body_format =
     wasm_call_message_with_formats_and_timeout path query_format body body_format None"

definition wasm_call_with_formats_and_timeout ::
    "string \<Rightarrow> u16 \<Rightarrow> bytes option \<Rightarrow> u16 \<Rightarrow> nat \<Rightarrow> ('s, Message) api_call" where
  "wasm_call_with_formats_and_timeout path query_format body body_format timeout =
     wasm_call_message_with_formats_and_timeout path query_format body body_format (Some timeout)"

definition wasm_registry_read_typed :: "('v, 's) codec \<Rightarrow> string \<Rightarrow> ('s, 'v) api_call" where
  "wasm_registry_read_typed cv path =
     (let api = wasm_call_message path :: ('s, Message) api_call
      in \<lparr>ac_request = ac_request api, ac_decode = (\<lambda>m.
        res_bind (ac_decode api m) (json_body (cd_invalid_utf8 cv) (cd_from_json cv)))\<rparr>)"

definition wasm_registry_read_typed_with_timeout :: "('v, 's) codec \<Rightarrow> string \<Rightarrow> nat \<Rightarrow> ('s, 'v) api_call" where
  "wasm_registry_read_typed_with_timeout cv path timeout =
     (let api = wasm_call_message_with_timeout path timeout :: ('s, Message) api_call
      in \<lparr>ac_request = ac_request api, ac_decode = (\<lambda>m.
        res_bind (ac_decode api m) (json_body (cd_invalid_utf8 cv) (cd_from_json cv)))\<rparr>)"

definition wasm_notify_with_builder ::
    "(bytes \<Rightarrow> 'w \<Rightarrow> (string + unit) \<times> 'w) \<Rightarrow> string \<Rightarrow> u16 \<Rightarrow> (MessageBuilder \<Rightarrow> MessageBuilder)
      \<Rightarrow> ('w, 's) WasmClient \<Rightarrow> ('s RepeError + unit) \<times> ('w, 's) WasmClient" where
  "wasm_notify_with_builder send path query_format body_fn c =
     (case wasm_next_request_id c of
        (rid, c) \<Rightarrow>
          (case wasm_write_request send (notify_message rid \<lparr>rq_path = path, rq_query_format = query_format,
                  rq_timeout = None, rq_body_fn = body_fn\<rparr>) (wm_ws c) of
             (r, ws) \<Rightarrow> (r, c\<lparr>wm_ws := ws\<rparr>)))"

definition wasm_notify_with_body where
  "wasm_notify_with_body write path body_fn =
     wasm_notify_with_builder write path (query_format_u16 QF_JsonPointer) body_fn"

definition wasm_notify_json where
  "wasm_notify_json write cv path body = wasm_notify_with_body write path (with_body_json (cd_to_json cv) body)"

definition wasm_notify_beve where
  "wasm_notify_beve write cv path body = wasm_notify_with_body write path (with_body_beve (cd_to_beve cv) body)"

definition wasm_notify_with_message_formats where
  "wasm_notify_with_message_formats write path query_format body body_format =
     wasm_notify_with_builder write path query_format (formats_body body body_format)"

definition wasm_notify_with_formats where
  "wasm_notify_with_formats write path query_format body body_format =
     wasm_notify_with_message_formats write path query_format body body_format"

section \<open>Properties\<close>

lemma channel_sends_open:
  "fold (\<lambda>(rid, j). channel_send j (Inl (f rid))) ws chan k = Ch_Open \<longleftrightarrow> chan k = Ch_Open \<and> k \<notin> snd ` set ws"
  by (induction ws arbitrary: chan) (auto split: if_splits)

text \<open>
  A connection event that ends the connection wakes every call that waits and ends the
  subscription, while an undecodable message wakes the calls and leaves the
  subscription as it was: its socket is still open.
\<close>

theorem wasm_failure_wakes_calls:
  assumes "set waiters = {(rid, j). pd_map (wm_pending c) rid = Some j}"
    and "pd_map (wm_pending c) rid = Some k"
    and "decode_message_event usize_max data = (Inl err :: 's RepeError + Message)"
  shows "pd_chan (wm_pending (on_close dio waiters c)) k \<noteq> (Ch_Open :: 's channel)
    \<and> nc_slot (wm_notify_tx (on_close dio waiters c)) = None
    \<and> pd_chan (wm_pending (handle_message usize_max dio waiters data c)) k \<noteq> Ch_Open
    \<and> wm_notify_tx (handle_message usize_max dio waiters data c) = wm_notify_tx c"
proof -
  have "k \<in> snd ` set waiters" using assms(1,2) by force
  then show ?thesis
    using assms(3)
    by (simp add: on_close_def wasm_fail_connection_def wasm_fail_all_pending_def handle_message_def
        notify_unsubscribe_def channel_sends_open)
qed

theorem wasm_failure_wakes_calls_witness:
  "pd_chan (wm_pending (on_close (\<lambda>_. []) [(1, 0)]
      ((wasm_client_new () :: (unit, unit) WasmClient)\<lparr>wm_pending := pending_insert 1 0 pending_new\<rparr>))) 0 \<noteq> Ch_Open"
proof -
  let ?c = "(wasm_client_new () :: (unit, unit) WasmClient)\<lparr>wm_pending := pending_insert 1 0 pending_new\<rparr>"
  have "set [(1, 0)] = {(rid, j). pd_map (wm_pending ?c) rid = Some j}"
    by (auto simp: pending_new_def split: if_splits)
  moreover have "pd_map (wm_pending ?c) 1 = Some 0" by simp
  moreover have "decode_message_event 65535 OtherData
      = (Inl (wasm_websocket_invalid_data_error ''websocket transport requires ArrayBuffer'') :: unit RepeError + Message)"
    by (simp add: decode_message_event_def)
  ultimately show ?thesis using wasm_failure_wakes_calls [of "[(1, 0)]" ?c 1 0 65535 OtherData] by blast
qed

text \<open>
  A call made after the connection has closed is not told. A browser's \<^verbatim>\<open>WebSocket\<close> that is closed accepts and discards
  what it is given, and it calls no handler any more, so such a call, unless it has a timeout, registers, writes
  successfully and then waits on a channel nothing will resolve.
\<close>

theorem wasm_call_after_close_waits:
  assumes "\<And>bs. send bs (wm_ws c) = (Inr (), wm_ws c)" and "rq_timeout req = None"
  shows "\<exists>c'. wasm_start_call send timer req k (on_close dio waiters c) = (Inr (wm_next_id c), c')
    \<and> wasm_finish_call (wm_next_id c) None k c' = (None :: (('s RepeError + Message) \<times> _) option)"
proof -
  have "wm_ws (on_close dio waiters c) = wm_ws c" "wm_next_id (on_close dio waiters c) = wm_next_id c"
    "pd_map (wm_pending (on_close dio waiters c)) = Map.empty"
    by (simp_all add: on_close_def wasm_fail_connection_def wasm_fail_all_pending_def Let_def)
  with assms show ?thesis
    by (simp add: wasm_start_call_def wasm_next_request_id_def wasm_guard_register_def wasm_write_request_def
        wasm_finish_call_def)
qed

end
