(* ===== verification/Fleet.thy ===== *)
theory Fleet
  imports Client
begin

text \<open>
  The fleet of \<^verbatim>\<open>src/fleet.rs\<close>: named nodes, each with a connection made when it is first
  needed, calls that are tried again after transport failures, and broadcasts to the nodes
  that carry given tags.

  A node's state is shared (\<^verbatim>\<open>Arc<NodeState>\<close>): a call that holds it goes on
  after the node was removed from the table. So the table maps a name to
  an index into \<open>fl_states\<close>, which only grows. The network is an argument: \<open>connect\<close> is
  \<^verbatim>\<open>Client::connect\<close>, \<open>call\<close> one call on a connection (the \<open>client_step\<close>s of the blocking client
  up to its \<open>Done\<close>), \<open>sleep\<close> is \<^verbatim>\<open>thread::sleep\<close> and \<open>now\<close> the clock; all four run on a world of
  type \<open>'w\<close>. Durations are in nanoseconds. A \<^verbatim>\<open>HashMap\<close> iterates in an order of its own, the
  argument \<open>order\<close>; nothing shown here depends on it.
\<close>

section \<open>Configuration\<close>

datatype FleetError =
    FE_EmptyHost
  | FE_EmptyNodeName
  | FE_InvalidPort u16
  | FE_InvalidTimeout
  | FE_InvalidRetryAttempts
  | FE_DuplicateNodeName string
  | FE_NodeNotFound string
  | FE_NodeInitialization string
  | FE_InvalidRedundancy
  | FE_InvalidChunkSize
  | FE_InvalidFecGroupSize
  | FE_InvalidParityShards

fun fleet_error_display :: "FleetError \<Rightarrow> string" where
  "fleet_error_display FE_EmptyHost = ''host cannot be empty''"
| "fleet_error_display FE_EmptyNodeName = ''node name cannot be empty''"
| "fleet_error_display (FE_InvalidPort port) =
     ''port must be between 1 and 65535, got '' @ dec_str (unat port)"
| "fleet_error_display FE_InvalidTimeout = ''timeout must be greater than zero''"
| "fleet_error_display FE_InvalidRetryAttempts = ''retry max_attempts must be at least 1''"
| "fleet_error_display (FE_DuplicateNodeName name) = ''duplicate node name: '' @ [CHR 0x22] @ name @ [CHR 0x22]"
| "fleet_error_display (FE_NodeNotFound name) = ''node not found: '' @ [CHR 0x22] @ name @ [CHR 0x22]"
| "fleet_error_display (FE_NodeInitialization e) = ''node initialization failed: '' @ e"
| "fleet_error_display FE_InvalidRedundancy = ''redundancy must be at least 1''"
| "fleet_error_display FE_InvalidChunkSize = ''chunk_size must be at least 1''"
| "fleet_error_display FE_InvalidFecGroupSize = ''fec_group_size must be at least 1''"
| "fleet_error_display FE_InvalidParityShards = ''parity_shards must be between 1 and 16''"

definition from_secs :: "nat \<Rightarrow> nat" where
  "from_secs n = n * 1000000000"

definition DEFAULT_TIMEOUT :: nat where
  "DEFAULT_TIMEOUT = from_secs 30"

definition DEFAULT_RETRY_DELAY :: nat where
  "DEFAULT_RETRY_DELAY = from_secs 1"

definition DEFAULT_HEALTH_TIMEOUT :: nat where
  "DEFAULT_HEALTH_TIMEOUT = from_secs 5"

record NodeConfig =
  nc_name :: string
  nc_host :: string
  nc_port :: u16
  nc_tags :: "string set"
  nc_timeout :: nat

definition validate_host :: "string \<Rightarrow> FleetError + unit" where
  "validate_host host = (if host = [] then Inl FE_EmptyHost else Inr ())"

definition validate_port :: "u16 \<Rightarrow> FleetError + unit" where
  "validate_port port = (if port = 0 then Inl (FE_InvalidPort port) else Inr ())"

definition validate_timeout :: "nat \<Rightarrow> FleetError + unit" where
  "validate_timeout timeout = (if timeout = 0 then Inl FE_InvalidTimeout else Inr ())"

definition validate_node_config :: "NodeConfig \<Rightarrow> FleetError + unit" where
  "validate_node_config config =
     res_bind (validate_host (nc_host config)) (\<lambda>_.
     res_bind (validate_port (nc_port config)) (\<lambda>_.
     res_bind (validate_timeout (nc_timeout config)) (\<lambda>_.
     if nc_name config = [] then Inl FE_EmptyNodeName else Inr ())))"

definition node_config_new :: "string \<Rightarrow> u16 \<Rightarrow> FleetError + NodeConfig" where
  "node_config_new host port =
     res_bind (validate_host host) (\<lambda>_.
     res_bind (validate_port port) (\<lambda>_.
     Inr \<lparr>nc_name = host, nc_host = host, nc_port = port, nc_tags = {}, nc_timeout = DEFAULT_TIMEOUT\<rparr>))"

definition with_name :: "string \<Rightarrow> NodeConfig \<Rightarrow> FleetError + NodeConfig" where
  "with_name name c = (if name = [] then Inl FE_EmptyNodeName else Inr (c\<lparr>nc_name := name\<rparr>))"

definition with_tags :: "string list \<Rightarrow> NodeConfig \<Rightarrow> NodeConfig" where
  "with_tags tags c = c\<lparr>nc_tags := set tags\<rparr>"

definition with_timeout :: "nat \<Rightarrow> NodeConfig \<Rightarrow> FleetError + NodeConfig" where
  "with_timeout timeout c = res_bind (validate_timeout timeout) (\<lambda>_. Inr (c\<lparr>nc_timeout := timeout\<rparr>))"

definition config_address :: "NodeConfig \<Rightarrow> string \<times> u16" where
  "config_address c = (nc_host c, nc_port c)"

record RetryPolicy =
  rp_max_attempts :: nat
  rp_delay :: nat

definition retry_policy_default :: RetryPolicy where
  "retry_policy_default = \<lparr>rp_max_attempts = 3, rp_delay = DEFAULT_RETRY_DELAY\<rparr>"

record FleetOptions =
  fo_default_timeout :: nat
  fo_retry_policy :: RetryPolicy

definition fleet_options_default :: FleetOptions where
  "fleet_options_default = \<lparr>fo_default_timeout = DEFAULT_TIMEOUT, fo_retry_policy = retry_policy_default\<rparr>"

definition validate_fleet_options :: "FleetOptions \<Rightarrow> FleetError + unit" where
  "validate_fleet_options options =
     res_bind (validate_timeout (fo_default_timeout options)) (\<lambda>_.
     if rp_max_attempts (fo_retry_policy options) < 1 then Inl FE_InvalidRetryAttempts else Inr ())"

section \<open>Results\<close>

record Node =
  nd_name :: string
  nd_host :: string
  nd_port :: u16
  nd_tags :: "string set"
  nd_timeout :: nat

definition node_address :: "Node \<Rightarrow> string \<times> u16" where
  "node_address n = (nd_host n, nd_port n)"

definition node_display :: "Node \<Rightarrow> string" where
  "node_display n =
     ''Node('' @ [CHR 0x22] @ nd_name n @ [CHR 0x22] @ '', '' @ nd_host n @ '':'' @ dec_str (unat (nd_port n)) @ '')''"

record ('v, 's) RemoteResult =
  rr_node :: string
  rr_value :: "'v option"
  rr_error :: "'s RepeError option"
  rr_elapsed :: nat

definition succeeded :: "('v, 's) RemoteResult \<Rightarrow> bool" where
  "succeeded r \<longleftrightarrow> rr_error r = None"

definition failed :: "('v, 's) RemoteResult \<Rightarrow> bool" where
  "failed r \<longleftrightarrow> rr_error r \<noteq> None"

definition into_result :: "('v, 's) RemoteResult \<Rightarrow> 's RepeError + 'v" where
  "into_result r =
     (case (rr_value r, rr_error r) of
        (Some value, None) \<Rightarrow> Inr value
      | (_, Some err) \<Rightarrow> Inl err
      | (None, None) \<Rightarrow> Inl (RE_Io (IoError K_Other ''remote result missing value and error'')))"

definition remote_result_display :: "('v, 's) RemoteResult \<Rightarrow> string" where
  "remote_result_display r =
     (if succeeded r
      then ''RemoteResult('' @ rr_node r @ '', success, '' @ dec_str (rr_elapsed r div 1000000) @ ''ms)''
      else ''RemoteResult('' @ rr_node r @ '', failed, '' @ dec_str (rr_elapsed r div 1000000) @ ''ms)'')"

record 's HealthStatus =
  hs_healthy :: bool
  hs_latency :: nat
  hs_error :: "'s RepeError option"

record ConnectSummary =
  sm_connected :: "string list"
  sm_failed :: "string list"

section \<open>Nodes and their connections\<close>

record 'c NodeState =
  ns_config :: NodeConfig
  ns_tags :: "string set"
  ns_client :: "'c option"

definition node_state_new :: "NodeConfig \<Rightarrow> 'c NodeState" where
  "node_state_new config = \<lparr>ns_config = config, ns_tags = nc_tags config, ns_client = None\<rparr>"

definition node_snapshot :: "'c NodeState \<Rightarrow> Node" where
  "node_snapshot n =
     \<lparr>nd_name = nc_name (ns_config n), nd_host = nc_host (ns_config n), nd_port = nc_port (ns_config n),
      nd_tags = ns_tags n, nd_timeout = nc_timeout (ns_config n)\<rparr>"

type_synonym ('c, 'w) world = "'c NodeState list \<times> 'w"

definition ensure_connected ::
    "(string \<times> u16 \<Rightarrow> 'w \<Rightarrow> (io_error + 'c) \<times> 'w) \<Rightarrow> nat \<Rightarrow> ('c, 'w) world
      \<Rightarrow> ('s RepeError + 'c) \<times> ('c, 'w) world" where
  "ensure_connected connect i st =
     (case st of
        (states, w) \<Rightarrow>
          (case ns_client (states ! i) of
             Some existing \<Rightarrow> (Inr existing, (states, w))
           | None \<Rightarrow>
               (case connect (config_address (ns_config (states ! i))) w of
                  (Inl e, w) \<Rightarrow> (Inl (RE_Io e), (states, w))
                | (Inr created, w) \<Rightarrow>
                    (Inr created, (states[i := (states ! i)\<lparr>ns_client := Some created\<rparr>], w)))))"

definition invalidate_client :: "nat \<Rightarrow> ('c, 'w) world \<Rightarrow> ('c, 'w) world" where
  "invalidate_client i st =
     (case st of (states, w) \<Rightarrow> (states[i := (states ! i)\<lparr>ns_client := None\<rparr>], w))"

definition is_retryable_error :: "'s RepeError \<Rightarrow> bool" where
  "is_retryable_error err =
     (case err of
        RE_Io io_err \<Rightarrow>
          io_error_kind io_err \<in> {K_TimedOut, K_ConnectionRefused, K_ConnectionReset, K_ConnectionAborted,
            K_NotConnected, K_UnexpectedEof, K_WouldBlock, K_Interrupted}
      | RE_ServerError _ _ \<Rightarrow> False
      | _ \<Rightarrow> False)"

definition encode_params :: "('t \<Rightarrow> bytes) \<Rightarrow> 't option \<Rightarrow> bytes option" where
  "encode_params to_json params = map_option to_json params"

section \<open>Calls\<close>

text \<open>
  One attempt: connect if need be, call, decode. The request of \<^verbatim>\<open>call_json_with_retry\<close> has the
  encoded parameters as its body or none at all.
\<close>

definition json_request :: "string \<Rightarrow> bytes option \<Rightarrow> nat \<Rightarrow> ('s, Message) api_call" where
  "json_request path body timeout =
     (case body of
        Some bs \<Rightarrow> call_with_formats_and_timeout path (query_format_u16 QF_JsonPointer) (Some bs)
                     (body_format_u16 BF_Json) timeout
      | None \<Rightarrow> call_message_with_timeout path timeout)"

definition attempt_call ::
    "(string \<times> u16 \<Rightarrow> 'w \<Rightarrow> (io_error + 'c) \<times> 'w) \<Rightarrow> ('c \<Rightarrow> request \<Rightarrow> 'w \<Rightarrow> ('s RepeError + Message) \<times> 'w)
      \<Rightarrow> (nat \<Rightarrow> ('s, Message) api_call) \<Rightarrow> (Message \<Rightarrow> 's RepeError + 'v) \<Rightarrow> nat \<Rightarrow> ('c, 'w) world
      \<Rightarrow> ('s RepeError + 'v) \<times> ('c, 'w) world" where
  "attempt_call connect call api decode i st =
     (let timeout = nc_timeout (ns_config (fst st ! i))
      in case ensure_connected connect i st of
           (Inl err, st) \<Rightarrow> (Inl err, st)
         | (Inr client, (states, w)) \<Rightarrow>
             (case call client (ac_request (api timeout)) w of
                (r, w) \<Rightarrow> (res_bind (api_result (api timeout) r) decode, (states, w))))"

text \<open>
  The loop over \<open>0..max_attempts\<close>, by the attempts left: its value or the last error, and the state
  it ends in.
\<close>

fun retry_loop ::
    "('st \<Rightarrow> ('s RepeError + 'v) \<times> 'st) \<Rightarrow> ('st \<Rightarrow> 'st) \<Rightarrow> ('st \<Rightarrow> 'st) \<Rightarrow> nat \<Rightarrow> 's RepeError option
      \<Rightarrow> 'st \<Rightarrow> ('v option \<times> 's RepeError option) \<times> 'st" where
  "retry_loop attempt invalidate sleep 0 last_error st = ((None, last_error), st)"
| "retry_loop attempt invalidate sleep (Suc left) last_error st =
     (case attempt st of
        (Inr value, st) \<Rightarrow> ((Some value, None), st)
      | (Inl err, st) \<Rightarrow>
          if is_retryable_error err
          then let st = invalidate st; st = (if 0 < left then sleep st else st)
               in retry_loop attempt invalidate sleep left (Some err) st
          else ((None, Some err), st))"

definition call_json_with_retry ::
    "(string \<times> u16 \<Rightarrow> 'w \<Rightarrow> (io_error + 'c) \<times> 'w) \<Rightarrow> ('c \<Rightarrow> request \<Rightarrow> 'w \<Rightarrow> ('s RepeError + Message) \<times> 'w)
      \<Rightarrow> (nat \<Rightarrow> 'w \<Rightarrow> 'w) \<Rightarrow> ('w \<Rightarrow> nat) \<Rightarrow> ('v, 's) codec \<Rightarrow> RetryPolicy \<Rightarrow> nat \<Rightarrow> string \<Rightarrow> bytes option
      \<Rightarrow> ('c, 'w) world \<Rightarrow> ('v, 's) RemoteResult \<times> ('c, 'w) world" where
  "call_json_with_retry connect call sleep now cv policy i path body st =
     (case retry_loop
             (attempt_call connect call (json_request path body)
               (decode_body (cd_invalid_utf8 cv) (cd_from_json cv) (cd_from_beve cv)) i)
             (invalidate_client i) (apsnd (sleep (rp_delay policy))) (rp_max_attempts policy) None st of
        ((value, error), st') \<Rightarrow>
          (\<lparr>rr_node = nc_name (ns_config (fst st ! i)), rr_value = value, rr_error = error,
            rr_elapsed = now (snd st') - now (snd st)\<rparr>, st'))"

definition call_message_with_retry ::
    "(string \<times> u16 \<Rightarrow> 'w \<Rightarrow> (io_error + 'c) \<times> 'w) \<Rightarrow> ('c \<Rightarrow> request \<Rightarrow> 'w \<Rightarrow> ('s RepeError + Message) \<times> 'w)
      \<Rightarrow> (nat \<Rightarrow> 'w \<Rightarrow> 'w) \<Rightarrow> ('w \<Rightarrow> nat) \<Rightarrow> RetryPolicy \<Rightarrow> nat \<Rightarrow> string
      \<Rightarrow> ('c, 'w) world \<Rightarrow> (Message, 's) RemoteResult \<times> ('c, 'w) world" where
  "call_message_with_retry connect call sleep now policy i path st =
     (case retry_loop
             (attempt_call connect call (call_message_with_timeout path) Inr i)
             (invalidate_client i) (apsnd (sleep (rp_delay policy))) (rp_max_attempts policy) None st of
        ((value, error), st') \<Rightarrow>
          (\<lparr>rr_node = nc_name (ns_config (fst st ! i)), rr_value = value, rr_error = error,
            rr_elapsed = now (snd st') - now (snd st)\<rparr>, st'))"

text \<open>One thread of \<^verbatim>\<open>health_check\<close>: any error at all gives the connection up.\<close>

definition health_probe ::
    "(string \<times> u16 \<Rightarrow> 'w \<Rightarrow> (io_error + 'c) \<times> 'w) \<Rightarrow> ('c \<Rightarrow> request \<Rightarrow> 'w \<Rightarrow> ('s RepeError + Message) \<times> 'w)
      \<Rightarrow> ('w \<Rightarrow> nat) \<Rightarrow> string \<Rightarrow> nat \<Rightarrow> ('c, 'w) world \<Rightarrow> (string \<times> 's HealthStatus) \<times> ('c, 'w) world" where
  "health_probe connect call now endpoint i st =
     (let name = nc_name (ns_config (fst st ! i));
          api = call_message_with_timeout endpoint DEFAULT_HEALTH_TIMEOUT
      in case attempt_call connect call (\<lambda>_. api) Inr i st of
           (Inr _, st') \<Rightarrow>
             ((name, \<lparr>hs_healthy = True, hs_latency = now (snd st') - now (snd st), hs_error = None\<rparr>), st')
         | (Inl err, st') \<Rightarrow>
             (let st' = invalidate_client i st'
              in ((name, \<lparr>hs_healthy = False, hs_latency = now (snd st') - now (snd st), hs_error = Some err\<rparr>), st')))"

section \<open>The fleet\<close>

record 'c Fleet =
  fl_nodes :: "string \<rightharpoonup> nat"
  fl_states :: "'c NodeState list"
  fl_options :: FleetOptions

definition fleet_default :: "'c Fleet" where
  "fleet_default = \<lparr>fl_nodes = Map.empty, fl_states = [], fl_options = fleet_options_default\<rparr>"

text \<open>\<^verbatim>\<open>nodes.insert(config.name.clone(), Arc::new(NodeState::new(config)))\<close>\<close>

definition insert_node :: "NodeConfig \<Rightarrow> 'c Fleet \<Rightarrow> 'c Fleet" where
  "insert_node config f =
     f\<lparr>fl_nodes := (fl_nodes f)(nc_name config \<mapsto> length (fl_states f)),
       fl_states := fl_states f @ [node_state_new config]\<rparr>"

fun insert_configs :: "NodeConfig list \<Rightarrow> string set \<Rightarrow> 'c Fleet \<Rightarrow> FleetError + 'c Fleet" where
  "insert_configs [] names f = Inr f"
| "insert_configs (config # configs) names f =
     res_bind (validate_node_config config) (\<lambda>_.
     if nc_name config \<in> names then Inl (FE_DuplicateNodeName (nc_name config))
     else insert_configs configs (insert (nc_name config) names) (insert_node config f))"

definition fleet_with_options :: "NodeConfig list \<Rightarrow> FleetOptions \<Rightarrow> FleetError + 'c Fleet" where
  "fleet_with_options configs options =
     res_bind (validate_fleet_options options) (\<lambda>_.
     insert_configs configs {} \<lparr>fl_nodes = Map.empty, fl_states = [], fl_options = options\<rparr>)"

definition fleet_new :: "NodeConfig list \<Rightarrow> FleetError + 'c Fleet" where
  "fleet_new configs = fleet_with_options configs fleet_options_default"

definition node_state :: "string \<Rightarrow> 'c Fleet \<Rightarrow> FleetError + nat" where
  "node_state name f = ok_or (FE_NodeNotFound name) (fl_nodes f name)"

definition snapshot_node_states :: "string list \<Rightarrow> 'c Fleet \<Rightarrow> nat list" where
  "snapshot_node_states order f = List.map_filter (fl_nodes f) order"

definition snapshot_target_nodes :: "string list \<Rightarrow> string list \<Rightarrow> 'c Fleet \<Rightarrow> nat list" where
  "snapshot_target_nodes order tags f =
     filter (\<lambda>i. set tags \<subseteq> ns_tags (fl_states f ! i)) (snapshot_node_states order f)"

definition fleet_len :: "string list \<Rightarrow> 'c Fleet \<Rightarrow> nat" where
  "fleet_len order f = length (snapshot_node_states order f)"

definition fleet_is_empty :: "string list \<Rightarrow> 'c Fleet \<Rightarrow> bool" where
  "fleet_is_empty order f \<longleftrightarrow> fleet_len order f = 0"

definition fleet_keys :: "string list \<Rightarrow> 'c Fleet \<Rightarrow> string list" where
  "fleet_keys order f = filter (\<lambda>name. fl_nodes f name \<noteq> None) order"

definition fleet_node :: "string \<Rightarrow> 'c Fleet \<Rightarrow> FleetError + Node" where
  "fleet_node name f =
     res_bind (ok_or (FE_NodeNotFound name) (fl_nodes f name)) (\<lambda>i. Inr (node_snapshot (fl_states f ! i)))"

definition fleet_all_nodes :: "string list \<Rightarrow> 'c Fleet \<Rightarrow> Node list" where
  "fleet_all_nodes order f = map (\<lambda>i. node_snapshot (fl_states f ! i)) (snapshot_node_states order f)"

definition connected_nodes :: "string list \<Rightarrow> 'c Fleet \<Rightarrow> Node list" where
  "connected_nodes order f =
     List.map_filter (\<lambda>i. if ns_client (fl_states f ! i) \<noteq> None then Some (node_snapshot (fl_states f ! i)) else None)
       (snapshot_node_states order f)"

definition filter_nodes :: "string list \<Rightarrow> string list \<Rightarrow> 'c Fleet \<Rightarrow> Node list" where
  "filter_nodes order tags f =
     map (\<lambda>i. node_snapshot (fl_states f ! i))
       (filter (\<lambda>i. set tags \<subseteq> ns_tags (fl_states f ! i)) (snapshot_node_states order f))"

definition add_node :: "NodeConfig \<Rightarrow> 'c Fleet \<Rightarrow> (FleetError + unit) \<times> 'c Fleet" where
  "add_node config f =
     (case validate_node_config config of
        Inl e \<Rightarrow> (Inl e, f)
      | Inr _ \<Rightarrow>
          if fl_nodes f (nc_name config) \<noteq> None then (Inl (FE_DuplicateNodeName (nc_name config)), f)
          else (Inr (), insert_node config f))"

definition remove_node :: "string \<Rightarrow> 'c Fleet \<Rightarrow> bool \<times> 'c Fleet" where
  "remove_node name f =
     (case fl_nodes f name of
        Some i \<Rightarrow>
          (True, f\<lparr>fl_nodes := (fl_nodes f)(name := None),
                   fl_states := (fl_states f)[i := (fl_states f ! i)\<lparr>ns_client := None\<rparr>]\<rparr>)
      | None \<Rightarrow> (False, f))"

section \<open>Operations on the whole fleet\<close>

text \<open>
  \<^verbatim>\<open>connect_all\<close> runs \<open>ensure_connected\<close> for each node on a thread of its own and joins the threads in
  order. \<open>sched\<close> lists the threads that came to their end, in the order they took the lock of their
  node; one that is not listed panicked.
\<close>

fun run_threads :: "(nat \<Rightarrow> 'st \<Rightarrow> 'x \<times> 'st) \<Rightarrow> nat list \<Rightarrow> 'st \<Rightarrow> (nat \<rightharpoonup> 'x) \<times> 'st" where
  "run_threads thread [] st = (Map.empty, st)"
| "run_threads thread (i # sched) st =
     (case thread i st of
        (x, st) \<Rightarrow> (case run_threads thread sched st of (joined, st) \<Rightarrow> (joined(i \<mapsto> x), st)))"

fun join_connects :: "(nat \<rightharpoonup> string \<times> bool) \<Rightarrow> nat list \<Rightarrow> ConnectSummary \<Rightarrow> ConnectSummary" where
  "join_connects joined [] summary = summary"
| "join_connects joined (i # handles) summary =
     join_connects joined handles
       (case joined i of
          Some (name, True) \<Rightarrow> summary\<lparr>sm_connected := sm_connected summary @ [name]\<rparr>
        | Some (name, False) \<Rightarrow> summary\<lparr>sm_failed := sm_failed summary @ [name]\<rparr>
        | None \<Rightarrow> summary\<lparr>sm_failed := sm_failed summary @ [''<unknown>'']\<rparr>)"

definition connect_thread ::
    "(string \<times> u16 \<Rightarrow> 'w \<Rightarrow> (io_error + 'c) \<times> 'w) \<Rightarrow> nat \<Rightarrow> ('c, 'w) world \<Rightarrow> (string \<times> bool) \<times> ('c, 'w) world" where
  "connect_thread connect i st =
     (let name = nc_name (ns_config (fst st ! i))
      in case (ensure_connected connect i st :: (unit RepeError + 'c) \<times> ('c, 'w) world) of
           (r, st) \<Rightarrow> ((name, \<not> isl r), st))"

definition connect_all ::
    "(string \<times> u16 \<Rightarrow> 'w \<Rightarrow> (io_error + 'c) \<times> 'w) \<Rightarrow> nat list \<Rightarrow> string list \<Rightarrow> 'c Fleet \<Rightarrow> 'w
      \<Rightarrow> ConnectSummary \<times> 'c Fleet \<times> 'w" where
  "connect_all connect sched order f w =
     (let nodes = snapshot_node_states order f
      in case run_threads (connect_thread connect) sched (fl_states f, w) of
           (joined, (states, w)) \<Rightarrow>
             (join_connects joined nodes \<lparr>sm_connected = [], sm_failed = []\<rparr>, f\<lparr>fl_states := states\<rparr>, w))"

definition disconnect_all :: "string list \<Rightarrow> 'c Fleet \<Rightarrow> string list \<times> 'c Fleet" where
  "disconnect_all order f =
     (let nodes = snapshot_node_states order f
      in (map (\<lambda>i. nc_name (ns_config (fl_states f ! i))) nodes,
          f\<lparr>fl_states := fold (\<lambda>i states. states[i := (states ! i)\<lparr>ns_client := None\<rparr>]) nodes (fl_states f)\<rparr>))"

text \<open>Only the nodes without a connection get a thread.\<close>

definition reconnect_disconnected ::
    "(string \<times> u16 \<Rightarrow> 'w \<Rightarrow> (io_error + 'c) \<times> 'w) \<Rightarrow> nat list \<Rightarrow> string list \<Rightarrow> 'c Fleet \<Rightarrow> 'w
      \<Rightarrow> ConnectSummary \<times> 'c Fleet \<times> 'w" where
  "reconnect_disconnected connect sched order f w =
     (let nodes = filter (\<lambda>i. ns_client (fl_states f ! i) = None) (snapshot_node_states order f)
      in case run_threads (connect_thread connect) sched (fl_states f, w) of
           (joined, (states, w)) \<Rightarrow>
             (join_connects joined nodes \<lparr>sm_connected = [], sm_failed = []\<rparr>, f\<lparr>fl_states := states\<rparr>, w))"

definition is_connected_all :: "string list \<Rightarrow> 'c Fleet \<Rightarrow> bool" where
  "is_connected_all order f \<longleftrightarrow>
     list_all (\<lambda>i. ns_client (fl_states f ! i) \<noteq> None) (snapshot_node_states order f)"

definition is_connected :: "string \<Rightarrow> 'c Fleet \<Rightarrow> FleetError + bool" where
  "is_connected name f =
     res_bind (ok_or (FE_NodeNotFound name) (fl_nodes f name))
       (\<lambda>i. Inr (ns_client (fl_states f ! i) \<noteq> None))"

definition fleet_display :: "string list \<Rightarrow> 'c Fleet \<Rightarrow> string" where
  "fleet_display order f =
     (let total = fleet_len order f; connected = length (connected_nodes order f)
      in ''Fleet('' @ dec_str connected @ ''/'' @ dec_str total @ '' nodes connected)'')"

definition fleet_call_json ::
    "(string \<times> u16 \<Rightarrow> 'w \<Rightarrow> (io_error + 'c) \<times> 'w) \<Rightarrow> ('c \<Rightarrow> request \<Rightarrow> 'w \<Rightarrow> ('s RepeError + Message) \<times> 'w)
      \<Rightarrow> (nat \<Rightarrow> 'w \<Rightarrow> 'w) \<Rightarrow> ('w \<Rightarrow> nat) \<Rightarrow> ('t \<Rightarrow> bytes) \<Rightarrow> ('v, 's) codec \<Rightarrow> string \<Rightarrow> string \<Rightarrow> 't option
      \<Rightarrow> 'c Fleet \<Rightarrow> 'w \<Rightarrow> (FleetError + ('v, 's) RemoteResult) \<times> 'c Fleet \<times> 'w" where
  "fleet_call_json connect call sleep now to_json cv node_name path params f w =
     (case node_state node_name f of
        Inl e \<Rightarrow> (Inl e, f, w)
      | Inr i \<Rightarrow>
          (case call_json_with_retry connect call sleep now cv (fo_retry_policy (fl_options f)) i path
                  (encode_params to_json params) (fl_states f, w) of
             (r, (states, w)) \<Rightarrow> (Inr r, f\<lparr>fl_states := states\<rparr>, w)))"

definition fleet_call_message ::
    "(string \<times> u16 \<Rightarrow> 'w \<Rightarrow> (io_error + 'c) \<times> 'w) \<Rightarrow> ('c \<Rightarrow> request \<Rightarrow> 'w \<Rightarrow> ('s RepeError + Message) \<times> 'w)
      \<Rightarrow> (nat \<Rightarrow> 'w \<Rightarrow> 'w) \<Rightarrow> ('w \<Rightarrow> nat) \<Rightarrow> string \<Rightarrow> string
      \<Rightarrow> 'c Fleet \<Rightarrow> 'w \<Rightarrow> (FleetError + (Message, 's) RemoteResult) \<times> 'c Fleet \<times> 'w" where
  "fleet_call_message connect call sleep now node_name path f w =
     (case node_state node_name f of
        Inl e \<Rightarrow> (Inl e, f, w)
      | Inr i \<Rightarrow>
          (case call_message_with_retry connect call sleep now (fo_retry_policy (fl_options f)) i path
                  (fl_states f, w) of
             (r, (states, w)) \<Rightarrow> (Inr r, f\<lparr>fl_states := states\<rparr>, w)))"

text \<open>
  A broadcast starts \<^verbatim>\<open>call_json_with_retry\<close> on a thread for each target, and these interleave
  freely. \<open>joined i\<close> is what joining the thread of node \<open>i\<close> gave, none if it panicked; the results
  are gathered under the names they carry. \<^verbatim>\<open>health_check\<close> gathers its probes in the same way.
\<close>

fun join_results :: "(nat \<rightharpoonup> string \<times> 'x) \<Rightarrow> nat list \<Rightarrow> (string \<rightharpoonup> 'x) \<Rightarrow> (string \<rightharpoonup> 'x)" where
  "join_results joined [] results = results"
| "join_results joined (i # handles) results =
     join_results joined handles
       (case joined i of Some (name, result) \<Rightarrow> results(name \<mapsto> result) | None \<Rightarrow> results)"

definition broadcast_json ::
    "(nat \<rightharpoonup> ('v, 's) RemoteResult) \<Rightarrow> string list \<Rightarrow> string list \<Rightarrow> 'c Fleet \<Rightarrow> (string \<rightharpoonup> ('v, 's) RemoteResult)" where
  "broadcast_json joined order tags f =
     join_results (\<lambda>i. map_option (\<lambda>r. (rr_node r, r)) (joined i)) (snapshot_target_nodes order tags f) Map.empty"

text \<open>\<open>values\<close> is the order in which the table of results yields its values.\<close>

definition map_reduce_json ::
    "(nat \<rightharpoonup> ('v, 's) RemoteResult) \<Rightarrow> string list \<Rightarrow> string list \<Rightarrow> (('v, 's) RemoteResult list \<Rightarrow> 'r)
      \<Rightarrow> string list \<Rightarrow> 'c Fleet \<Rightarrow> 'r" where
  "map_reduce_json joined order tags reduce_fn values f =
     reduce_fn (List.map_filter (broadcast_json joined order tags f) values)"

definition health_check ::
    "(nat \<rightharpoonup> string \<times> 's HealthStatus) \<Rightarrow> string list \<Rightarrow> 'c Fleet \<Rightarrow> (string \<rightharpoonup> 's HealthStatus)" where
  "health_check joined order f = join_results joined (snapshot_node_states order f) Map.empty"

section \<open>The table of nodes\<close>

text \<open>
  Connecting and giving up connections changes nothing of a node but its connection.
\<close>

definition same_nodes :: "'c NodeState list \<Rightarrow> 'c NodeState list \<Rightarrow> bool" where
  "same_nodes xs ys \<longleftrightarrow> length ys = length xs
     \<and> (\<forall>i < length xs. ns_config (ys ! i) = ns_config (xs ! i) \<and> ns_tags (ys ! i) = ns_tags (xs ! i))"

lemma same_nodes_refl [simp]: "same_nodes xs xs"
  by (simp add: same_nodes_def)

lemma same_nodes_trans: "same_nodes xs ys \<Longrightarrow> same_nodes ys zs \<Longrightarrow> same_nodes xs zs"
  by (simp add: same_nodes_def)

lemma same_nodes_update [simp]: "same_nodes xs (xs[i := (xs ! i)\<lparr>ns_client := c\<rparr>])"
  by (cases "i < length xs") (simp_all add: same_nodes_def nth_list_update)

lemma same_nodes_ensure: "ensure_connected connect i st = (r, st') \<Longrightarrow> same_nodes (fst st) (fst st')"
  by (auto simp: ensure_connected_def split: prod.splits option.splits sum.splits)

lemma same_nodes_invalidate [simp]: "same_nodes (fst st) (fst (invalidate_client i st))"
  by (auto simp: invalidate_client_def split: prod.split)

lemma same_nodes_attempt: "attempt_call connect call api decode i st = (r, st') \<Longrightarrow> same_nodes (fst st) (fst st')"
  by (auto simp: attempt_call_def Let_def split: prod.splits sum.splits dest: same_nodes_ensure)

lemma same_nodes_retry:
  assumes "\<And>st r st'. attempt st = (r, st') \<Longrightarrow> same_nodes (fst st) (fst st')"
    and "\<And>st. fst (sleep st) = fst st"
  shows "retry_loop attempt (invalidate_client i) sleep n err st = (x, st') \<Longrightarrow> same_nodes (fst st) (fst st')"
proof (induction n arbitrary: err st)
  case (Suc n)
  obtain r st1 where a: "attempt st = (r, st1)" by (cases "attempt st")
  show ?case
  proof (cases "\<exists>e. r = Inl e \<and> is_retryable_error e")
    case True
    define st2 where "st2 = (if 0 < n then sleep (invalidate_client i st1) else invalidate_client i st1)"
    have "fst st2 = fst (invalidate_client i st1)" by (simp add: st2_def assms(2))
    moreover from True Suc.prems a
    obtain err' where "retry_loop attempt (invalidate_client i) sleep n err' st2 = (x, st')"
      by (auto simp: Let_def st2_def)
    ultimately show ?thesis
      using Suc.IH assms(1) [OF a] by (metis same_nodes_invalidate same_nodes_trans)
  next
    case False
    with Suc.prems a assms(1) [OF a] show ?thesis by (auto split: sum.splits if_splits)
  qed
qed simp

lemma same_nodes_call:
  "call_json_with_retry connect call sleep now cv policy i path body st = (r, st') \<Longrightarrow> same_nodes (fst st) (fst st')"
  "call_message_with_retry connect call sleep now policy i path st = (m, st') \<Longrightarrow> same_nodes (fst st) (fst st')"
  unfolding call_json_with_retry_def call_message_with_retry_def
  by (auto split: prod.splits elim!: same_nodes_retry [rotated 2] dest: same_nodes_attempt)

lemma same_nodes_threads:
  assumes "\<And>i st x st'. thread i st = (x, st') \<Longrightarrow> same_nodes (fst st) (fst st')"
  shows "run_threads thread sched st = (joined, st') \<Longrightarrow> same_nodes (fst st) (fst st')"
  by (induction sched arbitrary: st joined) (auto split: prod.splits dest: assms intro: same_nodes_trans)

lemma same_nodes_connect_thread: "connect_thread connect i st = (x, st') \<Longrightarrow> same_nodes (fst st) (fst st')"
  by (auto simp: connect_thread_def Let_def split: prod.splits dest: same_nodes_ensure)

lemma same_nodes_disconnects:
  "same_nodes xs (fold (\<lambda>i states. states[i := (states ! i)\<lparr>ns_client := None\<rparr>]) ks xs)"
  by (induction ks arbitrary: xs) (auto intro: same_nodes_trans [OF same_nodes_update])

text \<open>
  What holds of every fleet: an entry of the table leads to a valid node of that name.
\<close>

definition fleet_ok :: "'c Fleet \<Rightarrow> bool" where
  "fleet_ok f \<longleftrightarrow> validate_fleet_options (fl_options f) = Inr ()
     \<and> (\<forall>name i. fl_nodes f name = Some i \<longrightarrow>
          i < length (fl_states f) \<and> nc_name (ns_config (fl_states f ! i)) = name
          \<and> ns_tags (fl_states f ! i) = nc_tags (ns_config (fl_states f ! i))
          \<and> validate_node_config (ns_config (fl_states f ! i)) = Inr ())"

datatype fleet_event = Add NodeConfig | Remove string | Connections

inductive fleet_step :: "'c Fleet \<Rightarrow> fleet_event \<Rightarrow> 'c Fleet \<Rightarrow> bool" where
  added: "fleet_step f (Add config) (snd (add_node config f))"
| removed: "fleet_step f (Remove name) (snd (remove_node name f))"
| connections: "same_nodes (fl_states f) states \<Longrightarrow> fleet_step f Connections (f\<lparr>fl_states := states\<rparr>)"

definition fleet_start :: "'c Fleet \<Rightarrow> bool" where
  "fleet_start f \<longleftrightarrow> f = fleet_default \<or> (\<exists>configs options. fleet_with_options configs options = Inr f)"

lemma fleet_ok_insert: "fleet_ok f \<Longrightarrow> validate_node_config config = Inr () \<Longrightarrow> fleet_ok (insert_node config f)"
  by (force simp: fleet_ok_def insert_node_def node_state_new_def nth_append split: if_splits)

lemma fleet_ok_configs: "insert_configs configs names f = Inr f' \<Longrightarrow> fleet_ok f \<Longrightarrow> fleet_ok f'"
  by (induction configs names f rule: insert_configs.induct)
    (auto simp: res_bind_iffs fleet_ok_insert split: if_splits)

lemma fleet_ok_same: "fleet_ok f \<Longrightarrow> same_nodes (fl_states f) states \<Longrightarrow> fleet_ok (f\<lparr>fl_states := states\<rparr>)"
  by (auto simp: fleet_ok_def same_nodes_def)

lemma remove_node_fleet:
  "snd (remove_node name f) = (case fl_nodes f name of None \<Rightarrow> f
     | Some i \<Rightarrow> (f\<lparr>fl_nodes := (fl_nodes f)(name := None)\<rparr>)\<lparr>fl_states :=
         (fl_states f)[i := (fl_states f ! i)\<lparr>ns_client := None\<rparr>]\<rparr>)"
  by (simp add: remove_node_def split: option.split)

interpretation fleet_system: invariant_system fleet_start fleet_step fleet_ok
proof
  fix f :: "'c Fleet"
  assume "fleet_start f"
  then show "fleet_ok f"
    by (auto simp: fleet_start_def fleet_with_options_def res_bind_iffs fleet_ok_def fleet_default_def
        fleet_options_default_def retry_policy_default_def validate_fleet_options_def validate_timeout_def
        DEFAULT_TIMEOUT_def from_secs_def split: if_splits dest!: fleet_ok_configs)
next
  fix f e and f' :: "'c Fleet"
  assume "fleet_ok f" "fleet_step f e f'"
  from this(2,1) show "fleet_ok f'"
  proof cases
    case (removed name)
    have "fleet_ok (f\<lparr>fl_nodes := (fl_nodes f)(name := None)\<rparr>)" using \<open>fleet_ok f\<close> by (simp add: fleet_ok_def)
    note fleet_ok_same [OF this]
    from this [simplified] removed(2) \<open>fleet_ok f\<close> show ?thesis
      unfolding remove_node_fleet by (cases "fl_nodes f name") simp_all
  qed (auto simp: add_node_def fleet_ok_insert fleet_ok_same split: sum.splits)
qed

section \<open>Retries\<close>

text \<open>The attempts the loop makes: the state each starts in and its outcome.\<close>

fun attempts ::
    "('st \<Rightarrow> ('s RepeError + 'v) \<times> 'st) \<Rightarrow> ('st \<Rightarrow> 'st) \<Rightarrow> ('st \<Rightarrow> 'st) \<Rightarrow> nat \<Rightarrow> 'st
      \<Rightarrow> ('st \<times> ('s RepeError + 'v)) list" where
  "attempts attempt invalidate sleep 0 st = []"
| "attempts attempt invalidate sleep (Suc left) st =
     (case attempt st of
        (Inl err, st') \<Rightarrow>
          if is_retryable_error err
          then (st, Inl err) # attempts attempt invalidate sleep left
                 (if 0 < left then sleep (invalidate st') else invalidate st')
          else [(st, Inl err)]
      | (Inr value, st') \<Rightarrow> [(st, Inr value)])"

definition retryable :: "'s RepeError + 'v \<Rightarrow> bool" where
  "retryable r \<longleftrightarrow> (\<exists>e. r = Inl e \<and> is_retryable_error e)"

definition outcome_pair :: "'s RepeError + 'v \<Rightarrow> 'v option \<times> 's RepeError option" where
  "outcome_pair r = (case r of Inr v \<Rightarrow> (Some v, None) | Inl e \<Rightarrow> (None, Some e))"

lemma attempts_Suc:
  "attempt st = (r, st1) \<Longrightarrow> attempts attempt invalidate sleep (Suc k) st =
     (st, r) # (if retryable r then attempts attempt invalidate sleep k
                  (if 0 < k then sleep (invalidate st1) else invalidate st1) else [])"
  by (auto simp: retryable_def split: sum.split)

lemma attempts_start: "0 < n \<Longrightarrow> \<exists>r rest. attempts attempt invalidate sleep n st = (st, r) # rest"
  by (cases n) (auto split: prod.split sum.split)

lemma attempts_bound: "length (attempts attempt invalidate sleep n st) \<le> n"
  by (induction n arbitrary: st) (auto split: prod.split sum.split)

lemma attempts_retried: "x \<in> set (butlast (attempts attempt invalidate sleep n st)) \<Longrightarrow> retryable (snd x)"
  by (induction n arbitrary: st) (auto simp: retryable_def split: prod.splits sum.splits if_splits)

lemma attempts_stop:
  "attempts attempt invalidate sleep n st \<noteq> [] \<Longrightarrow> length (attempts attempt invalidate sleep n st) < n
    \<Longrightarrow> \<not> retryable (snd (last (attempts attempt invalidate sleep n st)))"
proof (induction n arbitrary: st)
  case (Suc n)
  obtain r st1 where a: "attempt st = (r, st1)" by (cases "attempt st")
  show ?case
  proof (cases "retryable r \<and> 0 < n")
    case True
    then obtain e where e: "r = Inl e" "is_retryable_error e" by (auto simp: retryable_def)
    moreover have "attempts attempt invalidate sleep n st' \<noteq> []" for st'
      using attempts_start [of n attempt invalidate sleep st'] True by auto
    ultimately show ?thesis using Suc.IH Suc.prems True a by simp
  next
    case False
    then show ?thesis
      using a Suc.prems by (cases r) (auto simp: retryable_def)
  qed
qed simp

lemma retry_loop_last:
  "0 < n \<Longrightarrow> fst (retry_loop attempt invalidate sleep n err st)
     = outcome_pair (snd (last (attempts attempt invalidate sleep n st)))"
proof (induction n arbitrary: err st)
  case (Suc n)
  obtain r st1 where a: "attempt st = (r, st1)" by (cases "attempt st")
  show ?case
  proof (cases "retryable r \<and> 0 < n")
    case True
    then obtain e where e: "r = Inl e" "is_retryable_error e" by (auto simp: retryable_def)
    moreover have "attempts attempt invalidate sleep n st' \<noteq> []" for st'
      using attempts_start [of n attempt invalidate sleep st'] True by auto
    ultimately show ?thesis using Suc.IH True a by (simp add: Let_def)
  next
    case False
    then show ?thesis
      using a by (cases r) (auto simp: outcome_pair_def retryable_def Let_def)
  qed
qed simp

text \<open>Every attempt but the first finds the node without a connection and makes a new one.\<close>

lemma attempts_reconnect:
  assumes "\<And>st r st'. attempt st = (r, st') \<Longrightarrow> length (fst st') = length (fst st)"
    and "\<And>st. fst (sleep st) = fst st"
  shows "i < length (fst st) \<Longrightarrow> x \<in> set (attempts attempt (invalidate_client i) sleep n st)
    \<Longrightarrow> x = (st, snd x) \<or> ns_client (fst (fst x) ! i) = None"
proof (induction n arbitrary: st)
  case (Suc n)
  obtain r st1 where a: "attempt st = (r, st1)" by (cases "attempt st")
  let ?st = "if 0 < n then sleep (invalidate_client i st1) else invalidate_client i st1"
  have st: "fst ?st = fst (invalidate_client i st1)" by (simp add: assms(2))
  then have len: "i < length (fst ?st)" "ns_client (fst ?st ! i) = None"
    using Suc.prems(1) assms(1) [OF a] by (auto simp: invalidate_client_def split: prod.splits)
  from Suc.prems(2) a consider "x = (st, r)" | "x \<in> set (attempts attempt (invalidate_client i) sleep n ?st)"
    by (cases r) (auto split: if_splits)
  then show ?case
  proof cases
    case 2
    from Suc.IH [OF len(1) this] len(2) show ?thesis by (metis fst_conv)
  qed simp
qed simp

lemma attempts_tl_reconnect:
  assumes "\<And>st r st'. attempt st = (r, st') \<Longrightarrow> length (fst st') = length (fst st)"
    and "\<And>st. fst (sleep st) = fst st" and "i < length (fst st)"
    and "x \<in> set (tl (attempts attempt (invalidate_client i) sleep n st))"
  shows "ns_client (fst (fst x) ! i) = None"
proof (cases n)
  case (Suc k)
  obtain r st1 where a: "attempt st = (r, st1)" by (cases "attempt st")
  let ?st = "if 0 < k then sleep (invalidate_client i st1) else invalidate_client i st1"
  have st: "fst ?st = fst (invalidate_client i st1)" by (simp add: assms(2))
  then have len: "i < length (fst ?st)" "ns_client (fst ?st ! i) = None"
    using assms(3) assms(1) [OF a] by (auto simp: invalidate_client_def split: prod.splits)
  have "x \<in> set (attempts attempt (invalidate_client i) sleep k ?st)"
    using assms(4) attempts_Suc [of attempt, OF a, of "invalidate_client i" sleep k] Suc by (simp split: if_split_asm)
  from attempts_reconnect [OF assms(1,2) len(1) this] have "x = (?st, snd x) \<or> ns_client (fst (fst x) ! i) = None" .
  then show ?thesis using len(2) by (auto simp: prod_eq_iff)
qed (use assms(4) in simp)

lemma into_outcome [simp]:
  "into_result \<lparr>rr_node = name, rr_value = fst (outcome_pair r), rr_error = snd (outcome_pair r), rr_elapsed = t\<rparr> = r"
  by (simp add: into_result_def outcome_pair_def split: sum.split)

definition json_attempts ::
    "(string \<times> u16 \<Rightarrow> 'w \<Rightarrow> (io_error + 'c) \<times> 'w) \<Rightarrow> ('c \<Rightarrow> request \<Rightarrow> 'w \<Rightarrow> ('s RepeError + Message) \<times> 'w)
      \<Rightarrow> (nat \<Rightarrow> 'w \<Rightarrow> 'w) \<Rightarrow> ('v, 's) codec \<Rightarrow> RetryPolicy \<Rightarrow> nat \<Rightarrow> string \<Rightarrow> bytes option
      \<Rightarrow> ('c, 'w) world \<Rightarrow> (('c, 'w) world \<times> ('s RepeError + 'v)) list" where
  "json_attempts connect call sleep cv policy i path body st =
     attempts
       (attempt_call connect call (json_request path body)
         (decode_body (cd_invalid_utf8 cv) (cd_from_json cv) (cd_from_beve cv)) i)
       (invalidate_client i) (apsnd (sleep (rp_delay policy))) (rp_max_attempts policy) st"

lemma call_json_result:
  assumes "0 < rp_max_attempts policy"
  shows "into_result (fst (call_json_with_retry connect call sleep now cv policy i path body st))
      = snd (last (json_attempts connect call sleep cv policy i path body st))"
    and "rr_node (fst (call_json_with_retry connect call sleep now cv policy i path body st))
      = nc_name (ns_config (fst st ! i))"
  unfolding call_json_with_retry_def json_attempts_def split_beta fst_conv retry_loop_last [OF assms]
  by simp_all

text \<open>
  C8. A fleet call makes at least one and at most \<open>max_attempts\<close> attempts and returns the outcome of the
  last. Every attempt before the last failed with a transport error, so an error the
  server answered, or a response that does not decode, is returned at once and the request is not
  sent again; the loop gives up early on nothing else. Every attempt after the first
  starts without the connection of the one before.
\<close>

theorem fleet_call_attempts:
  assumes "0 < rp_max_attempts policy" and "i < length (fst st)"
    and "json_attempts connect call sleep cv policy i path body st = outs"
  shows "outs \<noteq> [] \<and> length outs \<le> rp_max_attempts policy
    \<and> into_result (fst (call_json_with_retry connect call sleep now cv policy i path body st)) = snd (last outs)
    \<and> (\<forall>x \<in> set (butlast outs). \<exists>e. snd x = Inl e \<and> is_retryable_error e)
    \<and> (length outs < rp_max_attempts policy \<longrightarrow> \<not> (\<exists>e. snd (last outs) = Inl e \<and> is_retryable_error e))
    \<and> (\<forall>x \<in> set (tl outs). ns_client (fst (fst x) ! i) = None)"
proof -
  let ?call = "attempt_call connect call (json_request path body)
    (decode_body (cd_invalid_utf8 cv) (cd_from_json cv) (cd_from_beve cv)) i"
  have outs: "outs = attempts ?call (invalidate_client i) (apsnd (sleep (rp_delay policy))) (rp_max_attempts policy) st"
    using assms(3) by (simp add: json_attempts_def)
  have ne: "outs \<noteq> []"
    using attempts_start [OF assms(1), of ?call "invalidate_client i" "apsnd (sleep (rp_delay policy))" st] outs by auto
  have len: "length (fst st') = length (fst st)" if "?call st = (r, st')" for st r st'
    using same_nodes_attempt [OF that] by (simp add: same_nodes_def)
  have "ns_client (fst (fst x) ! i) = None" if "x \<in> set (tl outs)" for x
    using that attempts_tl_reconnect [of ?call "apsnd (sleep (rp_delay policy))", OF len _ assms(2)] outs by simp
  moreover have "\<exists>e. snd x = Inl e \<and> is_retryable_error e" if "x \<in> set (butlast outs)" for x
    using attempts_retried [OF that [unfolded outs]] by (simp add: retryable_def)
  moreover have "\<not> (\<exists>e. snd (last outs) = Inl e \<and> is_retryable_error e)" if "length outs < rp_max_attempts policy"
    using attempts_stop [OF ne [unfolded outs] that [unfolded outs]] unfolding outs by (simp add: retryable_def)
  moreover have "length outs \<le> rp_max_attempts policy" unfolding outs by (rule attempts_bound)
  ultimately show ?thesis
    using ne call_json_result(1) [OF assms(1), of connect call sleep now cv i path body st] assms(3) by simp
qed

text \<open>A node that resets the first connection and answers on the second.\<close>

definition sample_fleet_call :: "unit \<Rightarrow> request \<Rightarrow> nat \<Rightarrow> (unit RepeError + Message) \<times> nat" where
  "sample_fleet_call c req w =
     (if w = 0 then (Inl (RE_Io (OsError 104)), 1) else (Inl (RE_ServerError EC_MethodNotFound ''no''), w + 1))"

definition sample_codec :: "(unit, unit) codec" where
  "sample_codec = \<lparr>cd_to_json = (\<lambda>_. []), cd_to_beve = (\<lambda>_. []), cd_from_json = (\<lambda>_. Inr ()),
     cd_from_beve = (\<lambda>_. Inr ()), cd_invalid_utf8 = (\<lambda>_. ())\<rparr>"

definition sample_node :: "unit NodeState" where
  "sample_node = node_state_new \<lparr>nc_name = ''a'', nc_host = ''h'', nc_port = 1, nc_tags = {}, nc_timeout = 1\<rparr>"

lemma sample_attempts:
  "map snd (json_attempts (\<lambda>_ w. (Inr (), w)) sample_fleet_call (\<lambda>_ w. w) sample_codec retry_policy_default 0 ''/x'' None
     ([sample_node], 0)) = [Inl (RE_Io (OsError 104)), Inl (RE_ServerError EC_MethodNotFound ''no'')]"
  by (simp add: json_attempts_def retry_policy_default_def numeral_3_eq_3 attempt_call_def ensure_connected_def
      sample_node_def node_state_new_def sample_fleet_call_def json_request_def api_result_def
      call_message_with_timeout_def call_message_with_formats_and_timeout_def is_retryable_error_def errno_kind_def
      invalidate_client_def)

theorem fleet_call_attempts_witness:
  "length (json_attempts (\<lambda>_ w. (Inr (), w)) sample_fleet_call (\<lambda>_ w. w) sample_codec retry_policy_default 0 ''/x'' None
     ([sample_node], 0)) = 2
   \<and> into_result (fst (call_json_with_retry (\<lambda>_ w. (Inr (), w)) sample_fleet_call (\<lambda>_ w. w) id sample_codec
       retry_policy_default 0 ''/x'' None ([sample_node], 0))) = Inl (RE_ServerError EC_MethodNotFound ''no'')"
proof -
  let ?outs = "json_attempts (\<lambda>_ w. (Inr (), w)) sample_fleet_call (\<lambda>_ w. w) sample_codec retry_policy_default 0
    ''/x'' None ([sample_node], 0)"
  have "0 < rp_max_attempts retry_policy_default" "0 < length (fst ([sample_node], 0 :: nat))"
    by (simp_all add: retry_policy_default_def)
  note fleet_call_attempts [OF this refl, of "\<lambda>_ w. (Inr (), w)" sample_fleet_call "\<lambda>_ w. w" sample_codec "''/x''" None id]
  moreover have "length ?outs = 2" using sample_attempts [THEN arg_cong, of length] by simp
  moreover from this have "snd (last ?outs) = last (map snd ?outs)" by (subst last_map) auto
  ultimately show ?thesis using sample_attempts by simp
qed

section \<open>Broadcasts\<close>

lemma join_results_other:
  "(\<And>i r. i \<in> set handles \<Longrightarrow> joined i \<noteq> Some (name, r)) \<Longrightarrow> join_results joined handles results name = results name"
proof (induction handles arbitrary: results)
  case (Cons h handles)
  then have "join_results joined (h # handles) results name =
      (case joined h of Some (name', r) \<Rightarrow> results(name' \<mapsto> r) | None \<Rightarrow> results) name" by simp
  also have "\<dots> = results name" using Cons.prems [of h] by (auto split: option.split)
  finally show ?case .
qed simp

lemma join_results_own:
  assumes "i \<in> set handles" and "\<And>j r. j \<in> set handles \<Longrightarrow> joined j = Some (name, r) \<Longrightarrow> j = i"
    and "\<And>name' r. joined i = Some (name', r) \<Longrightarrow> name' = name" and "results name = None \<or> results name = map_option snd (joined i)"
  shows "join_results joined handles results name = map_option snd (joined i)"
  using assms(1,2,4)
proof (induction handles arbitrary: results)
  case (Cons h handles)
  let ?results = "case joined h of Some (name', r) \<Rightarrow> results(name' \<mapsto> r) | None \<Rightarrow> results"
  have own: "?results name = None \<or> ?results name = map_option snd (joined i)"
    using Cons.prems(2) [of h] Cons.prems(3) by (auto split: option.split)
  show ?case
  proof (cases "i \<in> set handles")
    case True
    from Cons.IH [OF this _, of ?results] own Cons.prems(2) show ?thesis by simp
  next
    case False
    with Cons.prems(1) have "h = i" by simp
    moreover have "join_results joined handles ?results name = ?results name"
      using Cons.prems(2) False by (intro join_results_other) auto
    ultimately show ?thesis using assms(3) Cons.prems(3) by (auto split: option.split)
  qed
qed simp

lemma set_snapshot: "set order = dom (fl_nodes f) \<Longrightarrow> set (snapshot_node_states order f) = ran (fl_nodes f)"
  by (force simp: snapshot_node_states_def ran_def map_filter_def)

lemma fleet_ok_name:
  "fleet_ok f \<Longrightarrow> fl_nodes f name = Some i \<Longrightarrow> nc_name (ns_config (fl_states f ! i)) = name"
  by (simp add: fleet_ok_def)

lemma fleet_ok_inj: "fleet_ok f \<Longrightarrow> inj_on (\<lambda>i. nc_name (ns_config (fl_states f ! i))) (ran (fl_nodes f))"
  unfolding inj_on_def ran_def using fleet_ok_name by fastforce

lemma broadcast_lookup:
  assumes "fleet_ok f" and "set order = dom (fl_nodes f)"
    and named: "\<And>i r. i \<in> set (snapshot_target_nodes order tags f) \<Longrightarrow> joined i = Some r
      \<Longrightarrow> rr_node r = nc_name (ns_config (fl_states f ! i))"
  shows "broadcast_json joined order tags f name =
    (case fl_nodes f name of
       None \<Rightarrow> None
     | Some i \<Rightarrow> if set tags \<subseteq> nc_tags (ns_config (fl_states f ! i)) then joined i else None)"
proof -
  let ?targets = "snapshot_target_nodes order tags f"
  let ?joined = "\<lambda>i. map_option (\<lambda>r. (rr_node r, r)) (joined i)"
  have targets: "i \<in> set ?targets \<longleftrightarrow> i \<in> ran (fl_nodes f) \<and> set tags \<subseteq> ns_tags (fl_states f ! i)" for i
    using set_snapshot [OF assms(2)] by (auto simp: snapshot_target_nodes_def)
  have own: "fl_nodes f name = Some i" if "i \<in> set ?targets" "?joined i = Some (name, r)" for i r
    using that named [of i] targets [of i] fleet_ok_name [OF assms(1)] by (fastforce simp: ran_def)
  show ?thesis
  proof (cases "\<exists>i \<in> set ?targets. fl_nodes f name = Some i")
    case True
    then obtain i where i: "i \<in> set ?targets" "fl_nodes f name = Some i" by blast
    have "join_results ?joined ?targets Map.empty name = map_option snd (?joined i)"
    proof (rule join_results_own)
      show "name' = name" if "?joined i = Some (name', r)" for name' r
        using that named [OF i(1)] fleet_ok_name [OF assms(1) i(2)] by auto
    qed (use i own in auto)
    with i targets assms(1) show ?thesis
      by (auto simp: broadcast_json_def option.map_comp comp_def option.map_ident fleet_ok_def)
  next
    case False
    then have "broadcast_json joined order tags f name = None"
      unfolding broadcast_json_def using own by (subst join_results_other) auto
    with False targets assms(1) show ?thesis by (auto simp: fleet_ok_def ran_def split: option.split)
  qed
qed

text \<open>
  A broadcast to the nodes with given tags returns, under the name of each such node and under no
  other, the result of the call to that node: calls to different nodes never overwrite each other.
  Only a call whose thread panicked is missing.
\<close>

theorem broadcast_by_name:
  assumes "reachable fleet_start fleet_step f" and "set order = dom (fl_nodes f)" and "0 < rp_max_attempts policy"
    and "\<And>i. joined i = None \<or> (\<exists>st. same_nodes (fl_states f) (fst st) \<and>
      joined i = Some (fst (call_json_with_retry connect call sleep now cv policy i path body st)))"
  shows "broadcast_json joined order tags f name =
    (case fl_nodes f name of
       None \<Rightarrow> None
     | Some i \<Rightarrow> if set tags \<subseteq> nc_tags (ns_config (fl_states f ! i)) then joined i else None)"
proof (rule broadcast_lookup)
  show ok: "fleet_ok f" by (rule fleet_system.invar_reachable [OF assms(1)])
  fix i r assume "i \<in> set (snapshot_target_nodes order tags f)" "joined i = Some r"
  then have "i \<in> ran (fl_nodes f)" using set_snapshot [OF assms(2)] by (auto simp: snapshot_target_nodes_def)
  with ok have "i < length (fl_states f)" by (auto simp: fleet_ok_def ran_def)
  moreover from assms(4) [of i] \<open>joined i = Some r\<close> obtain st where "same_nodes (fl_states f) (fst st)"
    "r = fst (call_json_with_retry connect call sleep now cv policy i path body st)" by auto
  ultimately show "rr_node r = nc_name (ns_config (fl_states f ! i))"
    by (simp add: call_json_result(2) [OF assms(3)] same_nodes_def)
qed (rule assms(2))

definition sample_fleet :: "unit Fleet" where
  "sample_fleet = insert_node (ns_config sample_node) fleet_default"

theorem broadcast_by_name_witness:
  "broadcast_json (\<lambda>i. Some (fst (call_json_with_retry (\<lambda>_ w. (Inr (), w)) sample_fleet_call (\<lambda>_ w. w) id sample_codec
       retry_policy_default i ''/x'' None ([sample_node], 0)))) [''a''] [] sample_fleet ''a'' \<noteq> None"
proof -
  have "fleet_new [ns_config sample_node] = Inr sample_fleet"
    by (simp add: fleet_new_def fleet_with_options_def validate_fleet_options_def fleet_options_default_def
        retry_policy_default_def validate_timeout_def DEFAULT_TIMEOUT_def from_secs_def validate_node_config_def
        validate_host_def validate_port_def sample_node_def node_state_new_def sample_fleet_def fleet_default_def)
  then have "reachable fleet_start fleet_step sample_fleet"
    by (intro reachable.intros(1)) (auto simp: fleet_start_def fleet_new_def)
  moreover have "set [''a''] = dom (fl_nodes sample_fleet)"
    by (simp add: sample_fleet_def insert_node_def sample_node_def node_state_new_def fleet_default_def)
  moreover have "0 < rp_max_attempts retry_policy_default" by (simp add: retry_policy_default_def)
  moreover have st: "fl_states sample_fleet = [sample_node]" "fl_nodes sample_fleet ''a'' = Some 0"
    by (simp_all add: sample_fleet_def insert_node_def sample_node_def node_state_new_def fleet_default_def)
  moreover have "\<exists>st :: (unit, nat) world. same_nodes (fl_states sample_fleet) (fst st) \<and>
      Some (fst (call_json_with_retry (\<lambda>_ w. (Inr (), w)) sample_fleet_call (\<lambda>_ w. w) id sample_codec
           retry_policy_default i ''/x'' None ([sample_node], 0)))
      = Some (fst (call_json_with_retry (\<lambda>_ w. (Inr (), w)) sample_fleet_call (\<lambda>_ w. w) id sample_codec
           retry_policy_default i ''/x'' None st))" for i
    using st(1) by (intro exI [of _ "([sample_node], 0)"]) simp
  ultimately show ?thesis
    using broadcast_by_name [of sample_fleet "[''a'']" retry_policy_default
        "\<lambda>i. Some (fst (call_json_with_retry (\<lambda>_ w. (Inr (), w)) sample_fleet_call (\<lambda>_ w. w) id sample_codec
           retry_policy_default i ''/x'' None ([sample_node], 0)))"
        "\<lambda>_ w. (Inr (), w)" sample_fleet_call "\<lambda>_ w. w" id sample_codec "''/x''" None "[]" "''a''"]
    by simp
qed

section \<open>Membership and connections\<close>

text \<open>
  The nodes of a fleet are what was added and not removed: a node is found under its own name;
  \<^verbatim>\<open>add_node\<close> succeeds exactly on a valid configuration with a free name and then finds it, and
  \<^verbatim>\<open>remove_node\<close> reports whether there was such a node; neither changes any other entry, and a
  refused addition changes nothing.
\<close>

theorem fleet_membership:
  assumes "reachable fleet_start fleet_step f"
  shows "(fleet_node name f = Inr n \<longrightarrow> nd_name n = name)
    \<and> (fst (add_node config f) = Inr () \<longleftrightarrow>
         validate_node_config config = Inr () \<and> fleet_node (nc_name config) f = Inl (FE_NodeNotFound (nc_name config)))
    \<and> (fst (add_node config f) \<noteq> Inr () \<longrightarrow> snd (add_node config f) = f)
    \<and> (fst (add_node config f) = Inr () \<longrightarrow>
         fleet_node name (snd (add_node config f)) =
           (if name = nc_name config then Inr (node_snapshot (node_state_new config :: 'c NodeState))
            else fleet_node name (f :: 'c Fleet)))
    \<and> (fst (remove_node gone f) \<longleftrightarrow> fleet_node gone f \<noteq> Inl (FE_NodeNotFound gone))
    \<and> fleet_node name (snd (remove_node gone f)) =
         (if name = gone then Inl (FE_NodeNotFound name) else fleet_node name f)"
proof -
  have ok: "fleet_ok f" by (rule fleet_system.invar_reachable [OF assms])
  then have "nd_name n = name" if "fleet_node name f = Inr n"
    using that fleet_ok_name [OF ok] by (auto simp: fleet_node_def node_snapshot_def res_bind_iffs)
  moreover have "fst (add_node config f) = Inr () \<longleftrightarrow>
      validate_node_config config = Inr () \<and> fleet_node (nc_name config) f = Inl (FE_NodeNotFound (nc_name config))"
    "fst (add_node config f) \<noteq> Inr () \<longrightarrow> snd (add_node config f) = f"
    by (auto simp: add_node_def fleet_node_def res_bind_iffs split: sum.splits option.splits)
  moreover have "fleet_node name (insert_node config f) =
      (if name = nc_name config then Inr (node_snapshot (node_state_new config :: 'c NodeState)) else fleet_node name f)"
  proof (cases "fl_nodes f name")
    case (Some i)
    with ok have "i < length (fl_states f)" by (auto simp: fleet_ok_def)
    with Some show ?thesis by (simp add: fleet_node_def insert_node_def nth_append)
  qed (simp add: fleet_node_def insert_node_def)
  moreover from this have "fst (add_node config f) = Inr () \<longrightarrow> snd (add_node config f) = insert_node config f"
    by (auto simp: add_node_def split: sum.splits)
  moreover have "fst (remove_node gone f) \<longleftrightarrow> fleet_node gone f \<noteq> Inl (FE_NodeNotFound gone)"
    by (auto simp: remove_node_def fleet_node_def split: option.splits)
  moreover have "fleet_node name (snd (remove_node gone f)) =
      (if name = gone then Inl (FE_NodeNotFound name) else fleet_node name f)"
  proof (cases "fl_nodes f gone")
    case (Some i)
    with fleet_ok_name [OF ok] have "fl_nodes f name \<noteq> Some i" if "name \<noteq> gone" using that by metis
    with Some show ?thesis
      by (cases "fl_nodes f name") (auto simp: remove_node_def fleet_node_def)
  qed (simp add: remove_node_def fleet_node_def)
  ultimately show ?thesis by simp
qed

theorem fleet_membership_witness:
  "fst (add_node (ns_config sample_node) (fleet_default :: unit Fleet)) = Inr ()"
proof -
  have "reachable fleet_start fleet_step (fleet_default :: unit Fleet)"
    by (rule reachable.intros(1)) (simp add: fleet_start_def)
  note fleet_membership [OF this, of "[]" _ "ns_config sample_node" "[]"]
  moreover have "validate_node_config (ns_config sample_node) = Inr ()"
    by (simp add: sample_node_def node_state_new_def validate_node_config_def validate_host_def validate_port_def
        validate_timeout_def)
  ultimately show ?thesis by (simp add: fleet_node_def fleet_default_def)
qed

lemma ensure_connected_own:
  assumes "ensure_connected connect i (states, w) = (r, (states', w'))" and "i < length states"
  shows "ns_client (states' ! i) = res_ok r" and "j \<noteq> i \<Longrightarrow> states' ! j = states ! j"
  using assms by (auto simp: ensure_connected_def split: option.splits prod.splits sum.splits)

lemma connect_thread_step:
  fixes r :: "unit RepeError + 'c"
  shows "ensure_connected connect i (states, w) = (r, st) \<Longrightarrow>
    connect_thread connect i (states, w) = ((nc_name (ns_config (states ! i)), \<not> isl r), st)"
  by (simp add: connect_thread_def)

lemma connect_threads:
  assumes "run_threads (connect_thread connect) sched (states, w) = (joined, (states', w'))"
    and "distinct sched" and "set sched \<subseteq> {..<length states}"
  shows "(i \<in> set sched \<longrightarrow> joined i = Some (nc_name (ns_config (states ! i)), ns_client (states' ! i) \<noteq> None))
    \<and> (i \<notin> set sched \<longrightarrow> joined i = None \<and> states' ! i = states ! i)"
  using assms
proof (induction sched arbitrary: states w joined)
  case (Cons h sched)
  obtain r :: "unit RepeError + 'a" and states1 w1 where e: "ensure_connected connect h (states, w) = (r, (states1, w1))"
    by (metis prod.exhaust)
  obtain joined1 where run: "run_threads (connect_thread connect) sched (states1, w1) = (joined1, (states', w'))"
    and j: "joined = joined1(h \<mapsto> (nc_name (ns_config (states ! h)), \<not> isl r))"
    using Cons.prems(1) connect_thread_step [OF e] by (auto split: prod.splits)
  have same: "same_nodes states states1" using same_nodes_ensure [OF e] by simp
  have own: "ns_client (states1 ! h) = res_ok r" "\<And>j. j \<noteq> h \<Longrightarrow> states1 ! j = states ! j"
    using ensure_connected_own [OF e] Cons.prems(3) by auto
  have "set sched \<subseteq> {..<length states1}" "distinct sched"
    using Cons.prems(2,3) same by (auto simp: same_nodes_def)
  from Cons.IH [OF run this(2,1)] Cons.prems(2,3) j own same show ?case
    by (cases r) (auto simp: same_nodes_def subset_iff)
qed simp

lemma join_connects_sets:
  "set (sm_connected (join_connects joined ks summary)) =
     set (sm_connected summary) \<union> {name. \<exists>i \<in> set ks. joined i = Some (name, True)}"
  "(\<And>i. i \<in> set ks \<Longrightarrow> joined i \<noteq> None) \<Longrightarrow> set (sm_failed (join_connects joined ks summary)) =
     set (sm_failed summary) \<union> {name. \<exists>i \<in> set ks. joined i = Some (name, False)}"
proof (induction ks arbitrary: summary)
  case (Cons i ks)
  {
    case 1
    show ?case using Cons.IH(1) by (auto split: option.splits bool.splits)
  next
    case 2
    then show ?case using Cons.IH(2) by (fastforce split: option.splits bool.splits)
  }
qed simp_all

text \<open>
  When none of its threads panics, \<^verbatim>\<open>connect_all\<close> reports every node exactly as it leaves it: the
  names it lists as connected are those of the nodes that now have a connection, the failed ones those
  that have none; in whatever order the threads ran.
\<close>

theorem connect_all_reports:
  assumes "reachable fleet_start fleet_step f" and "set order = dom (fl_nodes f)"
    and "distinct sched" and "set sched = set (snapshot_node_states order f)"
    and "connect_all connect sched order f w = (summary, f', w')"
  shows "(name \<in> set (sm_connected summary) \<longleftrightarrow> is_connected name f' = Inr True)
    \<and> (name \<in> set (sm_failed summary) \<longleftrightarrow> is_connected name f' = Inr False)"
proof -
  have ok: "fleet_ok f" by (rule fleet_system.invar_reachable [OF assms(1)])
  obtain joined states' where run: "run_threads (connect_thread connect) sched (fl_states f, w) = (joined, (states', w'))"
    and summary: "summary = join_connects joined (snapshot_node_states order f) \<lparr>sm_connected = [], sm_failed = []\<rparr>"
    and f': "f' = f\<lparr>fl_states := states'\<rparr>"
    using assms(5) by (auto simp: connect_all_def Let_def split: prod.splits)
  note nodes = set_snapshot [OF assms(2)]
  have "set sched \<subseteq> {..<length (fl_states f)}" using ok assms(4) nodes by (auto simp: fleet_ok_def ran_def)
  from connect_threads [OF run assms(3) this]
  have joined: "joined i = Some (nc_name (ns_config (fl_states f ! i)), ns_client (states' ! i) \<noteq> None)"
    if "i \<in> ran (fl_nodes f)" for i
    using that assms(4) nodes by auto
  have reports: "(\<exists>i \<in> ran (fl_nodes f). joined i = Some (name, b)) \<longleftrightarrow> is_connected name f' = Inr b" for b
    using joined fleet_ok_name [OF ok] f'
    by (auto simp: is_connected_def res_bind_iffs ran_def)
  have "joined i \<noteq> None" if "i \<in> set (snapshot_node_states order f)" for i using that joined nodes by simp
  from join_connects_sets(1) [of joined "snapshot_node_states order f"]
    join_connects_sets(2) [of "snapshot_node_states order f" joined, OF this]
  show ?thesis unfolding summary reports [symmetric] by (simp add: nodes)
qed

theorem connect_all_reports_witness:
  "sm_connected (fst (connect_all (\<lambda>_ w. (Inr (), w)) [0] [''a''] sample_fleet ())) = [''a'']"
proof -
  let ?r = "connect_all (\<lambda>_ w. (Inr (), w)) [0] [''a''] sample_fleet ()"
  have st: "fl_states sample_fleet = [sample_node]" "fl_nodes sample_fleet = [''a'' \<mapsto> 0]"
    by (simp_all add: sample_fleet_def insert_node_def sample_node_def node_state_new_def fleet_default_def)
  have "fleet_step fleet_default (Add (ns_config sample_node)) (snd (add_node (ns_config sample_node) fleet_default))"
    by (rule fleet_step.intros)
  also have "snd (add_node (ns_config sample_node) fleet_default) = sample_fleet"
    by (simp add: add_node_def sample_fleet_def sample_node_def node_state_new_def validate_node_config_def
        validate_host_def validate_port_def validate_timeout_def fleet_default_def)
  finally have "reachable fleet_start fleet_step sample_fleet"
    by (intro reachable.intros(2) [OF reachable.intros(1)]) (simp_all add: fleet_start_def)
  moreover have "fst ?r = \<lparr>sm_connected = [''a''], sm_failed = []\<rparr>"
    by (simp add: connect_all_def st snapshot_node_states_def map_filter_def connect_thread_def ensure_connected_def
        sample_node_def node_state_new_def)
  ultimately show ?thesis
    using connect_all_reports [of sample_fleet "[''a'']" "[0]" "\<lambda>_ w. (Inr (), w)" "()" "fst ?r" "fst (snd ?r)" "snd (snd ?r)" "''a''"]
    by (simp add: st snapshot_node_states_def map_filter_def)
qed

section \<open>A connection that died\<close>

text \<open>
  The response loop of a client shuts its connection down when the server closes it, and from then on every
  write on it fails with \<^verbatim>\<open>EPIPE\<close>, whose kind is \<^verbatim>\<open>BrokenPipe\<close>. \<^verbatim>\<open>is_retryable_error\<close> does not list
  that kind. A fleet call that finds such a client cached returns the error without a second
  attempt and keeps the client, so every later call to the node fails in the same way,
  although the server may have been back for long.
\<close>

theorem dead_connection_kept:
  assumes "i < length states" and "ns_client (states ! i) = Some client"
    and "\<And>req w. call client req w = (Inl (RE_Io (OsError 32)), w)" and "0 < rp_max_attempts policy"
  shows "\<exists>r. call_json_with_retry connect call sleep now cv policy i path body (states, w) = (r, (states, w))
    \<and> into_result r = Inl (RE_Io (OsError 32))"
proof -
  have "attempt_call connect call (json_request path body) d i (states, w)
      = (Inl (RE_Io (OsError 32)), (states, w))" for d :: "Message \<Rightarrow> 'c RepeError + 'd"
    using assms(2,3) by (simp add: attempt_call_def ensure_connected_def api_result_def Let_def)
  with assms(4) show ?thesis
    by (cases "rp_max_attempts policy")
      (simp_all add: call_json_with_retry_def is_retryable_error_def errno_kind_def into_result_def)
qed

end
