(* ===== verification/Udp_Client.thy ===== *)
theory Udp_Client
  imports Client
begin

text \<open>
  The one-way client of \<^verbatim>\<open>src/udp_client.rs\<close>: it sends requests and notifies as UniUDP messages and
  expects no answer. Resolving an address, binding a socket and the sender of the \<^verbatim>\<open>uniudp\<close> crate are
  arguments; \<open>send\<close> returns the message id of the key it was given back, or its failure.
\<close>

section \<open>The client\<close>

datatype SocketAddr = V4 string u16 | V6 string u16

fun is_ipv4 :: "SocketAddr \<Rightarrow> bool" where
  "is_ipv4 (V4 _ _) = True"
| "is_ipv4 (V6 _ _) = False"

record 'k UniUdpClient =
  uc_socket :: "'k option"
  uc_destination :: SocketAddr
  uc_next_repe_id :: u64
  uc_redundancy :: u16
  uc_chunk_size :: u16
  uc_fec_group_size :: u8
  uc_parity_shards :: u8

definition invalid_input :: "string \<Rightarrow> 's RepeError" where
  "invalid_input message = RE_Io (IoError K_InvalidInput message)"

text \<open>\<^verbatim>\<open>u16::try_from\<close> and \<^verbatim>\<open>u8::try_from\<close> on a \<^verbatim>\<open>usize\<close>\<close>

definition narrow :: "string \<Rightarrow> nat \<Rightarrow> 's RepeError + 'a::len word" where
  "narrow message n = (if n < 2 ^ LENGTH('a) then Inr (of_nat n) else Inl (invalid_input message))"

definition resolve_destination :: "io_error + SocketAddr list \<Rightarrow> 's RepeError + SocketAddr" where
  "resolve_destination addrs =
     res_bind (res_map_err RE_Io addrs) (\<lambda>addrs.
     ok_or (invalid_input ''target resolved to no socket addresses'')
       (case addrs of [] \<Rightarrow> None | a # _ \<Rightarrow> Some a))"

definition udp_connect ::
    "('a \<Rightarrow> io_error + SocketAddr list) \<Rightarrow> (string \<Rightarrow> io_error + 'k) \<Rightarrow> 'a \<Rightarrow> nat \<Rightarrow> nat \<Rightarrow> nat \<Rightarrow> nat
      \<Rightarrow> 's RepeError + 'k UniUdpClient" where
  "udp_connect to_socket_addrs bind_socket target redundancy chunk_size fec_group_size parity_shards =
     res_bind (resolve_destination (to_socket_addrs target)) (\<lambda>destination.
     res_bind (res_map_err RE_Io (bind_socket (if is_ipv4 destination then ''0.0.0.0:0'' else ''[::]:0''))) (\<lambda>socket.
     res_bind (narrow ''redundancy exceeds u16::MAX'' redundancy) (\<lambda>redundancy.
     res_bind (narrow ''chunk_size exceeds u16::MAX'' chunk_size) (\<lambda>chunk_size.
     res_bind (narrow ''fec_group_size exceeds u8::MAX'' fec_group_size) (\<lambda>fec_group_size :: u8.
     if fec_group_size > 64 then Inl (invalid_input ''fec_group_size exceeds UniUDP RS maximum (64)'')
     else
     res_bind (narrow ''parity_shards exceeds u8::MAX'' parity_shards) (\<lambda>parity_shards :: u8.
     if parity_shards = 0 \<or> parity_shards > 16
     then Inl (invalid_input ''parity_shards must be between 1 and 16 for UniUDP RS FEC'')
     else Inr \<lparr>uc_socket = Some socket, uc_destination = destination, uc_next_repe_id = 1,
            uc_redundancy = redundancy, uc_chunk_size = chunk_size, uc_fec_group_size = fec_group_size,
            uc_parity_shards = parity_shards\<rparr>))))))"

definition is_open :: "'k UniUdpClient \<Rightarrow> bool" where
  "is_open c \<longleftrightarrow> uc_socket c \<noteq> None"

definition udp_close :: "'k UniUdpClient \<Rightarrow> 'k UniUdpClient" where
  "udp_close c = c\<lparr>uc_socket := None\<rparr>"

definition next_repe_message_id :: "'k UniUdpClient \<Rightarrow> u64 \<times> 'k UniUdpClient" where
  "next_repe_message_id c = (uc_next_repe_id c, c\<lparr>uc_next_repe_id := uc_next_repe_id c + 1\<rparr>)"

text \<open>The options the sender is given; with no mode set the crate's default applies.\<close>

datatype FecMode = ReedSolomon (rs_data_shards: u8) (rs_parity_shards: u8)

record SendOptions =
  so_redundancy :: u16
  so_chunk_size :: u16
  so_fec_mode :: "FecMode option"

definition send_options :: "'k UniUdpClient \<Rightarrow> SendOptions" where
  "send_options c =
     (let options = \<lparr>so_redundancy = uc_redundancy c, so_chunk_size = uc_chunk_size c, so_fec_mode = None\<rparr>
      in if uc_fec_group_size c > 1
         then options\<lparr>so_fec_mode := Some (ReedSolomon (uc_fec_group_size c) (uc_parity_shards c))\<rparr>
         else options)"

record SendRequest =
  sq_destination :: SocketAddr
  sq_payload :: bytes
  sq_options :: SendOptions
  sq_message_id :: u64

text \<open>
  A body is encoded in the format its code names; a code that names no encoding for a value sends
  JSON text under that code.
\<close>

definition build_message_for_udp ::
    "('v, 's) codec \<Rightarrow> u64 \<Rightarrow> string \<Rightarrow> 'v option \<Rightarrow> u16 \<Rightarrow> u16 \<Rightarrow> bool \<Rightarrow> Message" where
  "build_message_for_udp cv rid path params query_format body_format notify =
     (let b = with_query_format_code query_format (with_query_str path (with_notify notify (with_id rid builder)))
      in build (case (params, body_format_try_from body_format) of
           (Some value, Inr BF_Json) \<Rightarrow> with_body_json (cd_to_json cv) value b
         | (Some value, Inr BF_Beve) \<Rightarrow> with_body_beve (cd_to_beve cv) value b
         | (Some value, _) \<Rightarrow> with_body_format_code body_format (with_body_bytes (cd_to_json cv value) b)
         | (None, _) \<Rightarrow> with_body_format_code body_format b))"

definition send_failure_to_repe_error :: "string \<Rightarrow> 's RepeError" where
  "send_failure_to_repe_error err = RE_Io (IoError K_Other (''uniudp send failed: '' @ err))"

text \<open>\<open>capacity\<close> is the capacity of the body's buffer, which \<^verbatim>\<open>into_wire_bytes\<close> may reuse.\<close>

definition udp_send_with_formats ::
    "(SendRequest \<Rightarrow> 'k \<Rightarrow> (string + u64) \<times> 'k) \<Rightarrow> nat \<Rightarrow> ('v, 's) codec \<Rightarrow> string \<Rightarrow> 'v option \<Rightarrow> u16 \<Rightarrow> u16
      \<Rightarrow> bool \<Rightarrow> 'k UniUdpClient \<Rightarrow> ('s RepeError + u64) \<times> 'k UniUdpClient" where
  "udp_send_with_formats send capacity cv path params query_format body_format notify c =
     (case uc_socket c of
        None \<Rightarrow> (Inl (RE_Io (IoError K_NotConnected ''udp client is closed'')), c)
      | Some socket \<Rightarrow>
          (case next_repe_message_id c of
             (repe_id, c) \<Rightarrow>
               let message = build_message_for_udp cv repe_id path params query_format body_format notify;
                   request = \<lparr>sq_destination = uc_destination c, sq_payload = into_wire_bytes capacity message,
                              sq_options = send_options c, sq_message_id = repe_id\<rparr>
               in (case send request socket of
                     (Inl err, socket) \<Rightarrow> (Inl (send_failure_to_repe_error err), c\<lparr>uc_socket := Some socket\<rparr>)
                   | (Inr sent_id, socket) \<Rightarrow>
                       (if sent_id \<noteq> repe_id
                        then Inl (RE_Io (IoError K_Other ''uniudp returned a mismatched message id''))
                        else Inr repe_id, c\<lparr>uc_socket := Some socket\<rparr>))))"

definition udp_send_notify where
  "udp_send_notify send capacity cv path params =
     udp_send_with_formats send capacity cv path params (query_format_u16 QF_JsonPointer) (body_format_u16 BF_Json) True"

definition udp_send_request where
  "udp_send_request send capacity cv path params =
     udp_send_with_formats send capacity cv path params (query_format_u16 QF_JsonPointer) (body_format_u16 BF_Json) False"

section \<open>What a send does\<close>

text \<open>A sender that records the requests it is given and gives back the id asked for.\<close>

definition recording_send :: "SendRequest \<Rightarrow> SendRequest list \<Rightarrow> (string + u64) \<times> SendRequest list" where
  "recording_send request sent = (Inr (sq_message_id request), sent @ [request])"

fun send_all ::
    "(SendRequest \<Rightarrow> 'k \<Rightarrow> (string + u64) \<times> 'k) \<Rightarrow> nat \<Rightarrow> ('v, 's) codec \<Rightarrow> (string \<times> 'v option \<times> bool) list
      \<Rightarrow> 'k UniUdpClient \<Rightarrow> ('s RepeError + u64) list \<times> 'k UniUdpClient" where
  "send_all send capacity cv [] c = ([], c)"
| "send_all send capacity cv ((path, params, notify) # calls) c =
     (case udp_send_with_formats send capacity cv path params (query_format_u16 QF_JsonPointer)
             (body_format_u16 BF_Json) notify c of
        (r, c) \<Rightarrow> (case send_all send capacity cv calls c of (rs, c) \<Rightarrow> (r # rs, c)))"

lemma build_message_fields:
  "h_id (m_header (build_message_for_udp cv rid path params qf bf notify)) = rid"
  "h_notify (m_header (build_message_for_udp cv rid path params qf bf notify)) = (if notify then 1 else 0)"
  "m_query (build_message_for_udp cv rid path params qf bf notify) = as_bytes path"
  by (auto simp: build_message_for_udp_def Let_def build_def builder_defs split: option.split sum.split BodyFormat.split)

lemma build_message_build: "\<exists>b. build_message_for_udp cv rid path params qf bf notify = build b"
  by (simp add: build_message_for_udp_def Let_def) blast

lemma build_message_parses:
  assumes "HEADER_SIZE + length (m_query m) + length (m_body m) \<le> usize_max" and "usize_max < 2 ^ 64"
    and "m = build_message_for_udp cv rid path params qf bf notify"
  shows "message_from_slice_exact usize_max (into_wire_bytes capacity m) = Inr m"
proof -
  obtain b where "m = build b" using build_message_build assms(3) by metis
  with assms(1,2) show ?thesis
    by (simp add: into_wire_bytes_to_vec message_from_slice_exact_Inr_iff build_wf)
qed

lemma send_recorded:
  assumes "uc_socket c = Some sent"
  shows "udp_send_with_formats recording_send capacity cv path params qf bf notify c =
    (Inr (uc_next_repe_id c),
     c\<lparr>uc_next_repe_id := uc_next_repe_id c + 1,
       uc_socket := Some (sent @ [\<lparr>sq_destination = uc_destination c,
         sq_payload = into_wire_bytes capacity
           (build_message_for_udp cv (uc_next_repe_id c) path params qf bf notify),
         sq_options = send_options c, sq_message_id = uc_next_repe_id c\<rparr>])\<rparr>)"
  using assms
  by (simp add: udp_send_with_formats_def next_repe_message_id_def recording_send_def send_options_def Let_def)

lemma send_all_recorded:
  "uc_socket c = Some sent \<Longrightarrow>
     fst (send_all recording_send capacity cv calls c)
       = map (\<lambda>i. Inr (uc_next_repe_id c + of_nat i)) [0..<length calls]
     \<and> (\<exists>sent'. uc_socket (snd (send_all recording_send capacity cv calls c)) = Some (sent @ sent')
          \<and> map sq_message_id sent' = map (\<lambda>i. uc_next_repe_id c + of_nat i) [0..<length calls])"
proof (induction calls arbitrary: c sent)
  case (Cons call calls)
  obtain path params notify where call: "call = (path, params, notify)" by (cases call)
  let ?c = "snd (udp_send_with_formats recording_send capacity cv path params (query_format_u16 QF_JsonPointer)
    (body_format_u16 BF_Json) notify c)"
  obtain req where c: "uc_socket ?c = Some (sent @ [req])" "sq_message_id req = uc_next_repe_id c"
    "uc_next_repe_id ?c = uc_next_repe_id c + 1"
    unfolding send_recorded [OF Cons.prems] by simp
  obtain sent' where IH: "fst (send_all recording_send capacity cv calls ?c)
      = map (\<lambda>i. Inr (uc_next_repe_id ?c + of_nat i)) [0..<length calls]"
    "uc_socket (snd (send_all recording_send capacity cv calls ?c)) = Some ((sent @ [req]) @ sent')"
    "map sq_message_id sent' = map (\<lambda>i. uc_next_repe_id ?c + of_nat i) [0..<length calls]"
    using Cons.IH [OF c(1)] by blast
  have run: "send_all recording_send capacity cv (call # calls) c =
      (Inr (uc_next_repe_id c) # fst (send_all recording_send capacity cv calls ?c),
       snd (send_all recording_send capacity cv calls ?c))"
    unfolding call send_all.simps send_recorded [OF Cons.prems] by (simp add: split_beta)
  have ids: "map (\<lambda>i. f (uc_next_repe_id c + of_nat i)) [0..<length (call # calls)]
      = f (uc_next_repe_id c) # map (\<lambda>i. f (uc_next_repe_id ?c + of_nat i)) [0..<length calls]" for f :: "u64 \<Rightarrow> 'x"
    unfolding c(3) by (simp add: map_upt_Suc add.assoc del: upt_Suc)
  show ?case
    unfolding run ids fst_conv snd_conv IH(1,2) by (intro conjI exI [of _ "req # sent'"]) (simp_all only: IH(3) c(2) list.map
        append.simps append_assoc ids [of "\<lambda>x. x"])
qed simp

lemma consecutive_ids_distinct:
  assumes "n \<le> 2 ^ 64"
  shows "distinct (map (\<lambda>i. (a :: u64) + of_nat i) [0..<n])"
proof -
  have "i = j" if "i < n" "j < n" "(of_nat i :: u64) = of_nat j" for i j
  proof -
    have "unat (of_nat i :: u64) = i" "unat (of_nat j :: u64) = j"
      using that(1,2) assms by (simp_all add: unat_of_nat_fits)
    with that(3) show ?thesis by metis
  qed
  then show ?thesis by (simp add: distinct_map inj_on_def)
qed

text \<open>
  Calls on an open client go out one datagram message each, in order, under consecutive ids from the
  client's counter, and each call returns the id its message carries. Until the counter wraps around
  no id is used twice. The payload handed to the sender parses back to the request: its id, its path and whether it
  is a notify. A closed client refuses every call, sends nothing and does not count.
\<close>

theorem udp_sends_in_order:
  assumes "uc_socket c = Some sent" and "length calls \<le> 2 ^ 64" and "uc_socket d = None"
    and "usize_max < 2 ^ 64" and "m = build_message_for_udp cv rid path params qf bf notify"
    and "HEADER_SIZE + length (m_query m) + length (m_body m) \<le> usize_max"
  shows "(\<exists>ids. fst (send_all recording_send capacity cv calls c) = map Inr ids
        \<and> distinct ids \<and> length ids = length calls
        \<and> (\<exists>sent'. uc_socket (snd (send_all recording_send capacity cv calls c)) = Some (sent @ sent')
             \<and> map sq_message_id sent' = ids))
    \<and> message_from_slice_exact usize_max (into_wire_bytes capacity m) = Inr m
    \<and> h_id (m_header m) = rid \<and> m_query m = as_bytes path \<and> (h_notify (m_header m) = 1 \<longleftrightarrow> notify)
    \<and> udp_send_with_formats send capacity cv path params qf bf notify d
        = (Inl (RE_Io (IoError K_NotConnected ''udp client is closed'')), d)"
proof -
  let ?ids = "map (\<lambda>i. uc_next_repe_id c + of_nat i) [0..<length calls]"
  have "distinct ?ids" by (rule consecutive_ids_distinct [OF assms(2)])
  with send_all_recorded [OF assms(1), of capacity cv calls]
  have "\<exists>ids. fst (send_all recording_send capacity cv calls c) = map Inr ids
        \<and> distinct ids \<and> length ids = length calls
        \<and> (\<exists>sent'. uc_socket (snd (send_all recording_send capacity cv calls c)) = Some (sent @ sent')
             \<and> map sq_message_id sent' = ids)"
    by (intro exI [of _ ?ids]) simp
  moreover have "h_id (m_header m) = rid" "m_query m = as_bytes path" "h_notify (m_header m) = 1 \<longleftrightarrow> notify"
    by (simp_all add: assms(5) build_message_fields)
  moreover have "udp_send_with_formats send capacity cv path params qf bf notify d
      = (Inl (RE_Io (IoError K_NotConnected ''udp client is closed'')), d)"
    using assms(3) by (simp add: udp_send_with_formats_def)
  ultimately show ?thesis using build_message_parses [OF assms(6,4,5)] by blast
qed

definition sample_udp_client :: "SendRequest list UniUdpClient" where
  "sample_udp_client =
     \<lparr>uc_socket = Some [], uc_destination = V4 ''10.0.0.1'' 9000, uc_next_repe_id = 1, uc_redundancy = 1,
      uc_chunk_size = 1024, uc_fec_group_size = 4, uc_parity_shards = 2\<rparr>"

definition unit_codec :: "(unit, unit) codec" where
  "unit_codec = \<lparr>cd_to_json = (\<lambda>_. []), cd_to_beve = (\<lambda>_. []), cd_from_json = (\<lambda>_. Inr ()),
     cd_from_beve = (\<lambda>_. Inr ()), cd_invalid_utf8 = (\<lambda>_. ())\<rparr>"

theorem udp_sends_in_order_witness:
  "\<exists>ids. fst (send_all recording_send 0 unit_codec [(''/a'', None, True), (''/b'', None, False)] sample_udp_client)
     = map Inr ids \<and> distinct ids \<and> length ids = 2"
proof -
  let ?m = "build_message_for_udp unit_codec 1 ''/a'' None 1 2 True"
  have "uc_socket sample_udp_client = Some []" "uc_socket (udp_close sample_udp_client) = None"
    by (simp_all add: sample_udp_client_def udp_close_def)
  moreover have "HEADER_SIZE + length (m_query ?m) + length (m_body ?m) \<le> 65535"
    by (simp add: build_message_for_udp_def Let_def builder_defs HEADER_SIZE_def)
  ultimately show ?thesis
    using udp_sends_in_order [of sample_udp_client "[]" "[(''/a'', None, True), (''/b'', None, False)]"
        "udp_close sample_udp_client" 65535 ?m unit_codec 1 "''/a''" None 1 2 True 0 recording_send]
    by auto
qed

end
