(* ===== verification/Uniudp_Fleet.thy ===== *)
theory Uniudp_Fleet
  imports Fleet Udp_Client
begin

text \<open>
  The one-way fleet of \<^verbatim>\<open>src/uniudp_fleet.rs\<close>: named UniUDP clients, opened when their node is added and
  closed when it is removed. As in the other fleets a node is shared and the table maps its name to
  an index. \<open>dial\<close> is \<^verbatim>\<open>UniUdpClient::connect\<close> on a host, a port and the four send parameters, \<open>show_err\<close>
  prints its error, \<open>send\<close> is the sender under the clients and \<open>clock\<close> reads the time on the
  socket's world.
\<close>

section \<open>Configuration\<close>

record UniUdpNodeConfig =
  un_name :: string
  un_host :: string
  un_port :: u16
  un_tags :: "string set"
  un_redundancy :: nat
  un_chunk_size :: nat
  un_fec_group_size :: nat
  un_parity_shards :: nat

definition udp_config_new :: "string \<Rightarrow> u16 \<Rightarrow> FleetError + UniUdpNodeConfig" where
  "udp_config_new host port =
     (if host = [] then Inl FE_EmptyHost
      else if port = 0 then Inl (FE_InvalidPort port)
      else Inr \<lparr>un_name = host, un_host = host, un_port = port, un_tags = {}, un_redundancy = 1,
             un_chunk_size = 1024, un_fec_group_size = 4, un_parity_shards = 2\<rparr>)"

definition udp_with_name :: "string \<Rightarrow> UniUdpNodeConfig \<Rightarrow> FleetError + UniUdpNodeConfig" where
  "udp_with_name name c = (if name = [] then Inl FE_EmptyNodeName else Inr (c\<lparr>un_name := name\<rparr>))"

definition udp_with_tags :: "string list \<Rightarrow> UniUdpNodeConfig \<Rightarrow> UniUdpNodeConfig" where
  "udp_with_tags tags c = c\<lparr>un_tags := set tags\<rparr>"

definition with_redundancy :: "nat \<Rightarrow> UniUdpNodeConfig \<Rightarrow> FleetError + UniUdpNodeConfig" where
  "with_redundancy redundancy c =
     (if redundancy < 1 then Inl FE_InvalidRedundancy else Inr (c\<lparr>un_redundancy := redundancy\<rparr>))"

definition with_chunk_size :: "nat \<Rightarrow> UniUdpNodeConfig \<Rightarrow> FleetError + UniUdpNodeConfig" where
  "with_chunk_size chunk_size c =
     (if chunk_size < 1 then Inl FE_InvalidChunkSize else Inr (c\<lparr>un_chunk_size := chunk_size\<rparr>))"

definition with_fec_group_size :: "nat \<Rightarrow> UniUdpNodeConfig \<Rightarrow> FleetError + UniUdpNodeConfig" where
  "with_fec_group_size fec_group_size c =
     (if fec_group_size < 1 then Inl FE_InvalidFecGroupSize else Inr (c\<lparr>un_fec_group_size := fec_group_size\<rparr>))"

definition with_parity_shards :: "nat \<Rightarrow> UniUdpNodeConfig \<Rightarrow> FleetError + UniUdpNodeConfig" where
  "with_parity_shards parity_shards c =
     (if \<not> (1 \<le> parity_shards \<and> parity_shards \<le> 16) then Inl FE_InvalidParityShards
      else Inr (c\<lparr>un_parity_shards := parity_shards\<rparr>))"

definition validate_udp_config :: "UniUdpNodeConfig \<Rightarrow> FleetError + unit" where
  "validate_udp_config config =
     (if un_host config = [] then Inl FE_EmptyHost
      else if un_name config = [] then Inl FE_EmptyNodeName
      else if un_port config = 0 then Inl (FE_InvalidPort (un_port config))
      else if un_redundancy config < 1 then Inl FE_InvalidRedundancy
      else if un_chunk_size config < 1 then Inl FE_InvalidChunkSize
      else if un_fec_group_size config < 1 then Inl FE_InvalidFecGroupSize
      else if \<not> (1 \<le> un_parity_shards config \<and> un_parity_shards config \<le> 16) then Inl FE_InvalidParityShards
      else Inr ())"

section \<open>Nodes\<close>

record UniUdpNode =
  ud_name :: string
  ud_host :: string
  ud_port :: u16
  ud_tags :: "string set"
  ud_redundancy :: nat
  ud_chunk_size :: nat
  ud_fec_group_size :: nat
  ud_parity_shards :: nat
  ud_open :: bool

record 's SendResult =
  sr_node :: string
  sr_message_id :: u64
  sr_error :: "'s RepeError option"
  sr_elapsed :: nat

definition send_succeeded :: "'s SendResult \<Rightarrow> bool" where
  "send_succeeded r \<longleftrightarrow> sr_error r = None"

definition send_failed :: "'s SendResult \<Rightarrow> bool" where
  "send_failed r \<longleftrightarrow> sr_error r \<noteq> None"

definition send_result_display :: "'s SendResult \<Rightarrow> string" where
  "send_result_display r =
     (if send_succeeded r
      then ''SendResult('' @ sr_node r @ '', msg_id='' @ dec_str (unat (sr_message_id r)) @ '', ''
             @ dec_str (sr_elapsed r div 1000000) @ ''ms)''
      else ''SendResult('' @ sr_node r @ '', failed, '' @ dec_str (sr_elapsed r div 1000000) @ ''ms)'')"

record 'k UniUdpNodeState =
  us_config :: UniUdpNodeConfig
  us_tags :: "string set"
  us_client :: "'k UniUdpClient"

type_synonym ('k, 's) dial = "string \<times> u16 \<Rightarrow> nat \<Rightarrow> nat \<Rightarrow> nat \<Rightarrow> nat \<Rightarrow> 's RepeError + 'k UniUdpClient"

definition udp_node_state_new :: "('k, 's) dial \<Rightarrow> UniUdpNodeConfig \<Rightarrow> 's RepeError + 'k UniUdpNodeState" where
  "udp_node_state_new dial config =
     res_bind (dial (un_host config, un_port config) (un_redundancy config) (un_chunk_size config)
         (un_fec_group_size config) (un_parity_shards config)) (\<lambda>client.
     Inr \<lparr>us_config = config, us_tags = un_tags config, us_client = client\<rparr>)"

definition udp_snapshot :: "'k UniUdpNodeState \<Rightarrow> UniUdpNode" where
  "udp_snapshot n =
     \<lparr>ud_name = un_name (us_config n), ud_host = un_host (us_config n), ud_port = un_port (us_config n),
      ud_tags = us_tags n, ud_redundancy = un_redundancy (us_config n), ud_chunk_size = un_chunk_size (us_config n),
      ud_fec_group_size = un_fec_group_size (us_config n), ud_parity_shards = un_parity_shards (us_config n),
      ud_open = is_open (us_client n)\<rparr>"

section \<open>The fleet\<close>

record 'k UniUdpFleet =
  uf_nodes :: "string \<rightharpoonup> nat"
  uf_states :: "'k UniUdpNodeState list"

definition udp_fleet_default :: "'k UniUdpFleet" where
  "udp_fleet_default = \<lparr>uf_nodes = Map.empty, uf_states = []\<rparr>"

definition udp_insert :: "'k UniUdpNodeState \<Rightarrow> 'k UniUdpFleet \<Rightarrow> 'k UniUdpFleet" where
  "udp_insert state f =
     f\<lparr>uf_nodes := (uf_nodes f)(un_name (us_config state) \<mapsto> length (uf_states f)),
       uf_states := uf_states f @ [state]\<rparr>"

fun udp_insert_configs ::
    "('k, 's) dial \<Rightarrow> ('s RepeError \<Rightarrow> string) \<Rightarrow> UniUdpNodeConfig list \<Rightarrow> string set \<Rightarrow> 'k UniUdpFleet
      \<Rightarrow> FleetError + 'k UniUdpFleet" where
  "udp_insert_configs dial show_err [] names f = Inr f"
| "udp_insert_configs dial show_err (config # configs) names f =
     res_bind (validate_udp_config config) (\<lambda>_.
     if un_name config \<in> names then Inl (FE_DuplicateNodeName (un_name config))
     else res_bind (res_map_err (\<lambda>err. FE_NodeInitialization (show_err err)) (udp_node_state_new dial config)) (\<lambda>state.
       udp_insert_configs dial show_err configs (insert (un_name config) names) (udp_insert state f)))"

definition udp_fleet_new ::
    "('k, 's) dial \<Rightarrow> ('s RepeError \<Rightarrow> string) \<Rightarrow> UniUdpNodeConfig list \<Rightarrow> FleetError + 'k UniUdpFleet" where
  "udp_fleet_new dial show_err configs = udp_insert_configs dial show_err configs {} udp_fleet_default"

definition udp_values :: "string list \<Rightarrow> 'k UniUdpFleet \<Rightarrow> nat list" where
  "udp_values order f = List.map_filter (uf_nodes f) order"

definition udp_len :: "string list \<Rightarrow> 'k UniUdpFleet \<Rightarrow> nat" where
  "udp_len order f = length (udp_values order f)"

definition udp_is_empty :: "string list \<Rightarrow> 'k UniUdpFleet \<Rightarrow> bool" where
  "udp_is_empty order f \<longleftrightarrow> udp_len order f = 0"

definition udp_keys :: "string list \<Rightarrow> 'k UniUdpFleet \<Rightarrow> string list" where
  "udp_keys order f = filter (\<lambda>name. uf_nodes f name \<noteq> None) order"

definition udp_node :: "string \<Rightarrow> 'k UniUdpFleet \<Rightarrow> FleetError + UniUdpNode" where
  "udp_node name f =
     res_bind (ok_or (FE_NodeNotFound name) (uf_nodes f name)) (\<lambda>i. Inr (udp_snapshot (uf_states f ! i)))"

definition udp_nodes :: "string list \<Rightarrow> 'k UniUdpFleet \<Rightarrow> UniUdpNode list" where
  "udp_nodes order f = map (\<lambda>i. udp_snapshot (uf_states f ! i)) (udp_values order f)"

definition udp_snapshot_target_nodes :: "string list \<Rightarrow> string list \<Rightarrow> 'k UniUdpFleet \<Rightarrow> nat list" where
  "udp_snapshot_target_nodes order tags f =
     filter (\<lambda>i. set tags \<subseteq> us_tags (uf_states f ! i)) (udp_values order f)"

definition udp_filter_nodes :: "string list \<Rightarrow> string list \<Rightarrow> 'k UniUdpFleet \<Rightarrow> UniUdpNode list" where
  "udp_filter_nodes order tags f =
     map (\<lambda>i. udp_snapshot (uf_states f ! i))
       (filter (\<lambda>i. set tags \<subseteq> us_tags (uf_states f ! i)) (udp_values order f))"

text \<open>The socket of a new node is opened before its name is looked up.\<close>

definition udp_add_node ::
    "('k, 's) dial \<Rightarrow> ('s RepeError \<Rightarrow> string) \<Rightarrow> UniUdpNodeConfig \<Rightarrow> 'k UniUdpFleet
      \<Rightarrow> (FleetError + unit) \<times> 'k UniUdpFleet" where
  "udp_add_node dial show_err config f =
     (case validate_udp_config config of
        Inl e \<Rightarrow> (Inl e, f)
      | Inr _ \<Rightarrow>
          (case udp_node_state_new dial config of
             Inl err \<Rightarrow> (Inl (FE_NodeInitialization (show_err err)), f)
           | Inr state \<Rightarrow>
               if uf_nodes f (un_name (us_config state)) \<noteq> None
               then (Inl (FE_DuplicateNodeName (un_name (us_config state))), f)
               else (Inr (), udp_insert state f)))"

definition close_state :: "nat \<Rightarrow> 'k UniUdpNodeState list \<Rightarrow> 'k UniUdpNodeState list" where
  "close_state i states = states[i := (states ! i)\<lparr>us_client := udp_close (us_client (states ! i))\<rparr>]"

definition udp_remove_node :: "string \<Rightarrow> 'k UniUdpFleet \<Rightarrow> bool \<times> 'k UniUdpFleet" where
  "udp_remove_node name f =
     (case uf_nodes f name of
        Some i \<Rightarrow>
          (True, f\<lparr>uf_nodes := (uf_nodes f)(name := None), uf_states := close_state i (uf_states f)\<rparr>)
      | None \<Rightarrow> (False, f))"

definition udp_close_all :: "string list \<Rightarrow> 'k UniUdpFleet \<Rightarrow> 'k UniUdpFleet" where
  "udp_close_all order f = f\<lparr>uf_states := fold close_state (udp_values order f) (uf_states f)\<rparr>"

definition udp_display :: "string list \<Rightarrow> 'k UniUdpFleet \<Rightarrow> string" where
  "udp_display order f = ''UniUdpFleet('' @ dec_str (udp_len order f) @ '' nodes)''"

section \<open>Sending\<close>

definition send_to_node ::
    "(SendRequest \<Rightarrow> 'k \<Rightarrow> (string + u64) \<times> 'k) \<Rightarrow> nat \<Rightarrow> ('v, 's) codec \<Rightarrow> ('k UniUdpClient \<Rightarrow> nat) \<Rightarrow> string
      \<Rightarrow> 'v option \<Rightarrow> bool \<Rightarrow> 'k UniUdpNodeState \<Rightarrow> 's SendResult \<times> 'k UniUdpNodeState" where
  "send_to_node send capacity cv clock path params notify n =
     (case (if notify then udp_send_notify send capacity cv path params (us_client n)
            else udp_send_request send capacity cv path params (us_client n)) of
        (Inr message_id, c) \<Rightarrow>
          (\<lparr>sr_node = un_name (us_config n), sr_message_id = message_id, sr_error = None,
            sr_elapsed = clock c - clock (us_client n)\<rparr>, n\<lparr>us_client := c\<rparr>)
      | (Inl err, c) \<Rightarrow>
          (\<lparr>sr_node = un_name (us_config n), sr_message_id = 0, sr_error = Some err,
            sr_elapsed = clock c - clock (us_client n)\<rparr>, n\<lparr>us_client := c\<rparr>))"

fun send_each ::
    "('k UniUdpNodeState \<Rightarrow> 's SendResult \<times> 'k UniUdpNodeState) \<Rightarrow> nat list \<Rightarrow> 'k UniUdpNodeState list
      \<Rightarrow> (string \<rightharpoonup> 's SendResult) \<Rightarrow> (string \<rightharpoonup> 's SendResult) \<times> 'k UniUdpNodeState list" where
  "send_each to_node [] states results = (results, states)"
| "send_each to_node (i # targets) states results =
     (case to_node (states ! i) of
        (result, n) \<Rightarrow> send_each to_node targets (states[i := n]) (results(sr_node result \<mapsto> result)))"

definition send_with_selection ::
    "(SendRequest \<Rightarrow> 'k \<Rightarrow> (string + u64) \<times> 'k) \<Rightarrow> nat \<Rightarrow> ('v, 's) codec \<Rightarrow> ('k UniUdpClient \<Rightarrow> nat) \<Rightarrow> string list
      \<Rightarrow> string \<Rightarrow> 'v option \<Rightarrow> string list \<Rightarrow> bool \<Rightarrow> 'k UniUdpFleet
      \<Rightarrow> (string \<rightharpoonup> 's SendResult) \<times> 'k UniUdpFleet" where
  "send_with_selection send capacity cv clock order path params tags notify f =
     (case send_each (send_to_node send capacity cv clock path params notify)
             (udp_snapshot_target_nodes order tags f) (uf_states f) Map.empty of
        (results, states) \<Rightarrow> (results, f\<lparr>uf_states := states\<rparr>))"

definition fleet_send_notify where
  "fleet_send_notify send capacity cv clock order path params tags f =
     send_with_selection send capacity cv clock order path params tags True f"

definition fleet_send_request where
  "fleet_send_request send capacity cv clock order path params tags f =
     send_with_selection send capacity cv clock order path params tags False f"

definition notify_all where
  "notify_all send capacity cv clock order path params f =
     fleet_send_notify send capacity cv clock order path params [] f"

definition send_notify_to ::
    "(SendRequest \<Rightarrow> 'k \<Rightarrow> (string + u64) \<times> 'k) \<Rightarrow> nat \<Rightarrow> ('v, 's) codec \<Rightarrow> ('k UniUdpClient \<Rightarrow> nat) \<Rightarrow> string
      \<Rightarrow> string \<Rightarrow> 'v option \<Rightarrow> 'k UniUdpFleet \<Rightarrow> (FleetError + 's SendResult) \<times> 'k UniUdpFleet" where
  "send_notify_to send capacity cv clock node_name path params f =
     (case uf_nodes f node_name of
        None \<Rightarrow> (Inl (FE_NodeNotFound node_name), f)
      | Some i \<Rightarrow>
          (case send_to_node send capacity cv clock path params True (uf_states f ! i) of
             (result, n) \<Rightarrow> (Inr result, f\<lparr>uf_states := (uf_states f)[i := n]\<rparr>)))"

section \<open>Properties\<close>

definition udp_fleet_ok :: "'k UniUdpFleet \<Rightarrow> bool" where
  "udp_fleet_ok f \<longleftrightarrow>
     (\<forall>name i. uf_nodes f name = Some i \<longrightarrow> i < length (uf_states f) \<and> un_name (us_config (uf_states f ! i)) = name
        \<and> us_tags (uf_states f ! i) = un_tags (us_config (uf_states f ! i))
        \<and> validate_udp_config (us_config (uf_states f ! i)) = Inr ())"

definition same_udp_nodes :: "'k UniUdpNodeState list \<Rightarrow> 'k UniUdpNodeState list \<Rightarrow> bool" where
  "same_udp_nodes xs ys \<longleftrightarrow> length ys = length xs
     \<and> (\<forall>i < length xs. us_config (ys ! i) = us_config (xs ! i) \<and> us_tags (ys ! i) = us_tags (xs ! i))"

datatype udp_event = Udp_Add UniUdpNodeConfig | Udp_Remove string | Udp_Clients

inductive udp_step :: "('k, 's) dial \<Rightarrow> ('s RepeError \<Rightarrow> string) \<Rightarrow> 'k UniUdpFleet \<Rightarrow> udp_event \<Rightarrow> 'k UniUdpFleet \<Rightarrow> bool"
  for dial :: "('k, 's) dial" and show_err where
  udp_added: "udp_step dial show_err f (Udp_Add config) (snd (udp_add_node dial show_err config f))"
| udp_removed: "udp_step dial show_err f (Udp_Remove name) (snd (udp_remove_node name f))"
| udp_clients: "same_udp_nodes (uf_states f) states \<Longrightarrow> udp_step dial show_err f Udp_Clients (f\<lparr>uf_states := states\<rparr>)"

definition udp_start :: "('k, 's) dial \<Rightarrow> ('s RepeError \<Rightarrow> string) \<Rightarrow> 'k UniUdpFleet \<Rightarrow> bool" where
  "udp_start dial show_err f \<longleftrightarrow> (\<exists>configs. udp_fleet_new dial show_err configs = Inr f)"

lemma udp_ok_insert:
  assumes "udp_fleet_ok f" "validate_udp_config config = Inr ()" "udp_node_state_new dial config = Inr state"
  shows "udp_fleet_ok (udp_insert state f)"
proof -
  have "us_config state = config" "us_tags state = un_tags config"
    using assms(3) by (auto simp: udp_node_state_new_def res_bind_iffs)
  with assms(1,2) show ?thesis by (force simp: udp_fleet_ok_def udp_insert_def nth_append split: if_splits)
qed

lemma udp_ok_configs: "udp_insert_configs dial show_err configs names f = Inr f' \<Longrightarrow> udp_fleet_ok f \<Longrightarrow> udp_fleet_ok f'"
  by (induction dial show_err configs names f rule: udp_insert_configs.induct)
    (auto simp: res_bind_iffs udp_ok_insert split: if_splits)

lemma udp_ok_same: "udp_fleet_ok f \<Longrightarrow> same_udp_nodes (uf_states f) states \<Longrightarrow> udp_fleet_ok (f\<lparr>uf_states := states\<rparr>)"
  by (auto simp: udp_fleet_ok_def same_udp_nodes_def)

lemma same_udp_close [simp]: "same_udp_nodes xs (close_state i xs)"
  by (cases "i < length xs") (simp_all add: same_udp_nodes_def close_state_def nth_list_update)

interpretation udp_system: invariant_system "udp_start dial show_err" "udp_step dial show_err" udp_fleet_ok
  for dial show_err
proof
  fix f
  assume "udp_start dial show_err f"
  then show "udp_fleet_ok f"
    by (auto simp: udp_start_def udp_fleet_new_def dest!: udp_ok_configs)
      (simp add: udp_fleet_ok_def udp_fleet_default_def)
next
  fix f e f'
  assume "udp_fleet_ok f" "udp_step dial show_err f e f'"
  from this(2,1) show "udp_fleet_ok f'"
  proof cases
    case (udp_removed name)
    have "udp_fleet_ok (f\<lparr>uf_nodes := (uf_nodes f)(name := None)\<rparr>)" using \<open>udp_fleet_ok f\<close> by (simp add: udp_fleet_ok_def)
    from udp_ok_same [OF this] udp_removed(2) \<open>udp_fleet_ok f\<close> show ?thesis
      by (cases "uf_nodes f name") (simp_all add: udp_remove_node_def)
  qed (auto simp: udp_add_node_def udp_ok_insert udp_ok_same split: sum.splits)
qed

lemma send_to_node_keeps:
  "us_config (snd (send_to_node send capacity cv clock path params notify n)) = us_config n"
  "us_tags (snd (send_to_node send capacity cv clock path params notify n)) = us_tags n"
  "sr_node (fst (send_to_node send capacity cv clock path params notify n)) = un_name (us_config n)"
  by (auto simp: send_to_node_def split: prod.split sum.split)

lemma send_each_result:
  assumes "\<And>n. us_config (snd (to_node n)) = us_config n" and "\<And>n. sr_node (fst (to_node n)) = un_name (us_config n)"
  shows "distinct targets \<Longrightarrow> set targets \<subseteq> {..<length states}
    \<Longrightarrow> inj_on (\<lambda>i. un_name (us_config (states ! i))) (set targets)
    \<Longrightarrow> send_each to_node targets states results = (results', states')
    \<Longrightarrow> (\<forall>i. states' ! i = (if i \<in> set targets then snd (to_node (states ! i)) else states ! i))
      \<and> (\<forall>i \<in> set targets. results' (un_name (us_config (states ! i))) = Some (fst (to_node (states ! i))))
      \<and> (\<forall>name. name \<notin> (\<lambda>i. un_name (us_config (states ! i))) ` set targets \<longrightarrow> results' name = results name)"
proof (induction targets arbitrary: states results)
  case (Cons h targets)
  let ?states = "states[h := snd (to_node (states ! h))]"
  have h: "h < length states" "h \<notin> set targets" using Cons.prems by auto
  have nth: "?states ! i = (if i = h then snd (to_node (states ! h)) else states ! i)" for i
    using h(1) by (simp add: nth_list_update)
  then have names: "us_config (?states ! i) = us_config (states ! i)" for i using assms(1) by simp
  have "send_each to_node targets ?states (results(un_name (us_config (states ! h)) \<mapsto> fst (to_node (states ! h))))
      = (results', states')"
    using Cons.prems(4) assms(2) [of "states ! h"] by (simp add: split_beta)
  from Cons.IH [OF _ _ _ this] Cons.prems(1-3) h have
    "states' ! i = (if i \<in> set targets then snd (to_node (?states ! i)) else ?states ! i)"
    "i \<in> set targets \<Longrightarrow> results' (un_name (us_config (states ! i))) = Some (fst (to_node (?states ! i)))"
    "name \<notin> (\<lambda>i. un_name (us_config (states ! i))) ` set targets \<Longrightarrow>
       results' name = (results(un_name (us_config (states ! h)) \<mapsto> fst (to_node (states ! h)))) name" for i name
    unfolding names by (auto simp: inj_on_def)
  moreover have "un_name (us_config (states ! h)) \<notin> (\<lambda>i. un_name (us_config (states ! i))) ` set targets"
    using Cons.prems(3) h(2) by (auto simp: inj_on_def)
  ultimately show ?case using h(2) by (auto simp: nth)
qed simp

lemma udp_values_set: "set order = dom (uf_nodes f) \<Longrightarrow> set (udp_values order f) = ran (uf_nodes f)"
  by (force simp: udp_values_def ran_def map_filter_def)

lemma udp_ok_name: "udp_fleet_ok f \<Longrightarrow> uf_nodes f name = Some i \<Longrightarrow> un_name (us_config (uf_states f ! i)) = name"
  by (simp add: udp_fleet_ok_def)

lemma in_map_filter: "y \<in> set (List.map_filter g xs) \<longleftrightarrow> (\<exists>x \<in> set xs. g x = Some y)"
  by (induction xs) (auto simp: map_filter_simps split: option.split)

lemma udp_values_distinct: "udp_fleet_ok f \<Longrightarrow> distinct order \<Longrightarrow> distinct (udp_values order f)"
proof (induction order)
  case (Cons name order)
  then show ?case
    using udp_ok_name [OF Cons.prems(1)]
    by (auto simp: udp_values_def map_filter_simps in_map_filter split: option.split)
qed (simp add: udp_values_def map_filter_simps)

text \<open>
  A send to the nodes with given tags reaches each of them exactly once: under the name of each such
  node, and under no other, the table returned has the outcome of the send on its own client, which
  takes the state that send left; every other node is as it was.
\<close>

theorem udp_send_selected:
  assumes "reachable (udp_start dial show_err) (udp_step dial show_err) f"
    and "set order = dom (uf_nodes f)" and "distinct order"
    and "send_with_selection send capacity cv clock order path params tags notify f = (results, f')"
  shows "results name =
      (case uf_nodes f name of
         None \<Rightarrow> None
       | Some i \<Rightarrow>
           if set tags \<subseteq> un_tags (us_config (uf_states f ! i))
           then Some (fst (send_to_node send capacity cv clock path params notify (uf_states f ! i))) else None)
    \<and> (uf_nodes f name = Some i \<longrightarrow>
        uf_states f' ! i =
          (if set tags \<subseteq> un_tags (us_config (uf_states f ! i))
           then snd (send_to_node send capacity cv clock path params notify (uf_states f ! i)) else uf_states f ! i))"
proof -
  let ?to = "send_to_node send capacity cv clock path params notify"
  let ?targets = "udp_snapshot_target_nodes order tags f"
  have ok: "udp_fleet_ok f" by (rule udp_system.invar_reachable [OF assms(1)])
  have targets: "i \<in> set ?targets \<longleftrightarrow> (\<exists>name. uf_nodes f name = Some i) \<and> set tags \<subseteq> un_tags (us_config (uf_states f ! i))" for i
    using udp_values_set [OF assms(2)] ok by (auto simp: udp_snapshot_target_nodes_def ran_def udp_fleet_ok_def)
  have "distinct ?targets" using udp_values_distinct [OF ok assms(3)] by (simp add: udp_snapshot_target_nodes_def)
  moreover have "set ?targets \<subseteq> {..<length (uf_states f)}" using targets ok by (auto simp: udp_fleet_ok_def)
  moreover have "inj_on (\<lambda>i. un_name (us_config (uf_states f ! i))) (set ?targets)"
    using targets udp_ok_name [OF ok] by (fastforce simp: inj_on_def)
  moreover obtain states' where "send_each ?to ?targets (uf_states f) Map.empty = (results, states')"
    and f': "f' = f\<lparr>uf_states := states'\<rparr>"
    using assms(4) by (auto simp: send_with_selection_def split: prod.splits)
  ultimately have sent:
    "states' ! i = (if i \<in> set ?targets then snd (?to (uf_states f ! i)) else uf_states f ! i)"
    "i \<in> set ?targets \<Longrightarrow> results (un_name (us_config (uf_states f ! i))) = Some (fst (?to (uf_states f ! i)))"
    "name \<notin> (\<lambda>i. un_name (us_config (uf_states f ! i))) ` set ?targets \<Longrightarrow> results name = None" for i name
    using send_each_result [of ?to, OF send_to_node_keeps(1,3)] by blast+
  show ?thesis
  proof (cases "\<exists>j \<in> set ?targets. uf_nodes f name = Some j")
    case True
    then show ?thesis using sent(1,2) targets udp_ok_name [OF ok] f' by fastforce
  next
    case False
    then have "name \<notin> (\<lambda>i. un_name (us_config (uf_states f ! i))) ` set ?targets"
      using targets udp_ok_name [OF ok] by fastforce
    with sent(1,3) False targets f' show ?thesis by (fastforce split: option.split)
  qed
qed

definition sample_udp_config :: UniUdpNodeConfig where
  "sample_udp_config = \<lparr>un_name = ''a'', un_host = ''h'', un_port = 1, un_tags = {}, un_redundancy = 1,
     un_chunk_size = 1024, un_fec_group_size = 4, un_parity_shards = 2\<rparr>"

definition sample_dial :: "(SendRequest list, unit) dial" where
  "sample_dial addr redundancy chunk_size fec_group_size parity_shards = Inr sample_udp_client"

definition sample_udp_fleet :: "SendRequest list UniUdpFleet" where
  "sample_udp_fleet = \<lparr>uf_nodes = [''a'' \<mapsto> 0],
     uf_states = [\<lparr>us_config = sample_udp_config, us_tags = {}, us_client = sample_udp_client\<rparr>]\<rparr>"

theorem udp_send_selected_witness:
  "\<exists>r. fst (send_with_selection recording_send 0 unit_codec (\<lambda>_. 0) [''a''] ''/x'' None [] True sample_udp_fleet) ''a''
     = Some r \<and> send_succeeded r \<and> sr_message_id r = 1"
proof -
  let ?sent = "send_with_selection recording_send 0 unit_codec (\<lambda>_. 0) [''a''] ''/x'' None [] True sample_udp_fleet"
  have "udp_fleet_new sample_dial (\<lambda>_. []) [sample_udp_config] = Inr sample_udp_fleet"
    by (simp add: udp_fleet_new_def validate_udp_config_def sample_udp_config_def udp_node_state_new_def
        sample_dial_def udp_insert_def udp_fleet_default_def sample_udp_fleet_def)
  then have "reachable (udp_start sample_dial (\<lambda>_. [])) (udp_step sample_dial (\<lambda>_. [])) sample_udp_fleet"
    by (intro reachable.intros(1)) (auto simp: udp_start_def)
  moreover have "set [''a''] = dom (uf_nodes sample_udp_fleet)" "distinct [''a'']"
    by (simp_all add: sample_udp_fleet_def)
  moreover have "?sent = (fst ?sent, snd ?sent)" by simp
  ultimately have "fst ?sent ''a'' = Some (fst (send_to_node recording_send 0 unit_codec (\<lambda>_. 0) ''/x'' None True
      (uf_states sample_udp_fleet ! 0)))"
    using udp_send_selected [of sample_dial "\<lambda>_. []" sample_udp_fleet "[''a'']" recording_send 0 unit_codec "\<lambda>_. 0"
        "''/x''" None "[]" True "fst ?sent" "snd ?sent" "''a''"] by (simp add: sample_udp_fleet_def)
  then show ?thesis
    by (simp add: send_to_node_def udp_send_notify_def sample_udp_fleet_def udp_send_with_formats_def
        sample_udp_client_def next_repe_message_id_def recording_send_def send_succeeded_def)
qed

end
