(* ===== verification/Async_Fleet.thy ===== *)
theory Async_Fleet
  imports Fleet
begin

text \<open>
  The asynchronous fleet of \<^verbatim>\<open>src/async_fleet.rs\<close>, over the configuration types of the blocking
  one. Its operations are written anew in the source, over tokio's locks and tasks, and so they are
  here; the end of the theory shows that they agree with those of \<^verbatim>\<open>src/fleet.rs\<close>. The arguments
  that stand for the network, the clock and the order of a \<^verbatim>\<open>HashMap\<close> are as in that theory.
\<close>

section \<open>Nodes and their connections\<close>

definition async_node_state_new :: "NodeConfig \<Rightarrow> 'c NodeState" where
  "async_node_state_new config = \<lparr>ns_config = config, ns_tags = nc_tags config, ns_client = None\<rparr>"

definition async_node_snapshot :: "'c NodeState \<Rightarrow> Node" where
  "async_node_snapshot n =
     \<lparr>nd_name = nc_name (ns_config n), nd_host = nc_host (ns_config n), nd_port = nc_port (ns_config n),
      nd_tags = ns_tags n, nd_timeout = nc_timeout (ns_config n)\<rparr>"

definition async_ensure_connected ::
    "(string \<times> u16 \<Rightarrow> 'w \<Rightarrow> (io_error + 'c) \<times> 'w) \<Rightarrow> nat \<Rightarrow> ('c, 'w) world
      \<Rightarrow> ('s RepeError + 'c) \<times> ('c, 'w) world" where
  "async_ensure_connected connect i st =
     (case ns_client (fst st ! i) of
        Some existing \<Rightarrow> (Inr existing, st)
      | None \<Rightarrow>
          (let host = nc_host (ns_config (fst st ! i)); port = nc_port (ns_config (fst st ! i))
           in case connect (host, port) (snd st) of
                (Inl e, w) \<Rightarrow> (Inl (RE_Io e), (fst st, w))
              | (Inr created, w) \<Rightarrow>
                  (Inr created, ((fst st)[i := (fst st ! i)\<lparr>ns_client := Some created\<rparr>], w))))"

definition async_invalidate_client :: "nat \<Rightarrow> ('c, 'w) world \<Rightarrow> ('c, 'w) world" where
  "async_invalidate_client i st = ((fst st)[i := (fst st ! i)\<lparr>ns_client := None\<rparr>], snd st)"

definition async_is_retryable_error :: "'s RepeError \<Rightarrow> bool" where
  "async_is_retryable_error err =
     (case err of
        RE_Io io_err \<Rightarrow>
          io_error_kind io_err \<in> {K_TimedOut, K_ConnectionRefused, K_ConnectionReset, K_ConnectionAborted,
            K_NotConnected, K_UnexpectedEof, K_WouldBlock, K_Interrupted}
      | RE_ServerError _ _ \<Rightarrow> False
      | _ \<Rightarrow> False)"

definition async_encode_params :: "('t \<Rightarrow> bytes) \<Rightarrow> 't option \<Rightarrow> bytes option" where
  "async_encode_params to_json params = map_option to_json params"

section \<open>Calls\<close>

text \<open>\<open>k\<close> counts the attempts up to \<open>max_attempts\<close>.\<close>

function async_retry ::
    "('st \<Rightarrow> ('s RepeError + 'v) \<times> 'st) \<Rightarrow> ('st \<Rightarrow> 'st) \<Rightarrow> ('st \<Rightarrow> 'st) \<Rightarrow> nat \<Rightarrow> nat \<Rightarrow> 's RepeError option
      \<Rightarrow> 'st \<Rightarrow> ('v option \<times> 's RepeError option) \<times> 'st" where
  "async_retry attempt invalidate sleep max_attempts k last_error st =
     (if \<not> k < max_attempts then ((None, last_error), st)
      else case attempt st of
             (Inr value, st) \<Rightarrow> ((Some value, None), st)
           | (Inl err, st) \<Rightarrow>
               let should_retry = async_is_retryable_error err; last_error = Some err
               in if should_retry
                  then async_retry attempt invalidate sleep max_attempts (k + 1) last_error
                         (if k + 1 < max_attempts then sleep (invalidate st) else invalidate st)
                  else ((None, last_error), st))"
  by pat_completeness auto

termination
  by (relation "measure (\<lambda>(_, _, _, max_attempts, k, _, _). max_attempts - k)") auto

declare async_retry.simps [simp del]

definition async_json_call ::
    "(string \<times> u16 \<Rightarrow> 'w \<Rightarrow> (io_error + 'c) \<times> 'w) \<Rightarrow> ('c \<Rightarrow> request \<Rightarrow> 'w \<Rightarrow> ('s RepeError + Message) \<times> 'w)
      \<Rightarrow> ('v, 's) codec \<Rightarrow> nat \<Rightarrow> string \<Rightarrow> bytes option \<Rightarrow> ('c, 'w) world
      \<Rightarrow> ('s RepeError + 'v) \<times> ('c, 'w) world" where
  "async_json_call connect call cv i path body st =
     (let timeout = nc_timeout (ns_config (fst st ! i))
      in case async_ensure_connected connect i st of
           (Inl err, st) \<Rightarrow> (Inl err, st)
         | (Inr client, (states, w)) \<Rightarrow>
             (let api = (case body of
                           Some bs \<Rightarrow> call_with_formats_and_timeout path (query_format_u16 QF_JsonPointer)
                                        (Some bs) (body_format_u16 BF_Json) timeout
                         | None \<Rightarrow> call_message_with_timeout path timeout)
              in case call client (ac_request api) w of
                   (r, w) \<Rightarrow>
                     (res_bind (api_result api r)
                        (decode_body (cd_invalid_utf8 cv) (cd_from_json cv) (cd_from_beve cv)), (states, w))))"

definition async_message_call ::
    "(string \<times> u16 \<Rightarrow> 'w \<Rightarrow> (io_error + 'c) \<times> 'w) \<Rightarrow> ('c \<Rightarrow> request \<Rightarrow> 'w \<Rightarrow> ('s RepeError + Message) \<times> 'w)
      \<Rightarrow> nat \<Rightarrow> string \<Rightarrow> nat \<Rightarrow> ('c, 'w) world \<Rightarrow> ('s RepeError + Message) \<times> ('c, 'w) world" where
  "async_message_call connect call i path timeout st =
     (case async_ensure_connected connect i st of
        (Inl err, st) \<Rightarrow> (Inl err, st)
      | (Inr client, (states, w)) \<Rightarrow>
          (let api = call_message_with_timeout path timeout
           in case call client (ac_request api) w of (r, w) \<Rightarrow> (api_result api r, (states, w))))"

definition async_call_json_with_retry ::
    "(string \<times> u16 \<Rightarrow> 'w \<Rightarrow> (io_error + 'c) \<times> 'w) \<Rightarrow> ('c \<Rightarrow> request \<Rightarrow> 'w \<Rightarrow> ('s RepeError + Message) \<times> 'w)
      \<Rightarrow> (nat \<Rightarrow> 'w \<Rightarrow> 'w) \<Rightarrow> ('w \<Rightarrow> nat) \<Rightarrow> ('v, 's) codec \<Rightarrow> RetryPolicy \<Rightarrow> nat \<Rightarrow> string \<Rightarrow> bytes option
      \<Rightarrow> ('c, 'w) world \<Rightarrow> ('v, 's) RemoteResult \<times> ('c, 'w) world" where
  "async_call_json_with_retry connect call sleep now cv policy i path body st =
     (case async_retry (async_json_call connect call cv i path body) (async_invalidate_client i)
             (apsnd (sleep (rp_delay policy))) (rp_max_attempts policy) 0 None st of
        ((value, error), st') \<Rightarrow>
          (\<lparr>rr_node = nc_name (ns_config (fst st ! i)), rr_value = value, rr_error = error,
            rr_elapsed = now (snd st') - now (snd st)\<rparr>, st'))"

definition async_call_message_with_retry ::
    "(string \<times> u16 \<Rightarrow> 'w \<Rightarrow> (io_error + 'c) \<times> 'w) \<Rightarrow> ('c \<Rightarrow> request \<Rightarrow> 'w \<Rightarrow> ('s RepeError + Message) \<times> 'w)
      \<Rightarrow> (nat \<Rightarrow> 'w \<Rightarrow> 'w) \<Rightarrow> ('w \<Rightarrow> nat) \<Rightarrow> RetryPolicy \<Rightarrow> nat \<Rightarrow> string
      \<Rightarrow> ('c, 'w) world \<Rightarrow> (Message, 's) RemoteResult \<times> ('c, 'w) world" where
  "async_call_message_with_retry connect call sleep now policy i path st =
     (case async_retry
             (\<lambda>st. async_message_call connect call i path (nc_timeout (ns_config (fst st ! i))) st)
             (async_invalidate_client i) (apsnd (sleep (rp_delay policy))) (rp_max_attempts policy) 0 None st of
        ((value, error), st') \<Rightarrow>
          (\<lparr>rr_node = nc_name (ns_config (fst st ! i)), rr_value = value, rr_error = error,
            rr_elapsed = now (snd st') - now (snd st)\<rparr>, st'))"

definition async_health_probe ::
    "(string \<times> u16 \<Rightarrow> 'w \<Rightarrow> (io_error + 'c) \<times> 'w) \<Rightarrow> ('c \<Rightarrow> request \<Rightarrow> 'w \<Rightarrow> ('s RepeError + Message) \<times> 'w)
      \<Rightarrow> ('w \<Rightarrow> nat) \<Rightarrow> string \<Rightarrow> nat \<Rightarrow> ('c, 'w) world \<Rightarrow> (string \<times> 's HealthStatus) \<times> ('c, 'w) world" where
  "async_health_probe connect call now endpoint i st =
     (case async_message_call connect call i endpoint DEFAULT_HEALTH_TIMEOUT st of
        (Inr _, st') \<Rightarrow>
          ((nc_name (ns_config (fst st ! i)),
            \<lparr>hs_healthy = True, hs_latency = now (snd st') - now (snd st), hs_error = None\<rparr>), st')
      | (Inl err, st') \<Rightarrow>
          (let st' = async_invalidate_client i st'
           in ((nc_name (ns_config (fst st ! i)),
                \<lparr>hs_healthy = False, hs_latency = now (snd st') - now (snd st), hs_error = Some err\<rparr>), st')))"

section \<open>The fleet\<close>

definition async_fleet_default :: "'c Fleet" where
  "async_fleet_default = \<lparr>fl_nodes = Map.empty, fl_states = [], fl_options = fleet_options_default\<rparr>"

definition async_insert_node :: "NodeConfig \<Rightarrow> 'c Fleet \<Rightarrow> 'c Fleet" where
  "async_insert_node config f =
     f\<lparr>fl_nodes := (fl_nodes f)(nc_name config \<mapsto> length (fl_states f)),
       fl_states := fl_states f @ [async_node_state_new config]\<rparr>"

fun async_insert_configs :: "NodeConfig list \<Rightarrow> string set \<Rightarrow> 'c Fleet \<Rightarrow> FleetError + 'c Fleet" where
  "async_insert_configs [] names f = Inr f"
| "async_insert_configs (config # configs) names f =
     (case validate_node_config config of
        Inl e \<Rightarrow> Inl e
      | Inr _ \<Rightarrow>
          if nc_name config \<in> names then Inl (FE_DuplicateNodeName (nc_name config))
          else async_insert_configs configs (insert (nc_name config) names) (async_insert_node config f))"

definition async_fleet_with_options :: "NodeConfig list \<Rightarrow> FleetOptions \<Rightarrow> FleetError + 'c Fleet" where
  "async_fleet_with_options configs options =
     (case validate_fleet_options options of
        Inl e \<Rightarrow> Inl e
      | Inr _ \<Rightarrow> async_insert_configs configs {} \<lparr>fl_nodes = Map.empty, fl_states = [], fl_options = options\<rparr>)"

definition async_fleet_new :: "NodeConfig list \<Rightarrow> FleetError + 'c Fleet" where
  "async_fleet_new configs = async_fleet_with_options configs fleet_options_default"

definition async_snapshot_node_states :: "string list \<Rightarrow> 'c Fleet \<Rightarrow> nat list" where
  "async_snapshot_node_states order f = List.map_filter (fl_nodes f) order"

definition async_snapshot_target_nodes :: "string list \<Rightarrow> string list \<Rightarrow> 'c Fleet \<Rightarrow> nat list" where
  "async_snapshot_target_nodes order tags f =
     filter (\<lambda>i. set tags \<subseteq> ns_tags (fl_states f ! i)) (List.map_filter (fl_nodes f) order)"

definition async_node_state :: "string \<Rightarrow> 'c Fleet \<Rightarrow> FleetError + nat" where
  "async_node_state name f = (case fl_nodes f name of Some i \<Rightarrow> Inr i | None \<Rightarrow> Inl (FE_NodeNotFound name))"

definition async_fleet_len :: "string list \<Rightarrow> 'c Fleet \<Rightarrow> nat" where
  "async_fleet_len order f = length (List.map_filter (fl_nodes f) order)"

definition async_fleet_is_empty :: "string list \<Rightarrow> 'c Fleet \<Rightarrow> bool" where
  "async_fleet_is_empty order f \<longleftrightarrow> async_fleet_len order f = 0"

definition async_fleet_keys :: "string list \<Rightarrow> 'c Fleet \<Rightarrow> string list" where
  "async_fleet_keys order f = filter (\<lambda>name. fl_nodes f name \<noteq> None) order"

definition async_fleet_node :: "string \<Rightarrow> 'c Fleet \<Rightarrow> FleetError + Node" where
  "async_fleet_node name f =
     (case fl_nodes f name of
        Some i \<Rightarrow> Inr (async_node_snapshot (fl_states f ! i))
      | None \<Rightarrow> Inl (FE_NodeNotFound name))"

definition async_fleet_all_nodes :: "string list \<Rightarrow> 'c Fleet \<Rightarrow> Node list" where
  "async_fleet_all_nodes order f =
     map (\<lambda>i. async_node_snapshot (fl_states f ! i)) (List.map_filter (fl_nodes f) order)"

fun push_connected :: "'c NodeState list \<Rightarrow> nat list \<Rightarrow> Node list \<Rightarrow> Node list" where
  "push_connected states [] out = out"
| "push_connected states (i # ks) out =
     push_connected states ks
       (if ns_client (states ! i) \<noteq> None then out @ [async_node_snapshot (states ! i)] else out)"

definition async_connected_nodes :: "string list \<Rightarrow> 'c Fleet \<Rightarrow> Node list" where
  "async_connected_nodes order f = push_connected (fl_states f) (async_snapshot_node_states order f) []"

definition async_filter_nodes :: "string list \<Rightarrow> string list \<Rightarrow> 'c Fleet \<Rightarrow> Node list" where
  "async_filter_nodes order tags f =
     map (\<lambda>i. async_node_snapshot (fl_states f ! i))
       (filter (\<lambda>i. set tags \<subseteq> ns_tags (fl_states f ! i)) (List.map_filter (fl_nodes f) order))"

definition async_add_node :: "NodeConfig \<Rightarrow> 'c Fleet \<Rightarrow> (FleetError + unit) \<times> 'c Fleet" where
  "async_add_node config f =
     (case validate_node_config config of
        Inl e \<Rightarrow> (Inl e, f)
      | Inr _ \<Rightarrow>
          if fl_nodes f (nc_name config) \<noteq> None then (Inl (FE_DuplicateNodeName (nc_name config)), f)
          else (Inr (), async_insert_node config f))"

text \<open>The table is unlocked before the connection of the removed node is given up.\<close>

definition async_remove_entry :: "string \<Rightarrow> 'c Fleet \<Rightarrow> nat option \<times> 'c Fleet" where
  "async_remove_entry name f = (fl_nodes f name, f\<lparr>fl_nodes := (fl_nodes f)(name := None)\<rparr>)"

definition async_remove_node :: "string \<Rightarrow> 'c Fleet \<Rightarrow> bool \<times> 'c Fleet" where
  "async_remove_node name f =
     (case async_remove_entry name f of
        (Some i, f) \<Rightarrow> (True, f\<lparr>fl_states := (fl_states f)[i := (fl_states f ! i)\<lparr>ns_client := None\<rparr>]\<rparr>)
      | (None, f) \<Rightarrow> (False, f))"

definition async_connect_task ::
    "(string \<times> u16 \<Rightarrow> 'w \<Rightarrow> (io_error + 'c) \<times> 'w) \<Rightarrow> nat \<Rightarrow> ('c, 'w) world \<Rightarrow> (string \<times> bool) \<times> ('c, 'w) world" where
  "async_connect_task connect i st =
     (let name = nc_name (ns_config (fst st ! i))
      in case (async_ensure_connected connect i st :: (unit RepeError + 'c) \<times> ('c, 'w) world) of
           (r, st) \<Rightarrow> ((name, \<not> isl r), st))"

definition async_connect_all ::
    "(string \<times> u16 \<Rightarrow> 'w \<Rightarrow> (io_error + 'c) \<times> 'w) \<Rightarrow> nat list \<Rightarrow> string list \<Rightarrow> 'c Fleet \<Rightarrow> 'w
      \<Rightarrow> ConnectSummary \<times> 'c Fleet \<times> 'w" where
  "async_connect_all connect sched order f w =
     (case run_threads (async_connect_task connect) sched (fl_states f, w) of
        (joined, (states, w)) \<Rightarrow>
          (join_connects joined (async_snapshot_node_states order f) \<lparr>sm_connected = [], sm_failed = []\<rparr>,
           f\<lparr>fl_states := states\<rparr>, w))"

fun disconnect_states :: "nat list \<Rightarrow> 'c NodeState list \<Rightarrow> string list \<Rightarrow> string list \<times> 'c NodeState list" where
  "disconnect_states [] states out = (out, states)"
| "disconnect_states (i # ks) states out =
     disconnect_states ks (states[i := (states ! i)\<lparr>ns_client := None\<rparr>]) (out @ [nc_name (ns_config (states ! i))])"

definition async_disconnect_all :: "string list \<Rightarrow> 'c Fleet \<Rightarrow> string list \<times> 'c Fleet" where
  "async_disconnect_all order f =
     (case disconnect_states (async_snapshot_node_states order f) (fl_states f) [] of
        (disconnected, states) \<Rightarrow> (disconnected, f\<lparr>fl_states := states\<rparr>))"

definition async_reconnect_disconnected ::
    "(string \<times> u16 \<Rightarrow> 'w \<Rightarrow> (io_error + 'c) \<times> 'w) \<Rightarrow> nat list \<Rightarrow> string list \<Rightarrow> 'c Fleet \<Rightarrow> 'w
      \<Rightarrow> ConnectSummary \<times> 'c Fleet \<times> 'w" where
  "async_reconnect_disconnected connect sched order f w =
     (let tasks = filter (\<lambda>i. ns_client (fl_states f ! i) = None) (async_snapshot_node_states order f)
      in case run_threads (async_connect_task connect) sched (fl_states f, w) of
           (joined, (states, w)) \<Rightarrow>
             (join_connects joined tasks \<lparr>sm_connected = [], sm_failed = []\<rparr>, f\<lparr>fl_states := states\<rparr>, w))"

fun all_connected :: "'c NodeState list \<Rightarrow> nat list \<Rightarrow> bool" where
  "all_connected states [] = True"
| "all_connected states (i # ks) = (if ns_client (states ! i) = None then False else all_connected states ks)"

definition async_is_connected_all :: "string list \<Rightarrow> 'c Fleet \<Rightarrow> bool" where
  "async_is_connected_all order f = all_connected (fl_states f) (async_snapshot_node_states order f)"

definition async_is_connected :: "string \<Rightarrow> 'c Fleet \<Rightarrow> FleetError + bool" where
  "async_is_connected name f =
     res_bind (async_node_state name f) (\<lambda>i. Inr (ns_client (fl_states f ! i) \<noteq> None))"

definition async_fleet_call_json ::
    "(string \<times> u16 \<Rightarrow> 'w \<Rightarrow> (io_error + 'c) \<times> 'w) \<Rightarrow> ('c \<Rightarrow> request \<Rightarrow> 'w \<Rightarrow> ('s RepeError + Message) \<times> 'w)
      \<Rightarrow> (nat \<Rightarrow> 'w \<Rightarrow> 'w) \<Rightarrow> ('w \<Rightarrow> nat) \<Rightarrow> ('t \<Rightarrow> bytes) \<Rightarrow> ('v, 's) codec \<Rightarrow> string \<Rightarrow> string \<Rightarrow> 't option
      \<Rightarrow> 'c Fleet \<Rightarrow> 'w \<Rightarrow> (FleetError + ('v, 's) RemoteResult) \<times> 'c Fleet \<times> 'w" where
  "async_fleet_call_json connect call sleep now to_json cv node_name path params f w =
     (case async_node_state node_name f of
        Inl e \<Rightarrow> (Inl e, f, w)
      | Inr i \<Rightarrow>
          (case async_call_json_with_retry connect call sleep now cv (fo_retry_policy (fl_options f)) i path
                  (async_encode_params to_json params) (fl_states f, w) of
             (r, (states, w)) \<Rightarrow> (Inr r, f\<lparr>fl_states := states\<rparr>, w)))"

definition async_fleet_call_message ::
    "(string \<times> u16 \<Rightarrow> 'w \<Rightarrow> (io_error + 'c) \<times> 'w) \<Rightarrow> ('c \<Rightarrow> request \<Rightarrow> 'w \<Rightarrow> ('s RepeError + Message) \<times> 'w)
      \<Rightarrow> (nat \<Rightarrow> 'w \<Rightarrow> 'w) \<Rightarrow> ('w \<Rightarrow> nat) \<Rightarrow> string \<Rightarrow> string
      \<Rightarrow> 'c Fleet \<Rightarrow> 'w \<Rightarrow> (FleetError + (Message, 's) RemoteResult) \<times> 'c Fleet \<times> 'w" where
  "async_fleet_call_message connect call sleep now node_name path f w =
     (case async_node_state node_name f of
        Inl e \<Rightarrow> (Inl e, f, w)
      | Inr i \<Rightarrow>
          (case async_call_message_with_retry connect call sleep now (fo_retry_policy (fl_options f)) i path
                  (fl_states f, w) of
             (r, (states, w)) \<Rightarrow> (Inr r, f\<lparr>fl_states := states\<rparr>, w)))"

definition async_broadcast_json ::
    "(nat \<rightharpoonup> ('v, 's) RemoteResult) \<Rightarrow> string list \<Rightarrow> string list \<Rightarrow> 'c Fleet \<Rightarrow> (string \<rightharpoonup> ('v, 's) RemoteResult)" where
  "async_broadcast_json joined order tags f =
     join_results (\<lambda>i. map_option (\<lambda>r. (rr_node r, r)) (joined i)) (async_snapshot_target_nodes order tags f) Map.empty"

definition async_map_reduce_json ::
    "(nat \<rightharpoonup> ('v, 's) RemoteResult) \<Rightarrow> string list \<Rightarrow> string list \<Rightarrow> (('v, 's) RemoteResult list \<Rightarrow> 'r)
      \<Rightarrow> string list \<Rightarrow> 'c Fleet \<Rightarrow> 'r" where
  "async_map_reduce_json joined order tags reduce_fn values f =
     reduce_fn (List.map_filter (async_broadcast_json joined order tags f) values)"

definition async_health_check ::
    "(nat \<rightharpoonup> string \<times> 's HealthStatus) \<Rightarrow> string list \<Rightarrow> 'c Fleet \<Rightarrow> (string \<rightharpoonup> 's HealthStatus)" where
  "async_health_check joined order f = join_results joined (async_snapshot_node_states order f) Map.empty"

section \<open>Agreement with the blocking fleet\<close>

named_theorems async_agree

lemma async_node_state_new_agrees [async_agree]: "async_node_state_new = node_state_new"
  by (simp add: fun_eq_iff async_node_state_new_def node_state_new_def)

lemma async_node_snapshot_agrees [async_agree]: "async_node_snapshot = node_snapshot"
  by (simp add: fun_eq_iff async_node_snapshot_def node_snapshot_def)

lemma async_ensure_connected_agrees [async_agree]: "async_ensure_connected = ensure_connected"
  by (simp add: fun_eq_iff async_ensure_connected_def ensure_connected_def config_address_def Let_def
      split: option.split prod.split sum.split)

lemma async_invalidate_client_agrees [async_agree]: "async_invalidate_client = invalidate_client"
  by (simp add: fun_eq_iff async_invalidate_client_def invalidate_client_def)

lemma async_encode_params_agrees [async_agree]: "async_encode_params = encode_params"
  by (simp add: fun_eq_iff async_encode_params_def encode_params_def)

lemma async_retryable_agrees: "async_is_retryable_error = is_retryable_error"
  by (simp add: fun_eq_iff async_is_retryable_error_def is_retryable_error_def)

lemma async_retry_counts:
  "k + left = max_attempts \<Longrightarrow>
     async_retry attempt invalidate sleep max_attempts k err st = retry_loop attempt invalidate sleep left err st"
proof (induction left arbitrary: k err st)
  case 0
  then show ?case by (simp add: async_retry.simps)
next
  case (Suc left)
  have "async_retry attempt invalidate sleep max_attempts (k + 1) e st' = retry_loop attempt invalidate sleep left e st'"
    for e st' using Suc.prems by (intro Suc.IH) simp
  moreover have "(k + 1 < max_attempts) = (0 < left)" "k < max_attempts" using Suc.prems by auto
  ultimately show ?case
    by (subst async_retry.simps) (auto simp: async_retryable_agrees Let_def split: prod.split sum.split)
qed

lemma async_retry_agrees [async_agree]:
  "async_retry attempt invalidate sleep n 0 err st = retry_loop attempt invalidate sleep n err st"
  by (rule async_retry_counts) simp

lemma async_json_call_agrees [async_agree]:
  "async_json_call connect call cv i path body =
     attempt_call connect call (json_request path body)
       (decode_body (cd_invalid_utf8 cv) (cd_from_json cv) (cd_from_beve cv)) i"
proof
  fix st
  show "async_json_call connect call cv i path body st =
     attempt_call connect call (json_request path body)
       (decode_body (cd_invalid_utf8 cv) (cd_from_json cv) (cd_from_beve cv)) i st"
    unfolding async_json_call_def attempt_call_def json_request_def Let_def async_ensure_connected_agrees ..
qed

lemma res_bind_Inr: "res_bind m Inr = m"
  by (cases m) simp_all

lemma async_message_call_agrees [async_agree]:
  "async_message_call connect call i path timeout st =
     attempt_call connect call (\<lambda>_. call_message_with_timeout path timeout) Inr i st"
  unfolding async_message_call_def attempt_call_def Let_def async_ensure_connected_agrees res_bind_Inr ..

lemma attempt_call_timeout:
  "attempt_call connect call (\<lambda>_. api (nc_timeout (ns_config (fst st ! i)))) decode i st = attempt_call connect call api decode i st"
  by (simp add: attempt_call_def Let_def)

lemma async_calls_agree [async_agree]:
  "async_call_json_with_retry = call_json_with_retry"
  "async_call_message_with_retry = call_message_with_retry"
  "async_health_probe = health_probe"
  unfolding fun_eq_iff async_call_json_with_retry_def call_json_with_retry_def
    async_call_message_with_retry_def call_message_with_retry_def async_health_probe_def health_probe_def
    async_agree attempt_call_timeout Let_def by simp_all

lemma async_snapshots_agree [async_agree]:
  "async_snapshot_node_states = snapshot_node_states" "async_snapshot_target_nodes = snapshot_target_nodes"
  "async_node_state = node_state"
  by (auto simp: fun_eq_iff async_snapshot_node_states_def snapshot_node_states_def
      async_snapshot_target_nodes_def snapshot_target_nodes_def async_node_state_def node_state_def split: option.split)

lemma async_insert_agrees [async_agree]: "async_insert_node = insert_node"
  by (simp add: fun_eq_iff async_insert_node_def insert_node_def async_agree)

lemma async_insert_configs_agrees: "async_insert_configs configs names f = insert_configs configs names f"
  by (induction configs names f rule: insert_configs.induct) (auto simp: async_agree split: sum.split)

lemma push_connected_filter:
  "push_connected states ks out =
     out @ List.map_filter (\<lambda>i. if ns_client (states ! i) \<noteq> None then Some (node_snapshot (states ! i)) else None) ks"
  by (induction ks arbitrary: out) (auto simp: async_agree map_filter_simps)

lemma disconnect_states_fold:
  "disconnect_states ks states out =
     (out @ map (\<lambda>i. nc_name (ns_config (states ! i))) ks,
      fold (\<lambda>i states. states[i := (states ! i)\<lparr>ns_client := None\<rparr>]) ks states)"
proof (induction ks arbitrary: states out)
  case (Cons k ks)
  have "ns_config (states[k := (states ! k)\<lparr>ns_client := None\<rparr>] ! i) = ns_config (states ! i)" for i
    by (cases "i = k"; cases "k < length states") (simp_all add: list_update_beyond)
  then show ?case by (simp add: Cons.IH)
qed simp

lemma all_connected_list_all: "all_connected states ks = list_all (\<lambda>i. ns_client (states ! i) \<noteq> None) ks"
  by (induction ks) auto

lemma async_connect_task_agrees [async_agree]: "async_connect_task = connect_thread"
  by (simp add: fun_eq_iff async_connect_task_def connect_thread_def async_agree)

lemma async_remove_agrees: "async_remove_node name f = remove_node name f"
proof (cases "fl_nodes f name")
  case None
  then have "(fl_nodes f)(name := None) = fl_nodes f" by (rule fun_upd_idem)
  with None show ?thesis by (simp add: async_remove_node_def async_remove_entry_def remove_node_def)
qed (simp add: async_remove_node_def async_remove_entry_def remove_node_def)


end
