(* ===== verification/Served_Structs.thy ===== *)
theory Served_Structs
  imports Message
begin

text \<open>
  Values served by path, \<^verbatim>\<open>repe-core/src/structs.rs\<close>: the errors of a struct
  handler, request bodies, response bodies and whole-object listings, and the
  trait \<^verbatim>\<open>RepeStruct\<close> with its implementation for \<^verbatim>\<open>Option<T>\<close>. Encoders and readers
  of \<^verbatim>\<open>structio\<close> are arguments: \<open>servable_write\<close> for a value of the given type,
  \<open>beve_framing\<close> for the object header and the keys of a listing. A response body
  is the buffer it appends to and its three format fields, passed and returned.
\<close>

section \<open>Errors\<close>

datatype 's StructError =
    STE_InvalidPath string
  | STE_InvalidSubpath string
  | STE_BodyExpected string
  | STE_BodyUnexpected string
  | STE_Decode string 's
  | STE_Arguments string string
  | STE_Execution string string

fun struct_error_code :: "'s StructError \<Rightarrow> ErrorCode" where
  "struct_error_code (STE_InvalidPath _) = EC_MethodNotFound"
| "struct_error_code (STE_InvalidSubpath _) = EC_MethodNotFound"
| "struct_error_code (STE_BodyExpected _) = EC_InvalidBody"
| "struct_error_code (STE_BodyUnexpected _) = EC_InvalidBody"
| "struct_error_code (STE_Decode _ _) = EC_InvalidBody"
| "struct_error_code (STE_Arguments _ _) = EC_InvalidBody"
| "struct_error_code (STE_Execution _ _) = EC_ParseError"

text \<open>\<open>show_structio\<close> renders an error of \<^verbatim>\<open>structio\<close>.\<close>

fun struct_error_display :: "('s \<Rightarrow> string) \<Rightarrow> 's StructError \<Rightarrow> string" where
  "struct_error_display show_structio (STE_InvalidPath path) = ''invalid path `'' @ path @ ''`''"
| "struct_error_display show_structio (STE_InvalidSubpath path) =
     ''unexpected additional path segments at `'' @ path @ ''`''"
| "struct_error_display show_structio (STE_BodyExpected path) = ''body required for `'' @ path @ ''`''"
| "struct_error_display show_structio (STE_BodyUnexpected path) =
     ''body not allowed for `'' @ path @ ''`''"
| "struct_error_display show_structio (STE_Decode path source) =
     ''could not decode body for `'' @ path @ ''`: '' @ show_structio source"
| "struct_error_display show_structio (STE_Arguments path msg) =
     ''invalid arguments for `'' @ path @ ''`: '' @ msg"
| "struct_error_display show_structio (STE_Execution path msg) =
     ''method `'' @ path @ ''` failed: '' @ msg"

fun path_from_segments :: "string list \<Rightarrow> string" where
  "path_from_segments [] = []"
| "path_from_segments (segment # rest) = CHR ''/'' # segment @ path_from_segments rest"

definition with_prefix :: "string \<Rightarrow> string \<Rightarrow> string" where
  "with_prefix pre path =
     (if pre = [] then path
      else if path = [] then CHR ''/'' # pre
      else if starts_with path ''/'' then CHR ''/'' # pre @ path
      else CHR ''/'' # pre @ ''/'' @ path)"

fun prepend_path :: "'s StructError \<Rightarrow> string \<Rightarrow> 's StructError" where
  "prepend_path (STE_InvalidPath path) pre = STE_InvalidPath (with_prefix pre path)"
| "prepend_path (STE_InvalidSubpath path) pre = STE_InvalidSubpath (with_prefix pre path)"
| "prepend_path (STE_BodyExpected path) pre = STE_BodyExpected (with_prefix pre path)"
| "prepend_path (STE_BodyUnexpected path) pre = STE_BodyUnexpected (with_prefix pre path)"
| "prepend_path (STE_Decode path source) pre = STE_Decode (with_prefix pre path) source"
| "prepend_path (STE_Arguments path msg) pre = STE_Arguments (with_prefix pre path) msg"
| "prepend_path (STE_Execution path msg) pre = STE_Execution (with_prefix pre path) msg"

section \<open>Request bodies\<close>

record RequestBody =
  rq_bytes :: bytes
  rq_format :: BodyFormat

text \<open>\<^verbatim>\<open>u8::is_ascii_whitespace\<close>, which \<^verbatim>\<open>trim_ascii\<close> strips at both ends.\<close>

definition ascii_whitespace :: "u8 \<Rightarrow> bool" where
  "ascii_whitespace b \<longleftrightarrow> b \<in> {9, 10, 12, 13, 32}"

definition trim_ascii :: "bytes \<Rightarrow> bytes" where
  "trim_ascii bs = rev (dropWhile ascii_whitespace (rev (dropWhile ascii_whitespace bs)))"

text \<open>\<open>beve_null\<close> is \<^verbatim>\<open>Reader::new(bytes).try_null().unwrap_or(false)\<close>.\<close>

definition body_is_null :: "(bytes \<Rightarrow> bool) \<Rightarrow> RequestBody \<Rightarrow> bool" where
  "body_is_null beve_null b =
     (case rq_format b of
        BF_Beve \<Rightarrow> beve_null (rq_bytes b)
      | _ \<Rightarrow> trim_ascii (rq_bytes b) = as_bytes ''null'')"

text \<open>
  \<open>json_into\<close> and \<open>beve_into\<close> read into a live value: they return the value as the
  reader left it, also after an error.
\<close>

definition read_raw ::
    "(nat \<Rightarrow> 's) \<Rightarrow> (string \<Rightarrow> 'v \<Rightarrow> ('s + unit) \<times> 'v) \<Rightarrow> (bytes \<Rightarrow> 'v \<Rightarrow> ('s + unit) \<times> 'v)
      \<Rightarrow> RequestBody \<Rightarrow> 'v \<Rightarrow> ('s + unit) \<times> 'v" where
  "read_raw invalid_utf8 json_into beve_into b value =
     (case rq_format b of
        BF_Beve \<Rightarrow> beve_into (rq_bytes b) value
      | _ \<Rightarrow> (case from_utf8 (rq_bytes b) of
                Inr text \<Rightarrow> json_into text value
              | Inl valid_up_to \<Rightarrow> (Inl (invalid_utf8 valid_up_to), value)))"

definition read_into ::
    "(nat \<Rightarrow> 's) \<Rightarrow> (string \<Rightarrow> 'v \<Rightarrow> ('s + unit) \<times> 'v) \<Rightarrow> (bytes \<Rightarrow> 'v \<Rightarrow> ('s + unit) \<times> 'v)
      \<Rightarrow> string \<Rightarrow> RequestBody \<Rightarrow> 'v \<Rightarrow> ('s StructError + unit) \<times> 'v" where
  "read_into invalid_utf8 json_into beve_into path b value =
     (case read_raw invalid_utf8 json_into beve_into b value of
        (x, value) \<Rightarrow> (res_map_err (STE_Decode path) x, value))"

definition read_fresh ::
    "(nat \<Rightarrow> 's) \<Rightarrow> (string \<Rightarrow> 'v \<Rightarrow> ('s + unit) \<times> 'v) \<Rightarrow> (bytes \<Rightarrow> 'v \<Rightarrow> ('s + unit) \<times> 'v)
      \<Rightarrow> 'v \<Rightarrow> string \<Rightarrow> RequestBody \<Rightarrow> 's StructError + 'v" where
  "read_fresh invalid_utf8 json_into beve_into default_value path b =
     (case read_into invalid_utf8 json_into beve_into path b default_value of
        (Inl e, _) \<Rightarrow> Inl e
      | (Inr _, value) \<Rightarrow> Inr value)"

section \<open>Response bodies\<close>

record ResponseBody =
  rb_buf :: bytes
  rb_requested :: BodyFormat
  rb_format :: BodyFormat
  rb_nested :: bool

definition response_body_with_format :: "bytes \<Rightarrow> BodyFormat \<Rightarrow> ResponseBody" where
  "response_body_with_format buf requested =
     \<lparr>rb_buf = buf,
      rb_requested = (case requested of BF_Beve \<Rightarrow> BF_Beve | _ \<Rightarrow> BF_Json),
      rb_format = BF_Json,
      rb_nested = False\<rparr>"

definition response_body_new :: "bytes \<Rightarrow> ResponseBody" where
  "response_body_new buf = response_body_with_format buf BF_Json"

definition write_value :: "'v servable_write \<Rightarrow> 'v \<Rightarrow> ResponseBody \<Rightarrow> ResponseBody" where
  "write_value sw v out =
     (if rb_requested out = BF_Beve
      then out\<lparr>rb_buf := rb_buf out @ to_beve sw v, rb_format := BF_Beve\<rparr>
      else out\<lparr>rb_buf := rb_buf out @ json_to_vec sw v\<rparr>)"

text \<open>\<open>unit_beve\<close> is the BEVE encoding of \<^verbatim>\<open>()\<close>.\<close>

definition write_null :: "bytes \<Rightarrow> ResponseBody \<Rightarrow> ResponseBody" where
  "write_null unit_beve out =
     (if rb_requested out = BF_Beve
      then out\<lparr>rb_buf := rb_buf out @ unit_beve, rb_format := BF_Beve\<rparr>
      else out\<lparr>rb_buf := rb_buf out @ as_bytes ''null''\<rparr>)"

definition write_typed_slice :: "'t list servable_write \<Rightarrow> 't list \<Rightarrow> ResponseBody \<Rightarrow> ResponseBody" where
  "write_typed_slice sw vs out =
     (if rb_nested out then write_value sw vs out
      else out\<lparr>rb_buf := rb_buf out @ to_beve sw vs, rb_format := BF_Beve\<rparr>)"

section \<open>Object listings\<close>

record beve_framing =
  bv_object_header :: "nat \<Rightarrow> bytes"
  bv_key :: "string \<Rightarrow> bytes"
  js_key :: "string \<Rightarrow> bytes"

record ObjectBody =
  ob_buf :: bytes
  ob_start :: nat
  ob_format :: BodyFormat
  ob_first :: bool
  ob_declared :: nat
  ob_written :: nat

text \<open>
  An object borrows its parent body's buffer; the parent is returned with its
  settled format, and gets the buffer back when the object is closed.
\<close>

definition open_object :: "beve_framing \<Rightarrow> nat \<Rightarrow> ResponseBody \<Rightarrow> ObjectBody \<times> ResponseBody" where
  "open_object bf entries out =
     (let start = length (rb_buf out);
          format = (if rb_nested out then rb_format out else rb_requested out);
          out = (if rb_nested out then out else out\<lparr>rb_format := rb_requested out\<rparr>);
          buf = (case format of
                   BF_Beve \<Rightarrow> rb_buf out @ bv_object_header bf entries
                 | _ \<Rightarrow> rb_buf out @ as_bytes ''{'')
      in (\<lparr>ob_buf = buf, ob_start = start, ob_format = format, ob_first = True,
           ob_declared = entries, ob_written = 0\<rparr>, out))"

definition object_key :: "beve_framing \<Rightarrow> string \<Rightarrow> ObjectBody \<Rightarrow> ObjectBody" where
  "object_key bf key ob =
     (let ob = ob\<lparr>ob_written := ob_written ob + 1\<rparr>
      in case ob_format ob of
           BF_Beve \<Rightarrow> ob\<lparr>ob_buf := ob_buf ob @ bv_key bf key\<rparr>
         | _ \<Rightarrow>
             let ob = (if ob_first ob then ob\<lparr>ob_first := False\<rparr>
                       else ob\<lparr>ob_buf := ob_buf ob @ as_bytes '',''\<rparr>)
             in ob\<lparr>ob_buf := ob_buf ob @ js_key bf key @ as_bytes '':''\<rparr>)"

definition value_body :: "ObjectBody \<Rightarrow> ResponseBody" where
  "value_body ob =
     \<lparr>rb_buf = ob_buf ob, rb_requested = ob_format ob, rb_format = ob_format ob, rb_nested = True\<rparr>"

definition object_entry :: "beve_framing \<Rightarrow> 'v servable_write \<Rightarrow> string \<Rightarrow> 'v \<Rightarrow> ObjectBody \<Rightarrow> ObjectBody" where
  "object_entry bf sw key v ob =
     (let ob = object_key bf key ob
      in ob\<lparr>ob_buf := rb_buf (write_value sw v (value_body ob))\<rparr>)"

definition entry_with ::
    "beve_framing \<Rightarrow> string \<Rightarrow> (ResponseBody \<Rightarrow> ('s StructError + unit) \<times> ResponseBody) \<Rightarrow> ObjectBody
      \<Rightarrow> ('s StructError + unit) \<times> ObjectBody" where
  "entry_with bf key f ob =
     (let ob = object_key bf key ob;
          (outcome, body) = f (value_body ob);
          ob = ob\<lparr>ob_buf := rb_buf body\<rparr>;
          ob = (case outcome of
                  Inl _ \<Rightarrow> ob\<lparr>ob_buf := take (ob_start ob) (ob_buf ob)\<rparr>
                | Inr _ \<Rightarrow> ob)
      in (outcome, ob))"

definition entry_try_with ::
    "beve_framing \<Rightarrow> string \<Rightarrow> (ResponseBody \<Rightarrow> ('s StructError + unit) option \<times> ResponseBody) \<Rightarrow> ObjectBody
      \<Rightarrow> ('s StructError + unit) option \<times> ObjectBody" where
  "entry_try_with bf key f ob =
     (let ob = object_key bf key ob;
          (outcome, body) = f (value_body ob);
          ob = ob\<lparr>ob_buf := rb_buf body\<rparr>;
          ob = (case outcome of
                  Some (Inr _) \<Rightarrow> ob
                | _ \<Rightarrow> ob\<lparr>ob_buf := take (ob_start ob) (ob_buf ob)\<rparr>)
      in (outcome, ob))"

text \<open>\<open>None\<close> is the panic on a wrong count.\<close>

definition finish_object :: "ObjectBody \<Rightarrow> bytes option" where
  "finish_object ob =
     (if ob_written ob \<noteq> ob_declared ob then None
      else Some (if ob_format ob \<noteq> BF_Beve then ob_buf ob @ as_bytes ''}'' else ob_buf ob))"

section \<open>Served structs\<close>

text \<open>
  The trait as a record of its methods on a value of type \<open>'t\<close>. The exclusive
  method returns the updated value; the shared one cannot change it.
\<close>

type_synonym 's struct_result = "'s StructError + unit"

record ('t, 's) RepeStruct =
  rs_handle_into :: "'t \<Rightarrow> string list \<Rightarrow> RequestBody option \<Rightarrow> ResponseBody
    \<Rightarrow> 's struct_result \<times> ResponseBody \<times> 't"
  rs_shared_into :: "'t \<Rightarrow> string list \<Rightarrow> RequestBody option \<Rightarrow> ResponseBody
    \<Rightarrow> 's struct_result option \<times> ResponseBody"
  rs_listing_declines :: "'t \<Rightarrow> bool"
  rs_shared_serves_bodies :: bool

text \<open>The trait's default methods around a hand-written \<^verbatim>\<open>repe_handle_into\<close>.\<close>

definition default_struct ::
    "('t \<Rightarrow> string list \<Rightarrow> RequestBody option \<Rightarrow> ResponseBody \<Rightarrow> 's struct_result \<times> ResponseBody \<times> 't)
      \<Rightarrow> ('t, 's) RepeStruct" where
  "default_struct handle =
     \<lparr>rs_handle_into = handle,
      rs_shared_into = (\<lambda>t segments body out. (None, out)),
      rs_listing_declines = (\<lambda>t. True),
      rs_shared_serves_bodies = True\<rparr>"

definition refuse_presence_write ::
    "(bytes \<Rightarrow> bool) \<Rightarrow> string list \<Rightarrow> RequestBody option \<Rightarrow> 's struct_result" where
  "refuse_presence_write beve_null segments body =
     (if segments = [] \<and> (case body of None \<Rightarrow> False | Some b \<Rightarrow> body_is_null beve_null b)
      then Inl (STE_BodyUnexpected (path_from_segments segments))
      else Inr ())"

definition absent_child :: "string list \<Rightarrow> bool \<Rightarrow> 's struct_result" where
  "absent_child segments has_body =
     (if segments = [] \<and> \<not> has_body then Inr ()
      else Inl (STE_InvalidPath (path_from_segments segments)))"

definition option_handle_into ::
    "(bytes \<Rightarrow> bool) \<Rightarrow> bytes \<Rightarrow> ('t, 's) RepeStruct \<Rightarrow> 't option \<Rightarrow> string list \<Rightarrow> RequestBody option
      \<Rightarrow> ResponseBody \<Rightarrow> 's struct_result \<times> ResponseBody \<times> 't option" where
  "option_handle_into beve_null unit_beve rs t segments body out =
     (case refuse_presence_write beve_null segments body of
        Inl e \<Rightarrow> (Inl e, out, t)
      | Inr _ \<Rightarrow>
          (case t of
             Some inner \<Rightarrow>
               (case rs_handle_into rs inner segments body out of
                  (r, out, inner) \<Rightarrow> (r, out, Some inner))
           | None \<Rightarrow>
               (case absent_child segments (body \<noteq> None) of
                  Inl e \<Rightarrow> (Inl e, out, t)
                | Inr _ \<Rightarrow> (Inr (), write_null unit_beve out, t))))"

definition option_shared_into ::
    "(bytes \<Rightarrow> bool) \<Rightarrow> bytes \<Rightarrow> ('t, 's) RepeStruct \<Rightarrow> 't option \<Rightarrow> string list \<Rightarrow> RequestBody option
      \<Rightarrow> ResponseBody \<Rightarrow> 's struct_result option \<times> ResponseBody" where
  "option_shared_into beve_null unit_beve rs t segments body out =
     (case refuse_presence_write beve_null segments body of
        Inl e \<Rightarrow> (Some (Inl e), out)
      | Inr _ \<Rightarrow>
          (case t of
             Some inner \<Rightarrow> rs_shared_into rs inner segments body out
           | None \<Rightarrow>
               (case absent_child segments (body \<noteq> None) of
                  Inl e \<Rightarrow> (Some (Inl e), out)
                | Inr _ \<Rightarrow> (Some (Inr ()), write_null unit_beve out))))"

definition option_listing_declines :: "('t, 's) RepeStruct \<Rightarrow> 't option \<Rightarrow> bool" where
  "option_listing_declines rs t =
     (case t of Some inner \<Rightarrow> rs_listing_declines rs inner | None \<Rightarrow> False)"

definition option_struct ::
    "(bytes \<Rightarrow> bool) \<Rightarrow> bytes \<Rightarrow> ('t, 's) RepeStruct \<Rightarrow> ('t option, 's) RepeStruct" where
  "option_struct beve_null unit_beve rs =
     \<lparr>rs_handle_into = option_handle_into beve_null unit_beve rs,
      rs_shared_into = option_shared_into beve_null unit_beve rs,
      rs_listing_declines = option_listing_declines rs,
      rs_shared_serves_bodies = rs_shared_serves_bodies rs\<rparr>"

section \<open>Compile-time endpoint checks\<close>

fun const_bytes_eq :: "bytes \<Rightarrow> bytes \<Rightarrow> bool" where
  "const_bytes_eq (a # as) (b # bs) = (if a \<noteq> b then False else const_bytes_eq as bs)"
| "const_bytes_eq _ _ = True"

definition const_str_eq :: "string \<Rightarrow> string \<Rightarrow> bool" where
  "const_str_eq a b =
     (if length (as_bytes a) \<noteq> length (as_bytes b) then False
      else const_bytes_eq (as_bytes a) (as_bytes b))"

fun const_contains :: "string list \<Rightarrow> string \<Rightarrow> bool" where
  "const_contains [] name = False"
| "const_contains (x # xs) name = (if const_str_eq x name then True else const_contains xs name)"

fun listed_signature :: "(string \<times> string) list \<Rightarrow> string \<Rightarrow> string option" where
  "listed_signature [] name = None"
| "listed_signature ((n, sig) # ms) name =
     (if const_str_eq n name then Some sig else listed_signature ms name)"

datatype const_panic =
    MethodShadowed | AccessorShadowed | MethodAccessorClash
  | UnknownListingKey | MethodNotListed | AccessorNotListed

fun check_methods :: "string list \<Rightarrow> (string \<times> string) list \<Rightarrow> const_panic + unit" where
  "check_methods declared [] = Inr ()"
| "check_methods declared ((n, sig) # ms) =
     (if const_contains declared n then Inl MethodShadowed else check_methods declared ms)"

fun check_accessors ::
    "string list \<Rightarrow> (string \<times> string) list \<Rightarrow> string list \<Rightarrow> const_panic + unit" where
  "check_accessors declared methods [] = Inr ()"
| "check_accessors declared methods (a # as) =
     (if const_contains declared a then Inl AccessorShadowed
      else if listed_signature methods a \<noteq> None then Inl MethodAccessorClash
      else check_accessors declared methods as)"

definition assert_no_endpoint_collision ::
    "string list \<Rightarrow> (string \<times> string) list \<Rightarrow> string list \<Rightarrow> const_panic + unit" where
  "assert_no_endpoint_collision declared methods accessors =
     res_bind (check_methods declared methods) (\<lambda>_. check_accessors declared methods accessors)"

fun check_order ::
    "string list \<Rightarrow> (string \<times> string) list \<Rightarrow> string list \<Rightarrow> bool \<Rightarrow> string list \<Rightarrow> const_panic + unit" where
  "check_order declared methods accessors recovering [] = Inr ()"
| "check_order declared methods accessors recovering (k # ks) =
     (let known = const_contains declared k \<or> const_contains accessors k
                  \<or> listed_signature methods k \<noteq> None
      in if \<not> known \<and> \<not> recovering then Inl UnknownListingKey
         else check_order declared methods accessors recovering ks)"

fun check_listed :: "const_panic \<Rightarrow> string list \<Rightarrow> string list \<Rightarrow> const_panic + unit" where
  "check_listed missing order [] = Inr ()"
| "check_listed missing order (k # ks) =
     (if \<not> const_contains order k then Inl missing else check_listed missing order ks)"

definition assert_listing_order ::
    "string list \<Rightarrow> string list \<Rightarrow> (string \<times> string) list \<Rightarrow> string list \<Rightarrow> bool
      \<Rightarrow> const_panic + unit" where
  "assert_listing_order order declared methods accessors recovering =
     res_bind (check_order declared methods accessors recovering order) (\<lambda>_.
     res_bind (check_listed MethodNotListed order (map fst methods)) (\<lambda>_.
     check_listed AccessorNotListed order accessors))"

section \<open>Endpoint names\<close>

lemma const_bytes_eq_iff: "length xs = length ys \<Longrightarrow> const_bytes_eq xs ys \<longleftrightarrow> xs = ys"
  by (induction xs ys rule: const_bytes_eq.induct) auto

lemma const_str_eq_iff [simp]: "const_str_eq a b \<longleftrightarrow> a = b"
proof -
  have "as_bytes a = as_bytes b \<longleftrightarrow> a = b" by (metis str_of_as_bytes)
  then show ?thesis by (auto simp: const_str_eq_def const_bytes_eq_iff)
qed

lemma const_contains_iff [simp]: "const_contains xs name \<longleftrightarrow> name \<in> set xs"
  by (induction xs) auto

lemma listed_signature_map_of [simp]: "listed_signature ms name = map_of ms name"
  by (induction ms) auto

lemma check_methods_ok: "check_methods declared ms = Inr () \<longleftrightarrow> fst ` set ms \<inter> set declared = {}"
  by (induction ms) (auto split: if_splits)

lemma check_accessors_ok:
  "check_accessors declared ms as = Inr ()
     \<longleftrightarrow> set as \<inter> set declared = {} \<and> set as \<inter> fst ` set ms = {}"
  by (induction as) (auto simp: map_of_eq_None_iff split: if_splits)

lemma check_order_ok:
  "check_order declared ms as recovering order = Inr ()
     \<longleftrightarrow> recovering \<or> set order \<subseteq> set declared \<union> set as \<union> fst ` set ms"
  by (induction order) (auto simp: Let_def map_of_eq_None_iff split: if_splits)

lemma check_listed_ok: "check_listed e order ks = Inr () \<longleftrightarrow> set ks \<subseteq> set order"
  by (induction ks) (auto split: if_splits)

section \<open>Listings\<close>

fun comma_join :: "bytes list \<Rightarrow> bytes" where
  "comma_join [] = []"
| "comma_join [x] = x"
| "comma_join (x # y # ys) = x @ as_bytes '','' @ comma_join (y # ys)"

lemma comma_join_snoc:
  "comma_join (xs @ [y]) = (if xs = [] then y else comma_join xs @ as_bytes '','' @ y)"
  by (induction xs rule: comma_join.induct) auto

definition member_bytes :: "beve_framing \<Rightarrow> 'v servable_write \<Rightarrow> BodyFormat \<Rightarrow> string \<times> 'v \<Rightarrow> bytes" where
  "member_bytes bf sw format kv =
     (case kv of (k, v) \<Rightarrow>
        if format = BF_Beve then bv_key bf k @ to_beve sw v
        else js_key bf k @ as_bytes '':'' @ json_to_vec sw v)"

definition members_bytes :: "beve_framing \<Rightarrow> 'v servable_write \<Rightarrow> BodyFormat \<Rightarrow> (string \<times> 'v) list \<Rightarrow> bytes" where
  "members_bytes bf sw format kvs =
     (if format = BF_Beve then concat (map (member_bytes bf sw format) kvs)
      else comma_join (map (member_bytes bf sw format) kvs))"

definition object_prefix :: "beve_framing \<Rightarrow> BodyFormat \<Rightarrow> nat \<Rightarrow> bytes" where
  "object_prefix bf format n = (if format = BF_Beve then bv_object_header bf n else as_bytes ''{'')"

text \<open>The body of a listing: open, one entry per member, close.\<close>

definition write_listing ::
    "beve_framing \<Rightarrow> 'v servable_write \<Rightarrow> nat \<Rightarrow> (string \<times> 'v) list \<Rightarrow> ResponseBody \<Rightarrow> bytes option" where
  "write_listing bf sw entries kvs out =
     (let (ob, out) = open_object bf entries out
      in finish_object (fold (\<lambda>(k, v). object_entry bf sw k v) kvs ob))"

lemma object_entry_fields:
  "ob_format (object_entry bf sw k v ob) = ob_format ob"
  "ob_declared (object_entry bf sw k v ob) = ob_declared ob"
  "ob_start (object_entry bf sw k v ob) = ob_start ob"
  "ob_written (object_entry bf sw k v ob) = Suc (ob_written ob)"
  by (cases "ob_format ob"; simp add: object_entry_def object_key_def Let_def)+

lemma object_entry_buf:
  "ob_buf (object_entry bf sw k v ob) =
     ob_buf ob @ (if ob_format ob \<noteq> BF_Beve \<and> \<not> ob_first ob then as_bytes '','' else [])
       @ member_bytes bf sw (ob_format ob) (k, v)"
  "ob_first (object_entry bf sw k v ob) \<longleftrightarrow> ob_first ob \<and> ob_format ob = BF_Beve"
  by (cases "ob_format ob"; simp add: object_entry_def object_key_def value_body_def write_value_def
      member_bytes_def Let_def)+

lemma entries_state:
  assumes "ob_first ob" and "ob_written ob = 0"
  shows "fold (\<lambda>(k, v). object_entry bf sw k v) kvs ob =
    ob\<lparr>ob_buf := ob_buf ob @ members_bytes bf sw (ob_format ob) kvs,
       ob_first := (ob_format ob = BF_Beve \<or> kvs = []), ob_written := length kvs\<rparr>"
proof (induction kvs rule: rev_induct)
  case Nil
  with assms show ?case by (simp add: members_bytes_def)
next
  case (snoc kv kvs)
  obtain k v where kv: "kv = (k, v)" by (cases kv)
  let ?ob = "fold (\<lambda>(k, v). object_entry bf sw k v) kvs ob"
  have "object_entry bf sw k v ?ob = ?ob\<lparr>ob_buf := ob_buf (object_entry bf sw k v ?ob),
      ob_first := ob_first (object_entry bf sw k v ?ob),
      ob_written := ob_written (object_entry bf sw k v ?ob)\<rparr>"
    using object_entry_fields [of bf sw k v ?ob] by (simp del: fold_simps)
  then show ?case
    unfolding fold_append comp_def kv
    by (simp add: object_entry_buf object_entry_fields snoc members_bytes_def comma_join_snoc)
qed

lemma open_object_fields:
  "fst (open_object bf n out) =
     \<lparr>ob_buf = rb_buf out @ object_prefix bf (if rb_nested out then rb_format out else rb_requested out) n,
      ob_start = length (rb_buf out),
      ob_format = (if rb_nested out then rb_format out else rb_requested out),
      ob_first = True, ob_declared = n, ob_written = 0\<rparr>"
  by (simp add: open_object_def object_prefix_def Let_def split: BodyFormat.split)

lemma write_listing_bytes:
  "write_listing bf sw entries kvs out =
     (let format = (if rb_nested out then rb_format out else rb_requested out) in
      if length kvs \<noteq> entries then None
      else Some (rb_buf out @ object_prefix bf format entries @ members_bytes bf sw format kvs
        @ (if format = BF_Beve then [] else as_bytes ''}'')))"
  by (simp add: write_listing_def case_prod_beta open_object_fields entries_state finish_object_def Let_def)

text \<open>While an object is open, what its parent body held before is still at its front.\<close>

definition object_over :: "bytes \<Rightarrow> ObjectBody \<Rightarrow> bool" where
  "object_over before ob \<longleftrightarrow> ob_start ob = length before \<and> (\<exists>more. ob_buf ob = before @ more)"

lemma object_over_open: "object_over (rb_buf out) (fst (open_object bf n out))"
  by (simp add: object_over_def open_object_fields)

lemma object_over_key: "object_over before ob \<Longrightarrow> object_over before (object_key bf key ob)"
  by (cases "ob_format ob") (auto simp: object_over_def object_key_def Let_def)

lemma object_over_entry: "object_over before ob \<Longrightarrow> object_over before (object_entry bf sw k v ob)"
  by (auto simp: object_over_def object_entry_fields object_entry_buf)

text \<open>A writer that only appends to the body it is given.\<close>

definition appends :: "(ResponseBody \<Rightarrow> 'x \<times> ResponseBody) \<Rightarrow> bool" where
  "appends f \<longleftrightarrow> (\<forall>out. \<exists>more. rb_buf (snd (f out)) = rb_buf out @ more)"

lemma object_over_written:
  assumes "object_over before ob" and "appends f" and "f (value_body (object_key bf key ob)) = (x, body)"
  shows "\<exists>more. rb_buf body = before @ more"
proof -
  from object_over_key [OF assms(1), of bf key] obtain more
    where "ob_buf (object_key bf key ob) = before @ more" by (auto simp: object_over_def)
  moreover from assms(2,3) obtain more' where "rb_buf body = rb_buf (value_body (object_key bf key ob)) @ more'"
    unfolding appends_def by (metis snd_conv)
  ultimately show ?thesis by (simp add: value_body_def)
qed

section \<open>The contract of the shared dispatch\<close>

text \<open>
  The two obligations of \<^verbatim>\<open>repe_shared_into\<close>: an answer is the exclusive method's
  answer and does not change the value, and declining writes nothing.
\<close>

locale shared_dispatch =
  fixes rs :: "('t, 's) RepeStruct"
  assumes answers_identically:
      "rs_shared_into rs t segments body out = (Some r, out') \<Longrightarrow>
        rs_handle_into rs t segments body out = (r, out', t)"
    and declines_silently:
      "rs_shared_into rs t segments body out = (None, out') \<Longrightarrow> out' = out"
begin

lemma option_keeps_contract: "shared_dispatch (option_struct beve_null unit_beve rs)"
proof
  fix t segments body out r out'
  show "rs_shared_into (option_struct beve_null unit_beve rs) t segments body out = (Some r, out') \<Longrightarrow>
      rs_handle_into (option_struct beve_null unit_beve rs) t segments body out = (r, out', t)"
    by (cases t)
      (auto simp: option_struct_def option_shared_into_def option_handle_into_def answers_identically
        split: sum.splits)
  show "rs_shared_into (option_struct beve_null unit_beve rs) t segments body out = (None, out') \<Longrightarrow> out' = out"
    by (cases t)
      (auto simp: option_struct_def option_shared_into_def declines_silently split: sum.splits)
qed

end

interpretation default_served: shared_dispatch "default_struct handle" for handle
  by standard (simp_all add: default_struct_def)

interpretation optional_served: shared_dispatch
  "option_struct beve_null unit_beve (default_struct handle)" for beve_null unit_beve handle
  by (rule default_served.option_keeps_contract)

section \<open>Properties\<close>

text \<open>
  C26. The compile-time checks decide what they are for:
  \<^verbatim>\<open>assert_no_endpoint_collision\<close> passes exactly when the names declared on the
  struct, the published methods and the accessors are pairwise disjoint, and
  \<^verbatim>\<open>assert_listing_order\<close> exactly when every method and every accessor is in the
  order and, unless the table is a recovered one, every key of the order is an
  endpoint.
\<close>

theorem endpoint_checks_exact:
  "(assert_no_endpoint_collision declared methods accessors = Inr () \<longleftrightarrow>
      fst ` set methods \<inter> set declared = {} \<and> set accessors \<inter> set declared = {}
      \<and> set accessors \<inter> fst ` set methods = {})
   \<and> (assert_listing_order order declared methods accessors recovering = Inr () \<longleftrightarrow>
      (recovering \<or> set order \<subseteq> set declared \<union> set accessors \<union> fst ` set methods)
      \<and> fst ` set methods \<subseteq> set order \<and> set accessors \<subseteq> set order)"
  by (simp add: assert_no_endpoint_collision_def assert_listing_order_def res_bind_Inr_iff
      check_methods_ok check_accessors_ok check_order_ok check_listed_ok)

text \<open>
  A whole-object listing, in either format and at any nesting depth: the
  buffer is extended by the object's header, each member's key and value once and
  in order, separated by commas in JSON and by nothing in BEVE, and the closing
  brace in JSON; a declared count that differs from the number of entries panics.
\<close>

theorem listing_encoding:
  "write_listing bf sw entries kvs out =
     (let format = (if rb_nested out then rb_format out else rb_requested out) in
      if length kvs \<noteq> entries then None
      else if format = BF_Beve
      then Some (rb_buf out @ bv_object_header bf entries
        @ concat (map (\<lambda>(k, v). bv_key bf k @ to_beve sw v) kvs))
      else Some (rb_buf out @ as_bytes ''{''
        @ comma_join (map (\<lambda>(k, v). js_key bf k @ as_bytes '':'' @ json_to_vec sw v) kvs)
        @ as_bytes ''}''))"
proof -
  have "member_bytes bf sw BF_Beve = (\<lambda>(k, v). bv_key bf k @ to_beve sw v)"
    and "f \<noteq> BF_Beve \<Longrightarrow> member_bytes bf sw f
      = (\<lambda>(k, v). js_key bf k @ as_bytes '':'' @ json_to_vec sw v)" for f
    by (auto simp: member_bytes_def fun_eq_iff)
  then show ?thesis
    by (simp add: write_listing_bytes members_bytes_def object_prefix_def Let_def)
qed

text \<open>
  An entry that fails, or that declines, takes the whole object with it: as
  long as the entry's writer only appends, the buffer is afterwards exactly what it
  was before the object was opened, so no half-written object is left behind.
\<close>

theorem failed_entry_rewinds:
  assumes "object_over before ob" and "appends f" and "appends g"
  shows "(entry_with bf key f ob = (Inl e, ob') \<longrightarrow> ob_buf ob' = before)
    \<and> (entry_try_with bf key g ob = (x, ob'') \<and> x \<noteq> Some (Inr ()) \<longrightarrow> ob_buf ob'' = before)"
proof (intro conjI impI)
  have start: "ob_start (object_key bf key ob) = length before"
    using object_over_key [OF assms(1)] by (auto simp: object_over_def)
  have cut: "take (length before) (rb_buf body) = before"
    if "h (value_body (object_key bf key ob)) = (y, body)" "appends h"
    for h :: "ResponseBody \<Rightarrow> 'z \<times> ResponseBody" and y body
    using object_over_written [OF assms(1) that(2,1)] by auto
  show "ob_buf ob' = before" if "entry_with bf key f ob = (Inl e, ob')"
    using that cut [OF _ assms(2)] start
    by (auto simp: entry_with_def Let_def split: prod.splits sum.splits)
  show "ob_buf ob'' = before" if "entry_try_with bf key g ob = (x, ob'') \<and> x \<noteq> Some (Inr ())"
    using that cut [OF _ assms(3)] start
    by (auto simp: entry_try_with_def Let_def split: prod.splits option.splits sum.splits)
qed

theorem failed_entry_rewinds_witness:
  "ob_buf (snd (entry_with \<lparr>bv_object_header = (\<lambda>n. []), bv_key = as_bytes, js_key = as_bytes\<rparr> ''k''
      (\<lambda>out. (Inl (STE_InvalidPath ''p'') :: unit StructError + unit, out\<lparr>rb_buf := rb_buf out @ [1]\<rparr>))
      (fst (open_object \<lparr>bv_object_header = (\<lambda>n. []), bv_key = as_bytes, js_key = as_bytes\<rparr> 1
        (response_body_new [9]))))) = [9]"
proof -
  let ?bf = "\<lparr>bv_object_header = (\<lambda>n. []), bv_key = as_bytes, js_key = as_bytes\<rparr>"
  let ?f = "\<lambda>out. (Inl (STE_InvalidPath ''p'') :: unit StructError + unit, out\<lparr>rb_buf := rb_buf out @ [1]\<rparr>)"
  let ?g = "\<lambda>out. (None :: (unit StructError + unit) option, out)"
  let ?ob = "fst (open_object ?bf 1 (response_body_new [9]))"
  have "object_over [9] ?ob"
    using object_over_open [of "response_body_new [9]"]
    by (simp add: response_body_new_def response_body_with_format_def)
  moreover have "appends ?f" "appends ?g" by (simp_all add: appends_def)
  ultimately show ?thesis
    using failed_entry_rewinds [of "[9]" ?ob ?f ?g ?bf "''k''" "STE_InvalidPath ''p''"
        "snd (entry_with ?bf ''k'' ?f ?ob)"]
    by (simp add: entry_with_def Let_def)
qed

text \<open>
  An optional child: a request never changes whether the child is present; a
  literal \<^verbatim>\<open>null\<close> at its own path is refused whether it is there or not; an absent
  child answers a read at its own path with null and everything else with
  \<^verbatim>\<open>InvalidPath\<close>; a present one answers as its value does. And if the value's
  shared dispatch keeps its contract, so does the optional child's.
\<close>

theorem optional_child:
  assumes "shared_dispatch rs"
  shows "shared_dispatch (option_struct beve_null unit_beve rs)
    \<and> (snd (snd (option_handle_into beve_null unit_beve rs t segments body out)) = None \<longleftrightarrow> t = None)
    \<and> (body_is_null beve_null b \<longrightarrow>
        option_handle_into beve_null unit_beve rs t [] (Some b) out = (Inl (STE_BodyUnexpected []), out, t))
    \<and> option_handle_into beve_null unit_beve rs None [] None out = (Inr (), write_null unit_beve out, None)
    \<and> (segments \<noteq> [] \<longrightarrow> option_handle_into beve_null unit_beve rs None segments body out
        = (Inl (STE_InvalidPath (path_from_segments segments)), out, None))"
  using shared_dispatch.option_keeps_contract [OF assms]
  by (auto simp: option_handle_into_def refuse_presence_write_def absent_child_def split: option.splits prod.splits)

theorem optional_child_witness:
  "option_handle_into (\<lambda>_. False) [0] (default_struct (\<lambda>(t :: nat) segments body out. (Inr () :: unit struct_result, out, t)))
     (Some 3) [] (Some \<lparr>rq_bytes = as_bytes '' null '', rq_format = BF_Json\<rparr>) (response_body_new [])
   = (Inl (STE_BodyUnexpected []), response_body_new [], Some 3)"
  using optional_child [OF default_served.shared_dispatch_axioms, of "\<lambda>_. False" "[0]"
      "\<lambda>(t :: nat) segments body out. (Inr () :: unit struct_result, out, t)" "Some 3" "[]" None "response_body_new []"
      "\<lparr>rq_bytes = as_bytes '' null '', rq_format = BF_Json\<rparr>"]
  by (simp add: body_is_null_def trim_ascii_def ascii_whitespace_def as_bytes_def)

end
