(* ===== verification/Json_Pointer.thy ===== *)
theory Json_Pointer
  imports Rust_Text
begin

text \<open>
  RFC 6901 JSON Pointer syntax, \<^verbatim>\<open>src/json_pointer.rs\<close>: parsing a pointer into
  reference tokens, escaping and unescaping one token, checking the escapes
  without building tokens, and joining tokens back into a pointer. A borrowed and
  an owned \<^verbatim>\<open>Cow\<close> are the same string here.
\<close>

datatype MalformedPointer = MalformedPointer

definition addresses_root :: "string \<Rightarrow> bool" where
  "addresses_root pointer \<longleftrightarrow> pointer = [] \<or> pointer = ''/''"

text \<open>The loop of \<^verbatim>\<open>unescape_token\<close> over the characters, with the output so far.\<close>

fun unescape_loop :: "string \<Rightarrow> string \<Rightarrow> MalformedPointer + string" where
  "unescape_loop out [] = Inr out"
| "unescape_loop out (c # cs) =
     (if c \<noteq> CHR ''~'' then unescape_loop (out @ [c]) cs
      else (case cs of
              [] \<Rightarrow> Inl MalformedPointer
            | d # ds \<Rightarrow>
                if d = CHR ''0'' then unescape_loop (out @ ''~'') ds
                else if d = CHR ''1'' then unescape_loop (out @ ''/'') ds
                else Inl MalformedPointer))"

definition unescape_token :: "string \<Rightarrow> MalformedPointer + string" where
  "unescape_token token =
     (if CHR ''~'' \<notin> set token then Inr token else unescape_loop [] token)"

definition escape_token :: "string \<Rightarrow> string" where
  "escape_token token =
     (if CHR ''~'' \<notin> set token \<and> CHR ''/'' \<notin> set token then token
      else replace_char (CHR ''/'') ''~1'' (replace_char (CHR ''~'') ''~0'' token))"

text \<open>\<^verbatim>\<open>collect\<close> of an iterator of results: the first error, or all values.\<close>

fun collect_results :: "('e + 'a) list \<Rightarrow> 'e + 'a list" where
  "collect_results [] = Inr []"
| "collect_results (r # rs) =
     res_bind r (\<lambda>x. res_bind (collect_results rs) (\<lambda>xs. Inr (x # xs)))"

definition parse :: "string \<Rightarrow> MalformedPointer + string list" where
  "parse pointer =
     (if addresses_root pointer then Inr []
      else if \<not> starts_with pointer ''/'' then Inl MalformedPointer
      else collect_results (map unescape_token (split_on (CHR ''/'') (drop 1 pointer))))"

fun escapes_ok :: "bytes \<Rightarrow> bool" where
  "escapes_ok [] = True"
| "escapes_ok (b # bs) =
     (if b = 0x7E
      then (case bs of [] \<Rightarrow> False | d # ds \<Rightarrow> (d = 0x30 \<or> d = 0x31) \<and> escapes_ok ds)
      else escapes_ok bs)"

definition validate_escapes :: "string \<Rightarrow> MalformedPointer + unit" where
  "validate_escapes pointer =
     (if addresses_root pointer then Inr ()
      else if \<not> starts_with pointer ''/'' then Inl MalformedPointer
      else if escapes_ok (as_bytes pointer) then Inr () else Inl MalformedPointer)"

fun canonical_loop :: "string \<Rightarrow> string list \<Rightarrow> string" where
  "canonical_loop out [] = out"
| "canonical_loop out (token # tokens) =
     canonical_loop (out @ ''/'' @ escape_token token) tokens"

definition canonical :: "string list \<Rightarrow> string" where
  "canonical tokens = (if tokens = [] then ''/'' else canonical_loop [] tokens)"

section \<open>Escaping one token\<close>

text \<open>The two replacement passes are one character-wise substitution.\<close>

definition escape_char :: "char \<Rightarrow> string" where
  "escape_char c = (if c = CHR ''~'' then ''~0'' else if c = CHR ''/'' then ''~1'' else [c])"

lemma escape_token_concat: "escape_token t = concat (map escape_char t)"
proof -
  have "replace_char (CHR ''/'') ''~1'' (replace_char (CHR ''~'') ''~0'' t)
      = concat (map escape_char t)"
    by (induction t) (auto simp: escape_char_def)
  moreover have "CHR ''~'' \<notin> set t \<Longrightarrow> CHR ''/'' \<notin> set t \<Longrightarrow> concat (map escape_char t) = t"
    by (induction t) (auto simp: escape_char_def)
  ultimately show ?thesis by (simp add: escape_token_def)
qed

lemma escape_token_no_slash: "CHR ''/'' \<notin> set (escape_token t)"
  by (induction t) (auto simp: escape_token_concat escape_char_def)

lemma escape_token_Nil_iff [simp]: "escape_token t = [] \<longleftrightarrow> t = []"
  by (cases t) (auto simp: escape_token_concat escape_char_def)

lemma unescape_loop_escape: "unescape_loop out (escape_token t) = Inr (out @ t)"
  unfolding escape_token_concat
  by (induction t arbitrary: out) (auto simp: escape_char_def)

lemma unescape_loop_plain: "CHR ''~'' \<notin> set t \<Longrightarrow> unescape_loop out t = Inr (out @ t)"
  by (induction t arbitrary: out) auto

lemma unescape_token_loop: "unescape_token t = unescape_loop [] t"
  by (simp add: unescape_token_def unescape_loop_plain)

lemma unescape_escape: "unescape_token (escape_token t) = Inr t"
  by (simp add: unescape_token_loop unescape_loop_escape)

text \<open>A token without a separator that unescapes is the escape of its result.\<close>

lemma escape_unescape_loop:
  "unescape_loop out t = Inr s \<Longrightarrow> CHR ''/'' \<notin> set t \<Longrightarrow>
     \<exists>u. s = out @ u \<and> escape_token u = t"
proof (induction out t rule: unescape_loop.induct)
  case (1 out)
  then show ?case by (simp add: escape_token_concat)
next
  case (2 out c cs)
  show ?case
  proof (cases "c = CHR ''~''")
    case False
    with 2(4,5) have "unescape_loop (out @ [c]) cs = Inr s" "CHR ''/'' \<notin> set cs" "c \<noteq> CHR ''/''"
      by auto
    with 2(1) [OF False] obtain u where "s = (out @ [c]) @ u" "escape_token u = cs" by blast
    with False \<open>c \<noteq> CHR ''/''\<close> show ?thesis
      by (intro exI [of _ "c # u"]) (simp add: escape_token_concat escape_char_def)
  next
    case True
    with 2(4) obtain d ds where cs: "cs = d # ds" by (cases cs) simp_all
    from 2(5) cs have ds: "CHR ''/'' \<notin> set ds" by simp
    from True cs 2(4) consider (tilde) "d = CHR ''0''" "unescape_loop (out @ ''~'') ds = Inr s"
      | (slash) "d \<noteq> CHR ''0''" "d = CHR ''1''" "unescape_loop (out @ ''/'') ds = Inr s"
      by (simp split: if_splits)
    then show ?thesis
    proof cases
      case tilde
      with 2(2) [OF _ cs] True ds obtain u where "s = (out @ ''~'') @ u" "escape_token u = ds"
        by blast
      with True cs tilde(1) show ?thesis
        by (intro exI [of _ "CHR ''~'' # u"]) (simp add: escape_token_concat escape_char_def)
    next
      case slash
      with 2(3) [OF _ cs] True ds obtain u where "s = (out @ ''/'') @ u" "escape_token u = ds"
        by blast
      with True cs slash(2) show ?thesis
        by (intro exI [of _ "CHR ''/'' # u"]) (simp add: escape_token_concat escape_char_def)
    qed
  qed
qed

lemma escape_unescape:
  "unescape_token t = Inr s \<Longrightarrow> CHR ''/'' \<notin> set t \<Longrightarrow> escape_token s = t"
  using escape_unescape_loop [of "[]" t s] by (auto simp: unescape_token_loop)

section \<open>Whole pointers\<close>

lemma collect_results_Inr_iff: "collect_results rs = Inr xs \<longleftrightarrow> rs = map Inr xs"
  by (induction rs arbitrary: xs) (auto simp: res_bind_Inr_iff)

lemma canonical_loop_concat:
  "canonical_loop out ts = out @ concat (map (\<lambda>t. CHR ''/'' # escape_token t) ts)"
  by (induction out ts rule: canonical_loop.induct) auto

lemma concat_slash_join:
  "ts \<noteq> [] \<Longrightarrow> concat (map (\<lambda>t. CHR ''/'' # f t) ts) = CHR ''/'' # join_with (CHR ''/'') (map f ts)"
  by (induction ts rule: induct_list012) auto

lemma canonical_join:
  "ts \<noteq> [] \<Longrightarrow> canonical ts = CHR ''/'' # join_with (CHR ''/'') (map escape_token ts)"
  by (simp add: canonical_def canonical_loop_concat concat_slash_join)

lemma join_with_Nil_iff: "join_with c ts = [] \<longleftrightarrow> ts = [] \<or> ts = [[]]"
  by (induction c ts rule: join_with.induct) auto

text \<open>The tokens between the separators of an absolute pointer.\<close>

lemma parse_absolute:
  "p \<noteq> [] \<Longrightarrow>
     parse (CHR ''/'' # p) = collect_results (map unescape_token (split_on (CHR ''/'') p))"
  by (simp add: parse_def addresses_root_def starts_with_def)

lemma parse_canonical_tokens:
  assumes "ts \<noteq> [[]]"
  shows "parse (canonical ts) = Inr ts"
proof (cases "ts = []")
  case True
  then show ?thesis by (simp add: canonical_def parse_def addresses_root_def)
next
  case False
  let ?j = "join_with (CHR ''/'') (map escape_token ts)"
  from assms False have "?j \<noteq> []" by (auto simp: join_with_Nil_iff)
  moreover have "split_on (CHR ''/'') ?j = map escape_token ts"
    using False by (intro split_on_join) (auto simp: list_all_iff escape_token_no_slash)
  ultimately show ?thesis
    using False by (simp add: canonical_join parse_absolute collect_results_Inr_iff unescape_escape)
qed

lemma canonical_parse_pointer:
  assumes "parse p = Inr ts" and "p \<noteq> []"
  shows "canonical ts = p"
proof (cases "p = ''/''")
  case True
  with assms show ?thesis by (auto simp: parse_def addresses_root_def canonical_def)
next
  case False
  with assms have "starts_with p ''/''"
    by (auto simp: parse_def addresses_root_def split: if_splits)
  then obtain q where p: "p = CHR ''/'' # q" by (auto simp: starts_with_iff)
  with False have q: "q \<noteq> []" by simp
  from assms(1) have ts: "map unescape_token (split_on (CHR ''/'') q) = map Inr ts"
    by (simp add: p parse_absolute [OF q] collect_results_Inr_iff)
  then have ne: "ts \<noteq> []" by auto
  have "map escape_token ts = split_on (CHR ''/'') q"
  proof (rule nth_equalityI)
    from ts have len: "length ts = length (split_on (CHR ''/'') q)"
      by (metis length_map)
    then show "length (map escape_token ts) = length (split_on (CHR ''/'') q)" by simp
    fix i
    assume "i < length (map escape_token ts)"
    with ts len have "unescape_token (split_on (CHR ''/'') q ! i) = Inr (ts ! i)"
      by (metis length_map nth_map)
    then show "map escape_token ts ! i = split_on (CHR ''/'') q ! i"
      using \<open>i < length (map escape_token ts)\<close> len
      by (auto intro!: escape_unescape dest: split_on_tokens [OF nth_mem])
  qed
  with ne show ?thesis by (simp add: canonical_join p join_split_on)
qed

section \<open>Validation without tokens\<close>

lemma escape_bytes [simp]:
  "(of_char c :: u8) = 0x7E \<longleftrightarrow> c = CHR ''~''"
  "(of_char c :: u8) = 0x30 \<longleftrightarrow> c = CHR ''0''"
  "(of_char c :: u8) = 0x31 \<longleftrightarrow> c = CHR ''1''"
proof -
  have eq: "of_char c = (n :: u8) \<longleftrightarrow> c = char_of (unat n)" for n :: u8
    by (metis of_char_char_of_unat char_of_char unat_of_char_byte)
  show "(of_char c :: u8) = 0x7E \<longleftrightarrow> c = CHR ''~''"
    and "(of_char c :: u8) = 0x30 \<longleftrightarrow> c = CHR ''0''"
    and "(of_char c :: u8) = 0x31 \<longleftrightarrow> c = CHR ''1''"
    by (simp_all add: eq char_of_def bit_0)
qed

lemma escapes_ok_simps [simp]:
  "escapes_ok (as_bytes [])"
  "escapes_ok (as_bytes (c # cs)) =
     (if c = CHR ''~''
      then (case cs of [] \<Rightarrow> False | d # ds \<Rightarrow> (d = CHR ''0'' \<or> d = CHR ''1'') \<and> escapes_ok (as_bytes ds))
      else escapes_ok (as_bytes cs))"
  by (simp_all add: as_bytes_def split: list.split)

declare escapes_ok.simps(2) [simp del]

lemma unescape_loop_ok: "(\<exists>s. unescape_loop out t = Inr s) \<longleftrightarrow> escapes_ok (as_bytes t)"
proof (induction out t rule: unescape_loop.induct)
  case (2 out c cs)
  then show ?case by (cases cs) auto
qed simp

lemma escapes_ok_separator:
  "escapes_ok (as_bytes (t @ CHR ''/'' # s)) \<longleftrightarrow> escapes_ok (as_bytes t) \<and> escapes_ok (as_bytes s)"
proof (induction t rule: length_induct)
  case (1 t)
  show ?case
  proof (cases t)
    case Nil
    then show ?thesis by simp
  next
    case (Cons c cs)
    show ?thesis
    proof (cases "c = CHR ''~''")
      case False
      with 1 Cons show ?thesis by (simp del: as_bytes_append)
    next
      case True
      with 1 Cons show ?thesis by (cases cs) (simp_all del: as_bytes_append)
    qed
  qed
qed

lemma escapes_ok_join:
  "ts \<noteq> [] \<Longrightarrow> escapes_ok (as_bytes (join_with (CHR ''/'') ts)) \<longleftrightarrow> list_all (\<lambda>t. escapes_ok (as_bytes t)) ts"
  by (induction "CHR ''/''" ts rule: join_with.induct)
    (simp_all add: escapes_ok_separator del: as_bytes_append escapes_ok_simps)

lemma collect_results_ok:
  "(\<exists>xs. collect_results rs = Inr xs) \<longleftrightarrow> list_all (\<lambda>r. \<exists>x. r = Inr x) rs"
  by (induction rs) (auto simp: res_bind_Inr_iff)

lemma validate_escapes_iff_parse: "validate_escapes p = Inr () \<longleftrightarrow> (\<exists>ts. parse p = Inr ts)"
proof (cases "addresses_root p \<or> \<not> starts_with p ''/''")
  case True
  then show ?thesis by (auto simp: validate_escapes_def parse_def)
next
  case False
  then obtain q where p: "p = CHR ''/'' # q" by (auto simp: starts_with_iff)
  with False have q: "q \<noteq> []" by (auto simp: addresses_root_def)
  have "escapes_ok (as_bytes p) \<longleftrightarrow> escapes_ok (as_bytes (join_with (CHR ''/'') (split_on (CHR ''/'') q)))"
    by (simp add: p join_split_on)
  also have "\<dots> \<longleftrightarrow> (\<exists>ts. parse p = Inr ts)"
    by (simp add: escapes_ok_join p parse_absolute [OF q] collect_results_ok list_all_iff
        unescape_token_loop unescape_loop_ok)
  finally show ?thesis using False by (simp add: validate_escapes_def)
qed

text \<open>
  Joining and parsing are inverse. A list of tokens survives \<^verbatim>\<open>canonical\<close>
  then \<^verbatim>\<open>parse\<close> exactly when it is not the one empty token (whose pointer
  \<^verbatim>\<open>"/"\<close> this crate reads as the root), whatever \<open>~\<close> and \<open>/\<close> the tokens hold.
\<close>

theorem parse_canonical: "parse (canonical ts) = Inr ts \<longleftrightarrow> ts \<noteq> [[]]"
proof (cases "ts = [[]]")
  case True
  then show ?thesis
    by (simp add: canonical_join escape_token_def parse_def addresses_root_def)
next
  case False
  then show ?thesis by (simp add: parse_canonical_tokens)
qed



text \<open>
  Checking the escapes accepts a pointer exactly when parsing it does, so a
  caller that only validates can never disagree with one that parses.
\<close>

theorem validate_escapes_agrees: "validate_escapes p = Inr () \<longleftrightarrow> (\<exists>ts. parse p = Inr ts)"
  by (rule validate_escapes_iff_parse)

text \<open>
  The documented inverse \<^verbatim>\<open>canonical(&parse(p)?) == p\<close> fails at the one
  pointer \<^verbatim>\<open>""\<close>, which parses but whose canonical form is \<^verbatim>\<open>"/"\<close>.
\<close>

theorem canonical_parse_empty: "parse [] = Inr [] \<and> canonical [] \<noteq> []"
  by (simp add: parse_def addresses_root_def canonical_def)

end
