(* ===== verification/Peer.thy ===== *)
theory Peer
  imports Rust_Text Constants
begin

text \<open>
  Connected peers, \<^verbatim>\<open>src/peer.rs\<close>: the body of a notify, handles, the call context
  a handler sees, and the registry of connected peers with its alias index. A
  peer's sink (\<^verbatim>\<open>Arc<dyn PeerSink>\<close>) is a reference; sending through it is an
  argument that acts on the state of the outside world. Every public method of
  \<^verbatim>\<open>PeerRegistry\<close> takes the registry's one mutex for its whole body (a broadcast
  only for its snapshot), so each is one atomic update.
\<close>

type_synonym PeerId = u64

definition DETACHED :: PeerId where
  "DETACHED = - 1"

datatype PeerSendError = PS_Disconnected | PS_Full | PS_Other string

definition peer_send_error_display :: "PeerSendError \<Rightarrow> string" where
  "peer_send_error_display e =
     (case e of
        PS_Disconnected \<Rightarrow> ''peer disconnected''
      | PS_Full \<Rightarrow> ''peer outbound queue full''
      | PS_Other msg \<Rightarrow> ''peer send failed: '' @ msg)"

section \<open>Notify bodies\<close>

datatype NotifyBody = NB_Beve bytes | NB_Json bytes | NB_Utf8 string | NB_Raw bytes BodyFormat

fun notify_body_format :: "NotifyBody \<Rightarrow> BodyFormat" where
  "notify_body_format (NB_Beve _) = BF_Beve"
| "notify_body_format (NB_Json _) = BF_Json"
| "notify_body_format (NB_Utf8 _) = BF_Utf8"
| "notify_body_format (NB_Raw _ fmt) = fmt"

fun notify_as_bytes :: "NotifyBody \<Rightarrow> bytes" where
  "notify_as_bytes (NB_Beve bs) = bs"
| "notify_as_bytes (NB_Json bs) = bs"
| "notify_as_bytes (NB_Raw bs _) = bs"
| "notify_as_bytes (NB_Utf8 text) = as_bytes text"

fun notify_into_bytes :: "NotifyBody \<Rightarrow> bytes" where
  "notify_into_bytes (NB_Beve bs) = bs"
| "notify_into_bytes (NB_Json bs) = bs"
| "notify_into_bytes (NB_Raw bs _) = bs"
| "notify_into_bytes (NB_Utf8 text) = as_bytes text"

definition notify_prefix_len :: "string \<Rightarrow> nat" where
  "notify_prefix_len path = HEADER_SIZE + length path"

text \<open>The contents and the capacity of the copy.\<close>

definition clone_with_prefix_room :: "bytes \<Rightarrow> nat \<Rightarrow> bytes \<times> nat" where
  "clone_with_prefix_room src prefix_len = (src, prefix_len + length src)"

section \<open>Handles and call contexts\<close>

record PeerHandle =
  ph_peer_id :: PeerId
  ph_sink :: nat

record CallContext =
  cc_method :: string
  cc_peer :: "PeerHandle option"
  cc_cancel :: "nat option"

definition call_context_new :: "string \<Rightarrow> PeerHandle \<Rightarrow> CallContext" where
  "call_context_new method peer = \<lparr>cc_method = method, cc_peer = Some peer, cc_cancel = None\<rparr>"

definition call_context_detached :: "string \<Rightarrow> CallContext" where
  "call_context_detached method = \<lparr>cc_method = method, cc_peer = None, cc_cancel = None\<rparr>"

definition call_context_with_cancel :: "string \<Rightarrow> PeerHandle \<Rightarrow> nat \<Rightarrow> CallContext" where
  "call_context_with_cancel method peer cancel =
     \<lparr>cc_method = method, cc_peer = Some peer, cc_cancel = Some cancel\<rparr>"

text \<open>\<open>signal\<close> reads the flag of a cancel signal.\<close>

definition context_is_cancelled :: "(nat \<Rightarrow> bool) \<Rightarrow> CallContext \<Rightarrow> bool" where
  "context_is_cancelled signal ctx =
     (case cc_cancel ctx of None \<Rightarrow> False | Some c \<Rightarrow> signal c)"

section \<open>The registry\<close>

record PeerRegistry =
  pr_peers :: "PeerId \<rightharpoonup> PeerHandle"
  pr_aliases :: "string \<rightharpoonup> PeerId"
  pr_alias_index :: "PeerId \<rightharpoonup> string list"
  pr_next_id :: u64

definition registry_new :: PeerRegistry where
  "registry_new = \<lparr>pr_peers = Map.empty, pr_aliases = Map.empty, pr_alias_index = Map.empty,
     pr_next_id = 0\<rparr>"

definition next_peer_id :: "PeerRegistry \<Rightarrow> PeerId \<times> PeerRegistry" where
  "next_peer_id r = (let v = pr_next_id r in (v, r\<lparr>pr_next_id := v + 1\<rparr>))"

definition peer_get :: "PeerId \<Rightarrow> PeerRegistry \<Rightarrow> PeerHandle option" where
  "peer_get ident r = pr_peers r ident"

definition peer_alias :: "PeerId \<Rightarrow> string \<Rightarrow> PeerRegistry \<Rightarrow> bool \<times> PeerRegistry" where
  "peer_alias peer_id key r =
     (if pr_peers r peer_id = None then (False, r)
      else
        let prev = pr_aliases r key;
            r = r\<lparr>pr_aliases := (pr_aliases r)(key \<mapsto> peer_id)\<rparr>
        in if prev = Some peer_id then (True, r)
           else
             let r = (case prev of
                   Some prev \<Rightarrow>
                     (case pr_alias_index r prev of
                        Some keys \<Rightarrow> r\<lparr>pr_alias_index := (pr_alias_index r)(prev \<mapsto> filter (\<lambda>k. k \<noteq> key) keys)\<rparr>
                      | None \<Rightarrow> r)
                 | None \<Rightarrow> r);
                 keys = (case pr_alias_index r peer_id of Some keys \<Rightarrow> keys | None \<Rightarrow> [])
             in (True, r\<lparr>pr_alias_index := (pr_alias_index r)(peer_id \<mapsto> keys @ [key])\<rparr>))"

definition get_by :: "string \<Rightarrow> PeerRegistry \<Rightarrow> PeerHandle option" where
  "get_by key r = (case pr_aliases r key of None \<Rightarrow> None | Some ident \<Rightarrow> pr_peers r ident)"

definition key_for :: "PeerId \<Rightarrow> PeerRegistry \<Rightarrow> string option" where
  "key_for peer_id r =
     (case pr_alias_index r peer_id of
        None \<Rightarrow> None
      | Some keys \<Rightarrow> (case keys of [] \<Rightarrow> None | k # _ \<Rightarrow> Some k))"

definition aliases_for :: "PeerId \<Rightarrow> PeerRegistry \<Rightarrow> string list" where
  "aliases_for peer_id r =
     (case pr_alias_index r peer_id of None \<Rightarrow> [] | Some keys \<Rightarrow> keys)"

definition peer_insert :: "PeerHandle \<Rightarrow> PeerRegistry \<Rightarrow> PeerRegistry" where
  "peer_insert peer r = r\<lparr>pr_peers := (pr_peers r)(ph_peer_id peer \<mapsto> peer)\<rparr>"

definition purge_alias :: "PeerId \<Rightarrow> string \<Rightarrow> (string \<rightharpoonup> PeerId) \<Rightarrow> (string \<rightharpoonup> PeerId)" where
  "purge_alias ident key aliases =
     (if aliases key = Some ident then aliases(key := None) else aliases)"

definition peer_remove :: "PeerId \<Rightarrow> PeerRegistry \<Rightarrow> PeerHandle option \<times> PeerRegistry" where
  "peer_remove ident r =
     (let removed = pr_peers r ident;
          r = r\<lparr>pr_peers := (pr_peers r)(ident := None)\<rparr>
      in case pr_alias_index r ident of
           None \<Rightarrow> (removed, r)
         | Some keys \<Rightarrow>
             (removed, r\<lparr>pr_alias_index := (pr_alias_index r)(ident := None),
                         pr_aliases := fold (purge_alias ident) keys (pr_aliases r)\<rparr>))"

text \<open>
  \<open>order\<close> is the order in which the \<^verbatim>\<open>HashMap\<close> happens to enumerate the connected
  peers; \<open>send\<close> is \<^verbatim>\<open>PeerSink::send_notify\<close> on the sink's reference.
\<close>

definition peers_snapshot :: "PeerId list \<Rightarrow> PeerRegistry \<Rightarrow> PeerHandle list" where
  "peers_snapshot order r = List.map_filter (pr_peers r) order"

fun broadcast_to ::
    "(nat \<Rightarrow> string \<Rightarrow> NotifyBody \<Rightarrow> 'w \<Rightarrow> (PeerSendError + unit) \<times> 'w) \<Rightarrow> string
      \<Rightarrow> (PeerHandle \<Rightarrow> nat \<Rightarrow> NotifyBody) \<Rightarrow> nat \<Rightarrow> PeerHandle list
      \<Rightarrow> (PeerId \<rightharpoonup> PeerSendError + unit) \<Rightarrow> 'w \<Rightarrow> (PeerId \<rightharpoonup> PeerSendError + unit) \<times> 'w" where
  "broadcast_to send path body_for prefix_room [] out w = (out, w)"
| "broadcast_to send path body_for prefix_room (peer # rest) out w =
     (let body = body_for peer prefix_room;
          (result, w) = send (ph_sink peer) path body w
      in broadcast_to send path body_for prefix_room rest (out(ph_peer_id peer \<mapsto> result)) w)"

definition broadcast_each ::
    "PeerId list \<Rightarrow> (nat \<Rightarrow> string \<Rightarrow> NotifyBody \<Rightarrow> 'w \<Rightarrow> (PeerSendError + unit) \<times> 'w) \<Rightarrow> string
      \<Rightarrow> (PeerHandle \<Rightarrow> nat \<Rightarrow> NotifyBody) \<Rightarrow> PeerRegistry \<Rightarrow> 'w
      \<Rightarrow> (PeerId \<rightharpoonup> PeerSendError + unit) \<times> 'w" where
  "broadcast_each order send path body_for r w =
     (let prefix_room = notify_prefix_len path;
          snapshot = peers_snapshot order r
      in broadcast_to send path body_for prefix_room snapshot Map.empty w)"

text \<open>\<open>encoded\<close> is the \<^verbatim>\<open>structio\<close> encoding of the body, done once.\<close>

definition broadcast_notify_json where
  "broadcast_notify_json order send path encoded r w =
     broadcast_each order send path
       (\<lambda>_ prefix_room. NB_Json (fst (clone_with_prefix_room encoded prefix_room))) r w"

definition broadcast_notify_beve where
  "broadcast_notify_beve order send path encoded r w =
     broadcast_each order send path
       (\<lambda>_ prefix_room. NB_Beve (fst (clone_with_prefix_room encoded prefix_room))) r w"

definition broadcast_notify_utf8 where
  "broadcast_notify_utf8 order send path text r w =
     broadcast_each order send path (\<lambda>_ prefix_room. NB_Utf8 text) r w"

definition broadcast_notify_raw where
  "broadcast_notify_raw order send path body_format body r w =
     broadcast_each order send path
       (\<lambda>_ prefix_room. NB_Raw (fst (clone_with_prefix_room body prefix_room)) body_format) r w"

section \<open>Consistency of the alias index\<close>

text \<open>
  The forward map and the reverse index describe the same relation, only
  connected peers have aliases, no alias is listed twice, and a handle is stored
  under its own id.
\<close>

definition registry_ok :: "PeerRegistry \<Rightarrow> bool" where
  "registry_ok r \<longleftrightarrow>
     (\<forall>key ident. pr_aliases r key = Some ident \<longleftrightarrow> key \<in> set (aliases_for ident r))
     \<and> (\<forall>ident. distinct (aliases_for ident r))
     \<and> (\<forall>ident. aliases_for ident r \<noteq> [] \<longrightarrow> pr_peers r ident \<noteq> None)
     \<and> (\<forall>ident h. pr_peers r ident = Some h \<longrightarrow> ph_peer_id h = ident)"

lemma registry_okD:
  assumes "registry_ok r"
  shows "pr_aliases r key = Some ident \<longleftrightarrow> key \<in> set (aliases_for ident r)"
    and "distinct (aliases_for ident r)"
    and "aliases_for ident r \<noteq> [] \<Longrightarrow> \<exists>h. pr_peers r ident = Some h"
    and "pr_peers r ident = Some h \<Longrightarrow> ph_peer_id h = ident"
  using assms by (auto simp: registry_ok_def)

lemma aliases_disjoint:
  "registry_ok r \<Longrightarrow> key \<in> set (aliases_for i r) \<Longrightarrow> key \<in> set (aliases_for j r) \<Longrightarrow> i = j"
  by (metis registry_okD(1) option.inject)

lemma registry_new_ok: "registry_ok registry_new"
  by (simp add: registry_ok_def registry_new_def aliases_for_def)

lemma next_peer_id_ok: "registry_ok r \<Longrightarrow> registry_ok (snd (next_peer_id r))"
  by (simp add: registry_ok_def next_peer_id_def aliases_for_def Let_def)

lemma peer_insert_ok: "registry_ok r \<Longrightarrow> registry_ok (peer_insert peer r)"
  by (simp add: registry_ok_def peer_insert_def aliases_for_def)

text \<open>What \<^verbatim>\<open>alias\<close> does to the alias lists, once its three cases are merged.\<close>

lemma alias_attached:
  assumes ok: "registry_ok r" and peer: "pr_peers r peer_id \<noteq> None"
  obtains r' where "peer_alias peer_id key r = (True, r')"
    and "pr_peers r' = pr_peers r" and "pr_next_id r' = pr_next_id r"
    and "pr_aliases r' = (pr_aliases r)(key \<mapsto> peer_id)"
    and "\<And>ident. aliases_for ident r' =
      (if ident = peer_id
       then (if key \<in> set (aliases_for peer_id r) then aliases_for peer_id r
             else aliases_for peer_id r @ [key])
       else filter (\<lambda>k. k \<noteq> key) (aliases_for ident r))"
proof -
  let ?r = "snd (peer_alias peer_id key r)"
  have own: "filter (\<lambda>k. k \<noteq> key) (aliases_for ident r) = aliases_for ident r"
    if "pr_aliases r key \<noteq> Some ident" for ident
    using that registry_okD(1) [OF ok] by (auto simp: filter_id_conv)
  have lists: "aliases_for ident ?r =
      (if ident = peer_id
       then (if key \<in> set (aliases_for peer_id r) then aliases_for peer_id r
             else aliases_for peer_id r @ [key])
       else filter (\<lambda>k. k \<noteq> key) (aliases_for ident r))" for ident
  proof (cases "pr_aliases r key = Some peer_id")
    case True
    with peer own [of ident] registry_okD(1) [OF ok] show ?thesis
      by (auto simp: peer_alias_def Let_def aliases_for_def)
  next
    case False
    then have "key \<notin> set (aliases_for peer_id r)" using registry_okD(1) [OF ok] by simp
    with False peer own [of ident] show ?thesis
      by (cases "pr_aliases r key"; cases "pr_alias_index r (the (pr_aliases r key))";
          cases "pr_aliases r key = Some ident")
        (auto simp: peer_alias_def Let_def aliases_for_def)
  qed
  show ?thesis
  proof (rule that [of ?r])
    show "peer_alias peer_id key r = (True, ?r)" "pr_peers ?r = pr_peers r" "pr_next_id ?r = pr_next_id r"
      "pr_aliases ?r = (pr_aliases r)(key \<mapsto> peer_id)"
      using peer by (auto simp: peer_alias_def Let_def split: option.splits)
  qed (rule lists)
qed

lemma alias_refused: "pr_peers r peer_id = None \<Longrightarrow> peer_alias peer_id key r = (False, r)"
  by (simp add: peer_alias_def)

lemma peer_alias_ok:
  assumes ok: "registry_ok r"
  shows "registry_ok (snd (peer_alias peer_id key r))"
proof (cases "pr_peers r peer_id = None")
  case True
  with ok show ?thesis by (simp add: alias_refused)
next
  case False
  from alias_attached [OF ok False, of key] obtain r' where
    r': "peer_alias peer_id key r = (True, r')" "pr_peers r' = pr_peers r"
      "pr_aliases r' = (pr_aliases r)(key \<mapsto> peer_id)"
    and lists: "\<And>ident. aliases_for ident r' =
      (if ident = peer_id
       then (if key \<in> set (aliases_for peer_id r) then aliases_for peer_id r
             else aliases_for peer_id r @ [key])
       else filter (\<lambda>k. k \<noteq> key) (aliases_for ident r))" by metis
  have "pr_peers r ident \<noteq> None" if "aliases_for ident r' \<noteq> []" for ident
  proof (cases "ident = peer_id")
    case False
    with that lists [of ident] have "aliases_for ident r \<noteq> []" by (cases "aliases_for ident r") auto
    then show ?thesis using registry_okD(3) [OF ok] by auto
  qed (use False in simp)
  moreover have "pr_aliases r' k = Some ident \<longleftrightarrow> k \<in> set (aliases_for ident r')" for k ident
    using registry_okD(1) [OF ok, of k ident] by (auto simp: r' lists)
  ultimately show ?thesis
    using registry_okD(2,4) [OF ok] unfolding registry_ok_def r'(1) snd_conv r'(2)
    by (auto simp: lists)
qed

lemma purge_aliases:
  "fold (purge_alias ident) keys m k = (if k \<in> set keys \<and> m k = Some ident then None else m k)"
proof (induction keys arbitrary: m)
  case (Cons x xs)
  have "fold (purge_alias ident) (x # xs) m k =
      (if k \<in> set xs \<and> purge_alias ident x m k = Some ident then None else purge_alias ident x m k)"
    by (simp add: Cons.IH)
  also have "\<dots> = (if k \<in> set (x # xs) \<and> m k = Some ident then None else m k)"
    by (auto simp: purge_alias_def)
  finally show ?case .
qed simp

lemma peer_remove_effect:
  assumes ok: "registry_ok r"
  obtains r' where "peer_remove ident r = (pr_peers r ident, r')"
    and "pr_peers r' = (pr_peers r)(ident := None)"
    and "\<And>key. pr_aliases r' key = (if pr_aliases r key = Some ident then None else pr_aliases r key)"
    and "\<And>i. aliases_for i r' = (if i = ident then [] else aliases_for i r)"
    and "pr_next_id r' = pr_next_id r"
proof (rule that)
  show "peer_remove ident r = (pr_peers r ident, snd (peer_remove ident r))"
    by (simp add: peer_remove_def Let_def split: option.split)
  show "pr_aliases (snd (peer_remove ident r)) key
      = (if pr_aliases r key = Some ident then None else pr_aliases r key)" for key
    using registry_okD(1) [OF ok, of key ident]
    by (auto simp: peer_remove_def Let_def purge_aliases aliases_for_def split: option.split)
qed (auto simp: peer_remove_def Let_def aliases_for_def split: option.split)

lemma peer_remove_ok:
  assumes ok: "registry_ok r"
  shows "registry_ok (snd (peer_remove ident r))"
proof (rule peer_remove_effect [OF ok, of ident])
  fix r'
  assume "peer_remove ident r = (pr_peers r ident, r')" "pr_peers r' = (pr_peers r)(ident := None)"
    "\<And>key. pr_aliases r' key = (if pr_aliases r key = Some ident then None else pr_aliases r key)"
    "\<And>i. aliases_for i r' = (if i = ident then [] else aliases_for i r)"
  then show ?thesis
    using registry_okD [OF ok] aliases_disjoint [OF ok] unfolding registry_ok_def by auto
qed

datatype peer_event = Mint | Insert PeerHandle | Attach PeerId string | Remove PeerId

inductive peer_step :: "PeerRegistry \<Rightarrow> peer_event \<Rightarrow> PeerRegistry \<Rightarrow> bool" where
  "peer_step r Mint (snd (next_peer_id r))"
| "peer_step r (Insert peer) (peer_insert peer r)"
| "peer_step r (Attach peer_id key) (snd (peer_alias peer_id key r))"
| "peer_step r (Remove ident) (snd (peer_remove ident r))"

interpretation peer_sys: invariant_system "\<lambda>r. r = registry_new" peer_step registry_ok
proof
  show "registry_ok s" if "s = registry_new" for s using that registry_new_ok by simp
  show "registry_ok t" if "registry_ok s" "peer_step s e t" for s e t
    using that(2,1)
    by cases (auto intro: next_peer_id_ok peer_insert_ok peer_alias_ok peer_remove_ok)
qed

lemma get_by_iff:
  assumes ok: "registry_ok r"
  shows "get_by key r = Some h \<longleftrightarrow> key \<in> set (aliases_for (ph_peer_id h) r) \<and> peer_get (ph_peer_id h) r = Some h"
proof (cases "pr_aliases r key")
  case None
  with registry_okD(1) [OF ok, of key "ph_peer_id h"] show ?thesis by (simp add: get_by_def)
next
  case (Some ident)
  with registry_okD(1) [OF ok, of key "ph_peer_id h"] registry_okD(4) [OF ok, of ident h]
  show ?thesis by (auto simp: get_by_def peer_get_def)
qed

section \<open>Minting ids and broadcasting\<close>

fun mint :: "nat \<Rightarrow> PeerRegistry \<Rightarrow> PeerId list \<times> PeerRegistry" where
  "mint 0 r = ([], r)"
| "mint (Suc n) r = (let (v, r) = next_peer_id r; (vs, r) = mint n r in (v # vs, r))"

lemma mint_ids: "fst (mint n r) = map (\<lambda>i. pr_next_id r + of_nat i) [0..<n]"
proof (induction n arbitrary: r)
  case (Suc n)
  have "fst (mint (Suc n) r) = pr_next_id r # fst (mint n (snd (next_peer_id r)))"
    by (simp add: next_peer_id_def Let_def split: prod.split)
  also have "\<dots> = pr_next_id r # map (\<lambda>i. pr_next_id r + of_nat (Suc i)) [0..<n]"
    by (simp add: Suc.IH next_peer_id_def Let_def ac_simps)
  also have "\<dots> = map (\<lambda>i. pr_next_id r + of_nat i) [0..<Suc n]"
    by (simp add: upt_conv_Cons map_Suc_upt [symmetric] del: upt_Suc map_Suc_upt)
  finally show ?case .
qed simp

lemma broadcast_dom:
  "dom (fst (broadcast_to send path body_for room ps out w)) = dom out \<union> ph_peer_id ` set ps"
  by (induction ps arbitrary: out w) (auto split: prod.splits)

lemma peers_snapshot_ran:
  "dom (pr_peers r) \<subseteq> set order \<Longrightarrow> set (peers_snapshot order r) = ran (pr_peers r)"
  by (auto simp: peers_snapshot_def map_filter_def ran_def image_iff dom_def subset_iff) force

lemma peers_snapshot_ids:
  assumes "registry_ok r"
  shows "map ph_peer_id (peers_snapshot order r) = filter (\<lambda>i. pr_peers r i \<noteq> None) order"
  using registry_okD(4) [OF assms]
  by (induction order) (auto simp: peers_snapshot_def map_filter_simps split: option.split)

text \<open>A world that records every send, for stating what a broadcast delivers.\<close>

type_synonym delivery = "nat \<times> string \<times> NotifyBody"

definition recording ::
    "(nat \<Rightarrow> PeerSendError + unit) \<Rightarrow> nat \<Rightarrow> string \<Rightarrow> NotifyBody \<Rightarrow> delivery list
      \<Rightarrow> (PeerSendError + unit) \<times> delivery list" where
  "recording outcome sink path body w = (outcome sink, w @ [(sink, path, body)])"

lemma broadcast_recorded:
  "broadcast_to (recording outcome) path body_for room ps out w =
     (out ++ map_of (rev (map (\<lambda>p. (ph_peer_id p, outcome (ph_sink p))) ps)),
      w @ map (\<lambda>p. (ph_sink p, path, body_for p room)) ps)"
  by (induction ps arbitrary: out w) (simp_all add: recording_def map_add_def fun_eq_iff split: option.splits)

section \<open>Properties\<close>

text \<open>
  C21. In every state the registry can reach, the forward alias map and the reverse
  index agree: a key addresses a peer exactly when it is listed among that peer's
  aliases and the peer is connected under its own id, a key addresses at most one
  peer, and no peer lists a key twice. So the check in \<^verbatim>\<open>remove\<close> that the code
  calls defensive always passes.
\<close>

theorem aliases_consistent:
  assumes "reachable (\<lambda>r. r = registry_new) peer_step r"
  shows "(get_by key r = Some h \<longleftrightarrow>
      key \<in> set (aliases_for (ph_peer_id h) r) \<and> peer_get (ph_peer_id h) r = Some h)
    \<and> distinct (aliases_for ident r)
    \<and> (key \<in> set (aliases_for ident r) \<longrightarrow> pr_aliases r key = Some ident \<and> (\<exists>h. peer_get ident r = Some h))"
proof -
  note ok = peer_sys.invar_reachable [OF assms]
  have "\<exists>h. pr_peers r ident = Some h" if "key \<in> set (aliases_for ident r)"
    using that registry_okD(3) [OF ok, of ident] by (cases "aliases_for ident r") auto
  with get_by_iff [OF ok] registry_okD(1,2) [OF ok] show ?thesis by (simp add: peer_get_def)
qed

definition example_registry :: PeerRegistry where
  "example_registry = snd (peer_alias 0 ''s'' (peer_insert \<lparr>ph_peer_id = 0, ph_sink = 1\<rparr> registry_new))"

lemma example_registry_reachable: "reachable (\<lambda>r. r = registry_new) peer_step example_registry"
proof -
  have "reachable (\<lambda>r. r = registry_new) peer_step registry_new" by (rule reachable_start) simp
  then have "reachable (\<lambda>r. r = registry_new) peer_step (peer_insert \<lparr>ph_peer_id = 0, ph_sink = 1\<rparr> registry_new)"
    by (rule reachable_step) (rule peer_step.intros)
  then show ?thesis
    unfolding example_registry_def by (rule reachable_step) (rule peer_step.intros)
qed

theorem aliases_consistent_witness:
  "get_by ''s'' example_registry = Some \<lparr>ph_peer_id = 0, ph_sink = 1\<rparr> \<longleftrightarrow>
     ''s'' \<in> set (aliases_for 0 example_registry)
     \<and> peer_get 0 example_registry = Some \<lparr>ph_peer_id = 0, ph_sink = 1\<rparr>"
  using aliases_consistent [OF example_registry_reachable, of "''s''" "\<lparr>ph_peer_id = 0, ph_sink = 1\<rparr>" 0]
  by simp

text \<open>
  \<^verbatim>\<open>alias\<close> on a connected peer makes the key address that peer and no other,
  taking it away from a previous owner, appends it to the peer's list unless it is
  there already, and leaves every other key alone; on an unknown peer it returns
  false and changes nothing.
\<close>

theorem alias_moves_key:
  assumes "registry_ok r" and "peer_alias peer_id key r = (attached, r')"
  shows "attached = (peer_get peer_id r \<noteq> None)
    \<and> (\<not> attached \<longrightarrow> r' = r)
    \<and> (attached \<longrightarrow> get_by key r' = peer_get peer_id r
        \<and> (\<forall>k. k \<noteq> key \<longrightarrow> get_by k r' = get_by k r)
        \<and> aliases_for peer_id r' =
            (if get_by key r = peer_get peer_id r then aliases_for peer_id r
             else aliases_for peer_id r @ [key])
        \<and> (\<forall>other. other \<noteq> peer_id \<longrightarrow>
             aliases_for other r' = filter (\<lambda>k. k \<noteq> key) (aliases_for other r)))"
proof (cases "pr_peers r peer_id")
  case None
  with assms(2) alias_refused show ?thesis by (simp add: peer_get_def)
next
  case (Some h)
  from alias_attached [OF assms(1), of peer_id key] Some obtain r'' where
    r'': "peer_alias peer_id key r = (True, r'')" "pr_peers r'' = pr_peers r"
      "pr_aliases r'' = (pr_aliases r)(key \<mapsto> peer_id)"
    and lists: "\<And>ident. aliases_for ident r'' =
      (if ident = peer_id
       then (if key \<in> set (aliases_for peer_id r) then aliases_for peer_id r
             else aliases_for peer_id r @ [key])
       else filter (\<lambda>k. k \<noteq> key) (aliases_for ident r))" by blast
  have "get_by key r = Some h \<longleftrightarrow> key \<in> set (aliases_for peer_id r)"
    using get_by_iff [OF assms(1), of key h] registry_okD(4) [OF assms(1) Some] Some
    by (simp add: peer_get_def)
  moreover have "get_by k r'' = get_by k r" if "k \<noteq> key" for k
    using that by (cases "pr_aliases r k") (simp_all add: get_by_def r'')
  moreover have "get_by key r'' = Some h" using Some by (simp add: get_by_def r'')
  ultimately show ?thesis using assms(2) r''(1) Some lists by (auto simp: peer_get_def)
qed

theorem alias_moves_key_witness:
  "get_by ''t'' (snd (peer_alias 0 ''t'' example_registry)) = Some \<lparr>ph_peer_id = 0, ph_sink = 1\<rparr>"
proof -
  have "peer_get 0 example_registry = Some \<lparr>ph_peer_id = 0, ph_sink = 1\<rparr>"
    by (simp add: peer_get_def example_registry_def peer_alias_def peer_insert_def registry_new_def)
  then show ?thesis
    using alias_moves_key [OF peer_sys.invar_reachable [OF example_registry_reachable],
        of 0 "''t''" "fst (peer_alias 0 ''t'' example_registry)" "snd (peer_alias 0 ''t'' example_registry)"]
    by simp
qed

text \<open>
  \<^verbatim>\<open>remove\<close> returns the handle that was stored, forgets the peer and every alias
  pointing at it, and touches no other peer and no other key.
\<close>

theorem remove_forgets_aliases:
  assumes "registry_ok r" and "peer_remove ident r = (removed, r')"
  shows "removed = peer_get ident r \<and> peer_get ident r' = None \<and> aliases_for ident r' = []
    \<and> (\<forall>key. key \<in> set (aliases_for ident r) \<longrightarrow> get_by key r' = None)
    \<and> (\<forall>key. key \<notin> set (aliases_for ident r) \<longrightarrow> get_by key r' = get_by key r)
    \<and> (\<forall>other. other \<noteq> ident \<longrightarrow> peer_get other r' = peer_get other r
         \<and> aliases_for other r' = aliases_for other r)"
proof (rule peer_remove_effect [OF assms(1), of ident])
  fix r''
  assume eff: "peer_remove ident r = (pr_peers r ident, r'')" "pr_peers r'' = (pr_peers r)(ident := None)"
    "\<And>key. pr_aliases r'' key = (if pr_aliases r key = Some ident then None else pr_aliases r key)"
    "\<And>i. aliases_for i r'' = (if i = ident then [] else aliases_for i r)"
  have "get_by key r'' = (if key \<in> set (aliases_for ident r) then None else get_by key r)" for key
    using registry_okD(1) [OF assms(1), of key ident] eff(2,3)
    by (cases "pr_aliases r key") (auto simp: get_by_def)
  with eff assms(2) show ?thesis by (auto simp: peer_get_def)
qed

theorem remove_forgets_aliases_witness:
  "get_by ''s'' (snd (peer_remove 0 example_registry)) = None"
  using remove_forgets_aliases [OF peer_sys.invar_reachable [OF example_registry_reachable],
      of 0 "fst (peer_remove 0 example_registry)" "snd (peer_remove 0 example_registry)"]
  by (simp add: get_by_def example_registry_def peer_alias_def peer_insert_def registry_new_def
      aliases_for_def peer_remove_def)

text \<open>
  Ids are unique: up to \<open>2 ^ 64\<close> ids minted from one registry are pairwise
  different, and they count up from the counter's value.
\<close>

theorem minted_ids_distinct:
  assumes "n \<le> 2 ^ 64"
  shows "distinct (fst (mint n r)) \<and> length (fst (mint n r)) = n
    \<and> (\<forall>i < n. fst (mint n r) ! i = pr_next_id r + of_nat i)"
proof -
  have fits: "unat (of_nat i :: u64) = i" if "i < n" for i
    by (rule unat_of_nat_fits) (use that assms in \<open>simp only: len_num0 len_bit0 len_bit1 len_num1\<close>, simp)
  have "inj_on (\<lambda>i. pr_next_id r + of_nat i :: u64) (set [0..<n])"
  proof (rule inj_onI)
    fix i j
    assume "i \<in> set [0..<n]" "j \<in> set [0..<n]" and eq: "pr_next_id r + of_nat i = pr_next_id r + (of_nat j :: u64)"
    then have "i < n" "j < n" by simp_all
    from eq have "unat (of_nat i :: u64) = unat (of_nat j :: u64)" by simp
    with fits [OF \<open>i < n\<close>] fits [OF \<open>j < n\<close>] show "i = j" by argo
  qed
  then have "distinct (fst (mint n r))" unfolding mint_ids distinct_map by simp
  then show ?thesis by (simp add: mint_ids)
qed

theorem minted_ids_distinct_witness:
  "distinct (fst (mint 3 registry_new)) \<and> length (fst (mint 3 registry_new)) = 3
    \<and> fst (mint 3 registry_new) ! 2 = pr_next_id registry_new + of_nat 2"
  using minted_ids_distinct [of 3 registry_new] by simp

text \<open>
  A broadcast calls every connected peer's sink exactly once, in the order of
  the snapshot, with the given path and the same body, and returns one result per
  connected peer: that peer's own.
\<close>

theorem broadcast_reaches_all:
  assumes "registry_ok r" and "dom (pr_peers r) \<subseteq> set order" and "distinct order"
    and "broadcast_notify_json order (recording outcome) path encoded r [] = (out, sent)"
  shows "dom out = dom (pr_peers r)
    \<and> (\<forall>ident h. peer_get ident r = Some h \<longrightarrow> out ident = Some (outcome (ph_sink h)))
    \<and> sent = map (\<lambda>h. (ph_sink h, path, NB_Json encoded)) (peers_snapshot order r)
    \<and> distinct (map ph_peer_id (peers_snapshot order r))"
proof -
  let ?ps = "peers_snapshot order r"
  have dist: "distinct (map ph_peer_id ?ps)"
    unfolding peers_snapshot_ids [OF assms(1)] using assms(3) by simp
  let ?kv = "map (\<lambda>p. (ph_peer_id p, outcome (ph_sink p))) ?ps"
  have out: "out = map_of (rev ?kv)" and sent: "sent = map (\<lambda>h. (ph_sink h, path, NB_Json encoded)) ?ps"
    using assms(4)
    by (simp_all add: broadcast_notify_json_def broadcast_each_def broadcast_recorded
        clone_with_prefix_room_def Let_def)
  have "dom out = set (map ph_peer_id ?ps)"
    by (simp add: out dom_map_of_conv_image_fst image_image)
  also have "\<dots> = dom (pr_peers r)"
    unfolding peers_snapshot_ids [OF assms(1)] using assms(2) by auto
  finally have "dom out = dom (pr_peers r)" .
  moreover have "out ident = Some (outcome (ph_sink h))" if "peer_get ident r = Some h" for ident h
  proof -
    from that assms(2) have "h \<in> set ?ps"
      by (auto simp: peers_snapshot_ran [OF assms(2)] peer_get_def ran_def)
    moreover from that have "ph_peer_id h = ident"
      using registry_okD(4) [OF assms(1)] by (simp add: peer_get_def)
    moreover from dist have "distinct (map fst (rev ?kv))" by (simp add: rev_map [symmetric] comp_def)
    moreover have "(ident, outcome (ph_sink h)) \<in> set (rev ?kv)"
      using \<open>h \<in> set ?ps\<close> \<open>ph_peer_id h = ident\<close> by auto
    ultimately show ?thesis unfolding out by (intro map_of_is_SomeI)
  qed
  ultimately show ?thesis using sent dist by blast
qed

theorem broadcast_reaches_all_witness:
  "dom (fst (broadcast_notify_json [0] (recording (\<lambda>_. Inl PS_Full)) ''/x'' [1] example_registry []))
     = dom (pr_peers example_registry)"
proof -
  have "dom (pr_peers example_registry) \<subseteq> set [0]"
    by (simp add: example_registry_def peer_alias_def peer_insert_def registry_new_def Let_def)
  from broadcast_reaches_all [OF peer_sys.invar_reachable [OF example_registry_reachable] this _
      prod.collapse [symmetric]] show ?thesis by simp
qed

end
