(* ===== verification/Registry.thy ===== *)
theory Registry
  imports Served_Structs Json_Pointer Peer
begin

text \<open>
  The dynamic function registry, \<^verbatim>\<open>src/registry.rs\<close>: a table of functions keyed by
  canonical JSON pointers, and the normal form of mount prefixes that the router
  and the REST gateway share. A registered function acts on the state of the
  outside world and on the response body it is handed.
\<close>

section \<open>Errors and callables\<close>

datatype RegistryError =
    RGE_InvalidPointer string
  | RGE_PathNotFound string
  | RGE_UnsupportedBodyFormat u16
  | RGE_Execution ErrorCode string

fun registry_error_code :: "RegistryError \<Rightarrow> ErrorCode" where
  "registry_error_code (RGE_InvalidPointer _) = EC_MethodNotFound"
| "registry_error_code (RGE_PathNotFound _) = EC_MethodNotFound"
| "registry_error_code (RGE_UnsupportedBodyFormat _) = EC_InvalidBody"
| "registry_error_code (RGE_Execution code _) = code"

fun registry_error_display :: "RegistryError \<Rightarrow> string" where
  "registry_error_display (RGE_InvalidPointer pointer) = ''invalid JSON pointer `'' @ pointer @ ''`''"
| "registry_error_display (RGE_PathNotFound path) = ''path not found `'' @ path @ ''`''"
| "registry_error_display (RGE_UnsupportedBodyFormat format) =
     ''registry body format `'' @ dec_str (unat format) @ ''` is unsupported''"
| "registry_error_display (RGE_Execution _ msg) = msg"

type_synonym call_error = "ErrorCode \<times> string"

type_synonym 'w RegistryFunction =
  "CallContext \<Rightarrow> RequestBody option \<Rightarrow> ResponseBody \<Rightarrow> 'w \<Rightarrow> (call_error + unit) \<times> ResponseBody \<times> 'w"

text \<open>The three adapters that make a closure a callable.\<close>

definition plain_function ::
    "'v servable_write \<Rightarrow> (RequestBody option \<Rightarrow> 'w \<Rightarrow> (call_error + 'v) \<times> 'w) \<Rightarrow> 'w RegistryFunction" where
  "plain_function sw f ctx params out w =
     (case f params w of
        (Inl e, w) \<Rightarrow> (Inl e, out, w)
      | (Inr v, w) \<Rightarrow> (Inr (), write_value sw v out, w))"

definition with_context ::
    "'v servable_write \<Rightarrow> (CallContext \<Rightarrow> RequestBody option \<Rightarrow> 'w \<Rightarrow> (call_error + 'v) \<times> 'w)
      \<Rightarrow> 'w RegistryFunction" where
  "with_context sw f ctx params out w =
     (case f ctx params w of
        (Inl e, w) \<Rightarrow> (Inl e, out, w)
      | (Inr v, w) \<Rightarrow> (Inr (), write_value sw v out, w))"

definition with_body ::
    "(RequestBody option \<Rightarrow> ResponseBody \<Rightarrow> 'w \<Rightarrow> (call_error + unit) \<times> ResponseBody \<times> 'w)
      \<Rightarrow> 'w RegistryFunction" where
  "with_body f ctx params out w = f params out w"

section \<open>The table\<close>

type_synonym 'w Registry = "string \<rightharpoonup> 'w RegistryFunction"

definition registry_empty :: "'w Registry" where
  "registry_empty = Map.empty"

definition canonical_key :: "string \<Rightarrow> RegistryError + string" where
  "canonical_key pointer =
     (if addresses_root pointer then Inr ''/''
      else res_bind (res_map_err (\<lambda>_. RGE_InvalidPointer pointer) (validate_escapes pointer)) (\<lambda>_.
        Inr pointer))"

definition register_function ::
    "string \<Rightarrow> 'w RegistryFunction \<Rightarrow> 'w Registry \<Rightarrow> RegistryError + 'w Registry" where
  "register_function path f state =
     (let normalized = (if starts_with path ''/'' then path else ''/'' @ path)
      in if addresses_root normalized then Inl (RGE_InvalidPointer path)
         else res_bind (res_map_err (\<lambda>_. RGE_InvalidPointer path) (canonical_key normalized)) (\<lambda>key.
           Inr (state(key \<mapsto> f))))"

definition is_function :: "string \<Rightarrow> 'w Registry \<Rightarrow> bool" where
  "is_function pointer state =
     (case canonical_key pointer of Inr key \<Rightarrow> state key \<noteq> None | Inl _ \<Rightarrow> False)"

definition registry_call ::
    "string \<Rightarrow> RequestBody option \<Rightarrow> CallContext \<Rightarrow> 'w Registry \<Rightarrow> ResponseBody \<Rightarrow> 'w
      \<Rightarrow> (RegistryError + unit) \<times> ResponseBody \<times> 'w" where
  "registry_call pointer params ctx state out w =
     (case canonical_key pointer of
        Inl e \<Rightarrow> (Inl e, out, w)
      | Inr key \<Rightarrow>
          (case state key of
             None \<Rightarrow> (Inl (RGE_PathNotFound pointer), out, w)
           | Some function \<Rightarrow>
               (case function ctx params out w of
                  (r, out, w) \<Rightarrow> (res_map_err (\<lambda>(code, msg). RGE_Execution code msg) r, out, w))))"

definition call_detached ::
    "string \<Rightarrow> RequestBody option \<Rightarrow> 'w Registry \<Rightarrow> ResponseBody \<Rightarrow> 'w
      \<Rightarrow> (RegistryError + unit) \<times> ResponseBody \<times> 'w" where
  "call_detached pointer params state out w =
     registry_call pointer params (call_context_detached pointer) state out w"

definition body_of :: "Message \<Rightarrow> RegistryError + RequestBody option" where
  "body_of req =
     (if m_body req = [] then Inr None
      else (case body_format_try_from (h_body_format (m_header req)) of
              Inr format \<Rightarrow> Inr (Some \<lparr>rq_bytes = m_body req, rq_format = format\<rparr>)
            | Inl _ \<Rightarrow> Inl (RGE_UnsupportedBodyFormat (h_body_format (m_header req)))))"

definition normalize_mount :: "string \<Rightarrow> string" where
  "normalize_mount pre =
     (if pre = [] \<or> pre = ''/'' then []
      else let absolute = (if starts_with pre ''/'' then pre else ''/'' @ pre);
               trimmed = trim_end_matches (CHR ''/'') absolute
           in if trimmed = [] then [] else trimmed)"

section \<open>Keys and mounts\<close>

lemma canonical_key_tokens:
  assumes "canonical_key p = Inr k"
  shows "\<exists>ts. parse p = Inr ts \<and> canonical ts = k"
proof (cases "addresses_root p")
  case True
  with assms show ?thesis by (auto simp: canonical_key_def parse_def canonical_def)
next
  case False
  with assms have "k = p" "validate_escapes p = Inr ()"
    by (auto simp: canonical_key_def res_bind_Inr_iff)
  with False canonical_parse_pointer [of p] show ?thesis
    by (auto simp: validate_escapes_iff_parse addresses_root_def)
qed

lemma canonical_key_Inl_iff:
  "canonical_key p = Inl e \<longleftrightarrow> e = RGE_InvalidPointer p \<and> parse p = Inl MalformedPointer"
proof (cases "addresses_root p")
  case True
  then show ?thesis by (simp add: canonical_key_def parse_def)
next
  case False
  have "parse p = Inl MalformedPointer \<longleftrightarrow> validate_escapes p \<noteq> Inr ()"
    unfolding validate_escapes_iff_parse by (cases "parse p") (auto intro: MalformedPointer.exhaust)
  with False show ?thesis
    by (cases "validate_escapes p") (auto simp: canonical_key_def)
qed

lemma canonical_key_eq_iff:
  assumes "canonical_key p = Inr k" and "canonical_key q = Inr l"
  shows "k = l \<longleftrightarrow> parse p = parse q"
proof -
  obtain ts us where ts: "parse p = Inr ts" "canonical ts = k" and us: "parse q = Inr us" "canonical us = l"
    using canonical_key_tokens [OF assms(1)] canonical_key_tokens [OF assms(2)] by blast
  have ne: "xs \<noteq> [[]]" if "parse r = Inr xs" for r xs
  proof
    assume "xs = [[]]"
    with that have "addresses_root r \<or> canonical [[]] = r"
      using canonical_parse_pointer [of r "[[]]"] by (auto simp: addresses_root_def)
    moreover have "canonical [[]] = ''/''" by (simp add: canonical_join escape_token_def)
    ultimately have "addresses_root r" by (auto simp: addresses_root_def)
    with that \<open>xs = [[]]\<close> show False by (simp add: parse_def)
  qed
  have "canonical ts = canonical us \<longleftrightarrow> ts = us"
    using parse_canonical_tokens [OF ne [OF ts(1)]] parse_canonical_tokens [OF ne [OF us(1)]]
    by (metis sum.inject(2))
  then show ?thesis unfolding ts us sum.inject .
qed

definition registration_pointer :: "string \<Rightarrow> string" where
  "registration_pointer path = (if starts_with path ''/'' then path else ''/'' @ path)"

lemma register_function_Inr:
  assumes "register_function path f state = Inr state'"
  shows "canonical_key (registration_pointer path) = Inr (registration_pointer path)"
    and "state' = state(registration_pointer path \<mapsto> f)"
  using assms
  by (auto simp: register_function_def registration_pointer_def Let_def res_bind_Inr_iff canonical_key_def
      split: if_splits)

lemma slash_trimmed:
  assumes "starts_with s ''/''"
  shows "trim_end_matches (CHR ''/'') s = [] \<or>
    (starts_with (trim_end_matches (CHR ''/'') s) ''/'' \<and> last (trim_end_matches (CHR ''/'') s) \<noteq> CHR ''/'')"
proof (cases "trim_end_matches (CHR ''/'') s")
  case (Cons c cs)
  obtain n where "s = trim_end_matches (CHR ''/'') s @ replicate n (CHR ''/'')"
    using trim_end_matches_prefix by blast
  with assms Cons have "c = CHR ''/''" by (auto simp: starts_with_iff)
  with Cons trim_end_matches_last [of "CHR ''/''" s] show ?thesis by (simp add: starts_with_iff)
qed simp

lemma trim_end_matches_snoc [simp]: "trim_end_matches c (s @ [c]) = trim_end_matches c s"
  by (simp add: trim_end_matches_def)

lemma trim_end_matches_idle: "s = [] \<or> last s \<noteq> c \<Longrightarrow> trim_end_matches c s = s"
  by (cases s rule: rev_cases) (auto simp: trim_end_matches_def)

lemma normalize_mount_trim:
  "normalize_mount pre =
     (if pre = [] then [] else trim_end_matches (CHR ''/'') (registration_pointer pre))"
  by (auto simp: normalize_mount_def registration_pointer_def Let_def trim_end_matches_def starts_with_iff)

lemma registration_pointer_absolute: "starts_with (registration_pointer pre) ''/''"
  by (simp add: registration_pointer_def starts_with_iff)

lemma normalize_mount_shape:
  "normalize_mount pre = []
    \<or> (starts_with (normalize_mount pre) ''/'' \<and> last (normalize_mount pre) \<noteq> CHR ''/'')"
  using slash_trimmed [OF registration_pointer_absolute] by (auto simp: normalize_mount_trim)

section \<open>Properties\<close>

text \<open>
  Registration and lookup agree on what a path names: after a function is
  registered, a call reaches it exactly when its pointer has the same reference
  tokens as the registered path (given with or without its leading slash), and
  every other call behaves as before.
\<close>

theorem registered_function_called:
  assumes "register_function path f state = Inr state'"
  shows "registry_call p params ctx state' out w =
    (if parse p = parse (registration_pointer path)
     then (case f ctx params out w of
             (r, out, w) \<Rightarrow> (res_map_err (\<lambda>(code, msg). RGE_Execution code msg) r, out, w))
     else registry_call p params ctx state out w)"
proof (cases "canonical_key p")
  case (Inl e)
  then have "parse p = Inl MalformedPointer" by (simp add: canonical_key_Inl_iff)
  moreover have "parse (registration_pointer path) \<noteq> Inl MalformedPointer"
    using register_function_Inr(1) [OF assms] canonical_key_Inl_iff by (metis Inl_Inr_False)
  ultimately show ?thesis by (simp add: registry_call_def Inl)
next
  case (Inr k)
  from canonical_key_eq_iff [OF Inr register_function_Inr(1) [OF assms]]
  show ?thesis by (auto simp: registry_call_def Inr register_function_Inr(2) [OF assms])
qed

theorem registered_function_called_witness:
  "registry_call ''/a'' None (call_context_detached ''/a'')
     (registry_empty(''/a'' \<mapsto> (\<lambda>ctx params out w. (Inl (EC_Timeout, ''x''), out, Suc w)))) (response_body_new []) 4
   = (Inl (RGE_Execution EC_Timeout ''x''), response_body_new [], 5)"
proof -
  let ?f = "\<lambda>ctx params out w. (Inl (EC_Timeout, ''x''), out, Suc w)"
  have "register_function ''a'' ?f registry_empty = Inr (registry_empty(''/a'' \<mapsto> ?f))"
    by (simp add: register_function_def starts_with_def addresses_root_def canonical_key_def validate_escapes_def)
  from registered_function_called [OF this, of "''/a''" None "call_context_detached ''/a''" "response_body_new []" 4]
  show ?thesis by (simp add: registration_pointer_def starts_with_def)
qed

text \<open>
  Registration fails exactly for the root and for a malformed pointer, naming
  the path the caller gave; a call on a malformed pointer is \<^verbatim>\<open>InvalidPointer\<close> and on
  an unregistered one \<^verbatim>\<open>PathNotFound\<close>, both without running anything and both
  reported to the client as \<^verbatim>\<open>MethodNotFound\<close>.
\<close>

theorem registry_rejections:
  "(register_function path f state = Inl e \<longleftrightarrow>
      e = RGE_InvalidPointer path
      \<and> (addresses_root (registration_pointer path)
          \<or> parse (registration_pointer path) = Inl MalformedPointer))
   \<and> (\<not> is_function p state \<longrightarrow>
      registry_call p params ctx state out w =
        (Inl (if parse p = Inl MalformedPointer then RGE_InvalidPointer p else RGE_PathNotFound p), out, w))
   \<and> registry_error_code (RGE_InvalidPointer p) = EC_MethodNotFound
   \<and> registry_error_code (RGE_PathNotFound p) = EC_MethodNotFound"
proof (intro conjI impI)
  show "register_function path f state = Inl e \<longleftrightarrow>
      e = RGE_InvalidPointer path
      \<and> (addresses_root (registration_pointer path)
          \<or> parse (registration_pointer path) = Inl MalformedPointer)"
    unfolding register_function_def registration_pointer_def [symmetric] Let_def
    using canonical_key_Inl_iff [of "registration_pointer path"]
    by (cases "canonical_key (registration_pointer path)") auto
  assume "\<not> is_function p state"
  then show "registry_call p params ctx state out w =
      (Inl (if parse p = Inl MalformedPointer then RGE_InvalidPointer p else RGE_PathNotFound p), out, w)"
    using canonical_key_Inl_iff [of p] canonical_key_tokens [of p]
    by (cases "canonical_key p") (auto simp: is_function_def registry_call_def)
qed simp_all

theorem registry_rejections_witness:
  "registry_call ''/a'' None (call_context_detached ''/a'') registry_empty (response_body_new []) (3 :: nat)
    = (Inl (RGE_PathNotFound ''/a''), response_body_new [], 3)"
proof -
  have "\<not> is_function ''/a'' (registry_empty :: nat Registry)"
    by (simp add: is_function_def registry_empty_def split: sum.split)
  moreover have "parse ''/a'' = Inr [''a'']"
    by (simp add: parse_def addresses_root_def starts_with_def unescape_token_def)
  ultimately show ?thesis
    using registry_rejections [of _ _ "registry_empty :: nat Registry" _ "''/a''" None
        "call_context_detached ''/a''" "response_body_new []" 3] by simp
qed

text \<open>
  Mount prefixes have one normal form: it is empty for the root, and otherwise
  starts with a slash and does not end with one; normalising again changes
  nothing, and neither a trailing slash nor a missing leading one makes a
  difference.
\<close>

theorem normalize_mount_normal:
  "(normalize_mount pre = []
      \<or> starts_with (normalize_mount pre) ''/'' \<and> last (normalize_mount pre) \<noteq> CHR ''/'')
   \<and> normalize_mount (normalize_mount pre) = normalize_mount pre
   \<and> normalize_mount (pre @ ''/'') = normalize_mount pre
   \<and> (if starts_with pre ''/'' then True else normalize_mount (''/'' @ pre) = normalize_mount pre)"
proof (intro conjI)
  show "normalize_mount pre = []
      \<or> starts_with (normalize_mount pre) ''/'' \<and> last (normalize_mount pre) \<noteq> CHR ''/''"
    by (rule normalize_mount_shape)
  show "normalize_mount (normalize_mount pre) = normalize_mount pre"
    using normalize_mount_shape [of pre] trim_end_matches_idle
    by (auto simp: normalize_mount_trim [of "normalize_mount pre"] registration_pointer_def)
  show "normalize_mount (pre @ ''/'') = normalize_mount pre"
  proof (cases pre)
    case (Cons c cs)
    then have "registration_pointer (pre @ ''/'') = registration_pointer pre @ ''/''"
      by (simp add: registration_pointer_def starts_with_def)
    with Cons show ?thesis by (simp add: normalize_mount_trim)
  qed (simp add: normalize_mount_def)
  show "if starts_with pre ''/'' then True else normalize_mount (''/'' @ pre) = normalize_mount pre"
    by (auto simp: normalize_mount_trim registration_pointer_def starts_with_iff trim_end_matches_def)
qed

end
