(* ===== verification/Handlers.thy ===== *)
theory Handlers
  imports Registry
begin

text \<open>
  Request handlers, the first part of \<^verbatim>\<open>src/server.rs\<close>: the trait
  \<^verbatim>\<open>HandlerErased\<close> as a record of its methods, middleware, the wrappers the router
  composes handlers with, and the built-in typed, registry and struct handlers. A
  handler acts on the state \<open>'w\<close> of the program around it. Locks and shared values
  are part of that state and are reached through arguments; closures registered by
  the embedder and the \<^verbatim>\<open>structio\<close> readers are arguments too.
\<close>

datatype Execution = Inline | OffReader

type_synonym ('w, 's) outcome = "('s RepeError + Message) \<times> 'w"

record ('w, 's) Handler =
  hd_handle :: "Message \<Rightarrow> 'w \<Rightarrow> ('w, 's) outcome"
  hd_handle_with_ctx :: "Message \<Rightarrow> CallContext \<Rightarrow> 'w \<Rightarrow> ('w, 's) outcome"
  hd_handle_view :: "MessageView \<Rightarrow> CallContext \<Rightarrow> 'w \<Rightarrow> ('w, 's) outcome"
  hd_execution :: Execution

text \<open>The trait's default methods, for a handler that gives \<^verbatim>\<open>handle\<close> only.\<close>

definition plain_handler :: "(Message \<Rightarrow> 'w \<Rightarrow> ('w, 's) outcome) \<Rightarrow> ('w, 's) Handler" where
  "plain_handler handle =
     \<lparr>hd_handle = handle,
      hd_handle_with_ctx = (\<lambda>req ctx. handle req),
      hd_handle_view = (\<lambda>view ctx. handle (to_message view)),
      hd_execution = Inline\<rparr>"

section \<open>Middleware\<close>

text \<open>
  What a middleware sees of \<^verbatim>\<open>Next\<close> is its \<^verbatim>\<open>run\<close> and its context.
\<close>

type_synonym ('w, 's) Middleware =
  "Message \<Rightarrow> (Message \<Rightarrow> 'w \<Rightarrow> ('w, 's) outcome) \<Rightarrow> CallContext option \<Rightarrow> 'w \<Rightarrow> ('w, 's) outcome"

fun next_run ::
    "('w, 's) Middleware list \<Rightarrow> ('w, 's) Handler \<Rightarrow> CallContext option \<Rightarrow> Message \<Rightarrow> 'w \<Rightarrow> ('w, 's) outcome" where
  "next_run (first # rest) handler ctx req w = first req (next_run rest handler ctx) ctx w"
| "next_run [] handler ctx req w =
     (case ctx of
        Some ctx \<Rightarrow> hd_handle_with_ctx handler req ctx w
      | None \<Rightarrow> hd_handle handler req w)"

definition middleware_pipeline ::
    "('w, 's) Middleware list \<Rightarrow> ('w, 's) Handler \<Rightarrow> ('w, 's) Handler" where
  "middleware_pipeline middlewares handler =
     \<lparr>hd_handle = (\<lambda>req. next_run middlewares handler None req),
      hd_handle_with_ctx = (\<lambda>req ctx. next_run middlewares handler (Some ctx) req),
      hd_handle_view = (\<lambda>view ctx. next_run middlewares handler (Some ctx) (to_message view)),
      hd_execution = hd_execution handler\<rparr>"

definition wrap_with_middlewares ::
    "('w, 's) Handler \<Rightarrow> ('w, 's) Middleware list \<Rightarrow> ('w, 's) Handler" where
  "wrap_with_middlewares handler middlewares =
     (if middlewares = [] then handler else middleware_pipeline middlewares handler)"

section \<open>Wrappers\<close>

definition off_reader :: "('w, 's) Handler \<Rightarrow> ('w, 's) Handler" where
  "off_reader h =
     \<lparr>hd_handle = hd_handle h, hd_handle_with_ctx = hd_handle_with_ctx h,
      hd_handle_view = hd_handle_view h, hd_execution = OffReader\<rparr>"

definition declined :: "'s RepeError + Message \<Rightarrow> bool" where
  "declined outcome =
     (case outcome of
        Inr response \<Rightarrow> h_ec (m_header response) = error_code_u32 EC_MethodNotFound
      | Inl err \<Rightarrow> to_error_code err = EC_MethodNotFound)"

definition or_fallback ::
    "('w \<Rightarrow> ('w, 's) outcome) \<Rightarrow> ('w \<Rightarrow> ('w, 's) outcome) \<Rightarrow> 'w \<Rightarrow> ('w, 's) outcome" where
  "or_fallback mount fallback w =
     (case mount w of
        (outcome, w) \<Rightarrow> if declined outcome then fallback w else (outcome, w))"

definition mount_fallthrough :: "('w, 's) Handler \<Rightarrow> ('w, 's) Handler \<Rightarrow> ('w, 's) Handler" where
  "mount_fallthrough mount fallback =
     \<lparr>hd_handle = (\<lambda>req. or_fallback (hd_handle mount req) (hd_handle fallback req)),
      hd_handle_with_ctx = (\<lambda>req ctx.
        or_fallback (hd_handle_with_ctx mount req ctx) (hd_handle_with_ctx fallback req ctx)),
      hd_handle_view = (\<lambda>view ctx.
        or_fallback (hd_handle_view mount view ctx) (hd_handle_view fallback view ctx)),
      hd_execution =
        (case (hd_execution mount, hd_execution fallback) of
           (Inline, Inline) \<Rightarrow> Inline
         | _ \<Rightarrow> OffReader)\<rparr>"

section \<open>Typed handlers\<close>

text \<open>
  The readers decode into a fresh value; the inner sum is the framed refusal of a
  body format the handler does not take.
\<close>

record ('t, 's) body_readers =
  br_invalid_utf8 :: "nat \<Rightarrow> 's"
  br_json :: "string \<Rightarrow> 's + 't"
  br_beve :: "bytes \<Rightarrow> 's + 't"

definition decode_typed_body ::
    "('t, 's) body_readers \<Rightarrow> bytes \<Rightarrow> u16 \<Rightarrow> Message \<Rightarrow> 's RepeError + (Message + 't)" where
  "decode_typed_body br body body_format bad_format =
     (case body_format_try_from body_format of
        Inr format \<Rightarrow>
          (if format = BF_Json \<or> format = BF_Utf8
           then res_bind (res_map_err (\<lambda>pos. RE_Json (br_invalid_utf8 br pos)) (from_utf8 body)) (\<lambda>text.
                res_bind (res_map_err RE_Json (br_json br text)) (\<lambda>v. Inr (Inr v)))
           else if format = BF_Beve
           then res_bind (res_map_err RE_Beve (br_beve br body)) (\<lambda>v. Inr (Inr v))
           else Inr (Inl bad_format))
      | Inl _ \<Rightarrow> Inr (Inl bad_format))"

definition decode_typed_param ::
    "('t, 's) body_readers \<Rightarrow> Message \<Rightarrow> 's RepeError + (Message + 't)" where
  "decode_typed_param br req =
     decode_typed_body br (m_body req) (h_body_format (m_header req))
       (create_error_response_like req EC_InvalidBody ''Expected JSON body'')"

definition decode_typed_param_view ::
    "('t, 's) body_readers \<Rightarrow> MessageView \<Rightarrow> 's RepeError + (Message + 't)" where
  "decode_typed_param_view br view =
     decode_typed_body br (v_body view) (h_body_format (v_header view))
       (create_error_response_unstamped_view view EC_InvalidBody ''Expected JSON body'')"

text \<open>\<open>f\<close> is the embedder's closure; its result comes with the body format to use.\<close>

definition typed_handle ::
    "('t, 's) body_readers \<Rightarrow> 'v servable_write \<Rightarrow> ('t \<Rightarrow> 'w \<Rightarrow> (call_error + 'v \<times> BodyFormat) \<times> 'w)
      \<Rightarrow> Message \<Rightarrow> 'w \<Rightarrow> ('w, 's) outcome" where
  "typed_handle br sw f req w =
     (case decode_typed_param br req of
        Inl e \<Rightarrow> (Inl e, w)
      | Inr (Inl err) \<Rightarrow> (Inr err, w)
      | Inr (Inr t) \<Rightarrow>
          (case f t w of
             (Inr (value, format), w) \<Rightarrow> (Inr (create_response_unstamped sw req value format), w)
           | (Inl (code, msg), w) \<Rightarrow> (Inr (create_error_response_like req code msg), w)))"

definition typed_handle_view ::
    "('t, 's) body_readers \<Rightarrow> 'v servable_write \<Rightarrow> ('t \<Rightarrow> 'w \<Rightarrow> (call_error + 'v \<times> BodyFormat) \<times> 'w)
      \<Rightarrow> MessageView \<Rightarrow> 'w \<Rightarrow> ('w, 's) outcome" where
  "typed_handle_view br sw f view w =
     (case decode_typed_param_view br view of
        Inl e \<Rightarrow> (Inl e, w)
      | Inr (Inl err) \<Rightarrow> (Inr err, w)
      | Inr (Inr t) \<Rightarrow>
          (case f t w of
             (Inr (value, format), w) \<Rightarrow> (Inr (create_response_unstamped_view sw view value format), w)
           | (Inl (code, msg), w) \<Rightarrow> (Inr (create_error_response_unstamped_view view code msg), w)))"

definition typed_handler ::
    "('t, 's) body_readers \<Rightarrow> 'v servable_write \<Rightarrow> ('t \<Rightarrow> 'w \<Rightarrow> (call_error + 'v \<times> BodyFormat) \<times> 'w)
      \<Rightarrow> ('w, 's) Handler" where
  "typed_handler br sw f =
     \<lparr>hd_handle = typed_handle br sw f,
      hd_handle_with_ctx = (\<lambda>req ctx. typed_handle br sw f req),
      hd_handle_view = (\<lambda>view ctx. typed_handle_view br sw f view),
      hd_execution = Inline\<rparr>"

definition query_or_empty :: "Message \<Rightarrow> string" where
  "query_or_empty req = (case query_str req of Inr path \<Rightarrow> path | Inl _ \<Rightarrow> [])"

definition typed_handler_ctx ::
    "('t, 's) body_readers \<Rightarrow> 'v servable_write
      \<Rightarrow> (CallContext \<Rightarrow> 't \<Rightarrow> 'w \<Rightarrow> (call_error + 'v \<times> BodyFormat) \<times> 'w) \<Rightarrow> ('w, 's) Handler" where
  "typed_handler_ctx br sw f =
     \<lparr>hd_handle = (\<lambda>req. typed_handle br sw (f (call_context_detached (query_or_empty req))) req),
      hd_handle_with_ctx = (\<lambda>req ctx. typed_handle br sw (f ctx) req),
      hd_handle_view = (\<lambda>view ctx. typed_handle br sw (f ctx) (to_message view)),
      hd_execution = Inline\<rparr>"

definition json_typed_adapter ::
    "('t, 's) body_readers \<Rightarrow> 'v servable_write \<Rightarrow> ('t \<Rightarrow> 'w \<Rightarrow> (call_error + 'v) \<times> 'w) \<Rightarrow> ('w, 's) Handler" where
  "json_typed_adapter br sw f =
     plain_handler (\<lambda>req w.
       case decode_typed_param br req of
         Inl e \<Rightarrow> (Inl e, w)
       | Inr (Inl err) \<Rightarrow> (Inr err, w)
       | Inr (Inr t) \<Rightarrow>
           (case f t w of
              (Inr r, w) \<Rightarrow> (Inr (create_response_unstamped sw req r BF_Json), w)
            | (Inl (code, msg), w) \<Rightarrow> (Inr (create_error_response_like req code msg), w)))"

section \<open>Bulk numeric handlers\<close>

text \<open>
  \<open>read_slice\<close> is the \<^verbatim>\<open>structio\<close> reader of a typed array, \<open>slice_ref\<close> its borrowing
  reader: whether a borrow is available depends on where the bytes lie in memory,
  so it may look at the state. A borrowed and an owned slice are the same list.
\<close>

definition expected_beve :: string where
  "expected_beve = ''Expected BEVE typed-numeric body''"

definition read_typed_slice :: "(bytes \<Rightarrow> 's + 't list) \<Rightarrow> bytes \<Rightarrow> 's RepeError + 't list" where
  "read_typed_slice read_slice body = res_map_err RE_Beve (read_slice body)"

definition decode_typed_slice_param ::
    "(bytes \<Rightarrow> 's + 't list) \<Rightarrow> Message \<Rightarrow> 's RepeError + (Message + 't list)" where
  "decode_typed_slice_param read_slice req =
     (if body_format_try_from (h_body_format (m_header req)) = Inr BF_Beve
      then res_bind (read_typed_slice read_slice (m_body req)) (\<lambda>v. Inr (Inr v))
      else Inr (Inl (create_error_response_like req EC_InvalidBody expected_beve)))"

definition decode_typed_slice_param_view ::
    "(bytes \<Rightarrow> 's + 't list) \<Rightarrow> MessageView \<Rightarrow> 's RepeError + (Message + 't list)" where
  "decode_typed_slice_param_view read_slice view =
     (if body_format_try_from (h_body_format (v_header view)) = Inr BF_Beve
      then res_bind (read_typed_slice read_slice (v_body view)) (\<lambda>v. Inr (Inr v))
      else Inr (Inl (create_error_response_unstamped_view view EC_InvalidBody expected_beve)))"

definition typed_slice_handle ::
    "(bytes \<Rightarrow> 's + 't list) \<Rightarrow> ('r list \<Rightarrow> bytes) \<Rightarrow> ('t list \<Rightarrow> 'w \<Rightarrow> (call_error + 'r list) \<times> 'w)
      \<Rightarrow> Message \<Rightarrow> 'w \<Rightarrow> ('w, 's) outcome" where
  "typed_slice_handle read_slice slice_to_beve f req w =
     (case decode_typed_slice_param read_slice req of
        Inl e \<Rightarrow> (Inl e, w)
      | Inr (Inl err) \<Rightarrow> (Inr err, w)
      | Inr (Inr xs) \<Rightarrow>
          (case f xs w of
             (Inr ys, w) \<Rightarrow> (Inr (create_typed_slice_response_unstamped slice_to_beve req ys), w)
           | (Inl (code, msg), w) \<Rightarrow> (Inr (create_error_response_like req code msg), w)))"

definition typed_slice_handle_view ::
    "(bytes \<Rightarrow> 's + 't list) \<Rightarrow> ('r list \<Rightarrow> bytes) \<Rightarrow> ('t list \<Rightarrow> 'w \<Rightarrow> (call_error + 'r list) \<times> 'w)
      \<Rightarrow> MessageView \<Rightarrow> 'w \<Rightarrow> ('w, 's) outcome" where
  "typed_slice_handle_view read_slice slice_to_beve f view w =
     (case decode_typed_slice_param_view read_slice view of
        Inl e \<Rightarrow> (Inl e, w)
      | Inr (Inl err) \<Rightarrow> (Inr err, w)
      | Inr (Inr xs) \<Rightarrow>
          (case f xs w of
             (Inr ys, w) \<Rightarrow> (Inr (create_typed_slice_response_unstamped_view slice_to_beve view ys), w)
           | (Inl (code, msg), w) \<Rightarrow> (Inr (create_error_response_unstamped_view view code msg), w)))"

definition typed_slice_handler ::
    "(bytes \<Rightarrow> 's + 't list) \<Rightarrow> ('r list \<Rightarrow> bytes) \<Rightarrow> ('t list \<Rightarrow> 'w \<Rightarrow> (call_error + 'r list) \<times> 'w)
      \<Rightarrow> ('w, 's) Handler" where
  "typed_slice_handler read_slice slice_to_beve f =
     \<lparr>hd_handle = typed_slice_handle read_slice slice_to_beve f,
      hd_handle_with_ctx = (\<lambda>req ctx. typed_slice_handle read_slice slice_to_beve f req),
      hd_handle_view = (\<lambda>view ctx. typed_slice_handle_view read_slice slice_to_beve f view),
      hd_execution = Inline\<rparr>"

definition decode_typed_slice_ref_body ::
    "(bytes \<Rightarrow> 't list option) \<Rightarrow> (bytes \<Rightarrow> 's + 't list) \<Rightarrow> bytes \<Rightarrow> 's RepeError + 't list" where
  "decode_typed_slice_ref_body slice_ref read_slice body =
     (case slice_ref body of
        Some xs \<Rightarrow> Inr xs
      | None \<Rightarrow> read_typed_slice read_slice body)"

definition decode_typed_slice_ref_param ::
    "(bytes \<Rightarrow> 't list option) \<Rightarrow> (bytes \<Rightarrow> 's + 't list) \<Rightarrow> u16 \<Rightarrow> bytes \<Rightarrow> Message
      \<Rightarrow> 's RepeError + (Message + 't list)" where
  "decode_typed_slice_ref_param slice_ref read_slice body_format body bad_format =
     (if body_format_try_from body_format = Inr BF_Beve
      then res_bind (decode_typed_slice_ref_body slice_ref read_slice body) (\<lambda>v. Inr (Inr v))
      else Inr (Inl bad_format))"

definition typed_slice_ref_handle ::
    "('w \<Rightarrow> bytes \<Rightarrow> 't list option) \<Rightarrow> (bytes \<Rightarrow> 's + 't list) \<Rightarrow> ('r list \<Rightarrow> bytes)
      \<Rightarrow> ('t list \<Rightarrow> 'w \<Rightarrow> (call_error + 'r list) \<times> 'w) \<Rightarrow> Message \<Rightarrow> 'w \<Rightarrow> ('w, 's) outcome" where
  "typed_slice_ref_handle slice_ref read_slice slice_to_beve f req w =
     (case decode_typed_slice_ref_param (slice_ref w) read_slice (h_body_format (m_header req)) (m_body req)
             (create_error_response_like req EC_InvalidBody expected_beve) of
        Inl e \<Rightarrow> (Inl e, w)
      | Inr (Inl err) \<Rightarrow> (Inr err, w)
      | Inr (Inr xs) \<Rightarrow>
          (case f xs w of
             (Inr ys, w) \<Rightarrow> (Inr (create_typed_slice_response_unstamped slice_to_beve req ys), w)
           | (Inl (code, msg), w) \<Rightarrow> (Inr (create_error_response_like req code msg), w)))"

definition typed_slice_ref_handle_view ::
    "('w \<Rightarrow> bytes \<Rightarrow> 't list option) \<Rightarrow> (bytes \<Rightarrow> 's + 't list) \<Rightarrow> ('r list \<Rightarrow> bytes)
      \<Rightarrow> ('t list \<Rightarrow> 'w \<Rightarrow> (call_error + 'r list) \<times> 'w) \<Rightarrow> MessageView \<Rightarrow> 'w \<Rightarrow> ('w, 's) outcome" where
  "typed_slice_ref_handle_view slice_ref read_slice slice_to_beve f view w =
     (case decode_typed_slice_ref_param (slice_ref w) read_slice (h_body_format (v_header view)) (v_body view)
             (create_error_response_unstamped_view view EC_InvalidBody expected_beve) of
        Inl e \<Rightarrow> (Inl e, w)
      | Inr (Inl err) \<Rightarrow> (Inr err, w)
      | Inr (Inr xs) \<Rightarrow>
          (case f xs w of
             (Inr ys, w) \<Rightarrow> (Inr (create_typed_slice_response_unstamped_view slice_to_beve view ys), w)
           | (Inl (code, msg), w) \<Rightarrow> (Inr (create_error_response_unstamped_view view code msg), w)))"

definition typed_slice_ref_handler ::
    "('w \<Rightarrow> bytes \<Rightarrow> 't list option) \<Rightarrow> (bytes \<Rightarrow> 's + 't list) \<Rightarrow> ('r list \<Rightarrow> bytes)
      \<Rightarrow> ('t list \<Rightarrow> 'w \<Rightarrow> (call_error + 'r list) \<times> 'w) \<Rightarrow> ('w, 's) Handler" where
  "typed_slice_ref_handler slice_ref read_slice slice_to_beve f =
     \<lparr>hd_handle = typed_slice_ref_handle slice_ref read_slice slice_to_beve f,
      hd_handle_with_ctx = (\<lambda>req ctx. typed_slice_ref_handle slice_ref read_slice slice_to_beve f req),
      hd_handle_view = (\<lambda>view ctx. typed_slice_ref_handle_view slice_ref read_slice slice_to_beve f view),
      hd_execution = Inline\<rparr>"

section \<open>Mounted registries\<close>

text \<open>
  A response buffer starts empty; the capacity it is given is not part of the
  model. \<open>registry\<close> reads the shared registry out of the state.
\<close>

definition response_buffer :: bytes where
  "response_buffer = []"

definition pointer_for :: "string \<Rightarrow> string \<Rightarrow> string option" where
  "pointer_for pre path =
     (if pre = [] then Some (if path = [] then ''/'' else path)
      else if path = pre then Some ''/''
      else (case strip_prefix path pre of
              None \<Rightarrow> None
            | Some rest \<Rightarrow> if starts_with rest ''/'' then Some rest else None))"

definition registry_dispatch ::
    "string \<Rightarrow> ('w \<Rightarrow> 'w Registry) \<Rightarrow> Message \<Rightarrow> CallContext \<Rightarrow> 'w \<Rightarrow> Message \<times> 'w" where
  "registry_dispatch pre registry req ctx w =
     (let path = query_or_empty req
      in case pointer_for pre path of
           None \<Rightarrow>
             (create_error_response_like req EC_MethodNotFound
                (''path is not below registry prefix: '' @ path), w)
         | Some pointer \<Rightarrow>
             (case body_of req of
                Inl err \<Rightarrow>
                  (create_error_response_like req (registry_error_code err) (registry_error_display err), w)
              | Inr params \<Rightarrow>
                  (let requested =
                         (case body_format_try_from (h_body_format (m_header req)) of
                            Inr format \<Rightarrow> format
                          | Inl _ \<Rightarrow> BF_Json);
                       out = response_body_with_format response_buffer requested
                   in case registry_call pointer params ctx (registry w) out w of
                        (Inr _, out, w) \<Rightarrow>
                          (create_body_response_unstamped req (rb_buf out) (rb_format out), w)
                      | (Inl err, out, w) \<Rightarrow>
                          (create_error_response_like req
                             (registry_error_code err) (registry_error_display err), w))))"

definition registered_registry :: "string \<Rightarrow> ('w \<Rightarrow> 'w Registry) \<Rightarrow> ('w, 's) Handler" where
  "registered_registry path_prefix registry =
     (let pre = normalize_mount path_prefix
      in \<lparr>hd_handle = (\<lambda>req w.
            case registry_dispatch pre registry req (call_context_detached (query_or_empty req)) w of
              (response, w) \<Rightarrow> (Inr response, w)),
          hd_handle_with_ctx = (\<lambda>req ctx w.
            case registry_dispatch pre registry req ctx w of (response, w) \<Rightarrow> (Inr response, w)),
          hd_handle_view = (\<lambda>view ctx w.
            case registry_dispatch pre registry (to_message view) ctx w of
              (response, w) \<Rightarrow> (Inr response, w)),
          hd_execution = Inline\<rparr>)"

section \<open>Locks\<close>

datatype LockError = LE_Poisoned string | LE_Other string

text \<open>
  A lock around a value held in the state: \<open>lk_lock\<close> and \<open>lk_read\<close> say whether the
  exclusive and the shared guard are granted, and \<open>lk_read\<close> is \<open>None\<close> for a lock
  that has no shared mode.
\<close>

record ('w, 't) Lockable =
  lk_lock :: "'w \<Rightarrow> LockError + unit"
  lk_read :: "'w \<Rightarrow> (LockError + unit) option"
  lk_get :: "'w \<Rightarrow> 't"
  lk_put :: "'t \<Rightarrow> 'w \<Rightarrow> 'w"

definition poison_check :: "bool \<Rightarrow> LockError + unit" where
  "poison_check poisoned =
     (if poisoned then Inl (LE_Poisoned ''poisoned lock: another task failed inside'') else Inr ())"

definition std_mutex :: "('w \<Rightarrow> bool) \<Rightarrow> ('w \<Rightarrow> 't) \<Rightarrow> ('t \<Rightarrow> 'w \<Rightarrow> 'w) \<Rightarrow> ('w, 't) Lockable" where
  "std_mutex poisoned get put =
     \<lparr>lk_lock = (\<lambda>w. poison_check (poisoned w)), lk_read = (\<lambda>w. None), lk_get = get, lk_put = put\<rparr>"

definition std_rwlock :: "('w \<Rightarrow> bool) \<Rightarrow> ('w \<Rightarrow> 't) \<Rightarrow> ('t \<Rightarrow> 'w \<Rightarrow> 'w) \<Rightarrow> ('w, 't) Lockable" where
  "std_rwlock poisoned get put =
     \<lparr>lk_lock = (\<lambda>w. poison_check (poisoned w)), lk_read = (\<lambda>w. Some (poison_check (poisoned w))),
      lk_get = get, lk_put = put\<rparr>"

definition tokio_mutex :: "('w \<Rightarrow> 't) \<Rightarrow> ('t \<Rightarrow> 'w \<Rightarrow> 'w) \<Rightarrow> ('w, 't) Lockable" where
  "tokio_mutex get put =
     \<lparr>lk_lock = (\<lambda>w. Inr ()), lk_read = (\<lambda>w. None), lk_get = get, lk_put = put\<rparr>"

definition tokio_rwlock :: "('w \<Rightarrow> 't) \<Rightarrow> ('t \<Rightarrow> 'w \<Rightarrow> 'w) \<Rightarrow> ('w, 't) Lockable" where
  "tokio_rwlock get put =
     \<lparr>lk_lock = (\<lambda>w. Inr ()), lk_read = (\<lambda>w. Some (Inr ())), lk_get = get, lk_put = put\<rparr>"

definition lock_error_response :: "Message \<Rightarrow> string \<Rightarrow> LockError \<Rightarrow> Message" where
  "lock_error_response req path err =
     create_error_response_like req EC_ParseError
       (case err of
          LE_Poisoned msg \<Rightarrow> ''struct handler `'' @ path @ ''` lock poisoned: '' @ msg
        | LE_Other msg \<Rightarrow> ''struct handler `'' @ path @ ''` lock error: '' @ msg)"

section \<open>Mounted structs\<close>

text \<open>
  The segment buffer of \<^verbatim>\<open>with_segments\<close>: the filled part of the stack array, and
  the vector it spills to.
\<close>

definition STACK_SEGS :: nat where
  "STACK_SEGS = 16"

fun push_segment :: "string \<Rightarrow> string list \<times> string list option \<Rightarrow> string list \<times> string list option" where
  "push_segment seg (stack, overflow) =
     (case overflow of
        Some v \<Rightarrow> (stack, Some (v @ [seg]))
      | None \<Rightarrow>
          if length stack < STACK_SEGS then (stack @ [seg], None)
          else (stack, Some (stack @ [seg])))"

definition with_segments :: "string \<Rightarrow> (string list \<Rightarrow> 'r) \<Rightarrow> MalformedPointer + 'r" where
  "with_segments relative f =
     (if CHR ''~'' \<in> set relative then res_bind (parse relative) (\<lambda>owned. Inr (f owned))
      else if relative = [] then Inr (f [])
      else if relative = ''/'' then Inr (f [[]])
      else let trimmed = (case strip_prefix relative ''/'' of Some rest \<Rightarrow> rest | None \<Rightarrow> relative)
           in case fold push_segment (split_on (CHR ''/'') trimmed) ([], None) of
                (stack, overflow) \<Rightarrow>
                  Inr (case overflow of Some v \<Rightarrow> f v | None \<Rightarrow> f stack))"

definition finish_struct_response ::
    "('s \<Rightarrow> string) \<Rightarrow> Message \<Rightarrow> bytes \<Rightarrow> BodyFormat \<Rightarrow> 's struct_result \<Rightarrow> Message" where
  "finish_struct_response ds req buf body_format result =
     (case result of
        Inr _ \<Rightarrow> create_body_response_unstamped req buf body_format
      | Inl err \<Rightarrow> create_error_response_like req (struct_error_code err) (struct_error_display ds err))"

definition dispatch_struct_segments ::
    "('s \<Rightarrow> string) \<Rightarrow> ('t, 's) RepeStruct \<Rightarrow> 't \<Rightarrow> string list \<Rightarrow> RequestBody option \<Rightarrow> BodyFormat
      \<Rightarrow> bytes \<Rightarrow> Message \<Rightarrow> Message \<times> 't" where
  "dispatch_struct_segments ds rs handler segments body requested buf req =
     (case rs_handle_into rs handler segments body (response_body_with_format buf requested) of
        (result, out, handler) \<Rightarrow>
          (finish_struct_response ds req (rb_buf out) (rb_format out) result, handler))"

definition shared_struct_segments ::
    "('s \<Rightarrow> string) \<Rightarrow> ('t, 's) RepeStruct \<Rightarrow> 't \<Rightarrow> string list \<Rightarrow> RequestBody option \<Rightarrow> BodyFormat
      \<Rightarrow> bytes \<Rightarrow> Message \<Rightarrow> Message option \<times> bytes" where
  "shared_struct_segments ds rs handler segments body requested buf req =
     (case rs_shared_into rs handler segments body (response_body_with_format buf requested) of
        (None, out) \<Rightarrow> (None, [])
      | (Some result, out) \<Rightarrow>
          (Some (finish_struct_response ds req (rb_buf out) (rb_format out) result), []))"

definition struct_root :: "string \<Rightarrow> string" where
  "struct_root root =
     (if root = [] \<or> root = ''/'' then []
      else if starts_with root ''/'' then root
      else ''/'' @ root)"

definition relative_pointer :: "string \<Rightarrow> string \<Rightarrow> string option" where
  "relative_pointer root path =
     (if root = [] then Some path
      else if path = root then Some []
      else if starts_with path root
      then let remainder = drop (length root) path
           in if starts_with remainder ''/'' then Some remainder else None
      else None)"

text \<open>The two attempts on the split pointer, the shared one first.\<close>

definition struct_attempts ::
    "('s \<Rightarrow> string) \<Rightarrow> ('t, 's) RepeStruct \<Rightarrow> ('w, 't) Lockable \<Rightarrow> string \<Rightarrow> BodyFormat
      \<Rightarrow> RequestBody option \<Rightarrow> Message \<Rightarrow> 'w \<Rightarrow> string list \<Rightarrow> Message \<times> 'w" where
  "struct_attempts ds rs lk path body_format body req w segments =
     (let exclusive = (\<lambda>buf.
            case lk_lock lk w of
              Inl err \<Rightarrow> (lock_error_response req path err, w)
            | Inr _ \<Rightarrow>
                (case dispatch_struct_segments ds rs (lk_get lk w) segments body body_format buf req of
                   (response, handler) \<Rightarrow> (response, lk_put lk handler w)))
      in if body = None \<or> rs_shared_serves_bodies rs
         then (case lk_read lk w of
                 Some (Inr _) \<Rightarrow>
                   (case shared_struct_segments ds rs (lk_get lk w) segments body body_format
                           response_buffer req of
                      (Some response, buf) \<Rightarrow> (response, w)
                    | (None, buf) \<Rightarrow> exclusive buf)
               | Some (Inl err) \<Rightarrow> (lock_error_response req path err, w)
               | None \<Rightarrow> exclusive response_buffer)
         else exclusive response_buffer)"

definition struct_handle ::
    "('s \<Rightarrow> string) \<Rightarrow> ('t, 's) RepeStruct \<Rightarrow> ('w, 't) Lockable \<Rightarrow> string
      \<Rightarrow> Message \<Rightarrow> 'w \<Rightarrow> ('w, 's) outcome" where
  "struct_handle ds rs lk root req w =
     (let path = query_or_empty req
      in case relative_pointer root path of
           None \<Rightarrow>
             (Inr (create_error_response_like req EC_MethodNotFound
                (''path is not below struct root: '' @ path)), w)
         | Some relative \<Rightarrow>
             (case (case body_format_try_from (h_body_format (m_header req)) of
                      Inr format \<Rightarrow>
                        if format = BF_Json \<or> format = BF_Utf8 \<or> format = BF_Beve then Some format
                        else if m_body req = [] then Some BF_Json
                        else None
                    | Inl _ \<Rightarrow> if m_body req = [] then Some BF_Json else None) of
                None \<Rightarrow>
                  (Inr (create_error_response_like req EC_InvalidBody
                     (''struct handler `'' @ path @ ''` requires JSON or BEVE body, got format ''
                        @ dec_str (unat (h_body_format (m_header req))))), w)
              | Some body_format \<Rightarrow>
                  (let body = (if m_body req = [] then None
                               else Some \<lparr>rq_bytes = m_body req, rq_format = body_format\<rparr>)
                   in case with_segments relative (struct_attempts ds rs lk path body_format body req w) of
                        Inr (response, w) \<Rightarrow> (Inr response, w)
                      | Inl _ \<Rightarrow>
                          (Inr (create_error_response_like req EC_MethodNotFound
                             (''malformed JSON Pointer: '' @ path)), w))))"

definition registered_struct ::
    "('s \<Rightarrow> string) \<Rightarrow> ('t, 's) RepeStruct \<Rightarrow> ('w, 't) Lockable \<Rightarrow> string \<Rightarrow> ('w, 's) Handler" where
  "registered_struct ds rs lk root = plain_handler (struct_handle ds rs lk (struct_root root))"

section \<open>Segments\<close>

lemma fold_push_segment_over:
  "fold push_segment segs (stack, Some v) = (stack, Some (v @ segs))"
  by (induction segs arbitrary: v) simp_all

lemma fold_push_segment:
  assumes "length stack \<le> STACK_SEGS"
  shows "(case fold push_segment segs (stack, None) of
            (stack', overflow) \<Rightarrow> (case overflow of Some v \<Rightarrow> f v | None \<Rightarrow> f stack')) = f (stack @ segs)"
  using assms
proof (induction segs arbitrary: stack)
  case (Cons seg segs)
  show ?case
  proof (cases "length stack < STACK_SEGS")
    case True
    with Cons.IH [of "stack @ [seg]"] show ?thesis by simp
  next
    case False
    then show ?thesis by (simp add: fold_push_segment_over)
  qed
qed simp

text \<open>The split itself, without the buffer.\<close>

definition pointer_segments :: "string \<Rightarrow> MalformedPointer + string list" where
  "pointer_segments relative =
     (if CHR ''~'' \<in> set relative then parse relative
      else if relative = [] then Inr []
      else Inr (split_on (CHR ''/'')
        (case strip_prefix relative ''/'' of Some rest \<Rightarrow> rest | None \<Rightarrow> relative)))"

lemma with_segments_split:
  "with_segments relative f = res_bind (pointer_segments relative) (\<lambda>segments. Inr (f segments))"
proof (cases "CHR ''~'' \<in> set relative \<or> relative = [] \<or> relative = ''/''")
  case True
  then show ?thesis
    by (auto simp: with_segments_def pointer_segments_def strip_prefix_def starts_with_def)
next
  case False
  let ?segs = "split_on (CHR ''/'')
    (case strip_prefix relative ''/'' of Some rest \<Rightarrow> rest | None \<Rightarrow> relative)"
  have "(case fold push_segment ?segs ([], None) of
           (stack, overflow) \<Rightarrow> (case overflow of Some v \<Rightarrow> f v | None \<Rightarrow> f stack)) = f ?segs"
    using fold_push_segment [of "[]" f ?segs] by simp
  with False show ?thesis
    by (simp add: with_segments_def pointer_segments_def Let_def split: prod.splits)
qed

lemma unescape_token_plain: "CHR ''~'' \<notin> set t \<Longrightarrow> unescape_token t = Inr t"
  by (simp add: unescape_token_def)

lemma set_split_on: "t \<in> set (split_on c s) \<Longrightarrow> set t \<subseteq> set s"
proof (induction s arbitrary: t)
  case (Cons a s)
  then show ?case by (fastforce split: if_splits list.splits)
qed simp

lemma collect_results_Inr: "(\<And>t. t \<in> set ts \<Longrightarrow> g t = Inr t) \<Longrightarrow> collect_results (map g ts) = Inr ts"
  by (induction ts) simp_all

lemma pointer_segments_parse:
  assumes "p = [] \<or> starts_with p ''/'' \<and> p \<noteq> ''/''"
  shows "pointer_segments p = parse p"
proof (cases "CHR ''~'' \<in> set p \<or> p = []")
  case True
  then show ?thesis by (auto simp: pointer_segments_def parse_def addresses_root_def)
next
  case False
  with assms obtain q where p: "p = CHR ''/'' # q" "q \<noteq> []" "CHR ''~'' \<notin> set q"
    by (cases p) (auto simp: starts_with_def)
  have "collect_results (map unescape_token (split_on (CHR ''/'') q)) = Inr (split_on (CHR ''/'') q)"
    using p(3) set_split_on by (intro collect_results_Inr unescape_token_plain) blast
  with p show ?thesis
    by (simp add: pointer_segments_def parse_def addresses_root_def strip_prefix_def starts_with_def)
qed

section \<open>Answers on the wire\<close>

text \<open>
  Two outcomes are the same on the wire when they are the same failure, or
  responses that agree once the request's query \<open>q\<close> has been echoed into them.
\<close>

fun same_answer :: "bytes \<Rightarrow> ('w, 's) outcome \<Rightarrow> ('w, 's) outcome \<Rightarrow> bool" where
  "same_answer q (Inr m, w) (Inr m', w') \<longleftrightarrow>
     stamp_response_query m q = stamp_response_query m' q \<and> w = w'"
| "same_answer q (Inl e, w) (Inl e', w') \<longleftrightarrow> e = e' \<and> w = w'"
| "same_answer q _ _ \<longleftrightarrow> False"

lemma same_answer_refl [simp, intro]: "same_answer q x x"
  by (cases x; cases "fst x") auto

lemma stamp_ec: "h_ec (m_header (stamp_response_query m q)) = h_ec (m_header m)"
  by (simp add: stamp_response_query_def Let_def)

lemma same_answer_declined:
  assumes "same_answer q x y"
  shows "declined (fst x) = declined (fst y)" and "snd x = snd y"
proof -
  show "declined (fst x) = declined (fst y)"
    using assms
    by (cases "(q, x, y)" rule: same_answer.cases) (auto simp: declined_def dest: arg_cong [of _ _ "\<lambda>m. h_ec (m_header m)"] simp: stamp_ec)
  show "snd x = snd y"
    using assms by (cases "(q, x, y)" rule: same_answer.cases) auto
qed

lemma or_fallback_same:
  assumes "same_answer q (mount w) (mount' w)" and "\<And>w. same_answer q (fb w) (fb' w)"
  shows "same_answer q (or_fallback mount fb w) (or_fallback mount' fb' w)"
proof -
  obtain o1 w1 where m1: "mount w = (o1, w1)" by (cases "mount w")
  obtain o2 w2 where m2: "mount' w = (o2, w2)" by (cases "mount' w")
  from assms(1) have "declined o1 = declined o2" "w1 = w2"
    using same_answer_declined [OF assms(1)] by (simp_all add: m1 m2)
  with assms show ?thesis by (simp add: or_fallback_def m1 m2)
qed

text \<open>
  A handler whose borrowing method gives the answer of its owning method. The
  server's carriers differ in which of the two they call.
\<close>

locale view_faithful =
  fixes h :: "('w, 's) Handler"
  assumes view_same:
    "same_answer (v_query view) (hd_handle_view h view ctx w) (hd_handle_with_ctx h (to_message view) ctx w)"
begin

lemma off_reader_faithful: "view_faithful (off_reader h)"
  by unfold_locales (simp add: off_reader_def view_same)

lemma fallthrough_faithful:
  assumes "view_faithful fb"
  shows "view_faithful (mount_fallthrough h fb)"
proof -
  have fb: "same_answer (v_query view) (hd_handle_view fb view ctx w)
      (hd_handle_with_ctx fb (to_message view) ctx w)" for view ctx w
    using assms by (simp add: view_faithful_def)
  show ?thesis
    by unfold_locales (simp add: mount_fallthrough_def or_fallback_same view_same fb)
qed

lemma wrapped_faithful: "view_faithful (wrap_with_middlewares h mws)"
  by unfold_locales (simp add: wrap_with_middlewares_def middleware_pipeline_def view_same)

end

lemma stamped_error_like:
  "stamp_response_query (create_error_response_unstamped_view view code msg) (v_query view)
     = create_error_response_like (to_message view) code msg"
  by (simp add: create_error_response_like_def create_error_message_build create_error_unstamped_build
      to_message_def stamp_build response_echo_query_def builder_defs)

lemma stamp_own_query: "m_query m = q \<Longrightarrow> stamp_response_query m q = m"
  by (auto simp: stamp_response_query_def)

lemma error_like_query [simp]: "m_query (create_error_response_like req code msg) = m_query req"
  by (simp add: create_error_response_like_def create_error_message_build builder_defs)

lemma error_like_same [simp]:
  "stamp_response_query (create_error_response_unstamped_view view code msg) (v_query view)
     = stamp_response_query (create_error_response_like (to_message view) code msg) (v_query view)"
  by (simp add: stamped_error_like stamp_own_query to_message_def)

lemma view_message [simp]:
  "m_header (to_message view) = v_header view" "m_body (to_message view) = v_body view"
  "m_query (to_message view) = v_query view"
  by (simp_all add: to_message_def)

lemma response_view_eq [simp]:
  "create_response_unstamped_view sw view v f = create_response_unstamped sw (to_message view) v f"
  "create_typed_slice_response_unstamped_view enc view xs
     = create_typed_slice_response_unstamped enc (to_message view) xs"
  by (simp_all add: create_response_unstamped_view_def create_response_unstamped_def
      create_typed_slice_response_unstamped_view_def create_typed_slice_response_unstamped_def)

interpretation plain_faithful: view_faithful "plain_handler f" for f
  by unfold_locales (simp add: plain_handler_def)

interpretation typed_faithful: view_faithful "typed_handler br sw f" for br sw f
  by unfold_locales
    (auto simp: typed_handler_def typed_handle_def typed_handle_view_def decode_typed_param_def
      decode_typed_param_view_def decode_typed_body_def res_bind_case split: sum.splits prod.splits)

interpretation typed_ctx_faithful: view_faithful "typed_handler_ctx br sw f" for br sw f
  by unfold_locales (simp add: typed_handler_ctx_def)

interpretation typed_slice_faithful: view_faithful "typed_slice_handler rd enc f" for rd enc f
  by unfold_locales
    (auto simp: typed_slice_handler_def typed_slice_handle_def typed_slice_handle_view_def
      decode_typed_slice_param_def decode_typed_slice_param_view_def res_bind_case
      split: sum.splits prod.splits)

interpretation typed_slice_ref_faithful: view_faithful "typed_slice_ref_handler sr rd enc f" for sr rd enc f
  by unfold_locales
    (auto simp: typed_slice_ref_handler_def typed_slice_ref_handle_def typed_slice_ref_handle_view_def
      decode_typed_slice_ref_param_def res_bind_case split: sum.splits prod.splits)

interpretation registry_faithful: view_faithful "registered_registry pre registry" for pre registry
  by unfold_locales (simp add: registered_registry_def Let_def)

interpretation struct_faithful: view_faithful "registered_struct ds rs lk root" for ds rs lk root
  by unfold_locales (simp add: registered_struct_def plain_handler_def)

section \<open>Middleware chains and bulk handlers\<close>

lemma next_run_append:
  "next_run (outer @ inner) h ctx req w = next_run outer (middleware_pipeline inner h) ctx req w"
proof (induction outer arbitrary: req w)
  case Nil
  then show ?case by (simp add: middleware_pipeline_def split: option.splits)
next
  case (Cons mw outer)
  then have "next_run (outer @ inner) h ctx = next_run outer (middleware_pipeline inner h) ctx"
    by (intro ext) simp
  then show ?case by simp
qed

lemma slice_ref_body:
  assumes "\<And>body xs. slice_ref body = Some xs \<Longrightarrow> read_slice body = Inr xs"
  shows "decode_typed_slice_ref_body slice_ref read_slice body = read_typed_slice read_slice body"
  using assms by (auto simp: decode_typed_slice_ref_body_def read_typed_slice_def split: option.splits)

section \<open>Locks and the two attempts\<close>

lemma struct_attempts_exclusive:
  assumes "shared_dispatch rs" and "put (get w) w = w"
  shows "struct_attempts ds rs (std_rwlock poisoned get put) path format body req w segments
    = struct_attempts ds rs (std_mutex poisoned get put) path format body req w segments"
proof (cases "poisoned w \<or> \<not> (body = None \<or> rs_shared_serves_bodies rs)")
  case True
  then show ?thesis
    by (auto simp: struct_attempts_def std_rwlock_def std_mutex_def poison_check_def)
next
  case False
  obtain shared out where sh: "rs_shared_into rs (get w) segments body
      (response_body_with_format response_buffer format) = (shared, out)"
    by (cases "rs_shared_into rs (get w) segments body (response_body_with_format response_buffer format)")
  show ?thesis
  proof (cases shared)
    case None
    with False sh show ?thesis
      by (auto simp: struct_attempts_def std_rwlock_def std_mutex_def poison_check_def
          shared_struct_segments_def response_buffer_def)
  next
    case (Some result)
    with sh have "rs_handle_into rs (get w) segments body
        (response_body_with_format response_buffer format) = (result, out, get w)"
      using shared_dispatch.answers_identically [OF assms(1)] by blast
    with Some False sh assms(2) show ?thesis
      by (auto simp: struct_attempts_def std_rwlock_def std_mutex_def poison_check_def
          shared_struct_segments_def dispatch_struct_segments_def)
  qed
qed

section \<open>Properties\<close>

text \<open>
  The escape-free fast path of \<^verbatim>\<open>with_segments\<close>, with its sixteen-slot stack
  buffer and its spill vector, dispatches on the segments that
  \<^verbatim>\<open>json_pointer::parse\<close> gives, at any depth, and rejects the same malformed
  escapes. The one absolute pointer on which the two disagree is \<^verbatim>\<open>"/"\<close>, which
  \<^verbatim>\<open>parse\<close> reads as the root and \<^verbatim>\<open>with_segments\<close> as one empty segment.
\<close>

theorem with_segments_agrees:
  "(p = [] \<or> starts_with p ''/'' \<and> p \<noteq> ''/'' \<longrightarrow>
      with_segments p f = res_bind (parse p) (\<lambda>segments. Inr (f segments)))
   \<and> with_segments ''/'' f = Inr (f [[]]) \<and> parse ''/'' = Inr []"
  using pointer_segments_parse [of p]
  by (simp add: with_segments_split [of p]) (simp add: with_segments_def parse_def addresses_root_def)

theorem with_segments_agrees_witness:
  "with_segments ''/a/b'' length = Inr 2"
proof -
  have "parse ''/a/b'' = Inr [''a'', ''b'']"
    by (simp add: parse_def addresses_root_def starts_with_def unescape_token_def)
  then show ?thesis
    using with_segments_agrees [of "''/a/b''" length] by (simp add: starts_with_def)
qed

text \<open>
  Registering a struct behind an \<^verbatim>\<open>RwLock\<close> instead of a \<^verbatim>\<open>Mutex\<close> changes no
  answer and no state: for a struct that keeps the contract of
  \<^verbatim>\<open>repe_shared_into\<close>, the shared attempt with its fallback to the exclusive guard
  gives the response of the exclusive dispatch alone, on every request, whether or
  not the lock is poisoned.
\<close>

theorem rwlock_mutex_agree:
  assumes "shared_dispatch rs" and "put (get w) w = w"
  shows "hd_handle (registered_struct ds rs (std_rwlock poisoned get put) root) req w
    = hd_handle (registered_struct ds rs (std_mutex poisoned get put) root) req w"
proof -
  have "struct_attempts ds rs (std_rwlock poisoned get put) path format body req w
      = struct_attempts ds rs (std_mutex poisoned get put) path format body req w" for path format body
    by (intro ext struct_attempts_exclusive) (fact assms)+
  then show ?thesis
    by (simp add: registered_struct_def plain_handler_def struct_handle_def Let_def
        split: option.splits sum.splits)
qed

definition example_struct :: "(nat, unit) RepeStruct" where
  "example_struct =
     \<lparr>rs_handle_into = (\<lambda>t segments body out. (Inr (), out\<lparr>rb_buf := rb_buf out @ [of_nat t]\<rparr>, t)),
      rs_shared_into = (\<lambda>t segments body out.
        (Some (Inr ()), out\<lparr>rb_buf := rb_buf out @ [of_nat t]\<rparr>)),
      rs_listing_declines = (\<lambda>t. False),
      rs_shared_serves_bodies = True\<rparr>"

interpretation example_served: shared_dispatch example_struct
  by unfold_locales (auto simp: example_struct_def)

theorem rwlock_mutex_agree_witness:
  "hd_handle (registered_struct (\<lambda>_. []) example_struct
      (std_rwlock (\<lambda>_. False) (\<lambda>w. w) (\<lambda>t w. t)) ''/n'') (build (with_query_str ''/n/x'' builder)) 7
   = hd_handle (registered_struct (\<lambda>_. []) example_struct
      (std_mutex (\<lambda>_. False) (\<lambda>w. w) (\<lambda>t w. t)) ''/n'') (build (with_query_str ''/n/x'' builder)) 7"
  by (rule rwlock_mutex_agree [OF example_served.shared_dispatch_axioms]) simp

text \<open>
  A request a mounted struct refuses touches neither the lock nor the struct:
  a path outside the mount and a malformed pointer are answered
  \<^verbatim>\<open>MethodNotFound\<close>, a non-empty body in another format than JSON, UTF-8 or BEVE
  \<^verbatim>\<open>InvalidBody\<close>, and the state is left as it was.
\<close>

theorem struct_refusals:
  assumes "relative_pointer (struct_root root) (query_or_empty req) = None \<and> code = EC_MethodNotFound
    \<or> (\<exists>p. relative_pointer (struct_root root) (query_or_empty req) = Some p
        \<and> (body_format_try_from (h_body_format (m_header req)) \<in> {Inr BF_Json, Inr BF_Utf8, Inr BF_Beve}
            \<and> pointer_segments p = Inl MalformedPointer \<and> code = EC_MethodNotFound
          \<or> body_format_try_from (h_body_format (m_header req)) \<notin> {Inr BF_Json, Inr BF_Utf8, Inr BF_Beve}
            \<and> m_body req \<noteq> [] \<and> code = EC_InvalidBody))"
  shows "\<exists>msg. hd_handle (registered_struct ds rs lk root) req w
    = (Inr (create_error_response_like req code msg), w)"
  using assms
  by (auto simp: registered_struct_def plain_handler_def struct_handle_def Let_def with_segments_split
      split: sum.splits if_splits)

theorem struct_refusals_witness:
  "\<exists>msg. hd_handle (registered_struct (\<lambda>_. []) example_struct
      (std_mutex (\<lambda>_. True) (\<lambda>w. w) (\<lambda>t w. t)) ''/n'') (build (with_query_str ''/m'' builder)) 7
   = (Inr (create_error_response_like (build (with_query_str ''/m'' builder)) EC_MethodNotFound msg), 7)"
proof -
  let ?req = "build (with_query_str ''/m'' builder)"
  have q: "query_or_empty ?req = ''/m''"
    by (simp add: query_or_empty_def query_str_def builder_defs) code_simp
  have "relative_pointer (struct_root ''/n'') (query_or_empty ?req) = None"
    by (simp add: q relative_pointer_def struct_root_def starts_with_def)
  then show ?thesis using struct_refusals [of "''/n''" ?req EC_MethodNotFound] by simp
qed

text \<open>
  The borrowing bulk handler is a drop-in for the owning one: when the
  borrowing reader only returns what the owning reader would have read, both
  routes give the same response to every request, on the owned and on the borrowed
  path, wherever the body lies in memory.
\<close>

theorem slice_ref_drop_in:
  assumes "\<And>w body xs. slice_ref w body = Some xs \<Longrightarrow> read_slice body = Inr xs"
  shows "typed_slice_ref_handler slice_ref read_slice slice_to_beve f
    = typed_slice_handler read_slice slice_to_beve f"
proof -
  have "decode_typed_slice_ref_body (slice_ref w) read_slice = read_typed_slice read_slice" for w
    using slice_ref_body assms by (intro ext) blast
  then show ?thesis
    by (simp add: typed_slice_ref_handler_def typed_slice_handler_def typed_slice_ref_handle_def [abs_def]
        typed_slice_handle_def [abs_def] typed_slice_ref_handle_view_def [abs_def]
        typed_slice_handle_view_def [abs_def] decode_typed_slice_ref_param_def decode_typed_slice_param_def
        decode_typed_slice_param_view_def cong: if_cong)
qed

theorem slice_ref_drop_in_witness:
  "typed_slice_ref_handler (\<lambda>(w :: nat) body. if even w then Some body else None) (Inr :: bytes \<Rightarrow> unit + bytes)
      (\<lambda>ys. ys) (\<lambda>xs w. (Inr (rev xs), w))
   = typed_slice_handler Inr (\<lambda>ys. ys) (\<lambda>xs w. (Inr (rev xs), w))"
  by (rule slice_ref_drop_in) (simp split: if_splits)

end
