(* ===== verification/Router.thy ===== *)
theory Router
  imports Handlers Framing_IO
begin

text \<open>
  The router and the servers built on it: \<^verbatim>\<open>Router\<close>, \<^verbatim>\<open>Router::call\<close> and the TCP
  connection loop of \<^verbatim>\<open>src/server.rs\<close>, and request validation and dispatch in
  \<^verbatim>\<open>src/server_request.rs\<close>. An entry keeps the handler as registered and the form
  it is dispatched in; the second is rebuilt whenever one of its inputs changes.
  \<open>show_err\<close> is the \<^verbatim>\<open>Display\<close> of \<^verbatim>\<open>RepeError\<close>.
\<close>

section \<open>The router\<close>

record ('w, 's) RouterMapEntry =
  en_raw :: "('w, 's) Handler"
  en_dispatched :: "('w, 's) Handler"

record ('w, 's) RegistryEntry =
  re_prefix :: string
  re_raw :: "('w, 's) Handler"
  re_dispatched :: "('w, 's) Handler"

record ('w, 's) StructEntry =
  se_root :: string
  se_raw :: "('w, 's) Handler"
  se_dispatched :: "('w, 's) Handler"

definition mount_matches :: "string \<Rightarrow> string \<Rightarrow> bool" where
  "mount_matches pre path =
     (if pre = [] then True
      else if path = pre then True
      else (case strip_prefix path pre of Some rest \<Rightarrow> starts_with rest ''/'' | None \<Rightarrow> False))"

definition registry_entry_matches :: "('w, 's) RegistryEntry \<Rightarrow> string \<Rightarrow> bool" where
  "registry_entry_matches entry path = mount_matches (re_prefix entry) path"

definition struct_entry_matches :: "('w, 's) StructEntry \<Rightarrow> string \<Rightarrow> bool" where
  "struct_entry_matches entry path = mount_matches (se_root entry) path"

record ('w, 's) Router =
  r_inner :: "string \<rightharpoonup> ('w, 's) RouterMapEntry"
  r_structs :: "('w, 's) StructEntry list"
  r_registries :: "('w, 's) RegistryEntry list"
  r_fallback :: "('w, 's) RouterMapEntry option"
  r_middlewares :: "('w, 's) Middleware list"
  r_mount_fallthrough :: bool

definition router_new :: "('w, 's) Router" where
  "router_new =
     \<lparr>r_inner = Map.empty, r_structs = [], r_registries = [], r_fallback = None,
      r_middlewares = [], r_mount_fallthrough = False\<rparr>"

definition mount_dispatched :: "('w, 's) Router \<Rightarrow> ('w, 's) Handler \<Rightarrow> ('w, 's) Handler" where
  "mount_dispatched r raw =
     (let composed =
            (case (r_mount_fallthrough r, r_fallback r) of
               (True, Some fallback) \<Rightarrow> mount_fallthrough raw (en_raw fallback)
             | _ \<Rightarrow> raw)
      in wrap_with_middlewares composed (r_middlewares r))"

definition rebuild_mount_dispatch :: "('w, 's) Router \<Rightarrow> ('w, 's) Router" where
  "rebuild_mount_dispatch r =
     (let r = r\<lparr>r_registries :=
            map (\<lambda>entry. entry\<lparr>re_dispatched := mount_dispatched r (re_raw entry)\<rparr>) (r_registries r)\<rparr>
      in r\<lparr>r_structs :=
            map (\<lambda>entry. entry\<lparr>se_dispatched := mount_dispatched r (se_raw entry)\<rparr>) (r_structs r)\<rparr>)"

definition insert_route :: "string \<Rightarrow> ('w, 's) Handler \<Rightarrow> ('w, 's) Router \<Rightarrow> ('w, 's) Router" where
  "insert_route path raw r =
     (let dispatched = wrap_with_middlewares raw (r_middlewares r)
      in r\<lparr>r_inner := (r_inner r)(path \<mapsto> \<lparr>en_raw = raw, en_dispatched = dispatched\<rparr>)\<rparr>)"

definition with_erased_handler :: "string \<Rightarrow> ('w, 's) Handler \<Rightarrow> ('w, 's) Router \<Rightarrow> ('w, 's) Router" where
  "with_erased_handler path handler r = insert_route path handler r"

definition register_fallback :: "('w, 's) Handler \<Rightarrow> ('w, 's) Router \<Rightarrow> ('w, 's) Router" where
  "register_fallback handler r =
     (let dispatched = wrap_with_middlewares handler (r_middlewares r)
      in rebuild_mount_dispatch (r\<lparr>r_fallback := Some \<lparr>en_raw = handler, en_dispatched = dispatched\<rparr>\<rparr>))"

definition register_fallback_blocking :: "('w, 's) Handler \<Rightarrow> ('w, 's) Router \<Rightarrow> ('w, 's) Router" where
  "register_fallback_blocking handler r = register_fallback (off_reader handler) r"

definition set_mount_fallthrough :: "bool \<Rightarrow> ('w, 's) Router \<Rightarrow> ('w, 's) Router" where
  "set_mount_fallthrough enabled r =
     (if r_mount_fallthrough r = enabled then r
      else rebuild_mount_dispatch (r\<lparr>r_mount_fallthrough := enabled\<rparr>))"

definition register_middleware :: "('w, 's) Middleware \<Rightarrow> ('w, 's) Router \<Rightarrow> ('w, 's) Router" where
  "register_middleware middleware r =
     (let r = r\<lparr>r_middlewares := r_middlewares r @ [middleware]\<rparr>;
          rebuild = (\<lambda>entry. entry\<lparr>en_dispatched := wrap_with_middlewares (en_raw entry) (r_middlewares r)\<rparr>);
          r = r\<lparr>r_inner := (\<lambda>path. map_option rebuild (r_inner r path))\<rparr>;
          r = r\<lparr>r_fallback := map_option rebuild (r_fallback r)\<rparr>
      in rebuild_mount_dispatch r)"

definition with_typed where
  "with_typed path br sw f r = insert_route path (typed_handler br sw f) r"

definition with_typed_slice where
  "with_typed_slice path rd enc f r = insert_route path (typed_slice_handler rd enc f) r"

definition with_typed_slice_ref where
  "with_typed_slice_ref path slice_ref rd enc f r =
     insert_route path (typed_slice_ref_handler slice_ref rd enc f) r"

definition with_typed_ctx where
  "with_typed_ctx path br sw f r = insert_route path (typed_handler_ctx br sw f) r"

definition with_typed_blocking where
  "with_typed_blocking path br sw f r = insert_route path (off_reader (typed_handler br sw f)) r"

definition with_typed_ctx_blocking where
  "with_typed_ctx_blocking path br sw f r = insert_route path (off_reader (typed_handler_ctx br sw f)) r"

definition with_handler where
  "with_handler path br sw f r = insert_route path (json_typed_adapter br sw f) r"

text \<open>The two registrars of mounts, on the erased handler they build.\<close>

definition push_struct :: "string \<Rightarrow> ('w, 's) Handler \<Rightarrow> ('w, 's) Router \<Rightarrow> ('w, 's) Router" where
  "push_struct root raw r =
     r\<lparr>r_structs := r_structs r @
         [\<lparr>se_root = root, se_raw = raw, se_dispatched = mount_dispatched r raw\<rparr>]\<rparr>"

definition push_registry :: "string \<Rightarrow> ('w, 's) Handler \<Rightarrow> ('w, 's) Router \<Rightarrow> ('w, 's) Router" where
  "push_registry pre raw r =
     r\<lparr>r_registries := r_registries r @
         [\<lparr>re_prefix = pre, re_raw = raw, re_dispatched = mount_dispatched r raw\<rparr>]\<rparr>"

definition register_struct_shared ::
    "('s \<Rightarrow> string) \<Rightarrow> ('t, 's) RepeStruct \<Rightarrow> string \<Rightarrow> ('w, 't) Lockable \<Rightarrow> ('w, 's) Router
      \<Rightarrow> ('w, 's) Router" where
  "register_struct_shared ds rs root lk r =
     push_struct (struct_root root) (registered_struct ds rs lk root) r"

definition register_registry ::
    "string \<Rightarrow> ('w \<Rightarrow> 'w Registry) \<Rightarrow> ('w, 's) Router \<Rightarrow> ('w, 's) Router" where
  "register_registry path_prefix registry r =
     push_registry (normalize_mount path_prefix) (registered_registry path_prefix registry) r"

definition router_get :: "('w, 's) Router \<Rightarrow> string \<Rightarrow> ('w, 's) Handler option" where
  "router_get r path =
     (case r_inner r path of
        Some entry \<Rightarrow> Some (en_dispatched entry)
      | None \<Rightarrow>
          (case find (\<lambda>entry. registry_entry_matches entry path) (r_registries r) of
             Some entry \<Rightarrow> Some (re_dispatched entry)
           | None \<Rightarrow>
               (case find (\<lambda>entry. struct_entry_matches entry path) (r_structs r) of
                  Some entry \<Rightarrow> Some (se_dispatched entry)
                | None \<Rightarrow> map_option en_dispatched (r_fallback r))))"

section \<open>Validating and dispatching a request\<close>

datatype ('w, 's) RouteOutcome =
    RO_Dispatch "('w, 's) Handler" bool string
  | RO_Reject bool ErrorCode string

definition route :: "('w, 's) Router \<Rightarrow> Header \<Rightarrow> bytes \<Rightarrow> ('w, 's) RouteOutcome" where
  "route r header query =
     (let notify = h_notify header = 1
      in if h_version header \<noteq> REPE_VERSION
         then RO_Reject notify EC_VersionMismatch
                (''Unsupported REPE version '' @ dec_str (unat (h_version header)))
         else
           (case (case query_format_try_from (h_query_format header) of
                    Inr qf \<Rightarrow> qf
                  | Inl _ \<Rightarrow> QF_RawBinary) of
              QF_JsonPointer \<Rightarrow>
                (case from_utf8 query of
                   Inl _ \<Rightarrow> RO_Reject notify EC_InvalidQuery ''Query must be valid UTF-8''
                 | Inr path \<Rightarrow>
                     (case router_get r path of
                        Some handler \<Rightarrow> RO_Dispatch handler notify path
                      | None \<Rightarrow> RO_Reject notify EC_MethodNotFound (''Method not found: '' @ path)))
            | QF_RawBinary \<Rightarrow>
                RO_Reject notify EC_InvalidQuery ''Raw binary queries are not supported by this server''))"

definition dispatch_view ::
    "('s RepeError \<Rightarrow> string) \<Rightarrow> ('w, 's) Handler \<Rightarrow> MessageView \<Rightarrow> CallContext \<Rightarrow> bool \<Rightarrow> 'w
      \<Rightarrow> Message option \<times> 'w" where
  "dispatch_view show_err handler view ctx notify w =
     (case hd_handle_view handler view ctx w of
        (outcome, w) \<Rightarrow>
          if notify then (None, w)
          else (Some (case outcome of
                  Inr message \<Rightarrow> message
                | Inl err \<Rightarrow> create_error_response_unstamped_view view (to_error_code err) (show_err err)), w))"

definition dispatch ::
    "('s RepeError \<Rightarrow> string) \<Rightarrow> ('w, 's) Handler \<Rightarrow> Message \<Rightarrow> CallContext \<Rightarrow> bool \<Rightarrow> 'w
      \<Rightarrow> Message option \<times> 'w" where
  "dispatch show_err handler req ctx notify w =
     (case hd_handle_with_ctx handler req ctx w of
        (outcome, w) \<Rightarrow>
          if notify then (None, w)
          else (Some (case outcome of
                  Inr message \<Rightarrow> message
                | Inl err \<Rightarrow> create_error_response_like req (to_error_code err) (show_err err)), w))"

definition route_request_view ::
    "('s RepeError \<Rightarrow> string) \<Rightarrow> ('w, 's) Router \<Rightarrow> MessageView \<Rightarrow> 'w \<Rightarrow> Message option \<times> 'w" where
  "route_request_view show_err r view w =
     (case route r (v_header view) (v_query view) of
        RO_Dispatch handler notify path \<Rightarrow>
          dispatch_view show_err handler view (call_context_detached path) notify w
      | RO_Reject notify code message \<Rightarrow>
          (if notify then None else Some (create_error_response_unstamped_view view code message), w))"

definition write_view_response ::
    "(bytes \<Rightarrow> ('o, io_error, unit) io) \<Rightarrow> Message \<Rightarrow> bytes \<Rightarrow> ('o, 's RepeError, unit) io" where
  "write_view_response write_all response query =
     (let echo = response_echo_query response query
      in write_message_streaming write_all (m_header response) echo
           (of_nat (length (m_body response))) (io_from (write_all (m_body response))))"

definition message_write_to ::
    "(bytes \<Rightarrow> ('o, io_error, unit) io) \<Rightarrow> Message \<Rightarrow> ('o, io_error, unit) io" where
  "message_write_to write_all m =
     io_bind (write_all (header_encode (m_header m))) (\<lambda>_.
     io_bind (if m_query m \<noteq> [] then write_all (m_query m) else io_result (Inr ())) (\<lambda>_.
     io_bind (if m_body m \<noteq> [] then write_all (m_body m) else io_result (Inr ())) (\<lambda>_.
     io_result (Inr ()))))"

text \<open>
  \<^verbatim>\<open>Router::call_into\<close>: whether a response was written, the buffer, and the state;
  \<open>None\<close> is the panic of one of its \<^verbatim>\<open>expect\<close>s.
\<close>

definition call_into ::
    "nat \<Rightarrow> ('s RepeError \<Rightarrow> string) \<Rightarrow> ('w, 's) Router \<Rightarrow> bytes \<Rightarrow> bytes \<Rightarrow> 'w
      \<Rightarrow> (bool \<times> bytes \<times> 'w) option" where
  "call_into usize_max show_err r request out w =
     (let out = []
      in case view_from_slice_exact usize_max request of
           Inr view \<Rightarrow>
             (case route_request_view show_err r view w of
                (None, w) \<Rightarrow> Some (False, out, w)
              | (Some response, w) \<Rightarrow>
                  (case write_view_response vec_write_all response (v_query view) out
                          :: (('s RepeError + unit) \<times> bytes) option of
                     Some (Inr _, out) \<Rightarrow> Some (True, out, w)
                   | _ \<Rightarrow> None))
         | Inl err \<Rightarrow>
             (case message_write_to vec_write_all
                     (create_error_message (to_error_code err) (show_err err)) out of
                Some (Inr _, out) \<Rightarrow> Some (True, out, w)
              | _ \<Rightarrow> None))"

definition router_call ::
    "nat \<Rightarrow> ('s RepeError \<Rightarrow> string) \<Rightarrow> ('w, 's) Router \<Rightarrow> bytes \<Rightarrow> 'w \<Rightarrow> (bytes option \<times> 'w) option" where
  "router_call usize_max show_err r request w =
     (case call_into usize_max show_err r request [] w of
        None \<Rightarrow> None
      | Some (responded, out, w) \<Rightarrow> Some (if responded then Some out else None, w))"

section \<open>A TCP connection\<close>

text \<open>
  The loop of \<^verbatim>\<open>handle_connection\<close> over the values it reads from the \<^verbatim>\<open>running\<close>
  flag; it stops when they are used up. \<open>rd\<close> is the buffered reader, \<open>write_all\<close>
  and \<open>flush\<close> the buffered writer; \<open>w\<close> is the state the handlers act on. \<open>None\<close> is a
  panic.
\<close>

fun connection_loop ::
    "nat \<Rightarrow> ('s RepeError \<Rightarrow> string) \<Rightarrow> ('w, 's) Router \<Rightarrow> (nat \<Rightarrow> 'r \<Rightarrow> (io_error + bytes) \<times> 'r)
      \<Rightarrow> (bytes \<Rightarrow> ('o, io_error, unit) io) \<Rightarrow> ('o, io_error, unit) io \<Rightarrow> bool list \<Rightarrow> 'r \<Rightarrow> 'o \<Rightarrow> 'w
      \<Rightarrow> (('s RepeError + unit) \<times> 'r \<times> 'o \<times> 'w) option" where
  "connection_loop usize_max show_err r rd write_all flush [] reader writer w
     = Some (Inr (), reader, writer, w)"
| "connection_loop usize_max show_err r rd write_all flush (running # later) reader writer w =
     (if \<not> running then Some (Inr (), reader, writer, w)
      else (case read_message_into usize_max rd reader of
              None \<Rightarrow> None
            | Some (Inl err, reader) \<Rightarrow>
                if is_io_kind K_UnexpectedEof err then Some (Inr (), reader, writer, w)
                else Some (Inl err, reader, writer, w)
            | Some (Inr buf, reader) \<Rightarrow>
                (case view_from_slice usize_max buf of
                   Inl err \<Rightarrow> Some (Inl err, reader, writer, w)
                 | Inr view \<Rightarrow>
                     (case route_request_view show_err r view w of
                        (None, w) \<Rightarrow>
                          connection_loop usize_max show_err r rd write_all flush later reader writer w
                      | (Some resp, w) \<Rightarrow>
                          (case io_bind (write_view_response write_all resp (v_query view))
                                  (\<lambda>_. io_from flush) writer of
                             None \<Rightarrow> None
                           | Some (Inl err, writer) \<Rightarrow> Some (Inl err, reader, writer, w)
                           | Some (Inr _, writer) \<Rightarrow>
                               connection_loop usize_max show_err r rd write_all flush later reader writer w)))))"

section \<open>What a router has been told\<close>

text \<open>
  The specification of the router: the registrations alone, with nothing
  precomposed. \<open>router_of\<close> is the router that holds them.
\<close>

record ('w, 's) RouterConfig =
  c_routes :: "string \<rightharpoonup> ('w, 's) Handler"
  c_structs :: "(string \<times> ('w, 's) Handler) list"
  c_registries :: "(string \<times> ('w, 's) Handler) list"
  c_fallback :: "('w, 's) Handler option"
  c_middlewares :: "('w, 's) Middleware list"
  c_fallthrough :: bool

definition config_new :: "('w, 's) RouterConfig" where
  "config_new =
     \<lparr>c_routes = Map.empty, c_structs = [], c_registries = [], c_fallback = None,
      c_middlewares = [], c_fallthrough = False\<rparr>"

definition config_mount :: "('w, 's) RouterConfig \<Rightarrow> ('w, 's) Handler \<Rightarrow> ('w, 's) Handler" where
  "config_mount c h =
     wrap_with_middlewares
       (if c_fallthrough c
        then (case c_fallback c of Some fallback \<Rightarrow> mount_fallthrough h fallback | None \<Rightarrow> h)
        else h)
       (c_middlewares c)"

definition config_entry :: "('w, 's) RouterConfig \<Rightarrow> ('w, 's) Handler \<Rightarrow> ('w, 's) RouterMapEntry" where
  "config_entry c h = \<lparr>en_raw = h, en_dispatched = wrap_with_middlewares h (c_middlewares c)\<rparr>"

definition router_of :: "('w, 's) RouterConfig \<Rightarrow> ('w, 's) Router" where
  "router_of c =
     \<lparr>r_inner = (\<lambda>path. map_option (config_entry c) (c_routes c path)),
      r_structs = map (\<lambda>(root, h). \<lparr>se_root = root, se_raw = h, se_dispatched = config_mount c h\<rparr>)
        (c_structs c),
      r_registries = map (\<lambda>(pre, h). \<lparr>re_prefix = pre, re_raw = h, re_dispatched = config_mount c h\<rparr>)
        (c_registries c),
      r_fallback = map_option (config_entry c) (c_fallback c),
      r_middlewares = c_middlewares c,
      r_mount_fallthrough = c_fallthrough c\<rparr>"

datatype ('w, 's) router_event =
    Route string "('w, 's) Handler"
  | Mount_Registry string "('w, 's) Handler"
  | Mount_Struct string "('w, 's) Handler"
  | Fallback "('w, 's) Handler"
  | Fallthrough bool
  | Add_Middleware "('w, 's) Middleware"

fun apply_event :: "('w, 's) router_event \<Rightarrow> ('w, 's) Router \<Rightarrow> ('w, 's) Router" where
  "apply_event (Route path h) r = insert_route path h r"
| "apply_event (Mount_Registry pre h) r = push_registry pre h r"
| "apply_event (Mount_Struct root h) r = push_struct root h r"
| "apply_event (Fallback h) r = register_fallback h r"
| "apply_event (Fallthrough enabled) r = set_mount_fallthrough enabled r"
| "apply_event (Add_Middleware mw) r = register_middleware mw r"

fun config_event :: "('w, 's) router_event \<Rightarrow> ('w, 's) RouterConfig \<Rightarrow> ('w, 's) RouterConfig" where
  "config_event (Route path h) c = c\<lparr>c_routes := (c_routes c)(path \<mapsto> h)\<rparr>"
| "config_event (Mount_Registry pre h) c = c\<lparr>c_registries := c_registries c @ [(pre, h)]\<rparr>"
| "config_event (Mount_Struct root h) c = c\<lparr>c_structs := c_structs c @ [(root, h)]\<rparr>"
| "config_event (Fallback h) c = c\<lparr>c_fallback := Some h\<rparr>"
| "config_event (Fallthrough enabled) c = c\<lparr>c_fallthrough := enabled\<rparr>"
| "config_event (Add_Middleware mw) c = c\<lparr>c_middlewares := c_middlewares c @ [mw]\<rparr>"

lemma mount_dispatched_of:
  assumes "r_mount_fallthrough r = c_fallthrough c"
    and "map_option en_raw (r_fallback r) = c_fallback c"
    and "r_middlewares r = c_middlewares c"
  shows "mount_dispatched r h = config_mount c h"
  using assms
  by (auto simp: mount_dispatched_def config_mount_def split: option.splits bool.splits)

text \<open>
  Rebuilding the mounts of a router whose other parts agree with a configuration
  gives the router of that configuration.
\<close>

lemma rebuild_of:
  assumes "r_middlewares r = c_middlewares c" and "r_mount_fallthrough r = c_fallthrough c"
    and "r_inner r = r_inner (router_of c)" and "r_fallback r = r_fallback (router_of c)"
    and "map (\<lambda>e. (re_prefix e, re_raw e)) (r_registries r) = c_registries c"
    and "map (\<lambda>e. (se_root e, se_raw e)) (r_structs r) = c_structs c"
  shows "rebuild_mount_dispatch r = router_of c"
proof -
  have raw: "map_option en_raw (r_fallback r) = c_fallback c"
    by (simp add: assms(4) router_of_def option.map_comp comp_def config_entry_def option.map_ident)
  have md: "mount_dispatched r = config_mount c"
    by (intro ext mount_dispatched_of assms raw)
  have md': "mount_dispatched (r\<lparr>r_registries := x\<rparr>) = config_mount c" for x
    by (intro ext mount_dispatched_of) (simp_all add: assms(1,2) raw)
  have entries: "e\<lparr>re_dispatched := x\<rparr> = \<lparr>re_prefix = re_prefix e, re_raw = re_raw e, re_dispatched = x\<rparr>"
    "e'\<lparr>se_dispatched := x\<rparr> = \<lparr>se_root = se_root e', se_raw = se_raw e', se_dispatched = x\<rparr>"
    for e :: "('a, 'b) RegistryEntry" and e' :: "('a, 'b) StructEntry" and x
    by simp_all
  show ?thesis
    using assms(1-4)
    by (simp add: rebuild_mount_dispatch_def Let_def md md' entries)
      (simp add: router_of_def comp_def flip: assms(5,6))
qed

lemma router_of_parts [simp]:
  "r_middlewares (router_of c) = c_middlewares c"
  "r_mount_fallthrough (router_of c) = c_fallthrough c"
  "map (\<lambda>e. (re_prefix e, re_raw e)) (r_registries (router_of c)) = c_registries c"
  "map (\<lambda>e. (se_root e, se_raw e)) (r_structs (router_of c)) = c_structs c"
  "map_option en_raw (r_fallback (router_of c)) = c_fallback c"
  by (simp_all add: router_of_def comp_def option.map_comp option.map_ident case_prod_beta config_entry_def)

lemma config_parts_keep [simp]:
  "config_entry (c\<lparr>c_routes := x\<rparr>) = config_entry c" "config_mount (c\<lparr>c_routes := x\<rparr>) = config_mount c"
  "config_entry (c\<lparr>c_structs := y\<rparr>) = config_entry c" "config_mount (c\<lparr>c_structs := y\<rparr>) = config_mount c"
  "config_entry (c\<lparr>c_registries := y\<rparr>) = config_entry c" "config_mount (c\<lparr>c_registries := y\<rparr>) = config_mount c"
  "config_entry (c\<lparr>c_fallback := z\<rparr>) = config_entry c" "config_entry (c\<lparr>c_fallthrough := b\<rparr>) = config_entry c"
  by (simp_all add: config_entry_def config_mount_def fun_eq_iff)

lemma apply_event_of: "apply_event e (router_of c) = router_of (config_event e c)"
proof (cases e)
  case (Route path h)
  then show ?thesis
    by (simp add: insert_route_def Let_def)
      (simp add: router_of_def fun_eq_iff, simp add: config_entry_def)
next
  case (Mount_Registry pre h)
  have "mount_dispatched (router_of c) h = config_mount c h"
    by (rule mount_dispatched_of) simp_all
  with Mount_Registry show ?thesis
    by (simp add: push_registry_def)
      (simp add: router_of_def)
next
  case (Mount_Struct root h)
  have "mount_dispatched (router_of c) h = config_mount c h"
    by (rule mount_dispatched_of) simp_all
  with Mount_Struct show ?thesis
    by (simp add: push_struct_def)
      (simp add: router_of_def)
next
  case (Fallback h)
  then show ?thesis
    unfolding Fallback apply_event.simps register_fallback_def Let_def
    by (intro rebuild_of) (simp_all, simp_all add: router_of_def config_entry_def)
next
  case (Fallthrough enabled)
  show ?thesis
  proof (cases "c_fallthrough c = enabled")
    case True
    then have "config_event e c = c" by (simp add: Fallthrough)
    moreover from True have "apply_event e (router_of c) = router_of c"
      by (simp add: Fallthrough set_mount_fallthrough_def)
    ultimately show ?thesis by simp
  next
    case False
    then have "apply_event e (router_of c)
        = rebuild_mount_dispatch (router_of c\<lparr>r_mount_fallthrough := enabled\<rparr>)"
      by (simp add: Fallthrough set_mount_fallthrough_def)
    also have "\<dots> = router_of (config_event e c)"
      unfolding Fallthrough
      by (intro rebuild_of) (simp_all, simp_all add: router_of_def config_entry_def)
    finally show ?thesis .
  qed
next
  case (Add_Middleware mw)
  then show ?thesis
    unfolding Add_Middleware apply_event.simps register_middleware_def Let_def
    by (intro rebuild_of)
      (simp_all, simp_all add: router_of_def config_entry_def [abs_def] option.map_comp comp_def)
qed

lemma router_of_new: "router_new = router_of config_new"
  by (simp add: router_new_def router_of_def config_new_def)

lemma built_router: "fold apply_event es router_new = router_of (fold config_event es config_new)"
proof -
  have "fold apply_event es (router_of c) = router_of (fold config_event es c)" for c
    by (induction es arbitrary: c) (simp_all add: apply_event_of)
  then show ?thesis by (simp add: router_of_new)
qed

text \<open>Each field of the configuration depends on the events of one kind only.\<close>

datatype event_kind = K_Route | K_Registry | K_Struct | K_Fallback | K_Fallthrough | K_Middleware

fun kind_of :: "('w, 's) router_event \<Rightarrow> event_kind" where
  "kind_of (Route _ _) = K_Route"
| "kind_of (Mount_Registry _ _) = K_Registry"
| "kind_of (Mount_Struct _ _) = K_Struct"
| "kind_of (Fallback _) = K_Fallback"
| "kind_of (Fallthrough _) = K_Fallthrough"
| "kind_of (Add_Middleware _) = K_Middleware"

abbreviation of_kind :: "event_kind \<Rightarrow> ('w, 's) router_event list \<Rightarrow> ('w, 's) router_event list" where
  "of_kind k es \<equiv> filter (\<lambda>e. kind_of e = k) es"

lemma config_fields:
  "c_routes (fold config_event es c) = c_routes (fold config_event (of_kind K_Route es) c)"
  "c_registries (fold config_event es c) = c_registries (fold config_event (of_kind K_Registry es) c)"
  "c_structs (fold config_event es c) = c_structs (fold config_event (of_kind K_Struct es) c)"
  "c_fallback (fold config_event es c) = c_fallback (fold config_event (of_kind K_Fallback es) c)"
  "c_fallthrough (fold config_event es c) = c_fallthrough (fold config_event (of_kind K_Fallthrough es) c)"
  "c_middlewares (fold config_event es c) = c_middlewares (fold config_event (of_kind K_Middleware es) c)"
proof -
  show "c_routes (fold config_event es c) = c_routes (fold config_event (of_kind K_Route es) c)"
    by (induction es rule: rev_induct) (simp, case_tac x, simp_all)
  show "c_registries (fold config_event es c) = c_registries (fold config_event (of_kind K_Registry es) c)"
    by (induction es rule: rev_induct) (simp, case_tac x, simp_all)
  show "c_structs (fold config_event es c) = c_structs (fold config_event (of_kind K_Struct es) c)"
    by (induction es rule: rev_induct) (simp, case_tac x, simp_all)
  show "c_fallback (fold config_event es c) = c_fallback (fold config_event (of_kind K_Fallback es) c)"
    by (induction es rule: rev_induct) (simp, case_tac x, simp_all)
  show "c_fallthrough (fold config_event es c) = c_fallthrough (fold config_event (of_kind K_Fallthrough es) c)"
    by (induction es rule: rev_induct) (simp, case_tac x, simp_all)
  show "c_middlewares (fold config_event es c) = c_middlewares (fold config_event (of_kind K_Middleware es) c)"
    by (induction es rule: rev_induct) (simp, case_tac x, simp_all)
qed

text \<open>What resolution is meant to return: the first claim on the path, wrapped once.\<close>

definition resolve :: "('w, 's) RouterConfig \<Rightarrow> string \<Rightarrow> ('w, 's) Handler option" where
  "resolve c path =
     (case c_routes c path of
        Some h \<Rightarrow> Some (wrap_with_middlewares h (c_middlewares c))
      | None \<Rightarrow>
          (case find (\<lambda>mount. mount_matches (fst mount) path) (c_registries c @ c_structs c) of
             Some mount \<Rightarrow> Some (config_mount c (snd mount))
           | None \<Rightarrow> map_option (\<lambda>h. wrap_with_middlewares h (c_middlewares c)) (c_fallback c)))"

lemma find_map: "find P (map f xs) = map_option f (find (\<lambda>x. P (f x)) xs)"
  by (induction xs) simp_all

lemma find_append: "find P (xs @ ys) = (case find P xs of Some x \<Rightarrow> Some x | None \<Rightarrow> find P ys)"
  by (induction xs) simp_all

lemma router_get_of: "router_get (router_of c) path = resolve c path"
  by (auto simp: router_get_def resolve_def router_of_def config_entry_def find_map find_append
      registry_entry_matches_def struct_entry_matches_def case_prod_beta option.map_comp comp_def
      split: option.splits)

fun event_handler :: "('w, 's) router_event \<Rightarrow> ('w, 's) Handler option" where
  "event_handler (Route _ h) = Some h"
| "event_handler (Mount_Registry _ h) = Some h"
| "event_handler (Mount_Struct _ h) = Some h"
| "event_handler (Fallback h) = Some h"
| "event_handler _ = None"

definition faithful_config :: "('w, 's) RouterConfig \<Rightarrow> bool" where
  "faithful_config c \<longleftrightarrow>
     (\<forall>path h. c_routes c path = Some h \<longrightarrow> view_faithful h)
     \<and> (\<forall>(pre, h) \<in> set (c_registries c @ c_structs c). view_faithful h)
     \<and> (\<forall>h. c_fallback c = Some h \<longrightarrow> view_faithful h)"

lemma faithful_event:
  assumes "faithful_config c" and "\<And>h. event_handler e = Some h \<Longrightarrow> view_faithful h"
  shows "faithful_config (config_event e c)"
  using assms by (cases e) (auto simp: faithful_config_def)

lemma faithful_events:
  assumes "faithful_config c" and "\<And>e h. e \<in> set es \<Longrightarrow> event_handler e = Some h \<Longrightarrow> view_faithful h"
  shows "faithful_config (fold config_event es c)"
  using assms
proof (induction es arbitrary: c)
  case (Cons e es)
  have "faithful_config (config_event e c)"
    using Cons.prems by (intro faithful_event) auto
  from Cons.IH [OF this] Cons.prems(2) show ?case by auto
qed simp

lemma config_mount_faithful:
  assumes "view_faithful h" and "\<And>fb. c_fallback c = Some fb \<Longrightarrow> view_faithful fb"
  shows "view_faithful (config_mount c h)"
  using assms
  by (auto simp: config_mount_def intro!: view_faithful.wrapped_faithful view_faithful.fallthrough_faithful
      split: option.splits)

lemma resolve_faithful:
  assumes "faithful_config c" and "resolve c path = Some h"
  shows "view_faithful h"
proof -
  have mounts: "view_faithful (config_mount c h')" if "(pre, h') \<in> set (c_registries c @ c_structs c)" for pre h'
    using assms(1) that by (intro config_mount_faithful) (auto simp: faithful_config_def)
  have found: "(pre, h') \<in> set xs" if "find P xs = Some (pre, h')" for P pre h' xs
    using that by (metis find_Some_iff nth_mem)
  from assms show ?thesis
    by (auto simp: resolve_def faithful_config_def intro: mounts [OF found] view_faithful.wrapped_faithful
        split: option.splits)
qed

section \<open>Responses on the wire\<close>

text \<open>The frame a carrier writes for a response: the query echoed and the lengths filled in.\<close>

definition framed_response :: "Message \<Rightarrow> bytes \<Rightarrow> Message" where
  "framed_response response query =
     (let m = stamp_response_query response query
      in m\<lparr>m_header := (m_header m)
            \<lparr>h_query_length := of_nat (length (m_query m)), h_body_length := of_nat (length (m_body m)),
             h_length := of_nat HEADER_SIZE + of_nat (length (m_query m)) + of_nat (length (m_body m))\<rparr>\<rparr>)"

lemma framed_response_echo:
  "framed_response response query =
     \<lparr>m_header = (m_header response)
        \<lparr>h_query_length := of_nat (length (response_echo_query response query)),
         h_body_length := of_nat (length (m_body response)),
         h_length := of_nat HEADER_SIZE + of_nat (length (response_echo_query response query))
           + of_nat (length (m_body response))\<rparr>,
      m_query = response_echo_query response query, m_body = m_body response\<rparr>"
  by (simp add: framed_response_def stamp_response_query_def response_echo_query_def Let_def)

lemma write_view_response_emits:
  assumes "byte_sink write_all written"
  shows "byte_sink.emits written (write_view_response write_all response query :: ('o, 's RepeError, unit) io)
    (message_to_vec (framed_response response query))"
  unfolding write_view_response_def Let_def framed_response_echo
  by (rule byte_sink.emits_streaming [OF assms byte_sink.emits_write [OF assms] refl refl])

lemma write_view_response_vec:
  "(write_view_response vec_write_all response query :: (bytes, 's RepeError, unit) io) out
     = Some (Inr (), out @ message_to_vec (framed_response response query))"
  by (simp add: write_view_response_def framed_response_echo write_message_streaming_def Let_def
      io_bind_def io_from_def io_result_def vec_write_all_def to_vec_append)

lemma message_write_to_vec:
  "message_write_to vec_write_all m out = Some (Inr (), out @ message_to_vec m)"
  by (simp add: message_write_to_def io_bind_def io_result_def vec_write_all_def to_vec_append)

text \<open>
  The reference for one request: dispatch of the owned message. \<open>router_faithful\<close>
  says that every handler the router may resolve to is \<open>view_faithful\<close>.
\<close>

definition owned_answer ::
    "('s RepeError \<Rightarrow> string) \<Rightarrow> ('w, 's) Router \<Rightarrow> Message \<Rightarrow> 'w \<Rightarrow> Message option \<times> 'w" where
  "owned_answer show_err r m w =
     (case route r (m_header m) (m_query m) of
        RO_Dispatch handler notify path \<Rightarrow>
          (case dispatch show_err handler m (call_context_detached path) notify w of
             (response, w) \<Rightarrow> (map_option (\<lambda>resp. framed_response resp (m_query m)) response, w))
      | RO_Reject notify code message \<Rightarrow>
          (if notify then None else Some (create_error_response_like m code message), w))"

definition router_faithful :: "('w, 's) Router \<Rightarrow> bool" where
  "router_faithful r \<longleftrightarrow> (\<forall>path h. router_get r path = Some h \<longrightarrow> view_faithful h)"

lemma built_faithful:
  assumes "\<And>e h. e \<in> set es \<Longrightarrow> event_handler e = Some h \<Longrightarrow> view_faithful h"
  shows "router_faithful (fold apply_event es router_new)"
proof -
  have "faithful_config config_new" by (simp add: faithful_config_def config_new_def)
  then have "faithful_config (fold config_event es config_new)"
    using assms by (rule faithful_events)
  then show ?thesis
    using resolve_faithful by (auto simp: router_faithful_def built_router router_get_of)
qed

lemma build_relength:
  "(build b)\<lparr>m_header := (m_header (build b))
     \<lparr>h_query_length := of_nat (length (b_query b)), h_body_length := of_nat (length (b_body b)),
      h_length := of_nat HEADER_SIZE + of_nat (length (b_query b)) + of_nat (length (b_body b))\<rparr>\<rparr> = build b"
  by (simp add: build_def Let_def)

lemma framed_build: "framed_response (build b) q = build (b\<lparr>b_query := response_echo_query (build b) q\<rparr>)"
  using build_relength [of "b\<lparr>b_query := response_echo_query (build b) q\<rparr>"]
  by (simp add: framed_response_def stamp_build Let_def)

lemma framed_error_like:
  "framed_response (create_error_response_unstamped_view view code msg) (v_query view)
     = create_error_response_like (to_message view) code msg"
  by (simp add: create_error_unstamped_build framed_build create_error_response_like_def
      create_error_message_build to_message_def builder_defs response_echo_query_def)

lemma framed_error_like_owned:
  "framed_response (create_error_response_like m code msg) (m_query m) = create_error_response_like m code msg"
  by (simp add: create_error_response_like_def create_error_message_build framed_build builder_defs
      response_echo_query_def)

lemma same_answer_framed:
  assumes "same_answer (v_query view) x y" and "x = (ox, wx)" and "y = (oy, wy)"
  shows "framed_response (case ox of Inr m \<Rightarrow> m
          | Inl err \<Rightarrow> create_error_response_unstamped_view view (to_error_code err) (show_err err)) (v_query view)
      = framed_response (case oy of Inr m \<Rightarrow> m
          | Inl err \<Rightarrow> create_error_response_like (to_message view) (to_error_code err) (show_err err)) (v_query view)"
    and "wx = wy"
  using assms framed_error_like [of view] framed_error_like_owned [of "to_message view"]
  by (cases ox; cases oy; simp add: framed_response_def)+

lemma route_view_answer:
  assumes "router_faithful r"
  shows "(case route_request_view show_err r view w of
      (resp, w) \<Rightarrow> (map_option (\<lambda>x. framed_response x (v_query view)) resp, w))
    = owned_answer show_err r (to_message view) w"
proof (cases "route r (v_header view) (v_query view)")
  case (RO_Reject notify code msg)
  then show ?thesis by (simp add: route_request_view_def owned_answer_def framed_error_like)
next
  case (RO_Dispatch h notify path)
  then have "router_get r path = Some h"
    by (auto simp: route_def Let_def split: if_splits QueryFormat.splits sum.splits option.splits)
  with assms have "view_faithful h" by (simp add: router_faithful_def)
  from view_faithful.view_same [OF this, of view "call_context_detached path" w]
  have same: "same_answer (v_query view) (hd_handle_view h view (call_context_detached path) w)
    (hd_handle_with_ctx h (to_message view) (call_context_detached path) w)" .
  obtain ox wx oy wy where run: "hd_handle_view h view (call_context_detached path) w = (ox, wx)"
    "hd_handle_with_ctx h (to_message view) (call_context_detached path) w = (oy, wy)"
    by (metis surj_pair)
  show ?thesis
    using same_answer_framed [OF same run]
    by (simp add: route_request_view_def owned_answer_def RO_Dispatch dispatch_view_def dispatch_def run)
qed

lemma call_into_runs:
  "call_into usize_max show_err r request out w =
     (case view_from_slice_exact usize_max request of
        Inr view \<Rightarrow>
          (case route_request_view show_err r view w of
             (None, w) \<Rightarrow> Some (False, [], w)
           | (Some response, w) \<Rightarrow>
               Some (True, message_to_vec (framed_response response (v_query view)), w))
      | Inl err \<Rightarrow>
          Some (True, message_to_vec (create_error_message (to_error_code err) (show_err err)), w))"
  by (simp add: call_into_def Let_def write_view_response_vec message_write_to_vec
      split: sum.splits option.splits prod.splits)

section \<open>Serving a stream of frames\<close>

text \<open>The reference: \<^verbatim>\<open>Router::call\<close> on one frame after the other.\<close>

fun call_all ::
    "nat \<Rightarrow> ('s RepeError \<Rightarrow> string) \<Rightarrow> ('w, 's) Router \<Rightarrow> bytes list \<Rightarrow> 'w \<Rightarrow> (bytes \<times> 'w) option" where
  "call_all usize_max show_err r [] w = Some ([], w)"
| "call_all usize_max show_err r (frame # frames) w =
     (case router_call usize_max show_err r frame w of
        None \<Rightarrow> None
      | Some (response, w) \<Rightarrow>
          (case call_all usize_max show_err r frames w of
             None \<Rightarrow> None
           | Some (rest, w) \<Rightarrow> Some ((case response of Some bs \<Rightarrow> bs | None \<Rightarrow> []) @ rest, w)))"

definition message_view :: "Message \<Rightarrow> MessageView" where
  "message_view m = \<lparr>v_header = m_header m, v_query = m_query m, v_body = m_body m\<rparr>"

lemma view_of_frame:
  assumes "wf_message usize_max m"
  shows "view_from_slice usize_max (message_to_vec m) = (Inr (message_view m) :: 's RepeError + MessageView)"
    and "view_from_slice_exact usize_max (message_to_vec m) = (Inr (message_view m) :: 's RepeError + MessageView)"
proof -
  from assms have wf: "wf_header usize_max (m_header m)"
    and len: "unat (h_query_length (m_header m)) = length (m_query m)"
      "unat (h_body_length (m_header m)) = length (m_body m)"
    by (simp_all add: wf_message_def)
  have "\<not> length (message_to_vec m) < framed_total (m_header m)"
    using len by (simp add: framed_total_def serialized_len_def)
  moreover have "framed_view (m_header m) (message_to_vec m) = message_view m"
    using framed_view_append [OF len, of "[]"] by (simp add: to_vec_append message_view_def)
  ultimately show v: "view_from_slice usize_max (message_to_vec m) = (Inr (message_view m) :: 's RepeError + MessageView)"
    by (simp add: view_from_slice_framed [OF wf to_vec_append])
  then show "view_from_slice_exact usize_max (message_to_vec m) = (Inr (message_view m) :: 's RepeError + MessageView)"
    by (simp add: view_from_slice_exact_def Let_def message_view_def serialized_len_def)
qed

lemma router_call_frame:
  assumes "wf_message usize_max m" and "route_request_view show_err r (message_view m) w = (resp, w')"
  shows "router_call usize_max show_err r (message_to_vec m) w =
    Some (map_option (\<lambda>x. message_to_vec (framed_response x (m_query m))) resp, w')"
  by (cases resp) (simp_all add: router_call_def call_into_runs view_of_frame(2) [OF assms(1)] assms(2),
      simp add: message_view_def)

lemma call_all_total:
  assumes "\<And>m. m \<in> set ms \<Longrightarrow> wf_message usize_max m"
  shows "\<exists>bs w'. call_all usize_max show_err r (map message_to_vec ms) w = Some (bs, w')"
  using assms
proof (induction ms arbitrary: w)
  case (Cons m ms)
  obtain resp w1 where "route_request_view show_err r (message_view m) w = (resp, w1)"
    by (metis surj_pair)
  moreover have "wf_message usize_max m" using Cons.prems by simp
  moreover obtain bs w2 where "call_all usize_max show_err r (map message_to_vec ms) w1 = Some (bs, w2)"
    using Cons.IH [of w1] Cons.prems by auto
  ultimately show ?case by (simp add: router_call_frame)
qed simp

text \<open>What reading one frame off the connection gives.\<close>

lemma read_frame:
  assumes "byte_source rd content" and "wf_message usize_max m" and "content reader = message_to_vec m @ rest"
  obtains reader' where "read_message_into usize_max rd reader
      = Some (Inr (message_to_vec m) :: 's RepeError + bytes, reader')" and "content reader' = rest"
proof -
  note exact = byte_source.read_exact_is_exact [OF assms(1)]
  have "framed_total (m_header m) = serialized_len m"
    using assms(2) by (simp add: wf_message_def framed_total_def serialized_len_def)
  then show thesis
    using exact_source.read_message_into_spec [OF exact, of usize_max reader, where 's = 's] that
    by (auto simp: read_message_into_as_async assms(3) next_frame_message [OF assms(2)])
qed

lemma read_end:
  assumes "byte_source rd content" and "content reader = []"
  obtains reader' where "read_message_into usize_max rd reader
      = Some (Inl (RE_Io UnexpectedEof) :: 's RepeError + bytes, reader')"
proof -
  note exact = byte_source.read_exact_is_exact [OF assms(1)]
  have "next_frame usize_max (content reader) = (Inl (RE_Io UnexpectedEof) :: 's RepeError + Header)"
    by (simp add: assms(2) next_frame_def HEADER_SIZE_def)
  then show thesis
    using exact_source.read_message_into_spec [OF exact, of usize_max reader, where 's = 's] that
    by (auto simp: read_message_into_as_async)
qed

lemma send_response:
  assumes sink: "byte_sink write_all written"
    and flush: "\<And>x. \<exists>y x'. flush x = Some (y, x') \<and> written x' = written x"
  obtains y x' sent where "io_bind (write_view_response write_all resp q) (\<lambda>_. io_from flush) x
      = Some (y :: 's RepeError + unit, x')"
    and "written x' = written x @ sent"
    and "\<exists>unsent. message_to_vec (framed_response resp q) = sent @ unsent"
    and "y = Inr () \<Longrightarrow> sent = message_to_vec (framed_response resp q)"
proof -
  let ?frame = "message_to_vec (framed_response resp q)"
  obtain y1 x1 where w: "(write_view_response write_all resp q :: ('a, 's RepeError, unit) io) x = Some (y1, x1)"
    "case y1 of Inr _ \<Rightarrow> written x1 = written x @ ?frame
     | Inl _ \<Rightarrow> \<exists>sent unsent. ?frame = sent @ unsent \<and> written x1 = written x @ sent"
    using write_view_response_emits [OF sink, of resp q, where 's = 's]
    unfolding byte_sink.emits_def [OF sink] by blast
  obtain y2 x2 where f: "flush x1 = Some (y2, x2)" "written x2 = written x1" using flush by blast
  show thesis
  proof (cases y1)
    case (Inl err)
    with w obtain sent unsent where s: "?frame = sent @ unsent" "written x1 = written x @ sent" by auto
    show thesis
    proof (rule that)
      show "io_bind (write_view_response write_all resp q) (\<lambda>_. io_from flush) x = Some (Inl err, x1)"
        using w(1) Inl by (simp add: io_bind_def)
    qed (use s in auto)
  next
    case (Inr u)
    show thesis
    proof (rule that)
      show "io_bind (write_view_response write_all resp q) (\<lambda>_. io_from flush) x
          = Some (res_map_err RE_Io y2 :: 's RepeError + unit, x2)"
        using w(1) Inr f(1) by (simp add: io_bind_def io_from_def)
      show "written x2 = written x @ ?frame" using w(2) Inr f(2) by simp
    qed auto
  qed
qed

lemma connection_serves:
  fixes show_err :: "'s RepeError \<Rightarrow> string"
  assumes src: "byte_source rd content" and sink: "byte_sink write_all written"
    and flush: "\<And>x. \<exists>y x'. flush x = Some (y, x') \<and> written x' = written x"
    and wf: "\<And>m. m \<in> set ms \<Longrightarrow> wf_message usize_max m"
    and "content reader = concat (map message_to_vec ms)"
    and "call_all usize_max show_err r (map message_to_vec ms) w = Some (bs, w')"
  shows "\<exists>res reader' x' w'' sent.
    connection_loop usize_max show_err r rd write_all flush (replicate (length ms) True @ True # flags) reader x w
      = Some (res, reader', x', w'')
    \<and> written x' = written x @ sent \<and> (\<exists>unsent. bs = sent @ unsent)
    \<and> (res = Inr () \<longrightarrow> sent = bs \<and> w'' = w')"
  using assms(4-6)
proof (induction ms arbitrary: reader x w bs)
  case Nil
  then have "content reader = []" by simp
  with src obtain reader' where "read_message_into usize_max rd reader
      = Some (Inl (RE_Io UnexpectedEof) :: 's RepeError + bytes, reader')"
    by (rule read_end)
  with Nil show ?case by simp
next
  case (Cons m ms)
  have wfm: "wf_message usize_max m" using Cons.prems(1) by simp
  obtain reader1 where rd1: "read_message_into usize_max rd reader
      = Some (Inr (message_to_vec m) :: 's RepeError + bytes, reader1)"
    "content reader1 = concat (map message_to_vec ms)"
    using Cons.prems(2) by (auto intro: read_frame [OF src wfm])
  obtain resp w1 where resp: "route_request_view show_err r (message_view m) w = (resp, w1)"
    by (metis surj_pair)
  obtain rest where rest: "call_all usize_max show_err r (map message_to_vec ms) w1 = Some (rest, w')"
    and bs: "bs = (case resp of Some x \<Rightarrow> message_to_vec (framed_response x (m_query m)) | None \<Rightarrow> []) @ rest"
    using Cons.prems(3)
    by (auto simp: router_call_frame [OF wfm resp] split: option.splits prod.splits)
  have IH: "\<exists>res reader' x' w'' sent.
      connection_loop usize_max show_err r rd write_all flush (replicate (length ms) True @ True # flags) reader1 x w1
        = Some (res, reader', x', w'')
      \<and> written x' = written x @ sent \<and> (\<exists>unsent. rest = sent @ unsent)
      \<and> (res = Inr () \<longrightarrow> sent = rest \<and> w'' = w')" for x
    using Cons.IH [OF _ rd1(2) rest, of x] Cons.prems(1) by simp
  show ?case
  proof (cases resp)
    case None
    with IH [of x] rd1(1) resp bs show ?thesis
      by (simp add: view_of_frame(1) [OF wfm])
  next
    case (Some rm)
    obtain y x1 sent1 where send: "io_bind (write_view_response write_all rm (m_query m)) (\<lambda>_. io_from flush) x
        = Some (y :: 's RepeError + unit, x1)" "written x1 = written x @ sent1"
      "\<exists>unsent. message_to_vec (framed_response rm (m_query m)) = sent1 @ unsent"
      "y = Inr () \<Longrightarrow> sent1 = message_to_vec (framed_response rm (m_query m))"
      by (rule send_response [OF sink flush]) blast
    show ?thesis
    proof (cases y)
      case (Inl err)
      with Some rd1(1) resp send bs show ?thesis
        by (auto simp: view_of_frame(1) [OF wfm] message_view_def)
    next
      case (Inr u)
      with send(2,4) have "written x1 = written x @ message_to_vec (framed_response rm (m_query m))" by simp
      with Some rd1(1) resp send(1) Inr IH [of x1] bs show ?thesis
        by (auto simp: view_of_frame(1) [OF wfm] message_view_def)
    qed
  qed
qed

lemma config_by_kind:
  assumes "\<And>k. of_kind k es = of_kind k es'"
  shows "fold config_event es c = fold config_event es' c"
  by (rule RouterConfig.equality)
    (simp_all only: config_fields [of es] config_fields [of es'] assms, simp)

definition reject_code :: "('w, 's) Router \<Rightarrow> Header \<Rightarrow> bytes \<Rightarrow> ErrorCode option" where
  "reject_code r header query =
     (if h_version header \<noteq> REPE_VERSION then Some EC_VersionMismatch
      else if h_query_format header \<noteq> query_format_u16 QF_JsonPointer then Some EC_InvalidQuery
      else (case from_utf8 query of
              Inl _ \<Rightarrow> Some EC_InvalidQuery
            | Inr path \<Rightarrow> if router_get r path = None then Some EC_MethodNotFound else None))"

lemma query_format_cases:
  "(case query_format_try_from v of Inr qf \<Rightarrow> qf | Inl _ \<Rightarrow> QF_RawBinary)
     = (if v = query_format_u16 QF_JsonPointer then QF_JsonPointer else QF_RawBinary)"
  by (auto simp: query_format_try_from_def)

lemma route_rejects:
  "reject_code r header query = Some code \<Longrightarrow> \<exists>msg. route r header query = RO_Reject (h_notify header = 1) code msg"
  "reject_code r header query = None \<Longrightarrow> \<exists>h path. route r header query = RO_Dispatch h (h_notify header = 1) path
     \<and> from_utf8 query = Inr path \<and> router_get r path = Some h"
  by (auto simp: reject_code_def route_def Let_def query_format_cases
      split: if_splits sum.splits option.splits)

section \<open>Properties\<close>

text \<open>
  C1. Resolution is what the registrations say: after any sequence of them, the
  handler the router returns is the last fixed route of that exact path, else the
  first mounted registry and then the first mounted struct whose prefix covers the
  path, else the fallback; it is composed with the current fallback when
  fall-through is on and wrapped in the middleware registered so far, once. The
  precomposed handlers that the router keeps never go stale.
\<close>

theorem router_resolution:
  "router_get (fold apply_event es router_new) path = resolve (fold config_event es config_new) path"
  by (simp only: built_router router_get_of)

text \<open>
  Registration order does not matter across kinds: two sequences of
  registrations with the same routes, the same registries, the same structs, the
  same fallbacks, the same fall-through settings and the same middleware, each kind
  in its own order, build the same router however the kinds interleave.
\<close>

theorem registration_order:
  assumes "\<And>k. of_kind k es = of_kind k es'"
  shows "fold apply_event es router_new = fold apply_event es' router_new"
  by (simp only: built_router config_by_kind [OF assms])

definition echo_handler :: "(nat, unit) Handler" where
  "echo_handler = plain_handler (\<lambda>req w. (Inr req, Suc w))"

theorem registration_order_witness:
  "fold apply_event [Fallback echo_handler, Mount_Struct ''/s'' echo_handler, Fallthrough True] router_new
    = fold apply_event [Fallthrough True, Mount_Struct ''/s'' echo_handler, Fallback echo_handler] router_new"
proof (rule registration_order)
  fix k show "of_kind k [Fallback echo_handler, Mount_Struct ''/s'' echo_handler, Fallthrough True]
      = of_kind k [Fallthrough True, Mount_Struct ''/s'' echo_handler, Fallback echo_handler]"
    by (cases k) simp_all
qed


lemma echo_faithful: "view_faithful echo_handler"
  by (simp add: echo_handler_def plain_faithful.view_faithful_axioms)


text \<open>
  C20. Which requests are refused before a handler runs, and how: another protocol
  version, a query that is not a JSON pointer or not UTF-8, and a path nothing is
  registered for give an error response with that code and the request's id and
  leave the state alone. A notify (\<^verbatim>\<open>notify == 1\<close>) is never answered, whatever
  happens to it; every other request is answered exactly once.
\<close>

theorem request_rejections:
  "(case route_request_view show_err r view w of
      (resp, w') \<Rightarrow>
        (resp = None \<longleftrightarrow> h_notify (v_header view) = 1)
        \<and> (case reject_code r (v_header view) (v_query view) of
             None \<Rightarrow> \<exists>path h. from_utf8 (v_query view) = Inr path \<and> router_get r path = Some h
               \<and> w' = snd (hd_handle_view h view (call_context_detached path) w)
           | Some code \<Rightarrow> w' = w \<and>
               (case resp of None \<Rightarrow> True
                | Some err \<Rightarrow> h_ec (m_header err) = error_code_u32 code
                    \<and> h_id (m_header err) = h_id (v_header view))))"
proof (cases "reject_code r (v_header view) (v_query view)")
  case None
  from route_rejects(2) [OF this] None show ?thesis
    by (auto simp: route_request_view_def dispatch_view_def split: prod.splits if_splits)
next
  case (Some code)
  from route_rejects(1) [OF this] Some show ?thesis
    by (auto simp: route_request_view_def create_error_unstamped_build builder_defs split: if_splits)
qed


definition example_router :: "(nat, unit) Router" where
  "example_router = fold apply_event [Route ''/a'' echo_handler] router_new"


end
