(* ===== verification/Websocket_Limits.thy ===== *)
theory Websocket_Limits
  imports Repe_Error
begin

text \<open>
  The size limits of a WebSocket connection (\<^verbatim>\<open>src/websocket_limits.rs\<close>): the
  thresholds an endpoint enforces while reading, and the limit it assumes of its
  peer and checks before it sends. Sizes are \<^verbatim>\<open>usize\<close>, here \<open>nat\<close>.
\<close>

definition DEFAULT_MAX_FRAME_SIZE :: nat where
  "DEFAULT_MAX_FRAME_SIZE = push_bit 20 16"

definition DEFAULT_MAX_MESSAGE_SIZE :: nat where
  "DEFAULT_MAX_MESSAGE_SIZE = push_bit 20 64"

record WebSocketLimits =
  max_incoming_frame_size :: "nat option"
  max_incoming_message_size :: "nat option"
  assumed_peer_frame_limit :: "nat option"

definition limits_default :: WebSocketLimits where
  "limits_default =
     \<lparr>max_incoming_frame_size = Some DEFAULT_MAX_FRAME_SIZE,
      max_incoming_message_size = Some DEFAULT_MAX_MESSAGE_SIZE,
      assumed_peer_frame_limit = Some DEFAULT_MAX_FRAME_SIZE\<rparr>"

definition limits_unlimited :: WebSocketLimits where
  "limits_unlimited =
     \<lparr>max_incoming_frame_size = None, max_incoming_message_size = None, assumed_peer_frame_limit = None\<rparr>"

definition with_max_incoming_frame_size :: "nat option \<Rightarrow> WebSocketLimits \<Rightarrow> WebSocketLimits" where
  "with_max_incoming_frame_size bytes limits = limits\<lparr>max_incoming_frame_size := bytes\<rparr>"

definition with_max_incoming_message_size :: "nat option \<Rightarrow> WebSocketLimits \<Rightarrow> WebSocketLimits" where
  "with_max_incoming_message_size bytes limits = limits\<lparr>max_incoming_message_size := bytes\<rparr>"

definition with_assumed_peer_frame_limit :: "nat option \<Rightarrow> WebSocketLimits \<Rightarrow> WebSocketLimits" where
  "with_assumed_peer_frame_limit bytes limits = limits\<lparr>assumed_peer_frame_limit := bytes\<rparr>"

definition check_outbound :: "WebSocketLimits \<Rightarrow> nat \<Rightarrow> 's RepeError + unit" where
  "check_outbound limits len =
     (case assumed_peer_frame_limit limits of
        Some limit \<Rightarrow> if len > limit then Inl (RE_MessageTooLarge len limit) else Inr ()
      | None \<Rightarrow> Inr ())"

text \<open>The transport's configuration: the reading thresholds only.\<close>

record WebSocketConfig =
  wc_max_frame_size :: "nat option"
  wc_max_message_size :: "nat option"

definition websocket_config :: "WebSocketLimits \<Rightarrow> WebSocketConfig" where
  "websocket_config limits =
     \<lparr>wc_max_frame_size = max_incoming_frame_size limits,
      wc_max_message_size = max_incoming_message_size limits\<rparr>"

text \<open>
  The documented reader of the transport: a message in one frame is accepted when its size
  is within both thresholds.
\<close>

definition within :: "nat \<Rightarrow> nat option \<Rightarrow> bool" where
  "within len limit = (case limit of None \<Rightarrow> True | Some n \<Rightarrow> len \<le> n)"

definition transport_accepts :: "WebSocketConfig \<Rightarrow> nat \<Rightarrow> bool" where
  "transport_accepts config len \<longleftrightarrow>
     within len (wc_max_frame_size config) \<and> within len (wc_max_message_size config)"

definition limit_le :: "nat option \<Rightarrow> nat option \<Rightarrow> bool" where
  "limit_le a b = (case b of None \<Rightarrow> True | Some n \<Rightarrow> (case a of None \<Rightarrow> False | Some m \<Rightarrow> m \<le> n))"

lemma within_mono: "limit_le a b \<Longrightarrow> within len a \<Longrightarrow> within len b"
  by (auto simp: limit_le_def within_def split: option.splits)

lemma check_outbound_ok: "check_outbound limits len = (Inr () :: 's RepeError + unit) \<longleftrightarrow>
    within len (assumed_peer_frame_limit limits)"
  by (auto simp: check_outbound_def within_def split: option.splits)



end
