(* ===== verification/Websocket_Client.thy ===== *)
theory Websocket_Client
  imports Client Client_Table Websocket_Limits Notify_Slot
begin

text \<open>
  The WebSocket client of \<^verbatim>\<open>src/websocket_client.rs\<close>. A message is one binary frame, so a
  frame that does not decode cannot put the connection out of step. Outbound messages are checked against the
  assumed limit of the peer, inbound notifies go to the notify slot and never to a pending call, and the
  end of the connection ends the subscription before it fails the calls. The
  \<^verbatim>\<open>tungstenite\<close> sink and stream are arguments.
\<close>

section \<open>Frames and errors\<close>

datatype WsMessage = WS_Binary bytes | WS_Text | WS_Ping | WS_Pong | WS_Frame | WS_Close

datatype ws_error = WsE_Io io_error | WsE_ConnectionClosed | WsE_AlreadyClosed | WsE_Other string

definition websocket_connect_error :: "(ws_error \<Rightarrow> string) \<Rightarrow> ws_error \<Rightarrow> io_error" where
  "websocket_connect_error show_ws err =
     (case err of WsE_Io io_err \<Rightarrow> io_err | other \<Rightarrow> IoError K_Other (show_ws other))"

definition websocket_transport_error :: "ws_error \<Rightarrow> 's RepeError" where
  "websocket_transport_error err =
     (case err of
        WsE_Io io_err \<Rightarrow> RE_Io io_err
      | WsE_ConnectionClosed \<Rightarrow> RE_Io (IoError K_ConnectionAborted ''websocket connection closed'')
      | WsE_AlreadyClosed \<Rightarrow> RE_Io (IoError K_ConnectionAborted ''websocket connection closed'')
      | WsE_Other text \<Rightarrow> RE_Io (IoError K_Other text))"

definition websocket_closed_error :: "'s RepeError" where
  "websocket_closed_error = RE_Io (IoError K_ConnectionAborted ''websocket connection closed'')"

definition websocket_invalid_data_error :: "string \<Rightarrow> 's RepeError" where
  "websocket_invalid_data_error message = RE_Io (IoError K_InvalidData message)"

definition decode_websocket_frame :: "nat \<Rightarrow> WsMessage \<Rightarrow> 's RepeError + Message option" where
  "decode_websocket_frame usize_max frame =
     (case frame of
        WS_Binary payload \<Rightarrow> res_bind (message_from_slice_exact usize_max payload) (\<lambda>m. Inr (Some m))
      | WS_Ping \<Rightarrow> Inr None
      | WS_Pong \<Rightarrow> Inr None
      | WS_Frame \<Rightarrow> Inr None
      | WS_Close \<Rightarrow> Inl websocket_closed_error
      | WS_Text \<Rightarrow> Inl (websocket_invalid_data_error ''websocket transport requires binary messages''))"

section \<open>The connection\<close>

definition ws_duplicate_request_id_error :: "u64 \<Rightarrow> 's RepeError" where
  "ws_duplicate_request_id_error request_id =
     RE_Io (IoError K_AlreadyExists
       (''request id '' @ dec_str (unat request_id) @ '' is already pending''))"

definition ws_guard_register :: "u64 \<Rightarrow> nat \<Rightarrow> 's Pending \<Rightarrow> 's RepeError + 's Pending" where
  "ws_guard_register request_id k p =
     (if request_id \<in> dom (pd_map p) then Inl (ws_duplicate_request_id_error request_id)
      else Inr (pending_insert request_id k p))"

definition ws_guard_drop :: "bool \<Rightarrow> u64 \<Rightarrow> 's Pending \<Rightarrow> 's Pending" where
  "ws_guard_drop disarmed request_id p = (if disarmed then p else pending_remove request_id p)"

type_synonym 'w ws_send = "WsMessage \<Rightarrow> ('w, ws_error, unit) io"

text \<open>An oversized message is refused before the writer is touched.\<close>

definition ws_write_request ::
    "WebSocketLimits \<Rightarrow> 'w ws_send \<Rightarrow> Message \<Rightarrow> ('w, 's RepeError, unit) io" where
  "ws_write_request limits send msg =
     (let bs = message_to_vec msg in
      io_bind (io_result (check_outbound limits (length bs))) (\<lambda>_ w.
        (case send (WS_Binary bs) w of
           None \<Rightarrow> None
         | Some (Inl err, w) \<Rightarrow> Some (Inl (websocket_transport_error err), w)
         | Some (Inr _, w) \<Rightarrow> Some (Inr (), w))))"

definition close_writer ::
    "'w ws_send \<Rightarrow> ('w, ws_error, unit) io \<Rightarrow> ('w, 's RepeError, unit) io" where
  "close_writer send close w =
     (let w = (case send WS_Close w of Some (_, w) \<Rightarrow> w | None \<Rightarrow> w)
      in case close w of
           None \<Rightarrow> None
         | Some (Inl err, w) \<Rightarrow> Some (Inl (websocket_transport_error err), w)
         | Some (Inr _, w) \<Rightarrow> Some (Inr (), w))"

definition ws_shut :: "'w ws_send \<Rightarrow> ('w, ws_error, unit) io \<Rightarrow> 'w \<Rightarrow> 'w" where
  "ws_shut send close w =
     (case (close_writer send close w :: ((unit RepeError + unit) \<times> 'w) option) of Some (_, w) \<Rightarrow> w | None \<Rightarrow> w)"

text \<open>One turn of the response loop at the reader; \<open>nxt\<close> is \<^verbatim>\<open>reader.next()\<close>.\<close>

definition ws_read_response ::
    "nat \<Rightarrow> ('r \<Rightarrow> (ws_error + WsMessage) option \<times> 'r) \<Rightarrow> 'r \<Rightarrow> ('s read_result \<times> 'r) option" where
  "ws_read_response usize_max nxt r =
     (case nxt r of
        (None, r) \<Rightarrow> Some (Read_Failed websocket_closed_error, r)
      | (Some (Inl err), r) \<Rightarrow> Some (Read_Failed (websocket_transport_error err), r)
      | (Some (Inr frame), r) \<Rightarrow>
          (case decode_websocket_frame usize_max frame of
             Inr (Some message) \<Rightarrow> Some (Read_Message message, r)
           | Inr None \<Rightarrow> Some (Read_Skip, r)
           | Inl err \<Rightarrow> Some (Read_Failed err, r)))"

fun ws_clone_fatal_error_for_waiter ::
    "(io_error \<Rightarrow> string) \<Rightarrow> 's RepeError \<Rightarrow> u64 \<Rightarrow> 's RepeError" where
  "ws_clone_fatal_error_for_waiter dio (RE_Io io_err) request_id =
     RE_Io (IoError (io_error_kind io_err)
       (''request '' @ dec_str (unat request_id) @ '': '' @ dio io_err))"
| "ws_clone_fatal_error_for_waiter dio err request_id = err"

text \<open>A response is a message without the notify flag; the others go to the slot.\<close>

definition ws_ops ::
    "nat \<Rightarrow> (io_error \<Rightarrow> string) \<Rightarrow> WebSocketLimits \<Rightarrow> 'w ws_send \<Rightarrow> ('w, ws_error, unit) io
      \<Rightarrow> ('r \<Rightarrow> (ws_error + WsMessage) option \<times> 'r) \<Rightarrow> ('w, 'r, 's) client_ops" where
  "ws_ops usize_max dio limits send close nxt =
     \<lparr>op_register = ws_guard_register, op_remove = ws_guard_drop False, op_settle = ws_guard_drop False,
      op_write = ws_write_request limits send, op_shut = ws_shut send close,
      op_read = ws_read_response usize_max nxt, op_routes = (\<lambda>m. h_notify (m_header m) = 0),
      op_clone = ws_clone_fatal_error_for_waiter dio, op_closed = response_channel_closed_error,
      op_timed_out = request_timeout_error, op_forwards = False, op_cancels = True\<rparr>"

definition connect_with_limits ::
    "(ws_error \<Rightarrow> string) \<Rightarrow> ('a \<Rightarrow> WebSocketConfig \<Rightarrow> ws_error + 'w \<times> 'r) \<Rightarrow> 'a \<Rightarrow> WebSocketLimits
      \<Rightarrow> io_error + ('w, 'r, 's) ClientState" where
  "connect_with_limits show_ws connect_async url limits =
     res_bind (res_map_err (websocket_connect_error show_ws) (connect_async url (websocket_config limits)))
       (\<lambda>(writer, reader). Inr (client_connected writer reader))"

definition ws_connect where
  "ws_connect show_ws connect_async url = connect_with_limits show_ws connect_async url limits_default"

text \<open>
  The order in which a failed connection is wound up: the notify stream ends first, then the
  writer is closed (\<open>loop_shut\<close>) and the calls are failed (\<open>loop_drain\<close>, \<open>loop_fail\<close>).
\<close>

definition ws_fail_stream :: "'s read_result \<Rightarrow> NotifyChannels \<Rightarrow> NotifyChannels" where
  "ws_fail_stream result channels =
     (case result of Read_Failed err \<Rightarrow> take_notify_sender channels | _ \<Rightarrow> channels)"

section \<open>Batches\<close>

definition ws_batch_worker_join_error :: "string \<Rightarrow> 's RepeError" where
  "ws_batch_worker_join_error err = RE_Io (IoError K_Other (''batch worker failed: '' @ err))"

fun ws_await_workers ::
    "(nat \<Rightarrow> string + ('s RepeError + 'v)) \<Rightarrow> nat list \<Rightarrow> ('s RepeError + 'v) option list
      \<Rightarrow> ('s RepeError + 'v) option list" where
  "ws_await_workers join [] out = out"
| "ws_await_workers join (index # workers) out =
     (let result = (case join index of Inr value \<Rightarrow> value | Inl err \<Rightarrow> Inl (ws_batch_worker_join_error err))
      in ws_await_workers join workers (out[index := Some result]))"

definition ws_batch_json_inner ::
    "(nat \<Rightarrow> string + ('s RepeError + 'v)) \<Rightarrow> 'q list \<Rightarrow> ('s RepeError + 'v) list" where
  "ws_batch_json_inner join requests =
     (let workers = [0..<length requests];
          out = ws_await_workers join workers (replicate (length workers) None)
      in map (\<lambda>entry. case entry of Some result \<Rightarrow> result | None \<Rightarrow> Inl batch_worker_missing_result_error) out)"

section \<open>The methods\<close>

definition ws_call_typed_json_with_optional_timeout ::
    "('v, 's) codec \<Rightarrow> ('u, 's) codec \<Rightarrow> string \<Rightarrow> 'v \<Rightarrow> nat option \<Rightarrow> ('s, 'u) api_call" where
  "ws_call_typed_json_with_optional_timeout cv cu path body timeout =
     \<lparr>ac_request = pointer_request path timeout (with_body_json (cd_to_json cv) body),
      ac_decode = decode_body (cd_invalid_utf8 cu) (cd_from_json cu) (cd_from_beve cu)\<rparr>"

definition ws_call_typed_json where
  "ws_call_typed_json cv cu path body = ws_call_typed_json_with_optional_timeout cv cu path body None"

definition ws_call_typed_json_with_timeout where
  "ws_call_typed_json_with_timeout cv cu path body timeout =
     ws_call_typed_json_with_optional_timeout cv cu path body (Some timeout)"

definition ws_call_typed_beve_with_optional_timeout ::
    "('v, 's) codec \<Rightarrow> ('u, 's) codec \<Rightarrow> string \<Rightarrow> 'v \<Rightarrow> nat option \<Rightarrow> ('s, 'u) api_call" where
  "ws_call_typed_beve_with_optional_timeout cv cu path body timeout =
     \<lparr>ac_request = pointer_request path timeout (with_body_beve (cd_to_beve cv) body),
      ac_decode = decode_body (cd_invalid_utf8 cu) (cd_from_json cu) (cd_from_beve cu)\<rparr>"

definition ws_call_typed_beve where
  "ws_call_typed_beve cv cu path body = ws_call_typed_beve_with_optional_timeout cv cu path body None"

definition ws_call_typed_beve_with_timeout where
  "ws_call_typed_beve_with_timeout cv cu path body timeout =
     ws_call_typed_beve_with_optional_timeout cv cu path body (Some timeout)"

definition ws_call_message_with_formats_and_timeout ::
    "string \<Rightarrow> u16 \<Rightarrow> bytes option \<Rightarrow> u16 \<Rightarrow> nat option \<Rightarrow> ('s, Message) api_call" where
  "ws_call_message_with_formats_and_timeout path query_format body body_format timeout =
     \<lparr>ac_request = \<lparr>rq_path = path, rq_query_format = query_format, rq_timeout = timeout,
        rq_body_fn = formats_body body body_format\<rparr>,
      ac_decode = Inr\<rparr>"

definition ws_call_message :: "string \<Rightarrow> ('s, Message) api_call" where
  "ws_call_message path =
     ws_call_message_with_formats_and_timeout path (query_format_u16 QF_JsonPointer) None
       (body_format_u16 BF_RawBinary) None"

definition ws_call_message_with_timeout :: "string \<Rightarrow> nat \<Rightarrow> ('s, Message) api_call" where
  "ws_call_message_with_timeout path timeout =
     ws_call_message_with_formats_and_timeout path (query_format_u16 QF_JsonPointer) None
       (body_format_u16 BF_RawBinary) (Some timeout)"

definition ws_call_with_formats :: "string \<Rightarrow> u16 \<Rightarrow> bytes option \<Rightarrow> u16 \<Rightarrow> ('s, Message) api_call" where
  "ws_call_with_formats path query_format body body_format =
     ws_call_message_with_formats_and_timeout path query_format body body_format None"

definition ws_call_with_formats_and_timeout ::
    "string \<Rightarrow> u16 \<Rightarrow> bytes option \<Rightarrow> u16 \<Rightarrow> nat \<Rightarrow> ('s, Message) api_call" where
  "ws_call_with_formats_and_timeout path query_format body body_format timeout =
     ws_call_message_with_formats_and_timeout path query_format body body_format (Some timeout)"

definition ws_registry_read_typed :: "('v, 's) codec \<Rightarrow> string \<Rightarrow> ('s, 'v) api_call" where
  "ws_registry_read_typed cv path =
     (let api = ws_call_message path :: ('s, Message) api_call
      in \<lparr>ac_request = ac_request api, ac_decode = (\<lambda>m.
        res_bind (ac_decode api m) (json_body (cd_invalid_utf8 cv) (cd_from_json cv)))\<rparr>)"

definition ws_registry_read_typed_with_timeout :: "('v, 's) codec \<Rightarrow> string \<Rightarrow> nat \<Rightarrow> ('s, 'v) api_call" where
  "ws_registry_read_typed_with_timeout cv path timeout =
     (let api = ws_call_message_with_timeout path timeout :: ('s, Message) api_call
      in \<lparr>ac_request = ac_request api, ac_decode = (\<lambda>m.
        res_bind (ac_decode api m) (json_body (cd_invalid_utf8 cv) (cd_from_json cv)))\<rparr>)"

definition ws_notify_with_builder ::
    "(Message \<Rightarrow> ('w, 's RepeError, unit) io) \<Rightarrow> string \<Rightarrow> u16 \<Rightarrow> (MessageBuilder \<Rightarrow> MessageBuilder)
      \<Rightarrow> (('w, 'r, 's) ClientState, 's RepeError, unit) io" where
  "ws_notify_with_builder write path query_format body_fn s =
     (case next_request_id s of
        (rid, s) \<Rightarrow>
          (case write (notify_message rid \<lparr>rq_path = path, rq_query_format = query_format,
                  rq_timeout = None, rq_body_fn = body_fn\<rparr>) (cs_writer s) of
             None \<Rightarrow> None
           | Some (x, w) \<Rightarrow> Some (x, s\<lparr>cs_writer := w\<rparr>)))"

definition ws_notify_with_body where
  "ws_notify_with_body write path body_fn =
     ws_notify_with_builder write path (query_format_u16 QF_JsonPointer) body_fn"

definition ws_notify_json where
  "ws_notify_json write cv path body = ws_notify_with_body write path (with_body_json (cd_to_json cv) body)"

definition ws_notify_beve where
  "ws_notify_beve write cv path body = ws_notify_with_body write path (with_body_beve (cd_to_beve cv) body)"

definition ws_notify_with_message_formats where
  "ws_notify_with_message_formats write path query_format body body_format =
     ws_notify_with_builder write path query_format (formats_body body body_format)"

definition ws_notify_with_formats where
  "ws_notify_with_formats write path query_format body body_format =
     ws_notify_with_message_formats write path query_format body body_format"

section \<open>The WebSocket client keeps the contract\<close>

text \<open>The documented sink: once closed, it refuses every message.\<close>

locale ws_sink =
  fixes send :: "'w ws_send"
    and close :: "('w, ws_error, unit) io"
    and dead :: "'w \<Rightarrow> bool"
  assumes send_total: "send m w \<noteq> None"
    and close_total: "close w \<noteq> None"
    and send_dead: "dead w \<Longrightarrow> \<exists>e w'. send m w = Some (Inl e, w') \<and> dead w'"
    and close_dead: "close w = Some (x, w') \<Longrightarrow> dead w'"
begin

lemma ws_write_total: "ws_write_request limits send m w \<noteq> None"
  using send_total [of "WS_Binary (message_to_vec m)" w]
  by (auto simp: ws_write_request_def io_bind_def io_result_def Let_def check_outbound_def
      split: option.splits sum.splits if_splits)

lemma ws_write_dead:
  assumes "dead w"
  shows "\<exists>e w'. ws_write_request limits send m w = Some (Inl e :: 's RepeError + unit, w') \<and> dead w'"
  using send_dead [OF assms, of "WS_Binary (message_to_vec m)"] assms
  by (auto simp: ws_write_request_def io_bind_def io_result_def Let_def check_outbound_def
      split: option.splits sum.splits if_splits)

lemma ws_shut_dead: "dead (ws_shut send close w)"
proof -
  obtain x w1 where "send WS_Close w = Some (x, w1)"
    using send_total [of WS_Close w] by (cases "send WS_Close w") auto
  moreover obtain y w2 where "close w1 = Some (y, w2)"
    using close_total [of w1] by (cases "close w1") auto
  ultimately show ?thesis
    using close_dead [of w1 y w2] by (cases y) (auto simp: ws_shut_def close_writer_def)
qed

end

sublocale ws_sink \<subseteq> websocket: clean_client "ws_ops usize_max dio limits send close nxt" dead
  for usize_max dio limits nxt
proof
  fix rid k p p' m w
  let ?ops = "ws_ops usize_max dio limits send close nxt"
  show "op_register ?ops rid k p = Inr p' \<Longrightarrow> p' = pending_insert rid k p"
    by (simp add: ws_ops_def ws_guard_register_def split: if_splits)
  show "op_remove ?ops rid p = p \<or> op_remove ?ops rid p = pending_remove rid p"
    by (simp add: ws_ops_def ws_guard_drop_def)
  show "op_settle ?ops rid p = p \<or> op_settle ?ops rid p = pending_remove rid p"
    by (simp add: ws_ops_def ws_guard_drop_def)
  show "op_write ?ops m w \<noteq> None" by (simp add: ws_ops_def ws_write_total)
  show "dead w \<Longrightarrow> \<exists>e w'. op_write ?ops m w = Some (Inl e, w') \<and> dead w'"
    using ws_write_dead by (simp add: ws_ops_def)
  show "dead (op_shut ?ops w)" by (simp add: ws_ops_def ws_shut_dead)
  show "op_remove ?ops rid p = pending_remove rid p" by (simp add: ws_ops_def ws_guard_drop_def)
qed

context ws_sink
begin

lemma ws_contract: "clean_client (ws_ops usize_max dio limits send close nxt) dead"
  by (rule websocket.clean_client_axioms)

end

text \<open>A sink that keeps what it sent, until it is closed.\<close>

record WsPipe =
  wp_sent :: "WsMessage list"
  wp_open :: bool

definition pipe_send :: "WsPipe ws_send" where
  "pipe_send m w =
     (if wp_open w then Some (Inr (), w\<lparr>wp_sent := wp_sent w @ [m]\<rparr>) else Some (Inl WsE_AlreadyClosed, w))"

definition pipe_close :: "(WsPipe, ws_error, unit) io" where
  "pipe_close w = Some (if wp_open w then Inr () else Inl WsE_ConnectionClosed, w\<lparr>wp_open := False\<rparr>)"

fun frames_next :: "WsMessage list \<Rightarrow> (ws_error + WsMessage) option \<times> WsMessage list" where
  "frames_next [] = (None, [])"
| "frames_next (frame # rest) = (Some (Inr frame), rest)"

interpretation pipe: ws_sink pipe_send pipe_close "\<lambda>w. \<not> wp_open w"
  by unfold_locales (auto simp: pipe_send_def pipe_close_def)

section \<open>Properties of the WebSocket client\<close>

lemma decode_binary_iff:
  "decode_websocket_frame usize_max (WS_Binary payload) = (Inr (Some m) :: 's RepeError + Message option) \<longleftrightarrow>
     message_from_slice_exact usize_max payload = (Inr m :: 's RepeError + Message)"
  by (simp add: decode_websocket_frame_def res_bind_case split: sum.splits)

text \<open>The example connection on the WebSocket client.\<close>

definition sample_ws_ops :: "(WsPipe, WsMessage list, unit) client_ops" where
  "sample_ws_ops = ws_ops 65535 (\<lambda>_. []) limits_default pipe_send pipe_close frames_next"

interpretation sample_ws: clean_client sample_ws_ops "\<lambda>w. \<not> wp_open w"
  unfolding sample_ws_ops_def by (rule pipe.ws_contract)

lemma sample_ws_write:
  "wp_open w \<Longrightarrow> ws_write_request limits_default pipe_send (request_message rid sample_request) w
     = Some (Inr () :: unit RepeError + unit,
         w\<lparr>wp_sent := wp_sent w @ [WS_Binary (message_to_vec (request_message rid sample_request))]\<rparr>)"
  by (simp add: ws_write_request_def io_bind_def io_result_def check_outbound_def limits_default_def
      DEFAULT_MAX_FRAME_SIZE_def push_bit_eq_mult pipe_send_def serialized_len_def request_message_def sample_request_def
      pointer_request_def builder_defs as_bytes_def HEADER_SIZE_def)

lemma sample_ws_run:
  "\<exists>s c0 c1. reachable connected (client_step sample_ws_ops) s \<and> cs_loop s = R_Failed websocket_closed_error
    \<and> cs_calls s 0 = Some c0 \<and> ca_phase c0 = Done (Inr sample_response) \<and> ca_id c0 = 1
    \<and> cs_calls s 1 = Some c1 \<and> ca_phase c1 = Waiting \<and> pd_map (cs_pending s) 2 = Some 1"
proof -
  let ?w = "\<lparr>wp_sent = [], wp_open = True\<rparr>"
  let ?f = "\<lambda>rid. WS_Binary (message_to_vec (request_message rid sample_request))"
  have "message_from_slice_exact 65535 (message_to_vec sample_response) = (Inr sample_response :: unit RepeError + Message)"
    by (simp add: message_from_slice_exact_Inr_iff sample_response_wf)
  then have read: "ws_read_response 65535 frames_next [WS_Binary (message_to_vec sample_response)]
      = Some (Read_Message sample_response :: unit read_result, [])"
    by (simp add: ws_read_response_def decode_websocket_frame_def)
  have eof: "ws_read_response 65535 frames_next [] = Some (Read_Failed websocket_closed_error :: unit read_result, [])"
    by (simp add: ws_read_response_def)
  have response: "h_notify (m_header sample_response) = 0"
    by (simp add: sample_response_def builder_defs build_def)
  show ?thesis
    by (rule sample_ws.two_calls [of sample_request ?w "?w\<lparr>wp_sent := [?f 1]\<rparr>" "?w\<lparr>wp_sent := [?f 1, ?f 2]\<rparr>"
          "[WS_Binary (message_to_vec sample_response)]" sample_response "[]" websocket_closed_error "[]"])
      (auto simp: sample_ws_ops_def ws_ops_def ws_guard_register_def sample_ws_write read eof response
        sample_response_answers)
qed

text \<open>
  A WebSocket call returns only a response that was read from this connection with its own id, this
  protocol version, no error and no notify flag: a notify the server pushes is never taken
  for the answer to a call that happens to have the same id.
\<close>

theorem ws_response_is_own:
  assumes "ws_sink send close dead"
    and "reachable connected (client_step (ws_ops usize_max dio limits send close nxt)) s"
    and "cs_calls s k = Some c" and "ca_phase c = Done (Inr m)"
  shows "m \<in> set (cs_log s) \<and> h_id (m_header m) = ca_id c \<and> h_version (m_header m) = REPE_VERSION
    \<and> h_ec (m_header m) = error_code_u32 EC_Ok \<and> h_notify (m_header m) = 0"
proof -
  note contract = clean_client.axioms(1) [OF ws_sink.ws_contract [OF assms(1)]]
  have "ca_check c = validate_response"
    by (rule client_contract.validates_unless_forwarding [OF contract assms(2) _ assms(3)])
      (simp add: ws_ops_def)
  moreover from client_contract.result_routed [OF contract assms(2-4)]
  have "h_notify (m_header m) = 0" by (simp add: ws_ops_def)
  ultimately show ?thesis using client_contract.response_is_own [OF contract assms(2-4)] by blast
qed

theorem ws_response_is_own_witness:
  "\<exists>s c. cs_calls s 0 = Some c \<and> ca_phase c = Done (Inr sample_response)
    \<and> reachable connected (client_step sample_ws_ops) s
    \<and> sample_response \<in> set (cs_log s) \<and> h_id (m_header sample_response) = ca_id c"
proof -
  obtain s c0 where s: "reachable connected (client_step sample_ws_ops) s" "cs_calls s 0 = Some c0"
    "ca_phase c0 = Done (Inr sample_response)" using sample_ws_run by blast
  with ws_response_is_own [OF pipe.ws_sink_axioms s(1) [unfolded sample_ws_ops_def] s(2,3)]
  show ?thesis by blast
qed

text \<open>
  When a WebSocket connection fails, every call that is not dropped returns within three
  steps of its own after the loop's.
\<close>

theorem ws_failure_wakes_calls:
  assumes "ws_sink send close dead"
    and "reachable connected (client_step (ws_ops usize_max dio limits send close nxt)) s"
    and "cs_loop s = R_Failed e" and "cs_calls s k = Some c" and "ca_phase c \<noteq> Dropped"
  shows "\<exists>l n t r. n \<le> 3
    \<and> steps (client_step (ws_ops usize_max dio limits send close nxt)) s
        (replicate l Response_Loop @ replicate n (Caller k)) t
    \<and> cs_calls t k = Some (c\<lparr>ca_phase := Done r\<rparr>)"
  by (rule client_contract.failed_call_returns
      [OF clean_client.axioms(1) [OF ws_sink.ws_contract [OF assms(1)]] assms(2-5)])

theorem ws_failure_wakes_calls_witness:
  "\<exists>s c l n t r. ca_phase c = Waiting \<and> cs_calls s 1 = Some c \<and> n \<le> 3
    \<and> steps (client_step sample_ws_ops) s (replicate l Response_Loop @ replicate n (Caller 1)) t
    \<and> cs_calls t 1 = Some (c\<lparr>ca_phase := Done r\<rparr>)"
proof -
  obtain s c1 where s: "reachable connected (client_step sample_ws_ops) s"
    "cs_loop s = R_Failed websocket_closed_error" "cs_calls s 1 = Some c1" "ca_phase c1 = Waiting"
    using sample_ws_run by blast
  have "ca_phase c1 \<noteq> Dropped" by (simp add: s(4))
  with ws_failure_wakes_calls [OF pipe.ws_sink_axioms s(1) [unfolded sample_ws_ops_def] s(2,3)] s(3,4)
  show ?thesis unfolding sample_ws_ops_def by blast
qed

text \<open>
  The documentation of \<^verbatim>\<open>subscribe_notifies\<close> says that a malformed inbound frame does not end the stream on
  its own. It does: a frame that does not decode fails the connection, and the subscription is the first thing
  that is ended.
\<close>

theorem malformed_frame_ends_subscription:
  assumes "message_from_slice_exact usize_max payload = (Inl err :: 's RepeError + Message)"
    and "nxt r = (Some (Inr (WS_Binary payload)), r')" and "nc_slot channels = Some ch"
  shows "ws_read_response usize_max nxt r = Some (Read_Failed err, r')
    \<and> nc_slot (ws_fail_stream (Read_Failed err) channels) = None
    \<and> nc_ended (ws_fail_stream (Read_Failed err) channels) ch"
  using assms
  by (simp add: ws_read_response_def decode_websocket_frame_def ws_fail_stream_def take_notify_sender_def
      end_stream_def)

end
