(* ===== verification/Websocket_Upgrade.thy ===== *)
theory Websocket_Upgrade
  imports Websocket_Client
begin

text \<open>
  The HTTP side of the WebSocket server (\<^verbatim>\<open>src/websocket_server.rs\<close>): telling an upgrade from
  plain HTTP by looking at the first bytes of a connection, the path an endpoint answers to, what is
  kept of the handshake request, and accepting a connection. The handshake itself is
  \<^verbatim>\<open>tungstenite\<close>'s: \<open>accept_hdr\<close>, which is given the callback that validates the request.
\<close>

section \<open>Sniffing an upgrade\<close>

definition is_ascii_whitespace :: "u8 \<Rightarrow> bool" where
  "is_ascii_whitespace b \<longleftrightarrow> b \<in> {0x20, 0x09, 0x0A, 0x0C, 0x0D}"

definition trim_ascii :: "bytes \<Rightarrow> bytes" where
  "trim_ascii bs = rev (dropWhile is_ascii_whitespace (rev (dropWhile is_ascii_whitespace bs)))"

definition to_ascii_lowercase :: "u8 \<Rightarrow> u8" where
  "to_ascii_lowercase b = (if 0x41 \<le> b \<and> b \<le> 0x5A then b + 0x20 else b)"

definition eq_ignore_ascii_case :: "bytes \<Rightarrow> bytes \<Rightarrow> bool" where
  "eq_ignore_ascii_case a b \<longleftrightarrow> map to_ascii_lowercase a = map to_ascii_lowercase b"

definition windows :: "nat \<Rightarrow> 'a list \<Rightarrow> 'a list list" where
  "windows n xs = map (\<lambda>i. take n (drop i xs)) [0..<Suc (length xs) - n]"

fun position :: "('a \<Rightarrow> bool) \<Rightarrow> 'a list \<Rightarrow> nat option" where
  "position p [] = None"
| "position p (x # xs) = (if p x then Some 0 else map_option Suc (position p xs))"

fun split_bytes :: "u8 \<Rightarrow> bytes \<Rightarrow> bytes list" where
  "split_bytes sep [] = [[]]"
| "split_bytes sep (b # bs) =
     (if b = sep then [] # split_bytes sep bs
      else (case split_bytes sep bs of l # ls \<Rightarrow> (b # l) # ls | [] \<Rightarrow> [[b]]))"

definition find_subslice :: "bytes \<Rightarrow> bytes \<Rightarrow> nat option" where
  "find_subslice haystack needle = position (\<lambda>w. w = needle) (windows (length needle) haystack)"

definition contains_ignore_ascii_case :: "bytes \<Rightarrow> bytes \<Rightarrow> bool" where
  "contains_ignore_ascii_case haystack needle =
     (if needle = [] then True
      else if length haystack < length needle then False
      else list_ex (\<lambda>w. eq_ignore_ascii_case w needle) (windows (length needle) haystack))"

definition crlf :: bytes where
  "crlf = [0x0D, 0x0A]"

fun scan_lines :: "bytes list \<Rightarrow> bool" where
  "scan_lines [] = False"
| "scan_lines (line # lines) =
     (let line = trim_ascii line in
      case position (\<lambda>b. b = 0x3A) line of
        None \<Rightarrow> scan_lines lines
      | Some colon \<Rightarrow>
          (let name = take colon line; rest = drop colon line
           in if eq_ignore_ascii_case name (as_bytes ''upgrade'')
                 \<and> contains_ignore_ascii_case (drop 1 rest) (as_bytes ''websocket'')
              then True else scan_lines lines))"

definition head_requests_websocket_upgrade :: "bytes \<Rightarrow> bool" where
  "head_requests_websocket_upgrade head =
     (let block = (case find_subslice head (crlf @ crlf) of Some n \<Rightarrow> take n head | None \<Rightarrow> head)
      in scan_lines (split_bytes 0x0A block))"

text \<open>\<open>peek\<close> is \<^verbatim>\<open>TcpStream::peek\<close> into a buffer of the given size.\<close>

definition is_websocket_upgrade :: "(nat \<Rightarrow> io_error + bytes) \<Rightarrow> io_error + bool" where
  "is_websocket_upgrade peek = res_bind (peek 1024) (\<lambda>buf. Inr (head_requests_websocket_upgrade buf))"

section \<open>The endpoint's path\<close>

definition normalize_path :: "string \<Rightarrow> string" where
  "normalize_path path =
     (if path = [] \<or> path = ''/'' then ''/''
      else if starts_with path ''/'' then trim_end_matches (CHR ''/'') path
      else ''/'' @ trim_end_matches (CHR ''/'') path)"

text \<open>The parts of an \<^verbatim>\<open>http::Request\<close> the server reads; header values are bytes.\<close>

record HttpRequest =
  hr_path :: string
  hr_query :: "string option"
  hr_headers :: "(string \<times> bytes) list"

record HandshakeContext =
  hc_path :: string
  hc_query :: "string option"
  hc_headers :: "(string \<times> string) list"

text \<open>\<open>to_str\<close> is \<^verbatim>\<open>HeaderValue::to_str\<close>, \<open>None\<close> for a value that is not visible ASCII.\<close>

definition from_http_request :: "(bytes \<Rightarrow> string option) \<Rightarrow> HttpRequest \<Rightarrow> HandshakeContext" where
  "from_http_request to_str request =
     (let headers = List.map_filter (\<lambda>(name, value). map_option (\<lambda>v. (name, v)) (to_str value)) (hr_headers request)
      in \<lparr>hc_path = hr_path request, hc_query = hr_query request, hc_headers = headers\<rparr>)"

definition handshake_header :: "HandshakeContext \<Rightarrow> string \<Rightarrow> string option" where
  "handshake_header ctx name =
     map_option snd (find (\<lambda>(n, _). eq_ignore_ascii_case (as_bytes n) (as_bytes name)) (hc_headers ctx))"

record ErrorResponse =
  er_status :: nat
  er_body :: "string option"

definition path_not_found_response :: "HttpRequest \<Rightarrow> ErrorResponse" where
  "path_not_found_response request =
     \<lparr>er_status = 404, er_body = Some (''REPE websocket endpoint not found: '' @ hr_path request)\<rparr>"

text \<open>
  The callback of the handshake: the slot is \<open>None\<close> when nothing is to be captured, and
  otherwise holds what was.
\<close>

type_synonym slot = "HandshakeContext option option"

definition on_request ::
    "(bytes \<Rightarrow> string option) \<Rightarrow> string \<Rightarrow> HttpRequest \<Rightarrow> slot \<Rightarrow> (ErrorResponse + unit) \<times> slot" where
  "on_request to_str expected request captured =
     (if hr_path request = expected
      then (Inr (), case captured of
              Some _ \<Rightarrow> Some (Some (from_http_request to_str request))
            | None \<Rightarrow> None)
      else (Inl (path_not_found_response request), captured))"

type_synonym ('k, 'ws) accept_hdr =
  "(HttpRequest \<Rightarrow> slot \<Rightarrow> (ErrorResponse + unit) \<times> slot) \<Rightarrow> WebSocketConfig \<Rightarrow> 'k \<Rightarrow> slot
    \<Rightarrow> (ws_error + 'ws) \<times> slot"

definition ws_server_transport_error :: "ws_error \<Rightarrow> 's RepeError" where
  "ws_server_transport_error err =
     (case err of
        WsE_Io io_err \<Rightarrow> RE_Io io_err
      | WsE_ConnectionClosed \<Rightarrow> RE_Io (IoError K_ConnectionAborted ''websocket connection closed'')
      | WsE_AlreadyClosed \<Rightarrow> RE_Io (IoError K_ConnectionAborted ''websocket connection closed'')
      | WsE_Other text \<Rightarrow> RE_Io (IoError K_Other text))"

definition accept_repe_websocket ::
    "(bytes \<Rightarrow> string option) \<Rightarrow> ('k, 'ws) accept_hdr \<Rightarrow> 'k \<Rightarrow> string \<Rightarrow> bool \<Rightarrow> WebSocketLimits
      \<Rightarrow> 's RepeError + ('ws \<times> HandshakeContext option)" where
  "accept_repe_websocket to_str accept_hdr stream expected_path capture_handshake limits =
     (let captured = (if capture_handshake then Some None else None)
      in case accept_hdr (on_request to_str expected_path) (websocket_config limits) stream captured of
           (Inl err, _) \<Rightarrow> Inl (ws_server_transport_error err)
         | (Inr ws, captured) \<Rightarrow> Inr (ws, Option.bind captured (\<lambda>s. s)))"

definition accept_with_limits ::
    "(bytes \<Rightarrow> string option) \<Rightarrow> ('k, 'ws) accept_hdr \<Rightarrow> 'k \<Rightarrow> string \<Rightarrow> WebSocketLimits \<Rightarrow> 's RepeError + 'ws" where
  "accept_with_limits to_str accept_hdr stream path limits =
     res_bind (accept_repe_websocket to_str accept_hdr stream (normalize_path path) False limits)
       (\<lambda>(ws, _). Inr ws)"

definition ws_accept ::
    "(bytes \<Rightarrow> string option) \<Rightarrow> ('k, 'ws) accept_hdr \<Rightarrow> 'k \<Rightarrow> string \<Rightarrow> 's RepeError + 'ws" where
  "ws_accept to_str accept_hdr stream path = accept_with_limits to_str accept_hdr stream path limits_default"

text \<open>\<open>None\<close> is the panic of the \<^verbatim>\<open>expect\<close>.\<close>

definition accept_with_handshake_and_limits ::
    "(bytes \<Rightarrow> string option) \<Rightarrow> ('k, 'ws) accept_hdr \<Rightarrow> 'k \<Rightarrow> string \<Rightarrow> WebSocketLimits
      \<Rightarrow> ('s RepeError + ('ws \<times> HandshakeContext)) option" where
  "accept_with_handshake_and_limits to_str accept_hdr stream path limits =
     (case accept_repe_websocket to_str accept_hdr stream (normalize_path path) True limits of
        Inl err \<Rightarrow> Some (Inl err)
      | Inr (ws, Some handshake) \<Rightarrow> Some (Inr (ws, handshake))
      | Inr (_, None) \<Rightarrow> None)"

definition accept_with_handshake where
  "accept_with_handshake to_str accept_hdr stream path =
     accept_with_handshake_and_limits to_str accept_hdr stream path limits_default"

section \<open>Sniffing recognises rendered requests\<close>

text \<open>The bytes of a request head, and the rest of the stream behind it.\<close>

definition header_line :: "bytes \<times> bytes \<Rightarrow> bytes" where
  "header_line h = fst h @ [0x3A] @ snd h"

definition request_bytes :: "bytes \<Rightarrow> (bytes \<times> bytes) list \<Rightarrow> bytes \<Rightarrow> bytes" where
  "request_bytes request_line headers body =
     concat (map (\<lambda>l. l @ crlf) (request_line # map header_line headers)) @ crlf @ body"

definition plain_line :: "bytes \<Rightarrow> bool" where
  "plain_line l \<longleftrightarrow> 0x0D \<notin> set l \<and> 0x0A \<notin> set l"

definition wf_request_line :: "bytes \<Rightarrow> bool" where
  "wf_request_line l \<longleftrightarrow> plain_line l \<and> l \<noteq> [] \<and> \<not> is_ascii_whitespace (hd l) \<and> 0x20 \<in> set (takeWhile (\<lambda>b. b \<noteq> 0x3A) l)"

definition wf_http_header :: "bytes \<times> bytes \<Rightarrow> bool" where
  "wf_http_header h \<longleftrightarrow> plain_line (snd h) \<and> 0x3A \<notin> set (fst h) \<and> (\<forall>b\<in>set (fst h). \<not> is_ascii_whitespace b)"

lemma windows_Cons: "0 < n \<Longrightarrow> n \<le> Suc (length xs) \<Longrightarrow> windows n (x # xs) = take n (x # xs) # windows n xs"
  by (simp add: windows_def Suc_diff_le map_upt_Suc del: upt_Suc)

lemma windows_short: "length xs < n \<Longrightarrow> windows n xs = []"
  by (simp add: windows_def)

lemma find_subslice_Cons:
  assumes "needle \<noteq> []"
  shows "find_subslice (x # xs) needle =
    (if take (length needle) (x # xs) = needle then Some 0 else map_option Suc (find_subslice xs needle))"
proof (cases "length needle \<le> Suc (length xs)")
  case True
  with assms show ?thesis by (simp add: find_subslice_def windows_Cons)
next
  case False
  then have "length (take (length needle) (x # xs)) \<noteq> length needle" by simp
  then have "take (length needle) (x # xs) \<noteq> needle" by metis
  with False show ?thesis by (simp add: find_subslice_def windows_short)
qed

lemma find_end_skip:
  "x \<noteq> 0x0D \<Longrightarrow> find_subslice (x # xs) (crlf @ crlf) = map_option Suc (find_subslice xs (crlf @ crlf))"
  by (simp add: find_subslice_Cons crlf_def)

lemma find_end_plain:
  "plain_line l \<Longrightarrow> find_subslice (l @ xs) (crlf @ crlf) = map_option ((+) (length l)) (find_subslice xs (crlf @ crlf))"
proof (induction l)
  case Nil
  then show ?case by (simp add: option.map_ident)
next
  case (Cons x l)
  then show ?case by (simp add: find_end_skip plain_line_def option.map_comp comp_def)
qed

lemma find_end_break:
  assumes "plain_line m" and "m \<noteq> []"
  shows "find_subslice (crlf @ m @ xs) (crlf @ crlf)
     = map_option ((+) (2 + length m)) (find_subslice xs (crlf @ crlf))"
proof -
  from assms obtain y ys where m: "m = y # ys" "y \<noteq> 0x0D"
    by (cases m) (auto simp: plain_line_def)
  have "find_subslice (crlf @ m @ xs) (crlf @ crlf) = map_option ((+) 2) (find_subslice (m @ xs) (crlf @ crlf))"
    using m by (simp add: find_subslice_Cons crlf_def option.map_comp comp_def)
  moreover have "(+) 2 \<circ> (+) (length m) = (+) (2 + length m)" by auto
  ultimately show ?thesis by (simp add: find_end_plain [OF assms(1)] option.map_comp)
qed

lemma find_breaks:
  "\<forall>m\<in>set ls. plain_line m \<and> m \<noteq> [] \<Longrightarrow>
   find_subslice (concat (map (\<lambda>m. crlf @ m) ls) @ crlf @ crlf @ body) (crlf @ crlf)
     = Some (length (concat (map (\<lambda>m. crlf @ m) ls)))"
proof (induction ls)
  case Nil
  show ?case by (simp add: find_subslice_Cons crlf_def)
next
  case (Cons m ls)
  then show ?case by (simp add: find_end_break) (simp add: crlf_def)
qed

lemma find_head_end:
  "plain_line l \<Longrightarrow> \<forall>m\<in>set ls. plain_line m \<and> m \<noteq> [] \<Longrightarrow>
   find_subslice (l @ concat (map (\<lambda>m. crlf @ m) ls) @ crlf @ crlf @ body) (crlf @ crlf)
     = Some (length (l @ concat (map (\<lambda>m. crlf @ m) ls)))"
  by (simp add: find_end_plain find_breaks)

definition line_upgrades :: "bytes \<Rightarrow> bool" where
  "line_upgrades line =
     (case position (\<lambda>b. b = 0x3A) (trim_ascii line) of
        None \<Rightarrow> False
      | Some colon \<Rightarrow>
          eq_ignore_ascii_case (take colon (trim_ascii line)) (as_bytes ''upgrade'')
          \<and> contains_ignore_ascii_case (drop (Suc colon) (trim_ascii line)) (as_bytes ''websocket''))"

lemma scan_lines_ex: "scan_lines ls \<longleftrightarrow> list_ex line_upgrades ls"
  by (induction ls) (auto simp: line_upgrades_def Let_def split: option.splits)

lemma split_bytes_line: "sep \<notin> set l \<Longrightarrow> split_bytes sep (l @ sep # xs) = l # split_bytes sep xs"
  by (induction l) auto

lemma split_bytes_last: "sep \<notin> set l \<Longrightarrow> split_bytes sep l = [l]"
  by (induction l) auto

lemma trim_ascii_cr: "trim_ascii (l @ [0x0D]) = trim_ascii l"
proof (cases "\<forall>b\<in>set l. is_ascii_whitespace b")
  case True
  have "is_ascii_whitespace 0x0D" by (simp add: is_ascii_whitespace_def)
  with True have "dropWhile is_ascii_whitespace (l @ [0x0D]) = []" "dropWhile is_ascii_whitespace l = []"
    by (auto simp: dropWhile_append2)
  then show ?thesis unfolding trim_ascii_def by (simp only:)
next
  case False
  then show ?thesis
    by (auto simp: trim_ascii_def dropWhile_append1 is_ascii_whitespace_def [of "0x0D"])
qed

lemma scan_block:
  "plain_line l \<Longrightarrow> \<forall>m\<in>set ls. plain_line m \<Longrightarrow>
   scan_lines (split_bytes 0x0A (l @ concat (map (\<lambda>m. crlf @ m) ls))) \<longleftrightarrow> list_ex line_upgrades (l # ls)"
proof (induction ls arbitrary: l)
  case Nil
  then show ?case by (simp add: split_bytes_last plain_line_def scan_lines_ex)
next
  case (Cons m ls)
  have "0x0A \<notin> set (l @ [0x0D])" using Cons.prems(1) by (simp add: plain_line_def)
  from split_bytes_line [OF this] have
    "split_bytes 0x0A (l @ concat (map (\<lambda>m. crlf @ m) (m # ls)))
      = (l @ [0x0D]) # split_bytes 0x0A (m @ concat (map (\<lambda>m. crlf @ m) ls))"
    by (simp add: crlf_def)
  moreover have "line_upgrades (l @ [0x0D]) = line_upgrades l"
    unfolding line_upgrades_def trim_ascii_cr ..
  ultimately show ?case using Cons by (simp add: scan_lines_ex)
qed

definition trim_end_ascii :: "bytes \<Rightarrow> bytes" where
  "trim_end_ascii bs = rev (dropWhile is_ascii_whitespace (rev bs))"

lemma eq_ignore_length: "eq_ignore_ascii_case a b \<Longrightarrow> length a = length b"
  unfolding eq_ignore_ascii_case_def by (metis length_map)

lemma contains_iff:
  "contains_ignore_ascii_case h n \<longleftrightarrow> (\<exists>a w b. h = a @ w @ b \<and> eq_ignore_ascii_case w n)"
proof
  assume c: "contains_ignore_ascii_case h n"
  show "\<exists>a w b. h = a @ w @ b \<and> eq_ignore_ascii_case w n"
  proof (cases "n = []")
    case True
    then have "h = [] @ [] @ h \<and> eq_ignore_ascii_case [] n" by (simp add: eq_ignore_ascii_case_def)
    then show ?thesis by blast
  next
    case False
    with c obtain i where "eq_ignore_ascii_case (take (length n) (drop i h)) n"
      by (auto simp: contains_ignore_ascii_case_def windows_def list_ex_iff split: if_splits)
    moreover have "h = take i h @ take (length n) (drop i h) @ drop (length n) (drop i h)"
      by (simp del: take_drop drop_drop)
    ultimately show ?thesis by blast
  qed
next
  assume "\<exists>a w b. h = a @ w @ b \<and> eq_ignore_ascii_case w n"
  then obtain a w b where h: "h = a @ w @ b" and w: "eq_ignore_ascii_case w n" by blast
  from eq_ignore_length [OF w] have "take (length n) (drop (length a) h) = w"
    "length a < Suc (length h) - length n" "\<not> length h < length n" by (simp_all add: h)
  with w show "contains_ignore_ascii_case h n"
    by (auto simp: contains_ignore_ascii_case_def windows_def list_ex_iff intro!: bexI [of _ "length a"])
qed

lemma trim_end_split:
  obtains ws where "v = trim_end_ascii v @ ws" and "\<forall>b\<in>set ws. is_ascii_whitespace b"
proof
  show "v = trim_end_ascii v @ rev (takeWhile is_ascii_whitespace (rev v))"
    unfolding trim_end_ascii_def by (metis rev_append rev_rev_ident takeWhile_dropWhile_id)
qed (auto dest: set_takeWhileD)

lemma contains_trim_end:
  assumes "\<And>w. eq_ignore_ascii_case w n \<Longrightarrow> w \<noteq> [] \<and> \<not> is_ascii_whitespace (last w)"
  shows "contains_ignore_ascii_case (trim_end_ascii v) n \<longleftrightarrow> contains_ignore_ascii_case v n"
proof
  obtain ws where v: "v = trim_end_ascii v @ ws" and ws: "\<forall>b\<in>set ws. is_ascii_whitespace b"
    by (rule trim_end_split)
  show "contains_ignore_ascii_case v n" if "contains_ignore_ascii_case (trim_end_ascii v) n"
    using that v unfolding contains_iff by (metis append.assoc)
  assume "contains_ignore_ascii_case v n"
  then obtain a w b where h: "v = a @ w @ b" and w: "eq_ignore_ascii_case w n" unfolding contains_iff by blast
  have "(a @ w) @ b = trim_end_ascii v @ ws" using h v by simp
  then obtain us where us: "(a @ w) = trim_end_ascii v @ us \<and> us @ b = ws \<or> (a @ w) @ us = trim_end_ascii v \<and> b = us @ ws"
    unfolding append_eq_append_conv2 by blast
  from assms [OF w] have ne: "w \<noteq> []" "\<not> is_ascii_whitespace (last (a @ w))" by simp_all
  have "us = []" if "(a @ w) = trim_end_ascii v @ us" "us @ b = ws"
  proof (rule ccontr)
    assume "us \<noteq> []"
    then have "last (a @ w) \<in> set ws" using that by (metis UnCI last_appendR last_in_set set_append)
    with ws ne show False by blast
  qed
  with us have "\<exists>b'. trim_end_ascii v = a @ w @ b'" by (metis append.assoc append_Nil2)
  with w show "contains_ignore_ascii_case (trim_end_ascii v) n" unfolding contains_iff by blast
qed

lemma websocket_last:
  assumes "eq_ignore_ascii_case w (as_bytes ''websocket'')"
  shows "w \<noteq> [] \<and> \<not> is_ascii_whitespace (last w)"
proof -
  have ne: "w \<noteq> []" using eq_ignore_length [OF assms] by (auto simp: as_bytes_def)
  have "to_ascii_lowercase (last w) = last (map to_ascii_lowercase w)" using ne by (simp add: last_map)
  also have "\<dots> = 0x74"
    using assms unfolding eq_ignore_ascii_case_def by (simp add: as_bytes_def to_ascii_lowercase_def)
  finally show ?thesis using ne by (auto simp: is_ascii_whitespace_def to_ascii_lowercase_def)
qed

lemma position_first: "x \<notin> set n \<Longrightarrow> position (\<lambda>b. b = x) (n @ x # v) = Some (length n)"
  by (induction n) auto

lemma trim_header_line:
  assumes "wf_http_header h"
  shows "trim_ascii (header_line h) = fst h @ 0x3A # trim_end_ascii (snd h)"
proof -
  have ws: "\<not> is_ascii_whitespace 0x3A" by (simp add: is_ascii_whitespace_def)
  have "dropWhile is_ascii_whitespace (header_line h) = header_line h"
    using assms ws by (cases "fst h") (auto simp: header_line_def wf_http_header_def)
  moreover have "dropWhile is_ascii_whitespace (rev (header_line h))
      = dropWhile is_ascii_whitespace (rev (snd h)) @ 0x3A # rev (fst h)"
    using ws by (simp add: header_line_def dropWhile_append)
  ultimately show ?thesis by (simp add: trim_ascii_def trim_end_ascii_def)
qed

lemma header_line_upgrades:
  assumes "wf_http_header h"
  shows "line_upgrades (header_line h) \<longleftrightarrow>
    eq_ignore_ascii_case (fst h) (as_bytes ''upgrade'') \<and> contains_ignore_ascii_case (snd h) (as_bytes ''websocket'')"
proof -
  have "0x3A \<notin> set (fst h)" using assms by (simp add: wf_http_header_def)
  then show ?thesis
    by (simp add: line_upgrades_def trim_header_line [OF assms] position_first
        contains_trim_end [OF websocket_last])
qed

lemma position_takeWhile:
  "position (\<lambda>b. b = x) l = Some c \<Longrightarrow> take c l = takeWhile (\<lambda>b. b \<noteq> x) l \<and> x \<in> set l"
  by (induction l arbitrary: c) (auto split: if_splits)

lemma request_line_no_upgrade:
  assumes "wf_request_line l"
  shows "\<not> line_upgrades l"
proof
  assume up: "line_upgrades l"
  have trim: "trim_ascii l = trim_end_ascii l"
    using assms by (cases l) (simp_all add: wf_request_line_def trim_ascii_def trim_end_ascii_def)
  from up obtain c where c: "position (\<lambda>b. b = 0x3A) (trim_end_ascii l) = Some c"
    and eq: "eq_ignore_ascii_case (take c (trim_end_ascii l)) (as_bytes ''upgrade'')"
    by (auto simp: line_upgrades_def trim split: option.splits)
  obtain ws where l: "l = trim_end_ascii l @ ws" by (rule trim_end_split)
  from position_takeWhile [OF c] have "take c (trim_end_ascii l) = takeWhile (\<lambda>b. b \<noteq> 0x3A) (trim_end_ascii l @ ws)"
    by (simp add: takeWhile_append1 [of "0x3A"])
  with l assms have "0x20 \<in> set (take c (trim_end_ascii l))" by (simp add: wf_request_line_def)
  then have "to_ascii_lowercase 0x20 \<in> set (map to_ascii_lowercase (take c (trim_end_ascii l)))"
    by (simp only: set_map image_eqI)
  then show False
    using eq unfolding eq_ignore_ascii_case_def by (simp add: as_bytes_def to_ascii_lowercase_def)
qed

lemma request_bytes_block:
  "request_bytes l hs body = l @ concat (map (\<lambda>m. crlf @ m) (map header_line hs)) @ crlf @ crlf @ body"
proof -
  have "crlf @ concat (map (\<lambda>m. m @ crlf) ls) = concat (map (\<lambda>m. crlf @ m) ls) @ crlf" for ls
    by (induction ls) simp_all
  then have "crlf @ concat (map (\<lambda>m. m @ crlf) (map header_line hs)) @ crlf @ body
      = concat (map (\<lambda>m. crlf @ m) (map header_line hs)) @ crlf @ crlf @ body"
    by (metis append.assoc)
  then show ?thesis by (simp add: request_bytes_def)
qed

lemma header_line_plain:
  assumes "wf_http_header h"
  shows "plain_line (header_line h) \<and> header_line h \<noteq> []"
  using assms by (auto simp: wf_http_header_def plain_line_def header_line_def is_ascii_whitespace_def)

text \<open>
  Sniffing is exact on a complete request head: on the bytes of a well-formed request, whatever
  the case of its header names and the whitespace around their values, and whatever follows the head,
  an upgrade is reported exactly when some header is named \<open>upgrade\<close> and its value mentions
  \<open>websocket\<close>; neither the request line nor the body can produce a match.
\<close>

theorem upgrade_sniffed:
  assumes "wf_request_line request_line" and "\<forall>h\<in>set headers. wf_http_header h"
  shows "head_requests_websocket_upgrade (request_bytes request_line headers body) \<longleftrightarrow>
    (\<exists>(name, value)\<in>set headers. eq_ignore_ascii_case name (as_bytes ''upgrade'')
       \<and> contains_ignore_ascii_case value (as_bytes ''websocket''))"
proof -
  have plain: "plain_line request_line" "\<forall>m\<in>set (map header_line headers). plain_line m \<and> m \<noteq> []"
    using assms header_line_plain by (auto simp: wf_request_line_def)
  have "head_requests_websocket_upgrade (request_bytes request_line headers body)
      \<longleftrightarrow> list_ex line_upgrades (request_line # map header_line headers)"
    using scan_block [of request_line "map header_line headers"] plain
    by (simp add: head_requests_websocket_upgrade_def request_bytes_block find_head_end del: map_map)
  then show ?thesis
    using request_line_no_upgrade [OF assms(1)] assms(2)
    by (auto simp: list_ex_iff header_line_upgrades intro!: bexI)
qed

theorem upgrade_sniffed_witness:
  "head_requests_websocket_upgrade
     (request_bytes (as_bytes ''GET /websocket HTTP/1.1'')
        [(as_bytes ''Host'', as_bytes '' h''), (as_bytes ''UPGRADE'', as_bytes '' WebSocket '')] (as_bytes ''x''))
   \<and> \<not> head_requests_websocket_upgrade
     (request_bytes (as_bytes ''GET /websocket HTTP/1.1'') [(as_bytes ''Host'', as_bytes '' h'')]
        (as_bytes ''Upgrade: websocket''))"
proof -
  let ?l = "as_bytes ''GET /websocket HTTP/1.1''" and ?h = "(as_bytes ''Host'', as_bytes '' h'')"
    and ?u = "(as_bytes ''UPGRADE'', as_bytes '' WebSocket '')"
  have l: "wf_request_line ?l"
    by (simp add: wf_request_line_def plain_line_def as_bytes_def is_ascii_whitespace_def)
  have h: "\<forall>h\<in>set [?h, ?u]. wf_http_header h" "\<forall>h\<in>set [?h]. wf_http_header h"
    by (simp_all add: wf_http_header_def plain_line_def as_bytes_def is_ascii_whitespace_def)
  have "eq_ignore_ascii_case (fst ?u) (as_bytes ''upgrade'')"
    "contains_ignore_ascii_case (snd ?u) (as_bytes ''websocket'')"
    "\<not> eq_ignore_ascii_case (fst ?h) (as_bytes ''upgrade'')" by code_simp+
  then show ?thesis
    using upgrade_sniffed [OF l h(1), of "as_bytes ''x''"] upgrade_sniffed [OF l h(2), of "as_bytes ''Upgrade: websocket''"]
    by simp
qed

section \<open>Paths and handshakes\<close>

lemma trim_end_matches_fix: "s \<noteq> [] \<Longrightarrow> last s \<noteq> c \<Longrightarrow> trim_end_matches c s = s"
  by (cases s rule: rev_cases) (simp_all add: trim_end_matches_def)

lemma trim_end_matches_nonempty:
  assumes "path \<noteq> []" and "set path \<noteq> {c}"
  shows "trim_end_matches c path \<noteq> []" and "hd (trim_end_matches c path) = hd path"
    and "last (trim_end_matches c path) \<noteq> c"
proof -
  obtain n where p: "path = trim_end_matches c path @ replicate n c"
    using trim_end_matches_prefix by blast
  show ne: "trim_end_matches c path \<noteq> []"
  proof
    assume "trim_end_matches c path = []"
    with p have "path = replicate n c" by simp
    with assms show False by (cases n) auto
  qed
  then show "hd (trim_end_matches c path) = hd path" by (subst (2) p) simp
  from ne show "last (trim_end_matches c path) \<noteq> c" by (rule trim_end_matches_last)
qed

lemma starts_with_slash: "starts_with s ''/'' \<longleftrightarrow> s \<noteq> [] \<and> hd s = CHR ''/''"
  by (cases s) (auto simp: starts_with_def)

lemma normalize_path_shape:
  assumes "set path \<noteq> {CHR ''/''}"
  shows "starts_with (normalize_path path) ''/''
    \<and> (normalize_path path = ''/'' \<or> last (normalize_path path) \<noteq> CHR ''/'')"
proof (cases "path = []")
  case False
  with assms trim_end_matches_nonempty [OF False, of "CHR ''/''"] show ?thesis
    by (auto simp: normalize_path_def starts_with_slash)
qed (simp add: normalize_path_def starts_with_def)

lemma normalize_path_fix:
  assumes "starts_with p ''/''" and "p = ''/'' \<or> last p \<noteq> CHR ''/''"
  shows "normalize_path p = p"
  using assms by (auto simp: normalize_path_def starts_with_slash trim_end_matches_fix)

lemma only_slashes_refused: "normalize_path ''//'' = []" and "normalize_path [] = ''/''"
  by (simp_all add: normalize_path_def trim_end_matches_def starts_with_def)

text \<open>
  What is relied on of \<open>accept_hdr\<close>: a connection it accepts is one whose request it passed to
  the callback, which accepted it; \<open>request_of\<close> is the request at the start of the stream.
\<close>

definition passes_request :: "('k, 'ws) accept_hdr \<Rightarrow> ('k \<Rightarrow> HttpRequest option) \<Rightarrow> bool" where
  "passes_request accept_hdr request_of \<longleftrightarrow>
     (\<forall>callback config stream slot ws slot'.
        accept_hdr callback config stream slot = (Inr ws, slot') \<longrightarrow>
        (\<exists>request. request_of stream = Some request \<and> callback request slot = (Inr (), slot')))"

text \<open>
  Accepting with the handshake never panics, and a connection it accepts asked for the endpoint: its
  request's path is the configured path with its leading slash and without trailing ones,
  and the context handed on holds the request's path, its query and, in order, its headers
  whose values are visible ASCII. The plain variant accepts the same connections.
\<close>

theorem accept_with_handshake_sound:
  assumes "passes_request accept_hdr request_of"
    and "set path \<noteq> {CHR ''/''}"
  shows "accept_with_handshake_and_limits to_str accept_hdr stream path limits
      \<noteq> (None :: ('s RepeError + ('ws \<times> HandshakeContext)) option)
    \<and> (accept_with_handshake_and_limits to_str accept_hdr stream path limits
         = (Some (Inr (ws, ctx)) :: ('s RepeError + ('ws \<times> HandshakeContext)) option) \<longrightarrow>
        (\<exists>request. request_of stream = Some request \<and> hr_path request = normalize_path path
           \<and> starts_with (hr_path request) ''/''
           \<and> (hr_path request = ''/'' \<or> last (hr_path request) \<noteq> CHR ''/'')
           \<and> ctx = from_http_request to_str request))
    \<and> (accept_with_limits to_str accept_hdr stream path limits = (Inr ws :: 's RepeError + 'ws) \<longrightarrow>
        (\<exists>request. request_of stream = Some request \<and> hr_path request = normalize_path path))"
proof -
  let ?cb = "on_request to_str (normalize_path path)"
  have inv: "\<exists>request. request_of stream = Some request \<and> hr_path request = normalize_path path
      \<and> slot' = (case slot of Some _ \<Rightarrow> Some (Some (from_http_request to_str request)) | None \<Rightarrow> None)"
    if "accept_hdr ?cb config stream slot = (Inr ws, slot')" for config slot ws slot'
    using assms(1) that unfolding passes_request_def
    by (fastforce simp: on_request_def split: if_splits)
  have captured: "\<exists>request. request_of stream = Some request \<and> hr_path request = normalize_path path
      \<and> slot' = Some (Some (from_http_request to_str request))"
    if "accept_hdr ?cb config stream (Some None) = (Inr ws, slot')" for config ws slot'
    using inv [OF that] by simp
  show ?thesis
    using normalize_path_shape [OF assms(2)]
    by (auto simp: accept_with_handshake_and_limits_def accept_with_limits_def accept_repe_websocket_def
        dest!: captured inv split: prod.splits sum.splits option.splits)
qed

definition sample_request :: HttpRequest where
  "sample_request =
     \<lparr>hr_path = ''/repe'', hr_query = Some ''t=1'', hr_headers = [(''Origin'', [0x61]), (''X'', [0x00])]\<rparr>"

definition sample_accept :: "(HttpRequest, unit) accept_hdr" where
  "sample_accept callback config stream slot =
     (case callback stream slot of
        (Inr _, slot) \<Rightarrow> (Inr (), slot)
      | (Inl _, slot) \<Rightarrow> (Inl (WsE_Other ''http error: 404''), slot))"

theorem accept_with_handshake_sound_witness:
  "\<exists>ctx. accept_with_handshake_and_limits (\<lambda>v. if v = [0x00] then None else Some (str_of_bytes v)) sample_accept
       sample_request ''repe/'' limits_default = (Some (Inr ((), ctx)) :: (unit RepeError + (unit \<times> HandshakeContext)) option)
     \<and> handshake_header ctx ''ORIGIN'' = Some ''a'' \<and> handshake_header ctx ''x'' = None"
proof -
  have passes: "passes_request sample_accept Some"
    by (auto simp: passes_request_def sample_accept_def split: prod.splits sum.splits)
  have path: "set ''repe/'' \<noteq> {CHR ''/''}" by auto
  have norm: "normalize_path ''repe/'' = ''/repe''" by code_simp
  let ?acc = "accept_with_handshake_and_limits (\<lambda>v. if v = [0x00] then None else Some (str_of_bytes v)) sample_accept
       sample_request ''repe/'' limits_default :: (unit RepeError + (unit \<times> HandshakeContext)) option"
  obtain ctx where acc: "?acc = Some (Inr ((), ctx))"
    by (simp add: accept_with_handshake_and_limits_def accept_repe_websocket_def norm sample_accept_def
        on_request_def sample_request_def)
  with accept_with_handshake_sound [OF passes path, where stream = sample_request] have
    "ctx = from_http_request (\<lambda>v. if v = [0x00] then None else Some (str_of_bytes v)) sample_request"
    by blast
  moreover have "handshake_header (from_http_request (\<lambda>v. if v = [0x00] then None else Some (str_of_bytes v)) sample_request) ''ORIGIN'' = Some ''a''"
    "handshake_header (from_http_request (\<lambda>v. if v = [0x00] then None else Some (str_of_bytes v)) sample_request) ''x'' = None"
    by code_simp+
  ultimately show ?thesis using acc by simp
qed

end
