(* ===== verification/Websocket_Server.thy ===== *)
theory Websocket_Server
  imports Router Websocket_Upgrade
begin

text \<open>
  The WebSocket server of \<^verbatim>\<open>src/websocket_server.rs\<close>. A connection is a reader, a writer that owns
  the sink, the bounded queue between them, and the handlers that run off the reader; each is a group of
  atomic steps on the connection's state, between which the others may run. A step ends
  where the code awaits. The frames of the peer, the sink, the program around the handlers and a
  handler's panic are the environment's. A notify a handler or another thread pushes through the
  peer's handle is a step of its own; the handler's view of its cancel signal is in the
  state \<open>'w\<close> of the program.
\<close>

section \<open>Errors and their hooks\<close>

definition DEFAULT_OUTBOUND_CAPACITY :: nat where
  "DEFAULT_OUTBOUND_CAPACITY = 256"

definition DEFAULT_OFFREADER_LIMIT :: nat where
  "DEFAULT_OFFREADER_LIMIT = 16"

datatype 's ConnectionError =
    CE_Handshake "'s RepeError"
  | CE_Connection "'s RepeError"
  | CE_HandlerPanic string
  | CE_OutboundTooLarge string nat nat
  | CE_Saturation string

definition connection_error_code :: "'s ConnectionError \<Rightarrow> ErrorCode option" where
  "connection_error_code e =
     (case e of
        CE_HandlerPanic _ \<Rightarrow> Some EC_InternalError
      | CE_Saturation _ \<Rightarrow> Some EC_ResourceExhausted
      | CE_OutboundTooLarge _ _ _ \<Rightarrow> Some EC_InternalError
      | CE_Handshake _ \<Rightarrow> None
      | CE_Connection _ \<Rightarrow> None)"

definition connection_error_display :: "('s RepeError \<Rightarrow> string) \<Rightarrow> 's ConnectionError \<Rightarrow> string" where
  "connection_error_display show_err e =
     (case e of
        CE_Handshake err \<Rightarrow> ''websocket handshake error: '' @ show_err err
      | CE_Connection err \<Rightarrow> ''websocket connection error: '' @ show_err err
      | CE_HandlerPanic path \<Rightarrow> ''off-reader handler panicked for '' @ path @ ''; connection kept alive''
      | CE_Saturation path \<Rightarrow> ''off-reader dispatch limit reached for '' @ path @ ''; retry''
      | CE_OutboundTooLarge path sz limit \<Rightarrow>
          ''outbound message for '' @ path @ '' is '' @ dec_str sz @ '' bytes, over the '' @ dec_str limit
          @ '' byte assumed peer frame limit; not sent'')"

definition connection_error_source :: "'s ConnectionError \<Rightarrow> 's RepeError option" where
  "connection_error_source e =
     (case e of
        CE_Handshake err \<Rightarrow> Some err
      | CE_Connection err \<Rightarrow> Some err
      | CE_HandlerPanic _ \<Rightarrow> None
      | CE_Saturation _ \<Rightarrow> None
      | CE_OutboundTooLarge _ _ _ \<Rightarrow> None)"

type_synonym ('w, 's) ErrorHook = "'s ConnectionError \<Rightarrow> 'w \<Rightarrow> 'w"

definition report_error ::
    "(string \<Rightarrow> 'w \<Rightarrow> 'w) \<Rightarrow> ('s RepeError \<Rightarrow> string) \<Rightarrow> ('w, 's) ErrorHook list \<Rightarrow> 's ConnectionError \<Rightarrow> 'w \<Rightarrow> 'w" where
  "report_error eprintln show_err hooks err w =
     (if hooks \<noteq> [] then fold (\<lambda>hook. hook err) hooks w
      else (case err of
              CE_Saturation _ \<Rightarrow> w
            | logged \<Rightarrow> eprintln (''[repe] '' @ connection_error_display show_err logged) w))"

section \<open>The server's configuration\<close>

text \<open>The shared peer id counter is reached through its \<^verbatim>\<open>fetch_add(1)\<close>.\<close>

record ('w, 's) WebSocketServer =
  sv_router :: "('w, 's) Router"
  sv_limits :: WebSocketLimits
  sv_outbound_capacity :: nat
  sv_offreader_limit :: "nat option"
  sv_next_peer_id :: "'w \<Rightarrow> PeerId \<times> 'w"
  sv_on_connect :: "(PeerHandle \<Rightarrow> 'w \<Rightarrow> 'w) list"
  sv_on_connect_ctx :: "(PeerHandle \<Rightarrow> HandshakeContext \<Rightarrow> 'w \<Rightarrow> 'w) list"
  sv_on_disconnect :: "(PeerId \<Rightarrow> 'w \<Rightarrow> 'w) list"
  sv_on_error :: "('w, 's) ErrorHook list"

definition ws_server_new :: "('w \<Rightarrow> PeerId \<times> 'w) \<Rightarrow> ('w, 's) Router \<Rightarrow> ('w, 's) WebSocketServer" where
  "ws_server_new counter router =
     \<lparr>sv_router = router, sv_limits = limits_default, sv_outbound_capacity = DEFAULT_OUTBOUND_CAPACITY,
      sv_offreader_limit = Some DEFAULT_OFFREADER_LIMIT, sv_next_peer_id = counter, sv_on_connect = [],
      sv_on_connect_ctx = [], sv_on_disconnect = [], sv_on_error = []\<rparr>"

text \<open>\<open>None\<close> is the panic of the assertion.\<close>

definition with_outbound_capacity :: "nat \<Rightarrow> ('w, 's) WebSocketServer \<Rightarrow> ('w, 's) WebSocketServer option" where
  "with_outbound_capacity capacity sv =
     (if capacity \<ge> 1 then Some (sv\<lparr>sv_outbound_capacity := capacity\<rparr>) else None)"

definition with_limits :: "WebSocketLimits \<Rightarrow> ('w, 's) WebSocketServer \<Rightarrow> ('w, 's) WebSocketServer" where
  "with_limits limits sv = sv\<lparr>sv_limits := limits\<rparr>"

definition with_offreader_limit :: "nat \<Rightarrow> ('w, 's) WebSocketServer \<Rightarrow> ('w, 's) WebSocketServer" where
  "with_offreader_limit limit sv = sv\<lparr>sv_offreader_limit := (if limit > 0 then Some limit else None)\<rparr>"

definition on_peer_connect ::
    "(PeerHandle \<Rightarrow> 'w \<Rightarrow> 'w) \<Rightarrow> ('w, 's) WebSocketServer \<Rightarrow> ('w, 's) WebSocketServer" where
  "on_peer_connect f sv = sv\<lparr>sv_on_connect := sv_on_connect sv @ [f]\<rparr>"

definition on_peer_connect_with_handshake ::
    "(PeerHandle \<Rightarrow> HandshakeContext \<Rightarrow> 'w \<Rightarrow> 'w) \<Rightarrow> ('w, 's) WebSocketServer \<Rightarrow> ('w, 's) WebSocketServer" where
  "on_peer_connect_with_handshake f sv = sv\<lparr>sv_on_connect_ctx := sv_on_connect_ctx sv @ [f]\<rparr>"

definition on_peer_disconnect ::
    "(PeerId \<Rightarrow> 'w \<Rightarrow> 'w) \<Rightarrow> ('w, 's) WebSocketServer \<Rightarrow> ('w, 's) WebSocketServer" where
  "on_peer_disconnect f sv = sv\<lparr>sv_on_disconnect := sv_on_disconnect sv @ [f]\<rparr>"

definition on_error :: "('w, 's) ErrorHook \<Rightarrow> ('w, 's) WebSocketServer \<Rightarrow> ('w, 's) WebSocketServer" where
  "on_error f sv = sv\<lparr>sv_on_error := sv_on_error sv @ [f]\<rparr>"

text \<open>
  \<open>update\<close> applies a change to the peer registry where it lives in the program's state, and
  \<open>take_id\<close> its \<open>next_peer_id\<close>.
\<close>

definition with_peer_registry ::
    "((PeerRegistry \<Rightarrow> PeerRegistry) \<Rightarrow> 'w \<Rightarrow> 'w) \<Rightarrow> ('w \<Rightarrow> PeerId \<times> 'w)
      \<Rightarrow> ('w, 's) WebSocketServer \<Rightarrow> ('w, 's) WebSocketServer" where
  "with_peer_registry update take_id sv =
     on_peer_disconnect (\<lambda>pid. update (\<lambda>reg. snd (peer_remove pid reg)))
       (on_peer_connect (\<lambda>peer. update (peer_insert peer)) (sv\<lparr>sv_next_peer_id := take_id\<rparr>))"

record ('w, 's) ConnectionConfig =
  cf_router :: "('w, 's) Router"
  cf_limits :: WebSocketLimits
  cf_outbound_capacity :: nat
  cf_offreader_limit :: "nat option"
  cf_next_peer_id :: "'w \<Rightarrow> PeerId \<times> 'w"
  cf_on_connect :: "(PeerHandle \<Rightarrow> 'w \<Rightarrow> 'w) list"
  cf_on_connect_ctx :: "(PeerHandle \<Rightarrow> HandshakeContext \<Rightarrow> 'w \<Rightarrow> 'w) list"
  cf_on_disconnect :: "(PeerId \<Rightarrow> 'w \<Rightarrow> 'w) list"
  cf_on_error :: "('w, 's) ErrorHook list"

definition into_shared :: "('w, 's) WebSocketServer \<Rightarrow> ('w, 's) ConnectionConfig" where
  "into_shared sv =
     \<lparr>cf_router = sv_router sv, cf_limits = sv_limits sv, cf_outbound_capacity = sv_outbound_capacity sv,
      cf_offreader_limit = sv_offreader_limit sv, cf_next_peer_id = sv_next_peer_id sv,
      cf_on_connect = sv_on_connect sv, cf_on_connect_ctx = sv_on_connect_ctx sv,
      cf_on_disconnect = sv_on_disconnect sv, cf_on_error = sv_on_error sv\<rparr>"

section \<open>The state of a connection\<close>

datatype FramePayload = FP_Bytes bytes | FP_Continue | FP_Close

definition decode_request_payload :: "WsMessage \<Rightarrow> 's RepeError + FramePayload" where
  "decode_request_payload frame =
     (case frame of
        WS_Binary payload \<Rightarrow> Inr (FP_Bytes payload)
      | WS_Ping \<Rightarrow> Inr FP_Continue
      | WS_Pong \<Rightarrow> Inr FP_Continue
      | WS_Frame \<Rightarrow> Inr FP_Continue
      | WS_Close \<Rightarrow> Inr FP_Close
      | WS_Text \<Rightarrow> Inl (RE_Io (IoError K_InvalidData ''websocket transport requires binary messages'')))"

text \<open>
  The environment. \<open>en_panics\<close> tells whether running a handler panics, and then the program's
  state it leaves; \<open>en_cancel\<close> cancels the connection's token where handlers see it.
\<close>

record ('w, 'r, 'o, 's) ws_env =
  en_usize_max :: nat
  en_show :: "'s RepeError \<Rightarrow> string"
  en_eprintln :: "string \<Rightarrow> 'w \<Rightarrow> 'w"
  en_capacity :: "Message \<Rightarrow> nat"
  en_panics :: "('w, 's) Handler \<Rightarrow> Message \<Rightarrow> 'w \<Rightarrow> 'w option"
  en_next :: "'r \<Rightarrow> (ws_error + WsMessage) option \<times> 'r"
  en_send :: "WsMessage \<Rightarrow> 'o \<Rightarrow> (ws_error + unit) \<times> 'o"
  en_close :: "'o \<Rightarrow> (ws_error + unit) \<times> 'o"
  en_cancel :: "nat \<Rightarrow> 'w \<Rightarrow> 'w"

text \<open>
  Where the reader is: waiting for a frame, waiting for room in the queue for a response, done
  with the reader's result, or gone with a panic or with the connection's task.
\<close>

datatype 's reader_phase = R_Next | R_Send Message | R_Done "'s RepeError + unit" | R_Gone

datatype task_phase = T_Run | T_Send Message | T_Done

record ('w, 's) task =
  tk_handler :: "('w, 's) Handler"
  tk_request :: Message
  tk_notify :: bool
  tk_phase :: task_phase

datatype 's writer_phase = W_Loop | W_Drain | W_Close "'s RepeError + unit" | W_Done "'s RepeError + unit" | W_Aborted

record ('w, 'r, 'o, 's) WsConn =
  cn_peer :: PeerHandle
  cn_signal :: nat
  cn_reader :: 'r
  cn_phase :: "'s reader_phase"
  cn_queue :: "Message list"
  cn_rx_open :: bool
  cn_permits :: "nat option"
  cn_tasks :: "('w, 's) task list"
  cn_cancelled :: bool
  cn_shutdown :: bool
  cn_handles :: bool
  cn_writer :: "'s writer_phase"
  cn_out :: 'o
  cn_world :: 'w

definition report :: "('w, 'r, 'o, 's) ws_env \<Rightarrow> ('w, 's) ConnectionConfig \<Rightarrow> 's ConnectionError \<Rightarrow> 'w \<Rightarrow> 'w" where
  "report env cfg = report_error (en_eprintln env) (en_show env) (cf_on_error cfg)"

text \<open>
  Opening: the id is drawn, the writer is spawned, and the hooks run before the first frame is read.
\<close>

definition open_connection ::
    "('w, 'r, 'o, 's) ws_env \<Rightarrow> ('w, 's) ConnectionConfig \<Rightarrow> nat \<Rightarrow> nat \<Rightarrow> bool \<Rightarrow> HandshakeContext option
      \<Rightarrow> 'r \<Rightarrow> 'o \<Rightarrow> 'w \<Rightarrow> ('w, 'r, 'o, 's) WsConn" where
  "open_connection env cfg sink signal cancelled handshake r out w =
     (case cf_next_peer_id cfg w of
        (peer_id, w) \<Rightarrow>
          let peer = \<lparr>ph_peer_id = peer_id, ph_sink = sink\<rparr>;
              w = fold (\<lambda>hook. hook peer) (cf_on_connect cfg) w;
              w = (case handshake of
                     Some handshake \<Rightarrow> fold (\<lambda>hook. hook peer handshake) (cf_on_connect_ctx cfg) w
                   | None \<Rightarrow> w)
          in \<lparr>cn_peer = peer, cn_signal = signal, cn_reader = r, cn_phase = R_Next, cn_queue = [], cn_rx_open = True,
              cn_permits = cf_offreader_limit cfg, cn_tasks = [], cn_cancelled = cancelled, cn_shutdown = False,
              cn_handles = True, cn_writer = W_Loop, cn_out = out, cn_world = w\<rparr>)"

text \<open>Dropping the disconnect guard: the token first, then the hooks.\<close>

definition disconnect_guard_drop ::
    "('w, 'r, 'o, 's) ws_env \<Rightarrow> ('w, 's) ConnectionConfig \<Rightarrow> ('w, 'r, 'o, 's) WsConn \<Rightarrow> ('w, 'r, 'o, 's) WsConn" where
  "disconnect_guard_drop env cfg s =
     (let w = en_cancel env (cn_signal s) (cn_world s);
          w = fold (\<lambda>hook. hook (ph_peer_id (cn_peer s))) (cf_on_disconnect cfg) w
      in s\<lparr>cn_cancelled := True, cn_world := w\<rparr>)"

text \<open>The reader's block is left with a result: the guard is dropped and the writer told.\<close>

definition reader_done ::
    "('w, 'r, 'o, 's) ws_env \<Rightarrow> ('w, 's) ConnectionConfig \<Rightarrow> 's RepeError + unit \<Rightarrow> ('w, 'r, 'o, 's) WsConn
      \<Rightarrow> ('w, 'r, 'o, 's) WsConn" where
  "reader_done env cfg r s = (disconnect_guard_drop env cfg s)\<lparr>cn_phase := R_Done r, cn_shutdown := True\<rparr>"

text \<open>
  The connection's task is dropped, by an abort or by a panic of an inline handler: the guard
  is dropped if the reader was running, and the writer is aborted with its end of the queue.
\<close>

definition connection_dropped ::
    "('w, 'r, 'o, 's) ws_env \<Rightarrow> ('w, 's) ConnectionConfig \<Rightarrow> ('w, 'r, 'o, 's) WsConn \<Rightarrow> ('w, 'r, 'o, 's) WsConn" where
  "connection_dropped env cfg s =
     (let s = (case cn_phase s of
                 R_Next \<Rightarrow> disconnect_guard_drop env cfg s
               | R_Send _ \<Rightarrow> disconnect_guard_drop env cfg s
               | _ \<Rightarrow> s)
      in s\<lparr>cn_phase := R_Gone, cn_writer := W_Aborted, cn_rx_open := False, cn_queue := []\<rparr>)"

section \<open>The reader\<close>

definition queue_room :: "('w, 's) ConnectionConfig \<Rightarrow> ('w, 'r, 'o, 's) WsConn \<Rightarrow> bool" where
  "queue_room cfg s \<longleftrightarrow> length (cn_queue s) < cf_outbound_capacity cfg"

definition method_of :: "Message \<Rightarrow> string" where
  "method_of m = (case query_str m of Inr path \<Rightarrow> path | Inl _ \<Rightarrow> [])"

definition spawn_off_reader ::
    "('w, 'r, 'o, 's) ws_env \<Rightarrow> ('w, 's) ConnectionConfig \<Rightarrow> ('w, 's) Handler \<Rightarrow> Message \<Rightarrow> bool
      \<Rightarrow> ('w, 'r, 'o, 's) WsConn \<Rightarrow> ('w, 'r, 'o, 's) WsConn" where
  "spawn_off_reader env cfg handler request notify s =
     (if cn_permits s = Some 0
      then let s = s\<lparr>cn_world := report env cfg (CE_Saturation (method_of request)) (cn_world s)\<rparr>
           in if notify then s
              else s\<lparr>cn_phase := R_Send (create_error_response_like request EC_ResourceExhausted
                       ''off-reader dispatch limit reached; retry'')\<rparr>
      else s\<lparr>cn_permits := map_option (\<lambda>n. n - 1) (cn_permits s),
             cn_tasks := cn_tasks s @ [\<lparr>tk_handler = handler, tk_request = request, tk_notify = notify,
                                        tk_phase = T_Run\<rparr>]\<rparr>)"

definition reader_dispatch ::
    "('w, 'r, 'o, 's) ws_env \<Rightarrow> ('w, 's) ConnectionConfig \<Rightarrow> MessageView \<Rightarrow> ('w, 'r, 'o, 's) WsConn
      \<Rightarrow> ('w, 'r, 'o, 's) WsConn" where
  "reader_dispatch env cfg view s =
     (case route (cf_router cfg) (v_header view) (v_query view) of
        RO_Reject notify code message \<Rightarrow>
          if notify then s
          else let response = create_error_response_unstamped_view view code message
               in s\<lparr>cn_phase := R_Send (stamp_response_query response (v_query view))\<rparr>
      | RO_Dispatch handler notify path \<Rightarrow>
          (case hd_execution handler of
             Inline \<Rightarrow>
               (let ctx = call_context_with_cancel path (cn_peer s) (cn_signal s)
                in case en_panics env handler (to_message view) (cn_world s) of
                     Some w \<Rightarrow> connection_dropped env cfg (s\<lparr>cn_world := w\<rparr>)
                   | None \<Rightarrow>
                       (case dispatch_view (en_show env) handler view ctx notify (cn_world s) of
                          (Some response, w) \<Rightarrow>
                            s\<lparr>cn_world := w, cn_phase := R_Send (stamp_response_query response (v_query view))\<rparr>
                        | (None, w) \<Rightarrow> s\<lparr>cn_world := w\<rparr>))
           | OffReader \<Rightarrow> spawn_off_reader env cfg handler (to_message view) notify s))"

text \<open>One turn of the loop, from waiting for a frame.\<close>

definition reader_turn ::
    "('w, 'r, 'o, 's) ws_env \<Rightarrow> ('w, 's) ConnectionConfig \<Rightarrow> ('w, 'r, 'o, 's) WsConn \<Rightarrow> ('w, 'r, 'o, 's) WsConn" where
  "reader_turn env cfg s =
     (case en_next env (cn_reader s) of
        (None, r) \<Rightarrow> reader_done env cfg (Inr ()) (s\<lparr>cn_reader := r\<rparr>)
      | (Some (Inl err), r) \<Rightarrow> reader_done env cfg (Inl (ws_server_transport_error err)) (s\<lparr>cn_reader := r\<rparr>)
      | (Some (Inr frame), r) \<Rightarrow>
          (let s = s\<lparr>cn_reader := r\<rparr>
           in case decode_request_payload frame of
                Inl err \<Rightarrow> reader_done env cfg (Inl err) s
              | Inr FP_Continue \<Rightarrow> s
              | Inr FP_Close \<Rightarrow> reader_done env cfg (Inr ()) s
              | Inr (FP_Bytes payload) \<Rightarrow>
                  (case view_from_slice_exact (en_usize_max env) payload of
                     Inl err \<Rightarrow> reader_done env cfg (Inl err) s
                   | Inr view \<Rightarrow> reader_dispatch env cfg view s)))"

text \<open>
  The awaited send of a response: it fails once the writer is gone, which ends the loop, and
  waits (\<open>None\<close>) while the queue is full.
\<close>

definition reader_send ::
    "('w, 'r, 'o, 's) ws_env \<Rightarrow> ('w, 's) ConnectionConfig \<Rightarrow> Message \<Rightarrow> ('w, 'r, 'o, 's) WsConn
      \<Rightarrow> ('w, 'r, 'o, 's) WsConn option" where
  "reader_send env cfg response s =
     (if \<not> cn_rx_open s then Some (reader_done env cfg (Inr ()) s)
      else if queue_room cfg s
           then Some (s\<lparr>cn_queue := cn_queue s @ [response], cn_phase := R_Next\<rparr>)
           else None)"

section \<open>Handlers off the reader\<close>

definition set_task :: "nat \<Rightarrow> task_phase \<Rightarrow> ('w, 'r, 'o, 's) WsConn \<Rightarrow> ('w, 'r, 'o, 's) WsConn" where
  "set_task i p s = s\<lparr>cn_tasks := (cn_tasks s)[i := (cn_tasks s ! i)\<lparr>tk_phase := p\<rparr>]\<rparr>"

text \<open>The end of the closure gives its permit back.\<close>

definition end_task :: "nat \<Rightarrow> ('w, 'r, 'o, 's) WsConn \<Rightarrow> ('w, 'r, 'o, 's) WsConn" where
  "end_task i s = (set_task i T_Done s)\<lparr>cn_permits := map_option Suc (cn_permits s)\<rparr>"

definition task_run ::
    "('w, 'r, 'o, 's) ws_env \<Rightarrow> ('w, 's) ConnectionConfig \<Rightarrow> nat \<Rightarrow> ('w, 'r, 'o, 's) WsConn
      \<Rightarrow> ('w, 'r, 'o, 's) WsConn" where
  "task_run env cfg i s =
     (let t = cn_tasks s ! i;
          path = method_of (tk_request t);
          ctx = call_context_with_cancel path (cn_peer s) (cn_signal s);
          (response, w) =
            (case en_panics env (tk_handler t) (tk_request t) (cn_world s) of
               None \<Rightarrow> dispatch (en_show env) (tk_handler t) (tk_request t) ctx (tk_notify t) (cn_world s)
             | Some w \<Rightarrow>
                 (if tk_notify t then None
                  else Some (create_error_response_like (tk_request t) EC_InternalError ''handler panicked''),
                  report env cfg (CE_HandlerPanic path) w));
          s = s\<lparr>cn_world := w\<rparr>
      in case response of
           Some response \<Rightarrow> set_task i (T_Send (stamp_response_query response (m_query (tk_request t)))) s
         | None \<Rightarrow> end_task i s)"

definition task_send ::
    "('w, 's) ConnectionConfig \<Rightarrow> nat \<Rightarrow> Message \<Rightarrow> ('w, 'r, 'o, 's) WsConn \<Rightarrow> ('w, 'r, 'o, 's) WsConn option" where
  "task_send cfg i response s =
     (if \<not> cn_rx_open s then Some (end_task i s)
      else if queue_room cfg s then Some (end_task i (s\<lparr>cn_queue := cn_queue s @ [response]\<rparr>))
      else None)"

section \<open>The writer\<close>

definition outbound_replacement :: "Message \<Rightarrow> nat \<Rightarrow> nat \<Rightarrow> Message" where
  "outbound_replacement m sz limit =
     (let replacement = create_error_message EC_InternalError
            (''response is '' @ dec_str sz @ '' bytes, over the '' @ dec_str limit
             @ '' byte assumed peer frame limit; raise the peer's inbound limit or reduce the response'')
      in replacement\<lparr>m_header := (m_header replacement)\<lparr>h_id := h_id (m_header m)\<rparr>\<rparr>)"

text \<open>\<open>check_outbound\<close> fails with a size and a limit only; the last branch is the code's \<^verbatim>\<open>unreachable!\<close>.\<close>

definition frame_outbound ::
    "(Message \<Rightarrow> nat) \<Rightarrow> ('s ConnectionError \<Rightarrow> 'w \<Rightarrow> 'w) \<Rightarrow> WebSocketLimits \<Rightarrow> Message \<Rightarrow> 'w \<Rightarrow> bytes option \<times> 'w" where
  "frame_outbound capacity rep limits m w =
     (let frame_len = HEADER_SIZE + length (m_query m) + length (m_body m)
      in case check_outbound limits frame_len :: 's RepeError + unit of
           Inr _ \<Rightarrow> (Some (into_wire_bytes (capacity m) m), w)
         | Inl (RE_MessageTooLarge sz limit) \<Rightarrow>
             (let w = rep (CE_OutboundTooLarge (method_of m) sz limit) w
              in if h_notify (m_header m) \<noteq> 0 then (None, w)
                 else let replacement = outbound_replacement m sz limit
                      in (Some (into_wire_bytes (capacity replacement) replacement), w))
         | Inl _ \<Rightarrow> (None, w))"

text \<open>Taking the first queued message and sending it, with the phase to go on in.\<close>

definition write_one ::
    "('w, 'r, 'o, 's) ws_env \<Rightarrow> ('w, 's) ConnectionConfig \<Rightarrow> 's writer_phase \<Rightarrow> ('w, 'r, 'o, 's) WsConn
      \<Rightarrow> ('w, 'r, 'o, 's) WsConn" where
  "write_one env cfg again s =
     (case cn_queue s of
        [] \<Rightarrow> s
      | m # queue \<Rightarrow>
          (case frame_outbound (en_capacity env) (report env cfg) (cf_limits cfg) m (cn_world s) of
             (None, w) \<Rightarrow> s\<lparr>cn_queue := queue, cn_world := w, cn_writer := again\<rparr>
           | (Some bs, w) \<Rightarrow>
               (case en_send env (WS_Binary bs) (cn_out s) of
                  (Inr _, out) \<Rightarrow> s\<lparr>cn_queue := queue, cn_world := w, cn_out := out, cn_writer := again\<rparr>
                | (Inl err, out) \<Rightarrow>
                    s\<lparr>cn_queue := queue, cn_world := w, cn_out := out,
                      cn_writer := W_Close (Inl (ws_server_transport_error err))\<rparr>)))"

text \<open>A send of the drain that does not finish by the deadline: its message is lost.\<close>

definition drain_timeout ::
    "('w, 'r, 'o, 's) ws_env \<Rightarrow> ('w, 's) ConnectionConfig \<Rightarrow> ('w, 'r, 'o, 's) WsConn \<Rightarrow> ('w, 'r, 'o, 's) WsConn" where
  "drain_timeout env cfg s =
     (case frame_outbound (en_capacity env) (report env cfg) (cf_limits cfg) (hd (cn_queue s)) (cn_world s) of
        (_, w) \<Rightarrow> s\<lparr>cn_queue := tl (cn_queue s), cn_world := w, cn_writer := W_Close (Inr ())\<rparr>)"

definition writer_close ::
    "('w, 'r, 'o, 's) ws_env \<Rightarrow> 's RepeError + unit \<Rightarrow> ('w, 'r, 'o, 's) WsConn \<Rightarrow> ('w, 'r, 'o, 's) WsConn" where
  "writer_close env r s =
     (let out = snd (en_send env WS_Close (cn_out s)); out = snd (en_close env out)
      in s\<lparr>cn_out := out, cn_writer := W_Done r, cn_rx_open := False, cn_queue := []\<rparr>)"

definition no_senders :: "('w, 'r, 'o, 's) WsConn \<Rightarrow> bool" where
  "no_senders s \<longleftrightarrow>
     \<not> cn_handles s
     \<and> (case cn_phase s of R_Next \<Rightarrow> False | R_Send _ \<Rightarrow> False | _ \<Rightarrow> True)
     \<and> list_all (\<lambda>t. tk_phase t = T_Done) (cn_tasks s)"

section \<open>Pushed notifies\<close>

definition sink_message :: "string \<Rightarrow> NotifyBody \<Rightarrow> Message" where
  "sink_message path body =
     (let body_format = notify_body_format body; body_bytes = notify_into_bytes body
      in build (with_body_bytes body_bytes (with_body_format_code (body_format_u16 body_format)
           (with_query_format QF_JsonPointer (with_query_str path (with_notify True (with_id 0 builder)))))))"

definition sink_send_notify ::
    "('w, 's) ConnectionConfig \<Rightarrow> string \<Rightarrow> NotifyBody \<Rightarrow> ('w, 'r, 'o, 's) WsConn
      \<Rightarrow> (PeerSendError + unit) \<times> ('w, 'r, 'o, 's) WsConn" where
  "sink_send_notify cfg path body s =
     (if \<not> cn_rx_open s then (Inl PS_Disconnected, s)
      else if queue_room cfg s then (Inr (), s\<lparr>cn_queue := cn_queue s @ [sink_message path body]\<rparr>)
      else (Inl PS_Full, s))"

definition sink_is_connected :: "('w, 'r, 'o, 's) WsConn \<Rightarrow> bool" where
  "sink_is_connected s \<longleftrightarrow> cn_rx_open s"

section \<open>Steps of a connection\<close>

datatype conn_event =
    E_Read | E_ReaderSend | E_Cancel | E_CancelSeen | E_TaskRun nat | E_TaskSend nat
  | E_Write | E_SendersGone | E_Shutdown | E_Drained | E_DrainTimeout | E_WriterClose
  | E_Push string NotifyBody | E_DropHandles | E_Abort

fun conn_exec ::
    "('w, 'r, 'o, 's) ws_env \<Rightarrow> ('w, 's) ConnectionConfig \<Rightarrow> conn_event \<Rightarrow> ('w, 'r, 'o, 's) WsConn
      \<Rightarrow> ('w, 'r, 'o, 's) WsConn option" where
  "conn_exec env cfg E_Read s = (case cn_phase s of R_Next \<Rightarrow> Some (reader_turn env cfg s) | _ \<Rightarrow> None)"
| "conn_exec env cfg E_ReaderSend s =
     (case cn_phase s of R_Send response \<Rightarrow> reader_send env cfg response s | _ \<Rightarrow> None)"
| "conn_exec env cfg E_Cancel s =
     Some (s\<lparr>cn_cancelled := True, cn_world := en_cancel env (cn_signal s) (cn_world s)\<rparr>)"
| "conn_exec env cfg E_CancelSeen s =
     (if cn_cancelled s
      then (case cn_phase s of
              R_Next \<Rightarrow> Some (reader_done env cfg (Inr ()) s)
            | R_Send _ \<Rightarrow> Some (reader_done env cfg (Inr ()) s)
            | _ \<Rightarrow> None)
      else None)"
| "conn_exec env cfg (E_TaskRun i) s =
     (if i < length (cn_tasks s) \<and> tk_phase (cn_tasks s ! i) = T_Run then Some (task_run env cfg i s) else None)"
| "conn_exec env cfg (E_TaskSend i) s =
     (if i < length (cn_tasks s)
      then (case tk_phase (cn_tasks s ! i) of T_Send response \<Rightarrow> task_send cfg i response s | _ \<Rightarrow> None)
      else None)"
| "conn_exec env cfg E_Write s =
     (if cn_queue s = [] then None
      else (case cn_writer s of
              W_Loop \<Rightarrow> Some (write_one env cfg W_Loop s)
            | W_Drain \<Rightarrow> Some (write_one env cfg W_Drain s)
            | _ \<Rightarrow> None))"
| "conn_exec env cfg E_SendersGone s =
     (if cn_writer s = W_Loop \<and> cn_queue s = [] \<and> no_senders s then Some (s\<lparr>cn_writer := W_Close (Inr ())\<rparr>) else None)"
| "conn_exec env cfg E_Shutdown s =
     (if cn_writer s = W_Loop \<and> cn_queue s = [] \<and> cn_shutdown s then Some (s\<lparr>cn_writer := W_Drain\<rparr>) else None)"
| "conn_exec env cfg E_Drained s =
     (if cn_writer s = W_Drain \<and> cn_queue s = [] then Some (s\<lparr>cn_writer := W_Close (Inr ())\<rparr>) else None)"
| "conn_exec env cfg E_DrainTimeout s =
     (if cn_writer s = W_Drain \<and> cn_queue s \<noteq> [] then Some (drain_timeout env cfg s) else None)"
| "conn_exec env cfg E_WriterClose s =
     (case cn_writer s of W_Close r \<Rightarrow> Some (writer_close env r s) | _ \<Rightarrow> None)"
| "conn_exec env cfg (E_Push path body) s =
     (if no_senders s then None else Some (snd (sink_send_notify cfg path body s)))"
| "conn_exec env cfg E_DropHandles s = Some (s\<lparr>cn_handles := False\<rparr>)"
| "conn_exec env cfg E_Abort s =
     (case cn_writer s of W_Done _ \<Rightarrow> None | W_Aborted \<Rightarrow> None | _ \<Rightarrow> Some (connection_dropped env cfg s))"

text \<open>What \<^verbatim>\<open>handle_connection_with_config\<close> returns once the reader and the writer are done.\<close>

definition connection_result :: "('w, 'r, 'o, 's) WsConn \<Rightarrow> ('s RepeError + unit) option" where
  "connection_result s =
     (case (cn_phase s, cn_writer s) of
        (R_Done reader_result, W_Done writer_result) \<Rightarrow>
          Some (res_bind reader_result (\<lambda>_. writer_result))
      | _ \<Rightarrow> None)"

section \<open>Serving and proxying\<close>

text \<open>
  Accepting and serving one stream: \<open>serve\<close> is \<^verbatim>\<open>handle_connection_with_config\<close>, given
  whether the connection has a parent token.
\<close>

definition accept_and_serve ::
    "(bytes \<Rightarrow> string option) \<Rightarrow> ('k, 'ws) accept_hdr
      \<Rightarrow> ('ws \<Rightarrow> bool \<Rightarrow> HandshakeContext option \<Rightarrow> 'w \<Rightarrow> ('s RepeError + unit) \<times> 'w)
      \<Rightarrow> ('s ConnectionError \<Rightarrow> 'w \<Rightarrow> 'w) \<Rightarrow> ('w, 's) ConnectionConfig \<Rightarrow> 'k \<Rightarrow> string \<Rightarrow> bool \<Rightarrow> 'w \<Rightarrow> 'w" where
  "accept_and_serve to_str accept_hdr serve rep cfg stream expected_path shutdown w =
     (let capture = (cf_on_connect_ctx cfg \<noteq> [])
      in case accept_repe_websocket to_str accept_hdr stream expected_path capture (cf_limits cfg) of
           Inr (ws, handshake) \<Rightarrow>
             (case serve ws shutdown handshake w of
                (Inl err, w) \<Rightarrow> rep (CE_Connection err) w
              | (Inr _, w) \<Rightarrow> w)
         | Inl err \<Rightarrow> rep (CE_Handshake err) w)"

text \<open>
  The proxy. The list holds the frames that arrive until the stream ends; \<open>forward\<close> is
  \<^verbatim>\<open>AsyncClient::forward_message\<close> of the upstream client.
\<close>

definition proxy_finish ::
    "(WsMessage \<Rightarrow> 'o \<Rightarrow> (ws_error + unit) \<times> 'o) \<Rightarrow> ('o \<Rightarrow> (ws_error + unit) \<times> 'o) \<Rightarrow> 'o \<Rightarrow> ('s RepeError + unit) \<times> 'o" where
  "proxy_finish send close out =
     (let out = snd (send WS_Close out)
      in case close out of (r, out) \<Rightarrow> (res_map_err ws_server_transport_error r, out))"

fun proxy_loop ::
    "nat \<Rightarrow> (Message \<Rightarrow> nat) \<Rightarrow> (string \<Rightarrow> 'w \<Rightarrow> 'w) \<Rightarrow> ('s RepeError \<Rightarrow> string)
      \<Rightarrow> (Message \<Rightarrow> 'w \<Rightarrow> ('s RepeError + Message option) \<times> 'w)
      \<Rightarrow> (WsMessage \<Rightarrow> 'o \<Rightarrow> (ws_error + unit) \<times> 'o) \<Rightarrow> ('o \<Rightarrow> (ws_error + unit) \<times> 'o) \<Rightarrow> WebSocketLimits
      \<Rightarrow> (ws_error + WsMessage) list \<Rightarrow> 'o \<Rightarrow> 'w \<Rightarrow> ('s RepeError + unit) \<times> 'o \<times> 'w" where
  "proxy_loop usize_max capacity eprintln show_err forward send close limits [] out w =
     (case proxy_finish send close out of (r, out) \<Rightarrow> (r, out, w))"
| "proxy_loop usize_max capacity eprintln show_err forward send close limits (Inl err # frames) out w =
     (Inl (ws_server_transport_error err), out, w)"
| "proxy_loop usize_max capacity eprintln show_err forward send close limits (Inr frame # frames) out w =
     (case decode_request_payload frame of
        Inl err \<Rightarrow> (Inl err, out, w)
      | Inr FP_Continue \<Rightarrow> proxy_loop usize_max capacity eprintln show_err forward send close limits frames out w
      | Inr FP_Close \<Rightarrow> (case proxy_finish send close out of (r, out) \<Rightarrow> (r, out, w))
      | Inr (FP_Bytes payload) \<Rightarrow>
          (case message_from_slice_exact usize_max payload of
             Inl err \<Rightarrow> (Inl err, out, w)
           | Inr request \<Rightarrow>
               (case forward request w of
                  (Inl err, w) \<Rightarrow> (Inl err, out, w)
                | (Inr None, w) \<Rightarrow> proxy_loop usize_max capacity eprintln show_err forward send close limits frames out w
                | (Inr (Some response), w) \<Rightarrow>
                    (case frame_outbound capacity (report_error eprintln show_err []) limits response w of
                       (None, w) \<Rightarrow> proxy_loop usize_max capacity eprintln show_err forward send close limits frames out w
                     | (Some bs, w) \<Rightarrow>
                         (case send (WS_Binary bs) out of
                            (Inl err, out) \<Rightarrow> (Inl (ws_server_transport_error err), out, w)
                          | (Inr _, out) \<Rightarrow>
                              proxy_loop usize_max capacity eprintln show_err forward send close limits frames out w)))))"

definition proxy_connection where
  "proxy_connection usize_max capacity eprintln show_err forward send close =
     proxy_loop usize_max capacity eprintln show_err forward send close limits_default"

text \<open>
  The accept loop with a graceful drain. A connection's task is running, has finished, or is gone
  from the join set; an error of \<^verbatim>\<open>accept\<close> returns at once, which drops the set and aborts what
  it still holds.
\<close>

datatype conn_task = CT_Running | CT_Finished | CT_Joined | CT_Aborted

datatype serve_phase = SP_Accepting | SP_Draining | SP_Returned "io_error + unit"

record drain_server =
  ds_phase :: serve_phase
  ds_cancelled :: bool
  ds_conns :: "conn_task list"

datatype drain_event =
  DE_Accept | DE_AcceptFailed io_error | DE_Finish nat | DE_Shutdown | DE_Join nat | DE_AllJoined | DE_Deadline

definition join_finished :: "conn_task list \<Rightarrow> conn_task list" where
  "join_finished = map (\<lambda>t. if t = CT_Finished then CT_Joined else t)"

definition abort_running :: "conn_task list \<Rightarrow> conn_task list" where
  "abort_running = map (\<lambda>t. case t of CT_Running \<Rightarrow> CT_Aborted | CT_Finished \<Rightarrow> CT_Joined | _ \<Rightarrow> t)"

fun serve_with_graceful_drain :: "drain_event \<Rightarrow> drain_server \<Rightarrow> drain_server option" where
  "serve_with_graceful_drain DE_Accept d =
     (if ds_phase d = SP_Accepting
      then Some (d\<lparr>ds_conns := join_finished (ds_conns d @ [CT_Running])\<rparr>) else None)"
| "serve_with_graceful_drain (DE_AcceptFailed err) d =
     (if ds_phase d = SP_Accepting
      then Some (d\<lparr>ds_phase := SP_Returned (Inl err), ds_conns := abort_running (ds_conns d)\<rparr>) else None)"
| "serve_with_graceful_drain (DE_Finish i) d =
     (if i < length (ds_conns d) \<and> ds_conns d ! i = CT_Running
      then Some (d\<lparr>ds_conns := (ds_conns d)[i := CT_Finished]\<rparr>) else None)"
| "serve_with_graceful_drain DE_Shutdown d =
     (if ds_phase d = SP_Accepting then Some (d\<lparr>ds_phase := SP_Draining, ds_cancelled := True\<rparr>) else None)"
| "serve_with_graceful_drain (DE_Join i) d =
     (if ds_phase d = SP_Draining \<and> i < length (ds_conns d) \<and> ds_conns d ! i = CT_Finished
      then Some (d\<lparr>ds_conns := (ds_conns d)[i := CT_Joined]\<rparr>) else None)"
| "serve_with_graceful_drain DE_AllJoined d =
     (if ds_phase d = SP_Draining \<and> list_all (\<lambda>t. t = CT_Joined) (ds_conns d)
      then Some (d\<lparr>ds_phase := SP_Returned (Inr ())\<rparr>) else None)"
| "serve_with_graceful_drain DE_Deadline d =
     (if ds_phase d = SP_Draining \<and> \<not> list_all (\<lambda>t. t = CT_Joined) (ds_conns d)
      then Some (d\<lparr>ds_phase := SP_Returned (Inr ()), ds_conns := abort_running (ds_conns d)\<rparr>) else None)"

end
