(* ===== verification/Websocket_Serving.thy ===== *)
theory Websocket_Serving
  imports Websocket_Server "HOL-Library.Multiset"
begin

text \<open>
  What a WebSocket connection guarantees: the bounds on its queue and its handlers, one answer per
  request, the order of the wire, the entry in the peer registry, and the end of the
  connection.
\<close>

section \<open>What leaves the writer\<close>

lemma check_outbound_cases:
  obtains "check_outbound limits n = (Inr () :: 's RepeError + unit)" "within n (assumed_peer_frame_limit limits)"
  | limit where "check_outbound limits n = (Inl (RE_MessageTooLarge n limit) :: 's RepeError + unit)"
      "assumed_peer_frame_limit limits = Some limit" "limit < n"
  by (cases "assumed_peer_frame_limit limits") (force simp: check_outbound_def within_def split: if_splits)+

definition replacement_text :: "nat \<Rightarrow> nat \<Rightarrow> string" where
  "replacement_text sz limit =
     ''response is '' @ dec_str sz @ '' bytes, over the '' @ dec_str limit
     @ '' byte assumed peer frame limit; raise the peer's inbound limit or reduce the response''"

lemma outbound_replacement_build:
  "outbound_replacement m sz limit =
     build (with_id (h_id (m_header m)) (with_body_format BF_Utf8
       (with_body_bytes (as_bytes (replacement_text sz limit)) (with_error_code EC_InternalError builder))))"
  by (simp add: outbound_replacement_def create_error_message_def replacement_text_def build_def builder_defs Let_def)

lemma replacement_parses:
  assumes "HEADER_SIZE + length (replacement_text sz limit) \<le> usize_max" and "usize_max < 2 ^ 64"
  shows "message_from_slice_exact usize_max (message_to_vec (outbound_replacement m sz limit))
    = Inr (outbound_replacement m sz limit)"
  using assms unfolding outbound_replacement_build message_from_slice_exact_Inr_iff
  by (intro conjI refl build_wf) (simp_all add: builder_defs as_bytes_def)

lemma replacement_fields:
  "h_id (m_header (outbound_replacement m sz limit)) = h_id (m_header m)"
  "h_ec (m_header (outbound_replacement m sz limit)) = error_code_u32 EC_InternalError"
  "h_notify (m_header (outbound_replacement m sz limit)) = 0"
  by (simp_all add: outbound_replacement_build build_def builder_defs Let_def)

lemma frame_outbound_fits:
  "within (serialized_len m) (assumed_peer_frame_limit limits) \<Longrightarrow>
   frame_outbound capacity rep limits m w = (Some (message_to_vec m), w)"
  by (simp add: frame_outbound_def into_wire_bytes_to_vec check_outbound_def within_def serialized_len_def
      split: option.splits)

lemma frame_outbound_too_large:
  "assumed_peer_frame_limit limits = Some limit \<Longrightarrow> limit < serialized_len m \<Longrightarrow>
   frame_outbound capacity rep limits m w =
     (if h_notify (m_header m) \<noteq> 0 then None
      else Some (message_to_vec (outbound_replacement m (serialized_len m) limit)),
      rep (CE_OutboundTooLarge (method_of m) (serialized_len m) limit) w)"
  by (simp add: frame_outbound_def into_wire_bytes_to_vec check_outbound_def serialized_len_def Let_def)

text \<open>
  Every message the server sends goes out as itself when it is within the limit assumed of the peer.
  A larger one is reported, and if it is a notify nothing is sent; a larger response becomes an error
  response the client decodes, with the request's id, so no caller is left without an answer.
\<close>

theorem frame_outbound_exact:
  fixes rep :: "'s ConnectionError \<Rightarrow> 'w \<Rightarrow> 'w"
  assumes "wf_message usize_max m" and "usize_max < 2 ^ 64"
    and "\<And>limit. assumed_peer_frame_limit limits = Some limit \<Longrightarrow>
          HEADER_SIZE + length (replacement_text (serialized_len m) limit) \<le> usize_max"
  shows "(case frame_outbound capacity rep limits m w of
      (None, _) \<Rightarrow> h_notify (m_header m) \<noteq> 0 \<and> \<not> within (serialized_len m) (assumed_peer_frame_limit limits)
    | (Some bs, w') \<Rightarrow>
        (if within (serialized_len m) (assumed_peer_frame_limit limits)
         then message_from_slice_exact usize_max bs = (Inr m :: 's RepeError + Message) \<and> w' = w
           \<and> within (length bs) (assumed_peer_frame_limit limits)
         else (\<exists>r limit. message_from_slice_exact usize_max bs = (Inr r :: 's RepeError + Message)
           \<and> h_id (m_header r) = h_id (m_header m) \<and> h_ec (m_header r) = error_code_u32 EC_InternalError
           \<and> h_notify (m_header r) = 0
           \<and> w' = rep (CE_OutboundTooLarge (method_of m) (serialized_len m) limit) w)))"
proof (cases "within (serialized_len m) (assumed_peer_frame_limit limits)")
  case True
  then show ?thesis
    using assms(1) by (simp add: frame_outbound_fits message_from_slice_exact_Inr_iff)
next
  case False
  then obtain limit where limit: "assumed_peer_frame_limit limits = Some limit" "limit < serialized_len m"
    by (auto simp: within_def split: option.splits)
  from replacement_parses [OF assms(3) [OF limit(1)] assms(2), where m = m] False show ?thesis
    by (auto simp: frame_outbound_too_large [OF limit] replacement_fields)
qed

definition big_response :: "nat \<Rightarrow> Message" where
  "big_response n = build (with_id 7 (with_body_bytes (replicate n 0) builder))"

theorem frame_outbound_exact_witness:
  "\<exists>bs r. fst (frame_outbound (\<lambda>_. 0) (\<lambda>_ :: unit ConnectionError. \<lambda>w. w + 1) (limits_default\<lparr>assumed_peer_frame_limit := Some 4096\<rparr>)
       (big_response 5000) (0 :: nat)) = Some bs
     \<and> message_from_slice_exact 65535 bs = (Inr r :: unit RepeError + Message)
     \<and> h_id (m_header r) = 7 \<and> h_ec (m_header r) = error_code_u32 EC_InternalError"
proof -
  let ?l = "limits_default\<lparr>assumed_peer_frame_limit := Some 4096\<rparr>" and ?m = "big_response 5000"
  have wf: "wf_message 65535 ?m"
    unfolding big_response_def by (rule build_wf) (simp_all add: builder_defs HEADER_SIZE_def)
  have len: "serialized_len ?m = 5048"
    by (simp add: serialized_len_def big_response_def builder_defs HEADER_SIZE_def)
  have room: "HEADER_SIZE + length (replacement_text (serialized_len ?m) limit) \<le> 65535"
    if "assumed_peer_frame_limit ?l = Some limit" for limit
  proof -
    have "limit = 4096" using that by simp
    moreover have "length (replacement_text 5048 4096) \<le> 200"
      by (simp add: replacement_text_def dec_str.simps)
    ultimately show ?thesis by (simp add: len HEADER_SIZE_def)
  qed
  have fields: "h_id (m_header ?m) = 7" "h_notify (m_header ?m) = 0"
    by (simp_all add: big_response_def build_def builder_defs Let_def)
  have over: "\<not> within (serialized_len ?m) (assumed_peer_frame_limit ?l)" by (simp add: within_def len)
  let ?f = "frame_outbound (\<lambda>_. 0) (\<lambda>_ :: unit ConnectionError. \<lambda>w. w + 1) ?l ?m (0 :: nat)"
  obtain bs w' where f: "?f = (Some bs, w')"
    using fields(2) by (simp add: frame_outbound_too_large [where limit = 4096] len)
  have "\<exists>r limit. message_from_slice_exact 65535 bs = (Inr r :: unit RepeError + Message)
      \<and> h_id (m_header r) = h_id (m_header ?m) \<and> h_ec (m_header r) = error_code_u32 EC_InternalError
      \<and> h_notify (m_header r) = 0 \<and> w' = Suc 0"
    using frame_outbound_exact [OF wf, where limits = ?l and capacity = "\<lambda>_. 0"
        and rep = "\<lambda>_ :: unit ConnectionError. \<lambda>w. w + 1" and w = "0 :: nat"] room over
    unfolding f by simp
  then show ?thesis unfolding f fields(1) by auto
qed

text \<open>
  The replacement is not checked in turn: with an assumed limit below its own size the server sends a
  frame larger than the limit.
\<close>

lemma replacement_unchecked:
  "\<exists>bs. fst (frame_outbound (\<lambda>_. 0) (\<lambda>_ :: unit ConnectionError. \<lambda>w. w)
      (limits_default\<lparr>assumed_peer_frame_limit := Some 100\<rparr>) (big_response 100) ()) = Some bs \<and> 100 < length bs"
proof -
  have len: "serialized_len (big_response 100) = 148"
    by (simp add: serialized_len_def big_response_def builder_defs HEADER_SIZE_def)
  have "serialized_len (outbound_replacement (big_response 100) 148 100) \<ge> 148"
  proof -
    have "length (replacement_text 148 100) \<ge> 100"
      by (simp add: replacement_text_def dec_str.simps)
    then show ?thesis
      by (simp add: serialized_len_def outbound_replacement_build builder_defs HEADER_SIZE_def as_bytes_def)
  qed
  moreover have "h_notify (m_header (big_response 100)) = 0"
    by (simp add: big_response_def build_def builder_defs Let_def)
  ultimately show ?thesis
    by (subst frame_outbound_too_large [where limit = 100]) (simp_all add: len)
qed

section \<open>Bounds of a connection\<close>

fun is_reading :: "'s reader_phase \<Rightarrow> bool" where
  "is_reading R_Next = True"
| "is_reading (R_Send _) = True"
| "is_reading (R_Done _) = False"
| "is_reading R_Gone = False"

abbreviation reading :: "('w, 'r, 'o, 's) WsConn \<Rightarrow> bool" where
  "reading s \<equiv> is_reading (cn_phase s)"

definition live_tasks :: "('w, 's) task list \<Rightarrow> nat" where
  "live_tasks ts = length (filter (\<lambda>t. tk_phase t \<noteq> T_Done) ts)"

fun writer_over :: "'s writer_phase \<Rightarrow> bool" where
  "writer_over W_Loop = False"
| "writer_over W_Drain = False"
| "writer_over (W_Close _) = False"
| "writer_over (W_Done _) = True"
| "writer_over W_Aborted = True"

definition conn_ok :: "('w, 's) ConnectionConfig \<Rightarrow> ('w, 'r, 'o, 's) WsConn \<Rightarrow> bool" where
  "conn_ok cfg s \<longleftrightarrow>
     length (cn_queue s) \<le> cf_outbound_capacity cfg
     \<and> map_option (\<lambda>p. p + live_tasks (cn_tasks s)) (cn_permits s) = cf_offreader_limit cfg
     \<and> (cn_rx_open s \<longleftrightarrow> \<not> writer_over (cn_writer s))
     \<and> (\<not> reading s \<longrightarrow> cn_cancelled s)
     \<and> (\<forall>r. cn_phase s = R_Done r \<longrightarrow> cn_shutdown s)
     \<and> (cn_phase s = R_Gone \<longrightarrow> cn_writer s = W_Aborted)"

definition conn_start ::
    "('w, 'r, 'o, 's) ws_env \<Rightarrow> ('w, 's) ConnectionConfig \<Rightarrow> ('w, 'r, 'o, 's) WsConn \<Rightarrow> bool" where
  "conn_start env cfg s \<longleftrightarrow>
     (\<exists>sink signal cancelled handshake r out w.
        s = open_connection env cfg sink signal cancelled handshake r out w)"

definition conn_step ::
    "('w, 'r, 'o, 's) ws_env \<Rightarrow> ('w, 's) ConnectionConfig \<Rightarrow> ('w, 'r, 'o, 's) WsConn \<Rightarrow> conn_event
      \<Rightarrow> ('w, 'r, 'o, 's) WsConn \<Rightarrow> bool" where
  "conn_step env cfg s e t \<longleftrightarrow> conn_exec env cfg e s = Some t"

lemma live_tasks_simps [simp]:
  "live_tasks [] = 0"
  "live_tasks (t # ts) = (if tk_phase t = T_Done then 0 else 1) + live_tasks ts"
  "live_tasks (ts @ us) = live_tasks ts + live_tasks us"
  by (simp_all add: live_tasks_def)

lemma live_tasks_update:
  assumes "i < length ts" and "tk_phase (ts ! i) \<noteq> T_Done"
  shows "live_tasks (ts[i := (ts ! i)\<lparr>tk_phase := p\<rparr>]) + (if p = T_Done then 1 else 0) = live_tasks ts"
  using assms(2) by (subst (3) id_take_nth_drop [OF assms(1)]) (simp add: upd_conv_take_nth_drop [OF assms(1)])

lemmas conn_op_defs = reader_done_def disconnect_guard_drop_def connection_dropped_def set_task_def end_task_def Let_def

lemma reader_done_ok:
  "conn_ok cfg s \<Longrightarrow> conn_ok cfg (reader_done env cfg r s)"
  by (auto simp: conn_ok_def conn_op_defs)

lemma connection_dropped_ok:
  "conn_ok cfg s \<Longrightarrow> conn_ok cfg (connection_dropped env cfg s)"
  by (cases "cn_phase s") (auto simp: conn_ok_def conn_op_defs)

lemma spawn_off_reader_ok:
  "conn_ok cfg s \<Longrightarrow> reading s \<Longrightarrow> conn_ok cfg (spawn_off_reader env cfg h m n s)"
  by (cases "cn_permits s") (auto simp: conn_ok_def spawn_off_reader_def Let_def)

lemma world_ok: "conn_ok cfg (s\<lparr>cn_world := w\<rparr>) = conn_ok cfg s"
  by (simp add: conn_ok_def)

lemma reader_ok: "conn_ok cfg (s\<lparr>cn_reader := r\<rparr>) = conn_ok cfg s"
  by (simp add: conn_ok_def)

lemma respond_ok: "conn_ok cfg s \<Longrightarrow> reading s \<Longrightarrow> conn_ok cfg (s\<lparr>cn_phase := R_Send m\<rparr>)"
  by (simp add: conn_ok_def)

lemma reader_dispatch_ok:
  assumes "conn_ok cfg s" and "reading s"
  shows "conn_ok cfg (reader_dispatch env cfg view s)"
  using assms
  by (auto simp: reader_dispatch_def Let_def world_ok connection_dropped_ok spawn_off_reader_ok respond_ok
      split: RouteOutcome.splits Execution.splits option.splits prod.splits)

lemma reader_turn_ok:
  assumes "conn_ok cfg s" and "reading s"
  shows "conn_ok cfg (reader_turn env cfg s)"
  using assms
  by (auto simp: reader_turn_def Let_def reader_ok reader_done_ok reader_dispatch_ok
      split: prod.splits option.splits sum.splits FramePayload.splits)

lemma end_task_ok:
  assumes "conn_ok cfg s" and "i < length (cn_tasks s)" and "tk_phase (cn_tasks s ! i) \<noteq> T_Done"
  shows "conn_ok cfg (end_task i s)"
  using assms(1) live_tasks_update [OF assms(2,3), of T_Done, symmetric]
  by (cases "cn_permits s") (simp_all add: conn_ok_def end_task_def set_task_def)

lemma set_task_ok:
  assumes "conn_ok cfg s" and "i < length (cn_tasks s)" and "tk_phase (cn_tasks s ! i) \<noteq> T_Done"
  shows "conn_ok cfg (set_task i (T_Send m) s)"
  using assms live_tasks_update [OF assms(2,3), of "T_Send m"]
  by (simp add: conn_ok_def set_task_def)

lemma task_run_ok:
  assumes "conn_ok cfg s" and "i < length (cn_tasks s)" and "tk_phase (cn_tasks s ! i) = T_Run"
  shows "conn_ok cfg (task_run env cfg i s)"
  using assms by (auto simp: task_run_def Let_def world_ok intro!: end_task_ok set_task_ok split: prod.splits option.splits)

lemma enqueue_ok: "conn_ok cfg s \<Longrightarrow> queue_room cfg s \<Longrightarrow> conn_ok cfg (s\<lparr>cn_queue := cn_queue s @ [m]\<rparr>)"
  by (simp add: conn_ok_def queue_room_def)

lemma enqueue_next_ok:
  "conn_ok cfg s \<Longrightarrow> queue_room cfg s \<Longrightarrow> reading s \<Longrightarrow>
   conn_ok cfg (s\<lparr>cn_queue := cn_queue s @ [m], cn_phase := R_Next\<rparr>)"
  by (simp add: conn_ok_def queue_room_def)

lemma write_one_ok:
  "conn_ok cfg s \<Longrightarrow> \<not> writer_over (cn_writer s) \<Longrightarrow> \<not> writer_over again \<Longrightarrow> cn_phase s \<noteq> R_Gone
   \<Longrightarrow> conn_ok cfg (write_one env cfg again s)"
  by (auto simp: conn_ok_def write_one_def split: list.splits prod.splits option.splits sum.splits)

lemma conn_exec_ok:
  assumes "conn_ok cfg s" and "conn_exec env cfg e s = Some t"
  shows "conn_ok cfg t"
proof (cases e)
  case E_Read
  with assms show ?thesis by (auto simp: reader_turn_ok split: reader_phase.splits)
next
  case E_ReaderSend
  with assms show ?thesis
    by (auto simp: reader_send_def reader_done_ok enqueue_next_ok split: reader_phase.splits if_splits)
next
  case E_CancelSeen
  with assms show ?thesis by (auto simp: reader_done_ok split: reader_phase.splits if_splits)
next
  case (E_TaskRun i)
  with assms show ?thesis by (auto simp: task_run_ok split: if_splits)
next
  case (E_TaskSend i)
  with assms show ?thesis
    by (auto simp: task_send_def split: task_phase.splits if_splits intro!: end_task_ok enqueue_ok)
next
  case E_Write
  have "cn_phase s \<noteq> R_Gone" if "cn_writer s \<noteq> W_Aborted" using assms(1) that by (auto simp: conn_ok_def)
  with E_Write assms show ?thesis by (auto simp: write_one_ok split: writer_phase.splits if_splits)
next
  case E_WriterClose
  with assms show ?thesis by (auto simp: writer_close_def conn_ok_def Let_def split: writer_phase.splits)
next
  case (E_Push path body)
  with assms show ?thesis by (auto simp: sink_send_notify_def enqueue_ok split: if_splits)
next
  case E_Abort
  with assms show ?thesis by (auto simp: connection_dropped_ok split: writer_phase.splits)
next
  case E_DrainTimeout
  with assms show ?thesis
    by (auto simp: drain_timeout_def conn_ok_def split: if_splits prod.splits)
qed (use assms in \<open>auto simp: conn_ok_def split: if_splits\<close>)

lemma open_connection_fields [simp]:
  "cn_phase (open_connection env cfg k sig c h r out w) = R_Next"
  "cn_queue (open_connection env cfg k sig c h r out w) = []"
  "cn_rx_open (open_connection env cfg k sig c h r out w)"
  "cn_permits (open_connection env cfg k sig c h r out w) = cf_offreader_limit cfg"
  "cn_tasks (open_connection env cfg k sig c h r out w) = []"
  "cn_writer (open_connection env cfg k sig c h r out w) = W_Loop"
  "cn_out (open_connection env cfg k sig c h r out w) = out"
  by (simp_all add: open_connection_def Let_def split: prod.split)

lemma open_connection_ok: "conn_start env cfg s \<Longrightarrow> conn_ok cfg s \<and> reading s"
  by (auto simp: conn_start_def conn_ok_def option.map_ident)

interpretation ws_conn: invariant_system "conn_start env cfg" "conn_step env cfg" "conn_ok cfg"
  for env :: "('w, 'r, 'o, 's) ws_env" and cfg
  by unfold_locales (auto simp: conn_step_def dest: open_connection_ok intro: conn_exec_ok)

text \<open>
  In every state a connection can be in, its outbound queue is within the configured capacity, no more
  handlers run off the reader than configured, a connection whose reader has ended has cancelled its
  handlers' token, and one that has returned refuses further notifies.
\<close>

theorem connection_bounds:
  assumes "reachable (conn_start env cfg) (conn_step env cfg) s"
  shows "length (cn_queue s) \<le> cf_outbound_capacity cfg
    \<and> within (live_tasks (cn_tasks s)) (cf_offreader_limit cfg)
    \<and> (\<not> reading s \<longrightarrow> cn_cancelled s)
    \<and> (connection_result s \<noteq> None \<longrightarrow> fst (sink_send_notify cfg path body s) = Inl PS_Disconnected)"
proof -
  from ws_conn.invar_reachable [OF assms] have ok: "conn_ok cfg s" .
  moreover from this have "within (live_tasks (cn_tasks s)) (cf_offreader_limit cfg)"
    by (cases "cn_permits s") (auto simp: conn_ok_def within_def split: option.splits)
  moreover have "writer_over (cn_writer s)" if "connection_result s \<noteq> None"
    using that by (auto simp: connection_result_def split: reader_phase.splits writer_phase.splits)
  ultimately show ?thesis by (auto simp: conn_ok_def sink_send_notify_def)
qed

section \<open>One answer for every request\<close>

abbreviation id_of :: "Message \<Rightarrow> u64" where
  "id_of m \<equiv> h_id (m_header m)"

text \<open>The request the reader's next turn will read, if the frame at hand holds one.\<close>

definition incoming_request :: "('w, 'r, 'o, 's) ws_env \<Rightarrow> ('w, 'r, 'o, 's) WsConn \<Rightarrow> MessageView option" where
  "incoming_request env s =
     (case fst (en_next env (cn_reader s)) of
        Some (Inr (WS_Binary payload)) \<Rightarrow>
          res_ok (view_from_slice_exact (en_usize_max env) payload :: 's RepeError + MessageView)
      | _ \<Rightarrow> None)"

fun asked :: "('w, 'r, 'o, 's) ws_env \<Rightarrow> conn_event \<Rightarrow> ('w, 'r, 'o, 's) WsConn \<Rightarrow> u64 list" where
  "asked env E_Read s =
     (case incoming_request env s of
        Some view \<Rightarrow> if h_notify (v_header view) = 1 then [] else [h_id (v_header view)]
      | None \<Rightarrow> [])"
| "asked env _ s = []"

fun answered :: "conn_event \<Rightarrow> ('w, 'r, 'o, 's) WsConn \<Rightarrow> u64 list" where
  "answered E_ReaderSend s =
     (case cn_phase s of R_Send m \<Rightarrow> if cn_rx_open s then [id_of m] else [] | _ \<Rightarrow> [])"
| "answered (E_TaskSend i) s =
     (case tk_phase (cn_tasks s ! i) of T_Send m \<Rightarrow> if cn_rx_open s then [id_of m] else [] | _ \<Rightarrow> [])"
| "answered _ s = []"

fun conn_trace ::
    "('w, 'r, 'o, 's) ws_env \<Rightarrow> ('w, 's) ConnectionConfig \<Rightarrow> conn_event list \<Rightarrow> ('w, 'r, 'o, 's) WsConn
      \<Rightarrow> (u64 list \<times> u64 list \<times> ('w, 'r, 'o, 's) WsConn) option" where
  "conn_trace env cfg [] s = Some ([], [], s)"
| "conn_trace env cfg (e # es) s =
     (case conn_exec env cfg e s of
        None \<Rightarrow> None
      | Some t \<Rightarrow>
          (case conn_trace env cfg es t of
             None \<Rightarrow> None
           | Some (qs, as, u) \<Rightarrow> Some (asked env e s @ qs, answered e s @ as, u)))"

fun task_owes :: "('w, 's) task \<Rightarrow> u64 multiset" where
  "task_owes t =
     (case tk_phase t of
        T_Run \<Rightarrow> if tk_notify t then {#} else {#id_of (tk_request t)#}
      | T_Send m \<Rightarrow> {#id_of m#}
      | T_Done \<Rightarrow> {#})"

definition tasks_owe :: "('w, 's) task list \<Rightarrow> u64 multiset" where
  "tasks_owe ts = (\<Sum>t\<leftarrow>ts. task_owes t)"

fun phase_owes :: "'s reader_phase \<Rightarrow> u64 multiset" where
  "phase_owes (R_Send m) = {#id_of m#}"
| "phase_owes _ = {#}"

definition owed :: "('w, 'r, 'o, 's) WsConn \<Rightarrow> u64 multiset" where
  "owed s = phase_owes (cn_phase s) + tasks_owe (cn_tasks s)"

text \<open>A handler whose responses carry the id of the request, as the response builders make them.\<close>

definition keeps_id :: "('w, 's) Handler \<Rightarrow> bool" where
  "keeps_id h \<longleftrightarrow>
     (\<forall>view ctx w m w'. hd_handle_view h view ctx w = (Inr m, w') \<longrightarrow> id_of m = h_id (v_header view))
     \<and> (\<forall>req ctx w m w'. hd_handle_with_ctx h req ctx w = (Inr m, w') \<longrightarrow> id_of m = id_of req)"

lemma stamp_id [simp]: "id_of (stamp_response_query m q) = id_of m"
  by (simp add: stamp_response_query_def Let_def)

lemma error_response_id [simp]:
  "id_of (create_error_response_like req code msg) = id_of req"
  "id_of (create_error_response_unstamped_view view code msg) = h_id (v_header view)"
  by (simp_all add: create_error_response_like_def create_error_message_build create_error_unstamped_build
      build_def builder_defs Let_def)

lemma keeps_id_view: "keeps_id h \<Longrightarrow> hd_handle_view h view ctx w = (Inr m, w') \<Longrightarrow> id_of m = h_id (v_header view)"
  unfolding keeps_id_def by blast

lemma keeps_id_owned: "keeps_id h \<Longrightarrow> hd_handle_with_ctx h req ctx w = (Inr m, w') \<Longrightarrow> id_of m = id_of req"
  unfolding keeps_id_def by blast

lemma dispatch_view_id:
  assumes "keeps_id h" and "dispatch_view show_err h view ctx notify w = (r, w')"
  shows "(case r of None \<Rightarrow> notify | Some m \<Rightarrow> \<not> notify \<and> id_of m = h_id (v_header view))"
  using assms(2) keeps_id_view [OF assms(1)] unfolding dispatch_view_def
  by (auto split: prod.splits sum.splits if_splits)

lemma dispatch_id:
  assumes "keeps_id h" and "dispatch show_err h req ctx notify w = (r, w')"
  shows "(case r of None \<Rightarrow> notify | Some m \<Rightarrow> \<not> notify \<and> id_of m = id_of req)"
  using assms(2) keeps_id_owned [OF assms(1)] unfolding dispatch_def
  by (auto split: prod.splits sum.splits if_splits)

lemma route_notify:
  "route r h q = RO_Reject notify code msg \<Longrightarrow> notify \<longleftrightarrow> h_notify h = 1"
  "route r h q = RO_Dispatch handler notify path \<Longrightarrow> (notify \<longleftrightarrow> h_notify h = 1) \<and> router_get r path = Some handler"
  by (auto simp: route_def Let_def split: if_splits QueryFormat.splits sum.splits option.splits)

lemma tasks_owe_simps [simp]:
  "tasks_owe [] = {#}" "tasks_owe (t # ts) = task_owes t + tasks_owe ts"
  "tasks_owe (ts @ us) = tasks_owe ts + tasks_owe us"
  by (simp_all add: tasks_owe_def)

lemma tasks_owe_update:
  assumes "i < length ts"
  shows "tasks_owe (ts[i := t]) + task_owes (ts ! i) = tasks_owe ts + task_owes t"
  by (subst (2) id_take_nth_drop [OF assms]) (simp add: upd_conv_take_nth_drop [OF assms])

lemma task_owes_phase:
  "task_owes (t\<lparr>tk_phase := T_Done\<rparr>) = {#}" "task_owes (t\<lparr>tk_phase := T_Send m\<rparr>) = {#id_of m#}"
  by simp_all

definition router_all :: "(('w, 's) Handler \<Rightarrow> bool) \<Rightarrow> ('w, 's) Router \<Rightarrow> bool" where
  "router_all P r \<longleftrightarrow> (\<forall>path h. router_get r path = Some h \<longrightarrow> P h)"

definition tasks_all :: "(('w, 's) Handler \<Rightarrow> bool) \<Rightarrow> ('w, 'r, 'o, 's) WsConn \<Rightarrow> bool" where
  "tasks_all P s \<longleftrightarrow> (\<forall>t\<in>set (cn_tasks s). P (tk_handler t))"

abbreviation router_keeps_ids :: "('w, 's) Router \<Rightarrow> bool" where
  "router_keeps_ids r \<equiv> router_all keeps_id r"

abbreviation tasks_keep_ids :: "('w, 'r, 'o, 's) WsConn \<Rightarrow> bool" where
  "tasks_keep_ids s \<equiv> tasks_all keeps_id s"

text \<open>How a step moves what is owed: nothing is owed without being asked, nothing is lost while serving.\<close>

definition balanced ::
    "u64 multiset \<Rightarrow> u64 multiset \<Rightarrow> ('w, 'r, 'o, 's) WsConn \<Rightarrow> ('w, 'r, 'o, 's) WsConn \<Rightarrow> bool" where
  "balanced qs as s t \<longleftrightarrow>
     as + owed t \<subseteq># qs + owed s \<and> (reading t \<and> cn_rx_open t \<longrightarrow> as + owed t = qs + owed s)
     \<and> (reading t \<longrightarrow> reading s) \<and> (cn_rx_open t \<longrightarrow> cn_rx_open s)"

lemma owed_done:
  "owed (reader_done env cfg r s) = tasks_owe (cn_tasks s)" "\<not> reading (reader_done env cfg r s)"
  "cn_rx_open (reader_done env cfg r s) = cn_rx_open s"
  by (simp_all add: owed_def conn_op_defs)

lemma owed_dropped:
  "owed (connection_dropped env cfg s) = tasks_owe (cn_tasks s)" "\<not> reading (connection_dropped env cfg s)"
  "\<not> cn_rx_open (connection_dropped env cfg s)"
  by (simp_all add: owed_def conn_op_defs split: reader_phase.split)

lemma reader_dispatch_balanced:
  assumes "router_keeps_ids (cf_router cfg)" and "cn_phase s = R_Next"
  shows "balanced (if h_notify (v_header view) = 1 then {#} else {#h_id (v_header view)#}) {#} s
    (reader_dispatch env cfg view s)"
proof (cases "route (cf_router cfg) (v_header view) (v_query view)")
  case (RO_Reject notify code msg)
  with route_notify(1) [OF RO_Reject] assms(2) show ?thesis
    by (simp add: reader_dispatch_def balanced_def owed_def)
next
  case (RO_Dispatch handler notify path)
  note n = route_notify(2) [OF RO_Dispatch]
  with assms(1) have id: "keeps_id handler" by (auto simp: router_all_def)
  show ?thesis
  proof (cases "hd_execution handler")
    case Inline
    show ?thesis
    proof (cases "en_panics env handler (to_message view) (cn_world s)")
      case None
      obtain r w where d: "dispatch_view (en_show env) handler view
          (call_context_with_cancel path (cn_peer s) (cn_signal s)) notify (cn_world s) = (r, w)" by fastforce
      from dispatch_view_id [OF id d] None Inline RO_Dispatch n d assms(2) show ?thesis
        by (cases r) (simp_all add: reader_dispatch_def balanced_def owed_def)
    next
      case (Some w)
      with Inline RO_Dispatch assms(2) show ?thesis
        by (simp add: reader_dispatch_def balanced_def owed_dropped) (simp add: owed_def)
    qed
  next
    case OffReader
    with RO_Dispatch n assms(2) show ?thesis
      by (auto simp: reader_dispatch_def spawn_off_reader_def balanced_def owed_def Let_def to_message_def)
  qed
qed

lemma reader_dispatch_tasks:
  assumes "router_all P (cf_router cfg)" and "tasks_all P s"
  shows "tasks_all P (reader_dispatch env cfg view s)"
  using assms
  by (auto simp: reader_dispatch_def spawn_off_reader_def tasks_all_def router_all_def conn_op_defs
      dest!: route_notify(2)
      split: RouteOutcome.splits Execution.splits option.splits prod.splits reader_phase.splits)

lemma balanced_done: "balanced qs {#} s (reader_done env cfg r (s\<lparr>cn_reader := x\<rparr>))"
  by (simp add: balanced_def owed_done) (simp add: owed_def subset_mset.add_increasing)

lemma balanced_reader: "balanced qs as (s\<lparr>cn_reader := x\<rparr>) t \<Longrightarrow> balanced qs as s t"
  by (simp add: balanced_def owed_def)

lemma balanced_same:
  "cn_phase t = cn_phase s \<Longrightarrow> cn_tasks t = cn_tasks s \<Longrightarrow> (cn_rx_open t \<Longrightarrow> cn_rx_open s) \<Longrightarrow> balanced {#} {#} s t"
  by (simp add: balanced_def owed_def)

lemma reader_turn_balanced:
  fixes env :: "('w, 'r, 'o, 's) ws_env"
  assumes "router_keeps_ids (cf_router cfg)" and "cn_phase s = R_Next"
  shows "balanced (mset (asked env E_Read s)) {#} s (reader_turn env cfg s)"
proof (cases "incoming_request env s")
  case None
  then show ?thesis
    using assms(2) balanced_done [of "{#}"]
    by (auto simp: reader_turn_def incoming_request_def decode_request_payload_def Let_def
        intro: balanced_same split: prod.splits option.splits sum.splits WsMessage.splits)
next
  case (Some view)
  then obtain r payload where "en_next env (cn_reader s) = (Some (Inr (WS_Binary payload)), r)"
    "view_from_slice_exact (en_usize_max env) payload = (Inr view :: 's RepeError + MessageView)"
    by (cases "en_next env (cn_reader s)")
      (auto simp: incoming_request_def split: option.splits sum.splits WsMessage.splits)
  then have "reader_turn env cfg s = reader_dispatch env cfg view (s\<lparr>cn_reader := r\<rparr>)"
    by (simp add: reader_turn_def decode_request_payload_def)
  with Some reader_dispatch_balanced [OF assms(1), of "s\<lparr>cn_reader := r\<rparr>" view env] assms(2) show ?thesis
    by (simp add: balanced_reader split: if_splits)
qed

lemma reader_turn_tasks:
  assumes "router_all P (cf_router cfg)" and "tasks_all P s"
  shows "tasks_all P (reader_turn env cfg s)"
proof -
  have "tasks_all P (s\<lparr>cn_reader := r\<rparr>)" for r using assms(2) by (simp add: tasks_all_def)
  moreover have "tasks_all P t \<Longrightarrow> tasks_all P (reader_done env cfg r t)" for r t
    by (simp add: tasks_all_def conn_op_defs)
  ultimately show ?thesis
    by (auto simp: reader_turn_def Let_def reader_dispatch_tasks [OF assms(1)] split: prod.splits option.splits sum.splits FramePayload.splits)
qed

lemma task_fields [simp]:
  "cn_phase (set_task i p s) = cn_phase s" "cn_rx_open (set_task i p s) = cn_rx_open s"
  "cn_phase (end_task i s) = cn_phase s" "cn_rx_open (end_task i s) = cn_rx_open s"
  by (simp_all add: set_task_def end_task_def)

lemma owed_end_task:
  assumes "i < length (cn_tasks s)"
  shows "owed (end_task i s) + task_owes (cn_tasks s ! i) = owed s"
  using tasks_owe_update [OF assms, of "(cn_tasks s ! i)\<lparr>tk_phase := T_Done\<rparr>"]
  by (simp add: owed_def end_task_def set_task_def task_owes_phase del: task_owes.simps)

lemma owed_set_task:
  assumes "i < length (cn_tasks s)"
  shows "owed (set_task i (T_Send m) s) + task_owes (cn_tasks s ! i) = owed s + {#id_of m#}"
  using tasks_owe_update [OF assms, of "(cn_tasks s ! i)\<lparr>tk_phase := T_Send m\<rparr>"]
  by (simp add: owed_def set_task_def task_owes_phase del: task_owes.simps)

lemma task_run_balanced:
  assumes "tasks_keep_ids s" and "i < length (cn_tasks s)" and "tk_phase (cn_tasks s ! i) = T_Run"
  shows "balanced {#} {#} s (task_run env cfg i s)"
proof -
  let ?t = "cn_tasks s ! i"
  have id: "keeps_id (tk_handler ?t)" using assms(1,2) by (auto simp: tasks_all_def)
  have eqI: "balanced {#} {#} s t" if "owed t = owed s" "cn_phase t = cn_phase s" "cn_rx_open t = cn_rx_open s" for t
    using that by (simp add: balanced_def)
  have ended: "owed (end_task i (s\<lparr>cn_world := w\<rparr>)) = owed s" if "tk_notify ?t" for w
    using owed_end_task [of i "s\<lparr>cn_world := w\<rparr>"] assms(2,3) that by (simp add: owed_def)
  have sent: "owed (set_task i (T_Send m) (s\<lparr>cn_world := w\<rparr>)) = owed s"
    if "\<not> tk_notify ?t" "id_of m = id_of (tk_request ?t)" for m w
    using owed_set_task [of i "s\<lparr>cn_world := w\<rparr>" m] assms(2,3) that by (simp add: owed_def)
  show ?thesis
  proof (cases "en_panics env (tk_handler ?t) (tk_request ?t) (cn_world s)")
    case None
    obtain r w where d: "dispatch (en_show env) (tk_handler ?t) (tk_request ?t)
        (call_context_with_cancel (method_of (tk_request ?t)) (cn_peer s) (cn_signal s)) (tk_notify ?t) (cn_world s) = (r, w)"
      by fastforce
    from dispatch_id [OF id d] None d show ?thesis
      by (cases r) (auto simp: task_run_def Let_def ended sent intro!: eqI)
  next
    case (Some w)
    then show ?thesis
      by (auto simp: task_run_def Let_def ended sent intro!: eqI)
  qed
qed

lemma task_send_balanced:
  assumes "i < length (cn_tasks s)" and "tk_phase (cn_tasks s ! i) = T_Send m" and "task_send cfg i m s = Some t"
  shows "balanced {#} (mset (answered (E_TaskSend i) s)) s t"
proof -
  have "owed (end_task i (s\<lparr>cn_queue := q\<rparr>)) + {#id_of m#} = owed s" for q
    using owed_end_task [of i "s\<lparr>cn_queue := q\<rparr>"] assms(1,2) by (simp add: owed_def)
  moreover have "owed (end_task i s) \<subseteq># owed s"
    using owed_end_task [OF assms(1)] by (metis mset_subset_eq_add_left)
  ultimately show ?thesis
    using assms(2,3) by (auto simp: task_send_def balanced_def split: if_splits)
qed

lemma task_all:
  assumes "tasks_all P s"
  shows "tasks_all P (set_task i p s)" "tasks_all P (end_task i s)"
proof -
  have "P (tk_handler t)" if "t \<in> set ((cn_tasks s)[i := (cn_tasks s ! i)\<lparr>tk_phase := p\<rparr>])" for t p
  proof (cases "i < length (cn_tasks s)")
    case True
    with assms have "P (tk_handler (cn_tasks s ! i))" by (simp add: tasks_all_def)
    with that assms show ?thesis using set_update_subset_insert [of "cn_tasks s" i] by (fastforce simp: tasks_all_def)
  qed (use assms that in \<open>simp add: tasks_all_def list_update_beyond\<close>)
  then show "tasks_all P (set_task i p s)" "tasks_all P (end_task i s)"
    by (auto simp: tasks_all_def set_task_def end_task_def)
qed

lemma tasks_all_same: "cn_tasks t = cn_tasks s \<Longrightarrow> tasks_all P s \<Longrightarrow> tasks_all P t"
  by (simp add: tasks_all_def)

lemma task_run_all: "tasks_all P s \<Longrightarrow> tasks_all P (task_run env cfg i s)"
proof -
  assume "tasks_all P s"
  then have "tasks_all P (s\<lparr>cn_world := w\<rparr>)" for w by (simp add: tasks_all_def)
  then show ?thesis by (auto simp: task_run_def Let_def task_all split: prod.splits option.splits)
qed

lemma write_one_fields:
  "cn_phase (write_one env cfg p s) = cn_phase s" "cn_tasks (write_one env cfg p s) = cn_tasks s"
  "cn_rx_open (write_one env cfg p s) = cn_rx_open s"
  by (simp_all add: write_one_def split: list.split prod.split option.split sum.split)

lemma drain_timeout_fields:
  "cn_phase (drain_timeout env cfg s) = cn_phase s" "cn_tasks (drain_timeout env cfg s) = cn_tasks s"
  "cn_rx_open (drain_timeout env cfg s) = cn_rx_open s"
  by (simp_all add: drain_timeout_def split: prod.split)

lemma balanced_ended: "balanced {#} {#} s (reader_done env cfg r s)" "balanced {#} {#} s (connection_dropped env cfg s)"
  by (simp_all add: balanced_def owed_done owed_dropped) (simp_all add: owed_def)

lemma ended_tasks:
  "cn_tasks (reader_done env cfg r s) = cn_tasks s" "cn_tasks (connection_dropped env cfg s) = cn_tasks s"
  by (simp_all add: conn_op_defs split: reader_phase.split)

lemma conn_exec_tasks:
  assumes "router_all P (cf_router cfg)" and "tasks_all P s" and "conn_exec env cfg e s = Some t"
  shows "tasks_all P t"
proof (cases e)
  case E_Read
  with assms(3) show ?thesis by (auto simp: reader_turn_tasks [OF assms(1,2)] split: reader_phase.splits)
next
  case (E_TaskRun i)
  with assms show ?thesis by (auto simp: task_run_all split: if_splits)
next
  case (E_TaskSend i)
  with assms(3) show ?thesis
    using task_all(2) [OF assms(2)] task_all(2) [OF tasks_all_same [OF _ assms(2)], of "s\<lparr>cn_queue := q\<rparr>" for q]
    by (auto simp: task_send_def split: if_splits task_phase.splits)
qed (use assms(3) in \<open>auto simp: ended_tasks write_one_fields drain_timeout_fields writer_close_def Let_def
      reader_send_def sink_send_notify_def intro!: tasks_all_same [OF _ assms(2)]
      split: if_splits reader_phase.splits writer_phase.splits\<close>)

lemma conn_exec_balanced:
  assumes "router_keeps_ids (cf_router cfg)" and "tasks_keep_ids s" and "conn_exec env cfg e s = Some t"
  shows "balanced (mset (asked env e s)) (mset (answered e s)) s t"
proof (cases e)
  case E_Read
  with assms(3) have "cn_phase s = R_Next" "t = reader_turn env cfg s" by (auto split: reader_phase.splits)
  with E_Read reader_turn_balanced [OF assms(1)] show ?thesis by auto
next
  case E_ReaderSend
  then show ?thesis
    using assms(3) by (auto simp: reader_send_def balanced_ended split: reader_phase.splits if_splits)
      (simp add: balanced_def owed_def)
next
  case (E_TaskRun i)
  with assms show ?thesis by (auto simp: task_run_balanced split: if_splits)
next
  case (E_TaskSend i)
  with assms(3) obtain m where m: "i < length (cn_tasks s)" "tk_phase (cn_tasks s ! i) = T_Send m"
    "task_send cfg i m s = Some t" by (auto split: if_splits task_phase.splits)
  from task_send_balanced [OF m] E_TaskSend show ?thesis by simp
next
  case E_CancelSeen
  with assms(3) show ?thesis by (auto simp: balanced_ended split: if_splits reader_phase.splits)
next
  case E_Abort
  with assms(3) show ?thesis by (auto simp: balanced_ended split: writer_phase.splits)
qed (use assms(3) in \<open>auto simp: write_one_fields drain_timeout_fields writer_close_def Let_def
      sink_send_notify_def intro!: balanced_same split: if_splits reader_phase.splits writer_phase.splits\<close>)

lemma conn_trace_balanced:
  assumes "router_keeps_ids (cf_router cfg)"
  shows "tasks_keep_ids s \<Longrightarrow> conn_trace env cfg es s = Some (qs, as, t) \<Longrightarrow> balanced (mset qs) (mset as) s t"
proof (induction es arbitrary: s qs as)
  case Nil
  then show ?case by (simp add: balanced_def)
next
  case (Cons e es)
  from Cons.prems(2) obtain u qs' as' where e: "conn_exec env cfg e s = Some u"
    and rest: "conn_trace env cfg es u = Some (qs', as', t)"
    and q: "qs = asked env e s @ qs'" "as = answered e s @ as'"
    by (auto split: option.splits)
  note b = conn_exec_balanced [OF assms Cons.prems(1) e] and k = conn_exec_tasks [OF assms Cons.prems(1) e]
  note c = Cons.IH [OF k rest]
  have "mset as + owed t \<subseteq># mset qs + owed s"
  proof -
    have "mset as + owed t = mset (answered e s) + (mset as' + owed t)" by (simp add: q)
    also have "\<dots> \<subseteq># mset (answered e s) + (mset qs' + owed u)"
      using c by (simp add: balanced_def)
    also have "\<dots> = mset qs' + (mset (answered e s) + owed u)" by simp
    also have "\<dots> \<subseteq># mset qs' + (mset (asked env e s) + owed s)"
      using b by (simp only: balanced_def subset_mset.add_le_cancel_left)
    finally show ?thesis by (simp add: q ac_simps)
  qed
  moreover have "mset as + owed t = mset qs + owed s" if "reading t" "cn_rx_open t"
  proof -
    have "reading u" "cn_rx_open u" "mset as' + owed t = mset qs' + owed u"
      using c that by (auto simp: balanced_def)
    moreover from this have "mset (answered e s) + owed u = mset (asked env e s) + owed s"
      using b by (auto simp: balanced_def)
    ultimately have "mset (answered e s) + (mset as' + owed t) = mset qs' + (mset (asked env e s) + owed s)"
      by (metis add.left_commute)
    then show ?thesis by (simp add: q ac_simps)
  qed
  ultimately show ?case using b c by (auto simp: balanced_def)
qed


definition list_env :: "(unit, WsMessage list, WsMessage list, unit) ws_env" where
  "list_env =
     \<lparr>en_usize_max = 65535, en_show = (\<lambda>_. []), en_eprintln = (\<lambda>_ w. w), en_capacity = (\<lambda>_. 0),
      en_panics = (\<lambda>_ _ _. None),
      en_next = (\<lambda>r. case r of [] \<Rightarrow> (None, []) | f # fs \<Rightarrow> (Some (Inr f), fs)),
      en_send = (\<lambda>f out. (Inr (), out @ [f])), en_close = (\<lambda>out. (Inr (), out)), en_cancel = (\<lambda>_ w. w)\<rparr>"

definition echo_handler :: "(unit, unit) Handler" where
  "echo_handler = plain_handler (\<lambda>req w. (Inr (create_error_response_like req EC_Ok ''ok''), w))"

definition echo_config :: "(unit, unit) ConnectionConfig" where
  "echo_config = into_shared (with_offreader_limit 2 (ws_server_new (\<lambda>w. (0, w))
     (with_erased_handler ''/x'' echo_handler router_new)))"

definition echo_request :: "u64 \<Rightarrow> Message" where
  "echo_request n = build (with_id n (with_query_str ''/x'' (with_query_format QF_JsonPointer builder)))"

definition echo_open :: "WsMessage list \<Rightarrow> (unit, WsMessage list, WsMessage list, unit) WsConn" where
  "echo_open frames = open_connection list_env echo_config 0 0 False None frames [] ()"

lemma echo_get: "router_get (cf_router echo_config) path = (if path = ''/x'' then Some echo_handler else None)"
  by (simp add: router_get_def echo_config_def into_shared_def with_offreader_limit_def ws_server_new_def
      with_erased_handler_def insert_route_def router_new_def wrap_with_middlewares_def)

lemma echo_keeps_ids: "router_keeps_ids (cf_router echo_config)"
  by (simp add: router_all_def echo_get keeps_id_def echo_handler_def plain_handler_def to_message_def)

lemma echo_request_wf: "wf_message 65535 (echo_request n)"
  unfolding echo_request_def by (rule build_wf) (simp_all add: builder_defs as_bytes_def HEADER_SIZE_def)

lemma echo_view:
  "view_from_slice_exact 65535 (message_to_vec (echo_request n))
     = (Inr (message_view (echo_request n)) :: unit RepeError + MessageView)"
  by (rule view_of_frame(2) [OF echo_request_wf])

lemma echo_fields:
  "v_header (message_view (echo_request n)) = m_header (echo_request n)"
  "v_query (message_view (echo_request n)) = as_bytes ''/x''"
  "h_id (m_header (echo_request n)) = n" "h_notify (m_header (echo_request n)) = 0"
  "to_message (message_view (echo_request n)) = echo_request n"
  by (simp_all add: message_view_def to_message_def echo_request_def build_def builder_defs Let_def)

lemma echo_route: "route (cf_router echo_config) (m_header (echo_request n)) (as_bytes ''/x'')
    = RO_Dispatch echo_handler False ''/x''"
proof -
  have "from_utf8 (as_bytes ''/x'') = Inr ''/x''" by code_simp
  moreover have "h_version (m_header (echo_request n)) = REPE_VERSION"
    "h_query_format (m_header (echo_request n)) = query_format_u16 QF_JsonPointer"
    by (simp_all add: echo_request_def build_def builder_defs Let_def)
  ultimately show ?thesis by (simp add: route_def Let_def echo_fields query_format_cases echo_get)
qed

lemma echo_read:
  assumes "cn_phase s = R_Next" and "cn_reader s = WS_Binary (message_to_vec (echo_request n)) # fs"
  shows "conn_exec list_env echo_config E_Read s
    = Some (s\<lparr>cn_reader := fs, cn_world := cn_world s, cn_phase := R_Send (stamp_response_query
        (create_error_response_like (echo_request n) EC_Ok ''ok'') (as_bytes ''/x''))\<rparr>)"
    and "asked list_env E_Read s = [n]"
  using assms
  by (simp_all add: reader_turn_def list_env_def decode_request_payload_def echo_view reader_dispatch_def echo_fields
      echo_route dispatch_view_def incoming_request_def)
    (simp_all add: echo_handler_def plain_handler_def dispatch_view_def echo_fields Let_def)


theorem connection_bounds_witness:
  "\<exists>t. steps (conn_step list_env echo_config)
      (echo_open [WS_Binary (message_to_vec (echo_request 9))]) [E_Read, E_ReaderSend, E_Cancel, E_CancelSeen] t
    \<and> length (cn_queue t) = 1 \<and> length (cn_queue t) \<le> cf_outbound_capacity echo_config \<and> \<not> reading t \<and> cn_cancelled t"
proof -
  let ?s = "echo_open [WS_Binary (message_to_vec (echo_request 9))]"
  have s: "cn_phase ?s = R_Next" "cn_reader ?s = [WS_Binary (message_to_vec (echo_request 9))]"
    "cn_queue ?s = []" "cn_rx_open ?s"
    by (simp_all add: echo_open_def open_connection_def Let_def split: prod.split)
  have room: "queue_room echo_config t \<longleftrightarrow> length (cn_queue t) < 256"
    for t :: "(unit, WsMessage list, WsMessage list, unit) WsConn"
    by (simp add: queue_room_def echo_config_def into_shared_def with_offreader_limit_def ws_server_new_def
        DEFAULT_OUTBOUND_CAPACITY_def)
  have "\<exists>t. steps (conn_step list_env echo_config) ?s [E_Read, E_ReaderSend, E_Cancel, E_CancelSeen] t
      \<and> length (cn_queue t) = 1 \<and> \<not> reading t"
    using s by (simp add: steps_Cons_iff conn_step_def echo_read reader_send_def room conn_op_defs del: conn_exec.simps(1))
  then obtain t where t: "steps (conn_step list_env echo_config) ?s [E_Read, E_ReaderSend, E_Cancel, E_CancelSeen] t"
    "length (cn_queue t) = 1" "\<not> reading t" by blast
  have "conn_start list_env echo_config ?s" unfolding conn_start_def echo_open_def by blast
  then have "reachable (conn_start list_env echo_config) (conn_step list_env echo_config) t"
    by (rule reachable_steps [OF reachable_start t(1)])
  from connection_bounds [OF this] t show ?thesis by auto
qed

section \<open>The end of a connection\<close>

text \<open>Steps of the reader's select and of the writer, with neither a frame of the peer nor a handler.\<close>

definition closing ::
    "('w, 'r, 'o, 's) ws_env \<Rightarrow> ('w, 's) ConnectionConfig \<Rightarrow> ('w, 'r, 'o, 's) WsConn \<Rightarrow> conn_event list
      \<Rightarrow> ('w, 'r, 'o, 's) WsConn \<Rightarrow> bool" where
  "closing env cfg s es t \<longleftrightarrow>
     steps (conn_step env cfg) s es t \<and> set es \<subseteq> {E_CancelSeen, E_Write, E_Shutdown, E_Drained, E_WriterClose}"

lemma closing_Nil: "closing env cfg s [] s"
  by (simp add: closing_def)

lemma closing_Cons:
  "conn_step env cfg s e t \<Longrightarrow> e \<in> {E_CancelSeen, E_Write, E_Shutdown, E_Drained, E_WriterClose}
   \<Longrightarrow> closing env cfg t es u \<Longrightarrow> closing env cfg s (e # es) u"
  by (auto simp: closing_def intro: steps_Cons)

lemma closing_append: "closing env cfg s es t \<Longrightarrow> closing env cfg t fs u \<Longrightarrow> closing env cfg s (es @ fs) u"
  by (auto simp: closing_def intro: steps_append)

lemma closing_events:
  "E_Write \<in> {E_CancelSeen, E_Write, E_Shutdown, E_Drained, E_WriterClose}"
  "E_CancelSeen \<in> {E_CancelSeen, E_Write, E_Shutdown, E_Drained, E_WriterClose}"
  "E_Shutdown \<in> {E_CancelSeen, E_Write, E_Shutdown, E_Drained, E_WriterClose}"
  "E_Drained \<in> {E_CancelSeen, E_Write, E_Shutdown, E_Drained, E_WriterClose}"
  "E_WriterClose \<in> {E_CancelSeen, E_Write, E_Shutdown, E_Drained, E_WriterClose}"
  by simp_all

lemma write_all_queued:
  assumes "cn_writer s = p" and "p = W_Loop \<or> p = W_Drain"
  shows "\<exists>es t. closing env cfg s es t \<and> cn_phase t = cn_phase s \<and> cn_shutdown t = cn_shutdown s
    \<and> (cn_writer t = p \<and> cn_queue t = [] \<or> (\<exists>err. cn_writer t = W_Close (Inl err)))"
  using assms(1)
proof (induction "length (cn_queue s)" arbitrary: s rule: less_induct)
  case less
  show ?case
  proof (cases "cn_queue s")
    case Nil
    moreover have "closing env cfg s [] s" by (simp add: closing_def)
    ultimately show ?thesis using less.prems by blast
  next
    case (Cons m q)
    let ?u = "write_one env cfg p s"
    have step: "conn_step env cfg s E_Write ?u" using Cons less.prems assms(2) by (auto simp: conn_step_def)
    have u: "cn_phase ?u = cn_phase s" "cn_shutdown ?u = cn_shutdown s"
      "cn_writer ?u = p \<and> cn_queue ?u = q \<or> (\<exists>err. cn_writer ?u = W_Close (Inl err))"
      using Cons by (simp_all add: write_one_def split: prod.split option.split sum.split)
    show ?thesis
    proof (cases "cn_writer ?u = p")
      case True
      with u Cons assms(2) have "length (cn_queue ?u) < length (cn_queue s)" by auto
      from less.hyps [OF this True] u(1,2) step show ?thesis by (metis closing_Cons closing_events(1))
    next
      case False
      have "closing env cfg s [E_Write] ?u" using step by (simp add: closing_def steps_Cons_iff)
      with False u show ?thesis by blast
    qed
  qed
qed

lemma drain_ends:
  assumes "cn_phase s = R_Done r" and "cn_writer s = W_Drain \<and> cn_queue s = [] \<or> (\<exists>r'. cn_writer s = W_Close r')"
  shows "\<exists>es t. closing env cfg s es t \<and> connection_result t \<noteq> None"
proof -
  have close: "\<exists>t. conn_step env cfg u E_WriterClose t \<and> connection_result t \<noteq> None"
    if "cn_writer u = W_Close r'" "cn_phase u = R_Done r" for u r'
    using that by (simp add: conn_step_def writer_close_def connection_result_def Let_def)
  show ?thesis
  proof (cases "cn_writer s = W_Drain")
    case True
    let ?t = "s\<lparr>cn_writer := W_Close (Inr ())\<rparr>"
    have "conn_step env cfg s E_Drained ?t" using True assms(2) by (auto simp: conn_step_def)
    moreover obtain u where "conn_step env cfg ?t E_WriterClose u" "connection_result u \<noteq> None"
      using close [of ?t] assms(1) by auto
    ultimately show ?thesis by (meson closing_Nil closing_Cons closing_events)
  next
    case False
    with assms close [of s] show ?thesis by (meson closing_Nil closing_Cons closing_events)
  qed
qed

lemma writer_ends:
  assumes "cn_phase s = R_Done r" and "cn_shutdown s" and "\<not> writer_over (cn_writer s)"
  shows "\<exists>es t. closing env cfg s es t \<and> connection_result t \<noteq> None"
proof (cases "cn_writer s = W_Loop \<or> cn_writer s = W_Drain")
  case True
  from write_all_queued [OF refl True, of env cfg] assms(1,2) obtain es t where
    t: "closing env cfg s es t" "cn_phase t = R_Done r" "cn_shutdown t"
      "cn_writer t = cn_writer s \<and> cn_queue t = [] \<or> (\<exists>err. cn_writer t = W_Close (Inl err))" by auto
  show ?thesis
  proof (cases "cn_writer t = W_Loop")
    case True
    let ?u = "t\<lparr>cn_writer := W_Drain\<rparr>"
    have "conn_step env cfg t E_Shutdown ?u" using True t(3,4) by (auto simp: conn_step_def)
    moreover obtain es' v where "closing env cfg ?u es' v" "connection_result v \<noteq> None"
      using drain_ends [of ?u r env cfg] True t(2,4) by auto
    ultimately show ?thesis using t(1) by (meson closing_Nil closing_Cons closing_events closing_append)
  next
    case False
    with True t(4) have "cn_writer t = W_Drain \<and> cn_queue t = [] \<or> (\<exists>r'. cn_writer t = W_Close r')" by auto
    from drain_ends [OF t(2) this, of env cfg] t(1) show ?thesis by (meson closing_append)
  qed
next
  case False
  with assms(3) have "\<exists>r'. cn_writer s = W_Close r'" by (cases "cn_writer s") auto
  with drain_ends [OF assms(1)] show ?thesis by blast
qed

text \<open>
  A connection that is told to end does: once its token is cancelled, by the server's shutdown or
  by the reader's own end, and unless its task has been dropped or it has already
  returned, there are steps of the reader and the writer alone, without the peer and without the
  handlers still running, after which it has returned.
\<close>

theorem cancelled_connection_ends:
  assumes "reachable (conn_start env cfg) (conn_step env cfg) s" and "cn_cancelled s"
    and "\<not> writer_over (cn_writer s)"
  shows "\<exists>es t. closing env cfg s es t \<and> connection_result t \<noteq> None"
proof -
  from ws_conn.invar_reachable [OF assms(1)] have ok: "conn_ok cfg s" .
  show ?thesis
  proof (cases "reading s")
    case True
    let ?t = "reader_done env cfg (Inr ()) s"
    have "conn_step env cfg s E_CancelSeen ?t"
      using True assms(2) by (cases "cn_phase s") (simp_all add: conn_step_def)
    moreover have "cn_phase ?t = R_Done (Inr ())" "cn_shutdown ?t" "\<not> writer_over (cn_writer ?t)"
      using assms(3) by (simp_all add: conn_op_defs)
    ultimately show ?thesis using writer_ends [of ?t "Inr ()" env cfg] by (meson closing_Cons closing_events)
  next
    case False
    with ok assms(3) obtain r where "cn_phase s = R_Done r" "cn_shutdown s"
      by (cases "cn_phase s") (auto simp: conn_ok_def)
    with writer_ends assms(3) show ?thesis by blast
  qed
qed

theorem cancelled_connection_ends_witness:
  "\<exists>es t. closing list_env echo_config (open_connection list_env echo_config 0 0 True None [] [] ()) es t
    \<and> connection_result t \<noteq> None"
proof -
  let ?s = "open_connection list_env echo_config 0 0 True None [] [] ()"
  have "reachable (conn_start list_env echo_config) (conn_step list_env echo_config) ?s"
    by (rule reachable_start) (unfold conn_start_def, blast)
  moreover have "cn_cancelled ?s" "\<not> writer_over (cn_writer ?s)"
    by (simp_all add: open_connection_def Let_def split: prod.split)
  ultimately show ?thesis by (rule cancelled_connection_ends)
qed

section \<open>The order of the wire\<close>

definition wire_frame :: "WebSocketLimits \<Rightarrow> Message \<Rightarrow> bytes option" where
  "wire_frame limits m =
     (case assumed_peer_frame_limit limits of
        Some limit \<Rightarrow>
          if serialized_len m \<le> limit then Some (message_to_vec m)
          else if h_notify (m_header m) \<noteq> 0 then None
          else Some (message_to_vec (outbound_replacement m (serialized_len m) limit))
      | None \<Rightarrow> Some (message_to_vec m))"

lemma frame_outbound_wire: "fst (frame_outbound capacity rep limits m w) = wire_frame limits m"
proof (cases "within (serialized_len m) (assumed_peer_frame_limit limits)")
  case True
  then show ?thesis by (auto simp: frame_outbound_fits wire_frame_def within_def split: option.splits)
next
  case False
  then obtain limit where "assumed_peer_frame_limit limits = Some limit" "limit < serialized_len m"
    by (auto simp: within_def split: option.splits)
  then show ?thesis by (simp add: frame_outbound_too_large wire_frame_def)
qed

definition frames_of :: "WebSocketLimits \<Rightarrow> Message list \<Rightarrow> bytes list" where
  "frames_of limits ms = List.map_filter (wire_frame limits) ms"

definition binaries :: "WsMessage list \<Rightarrow> bytes list" where
  "binaries fs = List.map_filter (\<lambda>f. case f of WS_Binary bs \<Rightarrow> Some bs | _ \<Rightarrow> None) fs"

lemma frames_of_simps [simp]:
  "frames_of l [] = []" "frames_of l (xs @ ys) = frames_of l xs @ frames_of l ys"
  "frames_of l (m # ms) = (case wire_frame l m of None \<Rightarrow> [] | Some bs \<Rightarrow> [bs]) @ frames_of l ms"
  by (simp_all add: frames_of_def List.map_filter_def split: option.split)

lemma binaries_simps [simp]:
  "binaries [] = []" "binaries (xs @ ys) = binaries xs @ binaries ys"
  "binaries [WS_Binary bs] = [bs]" "binaries [WS_Close] = []"
  by (simp_all add: binaries_def List.map_filter_def)

text \<open>The messages a step puts into the queue, and those of a run, in order.\<close>

fun queued :: "('w, 's) ConnectionConfig \<Rightarrow> conn_event \<Rightarrow> ('w, 'r, 'o, 's) WsConn \<Rightarrow> Message list" where
  "queued cfg E_ReaderSend s =
     (case cn_phase s of R_Send m \<Rightarrow> if cn_rx_open s then [m] else [] | _ \<Rightarrow> [])"
| "queued cfg (E_TaskSend i) s =
     (case tk_phase (cn_tasks s ! i) of T_Send m \<Rightarrow> if cn_rx_open s then [m] else [] | _ \<Rightarrow> [])"
| "queued cfg (E_Push path body) s =
     (if fst (sink_send_notify cfg path body s) = Inr () then [sink_message path body] else [])"
| "queued cfg _ s = []"

fun conn_run ::
    "('w, 'r, 'o, 's) ws_env \<Rightarrow> ('w, 's) ConnectionConfig \<Rightarrow> conn_event list \<Rightarrow> ('w, 'r, 'o, 's) WsConn
      \<Rightarrow> (Message list \<times> ('w, 'r, 'o, 's) WsConn) option" where
  "conn_run env cfg [] s = Some ([], s)"
| "conn_run env cfg (e # es) s =
     (case conn_exec env cfg e s of
        None \<Rightarrow> None
      | Some t \<Rightarrow> map_option (\<lambda>(ms, u). (queued cfg e s @ ms, u)) (conn_run env cfg es t))"

text \<open>A sink that accepts every frame.\<close>

definition accepting :: "('w, 'r, WsMessage list, 's) ws_env \<Rightarrow> bool" where
  "accepting env \<longleftrightarrow> (\<forall>f out. en_send env f out = (Inr (), out @ [f])) \<and> (\<forall>out. en_close env out = (Inr (), out))"

fun writing :: "'s writer_phase \<Rightarrow> bool" where
  "writing W_Loop = True"
| "writing W_Drain = True"
| "writing _ = False"

text \<open>What a step does to the frames sent and to be sent, \<open>ms\<close> being what it queues.\<close>

definition in_order ::
    "WebSocketLimits \<Rightarrow> Message list \<Rightarrow> ('w, 'r, WsMessage list, 's) WsConn \<Rightarrow> ('w, 'r, WsMessage list, 's) WsConn
      \<Rightarrow> bool" where
  "in_order limits ms s t \<longleftrightarrow>
     (if writing (cn_writer t)
      then writing (cn_writer s)
        \<and> binaries (cn_out t) @ frames_of limits (cn_queue t)
          = binaries (cn_out s) @ frames_of limits (cn_queue s) @ frames_of limits ms
      else binaries (cn_out t) = binaries (cn_out s))"

lemma in_order_same:
  "cn_out t = cn_out s \<Longrightarrow> cn_queue t = cn_queue s @ ms \<Longrightarrow> cn_writer t = cn_writer s \<Longrightarrow> in_order limits ms s t"
  by (simp add: in_order_def)

lemma write_one_order:
  assumes "accepting env" and "cn_queue s \<noteq> []" and "writing (cn_writer s)" and "writing p"
  shows "in_order (cf_limits cfg) [] s (write_one env cfg p s)"
proof -
  obtain m q where q: "cn_queue s = m # q" using assms(2) by (cases "cn_queue s") auto
  obtain f w where f: "frame_outbound (en_capacity env) (report env cfg) (cf_limits cfg) m (cn_world s) = (f, w)"
    by fastforce
  then have "wire_frame (cf_limits cfg) m = f" by (metis frame_outbound_wire fst_conv)
  with assms q f show ?thesis
    by (cases f) (simp_all add: write_one_def in_order_def accepting_def)
qed

lemma ended_queue:
  "cn_queue (reader_done env cfg r s) = cn_queue s" "cn_out (reader_done env cfg r s) = cn_out s"
  "cn_writer (reader_done env cfg r s) = cn_writer s"
  "cn_out (connection_dropped env cfg s) = cn_out s" "cn_writer (connection_dropped env cfg s) = W_Aborted"
  by (simp_all add: conn_op_defs split: reader_phase.split)

lemma dropped_order: "in_order limits [] s (connection_dropped env cfg s)"
  by (simp add: in_order_def ended_queue)

lemma reader_turn_order: "in_order limits [] s (reader_turn env cfg s)"
proof -
  have drop: "in_order limits [] s (connection_dropped env cfg (s\<lparr>cn_reader := r, cn_world := w\<rparr>))" for r w
    by (simp add: in_order_def ended_queue)
  show ?thesis
    by (auto simp: reader_turn_def reader_dispatch_def spawn_off_reader_def Let_def ended_queue drop
        intro!: in_order_same split: prod.split option.split sum.split FramePayload.split RouteOutcome.split Execution.split)
qed

lemma task_order_fields:
  "cn_queue (end_task i s) = cn_queue s" "cn_out (end_task i s) = cn_out s" "cn_writer (end_task i s) = cn_writer s"
  "cn_queue (set_task i p s) = cn_queue s" "cn_out (set_task i p s) = cn_out s" "cn_writer (set_task i p s) = cn_writer s"
  by (simp_all add: end_task_def set_task_def)

lemma task_run_order: "in_order limits [] s (task_run env cfg i s)"
  by (auto simp: task_run_def Let_def task_order_fields intro!: in_order_same split: prod.split option.split)

lemma conn_exec_order:
  assumes "accepting env" and "conn_exec env cfg e s = Some t"
  shows "in_order (cf_limits cfg) (queued cfg e s) s t"
proof (cases e)
  case E_Read
  with assms show ?thesis by (auto simp: reader_turn_order split: reader_phase.splits)
next
  case E_ReaderSend
  with assms(2) show ?thesis
    by (auto simp: reader_send_def ended_queue intro!: in_order_same split: reader_phase.splits if_splits)
next
  case (E_TaskRun i)
  with assms(2) show ?thesis by (auto simp: task_run_order split: if_splits)
next
  case (E_TaskSend i)
  with assms(2) show ?thesis
    by (auto simp: task_send_def task_order_fields intro!: in_order_same split: task_phase.splits if_splits)
next
  case E_Write
  with assms show ?thesis by (auto simp: write_one_order split: writer_phase.splits if_splits)
next
  case (E_Push path body)
  with assms(2) show ?thesis by (auto simp: sink_send_notify_def intro!: in_order_same split: if_splits)
next
  case E_Abort
  with assms(2) show ?thesis by (auto simp: dropped_order split: writer_phase.splits)
next
  case E_CancelSeen
  with assms(2) show ?thesis by (auto simp: ended_queue intro!: in_order_same split: reader_phase.splits if_splits)
next
  case E_WriterClose
  with assms show ?thesis by (auto simp: in_order_def writer_close_def accepting_def split: writer_phase.splits)
qed (use assms(2) in \<open>auto simp: in_order_def drain_timeout_def split: if_splits prod.splits\<close>)

lemma conn_run_order:
  assumes "accepting env"
  shows "conn_run env cfg es s = Some (ms, t) \<Longrightarrow>
    (if writing (cn_writer t)
     then writing (cn_writer s) \<and> binaries (cn_out t) @ frames_of (cf_limits cfg) (cn_queue t)
       = binaries (cn_out s) @ frames_of (cf_limits cfg) (cn_queue s @ ms)
     else \<exists>rest. binaries (cn_out t) @ rest = (if writing (cn_writer s)
       then binaries (cn_out s) @ frames_of (cf_limits cfg) (cn_queue s @ ms) else binaries (cn_out s)))"
proof (induction es arbitrary: s ms)
  case Nil
  then show ?case by auto
next
  case (Cons e es)
  then obtain u ms' where e: "conn_exec env cfg e s = Some u" and rest: "conn_run env cfg es u = Some (ms', t)"
    and ms: "ms = queued cfg e s @ ms'" by (auto split: option.splits)
  note o = conn_exec_order [OF assms e] and ih = Cons.IH [OF rest]
  show ?case
  proof (cases "writing (cn_writer u)")
    case True
    with o have w: "writing (cn_writer s)"
      and "binaries (cn_out u) @ frames_of (cf_limits cfg) (cn_queue u)
        = binaries (cn_out s) @ frames_of (cf_limits cfg) (cn_queue s @ queued cfg e s)"
      by (simp_all add: in_order_def)
    then have "binaries (cn_out u) @ frames_of (cf_limits cfg) (cn_queue u @ ms')
        = binaries (cn_out s) @ frames_of (cf_limits cfg) (cn_queue s @ ms)"
      by (simp add: ms)
    with ih True w show ?thesis by (simp only: if_True)
  next
    case False
    with o have out: "binaries (cn_out u) = binaries (cn_out s)" by (simp add: in_order_def)
    with ih False obtain rest where "\<not> writing (cn_writer t)" "binaries (cn_out t) @ rest = binaries (cn_out s)"
      by (auto split: if_splits)
    then show ?thesis by (auto intro: exI [of _ "rest @ frames_of (cf_limits cfg) (cn_queue s @ ms)"])
  qed
qed



section \<open>The connection in the peer registry\<close>

text \<open>Everything but the connect and disconnect hooks leaves what \<open>obs\<close> sees of the program's state.\<close>

definition leaves :: "('w \<Rightarrow> 'b) \<Rightarrow> ('w, 'r, 'o, 's) ws_env \<Rightarrow> ('w, 's) ConnectionConfig \<Rightarrow> bool" where
  "leaves obs env cfg \<longleftrightarrow>
     (\<forall>path h view ctx w. router_get (cf_router cfg) path = Some h \<longrightarrow> obs (snd (hd_handle_view h view ctx w)) = obs w)
     \<and> (\<forall>path h req ctx w. router_get (cf_router cfg) path = Some h \<longrightarrow> obs (snd (hd_handle_with_ctx h req ctx w)) = obs w)
     \<and> (\<forall>h m w w'. en_panics env h m w = Some w' \<longrightarrow> obs w' = obs w)
     \<and> (\<forall>sig w. obs (en_cancel env sig w) = obs w)
     \<and> (\<forall>text w. obs (en_eprintln env text w) = obs w)
     \<and> (\<forall>hook\<in>set (cf_on_error cfg). \<forall>err w. obs (hook err w) = obs w)"

lemma fold_leaves: "(\<And>f w. f \<in> set fs \<Longrightarrow> obs (g f w) = obs w) \<Longrightarrow> obs (fold g fs w) = obs w"
  by (induction fs arbitrary: w) simp_all

lemma report_leaves:
  assumes "leaves obs env cfg"
  shows "obs (report env cfg err w) = obs w"
proof -
  have "obs (fold (\<lambda>hook. hook err) (cf_on_error cfg) w) = obs w"
    using assms by (intro fold_leaves) (simp add: leaves_def)
  then show ?thesis
    using assms by (auto simp: report_def report_error_def leaves_def split: ConnectionError.split)
qed

lemma dispatch_leaves:
  assumes "leaves obs env cfg" and "router_get (cf_router cfg) path = Some h"
  shows "obs (snd (dispatch_view show_err h view ctx notify w)) = obs w"
    and "obs (snd (dispatch show_err h req ctx notify w)) = obs w"
proof -
  have "obs (snd (hd_handle_view h view ctx w)) = obs w" "obs (snd (hd_handle_with_ctx h req ctx w)) = obs w"
    using assms by (auto simp: leaves_def)
  then show "obs (snd (dispatch_view show_err h view ctx notify w)) = obs w"
    "obs (snd (dispatch show_err h req ctx notify w)) = obs w"
    by (auto simp: dispatch_view_def dispatch_def split: prod.split)
qed

abbreviation tasks_routed :: "('w, 's) ConnectionConfig \<Rightarrow> ('w, 'r, 'o, 's) WsConn \<Rightarrow> bool" where
  "tasks_routed cfg s \<equiv> tasks_all (\<lambda>h. \<exists>path. router_get (cf_router cfg) path = Some h) s"

text \<open>A step either leaves the entry, or ends the reading and takes the entry out.\<close>

definition tracks :: "('w \<Rightarrow> 'b option) \<Rightarrow> ('w, 'r, 'o, 's) WsConn \<Rightarrow> ('w, 'r, 'o, 's) WsConn \<Rightarrow> bool" where
  "tracks obs s t \<longleftrightarrow>
     cn_peer t = cn_peer s
     \<and> (if reading t then reading s \<and> obs (cn_world t) = obs (cn_world s)
        else obs (cn_world t) = (if reading s then None else obs (cn_world s)))"

definition tracked ::
    "('w \<Rightarrow> 'b option) \<Rightarrow> ('w, 'r, 'o, 's) ws_env \<Rightarrow> ('w, 's) ConnectionConfig \<Rightarrow> PeerId \<Rightarrow> bool" where
  "tracked obs env cfg pid \<longleftrightarrow>
     leaves obs env cfg \<and> (\<forall>w. obs (fold (\<lambda>hook. hook pid) (cf_on_disconnect cfg) w) = None)"

lemma trackedD:
  assumes "tracked obs env cfg pid"
  shows "leaves obs env cfg" and "obs (fold (\<lambda>hook. hook pid) (cf_on_disconnect cfg) w) = None"
  using assms by (simp_all add: tracked_def)


lemma guard_obs:
  "tracked obs env cfg pid \<Longrightarrow> ph_peer_id (cn_peer s) = pid \<Longrightarrow> obs (cn_world (disconnect_guard_drop env cfg s)) = None"
  by (simp add: disconnect_guard_drop_def Let_def trackedD(2))

lemma guard_fields:
  "cn_peer (disconnect_guard_drop env cfg s) = cn_peer s" "cn_tasks (disconnect_guard_drop env cfg s) = cn_tasks s"
  "cn_phase (disconnect_guard_drop env cfg s) = cn_phase s"
  by (simp_all add: disconnect_guard_drop_def Let_def)

lemma done_tracks:
  assumes tr: "tracked obs env cfg pid" and "ph_peer_id (cn_peer s) = pid" and "reading s"
  shows "tracks obs s (reader_done env cfg r s)"
  using assms guard_obs [OF tr, of s] by (simp add: tracks_def reader_done_def guard_fields)

lemma dropped_tracks:
  assumes tr: "tracked obs env cfg pid" and "ph_peer_id (cn_peer s) = pid"
  shows "tracks obs s (connection_dropped env cfg s)"
  using assms guard_obs [OF tr, of s]
  by (cases "cn_phase s") (simp_all add: tracks_def connection_dropped_def guard_fields)

lemma tracks_same:
  "cn_peer t = cn_peer s \<Longrightarrow> reading t = reading s \<Longrightarrow> obs (cn_world t) = obs (cn_world s) \<Longrightarrow> tracks obs s t"
  by (simp add: tracks_def)

lemma dispatch_tracks:
  assumes tr: "tracked obs env cfg pid" and "ph_peer_id (cn_peer s) = pid" and "cn_phase s = R_Next"
  shows "tracks obs s (reader_dispatch env cfg view s)"
proof (cases "route (cf_router cfg) (v_header view) (v_query view)")
  case (RO_Reject notify code msg)
  with assms(3) show ?thesis by (simp add: reader_dispatch_def tracks_def)
next
  case (RO_Dispatch handler notify path)
  from route_notify(2) [OF RO_Dispatch] have get: "router_get (cf_router cfg) path = Some handler" by simp
  show ?thesis
  proof (cases "hd_execution handler")
    case Inline
    show ?thesis
    proof (cases "en_panics env handler (to_message view) (cn_world s)")
      case None
      obtain r w where d: "dispatch_view (en_show env) handler view
          (call_context_with_cancel path (cn_peer s) (cn_signal s)) notify (cn_world s) = (r, w)" by fastforce
      then have "obs w = obs (cn_world s)" using dispatch_leaves(1) [OF trackedD(1) [OF tr] get] by (metis snd_conv)
      with None Inline RO_Dispatch d assms(3) show ?thesis
        by (cases r) (simp_all add: reader_dispatch_def tracks_def)
    next
      case (Some w)
      then have w: "obs w = obs (cn_world s)" using trackedD(1) [OF tr] by (auto simp: leaves_def)
      have "tracks obs (s\<lparr>cn_world := w\<rparr>) (connection_dropped env cfg (s\<lparr>cn_world := w\<rparr>))"
        using assms(2) by (intro dropped_tracks [OF tr]) simp
      with w Some Inline RO_Dispatch show ?thesis by (auto simp: reader_dispatch_def tracks_def split: if_splits)
    qed
  next
    case OffReader
    with RO_Dispatch assms(3) show ?thesis
      by (simp add: reader_dispatch_def spawn_off_reader_def tracks_def report_leaves [OF trackedD(1) [OF tr]] Let_def)
  qed
qed

lemma turn_tracks:
  assumes tr: "tracked obs env cfg pid" and "ph_peer_id (cn_peer s) = pid" and "cn_phase s = R_Next"
  shows "tracks obs s (reader_turn env cfg s)"
proof -
  have d: "tracks obs s (reader_done env cfg r (s\<lparr>cn_reader := x\<rparr>))" for r x
    using done_tracks [OF tr, of "s\<lparr>cn_reader := x\<rparr>" r] assms by (simp add: tracks_def)
  have "tracks obs s (reader_dispatch env cfg view (s\<lparr>cn_reader := x\<rparr>))" for view x
    using dispatch_tracks [OF tr, of "s\<lparr>cn_reader := x\<rparr>" view] assms by (simp add: tracks_def)
  with d show ?thesis
    by (auto simp: reader_turn_def Let_def tracks_same split: prod.splits option.splits sum.splits FramePayload.splits)
qed

lemma run_tracks:
  assumes tr: "tracked obs env cfg pid" and "tasks_routed cfg s" and "i < length (cn_tasks s)"
  shows "tracks obs s (task_run env cfg i s)"
proof -
  let ?t = "cn_tasks s ! i"
  obtain path where get: "router_get (cf_router cfg) path = Some (tk_handler ?t)"
    using assms(2,3) unfolding tasks_all_def by (meson nth_mem)
  have peer: "cn_peer (end_task i u) = cn_peer u" "cn_peer (set_task i p u) = cn_peer u"
    "cn_world (end_task i u) = cn_world u" "cn_world (set_task i p u) = cn_world u" for u p
    by (simp_all add: end_task_def set_task_def)
  obtain r w where d: "(case en_panics env (tk_handler ?t) (tk_request ?t) (cn_world s) of
      None \<Rightarrow> dispatch (en_show env) (tk_handler ?t) (tk_request ?t)
        (call_context_with_cancel (method_of (tk_request ?t)) (cn_peer s) (cn_signal s)) (tk_notify ?t) (cn_world s)
    | Some w \<Rightarrow> (if tk_notify ?t then None
        else Some (create_error_response_like (tk_request ?t) EC_InternalError ''handler panicked''),
        report env cfg (CE_HandlerPanic (method_of (tk_request ?t))) w)) = (r, w)" by fastforce
  have "obs w = obs (cn_world s)"
  proof (cases "en_panics env (tk_handler ?t) (tk_request ?t) (cn_world s)")
    case None
    with d dispatch_leaves(2) [OF trackedD(1) [OF tr] get] show ?thesis by (metis option.case(1) snd_conv)
  next
    case (Some w')
    then have "obs w' = obs (cn_world s)" using trackedD(1) [OF tr] by (auto simp: leaves_def)
    with Some d report_leaves [OF trackedD(1) [OF tr]] show ?thesis by auto
  qed
  with d show ?thesis
    by (cases r) (simp_all add: task_run_def Let_def tracks_same peer)
qed

lemma frame_leaves:
  assumes tr: "tracked obs env cfg pid" and "frame_outbound (en_capacity env) (report env cfg) limits m w = (f, w')"
  shows "obs w' = obs w"
proof -
  have "obs (snd (frame_outbound (en_capacity env) (report env cfg) limits m w)) = obs w"
    by (simp add: frame_outbound_def Let_def report_leaves [OF trackedD(1) [OF tr]] split: sum.split RepeError.split)
  with assms(2) show ?thesis by simp
qed

lemma exec_tracks:
  assumes tr: "tracked obs env cfg pid" and "ph_peer_id (cn_peer s) = pid" and "tasks_routed cfg s" and "conn_exec env cfg e s = Some t"
  shows "tracks obs s t"
proof (cases e)
  case E_Read
  with assms turn_tracks [OF tr] show ?thesis by (auto split: reader_phase.splits)
next
  case E_ReaderSend
  with assms done_tracks [OF tr] show ?thesis
    by (auto simp: reader_send_def tracks_def split: reader_phase.splits if_splits)
next
  case E_CancelSeen
  with assms done_tracks [OF tr] show ?thesis by (auto split: reader_phase.splits if_splits)
next
  case (E_TaskRun i)
  with assms run_tracks [OF tr] show ?thesis by (auto split: if_splits)
next
  case (E_TaskSend i)
  with assms(4) show ?thesis
    by (auto simp: task_send_def end_task_def set_task_def tracks_same split: task_phase.splits if_splits)
next
  case E_Write
  with frame_leaves [OF tr] E_Write assms(4) show ?thesis
    by (auto simp: write_one_def intro!: tracks_same
        split: writer_phase.splits if_splits list.splits prod.splits option.splits sum.splits)
next
  case E_DrainTimeout
  with frame_leaves [OF tr] E_DrainTimeout assms(4) show ?thesis
    by (auto simp: drain_timeout_def intro!: tracks_same split: if_splits prod.splits)
next
  case E_Abort
  with assms dropped_tracks [OF tr] show ?thesis by (auto split: writer_phase.splits)
next
  case E_Cancel
  with assms(4) trackedD(1) [OF tr] show ?thesis by (auto simp: leaves_def tracks_def)
qed (use assms(4) in \<open>auto simp: writer_close_def sink_send_notify_def Let_def tracks_same split: if_splits writer_phase.splits\<close>)

lemma steps_invariant:
  assumes "\<And>s e t. P s \<Longrightarrow> step s e t \<Longrightarrow> P t" and "steps step s es t" and "P s"
  shows "P t"
  using assms(2,3) by (induction rule: steps.induct) (auto intro: assms(1))


definition registry_server :: "(PeerRegistry, unit) WebSocketServer" where
  "registry_server = ws_server_new (\<lambda>w. (0, w)) router_new"

definition registry_config :: "(PeerRegistry, unit) ConnectionConfig" where
  "registry_config = into_shared (with_peer_registry (\<lambda>f. f) next_peer_id registry_server)"

definition registry_env :: "(PeerRegistry, WsMessage list, WsMessage list, unit) ws_env" where
  "registry_env =
     \<lparr>en_usize_max = 65535, en_show = (\<lambda>_. []), en_eprintln = (\<lambda>_ w. w), en_capacity = (\<lambda>_. 0),
      en_panics = (\<lambda>_ _ _. None),
      en_next = (\<lambda>r. case r of [] \<Rightarrow> (None, []) | f # fs \<Rightarrow> (Some (Inr f), fs)),
      en_send = (\<lambda>f out. (Inr (), out @ [f])), en_close = (\<lambda>out. (Inr (), out)), en_cancel = (\<lambda>_ w. w)\<rparr>"


section \<open>The accept loop's drain and the proxy\<close>

definition drain_start :: "drain_server \<Rightarrow> bool" where
  "drain_start d \<longleftrightarrow> d = \<lparr>ds_phase = SP_Accepting, ds_cancelled = False, ds_conns = []\<rparr>"

definition drain_step :: "drain_server \<Rightarrow> drain_event \<Rightarrow> drain_server \<Rightarrow> bool" where
  "drain_step d e d' \<longleftrightarrow> serve_with_graceful_drain e d = Some d'"

fun is_draining :: "serve_phase \<Rightarrow> bool" where
  "is_draining SP_Draining = True"
| "is_draining (SP_Returned (Inr _)) = True"
| "is_draining _ = False"

fun is_returned :: "serve_phase \<Rightarrow> bool" where
  "is_returned (SP_Returned _) = True"
| "is_returned _ = False"

definition drain_ok :: "drain_server \<Rightarrow> bool" where
  "drain_ok d \<longleftrightarrow>
     (ds_cancelled d \<longleftrightarrow> is_draining (ds_phase d))
     \<and> (is_returned (ds_phase d) \<longrightarrow> set (ds_conns d) \<subseteq> {CT_Joined, CT_Aborted})
     \<and> (\<not> is_returned (ds_phase d) \<longrightarrow> CT_Aborted \<notin> set (ds_conns d))"

lemma abort_running_set: "set (abort_running ts) \<subseteq> {CT_Joined, CT_Aborted}"
  by (auto simp: abort_running_def split: conn_task.splits)

lemma drain_step_ok:
  assumes "drain_ok d" and "serve_with_graceful_drain e d = Some d'"
  shows "drain_ok d'"
proof (cases e)
  case (DE_Finish i)
  with assms have "\<not> is_returned (ds_phase d)" by (auto simp: drain_ok_def split: if_splits dest: nth_mem)
  with DE_Finish assms show ?thesis
    using set_update_subset_insert [of "ds_conns d" i CT_Finished] by (auto simp: drain_ok_def split: if_splits)
next
  case (DE_Join i)
  with assms show ?thesis
    using set_update_subset_insert [of "ds_conns d" i CT_Joined] by (auto simp: drain_ok_def split: if_splits)
qed (use assms abort_running_set [of "ds_conns d"] in
    \<open>auto simp: drain_ok_def join_finished_def list_all_iff split: if_splits\<close>)

lemma drain_start_ok: "drain_start d \<Longrightarrow> drain_ok d"
  by (simp add: drain_start_def drain_ok_def)

interpretation drain: invariant_system drain_start drain_step drain_ok
  by unfold_locales (auto simp: drain_step_def intro: drain_step_ok drain_start_ok)

text \<open>
  When the server with a graceful drain returns, no connection task is left running: each was
  joined or aborted. After the shutdown every connection has been told to cancel and no new one is accepted,
  and none is aborted before the drain's deadline.
\<close>

theorem drain_leaves_nothing:
  assumes "reachable drain_start drain_step d"
  shows "(ds_phase d = SP_Returned r \<longrightarrow> set (ds_conns d) \<subseteq> {CT_Joined, CT_Aborted})
    \<and> (ds_phase d = SP_Draining \<longrightarrow> ds_cancelled d \<and> CT_Aborted \<notin> set (ds_conns d)
         \<and> serve_with_graceful_drain DE_Accept d = None
         \<and> (serve_with_graceful_drain DE_AllJoined d \<noteq> None \<or> serve_with_graceful_drain DE_Deadline d \<noteq> None))"
  using drain.invar_reachable [OF assms] by (auto simp: drain_ok_def)

theorem drain_leaves_nothing_witness:
  "\<exists>d. steps drain_step \<lparr>ds_phase = SP_Accepting, ds_cancelled = False, ds_conns = []\<rparr>
      [DE_Accept, DE_Accept, DE_Finish 0, DE_Shutdown, DE_Join 0, DE_Deadline] d
    \<and> ds_phase d = SP_Returned (Inr ()) \<and> ds_conns d = [CT_Joined, CT_Aborted]
    \<and> set (ds_conns d) \<subseteq> {CT_Joined, CT_Aborted}"
proof -
  let ?d0 = "\<lparr>ds_phase = SP_Accepting, ds_cancelled = False, ds_conns = []\<rparr>"
  let ?es = "[DE_Accept, DE_Accept, DE_Finish 0, DE_Shutdown, DE_Join 0, DE_Deadline]"
  have "\<exists>d. steps drain_step ?d0 ?es d \<and> ds_phase d = SP_Returned (Inr ()) \<and> ds_conns d = [CT_Joined, CT_Aborted]"
    by (simp add: steps_Cons_iff drain_step_def join_finished_def abort_running_def)
  then obtain d where d: "steps drain_step ?d0 ?es d" "ds_phase d = SP_Returned (Inr ())" "ds_conns d = [CT_Joined, CT_Aborted]"
    by blast
  have "reachable drain_start drain_step d"
    by (rule reachable_steps [OF reachable_start d(1)]) (simp add: drain_start_def)
  from drain_leaves_nothing [OF this, of "Inr ()"] d show ?thesis by blast
qed

text \<open>What the proxy's upstream answers to a list of requests, one after the other.\<close>

fun forward_all ::
    "(Message \<Rightarrow> 'w \<Rightarrow> ('s RepeError + Message option) \<times> 'w) \<Rightarrow> Message list \<Rightarrow> 'w \<Rightarrow> Message list option" where
  "forward_all forward [] w = Some []"
| "forward_all forward (m # ms) w =
     (case forward m w of
        (Inl _, _) \<Rightarrow> None
      | (Inr r, w) \<Rightarrow> map_option (\<lambda>rs. (case r of Some x \<Rightarrow> x # rs | None \<Rightarrow> rs)) (forward_all forward ms w))"

text \<open>
  The proxy relays: as long as the upstream answers, the requests are forwarded in order and their
  responses are sent in that order, none for a notify, and at the end of the stream the connection is
  closed and the proxy returns without an error. The state the upstream sees is not
  changed by reporting an oversized response.
\<close>

theorem proxy_relays:
  assumes "\<forall>m\<in>set ms. wf_message usize_max m" and "forward_all forward ms w = Some rs"
    and "\<And>text w. eprintln text w = w"
  shows "\<exists>out' w'. proxy_loop usize_max capacity eprintln show_err forward (\<lambda>f out. (Inr (), out @ [f])) (\<lambda>out. (Inr (), out))
      limits (map (\<lambda>m. Inr (WS_Binary (message_to_vec m))) ms) out w = (Inr () :: 's RepeError + unit, out', w')
    \<and> binaries out' = binaries out @ frames_of limits rs"
  using assms(1,2)
proof (induction ms arbitrary: out w rs)
  case Nil
  then show ?case by (simp add: proxy_finish_def)
next
  case (Cons m ms)
  have parse: "message_from_slice_exact usize_max (message_to_vec m) = (Inr m :: 's RepeError + Message)"
    using Cons.prems(1) by (simp add: message_from_slice_exact_Inr_iff)
  have quiet: "report_error eprintln show_err [] err w = w" for err w
    by (simp add: report_error_def assms(3) split: ConnectionError.split)
  obtain r w1 where fwd: "forward m w = (Inr r, w1)"
    using Cons.prems(2) by (auto split: prod.splits sum.splits)
  then obtain rs1 where rs: "forward_all forward ms w1 = Some rs1" "rs = (case r of Some x \<Rightarrow> x # rs1 | None \<Rightarrow> rs1)"
    using Cons.prems(2) by auto
  note ih = Cons.IH [OF _ rs(1)]
  show ?case
  proof (cases r)
    case None
    with ih [of out] Cons.prems(1) parse fwd rs(2) show ?thesis by (simp add: decode_request_payload_def)
  next
    case (Some x)
    obtain f w2 where f: "frame_outbound capacity (report_error eprintln show_err []) limits x w1 = (f, w2)" by fastforce
    have w2: "w2 = w1"
      using f by (auto simp: frame_outbound_def quiet Let_def split: sum.splits RepeError.splits if_splits)
    have "wire_frame limits x = f" using f by (metis frame_outbound_wire fst_conv)
    with ih [of "out @ [WS_Binary (the f)]"] ih [of out] Cons.prems(1) parse fwd rs(2) f w2 Some show ?thesis
      by (cases f) (simp_all add: decode_request_payload_def)
  qed
qed

theorem proxy_relays_witness:
  "\<exists>out' w'. proxy_loop 65535 (\<lambda>_. 0) (\<lambda>_ w. w) (\<lambda>_. []) (\<lambda>m w. (Inr (Some m), w))
      (\<lambda>f out. (Inr (), out @ [f])) (\<lambda>out. (Inr (), out)) limits_unlimited
      (map (\<lambda>m. Inr (WS_Binary (message_to_vec m))) [echo_request 1, echo_request 2]) [] ()
      = (Inr () :: unit RepeError + unit, out', w')
    \<and> binaries out' = [message_to_vec (echo_request 1), message_to_vec (echo_request 2)]"
proof -
  have wf: "\<forall>m\<in>set [echo_request 1, echo_request 2]. wf_message 65535 m" by (simp add: echo_request_wf)
  have "forward_all (\<lambda>m w. (Inr (Some m) :: unit RepeError + Message option, w)) [echo_request 1, echo_request 2] ()
      = Some [echo_request 1, echo_request 2]" by simp
  from proxy_relays [OF wf this, where limits = limits_unlimited and out = "[]" and capacity = "\<lambda>_. 0"
      and show_err = "\<lambda>_. []" and eprintln = "\<lambda>_ w. w"] show ?thesis
    by (simp add: wire_frame_def limits_unlimited_def)
qed

end
