(* ===== verification/Value_Stream.thy ===== *)
theory Value_Stream
  imports Router
begin

text \<open>
  The producing side of streamed values, the first half of \<^verbatim>\<open>src/value_stream.rs\<close>: the sink that
  cuts a body into chunks, the producer, a session and its table, and the three handlers. A
  body writer is the writes it makes one after the other, each seeing the outcome of the last, until it returns.
  What a session receives from its producer is the same whatever the two threads' timing, since
  the channel keeps the order and a receive waits; so a session holds the messages still
  to come, and the channel's depth only says how far ahead the producer runs. Cancelling drops
  the receiver: \<open>budget\<close> is the number of messages sent before that, if it happens. The encoder is
  \<^verbatim>\<open>zstandard\<close>'s and an argument, as are the BEVE codecs.
\<close>

section \<open>Options and messages\<close>

definition SVS_VERSION :: u8 where
  "SVS_VERSION = 1"

definition ROUTE_OPEN :: string where
  "ROUTE_OPEN = ''/_svs/open''"

definition ROUTE_NEXT :: string where
  "ROUTE_NEXT = ''/_svs/next''"

definition ROUTE_CANCEL :: string where
  "ROUTE_CANCEL = ''/_svs/cancel''"

datatype Compression = Comp_None | Comp_Zstd

definition compression_from_u8 :: "u8 \<Rightarrow> Compression option" where
  "compression_from_u8 v = (if v = 0 then Some Comp_None else if v = 1 then Some Comp_Zstd else None)"

fun compression_u8 :: "Compression \<Rightarrow> u8" where
  "compression_u8 Comp_None = 0"
| "compression_u8 Comp_Zstd = 1"

record StreamOpts =
  so_chunk_bytes :: nat
  so_compression :: Compression
  so_zstd_level :: int
  so_session_depth :: nat

definition stream_opts_default :: StreamOpts where
  "stream_opts_default =
     \<lparr>so_chunk_bytes = push_bit 20 1, so_compression = Comp_Zstd, so_zstd_level = 3, so_session_depth = 4\<rparr>"

record OpenResponse =
  op_version :: u8
  op_stream_id :: u64
  op_format :: u16
  op_compression :: u8

datatype Msg = M_Chunk bytes | M_End | M_Fail string

section \<open>The chunking sink\<close>

record ChunkSink =
  cs_sent :: "Msg list"
  cs_budget :: "nat option"
  cs_buf :: bytes
  cs_chunk_bytes :: nat

definition chunk_sink_new :: "nat option \<Rightarrow> nat \<Rightarrow> ChunkSink" where
  "chunk_sink_new budget chunk_bytes =
     \<lparr>cs_sent = [], cs_budget = budget, cs_buf = [], cs_chunk_bytes = chunk_bytes\<rparr>"

text \<open>\<^verbatim>\<open>SyncSender::send\<close>: it fails once the receiver is gone.\<close>

definition tx_send :: "Msg \<Rightarrow> ChunkSink \<Rightarrow> bool \<times> ChunkSink" where
  "tx_send msg s =
     (if cs_budget s = Some 0 then (False, s)
      else (True, s\<lparr>cs_sent := cs_sent s @ [msg], cs_budget := map_option (\<lambda>n. n - 1) (cs_budget s)\<rparr>))"

definition send_chunk :: "ChunkSink \<Rightarrow> (io_error + unit) \<times> ChunkSink" where
  "send_chunk s =
     (let chunk = cs_buf s; s = s\<lparr>cs_buf := []\<rparr>
      in case tx_send (M_Chunk chunk) s of
           (True, s) \<Rightarrow> (Inr (), s)
         | (False, s) \<Rightarrow> (Inl (IoError K_BrokenPipe ''svs stream cancelled''), s))"

definition flush_remaining :: "ChunkSink \<Rightarrow> (io_error + unit) \<times> ChunkSink" where
  "flush_remaining s = (if cs_buf s = [] then (Inr (), s) else send_chunk s)"

text \<open>The loop of \<^verbatim>\<open>write\<close>; \<open>None\<close> is a loop that does not end.\<close>

partial_function (option) chunk_write :: "bytes \<Rightarrow> ChunkSink \<Rightarrow> ((io_error + unit) \<times> ChunkSink) option" where
  "chunk_write data s =
     (if data = [] then Some (Inr (), s)
      else
        let space = cs_chunk_bytes s - length (cs_buf s);
            n = min space (length data);
            s = s\<lparr>cs_buf := cs_buf s @ take n data\<rparr>;
            data = drop n data
        in if length (cs_buf s) \<ge> cs_chunk_bytes s
           then (case send_chunk s of
                   (Inl err, s) \<Rightarrow> Some (Inl err, s)
                 | (Inr _, s) \<Rightarrow> chunk_write data s)
           else chunk_write data s)"

section \<open>The producer\<close>

datatype BodyWriter = BW_Return "io_error + unit" | BW_Write bytes "io_error + unit \<Rightarrow> BodyWriter"

primrec run_plain :: "BodyWriter \<Rightarrow> ChunkSink \<Rightarrow> ((io_error + unit) \<times> ChunkSink) option" where
  "run_plain (BW_Return r) s = Some (r, s)"
| "run_plain (BW_Write bs k) s =
     (case chunk_write bs s of
        None \<Rightarrow> None
      | Some (r, s) \<Rightarrow> run_plain (k r) s)"

text \<open>
  The encoder: opened with a level, it turns what is written to it into pieces for the sink, and has
  some left when finished.
\<close>

record 'e zstd_ops =
  z_new :: "int \<Rightarrow> io_error + 'e"
  z_write :: "bytes \<Rightarrow> 'e \<Rightarrow> bytes list \<times> 'e"
  z_finish :: "'e \<Rightarrow> bytes list"

fun write_pieces :: "bytes list \<Rightarrow> ChunkSink \<Rightarrow> ((io_error + unit) \<times> ChunkSink) option" where
  "write_pieces [] s = Some (Inr (), s)"
| "write_pieces (p # ps) s =
     (case chunk_write p s of
        None \<Rightarrow> None
      | Some (Inl err, s) \<Rightarrow> Some (Inl err, s)
      | Some (Inr _, s) \<Rightarrow> write_pieces ps s)"

primrec run_encoded ::
    "'e zstd_ops \<Rightarrow> BodyWriter \<Rightarrow> 'e \<Rightarrow> ChunkSink \<Rightarrow> ((io_error + unit) \<times> 'e \<times> ChunkSink) option" where
  "run_encoded z (BW_Return r) e s = Some (r, e, s)"
| "run_encoded z (BW_Write bs k) e s =
     (case z_write z bs e of
        (pieces, e) \<Rightarrow>
          (case write_pieces pieces s of
             None \<Rightarrow> None
           | Some (r, s) \<Rightarrow> run_encoded z (k r) e s))"

definition produce_body ::
    "'e zstd_ops \<Rightarrow> BodyWriter \<Rightarrow> StreamOpts \<Rightarrow> ChunkSink \<Rightarrow> ((io_error + unit) \<times> ChunkSink) option" where
  "produce_body z body opts sink =
     (case so_compression opts of
        Comp_None \<Rightarrow>
          (case run_plain body sink of
             None \<Rightarrow> None
           | Some (Inl err, sink) \<Rightarrow> Some (Inl err, sink)
           | Some (Inr _, sink) \<Rightarrow> Some (flush_remaining sink))
      | Comp_Zstd \<Rightarrow>
          (case z_new z (so_zstd_level opts) of
             Inl err \<Rightarrow> Some (Inl err, sink)
           | Inr e \<Rightarrow>
               (case run_encoded z body e sink of
                  None \<Rightarrow> None
                | Some (Inl err, e, sink) \<Rightarrow> Some (Inl err, sink)
                | Some (Inr _, e, sink) \<Rightarrow>
                    (case write_pieces (z_finish z e) sink of
                       None \<Rightarrow> None
                     | Some (Inl err, sink) \<Rightarrow> Some (Inl err, sink)
                     | Some (Inr _, sink) \<Rightarrow> Some (flush_remaining sink)))))"

text \<open>What the producer sends; \<open>dio\<close> is the text of an I/O error.\<close>

definition produce ::
    "(io_error \<Rightarrow> string) \<Rightarrow> 'e zstd_ops \<Rightarrow> BodyWriter \<Rightarrow> nat option \<Rightarrow> StreamOpts \<Rightarrow> Msg list option" where
  "produce dio z body budget opts =
     (let sink = chunk_sink_new budget (so_chunk_bytes opts)
      in case produce_body z body opts sink of
           None \<Rightarrow> None
         | Some (Inr _, sink) \<Rightarrow> Some (cs_sent (snd (tx_send M_End sink)))
         | Some (Inl err, sink) \<Rightarrow> Some (cs_sent (snd (tx_send (M_Fail (dio err)) sink))))"

section \<open>Sessions\<close>

record Session =
  ss_rx :: "Msg list"
  ss_lookahead :: "bytes option"
  ss_done :: bool

definition session_recv :: "Session \<Rightarrow> Msg \<times> Session" where
  "session_recv s =
     (case ss_rx s of
        m # ms \<Rightarrow> (m, s\<lparr>ss_rx := ms\<rparr>)
      | [] \<Rightarrow> (M_Fail ''svs producer ended without completing'', s))"

definition session_pull :: "Session \<Rightarrow> (string + (bytes \<times> bool)) \<times> Session" where
  "session_pull s =
     (let go = (\<lambda>current s.
            case session_recv s of
              (M_Chunk nxt, s) \<Rightarrow> (Inr (current, False), s\<lparr>ss_lookahead := Some nxt\<rparr>)
            | (M_End, s) \<Rightarrow> (Inr (current, True), s)
            | (M_Fail e, s) \<Rightarrow> (Inl e, s))
      in case ss_lookahead s of
           Some c \<Rightarrow> go c (s\<lparr>ss_lookahead := None\<rparr>)
         | None \<Rightarrow>
             (case session_recv s of
                (M_Chunk c, s) \<Rightarrow> go c s
              | (M_End, s) \<Rightarrow> (Inr ([], True), s)
              | (M_Fail e, s) \<Rightarrow> (Inl e, s)))"

text \<open>
  The table maps a stream's id to its session; a session is shared with the handlers that
  hold it, so sessions live in a list that only grows.
\<close>

record SessionTable =
  st_next_id :: u64
  st_sessions :: "u64 \<rightharpoonup> nat"
  st_heap :: "Session list"

definition session_table_new :: SessionTable where
  "session_table_new = \<lparr>st_next_id = 1, st_sessions = Map.empty, st_heap = []\<rparr>"

definition session_get :: "u64 \<Rightarrow> SessionTable \<Rightarrow> nat option" where
  "session_get stream_id t = st_sessions t stream_id"

definition session_remove :: "u64 \<Rightarrow> SessionTable \<Rightarrow> SessionTable" where
  "session_remove stream_id t = t\<lparr>st_sessions := (st_sessions t)(stream_id := None)\<rparr>"

section \<open>Handlers\<close>

text \<open>The BEVE forms of the requests and responses; a decoder's error is \<open>None\<close>.\<close>

record 's svs_codec =
  sc_open :: "string \<Rightarrow> bytes"
  sc_de_open :: "bytes \<Rightarrow> string option"
  sc_next :: "u64 \<Rightarrow> bytes"
  sc_de_next :: "bytes \<Rightarrow> u64 option"
  sc_cancel :: "u64 \<times> string \<Rightarrow> bytes"
  sc_de_cancel :: "bytes \<Rightarrow> (u64 \<times> string) option"
  sc_opened :: "OpenResponse \<Rightarrow> bytes"
  sc_de_opened :: "bytes \<Rightarrow> 's + OpenResponse"
  sc_ack :: "bool \<Rightarrow> bytes"

definition svs_error_like :: "Message \<Rightarrow> ErrorCode \<Rightarrow> string \<Rightarrow> Message" where
  "svs_error_like req code msg =
     (let err = create_error_message code msg
      in err\<lparr>m_header := (m_header err)\<lparr>h_id := h_id (m_header req)\<rparr>\<rparr>)"

definition beve_response :: "Message \<Rightarrow> ('v \<Rightarrow> bytes) \<Rightarrow> 'v \<Rightarrow> Message" where
  "beve_response req enc value = build (with_body_beve enc value (with_id (h_id (m_header req)) builder))"

definition chunk_response :: "Message \<Rightarrow> bytes \<Rightarrow> bool \<Rightarrow> Message" where
  "chunk_response req chunk is_last =
     build (with_body_bytes chunk (with_body_format BF_RawBinary (with_query_bytes [if is_last then 1 else 0]
       (with_query_format QF_RawBinary (with_id (h_id (m_header req)) builder)))))"

text \<open>
  \<open>producer\<close> gives the messages of the thread a body is handed to. A producer that never ends, which
  a chunk size of zero makes, has no such list; the hypotheses below exclude it.
\<close>

definition open_handle ::
    "'s svs_codec \<Rightarrow> (BodyWriter \<Rightarrow> Msg list) \<Rightarrow> (string \<Rightarrow> BodyWriter option) \<Rightarrow> StreamOpts \<Rightarrow> u16 \<Rightarrow> Message
      \<Rightarrow> SessionTable \<Rightarrow> Message \<times> SessionTable" where
  "open_handle sc producer make_body opts format req t =
     (case sc_de_open sc (m_body req) of
        None \<Rightarrow> (svs_error_like req EC_InvalidBody ''svs open: expected BEVE { resource: string }'', t)
      | Some resource \<Rightarrow>
          (case make_body resource of
             None \<Rightarrow>
               (svs_error_like req EC_MethodNotFound (''svs open: unknown resource '' @ [CHR 0x27] @ resource @ [CHR 0x27]), t)
           | Some body \<Rightarrow>
               (let stream_id = st_next_id t;
                    session = \<lparr>ss_rx = producer body, ss_lookahead = None, ss_done = False\<rparr>;
                    t = t\<lparr>st_next_id := stream_id + 1,
                          st_sessions := (st_sessions t)(stream_id \<mapsto> length (st_heap t)),
                          st_heap := st_heap t @ [session]\<rparr>;
                    resp = \<lparr>op_version = SVS_VERSION, op_stream_id = stream_id, op_format = format,
                            op_compression = compression_u8 (so_compression opts)\<rparr>
                in (beve_response req (sc_opened sc) resp, t))))"

text \<open>One pull under the session's mutex.\<close>

definition locked_pull :: "Session \<Rightarrow> (string + (bytes \<times> bool)) \<times> Session" where
  "locked_pull guard =
     (if ss_done guard then (Inl ''svs next: stream already finished'', guard)
      else (case session_pull guard of
              (pulled, guard) \<Rightarrow>
                (pulled,
                 if (case pulled of Inr (_, is_last) \<Rightarrow> is_last | Inl _ \<Rightarrow> True) then guard\<lparr>ss_done := True\<rparr> else guard)))"

definition next_handle :: "'s svs_codec \<Rightarrow> Message \<Rightarrow> SessionTable \<Rightarrow> Message \<times> SessionTable" where
  "next_handle sc req t =
     (case sc_de_next sc (m_body req) of
        None \<Rightarrow> (svs_error_like req EC_InvalidBody ''svs next: expected BEVE { stream_id: u64 }'', t)
      | Some stream_id \<Rightarrow>
          (case session_get stream_id t of
             None \<Rightarrow>
               (svs_error_like req EC_InvalidQuery (''svs next: unknown stream_id '' @ dec_str (unat stream_id)), t)
           | Some i \<Rightarrow>
               (case locked_pull (st_heap t ! i) of
                  (outcome, session) \<Rightarrow>
                    (let t = t\<lparr>st_heap := (st_heap t)[i := session]\<rparr>
                     in case outcome of
                          Inr (chunk, is_last) \<Rightarrow>
                            (chunk_response req chunk is_last, if is_last then session_remove stream_id t else t)
                        | Inl msg \<Rightarrow> (svs_error_like req EC_InternalError msg, session_remove stream_id t)))))"

definition cancel_handle :: "'s svs_codec \<Rightarrow> Message \<Rightarrow> SessionTable \<Rightarrow> Message \<times> SessionTable" where
  "cancel_handle sc req t =
     (let t = (case sc_de_cancel sc (m_body req) of
                 Some (stream_id, _) \<Rightarrow> session_remove stream_id t
               | None \<Rightarrow> t)
      in (beve_response req (sc_ack sc) True, t))"

text \<open>The handlers on the program's state, in which the table is reached by \<open>get\<close> and \<open>put\<close>.\<close>

definition table_handler ::
    "('w \<Rightarrow> SessionTable) \<Rightarrow> (SessionTable \<Rightarrow> 'w \<Rightarrow> 'w) \<Rightarrow> (Message \<Rightarrow> SessionTable \<Rightarrow> Message \<times> SessionTable)
      \<Rightarrow> ('w, 's) Handler" where
  "table_handler get put handle =
     plain_handler (\<lambda>req w. case handle req (get w) of (m, t) \<Rightarrow> (Inr m, put t w))"

definition next_handler ::
    "('w \<Rightarrow> SessionTable) \<Rightarrow> (SessionTable \<Rightarrow> 'w \<Rightarrow> 'w) \<Rightarrow> 's svs_codec \<Rightarrow> ('w, 's) Handler" where
  "next_handler get put sc = (table_handler get put (next_handle sc))\<lparr>hd_execution := OffReader\<rparr>"

definition register_svs ::
    "('w \<Rightarrow> SessionTable) \<Rightarrow> (SessionTable \<Rightarrow> 'w \<Rightarrow> 'w) \<Rightarrow> 's svs_codec \<Rightarrow> (BodyWriter \<Rightarrow> Msg list)
      \<Rightarrow> (string \<Rightarrow> BodyWriter option) \<Rightarrow> u16 \<Rightarrow> StreamOpts \<Rightarrow> ('w, 's) Router \<Rightarrow> ('w, 's) Router" where
  "register_svs get put sc producer make_body format opts router =
     with_erased_handler ROUTE_CANCEL (table_handler get put (cancel_handle sc))
       (with_erased_handler ROUTE_NEXT (next_handler get put sc)
         (with_erased_handler ROUTE_OPEN (table_handler get put (open_handle sc producer make_body opts format)) router))"

text \<open>
  The three ways to register a producer: a value through the BEVE writer, whose writes are
  \<open>to_writer\<close>'s, a reader copied to its end, and the embedder's own writer.
\<close>

definition with_value_stream where
  "with_value_stream get put sc producer to_writer resolver opts =
     register_svs get put sc producer (\<lambda>resource. map_option to_writer (resolver resource)) (body_format_u16 BF_Beve) opts"

definition with_reader_stream where
  "with_reader_stream get put sc producer copy resolver opts =
     register_svs get put sc producer (\<lambda>resource. map_option copy (resolver resource)) (body_format_u16 BF_RawBinary) opts"

definition with_writer_stream where
  "with_writer_stream get put sc producer format resolver opts =
     register_svs get put sc producer resolver (body_format_u16 format) opts"

section \<open>Chunks carry the body\<close>

fun chunk_of :: "Msg \<Rightarrow> bytes" where
  "chunk_of (M_Chunk c) = c"
| "chunk_of _ = []"

definition payload :: "ChunkSink \<Rightarrow> bytes" where
  "payload s = concat (map chunk_of (cs_sent s)) @ cs_buf s"

text \<open>A sink nobody has cancelled, between two writes.\<close>

definition sink_ok :: "nat \<Rightarrow> ChunkSink \<Rightarrow> bool" where
  "sink_ok n s \<longleftrightarrow>
     cs_chunk_bytes s = n \<and> length (cs_buf s) < n \<and> cs_budget s = None
     \<and> (\<forall>m\<in>set (cs_sent s). \<exists>c. m = M_Chunk c \<and> length c = n)"

lemma send_chunk_open:
  "cs_budget s = None \<Longrightarrow> send_chunk s = (Inr (), s\<lparr>cs_sent := cs_sent s @ [M_Chunk (cs_buf s)], cs_buf := []\<rparr>)"
  by (simp add: send_chunk_def tx_send_def Let_def)

lemma chunk_write_fits:
  assumes "data \<noteq> []" and "k = min (cs_chunk_bytes s - length (cs_buf s)) (length data)"
    and "s1 = s\<lparr>cs_buf := cs_buf s @ take k data\<rparr>" and "length (cs_buf s1) < cs_chunk_bytes s"
  shows "chunk_write data s = chunk_write (drop k data) s1"
proof -
  have "length (cs_buf s) + length data < cs_chunk_bytes s" using assms(2-4) by (simp add: min_def split: if_splits)
  with assms(1) show ?thesis unfolding assms(2,3) by (subst chunk_write.simps) (simp add: Let_def)
qed

lemma chunk_write_ok:
  "sink_ok n s \<Longrightarrow> \<exists>s'. chunk_write data s = Some (Inr (), s') \<and> sink_ok n s' \<and> payload s' = payload s @ data"
proof (induction "length data" arbitrary: data s rule: less_induct)
  case less
  show ?case
  proof (cases "data = []")
    case True
    with less.prems show ?thesis by (simp add: chunk_write.simps)
  next
    case False
    let ?space = "cs_chunk_bytes s - length (cs_buf s)"
    let ?k = "min ?space (length data)"
    let ?s1 = "s\<lparr>cs_buf := cs_buf s @ take ?k data\<rparr>"
    have n: "cs_chunk_bytes s = n" "length (cs_buf s) < n" "cs_budget s = None" using less.prems by (auto simp: sink_ok_def)
    have shorter: "length (drop ?k data) < length data" using False n by simp
    show ?thesis
    proof (cases "length (cs_buf ?s1) \<ge> n")
      case True
      let ?s2 = "?s1\<lparr>cs_sent := cs_sent s @ [M_Chunk (cs_buf ?s1)], cs_buf := []\<rparr>"
      have "sink_ok n ?s2" using less.prems True n by (auto simp: sink_ok_def)
      from less.hyps [OF shorter this] obtain s' where s': "chunk_write (drop ?k data) ?s2 = Some (Inr (), s')" "sink_ok n s'"
        "payload s' = payload ?s2 @ drop ?k data" by blast
      have "payload ?s2 @ drop ?k data = payload s @ data" by (simp add: payload_def)
      moreover have "chunk_write data s = chunk_write (drop ?k data) ?s2"
        using False True n by (subst chunk_write.simps) (simp add: Let_def send_chunk_open)
      ultimately show ?thesis using s' by simp
    next
      case buf: False
      then have "sink_ok n ?s1" using less.prems n by (auto simp: sink_ok_def)
      from less.hyps [OF shorter this] obtain s' where s': "chunk_write (drop ?k data) ?s1 = Some (Inr (), s')" "sink_ok n s'"
        "payload s' = payload ?s1 @ drop ?k data" by blast
      have "payload ?s1 @ drop ?k data = payload s @ data" by (simp add: payload_def)
      moreover have "chunk_write data s = chunk_write (drop ?k data) ?s1"
        using chunk_write_fits [OF False refl refl] buf n by simp
      ultimately show ?thesis using s' by simp
    qed
  qed
qed

lemma write_pieces_ok:
  "sink_ok n s \<Longrightarrow> \<exists>s'. write_pieces ps s = Some (Inr (), s') \<and> sink_ok n s' \<and> payload s' = payload s @ concat ps"
proof (induction ps arbitrary: s)
  case (Cons p ps)
  from chunk_write_ok [OF Cons.prems, of p] obtain s1 where "chunk_write p s = Some (Inr (), s1)" "sink_ok n s1"
    "payload s1 = payload s @ p" by blast
  with Cons.IH [of s1] show ?case by auto
qed simp

text \<open>What a body writes when every write succeeds, and how it then ends.\<close>

primrec body_bytes :: "BodyWriter \<Rightarrow> bytes" where
  "body_bytes (BW_Return r) = []"
| "body_bytes (BW_Write bs k) = bs @ body_bytes (k (Inr ()))"

primrec body_result :: "BodyWriter \<Rightarrow> io_error + unit" where
  "body_result (BW_Return r) = r"
| "body_result (BW_Write bs k) = body_result (k (Inr ()))"

text \<open>The encoder's pieces for a body, and its state after it.\<close>

primrec body_encoded :: "'e zstd_ops \<Rightarrow> BodyWriter \<Rightarrow> 'e \<Rightarrow> bytes list \<times> 'e" where
  "body_encoded z (BW_Return r) e = ([], e)"
| "body_encoded z (BW_Write bs k) e =
     (case z_write z bs e of
        (pieces, e) \<Rightarrow> (case body_encoded z (k (Inr ())) e of (rest, e) \<Rightarrow> (pieces @ rest, e)))"

lemma run_plain_ok:
  "sink_ok n s \<Longrightarrow> \<exists>s'. run_plain body s = Some (body_result body, s') \<and> sink_ok n s' \<and> payload s' = payload s @ body_bytes body"
proof (induction body arbitrary: s)
  case (BW_Write bs k)
  from chunk_write_ok [OF BW_Write.prems, of bs] obtain s1 where "chunk_write bs s = Some (Inr (), s1)" "sink_ok n s1"
    "payload s1 = payload s @ bs" by blast
  with BW_Write.IH [of "k (Inr ())" s1] show ?case by auto
qed simp

lemma run_encoded_ok:
  assumes "sink_ok n s"
  shows "\<exists>s'. run_encoded z body e s = Some (body_result body, snd (body_encoded z body e), s') \<and> sink_ok n s'
    \<and> payload s' = payload s @ concat (fst (body_encoded z body e))"
  using assms
proof (induction body arbitrary: s e)
  case (BW_Write bs k)
  obtain ps e1 where z: "z_write z bs e = (ps, e1)" by fastforce
  from write_pieces_ok [OF BW_Write.prems, of ps] obtain s1 where "write_pieces ps s = Some (Inr (), s1)" "sink_ok n s1"
    "payload s1 = payload s @ concat ps" by blast
  with BW_Write.IH [of "k (Inr ())" s1 e1] z show ?case by (auto split: prod.split)
qed simp

text \<open>A chunk size of zero: a write of anything never ends, sending empty chunks for ever.\<close>

lemma chunk_write_zero_hangs:
  assumes "cs_chunk_bytes s = 0" and "cs_budget s = None" and "cs_buf s = []" and "data \<noteq> []"
  shows "chunk_write data s = None"
proof (rule ccontr)
  assume "chunk_write data s \<noteq> None"
  then obtain r where "chunk_write data s = Some r" by blast
  then have r: "chunk_write data s = Some r" .
  have "cs_chunk_bytes s = 0 \<and> cs_budget s = None \<and> cs_buf s = [] \<and> data \<noteq> [] \<longrightarrow> False"
    by (rule chunk_write.raw_induct [of "\<lambda>data s r. cs_chunk_bytes s = 0 \<and> cs_budget s = None \<and> cs_buf s = []
          \<and> data \<noteq> [] \<longrightarrow> False", OF _ r])
      (fastforce simp: Let_def send_chunk_open split: if_splits)
  with assms show False by blast
qed

definition wire_bytes :: "'e zstd_ops \<Rightarrow> BodyWriter \<Rightarrow> StreamOpts \<Rightarrow> bytes" where
  "wire_bytes z body opts =
     (case so_compression opts of
        Comp_None \<Rightarrow> body_bytes body
      | Comp_Zstd \<Rightarrow>
          (case z_new z (so_zstd_level opts) of
             Inl _ \<Rightarrow> []
           | Inr e \<Rightarrow> (case body_encoded z body e of (pieces, e) \<Rightarrow> concat pieces @ concat (z_finish z e))))"

definition wire_result :: "'e zstd_ops \<Rightarrow> BodyWriter \<Rightarrow> StreamOpts \<Rightarrow> io_error + unit" where
  "wire_result z body opts =
     (case so_compression opts of
        Comp_None \<Rightarrow> body_result body
      | Comp_Zstd \<Rightarrow> res_bind (z_new z (so_zstd_level opts)) (\<lambda>_. body_result body))"

text \<open>Chunks of the size, but for a last one that may be shorter and is never empty.\<close>

definition chunked :: "nat \<Rightarrow> bytes list \<Rightarrow> bool" where
  "chunked n cs \<longleftrightarrow> (\<forall>c\<in>set cs. 0 < length c \<and> length c \<le> n) \<and> (\<forall>c\<in>set (butlast cs). length c = n)"

lemma sink_ok_chunks:
  assumes "sink_ok n s" and "0 < n"
  obtains cs where "cs_sent s = map M_Chunk cs" "\<forall>c\<in>set cs. length c = n" "chunked n cs"
    "payload s = concat cs @ cs_buf s"
proof -
  let ?cs = "map chunk_of (cs_sent s)"
  have "cs_sent s = map M_Chunk ?cs" "\<forall>c\<in>set ?cs. length c = n"
    using assms(1) by (auto simp: sink_ok_def intro!: map_idI [symmetric])
  moreover from this(2) have "chunked n ?cs" using assms(2) in_set_butlastD [of _ ?cs] unfolding chunked_def by (metis order_refl)
  ultimately show thesis using that [of ?cs] by (simp add: payload_def)
qed

lemma flush_remaining_ok:
  assumes "sink_ok n s"
  shows "\<exists>cs s'. flush_remaining s = (Inr (), s') \<and> cs_sent s' = map M_Chunk cs \<and> cs_budget s' = None
    \<and> chunked n cs \<and> concat cs = payload s"
proof -
  have n: "0 < n" "length (cs_buf s) < n" "cs_budget s = None" using assms by (auto simp: sink_ok_def)
  obtain cs where cs: "cs_sent s = map M_Chunk cs" "\<forall>c\<in>set cs. length c = n" "chunked n cs"
    "payload s = concat cs @ cs_buf s" by (rule sink_ok_chunks [OF assms n(1)])
  show ?thesis
  proof (cases "cs_buf s = []")
    case True
    with cs n show ?thesis by (auto simp: flush_remaining_def)
  next
    case False
    then have "chunked n (cs @ [cs_buf s])" using cs n by (auto simp: chunked_def)
    moreover have "flush_remaining s = (Inr (), s\<lparr>cs_sent := map M_Chunk (cs @ [cs_buf s]), cs_buf := []\<rparr>)"
      using False n cs(1) by (simp add: flush_remaining_def send_chunk_open)
    ultimately show ?thesis using cs(4) n(3) by (intro exI [of _ "cs @ [cs_buf s]"]) auto
  qed
qed

lemma produce_body_ok:
  assumes "0 < so_chunk_bytes opts"
  shows "\<exists>cs s. produce_body z body opts (chunk_sink_new None (so_chunk_bytes opts)) = Some (wire_result z body opts, s)
    \<and> cs_sent s = map M_Chunk cs \<and> cs_budget s = None \<and> chunked (so_chunk_bytes opts) cs
    \<and> (wire_result z body opts = Inr () \<longrightarrow> concat cs = wire_bytes z body opts)"
proof -
  let ?n = "so_chunk_bytes opts" and ?s0 = "chunk_sink_new None (so_chunk_bytes opts)"
  have s0: "sink_ok ?n ?s0" "payload ?s0 = []" "cs_sent ?s0 = []" "cs_budget ?s0 = None"
    using assms by (simp_all add: sink_ok_def chunk_sink_new_def payload_def)
  have failed: "\<exists>cs. cs_sent s = map M_Chunk cs \<and> cs_budget s = None \<and> chunked ?n cs" if ok: "sink_ok ?n s" for s
  proof -
    obtain cs where "cs_sent s = map M_Chunk cs" "chunked ?n cs" using sink_ok_chunks [OF ok assms] by metis
    with ok show ?thesis by (auto simp: sink_ok_def)
  qed
  show ?thesis
  proof (cases "so_compression opts")
    case Comp_None
    from run_plain_ok [OF s0(1), of body] obtain s where s: "run_plain body ?s0 = Some (body_result body, s)" "sink_ok ?n s"
      "payload s = body_bytes body" by (auto simp: s0)
    with flush_remaining_ok [OF s(2)] failed [OF s(2)] Comp_None show ?thesis
      by (cases "body_result body") (auto simp: produce_body_def wire_result_def wire_bytes_def)
  next
    case Comp_Zstd
    show ?thesis
    proof (cases "z_new z (so_zstd_level opts)")
      case (Inl err)
      with failed [OF s0(1)] Comp_Zstd show ?thesis by (simp add: produce_body_def wire_result_def)
    next
      case (Inr e)
      obtain ps e1 where enc: "body_encoded z body e = (ps, e1)" by fastforce
      from run_encoded_ok [OF s0(1), of z body e] obtain s where s: "run_encoded z body e ?s0 = Some (body_result body, e1, s)"
        "sink_ok ?n s" "payload s = concat ps" by (auto simp: s0 enc)
      from write_pieces_ok [OF s(2), of "z_finish z e1"] obtain s' where s': "write_pieces (z_finish z e1) s = Some (Inr (), s')"
        "sink_ok ?n s'" "payload s' = concat ps @ concat (z_finish z e1)" by (auto simp: s(3))
      from flush_remaining_ok [OF s'(2)] failed [OF s(2)] Comp_Zstd Inr s s' enc show ?thesis
        by (cases "body_result body") (auto simp: produce_body_def wire_result_def wire_bytes_def)
    qed
  qed
qed

lemma producer_bytes:
  assumes "0 < so_chunk_bytes opts"
  shows "\<exists>cs. produce dio z body None opts
      = Some (map M_Chunk cs @ [case wire_result z body opts of Inr _ \<Rightarrow> M_End | Inl err \<Rightarrow> M_Fail (dio err)])
    \<and> chunked (so_chunk_bytes opts) cs
    \<and> (wire_result z body opts = Inr () \<longrightarrow> concat cs = wire_bytes z body opts)"
proof -
  from produce_body_ok [OF assms, of z body] obtain cs s where
    s: "produce_body z body opts (chunk_sink_new None (so_chunk_bytes opts)) = Some (wire_result z body opts, s)"
      "cs_sent s = map M_Chunk cs" "cs_budget s = None" "chunked (so_chunk_bytes opts) cs"
      "wire_result z body opts = Inr () \<longrightarrow> concat cs = wire_bytes z body opts" by blast
  then show ?thesis by (intro exI [of _ cs]) (auto simp: produce_def tx_send_def split: sum.split)
qed

text \<open>
  The producer's messages: chunks of the configured size, the last possibly shorter and none empty, then
  exactly one end or failure. When the body and the encoder succeed the chunks put together are the
  bytes of the stream; a failure is reported as such and never as an end.
\<close>

theorem producer_chunks:
  assumes "0 < so_chunk_bytes opts"
  shows "\<exists>cs. produce dio z body None opts
      = Some (map M_Chunk cs @ [case wire_result z body opts of Inr _ \<Rightarrow> M_End | Inl err \<Rightarrow> M_Fail (dio err)])
    \<and> chunked (so_chunk_bytes opts) cs
    \<and> (wire_result z body opts = Inr () \<longrightarrow> concat cs = wire_bytes z body opts)"
  by (rule producer_bytes [OF assms])

text \<open>An encoder that passes its input on.\<close>

definition plain_zstd :: "unit zstd_ops" where
  "plain_zstd = \<lparr>z_new = (\<lambda>_. Inr ()), z_write = (\<lambda>bs e. ([bs], e)), z_finish = (\<lambda>_. [])\<rparr>"

definition two_writes :: BodyWriter where
  "two_writes = BW_Write [1, 2, 3] (\<lambda>_. BW_Write [4, 5] (\<lambda>r. BW_Return r))"

theorem producer_chunks_witness:
  "\<exists>cs. produce (\<lambda>_. []) plain_zstd two_writes None \<lparr>so_chunk_bytes = 2, so_compression = Comp_None, so_zstd_level = 3, so_session_depth = 1\<rparr>
      = Some (map M_Chunk cs @ [M_End]) \<and> concat cs = [1, 2, 3, 4, 5]"
  using producer_chunks [of "\<lparr>so_chunk_bytes = 2, so_compression = Comp_None, so_zstd_level = 3, so_session_depth = 1\<rparr>" "\<lambda>_. []" plain_zstd two_writes]
  by (auto simp: two_writes_def wire_result_def wire_bytes_def)

end
