(* ===== verification/Value_Pull.thy ===== *)
theory Value_Pull
  imports Value_Stream
begin

text \<open>
  The receiving side of streamed values, the second half of \<^verbatim>\<open>src/value_stream.rs\<close>: opening
  a stream, the reader that pulls chunks, writing to a temporary file that is renamed when complete, the
  trailer that is held back and verified, and the asynchronous pulls, whose consumer reads from a channel.
  The client is its two calls, which act on the state \<open>'w\<close> beyond it. The BEVE readers and
  \<^verbatim>\<open>zstandard\<close>'s decoder are arguments. \<open>None\<close> is a call that does not return.
\<close>

section \<open>Opening\<close>

record ('w, 's) svs_client =
  vc_call :: "string \<Rightarrow> u16 \<Rightarrow> bytes option \<Rightarrow> u16 \<Rightarrow> 'w \<Rightarrow> ('s RepeError + Message) \<times> 'w"
  vc_notify :: "string \<Rightarrow> u16 \<Rightarrow> bytes option \<Rightarrow> u16 \<Rightarrow> 'w \<Rightarrow> ('s RepeError + unit) \<times> 'w"

record OpenInfo =
  oi_stream_id :: u64
  oi_format :: u16
  oi_compression :: Compression

definition svs_invalid_data :: "string \<Rightarrow> 's RepeError" where
  "svs_invalid_data msg = RE_Io (IoError K_InvalidData msg)"

definition parse_open_response :: "'s svs_codec \<Rightarrow> Message \<Rightarrow> 's RepeError + OpenInfo" where
  "parse_open_response sc resp =
     res_bind (beve_body (sc_de_opened sc) resp) (\<lambda>opened.
       if op_version opened \<noteq> SVS_VERSION
       then Inl (svs_invalid_data (''svs open: server contract version '' @ dec_str (unat (op_version opened))
              @ '' != supported '' @ dec_str (unat SVS_VERSION)))
       else (case compression_from_u8 (op_compression opened) of
               None \<Rightarrow> Inl (svs_invalid_data (''svs open: unknown compression tag '' @ dec_str (unat (op_compression opened))))
             | Some compression \<Rightarrow>
                 Inr \<lparr>oi_stream_id = op_stream_id opened, oi_format = op_format opened, oi_compression = compression\<rparr>))"

definition open_stream ::
    "('w, 's) svs_client \<Rightarrow> 's svs_codec \<Rightarrow> string \<Rightarrow> 'w \<Rightarrow> ('s RepeError + OpenInfo) \<times> 'w" where
  "open_stream c sc resource w =
     (case vc_call c ROUTE_OPEN (query_format_u16 QF_JsonPointer) (Some (sc_open sc resource)) (body_format_u16 BF_Beve) w of
        (Inl err, w) \<Rightarrow> (Inl err, w)
      | (Inr resp, w) \<Rightarrow> (parse_open_response sc resp, w))"

definition cancel_stream ::
    "('w, 's) svs_client \<Rightarrow> 's svs_codec \<Rightarrow> u64 \<Rightarrow> string \<Rightarrow> 'w \<Rightarrow> ('s RepeError + unit) \<times> 'w" where
  "cancel_stream c sc stream_id reason w =
     vc_notify c ROUTE_CANCEL (query_format_u16 QF_JsonPointer) (Some (sc_cancel sc (stream_id, reason))) (body_format_u16 BF_Beve) w"

datatype StreamOutput = SO_BeveZstdFile string | SO_BeveFile string | SO_Value | SO_RawFile string

definition check_output :: "StreamOutput \<Rightarrow> OpenInfo \<Rightarrow> 's RepeError + unit" where
  "check_output out opened =
     (let beve = body_format_u16 BF_Beve in
      case out of
        SO_BeveZstdFile _ \<Rightarrow>
          if oi_compression opened \<noteq> Comp_Zstd
          then Inl (svs_invalid_data ''svs: .beve.zst output needs a zstd-compressed stream'') else Inr ()
      | SO_BeveFile _ \<Rightarrow>
          if oi_compression opened \<noteq> Comp_Zstd
          then Inl (svs_invalid_data ''svs: .beve output needs a zstd-compressed stream'')
          else if oi_format opened \<noteq> beve
          then Inl (svs_invalid_data (''svs: .beve output needs format=BEVE, got format '' @ dec_str (unat (oi_format opened))))
          else Inr ()
      | SO_Value \<Rightarrow>
          if oi_format opened \<noteq> beve
          then Inl (svs_invalid_data (''svs: value decode needs format=BEVE, got format '' @ dec_str (unat (oi_format opened))))
          else Inr ()
      | SO_RawFile _ \<Rightarrow> Inr ())"

definition require_beve :: "OpenInfo \<Rightarrow> 's RepeError + unit" where
  "require_beve opened =
     (if oi_format opened \<noteq> body_format_u16 BF_Beve
      then Inl (svs_invalid_data (''svs: bulk slice decode needs format=BEVE, got format '' @ dec_str (unat (oi_format opened))))
      else Inr ())"

section \<open>Reading chunks\<close>

text \<open>A reader is its \<^verbatim>\<open>read\<close> into a buffer of a given size, on a state.\<close>

type_synonym 'k reader = "nat \<Rightarrow> 'k \<Rightarrow> ((io_error + bytes) \<times> 'k) option"

record ChunkReader =
  cr_stream_id :: u64
  cr_buf :: bytes
  cr_pos :: nat
  cr_finished :: bool
  cr_last_seen :: bool

definition chunk_reader_new :: "u64 \<Rightarrow> ChunkReader" where
  "chunk_reader_new stream_id =
     \<lparr>cr_stream_id = stream_id, cr_buf = [], cr_pos = 0, cr_finished = False, cr_last_seen = False\<rparr>"

definition chunk_fetch ::
    "('w, 's) svs_client \<Rightarrow> 's svs_codec \<Rightarrow> ('s RepeError \<Rightarrow> string) \<Rightarrow> ChunkReader \<times> 'w
      \<Rightarrow> (io_error + unit) \<times> ChunkReader \<times> 'w" where
  "chunk_fetch c sc show_err k =
     (case k of (r, w) \<Rightarrow>
        (case vc_call c ROUTE_NEXT (query_format_u16 QF_JsonPointer) (Some (sc_next sc (cr_stream_id r)))
                (body_format_u16 BF_Beve) w of
           (Inl err, w) \<Rightarrow> (Inl (IoError K_Other (show_err err)), r, w)
         | (Inr resp, w) \<Rightarrow>
             (let is_last = (case m_query resp of q # _ \<Rightarrow> q = 1 | [] \<Rightarrow> False);
                  r = r\<lparr>cr_buf := m_body resp, cr_pos := 0\<rparr>;
                  r = (if is_last then r\<lparr>cr_last_seen := True, cr_finished := True\<rparr> else r)
              in (Inr (), r, w))))"

partial_function (option) chunk_read ::
    "('w, 's) svs_client \<Rightarrow> 's svs_codec \<Rightarrow> ('s RepeError \<Rightarrow> string) \<Rightarrow> nat \<Rightarrow> ChunkReader \<times> 'w
      \<Rightarrow> ((io_error + bytes) \<times> ChunkReader \<times> 'w) option" where
  "chunk_read c sc show_err out_len k =
     (let r = fst k in
      if cr_pos r < length (cr_buf r)
      then let n = min out_len (length (cr_buf r) - cr_pos r)
           in Some (Inr (take n (drop (cr_pos r) (cr_buf r))), r\<lparr>cr_pos := cr_pos r + n\<rparr>, snd k)
      else if cr_finished r then Some (Inr [], k)
      else (case chunk_fetch c sc show_err k of
              (Inl err, k) \<Rightarrow> Some (Inl err, k)
            | (Inr _, k) \<Rightarrow> chunk_read c sc show_err out_len k))"

text \<open>
  \<^verbatim>\<open>io::copy\<close> with a buffer of the given size, and \<^verbatim>\<open>read_to_end\<close>, of the standard library; both retry
  an interrupted read.
\<close>

partial_function (option) io_copy ::
    "'k reader \<Rightarrow> (bytes \<Rightarrow> 'o \<Rightarrow> (io_error + unit) \<times> 'o) \<Rightarrow> nat \<Rightarrow> nat \<Rightarrow> 'k \<Rightarrow> 'o
      \<Rightarrow> ((io_error + nat) \<times> 'k \<times> 'o) option" where
  "io_copy rd wr bufsize count k out =
     (case rd bufsize k of
        None \<Rightarrow> None
      | Some (Inl err, k) \<Rightarrow>
          if io_error_kind err = K_Interrupted then io_copy rd wr bufsize count k out else Some (Inl err, k, out)
      | Some (Inr bs, k) \<Rightarrow>
          if bs = [] then Some (Inr count, k, out)
          else (case wr bs out of
                  (Inl err, out) \<Rightarrow> Some (Inl err, k, out)
                | (Inr _, out) \<Rightarrow> io_copy rd wr bufsize (count + length bs) k out))"

definition push_bytes :: "bytes \<Rightarrow> bytes \<Rightarrow> (io_error + unit) \<times> bytes" where
  "push_bytes bs buf = (Inr (), buf @ bs)"

definition read_to_end :: "'k reader \<Rightarrow> nat \<Rightarrow> 'k \<Rightarrow> ((io_error + bytes) \<times> 'k) option" where
  "read_to_end rd bufsize k =
     (case io_copy rd push_bytes bufsize 0 k [] of
        None \<Rightarrow> None
      | Some (Inl err, k, _) \<Rightarrow> Some (Inl err, k)
      | Some (Inr _, k, buf) \<Rightarrow> Some (Inr buf, k))"

text \<open>The decoder over a reader; its own state is paired with the reader's.\<close>

record ('d, 'k) zstd_reader =
  zr_init :: 'd
  zr_read :: "'k reader \<Rightarrow> ('d \<times> 'k) reader"

section \<open>Files\<close>

text \<open>
  The file system as far as it is used: each operation may fail, in any pattern, which \<open>fs_faults\<close>
  gives one by one; a failed operation changes nothing.
\<close>

record Fs =
  fs_files :: "string \<rightharpoonup> bytes"
  fs_faults :: "io_error option list"

definition fs_try :: "(Fs \<Rightarrow> Fs) \<Rightarrow> Fs \<Rightarrow> (io_error + unit) \<times> Fs" where
  "fs_try change fs =
     (case fs_faults fs of
        Some err # rest \<Rightarrow> (Inl err, fs\<lparr>fs_faults := rest\<rparr>)
      | None # rest \<Rightarrow> (Inr (), change (fs\<lparr>fs_faults := rest\<rparr>))
      | [] \<Rightarrow> (Inr (), change fs))"

definition file_create :: "string \<Rightarrow> Fs \<Rightarrow> (io_error + unit) \<times> Fs" where
  "file_create path = fs_try (\<lambda>fs. fs\<lparr>fs_files := (fs_files fs)(path \<mapsto> [])\<rparr>)"

definition file_write_all :: "string \<Rightarrow> bytes \<Rightarrow> Fs \<Rightarrow> (io_error + unit) \<times> Fs" where
  "file_write_all path bs =
     fs_try (\<lambda>fs. fs\<lparr>fs_files := (fs_files fs)(path := map_option (\<lambda>old. old @ bs) (fs_files fs path))\<rparr>)"

definition file_flush_sync :: "Fs \<Rightarrow> (io_error + unit) \<times> Fs" where
  "file_flush_sync fs =
     (case fs_try (\<lambda>fs. fs) fs of
        (Inl err, fs) \<Rightarrow> (Inl err, fs)
      | (Inr _, fs) \<Rightarrow> fs_try (\<lambda>fs. fs) fs)"

definition file_rename :: "string \<Rightarrow> string \<Rightarrow> Fs \<Rightarrow> (io_error + unit) \<times> Fs" where
  "file_rename from_path to_path =
     fs_try (\<lambda>fs. case fs_files fs from_path of
                    Some bs \<Rightarrow> fs\<lparr>fs_files := (fs_files fs)(from_path := None, to_path \<mapsto> bs)\<rparr>
                  | None \<Rightarrow> fs)"

definition file_remove :: "string \<Rightarrow> Fs \<Rightarrow> (io_error + unit) \<times> Fs" where
  "file_remove path = fs_try (\<lambda>fs. fs\<lparr>fs_files := (fs_files fs)(path := None)\<rparr>)"

text \<open>
  The temporary file beside the final one. Dropping its guard removes the file unless it was committed.
\<close>

definition temp_create :: "string \<Rightarrow> Fs \<Rightarrow> ('s RepeError + unit) \<times> Fs" where
  "temp_create path fs = (case file_create path fs of (r, fs) \<Rightarrow> (res_map_err RE_Io r, fs))"

definition temp_drop :: "string \<Rightarrow> Fs \<Rightarrow> Fs" where
  "temp_drop path fs = snd (file_remove path fs)"

definition temp_commit :: "string \<Rightarrow> string \<Rightarrow> Fs \<Rightarrow> ('s RepeError + unit) \<times> Fs" where
  "temp_commit path final_path fs =
     (case file_rename path final_path fs of
        (Inr _, fs) \<Rightarrow> (Inr (), fs)
      | (Inl err, fs) \<Rightarrow> (Inl (RE_Io err), snd (file_remove path fs)))"

section \<open>Pulling into files and values\<close>

text \<open>
  What a pull needs: the client and the codec, the text of an error, the buffer's size of a copy,
  the decoder over a chunk reader, and \<open>pe_sibling\<close>, the path beside a path that \<^verbatim>\<open>temp_sibling\<close> makes of it.
\<close>

record ('w, 'd, 's) pull_env =
  pe_client :: "('w, 's) svs_client"
  pe_codec :: "'s svs_codec"
  pe_show :: "'s RepeError \<Rightarrow> string"
  pe_bufsize :: nat
  pe_zstd :: "('d, ChunkReader \<times> 'w) zstd_reader"
  pe_sibling :: "string \<Rightarrow> string"

definition env_read :: "('w, 'd, 's) pull_env \<Rightarrow> (ChunkReader \<times> 'w) reader" where
  "env_read env = chunk_read (pe_client env) (pe_codec env) (pe_show env)"

definition env_cancel :: "('w, 'd, 's) pull_env \<Rightarrow> u64 \<Rightarrow> string \<Rightarrow> 'w \<Rightarrow> 'w" where
  "env_cancel env stream_id reason w = snd (cancel_stream (pe_client env) (pe_codec env) stream_id reason w)"

text \<open>Copying the chunks to a file, as they are or decoded.\<close>

definition copy_plain ::
    "('w, 'd, 's) pull_env \<Rightarrow> string \<Rightarrow> (ChunkReader \<times> 'w) \<Rightarrow> Fs
      \<Rightarrow> (('s RepeError + unit) \<times> (ChunkReader \<times> 'w) \<times> Fs) option" where
  "copy_plain env path k fs =
     (case io_copy (env_read env) (file_write_all path) (pe_bufsize env) 0 k fs of
        None \<Rightarrow> None
      | Some (r, k, fs) \<Rightarrow> Some (res_bind (res_map_err RE_Io r) (\<lambda>_. Inr ()), k, fs))"

definition copy_decoded ::
    "('w, 'd, 's) pull_env \<Rightarrow> string \<Rightarrow> (ChunkReader \<times> 'w) \<Rightarrow> Fs
      \<Rightarrow> (('s RepeError + unit) \<times> (ChunkReader \<times> 'w) \<times> Fs) option" where
  "copy_decoded env path k fs =
     (case io_copy (zr_read (pe_zstd env) (env_read env)) (file_write_all path) (pe_bufsize env) 0
             (zr_init (pe_zstd env), k) fs of
        None \<Rightarrow> None
      | Some (r, (_, k), fs) \<Rightarrow> Some (res_bind (res_map_err RE_Io r) (\<lambda>_. Inr ()), k, fs))"

definition write_file ::
    "('w, 'd, 's) pull_env \<Rightarrow> u64 \<Rightarrow> string
      \<Rightarrow> (string \<Rightarrow> (ChunkReader \<times> 'w) \<Rightarrow> Fs \<Rightarrow> (('s RepeError + unit) \<times> (ChunkReader \<times> 'w) \<times> Fs) option)
      \<Rightarrow> 'w \<Rightarrow> Fs \<Rightarrow> (('s RepeError + unit) \<times> 'w \<times> Fs) option" where
  "write_file env stream_id final_path fill w fs =
     (let tmp_path = pe_sibling env final_path in
      case temp_create tmp_path fs of
        (Inl err, fs) \<Rightarrow> Some (Inl err, w, fs)
      | (Inr _, fs) \<Rightarrow>
          (case fill tmp_path (chunk_reader_new stream_id, w) fs of
             None \<Rightarrow> None
           | Some (filled, (reader, w), fs) \<Rightarrow>
               (let (result, fs) =
                  (case filled of
                     Inl err \<Rightarrow> (Inl err, fs)
                   | Inr _ \<Rightarrow>
                       if \<not> cr_last_seen reader
                       then (Inl (RE_Io (IoError K_UnexpectedEof ''svs: stream ended without a final chunk'')), fs)
                       else (case file_flush_sync fs of (r, fs) \<Rightarrow> (res_map_err RE_Io r, fs)))
                in case result of
                     Inr _ \<Rightarrow> (case temp_commit tmp_path final_path fs of (r, fs) \<Rightarrow> Some (r, w, fs))
                   | Inl err \<Rightarrow> Some (Inl err, env_cancel env stream_id ''receiver aborted'' w, temp_drop tmp_path fs))))"

text \<open>\<open>rv\<close> is the BEVE reader of a whole value, over the chunks and over the decoder.\<close>

record ('w, 'd, 's, 'v) value_reader =
  rv_plain :: "(ChunkReader \<times> 'w) reader \<Rightarrow> (ChunkReader \<times> 'w) \<Rightarrow> (('s StreamError + 'v) \<times> (ChunkReader \<times> 'w)) option"
  rv_zstd :: "('d \<times> ChunkReader \<times> 'w) reader \<Rightarrow> ('d \<times> ChunkReader \<times> 'w)
    \<Rightarrow> (('s StreamError + 'v) \<times> ('d \<times> ChunkReader \<times> 'w)) option"

definition read_value ::
    "('w, 'd, 's) pull_env \<Rightarrow> (nat \<Rightarrow> 's) \<Rightarrow> ('w, 'd, 's, 'v) value_reader \<Rightarrow> OpenInfo \<Rightarrow> 'w
      \<Rightarrow> (('s RepeError + 'v) \<times> 'w) option" where
  "read_value env invalid_utf8 rv opened w =
     (let k = (chunk_reader_new (oi_stream_id opened), w) in
      case oi_compression opened of
        Comp_None \<Rightarrow>
          map_option (\<lambda>(r, _, w). (res_map_err (repe_error_decode_stream invalid_utf8 BF_Beve) r, w)) (rv_plain rv (env_read env) k)
      | Comp_Zstd \<Rightarrow>
          map_option (\<lambda>(r, _, _, w). (res_map_err (repe_error_decode_stream invalid_utf8 BF_Beve) r, w))
            (rv_zstd rv (zr_read (pe_zstd env) (env_read env)) (zr_init (pe_zstd env), k)))"

definition pull_stream ::
    "('w, 'd, 's) pull_env \<Rightarrow> (nat \<Rightarrow> 's) \<Rightarrow> ('w, 'd, 's, 'v) value_reader \<Rightarrow> string \<Rightarrow> StreamOutput \<Rightarrow> 'w \<Rightarrow> Fs
      \<Rightarrow> (('s RepeError + 'v option) \<times> 'w \<times> Fs) option" where
  "pull_stream env invalid_utf8 rv resource out w fs =
     (case open_stream (pe_client env) (pe_codec env) resource w of
        (Inl err, w) \<Rightarrow> Some (Inl err, w, fs)
      | (Inr opened, w) \<Rightarrow>
          (case check_output out opened of
             Inl err \<Rightarrow>
               Some (Inl err, env_cancel env (oi_stream_id opened) ''output incompatible with stream tags'' w, fs)
           | Inr _ \<Rightarrow>
               (case out of
                  SO_BeveZstdFile path \<Rightarrow>
                    map_option (\<lambda>(r, w, fs). (res_bind r (\<lambda>_. Inr None), w, fs))
                      (write_file env (oi_stream_id opened) path (copy_plain env) w fs)
                | SO_BeveFile path \<Rightarrow>
                    map_option (\<lambda>(r, w, fs). (res_bind r (\<lambda>_. Inr None), w, fs))
                      (write_file env (oi_stream_id opened) path (copy_decoded env) w fs)
                | SO_Value \<Rightarrow>
                    (case read_value env invalid_utf8 rv opened w of
                       None \<Rightarrow> None
                     | Some (Inl err, w) \<Rightarrow> Some (Inl err, w, fs)
                     | Some (Inr value, w) \<Rightarrow>
                         Some (Inr (Some value), env_cancel env (oi_stream_id opened) ''value fully decoded'' w, fs))
                | SO_RawFile path \<Rightarrow>
                    map_option (\<lambda>(r, w, fs). (res_bind r (\<lambda>_. Inr None), w, fs))
                      (write_file env (oi_stream_id opened) path
                        (case oi_compression opened of Comp_None \<Rightarrow> copy_plain env | Comp_Zstd \<Rightarrow> copy_decoded env) w fs))))"

text \<open>The conveniences; a value output without a value would be a panic, which is \<open>None\<close> too.\<close>

definition pull_value ::
    "('w, 'd, 's) pull_env \<Rightarrow> (nat \<Rightarrow> 's) \<Rightarrow> ('w, 'd, 's, 'v) value_reader \<Rightarrow> string \<Rightarrow> 'w \<Rightarrow> Fs
      \<Rightarrow> (('s RepeError + 'v) \<times> 'w \<times> Fs) option" where
  "pull_value env invalid_utf8 rv resource w fs =
     (case pull_stream env invalid_utf8 rv resource SO_Value w fs of
        None \<Rightarrow> None
      | Some (Inl err, w, fs) \<Rightarrow> Some (Inl err, w, fs)
      | Some (Inr (Some v), w, fs) \<Rightarrow> Some (Inr v, w, fs)
      | Some (Inr None, w, fs) \<Rightarrow> None)"

definition pull_into ::
    "(string \<Rightarrow> StreamOutput) \<Rightarrow> ('w, 'd, 's) pull_env \<Rightarrow> (nat \<Rightarrow> 's) \<Rightarrow> ('w, 'd, 's, unit) value_reader \<Rightarrow> string \<Rightarrow> string
      \<Rightarrow> 'w \<Rightarrow> Fs \<Rightarrow> (('s RepeError + unit) \<times> 'w \<times> Fs) option" where
  "pull_into out env invalid_utf8 rv resource path w fs =
     map_option (\<lambda>(r, w, fs). (res_bind r (\<lambda>_. Inr ()), w, fs)) (pull_stream env invalid_utf8 rv resource (out path) w fs)"

definition pull_to_beve_zst_file where
  "pull_to_beve_zst_file = pull_into SO_BeveZstdFile"

definition pull_to_beve_file where
  "pull_to_beve_file = pull_into SO_BeveFile"

definition pull_to_file where
  "pull_to_file = pull_into SO_RawFile"

text \<open>
  Consuming: the embedder's consumer reads through the decoder or not, and the stream is cancelled
  behind it in any case. A consumer acts on a state of its own besides the reader's.
\<close>

record ('k, 'd, 's, 'a, 'v) consumer =
  cm_plain :: "'k reader \<Rightarrow> 'k \<Rightarrow> 'a \<Rightarrow> (('s RepeError + 'v) \<times> 'k \<times> 'a) option"
  cm_zstd :: "('d \<times> 'k) reader \<Rightarrow> 'd \<times> 'k \<Rightarrow> 'a \<Rightarrow> (('s RepeError + 'v) \<times> ('d \<times> 'k) \<times> 'a) option"

text \<open>The consumer on the reader of a stream, through the decoder when the stream is compressed.\<close>

definition consume_with ::
    "('k, 'd, 's, 'a, 'v) consumer \<Rightarrow> ('d, 'k) zstd_reader \<Rightarrow> Compression \<Rightarrow> 'k reader \<Rightarrow> 'k \<Rightarrow> 'a
      \<Rightarrow> (('s RepeError + 'v) \<times> 'k \<times> 'a) option" where
  "consume_with cm zr compression rd k a =
     (case compression of
        Comp_None \<Rightarrow> cm_plain cm rd k a
      | Comp_Zstd \<Rightarrow> map_option (\<lambda>(r, (_, k), a). (r, k, a)) (cm_zstd cm (zr_read zr rd) (zr_init zr, k) a))"

definition pull_consume ::
    "('w, 'd, 's) pull_env \<Rightarrow> (ChunkReader \<times> 'w, 'd, 's, 'a, 'v) consumer \<Rightarrow> string \<Rightarrow> 'w \<Rightarrow> 'a
      \<Rightarrow> (('s RepeError + 'v) \<times> 'w \<times> 'a) option" where
  "pull_consume env cm resource w a =
     (case open_stream (pe_client env) (pe_codec env) resource w of
        (Inl err, w) \<Rightarrow> Some (Inl err, w, a)
      | (Inr opened, w) \<Rightarrow>
          map_option (\<lambda>(r, (_, w), a). (r, env_cancel env (oi_stream_id opened) ''consume complete'' w, a))
            (consume_with cm (pe_zstd env) (oi_compression opened) (env_read env)
              (chunk_reader_new (oi_stream_id opened), w) a))"

definition collect :: "nat \<Rightarrow> 'k reader \<Rightarrow> 'k \<Rightarrow> 'a \<Rightarrow> (('s RepeError + bytes) \<times> 'k \<times> 'a) option" where
  "collect bufsize rd k a = map_option (\<lambda>(r, k). (res_map_err RE_Io r, k, a)) (read_to_end rd bufsize k)"

definition vec_consumer :: "nat \<Rightarrow> ('k, 'd, 's, 'a, bytes) consumer" where
  "vec_consumer bufsize = \<lparr>cm_plain = collect bufsize, cm_zstd = collect bufsize\<rparr>"

definition pull_to_vec :: "('w, 'd, 's) pull_env \<Rightarrow> string \<Rightarrow> 'w \<Rightarrow> (('s RepeError + bytes) \<times> 'w) option" where
  "pull_to_vec env resource w =
     map_option (\<lambda>(r, w, _). (r, w)) (pull_consume env (vec_consumer (pe_bufsize env)) resource w ())"

text \<open>The bulk decoders: BEVE only, and the stream is released whether or not the decoder used it up.\<close>

definition pull_slice ::
    "string \<Rightarrow> ('w, 'd, 's) pull_env \<Rightarrow> (nat \<Rightarrow> 's) \<Rightarrow> ('w, 'd, 's, 'v) value_reader \<Rightarrow> string \<Rightarrow> 'w
      \<Rightarrow> (('s RepeError + 'v) \<times> 'w) option" where
  "pull_slice reason env invalid_utf8 read_array resource w =
     (case open_stream (pe_client env) (pe_codec env) resource w of
        (Inl err, w) \<Rightarrow> Some (Inl err, w)
      | (Inr opened, w) \<Rightarrow>
          (case require_beve opened of
             Inl err \<Rightarrow> Some (Inl err, env_cancel env (oi_stream_id opened) ''format incompatible with bulk decode'' w)
           | Inr _ \<Rightarrow>
               map_option (\<lambda>(r, w). (r, env_cancel env (oi_stream_id opened) reason w))
                 (read_value env invalid_utf8 read_array opened w)))"

definition pull_typed_slice where
  "pull_typed_slice = pull_slice ''bulk typed slice complete''"

definition pull_complex_slice where
  "pull_complex_slice = pull_slice ''bulk complex slice complete''"

section \<open>Tees and trailers\<close>

text \<open>\<open>digest\<close> is the embedder's writer, by its \<^verbatim>\<open>write_all\<close>.\<close>

definition tee_write ::
    "(bytes \<Rightarrow> 'o \<Rightarrow> (io_error + unit) \<times> 'o) \<Rightarrow> (bytes \<Rightarrow> 'g \<Rightarrow> (io_error + unit) \<times> 'g)
      \<Rightarrow> bytes \<Rightarrow> 'o \<times> 'g \<Rightarrow> (io_error + unit) \<times> 'o \<times> 'g" where
  "tee_write file digest buf og =
     (case og of (out, g) \<Rightarrow>
        (case file buf out of
           (Inl err, out) \<Rightarrow> (Inl err, out, g)
         | (Inr _, out) \<Rightarrow>
             (case digest buf g of
                (Inl err, g) \<Rightarrow> (Inl err, out, g)
              | (Inr _, g) \<Rightarrow> (Inr (), out, g))))"

text \<open>The state of a \<^verbatim>\<open>TrailerHold\<close> is what it holds and its inner writer.\<close>

definition trailer_write ::
    "(bytes \<Rightarrow> 'o \<Rightarrow> (io_error + unit) \<times> 'o) \<Rightarrow> nat \<Rightarrow> bytes \<Rightarrow> bytes \<times> 'o \<Rightarrow> (io_error + unit) \<times> bytes \<times> 'o" where
  "trailer_write inner n buf ho =
     (case ho of (hold, out) \<Rightarrow>
        if length buf \<ge> n
        then (case (if hold \<noteq> [] then inner hold out else (Inr (), out)) of
                (Inl err, out) \<Rightarrow> (Inl err, hold, out)
              | (Inr _, out) \<Rightarrow>
                  (let split = length buf - n in
                   case inner (take split buf) out of
                     (Inl err, out) \<Rightarrow> (Inl err, [], out)
                   | (Inr _, out) \<Rightarrow> (Inr (), drop split buf, out)))
        else (let hold = hold @ buf in
              if length hold > n
              then (let overflow = length hold - n in
                    case inner (take overflow hold) out of
                      (Inl err, out) \<Rightarrow> (Inl err, hold, out)
                    | (Inr _, out) \<Rightarrow> (Inr (), drop overflow hold, out))
              else (Inr (), hold, out)))"

definition into_trailer :: "nat \<Rightarrow> bytes \<Rightarrow> io_error + bytes" where
  "into_trailer n hold =
     (if length hold < n
      then Inl (IoError K_UnexpectedEof (''svs: stream of '' @ dec_str (length hold)
             @ '' logical byte(s) is shorter than the '' @ dec_str n @ ''-byte trailer''))
      else Inr hold)"

section \<open>Consumers that write a file\<close>

text \<open>
  A consumer's temporary file: made first, filled, flushed and synced; dropped again when anything
  of it fails. The state is the file system and the digest's.
\<close>

definition in_temp_file ::
    "string \<Rightarrow> ('k \<Rightarrow> Fs \<times> 'g \<Rightarrow> ((io_error + 'v) \<times> 'k \<times> Fs \<times> 'g) option) \<Rightarrow> 'k \<Rightarrow> Fs \<times> 'g
      \<Rightarrow> (('s RepeError + 'v) \<times> 'k \<times> Fs \<times> 'g) option" where
  "in_temp_file tmp_path fill k a =
     (case temp_create tmp_path (fst a) of
        (Inl err, fs) \<Rightarrow> Some (Inl err, k, fs, snd a)
      | (Inr _, fs) \<Rightarrow>
          (case fill k (fs, snd a) of
             None \<Rightarrow> None
           | Some (Inl err, k, fs, g) \<Rightarrow> Some (Inl (RE_Io err), k, temp_drop tmp_path fs, g)
           | Some (Inr v, k, fs, g) \<Rightarrow>
               (case file_flush_sync fs of
                  (Inl err, fs) \<Rightarrow> Some (Inl (RE_Io err), k, temp_drop tmp_path fs, g)
                | (Inr _, fs) \<Rightarrow> Some (Inr v, k, fs, g))))"

definition file_writer :: "string \<Rightarrow> bytes \<Rightarrow> Fs \<times> 'g \<Rightarrow> (io_error + unit) \<times> Fs \<times> 'g" where
  "file_writer path buf a = (case file_write_all path buf (fst a) of (r, fs) \<Rightarrow> (r, fs, snd a))"

definition file_fill :: "string \<Rightarrow> nat \<Rightarrow> 'k reader \<Rightarrow> 'k \<Rightarrow> Fs \<times> 'g \<Rightarrow> (('s RepeError + nat) \<times> 'k \<times> Fs \<times> 'g) option" where
  "file_fill tmp_path bufsize rd = in_temp_file tmp_path (io_copy rd (file_writer tmp_path) bufsize 0)"

definition verified_fill ::
    "string \<Rightarrow> nat \<Rightarrow> (bytes \<Rightarrow> 'g \<Rightarrow> (io_error + unit) \<times> 'g) \<Rightarrow> 'k reader \<Rightarrow> 'k \<Rightarrow> Fs \<times> 'g
      \<Rightarrow> (('s RepeError + nat) \<times> 'k \<times> Fs \<times> 'g) option" where
  "verified_fill tmp_path bufsize digest rd =
     in_temp_file tmp_path (io_copy rd (tee_write (file_write_all tmp_path) digest) bufsize 0)"

definition trailer_fill ::
    "string \<Rightarrow> nat \<Rightarrow> (bytes \<Rightarrow> 'g \<Rightarrow> (io_error + unit) \<times> 'g) \<Rightarrow> nat \<Rightarrow> 'k reader \<Rightarrow> 'k \<Rightarrow> Fs \<times> 'g
      \<Rightarrow> (('s RepeError + bytes) \<times> 'k \<times> Fs \<times> 'g) option" where
  "trailer_fill tmp_path bufsize digest trailer_len rd =
     in_temp_file tmp_path (\<lambda>k a.
       case io_copy rd (trailer_write (tee_write (file_write_all tmp_path) digest) trailer_len) bufsize 0 k ([], a) of
         None \<Rightarrow> None
       | Some (Inl err, k, _, a) \<Rightarrow> Some (Inl err, k, a)
       | Some (Inr _, k, hold, a) \<Rightarrow> Some (into_trailer trailer_len hold, k, a))"

text \<open>After the pull: the caller's verdict, then the rename, or the temporary file is dropped.\<close>

definition commit_verified :: "'s RepeError + unit \<Rightarrow> string \<Rightarrow> string \<Rightarrow> Fs \<Rightarrow> ('s RepeError + unit) \<times> Fs" where
  "commit_verified verdict tmp_path path fs =
     (case verdict of
        Inl err \<Rightarrow> (Inl err, temp_drop tmp_path fs)
      | Inr _ \<Rightarrow> temp_commit tmp_path path fs)"

definition pull_to_file_trailer_verified ::
    "('w, 'd, 's) pull_env \<Rightarrow> string \<Rightarrow> string \<Rightarrow> nat \<Rightarrow> (bytes \<Rightarrow> 'g \<Rightarrow> (io_error + unit) \<times> 'g) \<Rightarrow> 'g
      \<Rightarrow> ('g \<Rightarrow> bytes \<Rightarrow> 's RepeError + unit) \<Rightarrow> 'w \<Rightarrow> Fs \<Rightarrow> (('s RepeError + unit) \<times> 'w \<times> Fs) option" where
  "pull_to_file_trailer_verified env resource path trailer_len digest g verify w fs =
     (let tmp_path = pe_sibling env path;
          cm = \<lparr>cm_plain = trailer_fill tmp_path (pe_bufsize env) digest trailer_len,
                cm_zstd = trailer_fill tmp_path (pe_bufsize env) digest trailer_len\<rparr>
      in case pull_consume env cm resource w (fs, g) of
           None \<Rightarrow> None
         | Some (Inl err, w, fs, g) \<Rightarrow> Some (Inl err, w, fs)
         | Some (Inr trailer, w, fs, g) \<Rightarrow>
             (case commit_verified (verify g trailer) tmp_path path fs of (r, fs) \<Rightarrow> Some (r, w, fs)))"

section \<open>Asynchronous pulls\<close>

definition ASYNC_PULL_DEPTH :: nat where
  "ASYNC_PULL_DEPTH = 4"

text \<open>
  The pull loop feeds the consumer through a bounded channel. The requests are the same in whatever order the
  two run, so the loop runs when the consumer wants a chunk: the reader's state holds how the loop ended,
  once it has. After the consumer the loop goes on by itself; \<open>lag\<close> chunks still find the channel open.
\<close>

record 's ChannelReader =
  ch_stream_id :: u64
  ch_buf :: bytes
  ch_pos :: nat
  ch_pull :: "('s RepeError + unit) option"

definition channel_reader_new :: "u64 \<Rightarrow> 's ChannelReader" where
  "channel_reader_new stream_id = \<lparr>ch_stream_id = stream_id, ch_buf = [], ch_pos = 0, ch_pull = None\<rparr>"

definition next_request ::
    "('w, 's) svs_client \<Rightarrow> 's svs_codec \<Rightarrow> u64 \<Rightarrow> 'w \<Rightarrow> ('s RepeError + bytes \<times> bool) \<times> 'w" where
  "next_request c sc stream_id w =
     (case vc_call c ROUTE_NEXT (query_format_u16 QF_JsonPointer) (Some (sc_next sc stream_id)) (body_format_u16 BF_Beve) w of
        (Inl err, w) \<Rightarrow> (Inl err, w)
      | (Inr resp, w) \<Rightarrow> (Inr (m_body resp, case m_query resp of q # _ \<Rightarrow> q = 1 | [] \<Rightarrow> False), w))"

partial_function (option) channel_read ::
    "('w, 's) svs_client \<Rightarrow> 's svs_codec \<Rightarrow> nat \<Rightarrow> 's ChannelReader \<times> 'w
      \<Rightarrow> ((io_error + bytes) \<times> 's ChannelReader \<times> 'w) option" where
  "channel_read c sc out_len k =
     (let r = fst k in
      if ch_pos r < length (ch_buf r)
      then let n = min out_len (length (ch_buf r) - ch_pos r)
           in Some (Inr (take n (drop (ch_pos r) (ch_buf r))), r\<lparr>ch_pos := ch_pos r + n\<rparr>, snd k)
      else if ch_pull r \<noteq> None then Some (Inr [], k)
      else (case next_request c sc (ch_stream_id r) (snd k) of
              (Inl err, w) \<Rightarrow> channel_read c sc out_len (r\<lparr>ch_pull := Some (Inl err)\<rparr>, w)
            | (Inr (body, is_last), w) \<Rightarrow>
                (let r = (if body \<noteq> [] then r\<lparr>ch_buf := body, ch_pos := 0\<rparr> else r);
                     r = (if is_last then r\<lparr>ch_pull := Some (Inr ())\<rparr> else r)
                 in channel_read c sc out_len (r, w))))"

partial_function (option) pull_rest ::
    "('w, 's) svs_client \<Rightarrow> 's svs_codec \<Rightarrow> u64 \<Rightarrow> nat \<Rightarrow> 'w \<Rightarrow> (('s RepeError + unit) \<times> 'w) option" where
  "pull_rest c sc stream_id lag w =
     (case next_request c sc stream_id w of
        (Inl err, w) \<Rightarrow> Some (Inl err, w)
      | (Inr (body, is_last), w) \<Rightarrow>
          if body \<noteq> [] \<and> lag = 0 then Some (Inr (), w)
          else if is_last then Some (Inr (), w)
          else pull_rest c sc stream_id (if body \<noteq> [] then lag - 1 else lag) w)"

text \<open>
  The asynchronous environment has the decoder over the channel. \<open>ae_join_error\<close> is the text of a blocking
  task that failed in the end; \<open>discard\<close> drops what the consumer made.
\<close>

record ('w, 'd, 's) async_env =
  ae_client :: "('w, 's) svs_client"
  ae_codec :: "'s svs_codec"
  ae_bufsize :: nat
  ae_zstd :: "('d, 's ChannelReader \<times> 'w) zstd_reader"
  ae_sibling :: "string \<Rightarrow> string"
  ae_lag :: nat
  ae_join_error :: "string option"

definition run_pull ::
    "('w, 'd, 's) async_env \<Rightarrow> OpenInfo \<Rightarrow> ('s ChannelReader \<times> 'w, 'd, 's, 'a, 'v) consumer \<Rightarrow> ('a \<Rightarrow> 'a) \<Rightarrow> 'w \<Rightarrow> 'a
      \<Rightarrow> (('s RepeError + 'v) \<times> 'w \<times> 'a) option" where
  "run_pull env opened cm discard w a =
     (case consume_with cm (ae_zstd env) (oi_compression opened) (channel_read (ae_client env) (ae_codec env))
             (channel_reader_new (oi_stream_id opened), w) a of
        None \<Rightarrow> None
      | Some (consume_res, (r, w), a) \<Rightarrow>
          (case (case ch_pull r of
                   Some pulled \<Rightarrow> Some (pulled, w)
                 | None \<Rightarrow> pull_rest (ae_client env) (ae_codec env) (oi_stream_id opened) (ae_lag env) w) of
             None \<Rightarrow> None
           | Some (pull_res, w) \<Rightarrow>
               (let w = snd (cancel_stream (ae_client env) (ae_codec env) (oi_stream_id opened) ''pull complete'' w);
                    dropped = (case consume_res of Inr _ \<Rightarrow> discard a | Inl _ \<Rightarrow> a)
                in case pull_res of
                     Inl err \<Rightarrow> Some (Inl err, w, dropped)
                   | Inr _ \<Rightarrow>
                       (case ae_join_error env of
                          Some join_err \<Rightarrow>
                            Some (Inl (RE_Io (IoError K_Other (''svs consume task failed: '' @ join_err))), w, dropped)
                        | None \<Rightarrow> Some (consume_res, w, a)))))"

definition pull_consume_async ::
    "('w, 'd, 's) async_env \<Rightarrow> string \<Rightarrow> ('s ChannelReader \<times> 'w, 'd, 's, 'a, 'v) consumer \<Rightarrow> ('a \<Rightarrow> 'a) \<Rightarrow> 'w \<Rightarrow> 'a
      \<Rightarrow> (('s RepeError + 'v) \<times> 'w \<times> 'a) option" where
  "pull_consume_async env resource cm discard w a =
     (case open_stream (ae_client env) (ae_codec env) resource w of
        (Inl err, w) \<Rightarrow> Some (Inl err, w, a)
      | (Inr opened, w) \<Rightarrow> run_pull env opened cm discard w a)"

definition pull_beve_async ::
    "('w, 'd, 's) async_env \<Rightarrow> string \<Rightarrow> ('s ChannelReader \<times> 'w, 'd, 's, unit, 'v) consumer \<Rightarrow> 'w
      \<Rightarrow> (('s RepeError + 'v) \<times> 'w) option" where
  "pull_beve_async env resource decode w =
     (case open_stream (ae_client env) (ae_codec env) resource w of
        (Inl err, w) \<Rightarrow> Some (Inl err, w)
      | (Inr opened, w) \<Rightarrow>
          (case require_beve opened of
             Inl err \<Rightarrow>
               Some (Inl err, snd (cancel_stream (ae_client env) (ae_codec env) (oi_stream_id opened) ''format incompatible'' w))
           | Inr _ \<Rightarrow> map_option (\<lambda>(r, w, _). (r, w)) (run_pull env opened decode (\<lambda>a. a) w ())))"

definition pull_to_vec_async :: "('w, 'd, 's) async_env \<Rightarrow> string \<Rightarrow> 'w \<Rightarrow> (('s RepeError + bytes) \<times> 'w) option" where
  "pull_to_vec_async env resource w =
     map_option (\<lambda>(r, w, _). (r, w)) (pull_consume_async env resource (vec_consumer (ae_bufsize env)) (\<lambda>a. a) w ())"

definition drop_temp :: "string \<Rightarrow> Fs \<times> 'g \<Rightarrow> Fs \<times> 'g" where
  "drop_temp tmp_path a = (temp_drop tmp_path (fst a), snd a)"

definition pull_to_file_async ::
    "('w, 'd, 's) async_env \<Rightarrow> string \<Rightarrow> string \<Rightarrow> 'w \<Rightarrow> Fs \<Rightarrow> (('s RepeError + nat) \<times> 'w \<times> Fs) option" where
  "pull_to_file_async env resource path w fs =
     (let tmp_path = ae_sibling env path;
          cm = \<lparr>cm_plain = file_fill tmp_path (ae_bufsize env), cm_zstd = file_fill tmp_path (ae_bufsize env)\<rparr>
      in case pull_consume_async env resource cm (drop_temp tmp_path) w (fs, ()) of
           None \<Rightarrow> None
         | Some (Inl err, w, fs, _) \<Rightarrow> Some (Inl err, w, fs)
         | Some (Inr count, w, fs, _) \<Rightarrow>
             (case temp_commit tmp_path path fs of (r, fs) \<Rightarrow> Some (res_bind r (\<lambda>_. Inr count), w, fs)))"

definition pull_to_file_verified_async ::
    "('w, 'd, 's) async_env \<Rightarrow> string \<Rightarrow> string \<Rightarrow> (bytes \<Rightarrow> 'g \<Rightarrow> (io_error + unit) \<times> 'g) \<Rightarrow> 'g
      \<Rightarrow> ('g \<Rightarrow> 's RepeError + unit) \<Rightarrow> 'w \<Rightarrow> Fs \<Rightarrow> (('s RepeError + unit) \<times> 'w \<times> Fs) option" where
  "pull_to_file_verified_async env resource path digest g verify w fs =
     (let tmp_path = ae_sibling env path;
          cm = \<lparr>cm_plain = verified_fill tmp_path (ae_bufsize env) digest,
                cm_zstd = verified_fill tmp_path (ae_bufsize env) digest\<rparr>
      in case pull_consume_async env resource cm (drop_temp tmp_path) w (fs, g) of
           None \<Rightarrow> None
         | Some (Inl err, w, fs, _) \<Rightarrow> Some (Inl err, w, fs)
         | Some (Inr _, w, fs, g) \<Rightarrow>
             (case commit_verified (verify g) tmp_path path fs of (r, fs) \<Rightarrow> Some (r, w, fs)))"

definition pull_to_file_trailer_verified_async ::
    "('w, 'd, 's) async_env \<Rightarrow> string \<Rightarrow> string \<Rightarrow> nat \<Rightarrow> (bytes \<Rightarrow> 'g \<Rightarrow> (io_error + unit) \<times> 'g) \<Rightarrow> 'g
      \<Rightarrow> ('g \<Rightarrow> bytes \<Rightarrow> 's RepeError + unit) \<Rightarrow> 'w \<Rightarrow> Fs \<Rightarrow> (('s RepeError + unit) \<times> 'w \<times> Fs) option" where
  "pull_to_file_trailer_verified_async env resource path trailer_len digest g verify w fs =
     (let tmp_path = ae_sibling env path;
          cm = \<lparr>cm_plain = trailer_fill tmp_path (ae_bufsize env) digest trailer_len,
                cm_zstd = trailer_fill tmp_path (ae_bufsize env) digest trailer_len\<rparr>
      in case pull_consume_async env resource cm (drop_temp tmp_path) w (fs, g) of
           None \<Rightarrow> None
         | Some (Inl err, w, fs, _) \<Rightarrow> Some (Inl err, w, fs)
         | Some (Inr trailer, w, fs, g) \<Rightarrow>
             (case commit_verified (verify g trailer) tmp_path path fs of (r, fs) \<Rightarrow> Some (r, w, fs)))"

end
