(* ===== verification/Value_Transfer.thy ===== *)
theory Value_Transfer
  imports Value_Pull
begin

text \<open>
  What a pull of a streamed value promises: a file appears under its final name complete or not at
  all, whatever fails on the way; a trailer is exactly the last bytes of the stream, however it was cut
  into chunks; and a client pulling from a producing server receives the bytes the producer wrote.
\<close>

section \<open>Copying a reader to its end\<close>

inductive reads :: "'k reader \<Rightarrow> nat \<Rightarrow> 'k \<Rightarrow> bytes list \<Rightarrow> 'k \<Rightarrow> bool" for rd b where
  reads_end: "rd b k = Some (Inr [], k') \<Longrightarrow> reads rd b k [] k'"
| reads_interrupted: "rd b k = Some (Inl err, k1) \<Longrightarrow> io_error_kind err = K_Interrupted \<Longrightarrow> reads rd b k1 bss k2
    \<Longrightarrow> reads rd b k bss k2"
| reads_more: "rd b k = Some (Inr bs, k1) \<Longrightarrow> bs \<noteq> [] \<Longrightarrow> reads rd b k1 bss k2 \<Longrightarrow> reads rd b k (bs # bss) k2"

lemma reads_same_start:
  assumes "reads rd b k1 bss k'" and "rd b k = rd b k1"
  shows "reads rd b k bss k'"
  using assms(1)
proof cases
  case reads_end
  with reads.reads_end [of rd b k k'] assms(2) show ?thesis by simp
next
  case (reads_interrupted err k2)
  with reads.reads_interrupted [of rd b k err k2 bss k'] assms(2) show ?thesis by simp
next
  case (reads_more bs k2 bss')
  with reads.reads_more [of rd b k bs k2 bss' k'] assms(2) show ?thesis by simp
qed

primrec write_each :: "(bytes \<Rightarrow> 'o \<Rightarrow> (io_error + unit) \<times> 'o) \<Rightarrow> bytes list \<Rightarrow> 'o \<Rightarrow> (io_error + unit) \<times> 'o" where
  "write_each wr [] out = (Inr (), out)"
| "write_each wr (bs # bss) out =
     (case wr bs out of (Inl err, out) \<Rightarrow> (Inl err, out) | (Inr _, out) \<Rightarrow> write_each wr bss out)"

lemma io_copy_complete:
  assumes "reads rd b k bss k'" and "write_each wr bss out = (Inr (), out')"
  shows "io_copy rd wr b n k out = Some (Inr (n + length (concat bss)), k', out')"
  using assms
proof (induction arbitrary: out n)
  case (reads_end k k')
  then show ?case by (simp add: io_copy.simps)
next
  case (reads_interrupted k err k1 bss k2)
  then show ?case by (subst io_copy.simps) simp
next
  case (reads_more k bs k1 bss k2)
  then obtain o1 where "wr bs out = (Inr (), o1)" "write_each wr bss o1 = (Inr (), out')"
    by (auto split: prod.splits sum.splits)
  with reads_more show ?case by (subst io_copy.simps) (simp add: add.assoc)
qed

definition copied :: "'k reader \<Rightarrow> (bytes \<Rightarrow> 'o \<Rightarrow> (io_error + unit) \<times> 'o) \<Rightarrow> nat \<Rightarrow> nat \<Rightarrow> 'k \<Rightarrow> 'o
    \<Rightarrow> (io_error + nat) \<times> 'k \<times> 'o \<Rightarrow> bool" where
  "copied rd wr b n k out r \<longleftrightarrow>
     (\<forall>m k' out'. r = (Inr m, k', out') \<longrightarrow>
       (\<exists>bss. reads rd b k bss k' \<and> write_each wr bss out = (Inr (), out') \<and> m = n + length (concat bss)))"

lemma copied_more:
  assumes "rd b k = Some (Inr bs, k1)" and "bs \<noteq> []" and "wr bs out = (Inr u, o1)"
    and "copied rd wr b (n + length bs) k1 o1 r"
  shows "copied rd wr b n k out r"
  unfolding copied_def
proof (intro allI impI)
  fix m k' out' assume "r = (Inr m, k', out')"
  with assms(4) obtain bss where "reads rd b k1 bss k'" "write_each wr bss o1 = (Inr (), out')"
    "m = n + length bs + length (concat bss)" unfolding copied_def by blast
  with assms(1-3) show "\<exists>bss. reads rd b k bss k' \<and> write_each wr bss out = (Inr (), out') \<and> m = n + length (concat bss)"
    by (intro exI [of _ "bs # bss"]) (auto intro: reads_more)
qed

lemma copied_interrupted:
  assumes "rd b k = Some (Inl err, k1)" and "io_error_kind err = K_Interrupted" and "copied rd wr b n k1 out r"
  shows "copied rd wr b n k out r"
  using assms(3) reads_interrupted [of rd b k err k1] assms(1,2) unfolding copied_def by blast

lemma copied_step:
  assumes IH: "\<And>n k out r. go rd wr b n k out = Some r \<Longrightarrow> copied rd wr b n k out r"
    and r: "(case rd b k of
        None \<Rightarrow> None
      | Some (Inl err, k) \<Rightarrow> if io_error_kind err = K_Interrupted then go rd wr b n k out else Some (Inl err, k, out)
      | Some (Inr bs, k) \<Rightarrow>
          if bs = [] then Some (Inr n, k, out)
          else (case wr bs out of
                  (Inl err, out) \<Rightarrow> Some (Inl err, k, out)
                | (Inr _, out) \<Rightarrow> go rd wr b (n + length bs) k out)) = Some r"
  shows "copied rd wr b n k out r"
proof -
  obtain x k1 where y: "rd b k = Some (x, k1)" using r by (cases "rd b k") auto
  show ?thesis
  proof (cases x)
    case (Inl err)
    show ?thesis
    proof (cases "io_error_kind err = K_Interrupted")
      case True
      have "go rd wr b n k1 out = Some r" using r True by (simp add: y Inl)
      then have "copied rd wr b n k1 out r" by (rule IH)
      then show ?thesis using copied_interrupted [of rd b k err k1] y Inl True by simp
    next
      case False
      have "r = (Inl err, k1, out)" using r False by (simp add: y Inl)
      then show ?thesis by (simp add: copied_def)
    qed
  next
    case (Inr bs)
    show ?thesis
    proof (cases "bs = []")
      case True
      have "r = (Inr n, k1, out)" using r True by (simp add: y Inr)
      then show ?thesis using reads_end [of rd b k k1] y Inr True by (auto simp: copied_def intro!: exI [of _ "[]"])
    next
      case False
      obtain z o1 where z: "wr bs out = (z, o1)" by fastforce
      show ?thesis
      proof (cases z)
        case (Inl err)
        have "r = (Inl err, k1, o1)" using r False by (simp add: y \<open>x = Inr bs\<close> z Inl)
        then show ?thesis by (simp add: copied_def)
      next
        case (Inr u)
        have "go rd wr b (n + length bs) k1 o1 = Some r" using r False by (simp add: y \<open>x = Inr bs\<close> z Inr)
        then have "copied rd wr b (n + length bs) k1 o1 r" by (rule IH)
        then show ?thesis using copied_more [of rd b k bs k1 wr out u o1] y False \<open>x = Inr bs\<close> z Inr by simp
      qed
    qed
  qed
qed

lemma io_copy_done:
  assumes "io_copy rd wr b n k out = Some (Inr m, k', out')"
  shows "\<exists>bss. reads rd b k bss k' \<and> write_each wr bss out = (Inr (), out') \<and> m = n + length (concat bss)"
proof -
  have "copied rd wr b n k out (Inr m, k', out')"
  proof (rule io_copy.raw_induct [of copied, OF _ assms])
    fix go :: "'k reader \<Rightarrow> _ \<Rightarrow> nat \<Rightarrow> nat \<Rightarrow> 'k \<Rightarrow> 'o \<Rightarrow> _" and rd wr b n k out r
    assume "\<And>rd wr b n k out r. go rd wr b n k out = Some r \<Longrightarrow> copied rd wr b n k out r"
    then show "(case rd b k of
        None \<Rightarrow> None
      | Some (Inl err, k) \<Rightarrow> if io_error_kind err = K_Interrupted then go rd wr b n k out else Some (Inl err, k, out)
      | Some (Inr bs, k) \<Rightarrow>
          if bs = [] then Some (Inr n, k, out)
          else (case wr bs out of
                  (Inl err, out) \<Rightarrow> Some (Inl err, k, out)
                | (Inr _, out) \<Rightarrow> go rd wr b (n + length bs) k out)) = Some r \<Longrightarrow> copied rd wr b n k out r"
      by (rule copied_step [of go rd wr b])
  qed
  then show ?thesis by (simp add: copied_def)
qed

section \<open>Readers over chunks\<close>

text \<open>The chunks that successive \<^verbatim>\<open>next\<close> requests bring, and whether the last of them was marked so.\<close>

inductive fetches :: "('w, 's) svs_client \<Rightarrow> 's svs_codec \<Rightarrow> u64 \<Rightarrow> bool \<Rightarrow> 'w \<Rightarrow> bytes list \<Rightarrow> bool \<Rightarrow> 'w \<Rightarrow> bool"
  for c sc stream_id where
  fetches_none: "fetches c sc stream_id fin w [] fin w"
| fetches_more: "next_request c sc stream_id w = (Inr (body, is_last), w1) \<Longrightarrow> fetches c sc stream_id is_last w1 cs fin w2
    \<Longrightarrow> fetches c sc stream_id False w (body # cs) fin w2"

lemma fetches_trans:
  "fetches c sc stream_id f w cs f1 w1 \<Longrightarrow> fetches c sc stream_id f1 w1 cs' f2 w2
    \<Longrightarrow> fetches c sc stream_id f w (cs @ cs') f2 w2"
  by (induction rule: fetches.induct) (auto intro: fetches_more)

text \<open>
  What a pull relies on in a reader over chunks: \<open>pending\<close> are the bytes it holds, \<open>got\<close> the chunks
  fetched between two states, \<open>ended\<close> that the last chunk has come; \<open>sound\<close> that no request failed silently.
\<close>

locale chunk_source =
  fixes rd :: "'k reader" and pending :: "'k \<Rightarrow> bytes" and ended sound :: "'k \<Rightarrow> bool"
    and got :: "'k \<Rightarrow> bytes list \<Rightarrow> 'k \<Rightarrow> bool"
  assumes read_got: "rd b k = Some (Inr bs, k') \<Longrightarrow> 0 < b \<Longrightarrow> sound k' \<Longrightarrow>
      \<exists>cs. got k cs k' \<and> pending k @ concat cs = bs @ pending k' \<and> (bs = [] \<longrightarrow> ended k' \<and> pending k' = [])"
    and read_sound: "rd b k = Some (x, k') \<Longrightarrow> sound k' \<Longrightarrow> sound k"
    and not_interrupted: "rd b k = Some (Inl err, k') \<Longrightarrow> io_error_kind err \<noteq> K_Interrupted"
    and got_trans: "got k cs k1 \<Longrightarrow> got k1 cs' k2 \<Longrightarrow> got k (cs @ cs') k2"
begin

lemma reads_got:
  assumes "reads rd b k bss k'" and "0 < b" and "sound k'"
  shows "sound k \<and> (\<exists>cs. got k cs k' \<and> pending k @ concat cs = concat bss \<and> ended k')"
  using assms
proof induction
  case (reads_end k k')
  from read_got [of b k "[]" k'] read_sound [of b k "Inr []" k'] reads_end show ?case by auto
next
  case (reads_interrupted k err k1 bss k2)
  with not_interrupted [of b k err k1] show ?case by blast
next
  case (reads_more k bs k1 bss k2)
  then obtain cs where cs: "sound k1" "got k1 cs k2" "pending k1 @ concat cs = concat bss" "ended k2" by blast
  from read_got [of b k bs k1] reads_more.hyps(1) reads_more.prems(1) cs(1)
  obtain cs1 where cs1: "got k cs1 k1" "pending k @ concat cs1 = bs @ pending k1" by blast
  have "pending k @ concat (cs1 @ cs) = (pending k @ concat cs1) @ concat cs" by simp
  then have "pending k @ concat (cs1 @ cs) = concat (bs # bss)" using cs(3) by (simp only: cs1(2)) simp
  moreover have "got k (cs1 @ cs) k2" by (rule got_trans [OF cs1(1) cs(2)])
  moreover have "sound k" by (rule read_sound [of b k "Inr bs" k1, OF reads_more.hyps(1) cs(1)])
  ultimately show ?case using cs(4) by blast
qed

end

text \<open>The other way round: a reader at hand, and how far it gets. \<open>holds\<close> is the reader's view of a state.\<close>

locale chunk_supply =
  fixes rd :: "'k reader" and c :: "('w, 's) svs_client" and sc :: "'s svs_codec" and stream_id :: u64
    and holds :: "'k \<Rightarrow> bool \<Rightarrow> bytes \<Rightarrow> 'w \<Rightarrow> bool"
  assumes read_pending: "holds k fin p w \<Longrightarrow> p \<noteq> [] \<Longrightarrow> \<exists>k'. rd b k = Some (Inr (take b p), k') \<and> holds k' fin (drop b p) w"
    and read_ended: "holds k True [] w \<Longrightarrow> rd b k = Some (Inr [], k)"
    and read_fetch: "holds k False [] w \<Longrightarrow> next_request c sc stream_id w = (Inr (body, is_last), w1)
      \<Longrightarrow> \<exists>k1. holds k1 is_last body w1 \<and> rd b k = rd b k1"
begin

lemma reads_pending:
  assumes "holds k fin p w" and "0 < b" and "\<And>k. holds k fin [] w \<Longrightarrow> \<exists>bss k'. reads rd b k bss k' \<and> concat bss = rest \<and> Q k'"
  shows "\<exists>bss k'. reads rd b k bss k' \<and> concat bss = p @ rest \<and> Q k'"
  using assms(1)
proof (induction "length p" arbitrary: p k rule: less_induct)
  case less
  show ?case
  proof (cases "p = []")
    case True
    with less.prems assms(3) [of k] show ?thesis by simp
  next
    case False
    from read_pending [OF less.prems False, of b] obtain k1 where
      k1: "rd b k = Some (Inr (take b p), k1)" "holds k1 fin (drop b p) w" by blast
    have "length (drop b p) < length p" using False assms(2) by simp
    from less.hyps [OF this k1(2)] obtain bss k' where
      "reads rd b k1 bss k'" "concat bss = drop b p @ rest" "Q k'" by blast
    with reads_more [of rd b k "take b p" k1 bss k'] k1(1) False assms(2) show ?thesis
      by (intro exI [of _ "take b p # bss"] exI [of _ k']) (simp add: append_assoc [symmetric] del: append_assoc)
  qed
qed

lemma reads_all:
  assumes "fetches c sc stream_id fin w cs fin' w'" and "fin'" and "holds k fin p w" and "0 < b"
  shows "\<exists>bss k'. reads rd b k bss k' \<and> concat bss = p @ concat cs \<and> holds k' True [] w'"
  using assms
proof (induction arbitrary: k p)
  case (fetches_none fin w)
  have "\<exists>bss k'. reads rd b k bss k' \<and> concat bss = [] \<and> holds k' True [] w" if "holds k fin [] w" for k
    using reads_end [of rd b k k] read_ended [of k w b] that fetches_none.prems(1)
    by (intro exI [of _ "[]"] exI [of _ k]) simp
  from reads_pending [OF fetches_none.prems(2) assms(4) this] show ?case by simp
next
  case (fetches_more w body is_last w1 cs fin w2)
  have "\<exists>bss k'. reads rd b k bss k' \<and> concat bss = body @ concat cs \<and> holds k' True [] w2" if k: "holds k False [] w" for k
  proof -
    from read_fetch [OF k fetches_more.hyps(1), of b] obtain k1 where k1: "holds k1 is_last body w1" "rd b k = rd b k1" by blast
    from fetches_more.IH [OF fetches_more.prems(1) k1(1) assms(4)] obtain bss k' where
      r: "reads rd b k1 bss k'" "concat bss = body @ concat cs" "holds k' True [] w2" by blast
    have "reads rd b k bss k'" by (rule reads_same_start [OF r(1) k1(2)])
    with r show ?thesis by blast
  qed
  from reads_pending [OF fetches_more.prems(2) assms(4) this] show ?case by simp
qed

end

subsection \<open>The blocking reader\<close>

definition chunk_pending :: "ChunkReader \<times> 'w \<Rightarrow> bytes" where
  "chunk_pending k = drop (cr_pos (fst k)) (cr_buf (fst k))"

definition chunk_ended :: "ChunkReader \<times> 'w \<Rightarrow> bool" where
  "chunk_ended k \<longleftrightarrow> cr_finished (fst k) \<and> cr_last_seen (fst k)"

definition chunk_got ::
    "('w, 's) svs_client \<Rightarrow> 's svs_codec \<Rightarrow> ChunkReader \<times> 'w \<Rightarrow> bytes list \<Rightarrow> ChunkReader \<times> 'w \<Rightarrow> bool" where
  "chunk_got c sc k cs k' \<longleftrightarrow>
     cr_stream_id (fst k') = cr_stream_id (fst k)
     \<and> (cr_last_seen (fst k) = cr_finished (fst k) \<longrightarrow>
          cr_last_seen (fst k') = cr_finished (fst k')
          \<and> fetches c sc (cr_stream_id (fst k)) (cr_finished (fst k)) (snd k) cs (cr_finished (fst k')) (snd k'))"

lemma chunk_got_trans: "chunk_got c sc k cs k1 \<Longrightarrow> chunk_got c sc k1 cs' k2 \<Longrightarrow> chunk_got c sc k (cs @ cs') k2"
  unfolding chunk_got_def using fetches_trans by metis

lemma chunk_fetch_next:
  "chunk_fetch c sc show_err (r, w) =
     (case next_request c sc (cr_stream_id r) w of
        (Inl err, w) \<Rightarrow> (Inl (IoError K_Other (show_err err)), r, w)
      | (Inr (body, is_last), w) \<Rightarrow>
          (Inr (), r\<lparr>cr_buf := body, cr_pos := 0, cr_last_seen := is_last \<or> cr_last_seen r,
                     cr_finished := is_last \<or> cr_finished r\<rparr>, w))"
  by (auto simp: chunk_fetch_def next_request_def Let_def split: prod.split sum.split)

text \<open>What one call of the reader does.\<close>

definition chunk_read_ok :: "('w, 's) svs_client \<Rightarrow> 's svs_codec \<Rightarrow> nat \<Rightarrow> ChunkReader \<times> 'w
    \<Rightarrow> (io_error + bytes) \<times> ChunkReader \<times> 'w \<Rightarrow> bool" where
  "chunk_read_ok c sc b k res \<longleftrightarrow>
     (\<forall>err k'. res = (Inl err, k') \<longrightarrow> io_error_kind err = K_Other)
     \<and> (\<forall>bs k'. res = (Inr bs, k') \<longrightarrow> 0 < b \<longrightarrow>
          (\<exists>cs. chunk_got c sc k cs k' \<and> chunk_pending k @ concat cs = bs @ chunk_pending k'
                \<and> (bs = [] \<longrightarrow> cr_finished (fst k') \<and> chunk_pending k' = [])))"

lemma chunk_read_ok_pending:
  assumes "cr_pos r < length (cr_buf r)" and "n = min b (length (cr_buf r) - cr_pos r)"
  shows "chunk_read_ok c sc b (r, w) (Inr (take n (drop (cr_pos r) (cr_buf r))), r\<lparr>cr_pos := cr_pos r + n\<rparr>, w)"
proof -
  have "take n (drop (cr_pos r) (cr_buf r)) @ drop (cr_pos r + n) (cr_buf r) = drop (cr_pos r) (cr_buf r)"
    by (metis add.commute append_take_drop_id drop_drop)
  then show ?thesis using assms
    by (auto simp: chunk_read_ok_def chunk_got_def chunk_pending_def intro!: exI [of _ "[]"] fetches_none)
qed

lemma chunk_read_ok_end:
  assumes "\<not> cr_pos r < length (cr_buf r)" and "cr_finished r"
  shows "chunk_read_ok c sc b (r, w) (Inr [], r, w)"
  using assms by (auto simp: chunk_read_ok_def chunk_got_def chunk_pending_def intro!: exI [of _ "[]"] fetches_none)

lemma chunk_read_ok_fetch:
  assumes "\<not> cr_pos r < length (cr_buf r)" and "\<not> cr_finished r"
    and "next_request c sc (cr_stream_id r) w = (Inr (body, is_last), w1)"
    and "r1 = r\<lparr>cr_buf := body, cr_pos := 0, cr_last_seen := is_last \<or> cr_last_seen r, cr_finished := is_last \<or> cr_finished r\<rparr>"
    and "chunk_read_ok c sc b (r1, w1) res"
  shows "chunk_read_ok c sc b (r, w) res"
  unfolding chunk_read_ok_def
proof (intro conjI allI impI)
  fix err k' assume "res = (Inl err, k')"
  with assms(5) show "io_error_kind err = K_Other" by (simp add: chunk_read_ok_def)
next
  fix bs k' assume "res = (Inr bs, k')" and "0 < b"
  with assms(5) obtain cs where cs: "chunk_got c sc (r1, w1) cs k'" "chunk_pending (r1, w1) @ concat cs = bs @ chunk_pending k'"
    "bs = [] \<longrightarrow> cr_finished (fst k') \<and> chunk_pending k' = []" unfolding chunk_read_ok_def by blast
  have "chunk_got c sc (r, w) (body # cs) k'"
    using cs(1) assms(2,3,4) fetches_more [of c sc "cr_stream_id r" w body is_last w1 cs] by (auto simp: chunk_got_def)
  moreover have "chunk_pending (r, w) @ concat (body # cs) = bs @ chunk_pending k'"
    using cs(2) assms(1,4) by (simp add: chunk_pending_def)
  ultimately show "\<exists>cs. chunk_got c sc (r, w) cs k' \<and> chunk_pending (r, w) @ concat cs = bs @ chunk_pending k'
      \<and> (bs = [] \<longrightarrow> cr_finished (fst k') \<and> chunk_pending k' = [])" using cs(3) by blast
qed

lemma chunk_read_done:
  assumes "chunk_read c sc show_err b k = Some res"
  shows "chunk_read_ok c sc b k res"
proof (rule chunk_read.raw_induct [of "\<lambda>c sc show_err b k. chunk_read_ok c sc b k", OF _ assms])
  fix go :: "('w, 's) svs_client \<Rightarrow> 's svs_codec \<Rightarrow> ('s RepeError \<Rightarrow> string) \<Rightarrow> nat \<Rightarrow> ChunkReader \<times> 'w \<Rightarrow> _"
    and c sc show_err b k res
  assume IH: "\<And>c sc show_err b k res. go c sc show_err b k = Some res \<Longrightarrow> chunk_read_ok c sc b k res"
    and body: "(let r = fst k in
      if cr_pos r < length (cr_buf r)
      then let n = min b (length (cr_buf r) - cr_pos r)
           in Some (Inr (take n (drop (cr_pos r) (cr_buf r))), r\<lparr>cr_pos := cr_pos r + n\<rparr>, snd k)
      else if cr_finished r then Some (Inr [], k)
      else (case chunk_fetch c sc show_err k of
              (Inl err, k) \<Rightarrow> Some (Inl err, k)
            | (Inr _, k) \<Rightarrow> go c sc show_err b k)) = Some res"
  obtain r w where k: "k = (r, w)" by fastforce
  consider "cr_pos r < length (cr_buf r)" | "\<not> cr_pos r < length (cr_buf r)" "cr_finished r"
    | "\<not> cr_pos r < length (cr_buf r)" "\<not> cr_finished r" by blast
  then show "chunk_read_ok c sc b k res"
  proof cases
    case 1
    with body k chunk_read_ok_pending [OF 1 refl, of c sc b w] show ?thesis by (auto simp: Let_def)
  next
    case 2
    with body k chunk_read_ok_end [OF 2, of c sc b w] show ?thesis by simp
  next
    case 3
    show ?thesis
    proof (cases "next_request c sc (cr_stream_id r) w")
      case (Pair x w1)
      show ?thesis
      proof (cases x)
        case (Inl err)
        with body 3 k Pair show ?thesis by (auto simp: chunk_fetch_next chunk_read_ok_def)
      next
        case (Inr y)
        obtain bd l where y: "y = (bd, l)" by fastforce
        with body 3 k Pair Inr have "go c sc show_err b
            (r\<lparr>cr_buf := bd, cr_pos := 0, cr_last_seen := l \<or> cr_last_seen r, cr_finished := l \<or> cr_finished r\<rparr>, w1) = Some res"
          by (simp add: chunk_fetch_next)
        from chunk_read_ok_fetch [OF 3 _ refl IH [OF this]] Pair Inr y k show ?thesis by simp
      qed
    qed
  qed
qed

interpretation chunks: chunk_source "chunk_read c sc show_err" chunk_pending "\<lambda>k. cr_finished (fst k)" "\<lambda>_. True" "chunk_got c sc"
  for c :: "('w, 's) svs_client" and sc show_err
proof unfold_locales
  show "chunk_got c sc k (cs @ cs') k2" if "chunk_got c sc k cs k1" "chunk_got c sc k1 cs' k2" for k cs k1 cs' k2
    using that by (rule chunk_got_trans)
qed (use chunk_read_done [of c sc show_err] in \<open>fastforce simp: chunk_read_ok_def\<close>)+

definition chunk_holds :: "u64 \<Rightarrow> ChunkReader \<times> 'w \<Rightarrow> bool \<Rightarrow> bytes \<Rightarrow> 'w \<Rightarrow> bool" where
  "chunk_holds stream_id k fin p w \<longleftrightarrow>
     snd k = w \<and> cr_stream_id (fst k) = stream_id \<and> cr_finished (fst k) = fin \<and> cr_last_seen (fst k) = fin \<and> chunk_pending k = p"

lemma chunk_holds_new: "chunk_holds stream_id (chunk_reader_new stream_id, w) False [] w"
  by (simp add: chunk_holds_def chunk_reader_new_def chunk_pending_def)

interpretation chunk_run: chunk_supply "chunk_read c sc show_err" c sc stream_id "chunk_holds stream_id"
  for c :: "('w, 's) svs_client" and sc show_err stream_id
proof unfold_locales
  fix k :: "ChunkReader \<times> 'w" and fin p w b
  assume "chunk_holds stream_id k fin p w" "p \<noteq> []"
  then show "\<exists>k'. chunk_read c sc show_err b k = Some (Inr (take b p), k') \<and> chunk_holds stream_id k' fin (drop b p) w"
    by (subst chunk_read.simps) (cases k; auto simp: chunk_holds_def chunk_pending_def min_def Let_def add.commute)
next
  fix k :: "ChunkReader \<times> 'w" and w b
  assume "chunk_holds stream_id k True [] w"
  then show "chunk_read c sc show_err b k = Some (Inr [], k)"
    by (subst chunk_read.simps) (simp add: chunk_holds_def chunk_pending_def)
next
  fix k :: "ChunkReader \<times> 'w" and w body is_last w1 b
  assume k: "chunk_holds stream_id k False [] w" and "next_request c sc stream_id w = (Inr (body, is_last), w1)"
  moreover obtain r where r: "k = (r, w)" using k by (cases k) (simp add: chunk_holds_def)
  ultimately have eq: "chunk_read c sc show_err b k
      = chunk_read c sc show_err b (r\<lparr>cr_buf := body, cr_pos := 0, cr_last_seen := is_last, cr_finished := is_last\<rparr>, w1)"
    by (subst chunk_read.simps) (simp add: chunk_holds_def chunk_pending_def chunk_fetch_next)
  have "chunk_holds stream_id (r\<lparr>cr_buf := body, cr_pos := 0, cr_last_seen := is_last, cr_finished := is_last\<rparr>, w1) is_last body w1"
    using k r by (simp add: chunk_holds_def chunk_pending_def)
  with eq show "\<exists>k1. chunk_holds stream_id k1 is_last body w1 \<and> chunk_read c sc show_err b k = chunk_read c sc show_err b k1"
    by blast
qed

subsection \<open>The reader behind the channel\<close>

definition channel_pending :: "'s ChannelReader \<times> 'w \<Rightarrow> bytes" where
  "channel_pending k = drop (ch_pos (fst k)) (ch_buf (fst k))"

text \<open>No request of the pull loop has failed.\<close>

definition channel_sound :: "'s ChannelReader \<times> 'w \<Rightarrow> bool" where
  "channel_sound k \<longleftrightarrow> ch_pull (fst k) \<in> {None, Some (Inr ())}"

definition channel_ended :: "'s ChannelReader \<times> 'w \<Rightarrow> bool" where
  "channel_ended k \<longleftrightarrow> ch_pull (fst k) = Some (Inr ())"

definition channel_got ::
    "('w, 's) svs_client \<Rightarrow> 's svs_codec \<Rightarrow> 's ChannelReader \<times> 'w \<Rightarrow> bytes list \<Rightarrow> 's ChannelReader \<times> 'w \<Rightarrow> bool" where
  "channel_got c sc k cs k' \<longleftrightarrow>
     ch_stream_id (fst k') = ch_stream_id (fst k)
     \<and> fetches c sc (ch_stream_id (fst k)) (channel_ended k) (snd k) cs (channel_ended k') (snd k')"

definition channel_read_ok :: "('w, 's) svs_client \<Rightarrow> 's svs_codec \<Rightarrow> nat \<Rightarrow> 's ChannelReader \<times> 'w
    \<Rightarrow> (io_error + bytes) \<times> 's ChannelReader \<times> 'w \<Rightarrow> bool" where
  "channel_read_ok c sc b k res \<longleftrightarrow>
     (\<exists>bs k'. res = (Inr bs, k') \<and> (channel_sound k' \<longrightarrow> channel_sound k \<and> (0 < b \<longrightarrow>
        (\<exists>cs. channel_got c sc k cs k' \<and> channel_pending k @ concat cs = bs @ channel_pending k'
              \<and> (bs = [] \<longrightarrow> channel_ended k' \<and> channel_pending k' = [])))))"

lemma channel_read_ok_pending:
  assumes "ch_pos r < length (ch_buf r)" and "n = min b (length (ch_buf r) - ch_pos r)"
  shows "channel_read_ok c sc b (r, w) (Inr (take n (drop (ch_pos r) (ch_buf r))), r\<lparr>ch_pos := ch_pos r + n\<rparr>, w)"
proof -
  have "take n (drop (ch_pos r) (ch_buf r)) @ drop (ch_pos r + n) (ch_buf r) = drop (ch_pos r) (ch_buf r)"
    by (metis add.commute append_take_drop_id drop_drop)
  then show ?thesis using assms
    by (auto simp: channel_read_ok_def channel_got_def channel_pending_def channel_ended_def channel_sound_def
        intro!: exI [of _ "[]"] fetches_none)
qed

lemma channel_read_ok_end:
  assumes "\<not> ch_pos r < length (ch_buf r)" and "ch_pull r \<noteq> None"
  shows "channel_read_ok c sc b (r, w) (Inr [], r, w)"
  using assms by (auto simp: channel_read_ok_def channel_got_def channel_pending_def channel_ended_def channel_sound_def
      intro!: exI [of _ "[]"] fetches_none)

definition channel_fed :: "bytes \<Rightarrow> bool \<Rightarrow> 's ChannelReader \<Rightarrow> 's ChannelReader" where
  "channel_fed body is_last r =
     (let r = (if body \<noteq> [] then r\<lparr>ch_buf := body, ch_pos := 0\<rparr> else r)
      in if is_last then r\<lparr>ch_pull := Some (Inr ())\<rparr> else r)"

lemma channel_fed_view:
  assumes "\<not> ch_pos r < length (ch_buf r)" and "ch_pull r = None"
  shows "ch_stream_id (channel_fed body is_last r) = ch_stream_id r"
    and "channel_ended (channel_fed body is_last r, w) = is_last" and "channel_sound (channel_fed body is_last r, w)"
    and "channel_pending (channel_fed body is_last r, w) = body"
  using assms by (simp_all add: channel_fed_def channel_ended_def channel_sound_def channel_pending_def Let_def)

lemma channel_read_ok_fetch:
  assumes "\<not> ch_pos r < length (ch_buf r)" and "ch_pull r = None"
    and "next_request c sc (ch_stream_id r) w = (Inr (body, is_last), w1)"
    and "channel_read_ok c sc b (channel_fed body is_last r, w1) res"
  shows "channel_read_ok c sc b (r, w) res"
proof -
  note fed = channel_fed_view [OF assms(1,2), of body is_last]
  have start: "channel_sound (r, w)" "\<not> channel_ended (r, w)" "channel_pending (r, w) = []"
    using assms(1,2) by (simp_all add: channel_sound_def channel_ended_def channel_pending_def)
  from assms(4) obtain bs k' where res: "res = (Inr bs, k')" and ok: "channel_sound k' \<longrightarrow> 0 < b \<longrightarrow>
      (\<exists>cs. channel_got c sc (channel_fed body is_last r, w1) cs k' \<and> body @ concat cs = bs @ channel_pending k'
              \<and> (bs = [] \<longrightarrow> channel_ended k' \<and> channel_pending k' = []))"
    unfolding channel_read_ok_def fed(4) by blast
  have "\<exists>cs. channel_got c sc (r, w) cs k' \<and> channel_pending (r, w) @ concat cs = bs @ channel_pending k'
      \<and> (bs = [] \<longrightarrow> channel_ended k' \<and> channel_pending k' = [])" if k': "channel_sound k'" "0 < b"
  proof -
    from ok k' obtain cs where cs: "channel_got c sc (channel_fed body is_last r, w1) cs k'"
      "body @ concat cs = bs @ channel_pending k'" "bs = [] \<longrightarrow> channel_ended k' \<and> channel_pending k' = []" by blast
    have "channel_got c sc (r, w) (body # cs) k'"
      using cs(1) start(2) fetches_more [of c sc "ch_stream_id r" w body is_last w1 cs] assms(3)
      by (simp add: channel_got_def fed)
    with cs(2,3) start(3) show ?thesis by (intro exI [of _ "body # cs"]) simp
  qed
  with start(1) res show ?thesis unfolding channel_read_ok_def by blast
qed

lemma channel_read_ok_failed:
  assumes "\<not> ch_pos r < length (ch_buf r)"
    and "channel_read_ok c sc b (r\<lparr>ch_pull := Some (Inl err)\<rparr>, w1) res"
  shows "channel_read_ok c sc b (r, w) res"
  using assms by (auto simp: channel_read_ok_def channel_sound_def)

lemma channel_read_done:
  assumes "channel_read c sc b k = Some res"
  shows "channel_read_ok c sc b k res"
proof (rule channel_read.raw_induct [of channel_read_ok, OF _ assms])
  fix go :: "('w, 's) svs_client \<Rightarrow> 's svs_codec \<Rightarrow> nat \<Rightarrow> 's ChannelReader \<times> 'w \<Rightarrow> _" and c sc b k res
  assume IH: "\<And>c sc b k res. go c sc b k = Some res \<Longrightarrow> channel_read_ok c sc b k res"
    and body: "(let r = fst k in
      if ch_pos r < length (ch_buf r)
      then let n = min b (length (ch_buf r) - ch_pos r)
           in Some (Inr (take n (drop (ch_pos r) (ch_buf r))), r\<lparr>ch_pos := ch_pos r + n\<rparr>, snd k)
      else if ch_pull r \<noteq> None then Some (Inr [], k)
      else (case next_request c sc (ch_stream_id r) (snd k) of
              (Inl err, w) \<Rightarrow> go c sc b (r\<lparr>ch_pull := Some (Inl err)\<rparr>, w)
            | (Inr (body, is_last), w) \<Rightarrow>
                (let r = (if body \<noteq> [] then r\<lparr>ch_buf := body, ch_pos := 0\<rparr> else r);
                     r = (if is_last then r\<lparr>ch_pull := Some (Inr ())\<rparr> else r)
                 in go c sc b (r, w)))) = Some res"
  obtain r w where k: "k = (r, w)" by fastforce
  consider "ch_pos r < length (ch_buf r)" | "\<not> ch_pos r < length (ch_buf r)" "ch_pull r \<noteq> None"
    | "\<not> ch_pos r < length (ch_buf r)" "ch_pull r = None" by blast
  then show "channel_read_ok c sc b k res"
  proof cases
    case 1
    with body k channel_read_ok_pending [OF 1 refl, of c sc b w] show ?thesis by (auto simp: Let_def)
  next
    case 2
    with body k channel_read_ok_end [OF 2, of c sc b w] show ?thesis by simp
  next
    case 3
    obtain x w1 where x: "next_request c sc (ch_stream_id r) w = (x, w1)" by fastforce
    show ?thesis
    proof (cases x)
      case (Inl err)
      with body 3 k x have "go c sc b (r\<lparr>ch_pull := Some (Inl err)\<rparr>, w1) = Some res" by simp
      from channel_read_ok_failed [OF 3(1) IH [OF this], of w] k show ?thesis by simp
    next
      case (Inr y)
      obtain bd l where y: "y = (bd, l)" by fastforce
      with body 3 k x Inr have "go c sc b (channel_fed bd l r, w1) = Some res" by (simp add: channel_fed_def Let_def)
      from channel_read_ok_fetch [OF 3 _ IH [OF this], of w] x Inr y k show ?thesis by simp
    qed
  qed
qed

interpretation channel: chunk_source "channel_read c sc" channel_pending channel_ended channel_sound "channel_got c sc"
  for c :: "('w, 's) svs_client" and sc
proof unfold_locales
  show "channel_got c sc k (cs @ cs') k2" if "channel_got c sc k cs k1" "channel_got c sc k1 cs' k2" for k cs k1 cs' k2
    using that fetches_trans unfolding channel_got_def by metis
qed (use channel_read_done [of c sc] in \<open>fastforce simp: channel_read_ok_def\<close>)+

end
