(* ===== verification/Value_Files.thy ===== *)
theory Value_Files
  imports Value_Transfer
begin

text \<open>
  Streamed values in files: whatever fails on the way, in the network, the decoder or the file system, the final path holds
  what it held before or the whole content; a trailer is exactly the last bytes of the stream.
\<close>

section \<open>Only the temporary file changes\<close>

definition only_temp :: "string \<Rightarrow> Fs \<Rightarrow> Fs \<Rightarrow> bool" where
  "only_temp tmp fs fs' \<longleftrightarrow> (\<forall>p. p \<noteq> tmp \<longrightarrow> fs_files fs' p = fs_files fs p)"

lemma only_temp_refl [simp]: "only_temp tmp fs fs"
  by (simp add: only_temp_def)

lemma only_temp_trans: "only_temp tmp fs fs1 \<Longrightarrow> only_temp tmp fs1 fs2 \<Longrightarrow> only_temp tmp fs fs2"
  by (simp add: only_temp_def)

lemma fs_try_cases:
  obtains (failed) err rest where "fs_faults fs = Some err # rest" "fs_try change fs = (Inl err, fs\<lparr>fs_faults := rest\<rparr>)"
  | (ok) rest where "fs_try change fs = (Inr (), change (fs\<lparr>fs_faults := rest\<rparr>))"
proof (cases "fs_faults fs")
  case Nil
  then show ?thesis using ok [of "[]"] by (cases fs) (simp add: fs_try_def)
next
  case (Cons x rest)
  show ?thesis
  proof (cases x)
    case None
    with Cons show ?thesis using ok [of rest] by (simp add: fs_try_def)
  next
    case (Some err)
    with Cons show ?thesis using failed [of err rest] by (simp add: fs_try_def)
  qed
qed

lemma file_create_result:
  assumes "file_create path fs = (r, fs')"
  shows "only_temp path fs fs'" and "r = Inr () \<Longrightarrow> fs_files fs' path = Some []"
  using assms by (cases rule: fs_try_cases [of fs "\<lambda>fs. fs\<lparr>fs_files := (fs_files fs)(path \<mapsto> [])\<rparr>"];
      auto simp: file_create_def only_temp_def)+

lemma file_write_result:
  assumes "file_write_all path bs fs = (r, fs')"
  shows "only_temp path fs fs'" and "r = Inr () \<Longrightarrow> fs_files fs' path = map_option (\<lambda>old. old @ bs) (fs_files fs path)"
  using assms by (cases rule: fs_try_cases [of fs "\<lambda>fs. fs\<lparr>fs_files := (fs_files fs)(path := map_option (\<lambda>old. old @ bs) (fs_files fs path))\<rparr>"];
      auto simp: file_write_all_def only_temp_def)+

lemma fs_try_same: "fs_try (\<lambda>fs. fs) fs = (r, fs') \<Longrightarrow> fs_files fs' = fs_files fs"
  by (cases rule: fs_try_cases [of fs "\<lambda>fs. fs"]) auto

lemma file_flush_same: "file_flush_sync fs = (r, fs') \<Longrightarrow> fs_files fs' = fs_files fs"
  using fs_try_same by (fastforce simp: file_flush_sync_def split: prod.splits sum.splits)

lemma temp_drop_only: "only_temp path fs (temp_drop path fs)"
  by (cases rule: fs_try_cases [of fs "\<lambda>fs. fs\<lparr>fs_files := (fs_files fs)(path := None)\<rparr>"])
    (auto simp: temp_drop_def file_remove_def only_temp_def)

lemma temp_commit_result:
  assumes "temp_commit tmp path fs = (r, fs')" and "tmp \<noteq> path" and "fs_files fs tmp = Some content"
  shows "r = Inr () \<Longrightarrow> fs_files fs' = (fs_files fs)(tmp := None, path \<mapsto> content)"
    and "r = Inl err \<Longrightarrow> only_temp tmp fs fs'"
proof -
  let ?mv = "\<lambda>fs. case fs_files fs tmp of
                    Some bs \<Rightarrow> fs\<lparr>fs_files := (fs_files fs)(tmp := None, path \<mapsto> bs)\<rparr>
                  | None \<Rightarrow> fs"
  have drop: "only_temp tmp fs (snd (file_remove tmp fs))" for fs
    using temp_drop_only by (simp add: temp_drop_def)
  show "r = Inr () \<Longrightarrow> fs_files fs' = (fs_files fs)(tmp := None, path \<mapsto> content)"
    using assms by (cases rule: fs_try_cases [of fs ?mv]) (auto simp: temp_commit_def file_rename_def)
  show "only_temp tmp fs fs'" if "r = Inl err"
    using assms that drop by (cases rule: fs_try_cases [of fs ?mv])
      (auto simp: temp_commit_def file_rename_def only_temp_def)
qed

text \<open>Whatever a copy does to its output, a preorder kept by every write is kept by the copy.\<close>

lemma io_copy_keeps:
  fixes rd :: "'k reader" and wr :: "bytes \<Rightarrow> 'o \<Rightarrow> (io_error + unit) \<times> 'o"
  assumes "io_copy rd wr b n k out = Some res" and "\<And>bs x. R x (snd (wr bs x))" and "\<And>x. R x x"
    and "\<And>x y z. R x y \<Longrightarrow> R y z \<Longrightarrow> R x z"
  shows "R out (snd (snd res))"
proof -
  define P where "P = (\<lambda>(rd :: 'k reader) (wr :: bytes \<Rightarrow> 'o \<Rightarrow> (io_error + unit) \<times> 'o) (b :: nat) (n :: nat) (k :: 'k) out (res :: (io_error + nat) \<times> 'k \<times> 'o).
    (\<forall>bs out. R out (snd (wr bs out))) \<longrightarrow> R out (snd (snd res)))"
  have "P rd wr b n k out res"
  proof (rule io_copy.raw_induct [of P, OF _ assms(1)])
    fix go :: "'k reader \<Rightarrow> (bytes \<Rightarrow> 'o \<Rightarrow> (io_error + unit) \<times> 'o) \<Rightarrow> nat \<Rightarrow> nat \<Rightarrow> 'k \<Rightarrow> 'o \<Rightarrow> _" and rd wr b n k out res
    assume IH: "\<And>rd wr b n k out res. go rd wr b n k out = Some res \<Longrightarrow> P rd wr b n k out res"
      and body: "(case rd b k of
          None \<Rightarrow> None
        | Some (Inl err, k) \<Rightarrow> if io_error_kind err = K_Interrupted then go rd wr b n k out else Some (Inl err, k, out)
        | Some (Inr bs, k) \<Rightarrow>
            if bs = [] then Some (Inr n, k, out)
            else (case wr bs out of
                    (Inl err, out) \<Rightarrow> Some (Inl err, k, out)
                  | (Inr _, out) \<Rightarrow> go rd wr b (n + length bs) k out)) = Some res"
    show "P rd wr b n k out res"
      unfolding P_def
    proof
      assume wr: "\<forall>bs out. R out (snd (wr bs out))"
      have step: "R o1 (snd (snd res))" if "go rd wr b n' k' o1 = Some res" for n' k' o1
        using IH [OF that] wr by (simp add: P_def)
      show "R out (snd (snd res))"
      proof (cases "rd b k")
        case (Some y)
        obtain x k1 where y: "y = (x, k1)" by fastforce
        show ?thesis
        proof (cases x)
          case (Inl err)
          with body Some y show ?thesis using assms(3) step [of n k1 out] by (auto split: if_splits)
        next
          case (Inr bs)
          obtain z o1 where z: "wr bs out = (z, o1)" by fastforce
          then have "R out o1" using wr by (metis snd_conv)
          with body Some y Inr z show ?thesis using assms(3) assms(4) [of out o1] step [of "n + length bs" k1 o1]
            by (cases z) (auto split: if_splits)
        qed
      qed (use body in simp)
    qed
  qed
  then show ?thesis using assms(2) by (simp add: P_def)
qed

lemma write_each_file:
  "write_each (file_write_all tmp) bss fs = (Inr (), fs') \<Longrightarrow> fs_files fs tmp = Some old
    \<Longrightarrow> fs_files fs' tmp = Some (old @ concat bss)"
proof (induction bss arbitrary: fs old)
  case (Cons bs bss)
  obtain r fs1 where w: "file_write_all tmp bs fs = (r, fs1)" by fastforce
  with Cons.prems have r: "r = Inr ()" "write_each (file_write_all tmp) bss fs1 = (Inr (), fs')" by (cases r; simp)+
  from file_write_result(2) [OF w r(1)] Cons.prems(2) have "fs_files fs1 tmp = Some (old @ bs)" by simp
  from Cons.IH [OF r(2) this] show ?case by simp
qed simp

section \<open>The blocking file pulls\<close>

text \<open>What a reader gives to its end, through the decoder or not.\<close>

definition content_of ::
    "('d, 'k) zstd_reader \<Rightarrow> Compression \<Rightarrow> 'k reader \<Rightarrow> nat \<Rightarrow> 'k \<Rightarrow> bytes \<Rightarrow> 'k \<Rightarrow> bool" where
  "content_of zr decode rd b k content k' \<longleftrightarrow>
     (case decode of
        Comp_None \<Rightarrow> \<exists>bss. reads rd b k bss k' \<and> content = concat bss
      | Comp_Zstd \<Rightarrow> \<exists>bss d. reads (zr_read zr rd) b (zr_init zr, k) bss (d, k') \<and> content = concat bss)"

definition copy_as :: "Compression \<Rightarrow> ('w, 'd, 's) pull_env \<Rightarrow> string \<Rightarrow> (ChunkReader \<times> 'w) \<Rightarrow> Fs
      \<Rightarrow> (('s RepeError + unit) \<times> (ChunkReader \<times> 'w) \<times> Fs) option" where
  "copy_as decode = (case decode of Comp_None \<Rightarrow> copy_plain | Comp_Zstd \<Rightarrow> copy_decoded)"

lemma file_copy_only:
  assumes "io_copy rd (file_write_all tmp) b n k fs = Some (r, k', fs')"
  shows "only_temp tmp fs fs'"
proof -
  have w: "only_temp tmp x (snd (file_write_all tmp bs x))" for bs x
    using file_write_result(1) by (metis prod.collapse)
  from io_copy_keeps [of rd "file_write_all tmp" b n k fs _ "only_temp tmp", OF assms w only_temp_refl only_temp_trans]
  show ?thesis by simp
qed

lemma copy_as_only:
  assumes "copy_as decode env tmp k fs = Some (r, k', fs')"
  shows "only_temp tmp fs fs'"
  using assms by (cases decode)
    (auto simp: copy_as_def copy_plain_def copy_decoded_def dest!: file_copy_only split: option.splits prod.splits)

lemma res_copied:
  assumes "res_bind (res_map_err RE_Io r) (\<lambda>_. Inr u) = Inr v"
  obtains m where "r = Inr m"
  using assms by (cases r) auto

lemma copy_as_done:
  assumes "copy_as decode env tmp k fs = Some (Inr u, k', fs')" and "fs_files fs tmp = Some []"
  shows "\<exists>content. content_of (pe_zstd env) decode (env_read env) (pe_bufsize env) k content k' \<and> fs_files fs' tmp = Some content"
proof (cases decode)
  case Comp_None
  with assms(1) obtain m where "io_copy (env_read env) (file_write_all tmp) (pe_bufsize env) 0 k fs = Some (Inr m, k', fs')"
    by (auto simp: copy_as_def copy_plain_def elim!: res_copied split: option.splits prod.splits)
  from io_copy_done [OF this] obtain bss where "reads (env_read env) (pe_bufsize env) k bss k'"
    "write_each (file_write_all tmp) bss fs = (Inr (), fs')" by blast
  with write_each_file [OF this(2) assms(2)] Comp_None show ?thesis by (auto simp: content_of_def)
next
  case Comp_Zstd
  with assms(1) obtain m d where "io_copy (zr_read (pe_zstd env) (env_read env)) (file_write_all tmp) (pe_bufsize env) 0
      (zr_init (pe_zstd env), k) fs = Some (Inr m, (d, k'), fs')"
    by (auto simp: copy_as_def copy_decoded_def elim!: res_copied split: option.splits prod.splits)
  from io_copy_done [OF this] obtain bss where "reads (zr_read (pe_zstd env) (env_read env)) (pe_bufsize env)
      (zr_init (pe_zstd env), k) bss (d, k')" "write_each (file_write_all tmp) bss fs = (Inr (), fs')" by blast
  with write_each_file [OF this(2) assms(2)] Comp_Zstd show ?thesis by (auto simp: content_of_def)
qed

lemma write_file_result:
  fixes env :: "('w, 'd, 's) pull_env"
  assumes "write_file env stream_id path (copy_as decode env) w fs = Some (r, w', fs')" and "pe_sibling env path \<noteq> path"
  shows "r = Inl err \<Longrightarrow> only_temp (pe_sibling env path) fs fs'"
    and "r = Inr u \<Longrightarrow> \<exists>content k'. content_of (pe_zstd env) decode (env_read env) (pe_bufsize env)
        (chunk_reader_new stream_id, w) content k' \<and> cr_last_seen (fst k') \<and> snd k' = w'
      \<and> fs_files fs' path = Some content \<and> fs_files fs' (pe_sibling env path) = None
      \<and> (\<forall>p. p \<noteq> path \<and> p \<noteq> pe_sibling env path \<longrightarrow> fs_files fs' p = fs_files fs p)"
proof -
  let ?tmp = "pe_sibling env path" and ?k = "(chunk_reader_new stream_id, w)"
  obtain r1 fs1 where c: "file_create ?tmp fs = (r1, fs1)" by fastforce
  note cr = file_create_result [OF c]
  show "only_temp ?tmp fs fs'" if "r = Inl err"
  proof (cases r1)
    case (Inl e)
    with assms that c cr(1) show ?thesis by (simp add: write_file_def temp_create_def)
  next
    case (Inr u1)
    with assms(1) c obtain filled rd w2 fs2 where f: "copy_as decode env ?tmp ?k fs1 = Some (filled, (rd, w2), fs2)"
      by (auto simp: write_file_def temp_create_def Let_def split: option.splits)
    note o2 = only_temp_trans [OF cr(1) copy_as_only [OF f]]
    have drop: "only_temp ?tmp fs (temp_drop ?tmp fs2)" by (rule only_temp_trans [OF o2 temp_drop_only])
    obtain r3 fs3 where s: "file_flush_sync fs2 = (r3, fs3)" by fastforce
    have o3: "only_temp ?tmp fs fs3" using o2 file_flush_same [OF s] by (simp add: only_temp_def)
    have drop3: "only_temp ?tmp fs (temp_drop ?tmp fs3)" by (rule only_temp_trans [OF o3 temp_drop_only])
    show ?thesis
    proof (cases "(\<exists>v. filled = Inr v) \<and> cr_last_seen rd \<and> (\<exists>v. r3 = Inr v)")
      case True
      then obtain v where t: "filled = Inr v" "cr_last_seen rd" "r3 = Inr ()" by auto
      obtain r4 fs4 where m: "(temp_commit ?tmp path fs3 :: ('s RepeError + unit) \<times> Fs) = (r4, fs4)" by fastforce
      from copy_as_done [of decode env ?tmp ?k fs1 v] f t cr(2) Inr obtain content where "fs_files fs3 ?tmp = Some content"
        using file_flush_same [OF s] by auto
      from temp_commit_result(2) [OF m assms(2) this] that assms(1) c Inr f t s m have "only_temp ?tmp fs3 fs'"
        by (simp add: write_file_def temp_create_def Let_def)
      with o3 only_temp_trans show ?thesis by blast
    next
      case False
      then show ?thesis using assms(1) that c Inr f s drop drop3
        by (cases filled; cases r3) (auto simp: write_file_def temp_create_def Let_def split: if_splits)
    qed
  qed
  show "\<exists>content k'. content_of (pe_zstd env) decode (env_read env) (pe_bufsize env) ?k content k' \<and> cr_last_seen (fst k') \<and> snd k' = w'
      \<and> fs_files fs' path = Some content \<and> fs_files fs' ?tmp = None
      \<and> (\<forall>p. p \<noteq> path \<and> p \<noteq> ?tmp \<longrightarrow> fs_files fs' p = fs_files fs p)" if ok: "r = Inr u"
  proof -
    from assms(1) ok c have r1: "r1 = Inr ()" by (cases r1) (auto simp: write_file_def temp_create_def)
    with assms(1) c obtain filled rd w2 fs2 where f: "copy_as decode env ?tmp ?k fs1 = Some (filled, (rd, w2), fs2)"
      by (auto simp: write_file_def temp_create_def Let_def split: option.splits)
    obtain r3 fs3 where s: "file_flush_sync fs2 = (r3, fs3)" by fastforce
    obtain r4 fs4 where m: "(temp_commit ?tmp path fs3 :: ('s RepeError + unit) \<times> Fs) = (r4, fs4)" by fastforce
    from assms(1) ok c r1 f s m have t: "filled = Inr ()" "cr_last_seen rd" "r4 = Inr ()" "fs' = fs4" "w' = w2"
      by (cases filled; cases r3; auto simp: write_file_def temp_create_def Let_def split: if_splits)+
    from copy_as_done [OF f [unfolded t(1)]] cr(2) r1 obtain content where
      d: "content_of (pe_zstd env) decode (env_read env) (pe_bufsize env) ?k content (rd, w2)" "fs_files fs3 ?tmp = Some content"
      using file_flush_same [OF s] by auto
    have "only_temp ?tmp fs fs3"
      using only_temp_trans [OF cr(1) copy_as_only [OF f]] file_flush_same [OF s] by (simp add: only_temp_def)
    with temp_commit_result(1) [OF m assms(2) d(2) t(3)] d t assms(2) show ?thesis
      by (intro exI [of _ content] exI [of _ "(rd, w2)"]) (auto simp: only_temp_def)
  qed
qed

fun output_path :: "StreamOutput \<Rightarrow> string option" where
  "output_path (SO_BeveZstdFile path) = Some path"
| "output_path (SO_BeveFile path) = Some path"
| "output_path (SO_RawFile path) = Some path"
| "output_path SO_Value = None"

text \<open>Whether an output decodes the stream: the compressed file keeps it as it came.\<close>

fun output_decodes :: "StreamOutput \<Rightarrow> OpenInfo \<Rightarrow> Compression" where
  "output_decodes (SO_BeveZstdFile path) opened = Comp_None"
| "output_decodes out opened = oi_compression opened"

lemma pull_stream_file:
  assumes "output_path out = Some path" and "open_stream (pe_client env) (pe_codec env) resource w = (Inr opened, w1)"
    and "check_output out opened = (Inr () :: 's RepeError + unit)"
  shows "pull_stream (env :: ('w, 'd, 's) pull_env) invalid_utf8 rv resource out w fs
    = map_option (\<lambda>(r, w, fs). (res_bind r (\<lambda>_. Inr None), w, fs))
        (write_file env (oi_stream_id opened) path (copy_as (output_decodes out opened) env) w1 fs)"
  using assms by (cases out; cases "oi_compression opened")
    (simp_all add: pull_stream_def copy_as_def check_output_def split: if_splits)

lemma content_fetched:
  assumes "content_of zr Comp_None (chunk_read c sc show_err) b (chunk_reader_new stream_id, w) content k'" and "0 < b"
  obtains cs where "fetches c sc stream_id False w cs True (snd k')" and "content = concat cs"
proof -
  from assms(1) obtain bss where r: "reads (chunk_read c sc show_err) b (chunk_reader_new stream_id, w) bss k'" "content = concat bss"
    by (auto simp: content_of_def)
  from chunks.reads_got [OF r(1) assms(2)] obtain cs where "chunk_got c sc (chunk_reader_new stream_id, w) cs k'"
    "chunk_pending (chunk_reader_new stream_id, w) @ concat cs = concat bss" "cr_finished (fst k')" by blast
  with r(2) that [of cs] show thesis by (simp add: chunk_got_def chunk_reader_new_def chunk_pending_def)
qed

text \<open>
  C27. A blocking pull into a file is atomic. Whatever requests, the decoder or the file system do, no path but the final one
  and its temporary sibling changes. If the pull fails the final path is as it was. If it succeeds the final path
  holds everything the reader gave up to the end of the stream, the last chunk has come, and the
  sibling is gone; when nothing is decoded, the content is the chunks from the first to the last, put together.
\<close>

theorem pulled_file_atomic:
  fixes env :: "('w, 'd, 's) pull_env"
  assumes "output_path out = Some path" and "pe_sibling env path \<noteq> path" and "0 < pe_bufsize env"
    and "pull_stream env invalid_utf8 rv resource out w fs = Some (r, w', fs')"
  shows "(\<forall>p. p \<noteq> path \<and> p \<noteq> pe_sibling env path \<longrightarrow> fs_files fs' p = fs_files fs p)
    \<and> (case r of
         Inl _ \<Rightarrow> fs_files fs' path = fs_files fs path
       | Inr v \<Rightarrow> v = None \<and> fs_files fs' (pe_sibling env path) = None
           \<and> (\<exists>opened w1 content k'. open_stream (pe_client env) (pe_codec env) resource w = (Inr opened, w1)
                \<and> fs_files fs' path = Some content
                \<and> content_of (pe_zstd env) (output_decodes out opened) (env_read env) (pe_bufsize env)
                    (chunk_reader_new (oi_stream_id opened), w1) content k' \<and> cr_last_seen (fst k') \<and> snd k' = w'
                \<and> (output_decodes out opened = Comp_None \<longrightarrow>
                    (\<exists>cs. fetches (pe_client env) (pe_codec env) (oi_stream_id opened) False w1 cs True w' \<and> content = concat cs))))"
proof -
  obtain x w1 where o: "open_stream (pe_client env) (pe_codec env) resource w = (x, w1)" by fastforce
  show ?thesis
  proof (cases "\<exists>opened. x = Inr opened \<and> check_output out opened = (Inr () :: 's RepeError + unit)")
    case False
    with assms(4) o have "fs' = fs" "\<exists>err. r = Inl err"
      by (cases x; auto simp: pull_stream_def split: sum.splits)+
    then show ?thesis by auto
  next
    case True
    then obtain opened where x: "x = Inr opened" "check_output out opened = (Inr () :: 's RepeError + unit)" by blast
    obtain r1 where
      wf: "write_file env (oi_stream_id opened) path (copy_as (output_decodes out opened) env) w1 fs = Some (r1, w', fs')"
      and r: "r = res_bind r1 (\<lambda>_. Inr None)"
      using assms(4) by (auto simp: pull_stream_file [OF assms(1) o [unfolded x(1)] x(2)])
    note result = write_file_result [OF wf assms(2)]
    show ?thesis
    proof (cases r1)
      case (Inl err)
      with result(1) [of err] r assms(2) show ?thesis by (auto simp: only_temp_def)
    next
      case (Inr u)
      from result(2) [OF Inr] obtain content k' where c: "content_of (pe_zstd env) (output_decodes out opened) (env_read env)
          (pe_bufsize env) (chunk_reader_new (oi_stream_id opened), w1) content k'" "cr_last_seen (fst k')" "snd k' = w'"
        "fs_files fs' path = Some content" "fs_files fs' (pe_sibling env path) = None"
        "\<forall>p. p \<noteq> path \<and> p \<noteq> pe_sibling env path \<longrightarrow> fs_files fs' p = fs_files fs p" by blast
      have "\<exists>cs. fetches (pe_client env) (pe_codec env) (oi_stream_id opened) False w1 cs True w' \<and> content = concat cs"
        if "output_decodes out opened = Comp_None"
        using content_fetched [of "pe_zstd env" "pe_client env" "pe_codec env" "pe_show env"] c(1,3) that assms(3)
        unfolding env_read_def by metis
      with c o x r Inr show ?thesis by (cases k') auto
    qed
  qed
qed

section \<open>Trailers\<close>

lemma write_each_append:
  "write_each wr bss out = (Inr (), o1) \<Longrightarrow> write_each wr (bss @ bss') out = write_each wr bss' o1"
  by (induction bss arbitrary: out) (auto split: prod.splits sum.splits)

lemma write_each_single: "wr bs out = (Inr u, o1) \<Longrightarrow> write_each wr [bs] out = (Inr (), o1)"
  by simp

lemma trailer_write_ok:
  assumes "trailer_write inner n bs (hold, out) = (Inr u, hold', out')" and "length hold \<le> n"
  shows "\<exists>bss. write_each inner bss out = (Inr (), out') \<and> concat bss @ hold' = hold @ bs
    \<and> length hold' = min n (length hold + length bs)"
proof (cases "length bs \<ge> n")
  case True
  obtain r1 o1 where f: "(if hold \<noteq> [] then inner hold out else (Inr (), out)) = (r1, o1)" by fastforce
  obtain r2 o2 where g: "inner (take (length bs - n) bs) o1 = (r2, o2)" by fastforce
  from assms(1) True f g have res: "r1 = Inr ()" "r2 = Inr ()" "hold' = drop (length bs - n) bs" "out' = o2"
    by (cases r1; cases r2; auto simp: trailer_write_def Let_def)+
  have "write_each inner (if hold \<noteq> [] then [hold] else []) out = (Inr (), o1)" using f res(1) by (auto split: if_splits)
  from write_each_append [OF this, of "[take (length bs - n) bs]"] g res
  have "write_each inner ((if hold \<noteq> [] then [hold] else []) @ [take (length bs - n) bs]) out = (Inr (), out')" by simp
  with res True show ?thesis
    by (intro exI [of _ "(if hold \<noteq> [] then [hold] else []) @ [take (length bs - n) bs]"]) auto
next
  case False
  show ?thesis
  proof (cases "length (hold @ bs) > n")
    case True
    let ?o = "length (hold @ bs) - n"
    obtain r2 o2 where g: "inner (take ?o (hold @ bs)) out = (r2, o2)" by fastforce
    from assms(1) True False g have res: "r2 = Inr ()" "hold' = drop ?o (hold @ bs)" "out' = o2"
      by (cases r2; auto simp: trailer_write_def Let_def simp del: take_append drop_append)+
    have "take ?o (hold @ bs) @ hold' = hold @ bs" unfolding res(2) by (rule append_take_drop_id)
    moreover have "length hold' = n" using True unfolding res(2) by simp
    ultimately show ?thesis using g res True by (intro exI [of _ "[take ?o (hold @ bs)]"]) (simp del: take_append drop_append)
  next
    case short: False
    with False assms(1) have "hold' = hold @ bs" "out' = out" by (auto simp: trailer_write_def Let_def)
    with short show ?thesis by (intro exI [of _ "[]"]) auto
  qed
qed

text \<open>However a stream was cut into writes, what is held back is its last bytes and what goes on the bytes before them.\<close>

lemma trailer_held:
  assumes "write_each (trailer_write inner n) bss (hold, out) = (Inr (), hold', out')" and "length hold \<le> n"
  shows "\<exists>bss'. write_each inner bss' out = (Inr (), out') \<and> concat bss' @ hold' = hold @ concat bss
    \<and> length hold' = min n (length hold + length (concat bss))"
  using assms
proof (induction bss arbitrary: hold out)
  case Nil
  then show ?case by (intro exI [of _ "[]"]) auto
next
  case (Cons bs bss)
  obtain r h1 o1 where t: "trailer_write inner n bs (hold, out) = (r, h1, o1)" by (metis prod.collapse)
  with Cons.prems(1) have r: "r = Inr ()" "write_each (trailer_write inner n) bss (h1, o1) = (Inr (), hold', out')" by (cases r; simp)+
  from trailer_write_ok [OF t [unfolded r(1)] Cons.prems(2)] obtain bss1 where
    b1: "write_each inner bss1 out = (Inr (), o1)" "concat bss1 @ h1 = hold @ bs" "length h1 = min n (length hold + length bs)" by blast
  from Cons.IH [OF r(2)] b1(3) obtain bss2 where
    b2: "write_each inner bss2 o1 = (Inr (), out')" "concat bss2 @ hold' = h1 @ concat bss"
      "length hold' = min n (length h1 + length (concat bss))" by auto
  have "concat (bss1 @ bss2) @ hold' = concat bss1 @ h1 @ concat bss" using b2(2) by simp
  also have "\<dots> = hold @ concat (bs # bss)" using b1(2) by (simp flip: append_assoc)
  finally show ?case using write_each_append [OF b1(1), of bss2] b2(1,3) b1(3)
    by (intro exI [of _ "bss1 @ bss2"]) auto
qed

lemma tee_each:
  "write_each (tee_write file digest) bss (out, g) = (Inr (), out', g')
    \<Longrightarrow> write_each file bss out = (Inr (), out') \<and> write_each digest bss g = (Inr (), g')"
  by (induction bss arbitrary: out g) (auto simp: tee_write_def split: prod.splits sum.splits)

section \<open>Consumers that fill a temporary file\<close>

lemma in_temp_file_result:
  assumes "in_temp_file tmp fill k (fs, g) = Some (r, k', fs', g')"
    and "\<forall>k a r k' a'. fill k a = Some (r, k', a') \<longrightarrow> only_temp tmp (fst a) (fst a')"
  shows "only_temp tmp fs fs'"
    and "r = Inr v \<Longrightarrow> \<exists>fs1 fs2. fs_files fs1 tmp = Some [] \<and> fill k (fs1, g) = Some (Inr v, k', fs2, g')
      \<and> fs_files fs' = fs_files fs2"
proof -
  obtain r1 fs1 where c: "file_create tmp fs = (r1, fs1)" by fastforce
  note cr = file_create_result [OF c]
  show "only_temp tmp fs fs'"
  proof (cases r1)
    case (Inl e)
    with assms(1) c cr(1) show ?thesis by (simp add: in_temp_file_def temp_create_def)
  next
    case (Inr u)
    with assms(1) c obtain filled k2 fs2 g2 where f: "fill k (fs1, g) = Some (filled, k2, fs2, g2)"
      by (auto simp: in_temp_file_def temp_create_def split: option.splits)
    obtain r3 fs3 where s: "file_flush_sync fs2 = (r3, fs3)" by fastforce
    have o2: "only_temp tmp fs fs2" using only_temp_trans [OF cr(1)] assms(2) f by fastforce
    have o3: "only_temp tmp fs fs3" using o2 file_flush_same [OF s] by (simp add: only_temp_def)
    show ?thesis
      using assms(1) c Inr f s o3 only_temp_trans [OF o2 temp_drop_only] only_temp_trans [OF o3 temp_drop_only]
      by (cases filled; cases r3) (auto simp: in_temp_file_def temp_create_def)
  qed
  show "\<exists>fs1 fs2. fs_files fs1 tmp = Some [] \<and> fill k (fs1, g) = Some (Inr v, k', fs2, g')
      \<and> fs_files fs' = fs_files fs2" if ok: "r = Inr v"
  proof -
    from assms(1) ok c have r1: "r1 = Inr ()" by (cases r1) (auto simp: in_temp_file_def temp_create_def)
    with assms(1) c obtain filled k2 fs2 g2 where f: "fill k (fs1, g) = Some (filled, k2, fs2, g2)"
      by (auto simp: in_temp_file_def temp_create_def split: option.splits)
    obtain r3 fs3 where s: "file_flush_sync fs2 = (r3, fs3)" by fastforce
    from assms(1) ok c r1 f s have "filled = Inr v" "k' = k2" "fs' = fs3" "g' = g2"
      by (cases filled; cases r3; auto simp: in_temp_file_def temp_create_def)+
    with f cr(2) r1 file_flush_same [OF s] show ?thesis by blast
  qed
qed

lemma tee_only: "only_temp tmp (fst a) (fst (snd (tee_write (file_write_all tmp) digest bs a)))"
  using file_write_result(1) [of tmp bs "fst a"] by (cases a) (auto simp: tee_write_def split: prod.split sum.split)

lemma trailer_only:
  "only_temp tmp (fst (snd h)) (fst (snd (snd (trailer_write (tee_write (file_write_all tmp) digest) n bs h))))"
proof -
  have tee: "only_temp tmp (fst a) (fst a')" if "tee_write (file_write_all tmp) digest bs a = (r, a')" for bs a r a'
    using tee_only [of tmp a digest bs] that by simp
  show ?thesis by (cases h)
    (auto simp: trailer_write_def Let_def split: prod.split sum.split dest!: tee intro: only_temp_trans)
qed

text \<open>The two fills: what the temporary file holds when they succeed.\<close>

lemma trailer_fill_result:
  assumes "trailer_fill tmp b digest n rd k (fs, g) = Some (r, k', fs', g')"
  shows "only_temp tmp fs fs'"
    and "r = Inr trailer \<Longrightarrow> \<exists>bss payload bss'. reads rd b k bss k' \<and> concat bss = payload @ trailer \<and> length trailer = n
      \<and> fs_files fs' tmp = Some payload \<and> write_each digest bss' g = (Inr (), g') \<and> concat bss' = payload"
proof -
  let ?wr = "trailer_write (tee_write (file_write_all tmp) digest) n"
  define fill where "fill = (\<lambda>k a. case io_copy rd ?wr b 0 k ([], a) of
         None \<Rightarrow> None
       | Some (Inl err, k, _, a) \<Rightarrow> Some (Inl err, k, a)
       | Some (Inr _, k, hold, a) \<Rightarrow> Some (into_trailer n hold, k, a))"
  have run: "in_temp_file tmp fill k (fs, g) = Some (r, k', fs', g')"
    using assms by (simp add: trailer_fill_def fill_def)
  have only: "\<forall>k a x k' a'. fill k a = Some (x, k', a') \<longrightarrow> only_temp tmp (fst a) (fst a')"
  proof (intro allI impI)
    fix k a x k' a' assume f: "fill k a = Some (x, k', a')"
    then obtain y hold where c: "io_copy rd ?wr b 0 k ([], a) = Some (y, k', hold, a')"
      by (auto simp: fill_def split: option.splits sum.splits)
    have "only_temp tmp (fst (snd ([] :: bytes, a))) (fst (snd (snd (snd (y, k', hold, a')))))"
      by (rule io_copy_keeps [of rd ?wr b 0 k "([], a)" _ "\<lambda>x y. only_temp tmp (fst (snd x)) (fst (snd y))", OF c])
        (simp_all add: trailer_only, blast intro: only_temp_trans)
    then show "only_temp tmp (fst a) (fst a')" by simp
  qed
  show "only_temp tmp fs fs'" by (rule in_temp_file_result(1) [OF run only])
  show "\<exists>bss payload bss'. reads rd b k bss k' \<and> concat bss = payload @ trailer \<and> length trailer = n
      \<and> fs_files fs' tmp = Some payload \<and> write_each digest bss' g = (Inr (), g') \<and> concat bss' = payload" if ok: "r = Inr trailer"
  proof -
    from in_temp_file_result(2) [OF run only ok] obtain fs1 fs2 where
      f: "fs_files fs1 tmp = Some []" "fill k (fs1, g) = Some (Inr trailer, k', fs2, g')" "fs_files fs' = fs_files fs2" by blast
    from f(2) obtain m where c: "io_copy rd ?wr b 0 k ([], fs1, g) = Some (Inr m, k', trailer, fs2, g')" and len: "n \<le> length trailer"
      by (auto simp: fill_def into_trailer_def split: option.splits sum.splits if_splits)
    from io_copy_done [OF c] obtain bss where r: "reads rd b k bss k'" "write_each ?wr bss ([], fs1, g) = (Inr (), trailer, fs2, g')" by blast
    from trailer_held [OF r(2)] len obtain bss' where t: "write_each (tee_write (file_write_all tmp) digest) bss' (fs1, g) = (Inr (), fs2, g')"
      "concat bss' @ trailer = concat bss" "length trailer = n" by auto
    from tee_each [OF t(1)] write_each_file [of tmp bss' fs1 fs2 "[]"] f(1,3) t r(1) show ?thesis
      by (intro exI [of _ bss] exI [of _ "concat bss'"] exI [of _ bss']) simp
  qed
qed

lemma file_fill_result:
  fixes g :: 'g
  assumes "file_fill tmp b rd k (fs, g) = Some (r, k', fs', g')"
  shows "only_temp tmp fs fs'"
    and "r = Inr count \<Longrightarrow> \<exists>bss. reads rd b k bss k' \<and> fs_files fs' tmp = Some (concat bss) \<and> count = length (concat bss)"
proof -
  have run: "in_temp_file tmp (io_copy rd (file_writer tmp) b 0) k (fs, g) = Some (r, k', fs', g')"
    using assms by (simp add: file_fill_def)
  have w: "only_temp tmp (fst a) (fst (snd (file_writer tmp bs a)))" for bs and a :: "Fs \<times> 'g"
    using file_write_result(1) [of tmp bs "fst a"] by (auto simp: file_writer_def split: prod.split)
  have "only_temp tmp (fst a) (fst a')" if f: "io_copy rd (file_writer tmp) b 0 k a = Some (x, k', a')" for k x k' and a a' :: "Fs \<times> 'g"
    using io_copy_keeps [of rd "file_writer tmp" b 0 k a _ "\<lambda>x y. only_temp tmp (fst x) (fst y)", OF f w only_temp_refl only_temp_trans] by simp
  then have only: "\<forall>k (a :: Fs \<times> 'g) x k' a'. io_copy rd (file_writer tmp) b 0 k a = Some (x, k', a') \<longrightarrow> only_temp tmp (fst a) (fst a')"
    by blast
  show "only_temp tmp fs fs'" by (rule in_temp_file_result(1) [OF run only])
  show "\<exists>bss. reads rd b k bss k' \<and> fs_files fs' tmp = Some (concat bss) \<and> count = length (concat bss)" if ok: "r = Inr count"
  proof -
    from in_temp_file_result(2) [OF run only ok] obtain fs1 fs2 where
      f: "fs_files fs1 tmp = Some []" "io_copy rd (file_writer tmp) b 0 k (fs1, g) = Some (Inr count, k', fs2, g')" "fs_files fs' = fs_files fs2" by blast
    from io_copy_done [OF f(2)] obtain bss where r: "reads rd b k bss k'" "write_each (file_writer tmp) bss (fs1, g) = (Inr (), fs2, g')"
      "count = length (concat bss)" by auto
    have "write_each (file_write_all tmp) bss fs1 = (Inr (), fs2)"
      using r(2) by (induction bss arbitrary: fs1) (auto simp: file_writer_def split: prod.splits sum.splits)
    from write_each_file [OF this f(1)] f(3) r show ?thesis by auto
  qed
qed

lemma commit_verified_result:
  assumes "commit_verified verdict tmp path fs = (r, fs')" and "tmp \<noteq> path" and "fs_files fs tmp = Some content"
  shows "r = Inl err \<Longrightarrow> only_temp tmp fs fs'"
    and "r = Inr () \<Longrightarrow> verdict = Inr () \<and> fs_files fs' = (fs_files fs)(tmp := None, path \<mapsto> content)"
  using assms temp_drop_only [of tmp fs] temp_commit_result [of tmp path fs r fs' content]
  by (cases verdict; auto simp: commit_verified_def)+

lemma trailer_consumed:
  assumes "consume_with \<lparr>cm_plain = trailer_fill tmp b digest n, cm_zstd = trailer_fill tmp b digest n\<rparr> zr decode rd k (fs, g)
      = Some (r, k', fs', g')"
  shows "only_temp tmp fs fs'"
    and "r = Inr trailer \<Longrightarrow> \<exists>payload bss'. content_of zr decode rd b k (payload @ trailer) k' \<and> length trailer = n
      \<and> fs_files fs' tmp = Some payload \<and> write_each digest bss' g = (Inr (), g') \<and> concat bss' = payload"
proof (atomize (full), cases decode)
  case Comp_None
  with assms have f: "trailer_fill tmp b digest n rd k (fs, g) = Some (r, k', fs', g')" by (simp add: consume_with_def)
  from trailer_fill_result(1) [OF f] trailer_fill_result(2) [OF f, of trailer] Comp_None
  show "only_temp tmp fs fs' \<and> (r = Inr trailer \<longrightarrow> (\<exists>payload bss'. content_of zr decode rd b k (payload @ trailer) k' \<and> length trailer = n
      \<and> fs_files fs' tmp = Some payload \<and> write_each digest bss' g = (Inr (), g') \<and> concat bss' = payload))"
    by (fastforce simp: content_of_def)
next
  case Comp_Zstd
  with assms obtain d where f: "trailer_fill tmp b digest n (zr_read zr rd) (zr_init zr, k) (fs, g) = Some (r, (d, k'), fs', g')"
    by (auto simp: consume_with_def)
  from trailer_fill_result(1) [OF f] trailer_fill_result(2) [OF f, of trailer] Comp_Zstd
  show "only_temp tmp fs fs' \<and> (r = Inr trailer \<longrightarrow> (\<exists>payload bss'. content_of zr decode rd b k (payload @ trailer) k' \<and> length trailer = n
      \<and> fs_files fs' tmp = Some payload \<and> write_each digest bss' g = (Inr (), g') \<and> concat bss' = payload))"
    by (fastforce simp: content_of_def)
qed

text \<open>
  C28. A pull with a trailer publishes exactly what was verified: if it succeeds, the stream's content is the file's content
  followed by a trailer of the given length, the digest was fed exactly the file's content, and the verifier
  accepted that digest and that trailer. If it fails the final path is as it was; nothing but it and its sibling changes.
\<close>

theorem trailer_verified_sound:
  fixes env :: "('w, 'd, 's) pull_env" and g :: 'g
  assumes "pe_sibling env path \<noteq> path"
    and "pull_to_file_trailer_verified env resource path n digest g verify w fs = Some (r, w', fs')"
  shows "(\<forall>p. p \<noteq> path \<and> p \<noteq> pe_sibling env path \<longrightarrow> fs_files fs' p = fs_files fs p)
    \<and> (case r of
         Inl _ \<Rightarrow> fs_files fs' path = fs_files fs path
       | Inr _ \<Rightarrow> \<exists>opened w1 payload trailer k' bss g'.
             open_stream (pe_client env) (pe_codec env) resource w = (Inr opened, w1)
           \<and> content_of (pe_zstd env) (oi_compression opened) (env_read env) (pe_bufsize env)
               (chunk_reader_new (oi_stream_id opened), w1) (payload @ trailer) k'
           \<and> length trailer = n \<and> fs_files fs' path = Some payload \<and> fs_files fs' (pe_sibling env path) = None
           \<and> write_each digest bss g = (Inr (), g') \<and> concat bss = payload \<and> verify g' trailer = Inr ())"
proof -
  let ?tmp = "pe_sibling env path"
  let ?cm = "\<lparr>cm_plain = trailer_fill ?tmp (pe_bufsize env) digest n, cm_zstd = trailer_fill ?tmp (pe_bufsize env) digest n\<rparr>
    :: (ChunkReader \<times> 'w, 'd, 's, Fs \<times> 'g, bytes) consumer"
  obtain x w1 where o: "open_stream (pe_client env) (pe_codec env) resource w = (x, w1)" by fastforce
  show ?thesis
  proof (cases x)
    case (Inl err)
    with assms(2) o have "fs' = fs" "r = Inl err" by (simp_all add: pull_to_file_trailer_verified_def pull_consume_def Let_def)
    then show ?thesis by simp
  next
    case (Inr opened)
    let ?k = "(chunk_reader_new (oi_stream_id opened), w1)"
    from assms(2) o Inr obtain r1 k1 fs1 g1 where
      c: "consume_with ?cm (pe_zstd env) (oi_compression opened) (env_read env) ?k (fs, g) = Some (r1, k1, fs1, g1)"
      by (auto simp: pull_to_file_trailer_verified_def pull_consume_def Let_def split: option.splits)
    note used = trailer_consumed [OF c]
    show ?thesis
    proof (cases r1)
      case (Inl err)
      with assms(2) o Inr c have "fs' = fs1" "r = Inl err"
        by (cases k1; simp add: pull_to_file_trailer_verified_def pull_consume_def Let_def)+
      with used(1) assms(1) show ?thesis by (auto simp: only_temp_def)
    next
      case r1: (Inr trailer)
      obtain r2 fs2 where m: "commit_verified (verify g1 trailer) ?tmp path fs1 = (r2, fs2)" by fastforce
      with assms(2) o Inr c r1 have res: "fs' = fs2" "r = r2"
        by (cases k1; simp add: pull_to_file_trailer_verified_def pull_consume_def Let_def)+
      from used(2) [OF r1] obtain payload bss where p: "content_of (pe_zstd env) (oi_compression opened) (env_read env)
          (pe_bufsize env) ?k (payload @ trailer) k1" "length trailer = n" "fs_files fs1 ?tmp = Some payload"
        "write_each digest bss g = (Inr (), g1)" "concat bss = payload" by blast
      note committed = commit_verified_result [OF m assms(1) p(3)]
      show ?thesis
      proof (cases r2)
        case (Inl err)
        with committed(1) used(1) res assms(1) show ?thesis by (fastforce simp: only_temp_def)
      next
        case r2: (Inr u)
        with committed(2) have v: "verify g1 trailer = Inr ()" "fs_files fs2 = (fs_files fs1)(?tmp := None, path \<mapsto> payload)" by auto
        have "\<forall>p. p \<noteq> path \<and> p \<noteq> ?tmp \<longrightarrow> fs_files fs' p = fs_files fs p"
          using used(1) v(2) res(1) by (simp add: only_temp_def)
        moreover have "fs_files fs' path = Some payload" "fs_files fs' ?tmp = None" using v(2) res(1) assms(1) by simp_all
        ultimately show ?thesis using o Inr p v(1) res(2) r2 by (cases k1) fastforce
      qed
    qed
  qed
qed

section \<open>The asynchronous file pull\<close>

lemma file_consumed:
  assumes "consume_with \<lparr>cm_plain = file_fill tmp b, cm_zstd = file_fill tmp b\<rparr> zr decode rd k (fs, g) = Some (r, k', fs', g')"
  shows "only_temp tmp fs fs'"
    and "r = Inr count \<Longrightarrow> \<exists>content. content_of zr decode rd b k content k' \<and> fs_files fs' tmp = Some content \<and> count = length content"
proof (atomize (full), cases decode)
  case Comp_None
  with assms have f: "file_fill tmp b rd k (fs, g) = Some (r, k', fs', g')" by (simp add: consume_with_def)
  from file_fill_result(1) [OF f] file_fill_result(2) [OF f, of count] Comp_None
  show "only_temp tmp fs fs' \<and> (r = Inr count \<longrightarrow>
      (\<exists>content. content_of zr decode rd b k content k' \<and> fs_files fs' tmp = Some content \<and> count = length content))"
    by (fastforce simp: content_of_def)
next
  case Comp_Zstd
  with assms obtain d where f: "file_fill tmp b (zr_read zr rd) (zr_init zr, k) (fs, g) = Some (r, (d, k'), fs', g')"
    by (auto simp: consume_with_def)
  from file_fill_result(1) [OF f] file_fill_result(2) [OF f, of count] Comp_Zstd
  show "only_temp tmp fs fs' \<and> (r = Inr count \<longrightarrow>
      (\<exists>content. content_of zr decode rd b k content k' \<and> fs_files fs' tmp = Some content \<and> count = length content))"
    by (fastforce simp: content_of_def)
qed

lemma channel_content_fetched:
  fixes c :: "('w, 's) svs_client"
  assumes "content_of zr Comp_None (channel_read c sc) b (channel_reader_new stream_id, w) content k'" and "0 < b" and "channel_sound k'"
  obtains cs where "fetches c sc stream_id False w cs True (snd k')" and "content = concat cs"
proof -
  from assms(1) obtain bss where r: "reads (channel_read c sc) b (channel_reader_new stream_id, w) bss k'" "content = concat bss"
    by (auto simp: content_of_def)
  from channel.reads_got [OF r(1) assms(2,3)] obtain cs where "channel_got c sc (channel_reader_new stream_id, w) cs k'"
    "channel_pending (channel_reader_new stream_id :: 's ChannelReader, w) @ concat cs = concat bss" "channel_ended k'" by blast
  with r(2) that [of cs] show thesis by (simp add: channel_got_def channel_reader_new_def channel_pending_def channel_ended_def)
qed

text \<open>What \<^verbatim>\<open>run_pull\<close> makes of a consumer: success only when the consumer and the pull loop both succeeded.\<close>

lemma run_pull_result:
  assumes "run_pull env opened cm discard w a = Some (r, w', a')"
  obtains r1 ch w1 a1 where
    "consume_with cm (ae_zstd env) (oi_compression opened) (channel_read (ae_client env) (ae_codec env))
       (channel_reader_new (oi_stream_id opened), w) a = Some (r1, (ch, w1), a1)"
    and "(\<exists>v. r1 = Inr v \<and> r = r1 \<and> a' = a1 \<and> channel_sound (ch, w1)) \<or> (\<exists>err. r = Inl err) \<and> a' \<in> {a1, discard a1}"
proof -
  from assms obtain r1 ch w1 a1 where c: "consume_with cm (ae_zstd env) (oi_compression opened) (channel_read (ae_client env) (ae_codec env))
       (channel_reader_new (oi_stream_id opened), w) a = Some (r1, (ch, w1), a1)"
    by (auto simp: run_pull_def split: option.splits)
  have "(\<exists>v. r1 = Inr v \<and> r = r1 \<and> a' = a1 \<and> channel_sound (ch, w1)) \<or> (\<exists>err. r = Inl err) \<and> a' \<in> {a1, discard a1}"
    using assms c by (auto simp: run_pull_def Let_def channel_sound_def split: option.splits sum.splits)
  with c that show thesis by blast
qed


section \<open>Examples\<close>

declare io_copy.simps [code] chunk_read.simps [code] channel_read.simps [code] pull_rest.simps [code]

text \<open>A client that answers from a script: the response to the open, then the chunks.\<close>

definition script_client :: "(Message list, unit) svs_client" where
  "script_client =
     \<lparr>vc_call = (\<lambda>_ _ _ _ w. case w of m # ms \<Rightarrow> (Inr m, ms) | [] \<Rightarrow> (Inl (RE_Io (IoError K_ConnectionReset [])), [])),
      vc_notify = (\<lambda>_ _ _ _ w. (Inr (), w))\<rparr>"

definition script_codec :: "unit svs_codec" where
  "script_codec =
     \<lparr>sc_open = (\<lambda>_. []), sc_de_open = (\<lambda>_. None), sc_next = (\<lambda>_. []), sc_de_next = (\<lambda>_. None), sc_cancel = (\<lambda>_. []),
      sc_de_cancel = (\<lambda>_. None), sc_opened = (\<lambda>_. []),
      sc_de_opened = (\<lambda>_. Inr \<lparr>op_version = 1, op_stream_id = 5, op_format = 1, op_compression = 0\<rparr>), sc_ack = (\<lambda>_. [])\<rparr>"

definition script :: "Message list" where
  "script =
     [build (with_body_bytes [] (with_body_format BF_Beve builder)),
      build (with_body_bytes [1, 2] (with_query_bytes [0] builder)),
      build (with_body_bytes [3] (with_query_bytes [1] builder))]"

definition script_env :: "(Message list, unit, unit) pull_env" where
  "script_env =
     \<lparr>pe_client = script_client, pe_codec = script_codec, pe_show = (\<lambda>_. []), pe_bufsize = 8,
      pe_zstd = \<lparr>zr_init = (), zr_read = (\<lambda>rd b (d, k). map_option (\<lambda>(r, k). (r, d, k)) (rd b k))\<rparr>,
      pe_sibling = (\<lambda>path. path @ ''.svspart'')\<rparr>"

definition no_reader :: "(Message list, unit, unit, unit) value_reader" where
  "no_reader = \<lparr>rv_plain = (\<lambda>_ _. None), rv_zstd = (\<lambda>_ _. None)\<rparr>"

definition empty_fs :: Fs where
  "empty_fs = \<lparr>fs_files = Map.empty, fs_faults = []\<rparr>"

theorem pulled_file_atomic_witness:
  "\<exists>w' fs'. pull_stream script_env (\<lambda>_. ()) no_reader ''r'' (SO_RawFile ''f'') script empty_fs = Some (Inr None, w', fs')
    \<and> fs_files fs' ''f'' = Some [1, 2, 3] \<and> fs_files fs' ''other'' = None"
proof -
  have "case pull_stream script_env (\<lambda>_. ()) no_reader ''r'' (SO_RawFile ''f'') script empty_fs of
      Some (r, w', fs') \<Rightarrow> r = Inr None \<and> fs_files fs' ''f'' = Some [1, 2, 3] | None \<Rightarrow> False"
    by code_simp
  then obtain w' fs' where run: "pull_stream script_env (\<lambda>_. ()) no_reader ''r'' (SO_RawFile ''f'') script empty_fs = Some (Inr None, w', fs')"
    "fs_files fs' ''f'' = Some [1, 2, 3]" by (auto split: option.splits)
  moreover have "fs_files fs' ''other'' = None"
    using pulled_file_atomic [of "SO_RawFile ''f''" "''f''" script_env, OF _ _ _ run(1)]
    by (simp add: script_env_def empty_fs_def)
  ultimately show ?thesis by blast
qed

text \<open>A digest that sums the bytes, and a trailer of one byte that must equal the sum.\<close>

definition sum_digest :: "bytes \<Rightarrow> u8 \<Rightarrow> (io_error + unit) \<times> u8" where
  "sum_digest bs g = (Inr (), g + sum_list bs)"

definition sum_verify :: "u8 \<Rightarrow> bytes \<Rightarrow> unit RepeError + unit" where
  "sum_verify g trailer = (if trailer = [g] then Inr () else Inl (RE_Io (IoError K_InvalidData [])))"

theorem trailer_verified_sound_witness:
  "\<exists>w' fs'. pull_to_file_trailer_verified script_env ''r'' ''f'' 1 sum_digest 0 sum_verify script empty_fs = Some (Inr (), w', fs')
    \<and> fs_files fs' ''f'' = Some [1, 2] \<and> fs_files fs' ''other'' = None"
proof -
  have "case pull_to_file_trailer_verified script_env ''r'' ''f'' 1 sum_digest 0 sum_verify script empty_fs of
      Some (r, w', fs') \<Rightarrow> r = Inr () \<and> fs_files fs' ''f'' = Some [1, 2] | None \<Rightarrow> False"
    by code_simp
  then obtain w' fs' where run: "pull_to_file_trailer_verified script_env ''r'' ''f'' 1 sum_digest 0 sum_verify script empty_fs = Some (Inr (), w', fs')"
    "fs_files fs' ''f'' = Some [1, 2]" by (auto split: option.splits)
  moreover have "fs_files fs' ''other'' = None"
    using trailer_verified_sound [of script_env "''f''", OF _ run(1)] by (simp add: script_env_def empty_fs_def)
  ultimately show ?thesis by blast
qed

definition script_async :: "(Message list, unit, unit) async_env" where
  "script_async =
     \<lparr>ae_client = script_client, ae_codec = script_codec, ae_bufsize = 8,
      ae_zstd = \<lparr>zr_init = (), zr_read = (\<lambda>rd b (d, k). map_option (\<lambda>(r, k). (r, d, k)) (rd b k))\<rparr>,
      ae_sibling = (\<lambda>path. path @ ''.svspart''), ae_lag = 0, ae_join_error = None\<rparr>"


end
