(* ===== verification/Value_Service.thy ===== *)
theory Value_Service
  imports Value_Files Client
begin

text \<open>
  A client pulling from a server that produces: the client's requests go as frames through
  \<^verbatim>\<open>Router::call\<close>, its responses are parsed and checked as the client does. The bytes the
  producer wrote arrive, whatever the chunk size, compressed or not.
\<close>

section \<open>Requests of one client, served one after the other\<close>

definition svs_request :: "u64 \<Rightarrow> string \<Rightarrow> u16 \<Rightarrow> bytes option \<Rightarrow> u16 \<Rightarrow> Message" where
  "svs_request rid path query_format body body_format =
     request_message rid (ac_request (call_with_formats path query_format body body_format :: (unit, Message) api_call))"

definition served_client :: "nat \<Rightarrow> ('s RepeError \<Rightarrow> string) \<Rightarrow> ('x, 's) Router \<Rightarrow> (u64 \<times> 'x, 's) svs_client" where
  "served_client usize_max show_err router =
     \<lparr>vc_call = (\<lambda>path query_format body body_format (rid, x).
        case router_call usize_max show_err router (message_to_vec (svs_request rid path query_format body body_format)) x of
          Some (Some frame, x) \<Rightarrow> (res_bind (message_from_slice usize_max frame) (validate_response rid), rid + 1, x)
        | Some (None, x) \<Rightarrow> (Inl (response_channel_closed_error rid), rid + 1, x)
        | None \<Rightarrow> (Inl (response_channel_closed_error rid), rid + 1, x)),
      vc_notify = (\<lambda>path query_format body body_format (rid, x).
        case router_call usize_max show_err router
               (message_to_vec (notify_message rid (ac_request
                 (call_with_formats path query_format body body_format :: (unit, Message) api_call)))) x of
          Some (_, x) \<Rightarrow> (Inr (), rid + 1, x)
        | None \<Rightarrow> (Inl (response_channel_closed_error rid), rid + 1, x))\<rparr>"

lemma svs_request_build:
  "svs_request rid path qf (Some bs) bf =
     build (with_body_format_code bf (with_body_bytes bs (with_query_format_code qf (with_query_str path (with_id rid builder)))))"
  by (simp add: svs_request_def request_message_def call_with_formats_def call_message_with_formats_and_timeout_def formats_body_def)

lemma svs_request_wf:
  assumes "HEADER_SIZE + length (as_bytes path) + length bs \<le> usize_max" and "usize_max < 2 ^ 64"
  shows "wf_message usize_max (svs_request rid path qf (Some bs) bf)"
  unfolding svs_request_build by (rule build_wf) (use assms in \<open>simp_all add: builder_defs\<close>)

lemma svs_request_fields:
  "m_body (svs_request rid path qf (Some bs) bf) = bs" "m_query (svs_request rid path qf (Some bs) bf) = as_bytes path"
  "h_id (m_header (svs_request rid path qf (Some bs) bf)) = rid" "h_version (m_header (svs_request rid path qf (Some bs) bf)) = REPE_VERSION"
  "h_notify (m_header (svs_request rid path qf (Some bs) bf)) = 0" "h_query_format (m_header (svs_request rid path qf (Some bs) bf)) = qf"
  by (simp_all add: svs_request_build build_def builder_defs Let_def header_new_def)

text \<open>A handler's own response, built without an error under the request's id, reaches the caller.\<close>

lemma served_call:
  fixes router :: "('x, 's) Router"
  assumes "router_get router path = Some (plain_handler handle\<lparr>hd_execution := ex\<rparr>)" and "ascii_str path"
    and "HEADER_SIZE + length path + length bs \<le> usize_max" and "usize_max < 2 ^ 64"
    and "handle (svs_request rid path (query_format_u16 QF_JsonPointer) (Some bs) bf) x = (Inr (build b), x')"
    and "b_id b = rid" and "b_ec b = 0" and "HEADER_SIZE + length path + length (b_query b) + length (b_body b) \<le> usize_max"
  shows "vc_call (served_client usize_max show_err router) path (query_format_u16 QF_JsonPointer) (Some bs) bf (rid, x)
    = (Inr (build (b\<lparr>b_query := if b_query b = [] then as_bytes path else b_query b\<rparr>)), rid + 1, x')"
proof -
  define m where "m = svs_request rid path (query_format_u16 QF_JsonPointer) (Some bs) bf"
  let ?b = "b\<lparr>b_query := if b_query b = [] then as_bytes path else b_query b\<rparr>"
  have wf: "wf_message usize_max m" unfolding m_def by (rule svs_request_wf) (use assms in simp_all)
  have v: "v_header (message_view m) = m_header m" "v_query (message_view m) = as_bytes path" "to_message (message_view m) = m"
    "m_query m = as_bytes path"
    by (simp_all add: message_view_def to_message_def m_def svs_request_fields)
  have "route router (m_header m) (as_bytes path) = RO_Dispatch (plain_handler handle\<lparr>hd_execution := ex\<rparr>) False path"
    using assms(1) by (simp add: m_def route_def svs_request_fields query_format_cases from_utf8_ascii [OF assms(2)] Let_def)
  then have "route_request_view show_err router (message_view m) x = (Some (build b), x')"
    using assms(5) [folded m_def] by (simp add: route_request_view_def v dispatch_view_def plain_handler_def)
  moreover have bq: "m_query (build b) = b_query b" by (simp add: build_def Let_def)
  ultimately
  have call: "router_call usize_max show_err router (message_to_vec m) x = Some (Some (message_to_vec (build ?b)), x')"
    using router_call_frame [OF wf, of show_err router x] by (simp add: v framed_build response_echo_query_def)
  have "wf_message usize_max (build ?b)" by (rule build_wf) (use assms(4,8) in auto)
  from msg.dec_enc_append [OF this, of "[]"] have "message_from_slice usize_max (message_to_vec (build ?b)) = (Inr (build ?b) :: 's RepeError + Message)"
    by simp
  moreover have "validate_response rid (build ?b) = (Inr (build ?b) :: 's RepeError + Message)"
    using assms(6,7) by (simp add: validate_response_def build_def Let_def header_new_def)
  ultimately show ?thesis by (simp only: served_client_def svs_client.simps prod.case call m_def [symmetric] option.case res_bind.simps)
qed

section \<open>The routes of a producing server\<close>

definition svs_router ::
    "('x \<Rightarrow> SessionTable) \<Rightarrow> (SessionTable \<Rightarrow> 'x \<Rightarrow> 'x) \<Rightarrow> 's svs_codec \<Rightarrow> (BodyWriter \<Rightarrow> Msg list)
      \<Rightarrow> (string \<Rightarrow> BodyWriter option) \<Rightarrow> u16 \<Rightarrow> StreamOpts \<Rightarrow> ('x, 's) Router" where
  "svs_router get put sc producer make_body format opts = register_svs get put sc producer make_body format opts router_new"

lemma svs_routes:
  "router_get (svs_router get put sc producer make_body format opts) ROUTE_OPEN
    = Some (plain_handler (\<lambda>req w. case open_handle sc producer make_body opts format req (get w) of (m, t) \<Rightarrow> (Inr m, put t w))\<lparr>hd_execution := Inline\<rparr>)"
  "router_get (svs_router get put sc producer make_body format opts) ROUTE_NEXT
    = Some (plain_handler (\<lambda>req w. case next_handle sc req (get w) of (m, t) \<Rightarrow> (Inr m, put t w))\<lparr>hd_execution := OffReader\<rparr>)"
  "ascii_str ROUTE_OPEN" "ascii_str ROUTE_NEXT" "length ROUTE_OPEN = 10" "length ROUTE_NEXT = 10"
  by (simp_all add: svs_router_def register_svs_def with_erased_handler_def insert_route_def router_get_def router_new_def
      wrap_with_middlewares_def table_handler_def next_handler_def ROUTE_OPEN_def ROUTE_NEXT_def ROUTE_CANCEL_def ascii_str_def plain_handler_def)

text \<open>What is relied on in the BEVE encoding of the requests and responses: they read back, and they fit a frame.\<close>

definition svs_codec_ok :: "nat \<Rightarrow> 's svs_codec \<Rightarrow> bool" where
  "svs_codec_ok usize_max sc \<longleftrightarrow>
     (\<forall>resource. sc_de_open sc (sc_open sc resource) = Some resource)
     \<and> (\<forall>stream_id. sc_de_next sc (sc_next sc stream_id) = Some stream_id \<and> HEADER_SIZE + 10 + length (sc_next sc stream_id) \<le> usize_max)
     \<and> (\<forall>resp. sc_de_opened sc (sc_opened sc resp) = Inr resp \<and> HEADER_SIZE + 10 + length (sc_opened sc resp) \<le> usize_max)"

section \<open>A session's chunks\<close>

definition upcoming :: "Session \<Rightarrow> Msg list" where
  "upcoming s = (case ss_lookahead s of Some c \<Rightarrow> [M_Chunk c] | None \<Rightarrow> []) @ ss_rx s"

lemma locked_pull_more:
  assumes "upcoming s = M_Chunk c # M_Chunk c' # ms" and "\<not> ss_done s"
  shows "\<exists>s'. locked_pull s = (Inr (c, False), s') \<and> upcoming s' = M_Chunk c' # ms \<and> \<not> ss_done s'"
  using assms by (cases "ss_lookahead s") (auto simp: upcoming_def locked_pull_def session_pull_def session_recv_def Let_def)

lemma locked_pull_end:
  assumes "upcoming s = map M_Chunk cs @ [M_End]" and "length cs \<le> 1" and "\<not> ss_done s"
  shows "\<exists>s'. locked_pull s = (Inr (concat cs, True), s')"
  using assms by (cases cs; cases "ss_lookahead s")
    (auto simp: upcoming_def locked_pull_def session_pull_def session_recv_def Let_def)

lemma served_next:
  fixes sc :: "'s svs_codec"
  assumes "svs_codec_ok usize_max sc" and "usize_max < 2 ^ 64"
    and "session_get stream_id (get x) = Some i" and "locked_pull (st_heap (get x) ! i) = (Inr (chunk, is_last), s')"
    and "HEADER_SIZE + 11 + length chunk \<le> usize_max"
  shows "next_request (served_client usize_max show_err (svs_router get put sc producer make_body format opts)) sc stream_id (rid, x)
    = (Inr (chunk, is_last), rid + 1,
        put (let t = (get x)\<lparr>st_heap := (st_heap (get x))[i := s']\<rparr> in if is_last then session_remove stream_id t else t) x)"
proof -
  let ?b = "with_body_bytes chunk (with_body_format BF_RawBinary (with_query_bytes [if is_last then 1 else 0]
       (with_query_format QF_RawBinary (with_id rid builder))))"
  let ?t = "let t = (get x)\<lparr>st_heap := (st_heap (get x))[i := s']\<rparr> in if is_last then session_remove stream_id t else t"
  have de: "sc_de_next sc (sc_next sc stream_id) = Some stream_id" "HEADER_SIZE + 10 + length (sc_next sc stream_id) \<le> usize_max"
    using assms(1) by (auto simp: svs_codec_ok_def)
  have "next_handle sc (svs_request rid ROUTE_NEXT (query_format_u16 QF_JsonPointer) (Some (sc_next sc stream_id)) (body_format_u16 BF_Beve)) (get x)
      = (build ?b, ?t)"
    using assms(3,4) by (simp add: next_handle_def svs_request_fields de(1) chunk_response_def Let_def)
  then have "vc_call (served_client usize_max show_err (svs_router get put sc producer make_body format opts)) ROUTE_NEXT
        (query_format_u16 QF_JsonPointer) (Some (sc_next sc stream_id)) (body_format_u16 BF_Beve) (rid, x)
      = (Inr (build (?b\<lparr>b_query := if b_query ?b = [] then as_bytes ROUTE_NEXT else b_query ?b\<rparr>)), rid + 1, put ?t x)"
    by (intro served_call [OF svs_routes(2,4)]) (use de(2) assms(2,5) in \<open>simp_all add: svs_routes(6) builder_defs\<close>)
  then show ?thesis by (simp add: next_request_def builder_defs build_def Let_def)
qed

text \<open>All chunks of a session, one request each; an empty stream is one empty last chunk.\<close>

definition delivered_chunks :: "bytes list \<Rightarrow> bytes list" where
  "delivered_chunks cs = (if cs = [] then [[]] else cs)"

lemma session_fetches:
  fixes sc :: "'s svs_codec"
  assumes "svs_codec_ok usize_max sc" and "usize_max < 2 ^ 64" and "\<And>t x. get (put t x) = t"
    and "session_get stream_id (get x) = Some i" and "i < length (st_heap (get x))"
    and "upcoming (st_heap (get x) ! i) = map M_Chunk cs @ [M_End]" and "\<not> ss_done (st_heap (get x) ! i)"
    and "\<forall>c\<in>set cs. HEADER_SIZE + 11 + length c \<le> usize_max" and "HEADER_SIZE + 11 \<le> usize_max"
  shows "\<exists>w'. fetches (served_client usize_max show_err (svs_router get put sc producer make_body format opts)) sc stream_id
    False (rid, x) (delivered_chunks cs) True w'"
  using assms(4-8)
proof (induction cs arbitrary: rid x rule: induct_list012)
  case 1
  from locked_pull_end [of _ "[]", OF 1(3)] 1(4) obtain s' where "locked_pull (st_heap (get x) ! i) = (Inr ([], True), s')" by auto
  from served_next [where get = get and x = x and i = i, OF assms(1,2) 1(1) this] assms(9) show ?case
    by (force simp: delivered_chunks_def intro: fetches_more fetches_none)
next
  case (2 c)
  from locked_pull_end [of _ "[c]", OF 2(3)] 2(4) obtain s' where "locked_pull (st_heap (get x) ! i) = (Inr (c, True), s')" by auto
  from served_next [where get = get and x = x and i = i, OF assms(1,2) 2(1) this] 2(5) show ?case
    by (force simp: delivered_chunks_def intro: fetches_more fetches_none)
next
  case (3 c c' cs)
  from 3(5) have "upcoming (st_heap (get x) ! i) = M_Chunk c # M_Chunk c' # map M_Chunk cs @ [M_End]" by simp
  from locked_pull_more [OF this 3(6)] obtain s' where s': "locked_pull (st_heap (get x) ! i) = (Inr (c, False), s')"
    "upcoming s' = M_Chunk c' # map M_Chunk cs @ [M_End]" "\<not> ss_done s'" by blast
  let ?t = "(get x)\<lparr>st_heap := (st_heap (get x))[i := s']\<rparr>"
  from served_next [where get = get and x = x and i = i, OF assms(1,2) 3(3) s'(1), where show_err = show_err and put = put and producer = producer and make_body = make_body and format = format
      and opts = opts and rid = rid] 3(7)
  have n: "next_request (served_client usize_max show_err (svs_router get put sc producer make_body format opts)) sc stream_id (rid, x)
    = (Inr (c, False), rid + 1, put ?t x)" by simp
  have "\<exists>w'. fetches (served_client usize_max show_err (svs_router get put sc producer make_body format opts)) sc stream_id
      False (rid + 1, put ?t x) (delivered_chunks (c' # cs)) True w'"
    by (rule "3.IH"(2)) (use 3 s' assms(3) in \<open>simp_all add: session_get_def\<close>)
  then obtain w' where "fetches (served_client usize_max show_err (svs_router get put sc producer make_body format opts)) sc stream_id
      False (rid + 1, put ?t x) (c' # cs) True w'" by (auto simp: delivered_chunks_def)
  from fetches_more [OF n this] show ?case unfolding delivered_chunks_def by (simp del: split_paired_Ex) blast
qed

section \<open>From the producer to the consumer\<close>

lemma served_open:
  fixes sc :: "'s svs_codec"
  assumes "svs_codec_ok usize_max sc" and "usize_max < 2 ^ 64" and "make_body resource = Some body"
    and "HEADER_SIZE + 10 + length (sc_open sc resource) \<le> usize_max"
  shows "open_stream (served_client usize_max show_err (svs_router get put sc producer make_body format opts)) sc resource (rid, x)
    = (Inr \<lparr>oi_stream_id = st_next_id (get x), oi_format = format, oi_compression = so_compression opts\<rparr>, rid + 1,
        put ((get x)\<lparr>st_next_id := st_next_id (get x) + 1,
          st_sessions := (st_sessions (get x))(st_next_id (get x) \<mapsto> length (st_heap (get x))),
          st_heap := st_heap (get x) @ [\<lparr>ss_rx = producer body, ss_lookahead = None, ss_done = False\<rparr>]\<rparr>) x)"
proof -
  let ?resp = "\<lparr>op_version = SVS_VERSION, op_stream_id = st_next_id (get x), op_format = format,
    op_compression = compression_u8 (so_compression opts)\<rparr>"
  let ?b = "with_body_beve (sc_opened sc) ?resp (with_id rid builder)"
  let ?t = "(get x)\<lparr>st_next_id := st_next_id (get x) + 1,
          st_sessions := (st_sessions (get x))(st_next_id (get x) \<mapsto> length (st_heap (get x))),
          st_heap := st_heap (get x) @ [\<lparr>ss_rx = producer body, ss_lookahead = None, ss_done = False\<rparr>]\<rparr>"
  have de: "sc_de_open sc (sc_open sc resource) = Some resource" "\<And>resp. sc_de_opened sc (sc_opened sc resp) = Inr resp"
    "HEADER_SIZE + 10 + length (sc_opened sc ?resp) \<le> usize_max"
    using assms(1) by (auto simp: svs_codec_ok_def)
  have "open_handle sc producer make_body opts format
      (svs_request rid ROUTE_OPEN (query_format_u16 QF_JsonPointer) (Some (sc_open sc resource)) (body_format_u16 BF_Beve)) (get x)
      = (build ?b, ?t)"
    using assms(3) by (simp add: open_handle_def svs_request_fields de(1) beve_response_def Let_def)
  then have "vc_call (served_client usize_max show_err (svs_router get put sc producer make_body format opts)) ROUTE_OPEN
        (query_format_u16 QF_JsonPointer) (Some (sc_open sc resource)) (body_format_u16 BF_Beve) (rid, x)
      = (Inr (build (?b\<lparr>b_query := if b_query ?b = [] then as_bytes ROUTE_OPEN else b_query ?b\<rparr>)), rid + 1, put ?t x)"
    by (intro served_call [OF svs_routes(1,3)]) (use de(3) assms(2,4) in \<open>simp_all add: svs_routes(5) builder_defs\<close>)
  moreover have "parse_open_response sc (build (?b\<lparr>b_query := if b_query ?b = [] then as_bytes ROUTE_OPEN else b_query ?b\<rparr>))
      = (Inr \<lparr>oi_stream_id = st_next_id (get x), oi_format = format, oi_compression = so_compression opts\<rparr> :: 's RepeError + OpenInfo)"
    by (cases "so_compression opts") (simp_all add: parse_open_response_def beve_body_def require_body_format_def build_def Let_def
        builder_defs de(2) compression_from_u8_def)
  ultimately show ?thesis by (simp add: open_stream_def)
qed

lemma push_each: "write_each push_bytes bss buf = (Inr (), buf @ concat bss)"
  by (induction bss arbitrary: buf) (simp_all add: push_bytes_def)

lemma collect_reads:
  assumes "reads rd b k bss k'"
  shows "collect b rd k a = Some (Inr (concat bss), k', a)"
  using io_copy_complete [OF assms, of push_bytes "[]" "concat bss" 0] by (simp add: collect_def read_to_end_def push_each)

text \<open>
  C30. End to end over producer, session table, router, frames, client and reader: a resource that the server resolves to a body,
  streamed in chunks of any positive size, is pulled as exactly the bytes the body wrote. When the stream is
  compressed this rests on the decoder giving back what the encoder was fed.
\<close>

theorem streamed_body_arrives:
  fixes sc :: "'s svs_codec" and env :: "(u64 \<times> 'x, 'd, 's) pull_env" and x :: 'x
  assumes "svs_codec_ok usize_max sc" and "usize_max < 2 ^ 64" and "\<And>t x. get (put t x) = t"
    and "make_body resource = Some body" and "HEADER_SIZE + 10 + length (sc_open sc resource) \<le> usize_max"
    and "0 < so_chunk_bytes opts" and "HEADER_SIZE + 11 + so_chunk_bytes opts \<le> usize_max"
    and "produce dio z body None opts = Some (producer body)" and "wire_result z body opts = Inr ()"
    and "pe_client env = served_client usize_max show_err (svs_router get put sc producer make_body format opts)"
    and "pe_codec env = sc" and "0 < pe_bufsize env"
    and "so_compression opts = Comp_Zstd \<Longrightarrow>
      \<forall>(rd :: (ChunkReader \<times> u64 \<times> 'x) reader) k bss k'. reads rd (pe_bufsize env) k bss k' \<and> concat bss = wire_bytes z body opts \<longrightarrow>
        (\<exists>bss' d. reads (zr_read (pe_zstd env) rd) (pe_bufsize env) (zr_init (pe_zstd env), k) bss' (d, k') \<and> concat bss' = body_bytes body)"
  shows "\<exists>w'. pull_to_vec env resource (rid, x) = Some (Inr (body_bytes body), w')"
proof -
  let ?c = "served_client usize_max show_err (svs_router get put sc producer make_body format opts)"
  let ?id = "st_next_id (get x)" and ?b = "pe_bufsize env"
  from producer_bytes [OF assms(6), of dio z body] assms(8,9) obtain cs where
    cs: "producer body = map M_Chunk cs @ [M_End]" "chunked (so_chunk_bytes opts) cs" "concat cs = wire_bytes z body opts" by auto
  define x1 where "x1 = put ((get x)\<lparr>st_next_id := ?id + 1, st_sessions := (st_sessions (get x))(?id \<mapsto> length (st_heap (get x))),
          st_heap := st_heap (get x) @ [\<lparr>ss_rx = producer body, ss_lookahead = None, ss_done = False\<rparr>]\<rparr>) x"
  have opened: "open_stream (pe_client env) (pe_codec env) resource (rid, x)
      = (Inr \<lparr>oi_stream_id = ?id, oi_format = format, oi_compression = so_compression opts\<rparr>, rid + 1, x1)"
    using served_open [where make_body = make_body and resource = resource, OF assms(1,2,4,5)] by (simp add: assms(10,11) x1_def)
  have "\<exists>w'. fetches ?c sc ?id False (rid + 1, x1) (delivered_chunks cs) True w'"
    by (rule session_fetches [where get = get and put = put and i = "length (st_heap (get x))", OF assms(1,2,3)])
      (use cs assms(3,7) in \<open>auto simp: x1_def session_get_def upcoming_def chunked_def\<close>)
  then obtain w' where f: "fetches ?c sc ?id False (rid + 1, x1) (delivered_chunks cs) True w'" ..
  from chunk_run.reads_all [OF f TrueI chunk_holds_new assms(12), of "pe_show env"] obtain bss k' where
    r: "reads (env_read env) ?b (chunk_reader_new ?id, rid + 1, x1) bss k'" "concat bss = concat (delivered_chunks cs)"
    unfolding env_read_def assms(10,11) by auto
  have bss: "concat bss = wire_bytes z body opts" using r(2) cs(3) by (cases cs) (simp_all add: delivered_chunks_def)
  have "consume_with (vec_consumer ?b) (pe_zstd env) (so_compression opts) (env_read env) (chunk_reader_new ?id, rid + 1, x1) ()
      = Some (Inr (body_bytes body) :: 's RepeError + bytes, k', ())"
  proof (cases "so_compression opts")
    case Comp_None
    then have "wire_bytes z body opts = body_bytes body" by (simp add: wire_bytes_def)
    with bss Comp_None show ?thesis by (simp add: consume_with_def vec_consumer_def collect_reads [OF r(1)])
  next
    case Comp_Zstd
    from assms(13) [OF Comp_Zstd] r(1) bss obtain bss' d where
      dec: "reads (zr_read (pe_zstd env) (env_read env)) ?b (zr_init (pe_zstd env), chunk_reader_new ?id, rid + 1, x1) bss' (d, k')"
      and "concat bss' = body_bytes body" by blast
    with Comp_Zstd show ?thesis by (simp add: consume_with_def vec_consumer_def collect_reads [OF dec])
  qed
  then show ?thesis by (cases k') (simp add: pull_to_vec_def pull_consume_def opened)
qed

section \<open>An example\<close>

definition le_codec :: "unit svs_codec" where
  "le_codec =
     \<lparr>sc_open = as_bytes, sc_de_open = (\<lambda>bs. Some (str_of_bytes bs)),
      sc_next = to_le_bytes, sc_de_next = (\<lambda>bs. Some (from_le_bytes bs)),
      sc_cancel = (\<lambda>(stream_id, _). to_le_bytes stream_id), sc_de_cancel = (\<lambda>bs. Some (from_le_bytes bs, [])),
      sc_opened = (\<lambda>r. op_version r # op_compression r # to_le_bytes (op_format r) @ to_le_bytes (op_stream_id r)),
      sc_de_opened = (\<lambda>bs. Inr \<lparr>op_version = bs ! 0, op_stream_id = from_le_bytes (drop 4 bs),
        op_format = from_le_bytes (take 2 (drop 2 bs)), op_compression = bs ! 1\<rparr>),
      sc_ack = (\<lambda>_. [])\<rparr>"

lemma le_codec_ok: "svs_codec_ok 65535 le_codec"
  by (simp add: svs_codec_ok_def le_codec_def HEADER_SIZE_def)

definition example_opts :: StreamOpts where
  "example_opts = \<lparr>so_chunk_bytes = 2, so_compression = Comp_Zstd, so_zstd_level = 3, so_session_depth = 1\<rparr>"

definition example_producer :: "BodyWriter \<Rightarrow> Msg list" where
  "example_producer body = the (produce (\<lambda>_. []) plain_zstd body None example_opts)"

definition example_env :: "(u64 \<times> SessionTable, unit, unit) pull_env" where
  "example_env =
     \<lparr>pe_client = served_client 65535 (\<lambda>_. []) (svs_router (\<lambda>t. t) (\<lambda>t _. t) le_codec example_producer
        (\<lambda>_. Some two_writes) 1 example_opts),
      pe_codec = le_codec, pe_show = (\<lambda>_. []), pe_bufsize = 8,
      pe_zstd = \<lparr>zr_init = (), zr_read = (\<lambda>rd b (d, k). map_option (\<lambda>(r, k). (r, d, k)) (rd b k))\<rparr>,
      pe_sibling = (\<lambda>path. path @ ''.svspart'')\<rparr>"

lemma passing_reads:
  "reads rd b k bss k' \<Longrightarrow> reads (\<lambda>b (d, k). map_option (\<lambda>(r, k). (r, d, k)) (rd b k)) b (d, k) bss (d, k')"
proof (induction rule: reads.induct)
  case (reads_end k k')
  then show ?case by (intro reads.reads_end) simp
next
  case (reads_interrupted k err k1 bss k2)
  then show ?case
    using reads.reads_interrupted [of "\<lambda>b (d, k). map_option (\<lambda>(r, k). (r, d, k)) (rd b k)" b "(d, k)" err "(d, k1)"] by simp
next
  case (reads_more k bs k1 bss k2)
  then show ?case
    using reads.reads_more [of "\<lambda>b (d, k). map_option (\<lambda>(r, k). (r, d, k)) (rd b k)" b "(d, k)" bs "(d, k1)"] by simp
qed

theorem streamed_body_arrives_witness:
  "\<exists>w'. pull_to_vec example_env ''r'' (1, session_table_new) = Some (Inr [1, 2, 3, 4, 5], w')"
proof -
  have wire: "wire_bytes plain_zstd two_writes example_opts = [1, 2, 3, 4, 5]" "wire_result plain_zstd two_writes example_opts = Inr ()"
    "body_bytes two_writes = [1, 2, 3, 4, 5]"
    by (simp_all add: wire_bytes_def wire_result_def example_opts_def plain_zstd_def two_writes_def)
  have "produce (\<lambda>_. []) plain_zstd two_writes None example_opts \<noteq> None"
    using producer_bytes [of example_opts "\<lambda>_. []" plain_zstd two_writes] by (auto simp: example_opts_def)
  then have prod: "produce (\<lambda>_. []) plain_zstd two_writes None example_opts = Some (example_producer two_writes)"
    by (simp add: example_producer_def)
  have dec: "\<forall>(rd :: (ChunkReader \<times> u64 \<times> SessionTable) reader) k bss k'.
      reads rd (pe_bufsize example_env) k bss k' \<and> concat bss = wire_bytes plain_zstd two_writes example_opts \<longrightarrow>
        (\<exists>bss' d. reads (zr_read (pe_zstd example_env) rd) (pe_bufsize example_env) (zr_init (pe_zstd example_env), k) bss' (d, k')
          \<and> concat bss' = body_bytes two_writes)"
  proof (intro allI impI)
    fix rd :: "(ChunkReader \<times> u64 \<times> SessionTable) reader" and k bss k'
    assume r: "reads rd (pe_bufsize example_env) k bss k' \<and> concat bss = wire_bytes plain_zstd two_writes example_opts"
    then have "reads (zr_read (pe_zstd example_env) rd) (pe_bufsize example_env) (zr_init (pe_zstd example_env), k) bss ((), k')"
      using passing_reads [of rd "pe_bufsize example_env" k bss k' "()"] by (simp add: example_env_def)
    with r wire show "\<exists>bss' d. reads (zr_read (pe_zstd example_env) rd) (pe_bufsize example_env) (zr_init (pe_zstd example_env), k) bss' (d, k')
        \<and> concat bss' = body_bytes two_writes" by auto
  qed
  have "\<exists>w'. pull_to_vec example_env ''r'' (1, session_table_new) = Some (Inr (body_bytes two_writes), w')"
    by (rule streamed_body_arrives [where get = "\<lambda>t. t" and put = "\<lambda>t _. t" and make_body = "\<lambda>_. Some two_writes" and resource = "''r''"
          and body = two_writes and opts = example_opts and producer = example_producer and usize_max = 65535 and format = 1
          and show_err = "\<lambda>_. []" and z = plain_zstd and dio = "\<lambda>_. []", OF le_codec_ok _ _ _ _ _ _ prod wire(2) _ _ _ dec])
      (simp_all add: example_env_def example_opts_def le_codec_def HEADER_SIZE_def)
  then show ?thesis by (simp add: wire(3))
qed

end
