(* ===== verification/Rest_Gateway.thy ===== *)
theory Rest_Gateway
  imports Registry
begin

text \<open>
  The REST gateway over a registry, \<^verbatim>\<open>src/rest.rs\<close>: methods and paths onto calls of registered functions,
  content negotiation, validators and conditional reads, problem responses, and the HTTP layer around
  them. The table of reason phrases, the JSON form of a problem, the parsing of a quality value, the
  validity of header values and the limited collection of a body are hyper's, \<^verbatim>\<open>structio\<close>'s or floating
  point and stand as arguments, together in a \<open>rest_env\<close>.
\<close>

section \<open>Text\<close>

definition ascii_lower :: "string \<Rightarrow> string" where
  "ascii_lower s = map (\<lambda>c. if 65 \<le> (of_char c :: nat) \<and> (of_char c :: nat) \<le> 90 then char_of ((of_char c :: nat) + 32) else c) s"

text \<open>The UTF-8 forms of the characters with the property \<^verbatim>\<open>White_Space\<close>, which \<^verbatim>\<open>str::trim\<close> strips.\<close>

definition white_space :: "string list" where
  "white_space =
     map (\<lambda>n. [char_of (n :: nat)]) [0x09, 0x0A, 0x0B, 0x0C, 0x0D, 0x20]
     @ [[CHR 0xC2, CHR 0x85], [CHR 0xC2, CHR 0xA0], [CHR 0xE1, CHR 0x9A, CHR 0x80]]
     @ map (\<lambda>n. [CHR 0xE2, CHR 0x80, char_of (n :: nat)]) ([0x80..<0x8B] @ [0xA8, 0xA9, 0xAF])
     @ [[CHR 0xE2, CHR 0x81, CHR 0x9F], [CHR 0xE3, CHR 0x80, CHR 0x80]]"

function trim_start_with :: "string list \<Rightarrow> string \<Rightarrow> string" where
  "trim_start_with ws s =
     (case find (\<lambda>w. w \<noteq> [] \<and> starts_with s w) ws of
        Some w \<Rightarrow> trim_start_with ws (drop (length w) s)
      | None \<Rightarrow> s)"
  by auto
termination
  by (relation "measure (\<lambda>(ws, s). length s)") (auto simp: find_Some_iff starts_with_iff)

declare trim_start_with.simps [simp del]

definition str_trim :: "string \<Rightarrow> string" where
  "str_trim s = rev (trim_start_with (map rev white_space) (rev (trim_start_with white_space s)))"

text \<open>The format \<^verbatim>\<open>{:016x}\<close> on a 64-bit value.\<close>

definition hex16 :: "u64 \<Rightarrow> string" where
  "hex16 w = map (\<lambda>k. hex_digit (unat w div 16 ^ k mod 16)) [15, 14, 13, 12, 11, 10, 9, 8, 7, 6, 5, 4, 3, 2, 1, 0]"

section \<open>Representations and policy\<close>

definition MEDIA_JSON :: string where
  "MEDIA_JSON = ''application/json''"

definition MEDIA_BEVE :: string where
  "MEDIA_BEVE = ''application/x-beve''"

definition MEDIA_PROBLEM :: string where
  "MEDIA_PROBLEM = ''application/problem+json''"

definition ALLOW_CALL :: string where
  "ALLOW_CALL = ''GET, HEAD, PUT, POST, OPTIONS''"

definition ALLOW_READ_ONLY :: string where
  "ALLOW_READ_ONLY = ''GET, HEAD, OPTIONS''"

datatype Repr = Repr_Json | Repr_Beve

fun media_type :: "Repr \<Rightarrow> string" where
  "media_type Repr_Json = MEDIA_JSON"
| "media_type Repr_Beve = MEDIA_BEVE"

fun repr_body_format :: "Repr \<Rightarrow> BodyFormat" where
  "repr_body_format Repr_Json = BF_Json"
| "repr_body_format Repr_Beve = BF_Beve"

definition from_body_format :: "BodyFormat \<Rightarrow> Repr" where
  "from_body_format format = (case format of BF_Beve \<Rightarrow> Repr_Beve | _ \<Rightarrow> Repr_Json)"

text \<open>Durations are nanoseconds.\<close>

record RestConfig =
  rc_max_body_bytes :: nat
  rc_cache_control :: "string option"
  rc_application_error_status :: u16
  rc_read_only :: bool
  rc_accept_beve_bodies :: bool
  rc_max_connections :: nat
  rc_request_timeout :: "nat option"

definition rest_config_default :: RestConfig where
  "rest_config_default =
     \<lparr>rc_max_body_bytes = 1024 * 1024, rc_cache_control = Some ''no-cache'', rc_application_error_status = 500,
      rc_read_only = False, rc_accept_beve_bodies = True, rc_max_connections = 1024,
      rc_request_timeout = Some (30 * 10 ^ 9)\<rparr>"

record RestRequest =
  rr_method :: string
  rr_target :: string
  rr_content_type :: "string option"
  rr_accept :: "string option"
  rr_if_none_match :: "string option"
  rr_body :: bytes

definition rest_request_new :: "string \<Rightarrow> string \<Rightarrow> RestRequest" where
  "rest_request_new method_name target =
     \<lparr>rr_method = method_name, rr_target = target, rr_content_type = None, rr_accept = None, rr_if_none_match = None, rr_body = []\<rparr>"

definition rest_with_body :: "string \<Rightarrow> bytes \<Rightarrow> RestRequest \<Rightarrow> RestRequest" where
  "rest_with_body content_type body r = r\<lparr>rr_content_type := Some content_type, rr_body := body\<rparr>"

definition rest_with_accept :: "string \<Rightarrow> RestRequest \<Rightarrow> RestRequest" where
  "rest_with_accept accept r = r\<lparr>rr_accept := Some accept\<rparr>"

definition rest_with_if_none_match :: "string \<Rightarrow> RestRequest \<Rightarrow> RestRequest" where
  "rest_with_if_none_match tag r = r\<lparr>rr_if_none_match := Some tag\<rparr>"

record RestResponse =
  rs_status :: u16
  rs_content_type :: "string option"
  rs_etag :: "string option"
  rs_cache_control :: "string option"
  rs_vary :: "string option"
  rs_allow :: "string option"
  rs_repe_error_code :: "u32 option"
  rs_omit_body :: bool
  rs_body :: bytes

definition rest_empty :: "u16 \<Rightarrow> RestResponse" where
  "rest_empty status =
     \<lparr>rs_status = status, rs_content_type = None, rs_etag = None, rs_cache_control = None, rs_vary = None,
      rs_allow = None, rs_repe_error_code = None, rs_omit_body = False, rs_body = []\<rparr>"

record Problem =
  pr_kind :: string
  pr_title :: string
  pr_status :: u16
  pr_detail :: string
  pr_repe_code :: "u32 option"

text \<open>
  \<open>re_quality\<close> is \<^verbatim>\<open>parse::<f32>\<close>, clamped, in thousandths; \<open>re_header_ok\<close> and \<open>re_status_ok\<close> what hyper accepts
  as a header value and a status.
\<close>

record rest_env =
  re_reason :: "u16 \<Rightarrow> string option"
  re_problem_json :: "Problem \<Rightarrow> bytes"
  re_quality :: "string \<Rightarrow> nat option"
  re_header_ok :: "string \<Rightarrow> bool"
  re_status_ok :: "u16 \<Rightarrow> bool"

definition reason_phrase :: "rest_env \<Rightarrow> u16 \<Rightarrow> string" where
  "reason_phrase e status = (case re_reason e status of Some reason \<Rightarrow> reason | None \<Rightarrow> ''Error'')"

definition problem :: "rest_env \<Rightarrow> u16 \<Rightarrow> string \<Rightarrow> u32 option \<Rightarrow> RestResponse" where
  "problem e status detail repe_code =
     (let p = \<lparr>pr_kind = ''about:blank'', pr_title = reason_phrase e status, pr_status = status, pr_detail = detail,
               pr_repe_code = repe_code\<rparr>
      in (rest_empty status)
           \<lparr>rs_content_type := Some MEDIA_PROBLEM, rs_cache_control := Some ''no-store'', rs_repe_error_code := repe_code,
            rs_body := re_problem_json e p\<rparr>)"

text \<open>The registry is shared and read at each call from the state the functions act on.\<close>

record 'w RestGateway =
  rg_registry :: "'w \<Rightarrow> 'w Registry"
  rg_mount :: string
  rg_config :: RestConfig

definition gateway_with_config :: "string \<Rightarrow> ('w \<Rightarrow> 'w Registry) \<Rightarrow> RestConfig \<Rightarrow> 'w RestGateway" where
  "gateway_with_config mount registry config =
     \<lparr>rg_registry = registry, rg_mount = normalize_mount mount, rg_config = config\<rparr>"

definition gateway_new :: "string \<Rightarrow> ('w \<Rightarrow> 'w Registry) \<Rightarrow> 'w RestGateway" where
  "gateway_new mount registry = gateway_with_config mount registry rest_config_default"

section \<open>Paths\<close>

definition strip_mount :: "'w RestGateway \<Rightarrow> string \<Rightarrow> string option" where
  "strip_mount gw path =
     (if rg_mount gw = [] then Some path
      else (case strip_prefix path (rg_mount gw) of
              None \<Rightarrow> None
            | Some rest \<Rightarrow> if rest = [] \<or> starts_with rest ''/'' then Some rest else None))"

definition hex_nibble :: "u8 \<Rightarrow> u8 option" where
  "hex_nibble byte =
     (if 0x30 \<le> byte \<and> byte \<le> 0x39 then Some (byte - 0x30)
      else if 0x61 \<le> byte \<and> byte \<le> 0x66 then Some (byte - 0x61 + 10)
      else if 0x41 \<le> byte \<and> byte \<le> 0x46 then Some (byte - 0x41 + 10)
      else None)"

fun percent_loop :: "bytes \<Rightarrow> bytes \<Rightarrow> string + bytes" where
  "percent_loop out [] = Inr out"
| "percent_loop out (b # bs) =
     (if b = 0x25 then
        (case bs of
           h # l # rest \<Rightarrow>
             (case (hex_nibble h, hex_nibble l) of
                (Some hi, Some lo) \<Rightarrow> percent_loop (out @ [or (push_bit 4 hi) lo]) rest
              | _ \<Rightarrow> Inl ''invalid percent-escape in request path'')
         | _ \<Rightarrow> Inl ''truncated percent-escape in request path'')
      else percent_loop (out @ [b]) bs)"

definition percent_decode :: "string \<Rightarrow> string + string" where
  "percent_decode segment =
     (if CHR ''%'' \<notin> set segment then Inr segment
      else res_bind (percent_loop [] (as_bytes segment)) (\<lambda>out.
        res_map_err (\<lambda>_. ''percent-escape decoded to invalid UTF-8'') (from_utf8 out)))"

fun pointer_loop :: "string \<Rightarrow> string list \<Rightarrow> string + string" where
  "pointer_loop pointer [] = Inr pointer"
| "pointer_loop pointer (segment # segments) =
     res_bind (percent_decode segment) (\<lambda>decoded. pointer_loop (pointer @ ''/'' @ escape_token decoded) segments)"

definition path_to_pointer :: "string \<Rightarrow> string + string" where
  "path_to_pointer path =
     (if path = [] \<or> path = ''/'' then Inr []
      else let path = (if last path = CHR ''/'' then butlast path else path)
           in if path = [] then Inr []
              else if \<not> starts_with path ''/'' then Inl ''request path must be absolute''
              else pointer_loop [] (tl (split_on (CHR ''/'') path)))"

section \<open>Negotiation and validators\<close>

definition bare_media :: "string \<Rightarrow> char \<Rightarrow> string" where
  "bare_media value delimiter = ascii_lower (str_trim (hd (split_on delimiter value)))"

definition parse_quality :: "rest_env \<Rightarrow> string \<Rightarrow> nat" where
  "parse_quality e value = (case re_quality e (str_trim value) of Some q \<Rightarrow> q | None \<Rightarrow> 1000)"

definition entry_quality :: "rest_env \<Rightarrow> string \<Rightarrow> nat" where
  "entry_quality e entry =
     fold (\<lambda>param quality.
         let param = str_trim param
         in case (case strip_prefix param ''q='' of Some v \<Rightarrow> Some v | None \<Rightarrow> strip_prefix param ''Q='') of
              Some value \<Rightarrow> parse_quality e value
            | None \<Rightarrow> quality)
       (tl (split_on (CHR '';'') entry)) 1000"

definition media_repr :: "string \<Rightarrow> Repr option" where
  "media_repr media =
     (if media = MEDIA_BEVE \<or> media = ''application/beve'' then Some Repr_Beve
      else if media = MEDIA_JSON \<or> media = ''application/*'' \<or> media = ''*/*'' then Some Repr_Json
      else None)"

definition negotiate :: "rest_env \<Rightarrow> string option \<Rightarrow> Repr" where
  "negotiate e accept =
     (case accept of
        None \<Rightarrow> Repr_Json
      | Some accept \<Rightarrow>
          (case fold (\<lambda>entry best.
                  case media_repr (bare_media entry (CHR '';'')) of
                    None \<Rightarrow> best
                  | Some repr \<Rightarrow>
                      (let quality = entry_quality e entry
                       in if quality = 0 then best
                          else (case best of
                                  Some (best_quality, _) \<Rightarrow> if quality > best_quality then Some (quality, repr) else best
                                | None \<Rightarrow> Some (quality, repr))))
                (split_on (CHR '','') accept) None of
             Some (_, repr) \<Rightarrow> repr
           | None \<Rightarrow> Repr_Json))"

definition FNV_OFFSET_BASIS :: u64 where
  "FNV_OFFSET_BASIS = 0xcbf29ce484222325"

definition FNV_PRIME :: u64 where
  "FNV_PRIME = 0x00000100000001b3"

definition etag_for :: "bytes \<Rightarrow> string" where
  "etag_for body =
     [CHR 0x22] @ hex16 (fold (\<lambda>byte hash. xor hash (ucast byte) * FNV_PRIME) body FNV_OFFSET_BASIS) @ [CHR 0x22]"

definition if_none_match_matches :: "string \<Rightarrow> string \<Rightarrow> bool" where
  "if_none_match_matches header etag =
     list_ex (\<lambda>candidate.
         let candidate = str_trim candidate
         in candidate = ''*'' \<or> (case strip_prefix candidate ''W/'' of Some c \<Rightarrow> c | None \<Rightarrow> candidate) = etag)
       (split_on (CHR '','') header)"

section \<open>Responding\<close>

definition status_for :: "'w RestGateway \<Rightarrow> ErrorCode \<Rightarrow> u16" where
  "status_for gw code =
     (case code of
        EC_Ok \<Rightarrow> 200
      | EC_MethodNotFound \<Rightarrow> 404
      | EC_Timeout \<Rightarrow> 504
      | EC_ResourceExhausted \<Rightarrow> 503
      | EC_InternalError \<Rightarrow> 500
      | EC_ApplicationErrorBase \<Rightarrow> rc_application_error_status (rg_config gw)
      | _ \<Rightarrow> 400)"

definition problem_for :: "rest_env \<Rightarrow> 'w RestGateway \<Rightarrow> RegistryError \<Rightarrow> RestResponse" where
  "problem_for e gw err =
     (let code = registry_error_code err
      in problem e (status_for gw code) (registry_error_display err) (Some (error_code_u32 code)))"

definition method_not_allowed :: "rest_env \<Rightarrow> string \<Rightarrow> string \<Rightarrow> RestResponse" where
  "method_not_allowed e allow detail = (problem e 405 detail None)\<lparr>rs_allow := Some allow\<rparr>"

definition gateway_allow :: "'w RestGateway \<Rightarrow> string" where
  "gateway_allow gw = (if rc_read_only (rg_config gw) then ALLOW_READ_ONLY else ALLOW_CALL)"

definition request_body_format :: "'w RestGateway \<Rightarrow> string option \<Rightarrow> string + BodyFormat" where
  "request_body_format gw content_type =
     (case content_type of
        None \<Rightarrow> Inr BF_Json
      | Some content_type \<Rightarrow>
          (let media = bare_media content_type (CHR '';'')
           in if media = [] \<or> media = MEDIA_JSON \<or> media = ''text/json'' then Inr BF_Json
              else if media = ''application/x-www-form-urlencoded'' then Inr BF_Json
              else if media = MEDIA_BEVE \<or> media = ''application/beve''
              then if rc_accept_beve_bodies (rg_config gw) then Inr BF_Beve
                   else Inl (''BEVE request bodies are disabled; enable `RestConfig::accept_beve_bodies` ''
                             @ ''or send application/json'')
              else Inl ''unsupported Content-Type; send application/json''))"

definition invoke ::
    "'w RestGateway \<Rightarrow> string \<Rightarrow> RequestBody option \<Rightarrow> Repr \<Rightarrow> 'w \<Rightarrow> (RegistryError + bytes \<times> string) \<times> 'w" where
  "invoke gw pointer params repr w =
     (case registry_call pointer params (call_context_detached pointer) (rg_registry gw w)
             (response_body_with_format [] (repr_body_format repr)) w of
        (Inl err, out, w) \<Rightarrow> (Inl err, w)
      | (Inr _, out, w) \<Rightarrow> (Inr (rb_buf out, media_type (from_body_format (rb_format out))), w))"

definition gateway_read :: "rest_env \<Rightarrow> 'w RestGateway \<Rightarrow> string \<Rightarrow> RestRequest \<Rightarrow> 'w \<Rightarrow> RestResponse \<times> 'w" where
  "gateway_read e gw pointer request w =
     (case invoke gw pointer None (negotiate e (rr_accept request)) w of
        (Inl err, w) \<Rightarrow> (problem_for e gw err, w)
      | (Inr (body, media), w) \<Rightarrow>
          (let etag = etag_for body;
               cache_control = rc_cache_control (rg_config gw)
           in if (case rr_if_none_match request of Some header \<Rightarrow> if_none_match_matches header etag | None \<Rightarrow> False)
              then ((rest_empty 304)\<lparr>rs_etag := Some etag, rs_cache_control := cache_control, rs_vary := Some ''Accept''\<rparr>, w)
              else ((rest_empty 200)\<lparr>rs_content_type := Some media, rs_etag := Some etag, rs_cache_control := cache_control,
                      rs_vary := Some ''Accept'', rs_omit_body := (rr_method request = ''HEAD''), rs_body := body\<rparr>, w)))"

definition gateway_call :: "rest_env \<Rightarrow> 'w RestGateway \<Rightarrow> string \<Rightarrow> RestRequest \<Rightarrow> 'w \<Rightarrow> RestResponse \<times> 'w" where
  "gateway_call e gw pointer request w =
     (if rc_read_only (rg_config gw)
      then (method_not_allowed e ALLOW_READ_ONLY ''this gateway is configured read-only'', w)
      else if rr_body request = []
      then (problem e 400 ''a body is required; send `null` for a call that takes no arguments''
              (Some (error_code_u32 EC_InvalidBody)), w)
      else (case request_body_format gw (rr_content_type request) of
              Inl detail \<Rightarrow> (problem e 415 detail (Some (error_code_u32 EC_InvalidBody)), w)
            | Inr format \<Rightarrow>
                (case invoke gw pointer (Some \<lparr>rq_bytes = rr_body request, rq_format = format\<rparr>)
                        (negotiate e (rr_accept request)) w of
                   (Inl err, w) \<Rightarrow> (problem_for e gw err, w)
                 | (Inr (body, media), w) \<Rightarrow>
                     ((rest_empty 200)\<lparr>rs_content_type := Some media, rs_vary := Some ''Accept'', rs_body := body\<rparr>, w))))"

definition respond :: "rest_env \<Rightarrow> 'w RestGateway \<Rightarrow> RestRequest \<Rightarrow> 'w \<Rightarrow> RestResponse \<times> 'w" where
  "respond e gw request w =
     (let path = takeWhile (\<lambda>c. c \<notin> {CHR ''?'', CHR ''#''}) (rr_target request)
      in if rr_method request = ''OPTIONS'' \<and> path = ''*''
         then ((rest_empty 204)\<lparr>rs_allow := Some (if rc_read_only (rg_config gw) then ALLOW_READ_ONLY else ALLOW_CALL)\<rparr>, w)
         else (case strip_mount gw path of
                 None \<Rightarrow> (problem e 404 (''`'' @ path @ ''` is not under this gateway'' @ [CHR 0x27] @ ''s mount'') None, w)
               | Some remainder \<Rightarrow>
                   (case path_to_pointer remainder of
                      Inl detail \<Rightarrow> (problem e 400 detail None, w)
                    | Inr pointer \<Rightarrow>
                        if rr_method request = ''GET'' \<or> rr_method request = ''HEAD'' then gateway_read e gw pointer request w
                        else if rr_method request = ''PUT'' \<or> rr_method request = ''POST'' then gateway_call e gw pointer request w
                        else if rr_method request = ''OPTIONS''
                        then ((rest_empty 204)\<lparr>rs_allow := Some (gateway_allow gw)\<rparr>, w)
                        else (method_not_allowed e (gateway_allow gw) ''unsupported method'', w))))"

section \<open>The HTTP layer\<close>

text \<open>
  A request as hyper gives it: the method, the path and query if the target has one, the value of a header if it is
  printable, and the body, whose collection up to a limit is \<open>collect\<close>: an oversized body is \<open>Inl True\<close>, one that could not
  be read \<open>Inl False\<close>.
\<close>

record http_request =
  hq_method :: string
  hq_path_and_query :: "string option"
  hq_header :: "string \<Rightarrow> string option"
  hq_collect :: "nat \<Rightarrow> bool + bytes"

record http_response =
  hp_status :: u16
  hp_headers :: "(string \<times> string) list"
  hp_body :: bytes

definition opt_header :: "string \<Rightarrow> string option \<Rightarrow> (string \<times> string) list" where
  "opt_header name value = (case value of Some v \<Rightarrow> [(name, v)] | None \<Rightarrow> [])"

definition to_hyper :: "rest_env \<Rightarrow> RestResponse \<Rightarrow> http_response" where
  "to_hyper e response =
     (let headers =
        opt_header ''content-type'' (rs_content_type response) @ opt_header ''etag'' (rs_etag response)
        @ opt_header ''cache-control'' (rs_cache_control response) @ opt_header ''vary'' (rs_vary response)
        @ opt_header ''allow'' (rs_allow response)
        @ opt_header ''x-repe-error-code'' (map_option (\<lambda>code. dec_str (unat code)) (rs_repe_error_code response))
        @ (if rs_omit_body response then [(''content-length'', dec_str (length (rs_body response)))] else [])
      in if re_status_ok e (rs_status response) \<and> list_all (\<lambda>(_, v). re_header_ok e v) headers
         then \<lparr>hp_status = rs_status response, hp_headers = headers,
               hp_body = (if rs_omit_body response then [] else rs_body response)\<rparr>
         else \<lparr>hp_status = 500, hp_headers = [], hp_body = []\<rparr>)"

definition http_handle :: "rest_env \<Rightarrow> 'w RestGateway \<Rightarrow> http_request \<Rightarrow> 'w \<Rightarrow> http_response \<times> 'w" where
  "http_handle e gw request w =
     (let target = (case hq_path_and_query request of Some pq \<Rightarrow> pq | None \<Rightarrow> ''/'')
      in case hq_collect request (rc_max_body_bytes (rg_config gw)) of
           Inl too_long \<Rightarrow>
             (to_hyper e (if too_long
                then problem e 413 (''request body exceeds the '' @ dec_str (rc_max_body_bytes (rg_config gw)) @ ''-byte limit'') None
                else problem e 400 ''request body could not be read'' None), w)
         | Inr body \<Rightarrow>
             (case respond e gw \<lparr>rr_method = hq_method request, rr_target = target,
                      rr_content_type = hq_header request ''content-type'', rr_accept = hq_header request ''accept'',
                      rr_if_none_match = hq_header request ''if-none-match'', rr_body = body\<rparr> w of
                (response, w) \<Rightarrow> (to_hyper e response, w)))"

definition request_timeout_response :: "rest_env \<Rightarrow> http_response" where
  "request_timeout_response e =
     (let response = to_hyper e (problem e 408 (''the request was not completed within the gateway'' @ [CHR 0x27] @ ''s time limit'') None)
      in response\<lparr>hp_headers := hp_headers response @ [(''connection'', ''close'')]\<rparr>)"

text \<open>One request on a connection; \<open>expired\<close> tells whether the timer, if there is one, ran out first.\<close>

definition serve_request :: "rest_env \<Rightarrow> 'w RestGateway \<Rightarrow> bool \<Rightarrow> http_request \<Rightarrow> 'w \<Rightarrow> http_response \<times> 'w" where
  "serve_request e gw expired request w =
     (case rc_request_timeout (rg_config gw) of
        Some limit \<Rightarrow> if expired then (request_timeout_response e, w) else http_handle e gw request w
      | None \<Rightarrow> http_handle e gw request w)"

text \<open>Durations in milliseconds here.\<close>

definition ACCEPT_BACKOFF :: nat where
  "ACCEPT_BACKOFF = 50"

definition MAX_ACCEPT_BACKOFF :: nat where
  "MAX_ACCEPT_BACKOFF = 1000"

definition is_per_connection_accept_error :: "io_error \<Rightarrow> bool" where
  "is_per_connection_accept_error err \<longleftrightarrow>
     io_error_kind err \<in> {K_ConnectionAborted, K_ConnectionReset, K_Interrupted}"

text \<open>
  The accept loop as steps: a turn of the loop, which needs a free permit and is given what \<^verbatim>\<open>accept\<close> returns, and a
  connection that ends and gives its permit back. \<open>sv_slept\<close> records the pauses.
\<close>

record RestServe =
  sv_connections :: nat
  sv_backoff :: nat
  sv_slept :: "nat list"

datatype serve_event = SV_Turn "io_error option" | SV_Finished

definition serve_start :: RestServe where
  "serve_start = \<lparr>sv_connections = 0, sv_backoff = ACCEPT_BACKOFF, sv_slept = []\<rparr>"

fun serve_step :: "RestConfig \<Rightarrow> serve_event \<Rightarrow> RestServe \<Rightarrow> RestServe" where
  "serve_step config (SV_Turn accepted) s =
     (if sv_connections s < rc_max_connections config
      then (case accepted of
              None \<Rightarrow> s\<lparr>sv_connections := sv_connections s + 1, sv_backoff := ACCEPT_BACKOFF\<rparr>
            | Some err \<Rightarrow>
                if is_per_connection_accept_error err then s
                else s\<lparr>sv_slept := sv_slept s @ [sv_backoff s], sv_backoff := min (sv_backoff s * 2) MAX_ACCEPT_BACKOFF\<rparr>)
      else s)"
| "serve_step config SV_Finished s = s\<lparr>sv_connections := sv_connections s - 1\<rparr>"

end
