(* ===== verification/Rest_Paths.thy ===== *)
theory Rest_Paths
  imports Rest_Gateway
begin

text \<open>
  The paths of the REST gateway: the segments of a request path arrive as they were encoded and cannot be split by an
  encoded slash.
\<close>

section \<open>Percent encoding\<close>

text \<open>The reference encoder of a segment: bytes that are not unreserved are escaped in upper case.\<close>

definition upper_hex :: "u8 \<Rightarrow> char" where
  "upper_hex x = ''0123456789ABCDEF'' ! unat x"

definition unreserved :: "u8 \<Rightarrow> bool" where
  "unreserved b \<longleftrightarrow> (0x30 \<le> b \<and> b \<le> 0x39) \<or> (0x41 \<le> b \<and> b \<le> 0x5A) \<or> (0x61 \<le> b \<and> b \<le> 0x7A) \<or> b \<in> {0x2D, 0x2E, 0x5F, 0x7E}"

definition encode_byte :: "u8 \<Rightarrow> string" where
  "encode_byte b = (if unreserved b then [char_of (unat b)] else [CHR ''%'', upper_hex (drop_bit 4 b), upper_hex (take_bit 4 b)])"

definition percent_encode :: "string \<Rightarrow> string" where
  "percent_encode s = concat (map encode_byte (as_bytes s))"

lemma word_lt16_cases:
  fixes x :: u8
  assumes "x < 16"
  shows "x \<in> {0, 1, 2, 3, 4, 5, 6, 7, 8, 9, 10, 11, 12, 13, 14, 15}"
proof -
  have "unat x < 16" using assms by (simp add: word_less_nat_alt)
  then have "unat x \<in> set [0..<16]" by simp
  moreover have "x = of_nat (unat x)" by simp
  ultimately have "x \<in> (\<lambda>n. of_nat n :: u8) ` set [0..<16]" by (rule rev_image_eqI)
  then show ?thesis by (simp add: upt_rec)
qed

lemma hex_nibble_upper:
  assumes "x < 16"
  shows "hex_nibble (of_char (upper_hex x)) = Some x"
proof -
  have "list_all (\<lambda>x. hex_nibble (of_char (upper_hex x)) = Some x) [0, 1, 2, 3, 4, 5, 6, 7, 8, 9, 10, 11, 12, 13, 14, 15]"
    by code_simp
  with word_lt16_cases [OF assms] show ?thesis unfolding list_all_iff list.set by blast
qed

lemma nibbles:
  fixes b :: u8
  shows "drop_bit 4 b < 16" and "take_bit 4 b < 16" and "or (push_bit 4 (drop_bit 4 b)) (take_bit 4 b) = b"
proof -
  have "unat (drop_bit 4 b) < 16" using unat_byte_less [of b] by (simp add: drop_bit_eq_div unat_div)
  then show "drop_bit 4 b < 16" by (simp add: word_less_nat_alt)
  have "unat (take_bit 4 b) < 16" by (simp add: take_bit_eq_mod unat_mod)
  then show "take_bit 4 b < 16" by (simp add: word_less_nat_alt)
  show "or (push_bit 4 (drop_bit 4 b)) (take_bit 4 b) = b" by (rule bit_word_eqI) (auto simp: bit_simps)
qed

lemma percent_loop_byte: "percent_loop out (as_bytes (encode_byte b) @ bs) = percent_loop (out @ [b]) bs"
proof (cases "unreserved b")
  case True
  then have "b \<noteq> 0x25" by (auto simp: unreserved_def)
  with True show ?thesis by (simp add: encode_byte_def as_bytes_def of_char_char_of_unat)
next
  case False
  have "percent_loop out (0x25 # of_char (upper_hex (drop_bit 4 b)) # of_char (upper_hex (take_bit 4 b)) # bs) = percent_loop (out @ [b]) bs"
    by (simp only: percent_loop.simps list.case hex_nibble_upper [OF nibbles(1)] hex_nibble_upper [OF nibbles(2)] nibbles(3)
          prod.case option.case if_True refl)
  with False show ?thesis by (simp only: encode_byte_def as_bytes_def if_False list.map append.simps) simp
qed

lemma percent_loop_encode: "percent_loop out (as_bytes (concat (map encode_byte bs))) = Inr (out @ bs)"
  by (induction bs arbitrary: out) (simp_all only: list.map concat.simps as_bytes_append percent_loop_byte, simp_all add: as_bytes_def)

lemma encode_unescaped: "CHR ''%'' \<notin> set (concat (map encode_byte bs)) \<Longrightarrow> as_bytes (concat (map encode_byte bs)) = bs"
  by (induction bs) (auto simp: encode_byte_def as_bytes_def of_char_char_of_unat split: if_splits)

lemma percent_decode_encode:
  assumes "from_utf8 (as_bytes s) = Inr s"
  shows "percent_decode (percent_encode s) = Inr s"
proof (cases "CHR ''%'' \<in> set (percent_encode s)")
  case True
  then show ?thesis using assms percent_loop_encode [of "[]" "as_bytes s"] by (simp add: percent_decode_def percent_encode_def)
next
  case False
  then have "as_bytes (percent_encode s) = as_bytes s" unfolding percent_encode_def by (rule encode_unescaped)
  then have "percent_encode s = s" by simp
  with False show ?thesis by (simp add: percent_decode_def)
qed

lemma upper_hex_no_slash: "x < 16 \<Longrightarrow> upper_hex x \<noteq> CHR ''/''"
  by (drule word_lt16_cases) (auto simp: upper_hex_def)

lemma encode_byte_no_slash: "CHR ''/'' \<notin> set (encode_byte b)"
proof (cases "unreserved b")
  case True
  have "char_of (unat b) \<noteq> CHR ''/''"
  proof
    assume "char_of (unat b) = CHR ''/''"
    then have "of_char (char_of (unat b) :: char) = (of_char (CHR ''/'') :: u8)" by (simp only:)
    then have "b = 0x2F" by (simp add: of_char_char_of_unat)
    with True show False by (simp add: unreserved_def)
  qed
  with True show ?thesis by (simp add: encode_byte_def)
next
  case False
  then show ?thesis
    using upper_hex_no_slash [OF nibbles(1), of b] upper_hex_no_slash [OF nibbles(2), of b]
    by (simp add: encode_byte_def)
qed

lemma percent_encode_no_slash: "CHR ''/'' \<notin> set (percent_encode s)"
  using encode_byte_no_slash by (simp add: percent_encode_def)

lemma encode_byte_nonempty [simp]: "encode_byte b \<noteq> []"
  by (simp add: encode_byte_def)

lemma percent_encode_Nil [simp]: "percent_encode s = [] \<longleftrightarrow> s = []"
  by (cases s) (simp_all add: percent_encode_def as_bytes_def)

section \<open>Paths\<close>

lemma percent_loop_escape:
  assumes "percent_loop out (0x25 # bs) = Inr res"
  obtains h l rest x where "bs = h # l # rest" and "percent_loop (out @ [x]) rest = Inr res"
proof (cases bs)
  case Nil
  with assms show ?thesis by simp
next
  case bs: (Cons h ls)
  show ?thesis
  proof (cases ls)
    case Nil
    with assms bs show ?thesis by simp
  next
    case (Cons l rest)
    with assms bs that show ?thesis
      by (cases "hex_nibble h"; cases "hex_nibble l") simp_all
  qed
qed

lemma percent_loop_keeps: "percent_loop out bs = Inr res \<Longrightarrow> out \<noteq> [] \<Longrightarrow> res \<noteq> []"
proof (induction bs arbitrary: out rule: length_induct)
  case (1 bs)
  show ?case
  proof (cases bs)
    case Nil
    with 1 show ?thesis by simp
  next
    case (Cons b bs')
    show ?thesis
    proof (cases "b = 0x25")
      case True
      from 1(2) obtain h l rest x where "bs' = h # l # rest" and "percent_loop (out @ [x]) rest = Inr res"
        unfolding Cons True by (rule percent_loop_escape)
      with 1(1) [rule_format, of rest "out @ [x]"] Cons show ?thesis by simp
    next
      case False
      with 1(2) have "percent_loop (out @ [b]) bs' = Inr res" by (simp add: Cons)
      with 1(1) [rule_format, of bs' "out @ [b]"] Cons show ?thesis by simp
    qed
  qed
qed

lemma percent_loop_nonempty:
  assumes "percent_loop [] (b # bs) = Inr res"
  shows "res \<noteq> []"
proof (cases "b = 0x25")
  case True
  from assms obtain h l rest x where "percent_loop ([] @ [x]) rest = Inr res" unfolding True by (rule percent_loop_escape)
  then show ?thesis by (rule percent_loop_keeps) simp
next
  case False
  with assms have "percent_loop [b] bs = Inr res" by simp
  then show ?thesis by (rule percent_loop_keeps) simp
qed

lemma percent_decode_Nil: 
  assumes "percent_decode s = Inr t"
  shows "t = [] \<longleftrightarrow> s = []"
proof (cases "CHR ''%'' \<in> set s")
  case True
  then have "s \<noteq> []" by auto
  then obtain b bs where s: "as_bytes s = b # bs" by (cases "as_bytes s") auto
  obtain out where out: "percent_loop [] (as_bytes s) = Inr out" and t: "from_utf8 out = Inr t"
    using assms True by (auto simp: percent_decode_def res_bind_Inr_iff res_map_err_Inr_iff)
  have "out \<noteq> []" using out unfolding s by (rule percent_loop_nonempty)
  with from_utf8_Inr [OF t] have "t \<noteq> []" by auto
  with \<open>s \<noteq> []\<close> show ?thesis by simp
next
  case False
  with assms show ?thesis by (simp add: percent_decode_def)
qed

lemma pointer_loop_Inr:
  "pointer_loop out pieces = Inr p \<longleftrightarrow> (\<exists>ts. map percent_decode pieces = map Inr ts \<and> p = canonical_loop out ts)"
proof (induction pieces arbitrary: out)
  case (Cons s pieces)
  have "pointer_loop out (s # pieces) = Inr p
      \<longleftrightarrow> (\<exists>t ts. percent_decode s = Inr t \<and> map percent_decode pieces = map Inr ts \<and> p = canonical_loop (out @ ''/'' @ escape_token t) ts)"
    by (auto simp: res_bind_Inr_iff Cons.IH)
  also have "\<dots> \<longleftrightarrow> (\<exists>us. map percent_decode (s # pieces) = map Inr us \<and> p = canonical_loop out us)"
  proof
    assume "\<exists>t ts. percent_decode s = Inr t \<and> map percent_decode pieces = map Inr ts \<and> p = canonical_loop (out @ ''/'' @ escape_token t) ts"
    then obtain t ts where "map percent_decode (s # pieces) = map Inr (t # ts)" and "p = canonical_loop out (t # ts)" by auto
    then show "\<exists>us. map percent_decode (s # pieces) = map Inr us \<and> p = canonical_loop out us" by blast
  qed (auto simp: Cons_eq_map_conv)
  finally show ?case .
qed auto

abbreviation rest_path :: "string list \<Rightarrow> string" where
  "rest_path pieces \<equiv> concat (map (\<lambda>s. CHR ''/'' # s) pieces)"

lemma rest_path_pieces:
  assumes "pieces \<noteq> []" and "last pieces \<noteq> []" and "list_all (\<lambda>s. CHR ''/'' \<notin> set s) pieces"
  shows "path_to_pointer (rest_path pieces) = pointer_loop [] pieces"
proof -
  let ?j = "join_with (CHR ''/'') pieces"
  have j: "rest_path pieces = CHR ''/'' # ?j" using concat_slash_join [OF assms(1), of "\<lambda>s. s"] by simp
  have ne: "?j \<noteq> []" using assms(1,2) by (auto simp: join_with_Nil_iff)
  have "last (rest_path pieces) = last (last pieces)"
    using assms(1,2) by (induction pieces rule: rev_induct) auto
  moreover have "last (last pieces) \<noteq> CHR ''/''"
    using assms by (metis last_in_set list_all_iff)
  moreover have "tl (split_on (CHR ''/'') (rest_path pieces)) = pieces"
    using assms by (simp add: j split_on_join)
  ultimately show ?thesis using ne unfolding path_to_pointer_def by (simp add: j starts_with_def)
qed

lemma rest_path_decoded:
  assumes "pieces \<noteq> []" and "last pieces \<noteq> []" and "list_all (\<lambda>s. CHR ''/'' \<notin> set s) pieces"
  shows "path_to_pointer (rest_path pieces) = Inr p \<longleftrightarrow> (\<exists>ts. map percent_decode pieces = map Inr ts \<and> p = canonical ts \<and> parse p = Inr ts)"
proof -
  have eq: "ts \<noteq> [] \<and> canonical_loop [] ts = canonical ts \<and> parse (canonical ts) = Inr ts" if "map percent_decode pieces = map Inr ts" for ts
  proof -
    have ne: "ts \<noteq> []" using that assms(1) by auto
    have "percent_decode (last pieces) = Inr (last ts)" using that assms(1) ne by (metis last_map)
    then have "last ts \<noteq> []" using assms(2) percent_decode_Nil by blast
    then have "ts \<noteq> [[]]" by auto
    then have "parse (canonical ts) = Inr ts" by (rule parse_canonical_tokens)
    with ne show ?thesis by (simp add: canonical_def)
  qed
  then show ?thesis unfolding rest_path_pieces [OF assms] pointer_loop_Inr by metis
qed



text \<open>
  A client that percent-encodes its segments reaches the node it names: whatever text the segments hold, the path
  built from them is translated to the pointer with those segments.
\<close>

theorem rest_path_roundtrip:
  assumes "segs \<noteq> []" and "last segs \<noteq> []" and "\<forall>s\<in>set segs. from_utf8 (as_bytes s) = Inr s"
  shows "path_to_pointer (rest_path (map percent_encode segs)) = Inr (canonical segs) \<and> parse (canonical segs) = Inr segs"
proof -
  have "map percent_decode (map percent_encode segs) = map Inr segs" using assms(3) by (simp add: percent_decode_encode)
  moreover have "segs \<noteq> [[]]" using assms(2) by auto
  then have "parse (canonical segs) = Inr segs" by (rule parse_canonical_tokens)
  ultimately show ?thesis
    using rest_path_decoded [of "map percent_encode segs" "canonical segs"] assms(1,2)
    by (simp add: last_map list_all_iff percent_encode_no_slash)
qed

theorem rest_path_roundtrip_witness:
  "path_to_pointer (rest_path (map percent_encode [''x/y'', ''%'', ''~''])) = Inr ''/x~1y/%/~0''"
proof -
  have "canonical [''x/y'', ''%'', ''~''] = ''/x~1y/%/~0''" by code_simp
  moreover have "\<forall>s\<in>set [''x/y'', ''%'', ''~'']. from_utf8 (as_bytes s) = Inr s" by code_simp
  ultimately show ?thesis using rest_path_roundtrip [of "[''x/y'', ''%'', ''~'']"] by simp
qed

end
