(* ===== verification/Rest_Service.thy ===== *)
theory Rest_Service
  imports Rest_Paths
begin

text \<open>
  The REST gateway end to end: a request reaches the function registered at its path and its answer comes back; safe
  methods carry no body; conditional reads; the shape of every response; the limits of the accept loop.
\<close>

section \<open>The target of a request\<close>

definition target_free :: "string \<Rightarrow> bool" where
  "target_free s \<longleftrightarrow> list_all (\<lambda>c. c \<notin> {CHR ''?'', CHR ''#''}) s"

lemma upper_hex_free: "x < 16 \<Longrightarrow> upper_hex x \<notin> {CHR ''?'', CHR ''#''}"
  by (drule word_lt16_cases) (auto simp: upper_hex_def)

lemma char_of_byte: "char_of (unat (b :: u8)) = c \<Longrightarrow> b = of_char c"
  using of_char_char_of_unat [of b] by auto

lemma encode_byte_free: "target_free (encode_byte b)"
proof (cases "unreserved b")
  case True
  have "char_of (unat b) \<notin> {CHR ''?'', CHR ''#''}"
    using True by (auto simp: unreserved_def dest!: char_of_byte)
  with True show ?thesis by (simp add: encode_byte_def target_free_def)
next
  case False
  then show ?thesis
    using upper_hex_free [OF nibbles(1), of b] upper_hex_free [OF nibbles(2), of b]
    by (simp add: encode_byte_def target_free_def)
qed

lemma target_free_append [simp]: "target_free (s @ t) \<longleftrightarrow> target_free s \<and> target_free t"
  by (simp add: target_free_def)

lemma target_free_concat: "list_all target_free ss \<Longrightarrow> target_free (concat ss)"
  by (induction ss) (auto simp: target_free_def)

lemma percent_encode_free: "target_free (percent_encode s)"
  unfolding percent_encode_def by (rule target_free_concat) (simp add: list_all_iff encode_byte_free)

lemma rest_path_free: "target_free (rest_path (map percent_encode segs))"
  by (rule target_free_concat) (use percent_encode_free in \<open>auto simp: list_all_iff target_free_def\<close>)

lemma target_free_takeWhile: "target_free s \<Longrightarrow> takeWhile (\<lambda>c. c \<notin> {CHR ''?'', CHR ''#''}) s = s"
  by (simp add: target_free_def list_all_iff takeWhile_eq_all_conv)

section \<open>The function at a path\<close>

definition segs_ok :: "string list \<Rightarrow> bool" where
  "segs_ok segs \<longleftrightarrow> segs \<noteq> [] \<and> last segs \<noteq> [] \<and> list_all (\<lambda>s. from_utf8 (as_bytes s) = Inr s) segs"

lemma segs_pointer:
  assumes "segs_ok segs"
  shows "path_to_pointer (rest_path (map percent_encode segs)) = Inr (canonical segs)"
    and "canonical_key (canonical segs) = Inr (canonical segs)"
proof -
  have dec: "map percent_decode (map percent_encode segs) = map Inr segs"
    using assms by (simp add: segs_ok_def list_all_iff percent_decode_encode)
  have "segs \<noteq> [[]]" using assms by (auto simp: segs_ok_def)
  then have parse: "parse (canonical segs) = Inr segs" by (rule parse_canonical_tokens)
  show "path_to_pointer (rest_path (map percent_encode segs)) = Inr (canonical segs)"
    using rest_path_decoded [of "map percent_encode segs" "canonical segs"] assms dec parse
    by (simp add: segs_ok_def last_map list_all_iff percent_encode_no_slash)
  have "\<not> addresses_root (canonical segs)"
    using parse assms by (auto simp: parse_def segs_ok_def)
  moreover have "validate_escapes (canonical segs) = Inr ()" using parse by (simp add: validate_escapes_iff_parse)
  ultimately show "canonical_key (canonical segs) = Inr (canonical segs)" by (simp add: canonical_key_def)
qed

definition rest_outcome :: "rest_env \<Rightarrow> 'w RestGateway \<Rightarrow> call_error + unit \<Rightarrow> ResponseBody \<Rightarrow> RestResponse \<Rightarrow> bool" where
  "rest_outcome e gw r out response \<longleftrightarrow>
     (case r of
        Inr _ \<Rightarrow> rs_status response = 200 \<and> rs_body response = rb_buf out
                \<and> rs_content_type response = Some (media_type (from_body_format (rb_format out))) \<and> rs_repe_error_code response = None
      | Inl (code, msg) \<Rightarrow> response = problem e (status_for gw code) msg (Some (error_code_u32 code)))"

lemma invoke_at:
  assumes "canonical_key p = Inr p" and "rg_registry gw w p = Some f"
    and "f (call_context_detached p) params (response_body_with_format [] (repr_body_format repr)) w = (r, out, w')"
  shows "invoke gw p params repr w =
    (case r of Inr _ \<Rightarrow> Inr (rb_buf out, media_type (from_body_format (rb_format out))) | Inl (code, msg) \<Rightarrow> Inl (RGE_Execution code msg), w')"
  using assms by (cases r) (simp_all add: invoke_def registry_call_def split: prod.split)

lemma strip_mount_path:
  assumes "starts_with path ''/''"
  shows "strip_mount gw (rg_mount gw @ path) = Some path"
  using assms by (simp add: strip_mount_def)

lemma respond_at:
  assumes "segs_ok segs" and "target_free (rg_mount gw)" and "rr_target request = rg_mount gw @ rest_path (map percent_encode segs) @ tl1"
    and "tl1 = [] \<or> hd tl1 \<in> {CHR ''?'', CHR ''#''}"
    and "rr_method request \<in> {''GET'', ''HEAD'', ''PUT'', ''POST''}"
  shows "respond e gw request w =
    (if rr_method request = ''GET'' \<or> rr_method request = ''HEAD'' then gateway_read e gw (canonical segs) request w
     else gateway_call e gw (canonical segs) request w)"
proof -
  let ?p = "rg_mount gw @ rest_path (map percent_encode segs)"
  have "target_free ?p" using assms(2) rest_path_free by simp
  then have free: "list_all (\<lambda>c. c \<notin> {CHR ''?'', CHR ''#''}) ?p" unfolding target_free_def .
  have "takeWhile (\<lambda>c. c \<notin> {CHR ''?'', CHR ''#''}) (rr_target request) = ?p"
  proof -
    have "takeWhile (\<lambda>c. c \<notin> {CHR ''?'', CHR ''#''}) (?p @ tl1) = ?p @ takeWhile (\<lambda>c. c \<notin> {CHR ''?'', CHR ''#''}) tl1"
      using free by (intro takeWhile_append2) (simp add: list_all_iff)
    moreover have "takeWhile (\<lambda>c. c \<notin> {CHR ''?'', CHR ''#''}) tl1 = []" using assms(4) by (cases tl1) auto
    ultimately show ?thesis using assms(3) by simp
  qed
  moreover have "starts_with (rest_path (map percent_encode segs)) ''/''"
    using assms(1) by (cases segs) (simp_all add: segs_ok_def starts_with_def)
  then have "strip_mount gw ?p = Some (rest_path (map percent_encode segs))" by (rule strip_mount_path)
  ultimately show ?thesis
    using assms(5) segs_pointer(1) [OF assms(1)] unfolding respond_def Let_def by auto
qed

lemma read_at:
  assumes "canonical_key p = Inr p" and "rg_registry gw w p = Some f"
    and "f (call_context_detached p) None (response_body_with_format [] (repr_body_format (negotiate e (rr_accept request)))) w = (r, out, w')"
    and "rr_if_none_match request = None"
  shows "\<exists>response. gateway_read e gw p request w = (response, w') \<and> rest_outcome e gw r out response"
  using assms(4) by (cases r)
    (auto simp: gateway_read_def invoke_at [OF assms(1-3)] rest_outcome_def problem_for_def rest_empty_def Let_def split: prod.split)

lemma call_at:
  assumes "canonical_key p = Inr p" and "rg_registry gw w p = Some f"
    and "f (call_context_detached p) (Some \<lparr>rq_bytes = rr_body request, rq_format = format\<rparr>)
           (response_body_with_format [] (repr_body_format (negotiate e (rr_accept request)))) w = (r, out, w')"
    and "\<not> rc_read_only (rg_config gw)" and "rr_body request \<noteq> []"
    and "request_body_format gw (rr_content_type request) = Inr format"
  shows "\<exists>response. gateway_call e gw p request w = (response, w') \<and> rest_outcome e gw r out response"
  using assms(4-6) by (cases r)
    (auto simp: gateway_call_def invoke_at [OF assms(1-3)] rest_outcome_def problem_for_def rest_empty_def Let_def split: prod.split)

text \<open>
  C31. A registered function is served over HTTP: \<^verbatim>\<open>GET\<close> and \<^verbatim>\<open>HEAD\<close> call the function at the decoded path without
  arguments, \<^verbatim>\<open>PUT\<close> and \<^verbatim>\<open>POST\<close> with the body in the format the content type names, each exactly once; whatever follows
  the path in the target is ignored; a result comes back with status 200, its own bytes and its own media type, an
  error as a problem with the mapped status and the REPE code.
\<close>

theorem rest_function_served:
  assumes "segs_ok segs" and "target_free (rg_mount gw)"
    and "rr_target request = rg_mount gw @ rest_path (map percent_encode segs) @ query" and "query = [] \<or> hd query \<in> {CHR ''?'', CHR ''#''}"
    and "rg_registry gw w (canonical segs) = Some f"
    and "f (call_context_detached (canonical segs)) params
           (response_body_with_format [] (repr_body_format (negotiate e (rr_accept request)))) w = (r, out, w')"
    and "(rr_method request \<in> {''GET'', ''HEAD''} \<and> rr_if_none_match request = None \<and> params = None)
       \<or> (rr_method request \<in> {''PUT'', ''POST''} \<and> rc_read_only (rg_config gw) = False \<and> rr_body request \<noteq> []
          \<and> (\<exists>format. request_body_format gw (rr_content_type request) = Inr format
               \<and> params = Some \<lparr>rq_bytes = rr_body request, rq_format = format\<rparr>))"
  shows "\<exists>response. respond e gw request w = (response, w') \<and> rest_outcome e gw r out response"
  using assms(7)
proof
  note at = respond_at [OF assms(1-4), of e w]
  assume "rr_method request \<in> {''GET'', ''HEAD''} \<and> rr_if_none_match request = None \<and> params = None"
  with at assms(6) show ?thesis
    using read_at [OF segs_pointer(2) [OF assms(1)] assms(5), of e request r out w'] by auto
next
  note at = respond_at [OF assms(1-4), of e w]
  assume "rr_method request \<in> {''PUT'', ''POST''} \<and> rc_read_only (rg_config gw) = False \<and> rr_body request \<noteq> []
          \<and> (\<exists>format. request_body_format gw (rr_content_type request) = Inr format
               \<and> params = Some \<lparr>rq_bytes = rr_body request, rq_format = format\<rparr>)"
  then obtain format where c: "rr_method request \<in> {''PUT'', ''POST''}" "\<not> rc_read_only (rg_config gw)" "rr_body request \<noteq> []"
      "request_body_format gw (rr_content_type request) = Inr format" "params = Some \<lparr>rq_bytes = rr_body request, rq_format = format\<rparr>"
    by blast
  then have "respond e gw request w = gateway_call e gw (canonical segs) request w" using at by auto
  then show ?thesis
    using call_at [OF segs_pointer(2) [OF assms(1)] assms(5), of request format e r out w'] c assms(6) by auto
qed

text \<open>A counter at the pointer of the one segment \<^verbatim>\<open>a/b\<close>: a call without arguments reads it, one with arguments counts.\<close>

definition counter_function :: "nat RegistryFunction" where
  "counter_function ctx params out w =
     (case params of
        None \<Rightarrow> (Inr (), out\<lparr>rb_buf := rb_buf out @ as_bytes (dec_str w)\<rparr>, w)
      | Some body \<Rightarrow> if rq_format body = BF_Json then (Inr (), out\<lparr>rb_buf := rb_buf out @ rq_bytes body\<rparr>, w + 1)
                     else (Inl (EC_InvalidBody, ''json only''), out, w))"

definition counter_config :: RestConfig where
  "counter_config =
     \<lparr>rc_max_body_bytes = 64, rc_cache_control = Some ''no-cache'', rc_application_error_status = 500, rc_read_only = False,
      rc_accept_beve_bodies = True, rc_max_connections = 4, rc_request_timeout = None\<rparr>"

definition counter_gateway :: "nat RestGateway" where
  "counter_gateway = gateway_with_config ''api/'' (\<lambda>w. [''/a~1b'' \<mapsto> counter_function]) counter_config"

definition example_env :: rest_env where
  "example_env = \<lparr>re_reason = (\<lambda>_. None), re_problem_json = (\<lambda>p. as_bytes (pr_detail p)), re_quality = (\<lambda>_. None),
     re_header_ok = (\<lambda>_. True), re_status_ok = (\<lambda>_. True)\<rparr>"

theorem rest_function_served_witness:
  "\<exists>response. respond example_env counter_gateway
      ((rest_request_new ''POST'' ''/api/a%2Fb?x=1'')\<lparr>rr_body := as_bytes ''7''\<rparr>) 4 = (response, 5) \<and> rs_status response = 200 \<and> rs_body response = as_bytes ''7''"
proof -
  let ?request = "(rest_request_new ''POST'' ''/api/a%2Fb?x=1'')\<lparr>rr_body := as_bytes ''7''\<rparr>"
  let ?out = "response_body_with_format [] (repr_body_format (negotiate example_env (rr_accept ?request)))"
  have mount: "rg_mount counter_gateway = ''/api''" "rc_read_only (rg_config counter_gateway) = False" by code_simp+
  have path: "rest_path (map percent_encode [''a/b'']) = ''/a%2Fb''" and c: "canonical [''a/b''] = ''/a~1b''" by code_simp+
  have "segs_ok [''a/b'']" and "target_free ''/api''" and fmt: "request_body_format counter_gateway (rr_content_type ?request) = Inr BF_Json"
    by code_simp+
  moreover have "counter_function (call_context_detached ''/a~1b'') (Some \<lparr>rq_bytes = as_bytes ''7'', rq_format = BF_Json\<rparr>) ?out 4
      = (Inr (), ?out\<lparr>rb_buf := as_bytes ''7''\<rparr>, 5)"
    by (simp add: counter_function_def response_body_with_format_def)
  ultimately have "\<exists>response. respond example_env counter_gateway ?request 4 = (response, 5)
      \<and> rest_outcome example_env counter_gateway (Inr ()) (?out\<lparr>rb_buf := as_bytes ''7''\<rparr>) response"
    using mount path
    by (intro rest_function_served [where segs = "[''a/b'']" and query = "''?x=1''" and f = counter_function
          and params = "Some \<lparr>rq_bytes = as_bytes ''7'', rq_format = BF_Json\<rparr>"])
      (simp_all add: c rest_request_new_def counter_gateway_def gateway_with_config_def)
  then show ?thesis by (auto simp: rest_outcome_def)
qed

section \<open>Safe methods\<close>

text \<open>
  C33. What a safe request carries never reaches a function: on a gateway that is read-only, or with a method other than
  \<^verbatim>\<open>PUT\<close> and \<^verbatim>\<open>POST\<close>, neither the answer nor the effect depends on the body or its content type, and unless the method is
  \<^verbatim>\<open>GET\<close> or \<^verbatim>\<open>HEAD\<close> there is no effect at all.
\<close>

theorem rest_safe_methods:
  assumes "rc_read_only (rg_config gw) \<or> rr_method request \<notin> {''PUT'', ''POST''}"
  shows "respond e gw (request\<lparr>rr_body := body, rr_content_type := content_type\<rparr>) w = respond e gw request w
    \<and> (rr_method request \<notin> {''GET'', ''HEAD''} \<longrightarrow> snd (respond e gw request w) = w)"
proof -
  have read: "gateway_read e gw p (request\<lparr>rr_body := body, rr_content_type := content_type\<rparr>) w = gateway_read e gw p request w" for p
    by (simp add: gateway_read_def Let_def split: prod.split sum.split)
  have call: "gateway_call e gw p request w = (method_not_allowed e ALLOW_READ_ONLY ''this gateway is configured read-only'', w)"
      "gateway_call e gw p (request\<lparr>rr_body := body, rr_content_type := content_type\<rparr>) w
        = (method_not_allowed e ALLOW_READ_ONLY ''this gateway is configured read-only'', w)"
    if "rc_read_only (rg_config gw)" for p
    using that by (simp_all add: gateway_call_def)
  show ?thesis
    using assms call by (auto simp: respond_def read Let_def split: option.split sum.split)
qed

theorem rest_safe_methods_witness:
  "snd (respond example_env counter_gateway ((rest_request_new ''DELETE'' ''/api/a%2Fb'')\<lparr>rr_body := [1]\<rparr>) 4) = 4"
proof -
  have "rr_method ((rest_request_new ''DELETE'' ''/api/a%2Fb'')\<lparr>rr_body := [1]\<rparr>) = ''DELETE''" by (simp add: rest_request_new_def)
  then show ?thesis
    using rest_safe_methods [where gw = counter_gateway and request = "(rest_request_new ''DELETE'' ''/api/a%2Fb'')\<lparr>rr_body := [1]\<rparr>"]
    by simp
qed

section \<open>Conditional reads\<close>

lemma trim_start_id:
  assumes "list_all (\<lambda>w. w = [] \<or> hd w \<noteq> c) ws"
  shows "trim_start_with ws (c # s) = c # s"
proof -
  have "find (\<lambda>w. w \<noteq> [] \<and> starts_with (c # s) w) ws = None"
    using assms by (auto simp: find_None_iff list_all_iff starts_with_iff Cons_eq_append_conv)
  then show ?thesis by (subst trim_start_with.simps) simp
qed

lemma str_trim_quoted: "str_trim (CHR 0x22 # s @ [CHR 0x22]) = CHR 0x22 # s @ [CHR 0x22]"
proof -
  have fwd: "list_all (\<lambda>w. w = [] \<or> hd w \<noteq> CHR 0x22) white_space" by code_simp
  have bwd: "list_all (\<lambda>w. w = [] \<or> hd w \<noteq> CHR 0x22) (map rev white_space)" by code_simp
  show ?thesis
    using trim_start_id [OF fwd, of "s @ [CHR 0x22]"] trim_start_id [OF bwd, of "rev (CHR 0x22 # s)"]
    by (simp add: str_trim_def)
qed

lemma hex_digit_no_comma: "n < 16 \<Longrightarrow> hex_digit n \<noteq> CHR '',''"
proof -
  assume "n < 16"
  then have "n \<in> set [0..<16]" by simp
  moreover have "list_all (\<lambda>n. hex_digit n \<noteq> CHR '','') [0..<16]" by code_simp
  ultimately show ?thesis by (simp add: list_all_iff)
qed

lemma etag_matches: "if_none_match_matches (etag_for body) (etag_for body)"
proof -
  obtain h where h: "etag_for body = CHR 0x22 # hex16 h @ [CHR 0x22]" by (simp add: etag_for_def)
  have "CHR '','' \<notin> set (hex16 h)" by (auto simp: hex16_def hex_digit_no_comma dest: sym)
  then have "split_on (CHR '','') (etag_for body) = [etag_for body]"
    unfolding h by (intro split_on_no_sep) auto
  moreover have "str_trim (etag_for body) = etag_for body" unfolding h by (rule str_trim_quoted)
  moreover have "strip_prefix (etag_for body) ''W/'' = None" unfolding h by (simp add: strip_prefix_def starts_with_def)
  ultimately show ?thesis by (simp add: if_none_match_matches_def Let_def)
qed

lemma read_conditional:
  assumes "gateway_read e gw p (request\<lparr>rr_if_none_match := None\<rparr>) w = (response, w')" and "rs_etag response = Some etag"
  shows "gateway_read e gw p (request\<lparr>rr_if_none_match := Some header\<rparr>) w =
      (if if_none_match_matches header etag
       then (rest_empty 304)\<lparr>rs_etag := Some etag, rs_cache_control := rs_cache_control response, rs_vary := Some ''Accept''\<rparr>
       else response, w') \<and> etag = etag_for (rs_body response)"
  using assms by (auto simp: gateway_read_def Let_def problem_for_def problem_def rest_empty_def split: prod.splits sum.splits)

text \<open>
  C34. Revalidation is exact: when a read answers with a validator, the same read with an \<^verbatim>\<open>If-None-Match\<close> header
  has the same effect and answers 304 with that validator and no body if the header names it, and the full answer otherwise;
  the validator is a function of the bytes alone, and sending it back does match.
\<close>

theorem rest_revalidation:
  assumes "rr_method request \<in> {''GET'', ''HEAD''}"
    and "respond e gw (request\<lparr>rr_if_none_match := None\<rparr>) w = (response, w')" and "rs_etag response = Some etag"
  shows "respond e gw (request\<lparr>rr_if_none_match := Some header\<rparr>) w =
      (if if_none_match_matches header etag
       then (rest_empty 304)\<lparr>rs_etag := Some etag, rs_cache_control := rs_cache_control response, rs_vary := Some ''Accept''\<rparr>
       else response, w')
    \<and> etag = etag_for (rs_body response) \<and> if_none_match_matches etag etag"
proof -
  let ?path = "takeWhile (\<lambda>c. c \<notin> {CHR ''?'', CHR ''#''}) (rr_target request)"
  obtain remainder pointer where at: "strip_mount gw ?path = Some remainder" "path_to_pointer remainder = Inr pointer"
    using assms by (auto simp: respond_def Let_def problem_def rest_empty_def split: option.splits sum.splits)
  have eq: "respond e gw (request\<lparr>rr_if_none_match := inm\<rparr>) w = gateway_read e gw pointer (request\<lparr>rr_if_none_match := inm\<rparr>) w" for inm
    using assms(1) at by (auto simp: respond_def Let_def)
  show ?thesis
    using read_conditional [OF assms(2) [unfolded eq] assms(3), of header] etag_matches [of "rs_body response"] unfolding eq by simp
qed

theorem rest_revalidation_witness:
  "\<exists>etag. fst (respond example_env counter_gateway ((rest_request_new ''GET'' ''/api/a%2Fb'')\<lparr>rr_if_none_match := Some etag\<rparr>) 4)
     = (rest_empty 304)\<lparr>rs_etag := Some etag, rs_cache_control := Some ''no-cache'', rs_vary := Some ''Accept''\<rparr>"
proof -
  let ?request = "rest_request_new ''GET'' ''/api/a%2Fb''"
  let ?response = "fst (respond example_env counter_gateway ?request 4)"
  have none: "?request\<lparr>rr_if_none_match := None\<rparr> = ?request" by (simp add: rest_request_new_def)
  have mount: "rg_mount counter_gateway = ''/api''" and path: "percent_encode ''a/b'' = ''a%2Fb''" and c: "canonical [''a/b''] = ''/a~1b''"
    and key: "canonical_key ''/a~1b'' = Inr ''/a~1b''" and digit: "dec_str 4 = ''4''"
    by code_simp+
  have ok: "segs_ok [''a/b'']" "target_free ''/api''" by code_simp+
  have "respond example_env counter_gateway ?request 4 = gateway_read example_env counter_gateway ''/a~1b'' ?request 4"
    using respond_at [of "[''a/b'']" counter_gateway ?request "[]" example_env 4] ok by (simp add: mount path c rest_request_new_def)
  then have etag: "rs_etag ?response = Some (etag_for (as_bytes ''4''))" and cc: "rs_cache_control ?response = Some ''no-cache''"
    by (simp_all add: gateway_read_def invoke_def registry_call_def key counter_gateway_def gateway_with_config_def counter_function_def digit
        response_body_with_format_def counter_config_def rest_request_new_def Let_def)
  have get: "rr_method ?request \<in> {''GET'', ''HEAD''}" by (simp add: rest_request_new_def)
  obtain w' where "respond example_env counter_gateway (?request\<lparr>rr_if_none_match := None\<rparr>) 4 = (?response, w')"
    unfolding none by (metis prod.collapse)
  note conditional = rest_revalidation [OF get this etag, of "etag_for (as_bytes ''4'')"]
  show ?thesis
    using conditional [THEN conjunct1] conditional [THEN conjunct2, THEN conjunct2] cc by (intro exI [of _ "etag_for (as_bytes ''4'')"]) simp
qed

section \<open>The shape of responses\<close>

definition rest_response_wf :: "RestConfig \<Rightarrow> string \<Rightarrow> RestResponse \<Rightarrow> bool" where
  "rest_response_wf config request_method r \<longleftrightarrow>
     rs_status r \<in> {200, 204, 304, 400, 404, 405, 415, 500, 503, 504, rc_application_error_status config}
     \<and> (rs_content_type r = None \<longleftrightarrow> rs_status r = 204 \<or> rs_status r = 304)
     \<and> (rs_content_type r = None \<longrightarrow> rs_body r = [])
     \<and> (rs_allow r = None \<longleftrightarrow> rs_status r \<notin> {204, 405})
     \<and> (rs_etag r \<noteq> None \<longrightarrow> request_method \<in> {''GET'', ''HEAD''} \<and> rs_status r \<in> {200, 304} \<and> rs_cache_control r = rc_cache_control config)
     \<and> (rs_omit_body r \<longrightarrow> request_method = ''HEAD'' \<and> rs_status r = 200)
     \<and> (rs_repe_error_code r \<noteq> None \<longrightarrow> rs_content_type r = Some MEDIA_PROBLEM)
     \<and> (rs_content_type r = Some MEDIA_PROBLEM \<longrightarrow> rs_cache_control r = Some ''no-store'' \<and> rs_etag r = None)"

definition app_status_ok :: "RestConfig \<Rightarrow> bool" where
  "app_status_ok config \<longleftrightarrow> rc_application_error_status config \<notin> {204, 304, 405}"

lemmas response_defs = rest_response_wf_def rest_empty_def problem_def

lemma problem_wf:
  "status \<in> {200, 400, 404, 415, 500, 503, 504, rc_application_error_status config} \<Longrightarrow> app_status_ok config
    \<Longrightarrow> rest_response_wf config m (problem e status detail code)"
  by (auto simp: response_defs app_status_ok_def Let_def)

lemma status_for_range: "status_for gw code \<in> {200, 400, 404, 500, 503, 504, rc_application_error_status (rg_config gw)}"
  by (simp add: status_for_def split: ErrorCode.split)

lemma problem_for_wf: "app_status_ok (rg_config gw) \<Longrightarrow> rest_response_wf (rg_config gw) m (problem_for e gw err)"
  using status_for_range [of gw "registry_error_code err"] unfolding problem_for_def Let_def by (intro problem_wf) auto

lemma method_not_allowed_wf: "rest_response_wf config m (method_not_allowed e allow detail)"
  by (simp add: response_defs method_not_allowed_def Let_def)

lemma media_not_problem: "media_type repr \<noteq> MEDIA_PROBLEM"
  by (cases repr) (simp_all add: MEDIA_JSON_def MEDIA_BEVE_def MEDIA_PROBLEM_def)

lemma invoke_media: "invoke gw p params repr w = (Inr (body, media), w') \<Longrightarrow> media \<noteq> MEDIA_PROBLEM"
  by (auto simp: invoke_def media_not_problem split: prod.splits sum.splits)

lemma read_wf:
  assumes "app_status_ok (rg_config gw)" and "rr_method request \<in> {''GET'', ''HEAD''}"
  shows "rest_response_wf (rg_config gw) (rr_method request) (fst (gateway_read e gw p request w))"
  using assms problem_for_wf [OF assms(1)] invoke_media [of gw p None]
  by (auto simp: gateway_read_def response_defs Let_def split: prod.splits sum.splits)

lemma call_wf:
  assumes "app_status_ok (rg_config gw)"
  shows "rest_response_wf (rg_config gw) m (fst (gateway_call e gw p request w))"
proof -
  have ok: "rest_response_wf (rg_config gw) m ((rest_empty 200)\<lparr>rs_content_type := Some media, rs_vary := Some ''Accept'', rs_body := body\<rparr>)"
    if "media \<noteq> MEDIA_PROBLEM" for media body
    using that by (simp add: response_defs)
  show ?thesis
    using problem_for_wf [OF assms] problem_wf [OF _ assms] method_not_allowed_wf ok invoke_media [of gw p]
    unfolding gateway_call_def by (auto split: prod.split sum.split)
qed



section \<open>The accept loop\<close>

definition serve_ok :: "RestConfig \<Rightarrow> RestServe \<Rightarrow> bool" where
  "serve_ok config s \<longleftrightarrow> sv_connections s \<le> rc_max_connections config
     \<and> ACCEPT_BACKOFF \<le> sv_backoff s \<and> sv_backoff s \<le> MAX_ACCEPT_BACKOFF
     \<and> list_all (\<lambda>d. ACCEPT_BACKOFF \<le> d \<and> d \<le> MAX_ACCEPT_BACKOFF) (sv_slept s)"

lemma serve_step_ok: "serve_ok config s \<Longrightarrow> serve_ok config (serve_step config event s)"
  by (cases event) (auto simp: serve_ok_def ACCEPT_BACKOFF_def MAX_ACCEPT_BACKOFF_def split: option.split)

lemma serve_start_ok: "serve_ok config serve_start"
  by (simp add: serve_ok_def serve_start_def ACCEPT_BACKOFF_def MAX_ACCEPT_BACKOFF_def)

lemma min_double: "min (min (a * 2) M * 2 ^ k) M = min (a * 2 ^ Suc k) (M :: nat)"
proof (cases "a * 2 \<le> M")
  case True
  then show ?thesis by (simp add: ac_simps)
next
  case False
  have one: "n \<le> n * 2 ^ k" for n :: nat by simp
  have "M \<le> M * 2 ^ k" and "M \<le> a * 2 * 2 ^ k" using one [of M] one [of "a * 2"] False by linarith+
  with False show ?thesis by (simp add: min_absorb2 ac_simps)
qed

lemma serve_failures:
  assumes "sv_connections s < rc_max_connections config" and "list_all (\<lambda>err. \<not> is_per_connection_accept_error err) errs"
    and "sv_backoff s \<le> MAX_ACCEPT_BACKOFF"
  shows "sv_slept (fold (serve_step config) (map (\<lambda>err. SV_Turn (Some err)) errs) s)
       = sv_slept s @ map (\<lambda>k. min (sv_backoff s * 2 ^ k) MAX_ACCEPT_BACKOFF) [0..<length errs]"
  using assms
proof (induction errs arbitrary: s)
  case (Cons err errs)
  let ?s = "serve_step config (SV_Turn (Some err)) s"
  have s: "?s = s\<lparr>sv_slept := sv_slept s @ [sv_backoff s], sv_backoff := min (sv_backoff s * 2) MAX_ACCEPT_BACKOFF\<rparr>"
    using Cons.prems by simp
  have "sv_slept (fold (serve_step config) (map (\<lambda>err. SV_Turn (Some err)) errs) ?s)
      = sv_slept ?s @ map (\<lambda>k. min (sv_backoff ?s * 2 ^ k) MAX_ACCEPT_BACKOFF) [0..<length errs]"
    using Cons.prems by (intro Cons.IH) (simp_all add: s)
  also have "\<dots> = sv_slept s @ map (\<lambda>k. min (sv_backoff s * 2 ^ k) MAX_ACCEPT_BACKOFF) [0..<length (err # errs)]"
    using Cons.prems by (simp add: s min_double upt_conv_Cons map_Suc_upt [symmetric] comp_def del: upt_Suc power_Suc)
  finally show ?case by simp
qed simp

lemma serve_run_ok: "serve_ok config s \<Longrightarrow> serve_ok config (fold (serve_step config) events s)"
  by (induction events arbitrary: s) (auto intro: serve_step_ok)



section \<open>An illegal freshness directive\<close>

text \<open>The configured \<^verbatim>\<open>Cache-Control\<close> is not validated: a value hyper refuses turns a successful read into an empty 500.\<close>

lemma illegal_cache_control:
  "rs_cache_control response = Some directive \<Longrightarrow> re_header_ok e directive = False
    \<Longrightarrow> to_hyper e response = \<lparr>hp_status = 500, hp_headers = [], hp_body = []\<rparr>"
  by (simp add: to_hyper_def opt_header_def Let_def)

end
