(* ===== verification/Plugin_Runtime.thy ===== *)
theory Plugin_Runtime
  imports Router
begin

text \<open>
  The exporting side of the plugin interface, \<^verbatim>\<open>src/plugin.rs\<close>: the runtime behind the five C symbols, its
  lazily built router, the response buffers of the calling threads and the guard around a dispatch. Buffers cross the
  interface as addresses, so each thread's buffer has a base address and a capacity; an allocator is an
  argument, as are the constructor and the handlers' panics.
\<close>

section \<open>Memory\<close>

definition REPE_PLUGIN_INTERFACE_VERSION :: u32 where
  "REPE_PLUGIN_INTERFACE_VERSION = 3"

record RepeBuffer =
  bu_data :: nat
  bu_size :: u64

datatype RepeResult = RR_Ok | RR_InitFailed | RR_AlreadyInitialized

fun repe_result_code :: "RepeResult \<Rightarrow> int" where
  "repe_result_code RR_Ok = 0"
| "repe_result_code RR_InitFailed = 1"
| "repe_result_code RR_AlreadyInitialized = 2"

text \<open>The metadata: each string is behind a pointer, null or to bytes up to the terminator.\<close>

record RepePluginData =
  pd_name :: "bytes option"
  pd_version :: "bytes option"
  pd_root_path :: "bytes option"

text \<open>
  A request as the host passes it: an address, zero for null, the size it claims, and the bytes that can be read there.
\<close>

record raw_request =
  rw_addr :: nat
  rw_size :: u64
  rw_bytes :: bytes

text \<open>The response cell of a thread: free, borrowed by a call in progress, or destroyed with its thread.\<close>

datatype cell_status = Cell_Free | Cell_Borrowed | Cell_Destroyed

record cell =
  ce_status :: cell_status
  ce_base :: nat
  ce_capacity :: nat
  ce_bytes :: bytes

text \<open>
  \<open>pv_grow base need\<close> is the allocation a vector moves to when it has to hold \<open>need\<close> bytes; \<open>pv_panics\<close> tells when a handler
  panics during a dispatch, with what it left in the buffer; \<open>pv_build\<close> is the constructor, \<open>None\<close> its panic.
\<close>

record ('w, 's) plugin_env =
  pv_usize_max :: nat
  pv_show :: "'s RepeError \<Rightarrow> string"
  pv_build :: "'w \<Rightarrow> ('w, 's) Router option \<times> 'w"
  pv_panics :: "('w, 's) Router \<Rightarrow> bytes \<Rightarrow> 'w \<Rightarrow> (bytes \<times> 'w) option"
  pv_grow :: "nat \<Rightarrow> nat \<Rightarrow> nat \<times> nat"
  pv_anchor :: nat
  pv_static :: nat

definition isize_max :: "nat \<Rightarrow> nat" where
  "isize_max usize_max = usize_max div 2"

definition buffer_empty :: "('w, 's) plugin_env \<Rightarrow> RepeBuffer" where
  "buffer_empty env = \<lparr>bu_data = pv_anchor env, bu_size = 0\<rparr>"

definition borrowing :: "('w, 's) plugin_env \<Rightarrow> nat \<Rightarrow> bytes \<Rightarrow> RepeBuffer" where
  "borrowing env base bs =
     (if bs = [] then buffer_empty env else \<lparr>bu_data = base, bu_size = of_nat (length bs)\<rparr>)"

definition static_error_frame :: bytes where
  "static_error_frame = message_to_vec (create_error_message EC_InternalError
     (''repe plugin: this thread'' @ [CHR 0x27] @ ''s response buffer is unavailable '' @ [CHR 0xE2, CHR 0x80, CHR 0x94]
      @ '' either a reentrant repe_plugin_call, or a call made during thread teardown''))"

definition cell_fill :: "('w, 's) plugin_env \<Rightarrow> bytes \<Rightarrow> cell \<Rightarrow> cell" where
  "cell_fill env bs c =
     (let c = c\<lparr>ce_bytes := bs\<rparr>
      in if length bs \<le> ce_capacity c then c
         else case pv_grow env (ce_base c) (length bs) of (base, capacity) \<Rightarrow> c\<lparr>ce_base := base, ce_capacity := capacity\<rparr>)"

section \<open>The runtime\<close>

record ('w, 's) PluginRuntime =
  pl_router :: "('w, 's) Router option"
  pl_shutdown :: bool
  pl_build_failed :: bool
  pl_cells :: "nat \<Rightarrow> cell"
  pl_world :: 'w

definition runtime_new :: "(nat \<Rightarrow> cell) \<Rightarrow> 'w \<Rightarrow> ('w, 's) PluginRuntime" where
  "runtime_new cells w = \<lparr>pl_router = None, pl_shutdown = False, pl_build_failed = False, pl_cells = cells, pl_world = w\<rparr>"

text \<open>
  \<open>get_or_build\<close> as one step of a thread; the race of several threads is \<open>build_step\<close> below.
\<close>

definition get_or_build ::
    "('w, 's) plugin_env \<Rightarrow> ('w, 's) PluginRuntime \<Rightarrow> (('w, 's) Router \<times> bool) option \<times> ('w, 's) PluginRuntime" where
  "get_or_build env rt =
     (case pl_router rt of
        Some router \<Rightarrow> (Some (router, False), rt)
      | None \<Rightarrow>
          if pl_build_failed rt then (None, rt)
          else (case pv_build env (pl_world rt) of
                  (Some router, w) \<Rightarrow> (Some (router, True), rt\<lparr>pl_router := Some router, pl_world := w\<rparr>)
                | (None, w) \<Rightarrow> (None, rt\<lparr>pl_build_failed := True, pl_world := w\<rparr>)))"

definition plugin_init :: "('w, 's) plugin_env \<Rightarrow> ('w, 's) PluginRuntime \<Rightarrow> RepeResult \<times> ('w, 's) PluginRuntime" where
  "plugin_init env rt =
     (if pl_shutdown rt then (RR_InitFailed, rt)
      else (case get_or_build env rt of
              (Some (_, True), rt) \<Rightarrow> (RR_Ok, rt)
            | (Some (_, False), rt) \<Rightarrow> (RR_AlreadyInitialized, rt)
            | (None, rt) \<Rightarrow> (RR_InitFailed, rt)))"

definition plugin_shutdown :: "('w, 's) PluginRuntime \<Rightarrow> ('w, 's) PluginRuntime" where
  "plugin_shutdown rt = rt\<lparr>pl_shutdown := True\<rparr>"

definition set_cell :: "nat \<Rightarrow> cell \<Rightarrow> ('w, 's) PluginRuntime \<Rightarrow> ('w, 's) PluginRuntime" where
  "set_cell t c rt = rt\<lparr>pl_cells := (pl_cells rt)(t := c)\<rparr>"

text \<open>Filling the thread's buffer with \<open>bs\<close>, or the static frame when the thread has none it can use.\<close>

definition with_response_buffer ::
    "('w, 's) plugin_env \<Rightarrow> nat \<Rightarrow> bytes \<Rightarrow> ('w, 's) PluginRuntime \<Rightarrow> RepeBuffer \<times> ('w, 's) PluginRuntime" where
  "with_response_buffer env t bs rt =
     (case ce_status (pl_cells rt t) of
        Cell_Free \<Rightarrow>
          (let c = cell_fill env bs (pl_cells rt t)
           in (borrowing env (ce_base c) (ce_bytes c), set_cell t c rt))
      | _ \<Rightarrow> (borrowing env (pv_static env) static_error_frame, rt))"

definition error_response ::
    "('w, 's) plugin_env \<Rightarrow> nat \<Rightarrow> ErrorCode \<Rightarrow> string \<Rightarrow> ('w, 's) PluginRuntime \<Rightarrow> RepeBuffer \<times> ('w, 's) PluginRuntime" where
  "error_response env t code msg rt =
     with_response_buffer env t (message_to_vec (create_error_message code msg)) rt"

definition aliases_response_buffer :: "nat \<Rightarrow> nat \<Rightarrow> cell \<Rightarrow> bool" where
  "aliases_response_buffer start len c =
     (case ce_status c of
        Cell_Free \<Rightarrow> start < ce_base c + ce_capacity c \<and> ce_base c < start + len
      | _ \<Rightarrow> False)"

definition requested_notify :: "('w, 's) plugin_env \<Rightarrow> raw_request \<Rightarrow> bool" where
  "requested_notify env req =
     (let size = unat (rw_size req)
      in if size > pv_usize_max env then False
         else if rw_addr req = 0 \<or> size < HEADER_SIZE \<or> size > isize_max (pv_usize_max env) then False
         else (case header_decode (pv_usize_max env) (take HEADER_SIZE (rw_bytes req)) :: 's RepeError + Header of
                 Inr header \<Rightarrow> h_notify header \<noteq> 0
               | Inl _ \<Rightarrow> False))"

text \<open>The dispatch into the buffer; \<open>None\<close> is a panic, after which the buffer is free again.\<close>

definition dispatch_into ::
    "('w, 's) plugin_env \<Rightarrow> nat \<Rightarrow> ('w, 's) Router \<Rightarrow> bytes \<Rightarrow> ('w, 's) PluginRuntime
      \<Rightarrow> RepeBuffer option \<times> ('w, 's) PluginRuntime" where
  "dispatch_into env t router request rt =
     (case ce_status (pl_cells rt t) of
        Cell_Free \<Rightarrow>
          (case pv_panics env router request (pl_world rt) of
             Some (partial, w) \<Rightarrow> (None, set_cell t (cell_fill env partial (pl_cells rt t)) (rt\<lparr>pl_world := w\<rparr>))
           | None \<Rightarrow>
               (case call_into (pv_usize_max env) (pv_show env) router request (ce_bytes (pl_cells rt t)) (pl_world rt) of
                  None \<Rightarrow> (None, set_cell t (cell_fill env [] (pl_cells rt t)) rt)
                | Some (responded, out, w) \<Rightarrow>
                    (let c = cell_fill env out (pl_cells rt t)
                     in (Some (if responded then borrowing env (ce_base c) (ce_bytes c) else buffer_empty env),
                         set_cell t c (rt\<lparr>pl_world := w\<rparr>)))))
      | _ \<Rightarrow> (Some (borrowing env (pv_static env) static_error_frame), rt))"

definition call_unguarded ::
    "('w, 's) plugin_env \<Rightarrow> nat \<Rightarrow> raw_request \<Rightarrow> ('w, 's) PluginRuntime \<Rightarrow> RepeBuffer option \<times> ('w, 's) PluginRuntime" where
  "call_unguarded env t req rt =
     (if pl_shutdown rt
      then apfst Some (error_response env t EC_InternalError ''repe plugin: repe_plugin_call after repe_plugin_shutdown'' rt)
      else let size = unat (rw_size req)
           in if size > pv_usize_max env \<or> size > isize_max (pv_usize_max env)
              then apfst Some (error_response env t EC_InvalidHeader
                     ''repe plugin: request_size exceeds the largest addressable object'' rt)
              else if size \<noteq> 0 \<and> rw_addr req = 0
              then apfst Some (error_response env t EC_InvalidHeader
                     ''repe plugin: null request pointer with a non-zero request_size'' rt)
              else let start = (if size = 0 then 1 else rw_addr req);
                       request = take size (rw_bytes req)
                   in if aliases_response_buffer start size (pl_cells rt t)
                      then apfst Some (error_response env t EC_InvalidHeader
                             (''repe plugin: the request aliases this thread'' @ [CHR 0x27] @ ''s response buffer; ''
                              @ ''a response must be copied before it is fed back in as a request'') rt)
                      else (case get_or_build env rt of
                              (None, rt) \<Rightarrow>
                                apfst Some (error_response env t EC_InternalError ''repe plugin: router constructor panicked'' rt)
                            | (Some (router, _), rt) \<Rightarrow> dispatch_into env t router request rt))"

definition plugin_call ::
    "('w, 's) plugin_env \<Rightarrow> nat \<Rightarrow> raw_request \<Rightarrow> ('w, 's) PluginRuntime \<Rightarrow> RepeBuffer \<times> ('w, 's) PluginRuntime" where
  "plugin_call env t req rt =
     (case call_unguarded env t req rt of
        (Some buffer, rt) \<Rightarrow> (buffer, rt)
      | (None, rt) \<Rightarrow>
          if requested_notify env req then (buffer_empty env, rt)
          else error_response env t EC_InternalError ''repe plugin: handler panicked while serving the request'' rt)"

text \<open>What a host on thread \<open>t\<close> reads through a returned buffer until that thread's next call.\<close>

definition borrowed_bytes :: "('w, 's) plugin_env \<Rightarrow> nat \<Rightarrow> ('w, 's) PluginRuntime \<Rightarrow> nat \<Rightarrow> nat \<Rightarrow> bytes" where
  "borrowed_bytes env t rt data len =
     (if data = pv_static env then take len static_error_frame
      else if data = ce_base (pl_cells rt t) then take len (ce_bytes (pl_cells rt t))
      else [])"

section \<open>Threads racing to build the router\<close>

text \<open>
  \<open>get_or_build\<close> by several threads at once, as the steps of each: the two looks at the fast paths, the wait in
  \<^verbatim>\<open>get_or_init\<close>, the constructor under the lock of the \<^verbatim>\<open>OnceLock\<close>, and after its panic the second look and the latch. \<open>rc_built\<close> and
  \<open>rc_panicked\<close> record the runs of the constructor.
\<close>

datatype ('w, 's) build_phase =
    BP_Start | BP_Looked | BP_Waiting | BP_Building | BP_Panicked | BP_Latching
  | BP_Done "('w, 's) Router option"

record ('w, 's) build_race =
  rc_router :: "('w, 's) Router option"
  rc_failed :: bool
  rc_lock :: "nat option"
  rc_phase :: "nat \<Rightarrow> ('w, 's) build_phase"
  rc_world :: 'w
  rc_built :: "nat list"
  rc_panicked :: "nat list"

definition race_start :: "'w \<Rightarrow> ('w, 's) build_race" where
  "race_start w = \<lparr>rc_router = None, rc_failed = False, rc_lock = None, rc_phase = (\<lambda>_. BP_Start), rc_world = w,
     rc_built = [], rc_panicked = []\<rparr>"

definition goes :: "nat \<Rightarrow> ('w, 's) build_phase \<Rightarrow> ('w, 's) build_race \<Rightarrow> ('w, 's) build_race" where
  "goes t ph s = s\<lparr>rc_phase := (rc_phase s)(t := ph)\<rparr>"

inductive build_step :: "('w, 's) plugin_env \<Rightarrow> ('w, 's) build_race \<Rightarrow> ('w, 's) build_race \<Rightarrow> bool" for env where
  look_built: "rc_phase s t = BP_Start \<Longrightarrow> rc_router s = Some r \<Longrightarrow> build_step env s (goes t (BP_Done (Some r)) s)"
| look_empty: "rc_phase s t = BP_Start \<Longrightarrow> rc_router s = None \<Longrightarrow> build_step env s (goes t BP_Looked s)"
| look_failed: "rc_phase s t = BP_Looked \<Longrightarrow> rc_failed s \<Longrightarrow> build_step env s (goes t (BP_Done None) s)"
| look_wait: "rc_phase s t = BP_Looked \<Longrightarrow> \<not> rc_failed s \<Longrightarrow> build_step env s (goes t BP_Waiting s)"
| enter_lock: "rc_phase s t = BP_Waiting \<Longrightarrow> rc_lock s = None \<Longrightarrow> rc_router s = None
    \<Longrightarrow> build_step env s (goes t BP_Building (s\<lparr>rc_lock := Some t\<rparr>))"
| enter_built: "rc_phase s t = BP_Waiting \<Longrightarrow> rc_lock s = None \<Longrightarrow> rc_router s = Some r
    \<Longrightarrow> build_step env s (goes t (BP_Done (Some r)) s)"
| construct: "rc_phase s t = BP_Building \<Longrightarrow> pv_build env (rc_world s) = (Some r, w)
    \<Longrightarrow> build_step env s (goes t (BP_Done (Some r))
          (s\<lparr>rc_lock := None, rc_router := Some r, rc_world := w, rc_built := t # rc_built s\<rparr>))"
| construct_panic: "rc_phase s t = BP_Building \<Longrightarrow> pv_build env (rc_world s) = (None, w)
    \<Longrightarrow> build_step env s (goes t BP_Panicked (s\<lparr>rc_lock := None, rc_world := w, rc_panicked := t # rc_panicked s\<rparr>))"
| again_built: "rc_phase s t = BP_Panicked \<Longrightarrow> rc_router s = Some r \<Longrightarrow> build_step env s (goes t (BP_Done (Some r)) s)"
| again_empty: "rc_phase s t = BP_Panicked \<Longrightarrow> rc_router s = None \<Longrightarrow> build_step env s (goes t BP_Latching s)"
| latch: "rc_phase s t = BP_Latching \<Longrightarrow> build_step env s (goes t (BP_Done None) (s\<lparr>rc_failed := True\<rparr>))"

inductive_cases build_stepE: "build_step env s s'"

definition race_inv :: "('w, 's) build_race \<Rightarrow> bool" where
  "race_inv s \<longleftrightarrow>
     (rc_router s = None \<longleftrightarrow> rc_built s = []) \<and> length (rc_built s) \<le> 1
     \<and> distinct (rc_built s @ rc_panicked s)
     \<and> (\<forall>t. rc_lock s = Some t \<longleftrightarrow> rc_phase s t = BP_Building)
     \<and> (rc_lock s \<noteq> None \<longrightarrow> rc_router s = None)
     \<and> (\<forall>t r. rc_phase s t = BP_Done (Some r) \<longrightarrow> rc_router s = Some r)
     \<and> (\<forall>t. rc_phase s t \<in> {BP_Start, BP_Looked, BP_Waiting, BP_Building} \<longrightarrow> t \<notin> set (rc_built s @ rc_panicked s))
     \<and> (\<forall>t. rc_phase s t \<in> {BP_Panicked, BP_Latching} \<longrightarrow> t \<in> set (rc_panicked s))
     \<and> (rc_failed s \<longrightarrow> rc_panicked s \<noteq> [])
     \<and> (\<forall>t. rc_phase s t = BP_Done None \<longrightarrow> rc_failed s)"

lemma race_start_inv: "race_inv (race_start w)"
  by (simp add: race_inv_def race_start_def)

lemma race_one_builder:
  assumes "race_inv s" and "rc_phase s t = BP_Building"
  shows "rc_phase s u = BP_Building \<longleftrightarrow> u = t" and "rc_lock s = Some t" and "rc_router s = None"
  using assms unfolding race_inv_def by (metis option.inject, metis, metis option.distinct(1))

lemma race_step_inv:
  assumes "build_step env s s'" and "race_inv s"
  shows "race_inv s'"
  using assms(1)
proof cases
  case look_built
  with assms(2) show ?thesis unfolding race_inv_def goes_def by (auto split: if_splits)
next
  case look_empty
  with assms(2) show ?thesis unfolding race_inv_def goes_def by (auto split: if_splits)
next
  case look_failed
  with assms(2) show ?thesis unfolding race_inv_def goes_def by (auto split: if_splits)
next
  case look_wait
  with assms(2) show ?thesis unfolding race_inv_def goes_def by (auto split: if_splits)
next
  case enter_lock
  with assms(2) show ?thesis unfolding race_inv_def goes_def by (auto split: if_splits)
next
  case enter_built
  with assms(2) show ?thesis unfolding race_inv_def goes_def by (auto split: if_splits)
next
  case (construct t r w)
  with assms(2) race_one_builder [OF assms(2), of t] show ?thesis
    unfolding race_inv_def goes_def by (auto split: if_splits)
next
  case (construct_panic t w)
  with assms(2) race_one_builder [OF assms(2), of t] show ?thesis
    unfolding race_inv_def goes_def by (auto split: if_splits)
next
  case again_built
  with assms(2) show ?thesis unfolding race_inv_def goes_def by (auto split: if_splits)
next
  case again_empty
  with assms(2) show ?thesis unfolding race_inv_def goes_def by (auto split: if_splits)
next
  case latch
  with assms(2) show ?thesis unfolding race_inv_def goes_def by (auto split: if_splits)
qed

lemma race_reachable: "(build_step env)\<^sup>*\<^sup>* (race_start w) s \<Longrightarrow> race_inv s"
  by (induction rule: rtranclp_induct) (auto intro: race_start_inv race_step_inv)

end
