(* ===== verification/Plugin_Host.thy ===== *)
theory Plugin_Host
  imports Plugin_Runtime
begin

text \<open>
  The loading side of the plugin interface, \<^verbatim>\<open>src/plugin/host.rs\<close>: loading a library, the version handshake, the
  metadata, the copy of each response, and a plugin as a handler of a router. The five entry points act on
  the state \<open>'p\<close> of the process and are arguments, as are the dynamic loader and the memory the host reads responses from.
\<close>

section \<open>Loading\<close>

definition MIN_SUPPORTED_INTERFACE_VERSION :: u32 where
  "MIN_SUPPORTED_INTERFACE_VERSION = 3"

definition supported_interface_versions :: "u32 \<Rightarrow> bool" where
  "supported_interface_versions v \<longleftrightarrow> MIN_SUPPORTED_INTERFACE_VERSION \<le> v \<and> v \<le> REPE_PLUGIN_INTERFACE_VERSION"

datatype 'e HostError =
    HE_Load string 'e
  | HE_MissingSymbol string string 'e
  | HE_UnsupportedInterfaceVersion string u32
  | HE_Metadata string string
  | HE_InitFailed string int
  | HE_NullResponse u64
  | HE_ResponseTooLarge u64

text \<open>The texts of the variants; \<open>dpath\<close> is \<^verbatim>\<open>Path::display\<close>, \<open>derr\<close> that of the loader's error, \<open>dint\<close> that of a C int.\<close>

fun host_error_display :: "(string \<Rightarrow> string) \<Rightarrow> ('e \<Rightarrow> string) \<Rightarrow> (int \<Rightarrow> string) \<Rightarrow> 'e HostError \<Rightarrow> string" where
  "host_error_display dpath derr dint (HE_Load path source) =
     ''could not load plugin library '' @ dpath path @ '': '' @ derr source"
| "host_error_display dpath derr dint (HE_MissingSymbol path symbol source) =
     ''plugin library '' @ dpath path @ '' does not export `'' @ symbol @ ''`: '' @ derr source"
| "host_error_display dpath derr dint (HE_UnsupportedInterfaceVersion path reported) =
     ''plugin library '' @ dpath path @ '' reports ABI version '' @ dec_str (unat reported) @ ''; this host supports ''
     @ dec_str (unat MIN_SUPPORTED_INTERFACE_VERSION) @ ''..='' @ dec_str (unat REPE_PLUGIN_INTERFACE_VERSION)"
| "host_error_display dpath derr dint (HE_Metadata path reason) =
     ''plugin library '' @ dpath path @ '' has unusable metadata: '' @ reason"
| "host_error_display dpath derr dint (HE_InitFailed path code) =
     ''repe_plugin_init in '' @ dpath path @ '' failed with code '' @ dint code"
| "host_error_display dpath derr dint (HE_NullResponse len) =
     ''repe_plugin_call returned a null data pointer with size '' @ dec_str (unat len)"
| "host_error_display dpath derr dint (HE_ResponseTooLarge len) =
     ''repe_plugin_call returned '' @ dec_str (unat len) @ '' bytes, more than this target can address''"

datatype LoadOrigin = LO_Mapped | LO_AlreadyResident | LO_Unknown

record 'p PluginAbi =
  ab_interface_version :: "'p \<Rightarrow> u32 \<times> 'p"
  ab_info :: "'p \<Rightarrow> RepePluginData option \<times> 'p"
  ab_init :: "('p \<Rightarrow> int \<times> 'p) option"
  ab_shutdown :: "('p \<Rightarrow> 'p) option"
  ab_call :: "nat \<Rightarrow> raw_request \<Rightarrow> 'p \<Rightarrow> RepeBuffer \<times> 'p"

record 'p Plugin =
  pg_path :: string
  pg_origin :: LoadOrigin
  pg_interface_version :: u32
  pg_name :: string
  pg_version :: string
  pg_root_path :: string
  pg_call :: "nat \<Rightarrow> raw_request \<Rightarrow> 'p \<Rightarrow> RepeBuffer \<times> 'p"
  pg_shutdown :: "('p \<Rightarrow> 'p) option"

text \<open>
  A library's symbols, each resolved or the loader's error; the dynamic loader, whose probe answers \<open>None\<close> where there is no
  way to ask.
\<close>

record ('p, 'e) Library =
  li_interface_version :: "'e + ('p \<Rightarrow> u32 \<times> 'p)"
  li_info :: "'e + ('p \<Rightarrow> RepePluginData option \<times> 'p)"
  li_init :: "'e + ('p \<Rightarrow> int \<times> 'p)"
  li_shutdown :: "'e + ('p \<Rightarrow> 'p)"
  li_call :: "'e + (nat \<Rightarrow> raw_request \<Rightarrow> 'p \<Rightarrow> RepeBuffer \<times> 'p)"

record ('p, 'e) loader =
  lo_open :: "string \<Rightarrow> 'p \<Rightarrow> ('e + ('p, 'e) Library) \<times> 'p"
  lo_resident :: "string \<Rightarrow> 'p \<Rightarrow> bool option"

definition probe_origin :: "('p, 'e) loader \<Rightarrow> string \<Rightarrow> 'p \<Rightarrow> LoadOrigin" where
  "probe_origin ld path p =
     (case lo_resident ld path p of
        None \<Rightarrow> LO_Unknown
      | Some resident \<Rightarrow> if resident then LO_AlreadyResident else LO_Mapped)"

definition required :: "string \<Rightarrow> string \<Rightarrow> 'e + 'f \<Rightarrow> 'e HostError + 'f" where
  "required path symbol found = res_map_err (\<lambda>source. HE_MissingSymbol path symbol source) found"

definition optional :: "'e + 'f \<Rightarrow> 'f option" where
  "optional found = (case found of Inr f \<Rightarrow> Some f | Inl _ \<Rightarrow> None)"

definition string_field :: "bytes option \<Rightarrow> string \<Rightarrow> string \<Rightarrow> 'e HostError + string" where
  "string_field field name path =
     (case field of
        None \<Rightarrow> Inl (HE_Metadata path (''repe_plugin_data::'' @ name @ '' is NULL''))
      | Some bs \<Rightarrow>
          res_map_err (\<lambda>_. HE_Metadata path (''repe_plugin_data::'' @ name @ '' is not valid UTF-8'')) (from_utf8 bs))"

text \<open>\<open>debug_str\<close> is the format \<^verbatim>\<open>{:?}\<close> of a string.\<close>

definition from_abi ::
    "(string \<Rightarrow> string) \<Rightarrow> string \<Rightarrow> 'p PluginAbi \<Rightarrow> LoadOrigin \<Rightarrow> 'p \<Rightarrow> ('e HostError + 'p Plugin) \<times> 'p" where
  "from_abi debug_str path abi origin p =
     (case ab_interface_version abi p of (interface_version, p) \<Rightarrow>
        if \<not> supported_interface_versions interface_version
        then (Inl (HE_UnsupportedInterfaceVersion path interface_version), p)
        else (case ab_info abi p of
                (None, p) \<Rightarrow> (Inl (HE_Metadata path ''repe_plugin_info returned NULL''), p)
              | (Some info, p) \<Rightarrow>
                  (case res_bind (string_field (pd_name info) ''name'' path) (\<lambda>name.
                        res_bind (string_field (pd_version info) ''version'' path) (\<lambda>version.
                        res_bind (string_field (pd_root_path info) ''root_path'' path) (\<lambda>root_path.
                          if root_path \<noteq> [] \<and> \<not> starts_with root_path ''/''
                          then Inl (HE_Metadata path (''root_path '' @ debug_str root_path
                                 @ '' is not an absolute JSON Pointer prefix: it must start with `/`''))
                          else if length root_path > 1 \<and> last root_path = CHR ''/''
                          then Inl (HE_Metadata path (''root_path '' @ debug_str root_path
                                 @ '' ends with `/`, which no request query it is matched against will''))
                          else Inr (name, version, root_path)))) of
                     Inl err \<Rightarrow> (Inl err, p)
                   | Inr (name, version, root_path) \<Rightarrow>
                       (let plugin = \<lparr>pg_path = path, pg_origin = origin, pg_interface_version = interface_version,
                              pg_name = name, pg_version = version, pg_root_path = root_path,
                              pg_call = ab_call abi, pg_shutdown = ab_shutdown abi\<rparr>
                        in case ab_init abi of
                             None \<Rightarrow> (Inr plugin, p)
                           | Some init \<Rightarrow>
                               (case init p of (code, p) \<Rightarrow>
                                  if code \<noteq> repe_result_code RR_Ok \<and> code \<noteq> repe_result_code RR_AlreadyInitialized
                                  then (Inl (HE_InitFailed path code), p)
                                  else (Inr plugin, p))))))"

definition load_plugin ::
    "(string \<Rightarrow> string) \<Rightarrow> ('p, 'e) loader \<Rightarrow> string \<Rightarrow> 'p \<Rightarrow> ('e HostError + 'p Plugin) \<times> 'p" where
  "load_plugin debug_str ld path p =
     (let origin = probe_origin ld path p
      in case lo_open ld path p of
           (Inl source, p) \<Rightarrow> (Inl (HE_Load path source), p)
         | (Inr library, p) \<Rightarrow>
             (case res_bind (required path ''repe_plugin_interface_version'' (li_interface_version library)) (\<lambda>interface_version.
                   res_bind (required path ''repe_plugin_info'' (li_info library)) (\<lambda>info.
                   res_bind (required path ''repe_plugin_call'' (li_call library)) (\<lambda>call.
                     Inr \<lparr>ab_interface_version = interface_version, ab_info = info, ab_init = optional (li_init library),
                          ab_shutdown = optional (li_shutdown library), ab_call = call\<rparr>))) of
                Inl err \<Rightarrow> (Inl err, p)
              | Inr abi \<Rightarrow> from_abi debug_str path abi origin p))"

section \<open>Calling\<close>

text \<open>
  \<open>hv_read t p data len\<close> is what thread \<open>t\<close> reads at an address; \<open>hv_frame\<close> the address of the vector a
  frame is assembled in; \<open>hv_anchor\<close> that of the byte an empty request points at.
\<close>

record ('p, 's) host_env =
  hv_usize_max :: nat
  hv_read :: "nat \<Rightarrow> 'p \<Rightarrow> nat \<Rightarrow> nat \<Rightarrow> bytes"
  hv_anchor :: nat
  hv_frame :: "'p \<Rightarrow> nat"
  hv_show :: "'s RepeError \<Rightarrow> string"

definition host_claims :: "'p Plugin \<Rightarrow> string \<Rightarrow> bool" where
  "host_claims plugin query =
     (case strip_prefix query (pg_root_path plugin) of
        Some rest \<Rightarrow> rest = [] \<or> starts_with rest ''/''
      | None \<Rightarrow> False)"

definition host_call_into ::
    "('p, 's) host_env \<Rightarrow> 'p Plugin \<Rightarrow> nat \<Rightarrow> nat \<Rightarrow> bytes \<Rightarrow> 'p \<Rightarrow> (unit HostError + bool) \<times> bytes \<times> 'p" where
  "host_call_into env plugin t addr request p =
     (let response = [];
          data = (if request = [] then hv_anchor env else addr)
      in case pg_call plugin t \<lparr>rw_addr = data, rw_size = of_nat (length request), rw_bytes = request\<rparr> p of
           (buffer, p) \<Rightarrow>
             if bu_size buffer = 0 then (Inr False, response, p)
             else let len = unat (bu_size buffer)
                  in if len > hv_usize_max env \<or> len > isize_max (hv_usize_max env)
                     then (Inl (HE_ResponseTooLarge (bu_size buffer)), response, p)
                     else if bu_data buffer = 0 then (Inl (HE_NullResponse (bu_size buffer)), response, p)
                     else (Inr True, response @ hv_read env t p (bu_data buffer) len, p))"

definition host_call ::
    "('p, 's) host_env \<Rightarrow> 'p Plugin \<Rightarrow> nat \<Rightarrow> nat \<Rightarrow> bytes \<Rightarrow> 'p \<Rightarrow> (unit HostError + bytes option) \<times> 'p" where
  "host_call env plugin t addr request p =
     (case host_call_into env plugin t addr request p of
        (Inl err, _, p) \<Rightarrow> (Inl err, p)
      | (Inr responded, response, p) \<Rightarrow> (Inr (if responded then Some response else None), p))"

definition host_shutdown :: "'p Plugin \<Rightarrow> 'p \<Rightarrow> 'p" where
  "host_shutdown plugin p = (case pg_shutdown plugin of Some shutdown \<Rightarrow> shutdown p | None \<Rightarrow> p)"

section \<open>A plugin as a handler\<close>

definition disclaim :: "u64 \<Rightarrow> bytes \<Rightarrow> Message" where
  "disclaim ident query =
     create_error_response_for ident query EC_MethodNotFound (''Method not found: '' @ from_utf8_lossy query)"

definition host_forward ::
    "('p, 's) host_env \<Rightarrow> 'p Plugin \<Rightarrow> nat \<Rightarrow> Header \<Rightarrow> bytes \<Rightarrow> bytes \<Rightarrow> 'p \<Rightarrow> Message \<times> 'p" where
  "host_forward env plugin t header query frame p =
     (let error = create_error_response_for (h_id header) query EC_InternalError
      in case host_call_into env plugin t (hv_frame env p) frame p of
           (Inr True, response, p) \<Rightarrow>
             ((case message_from_slice (hv_usize_max env) response :: 's RepeError + Message of
                 Inr message \<Rightarrow> message
               | Inl err \<Rightarrow> error (''plugin `'' @ pg_name plugin @ ''` answered with a frame that does not parse: '' @ hv_show env err)), p)
         | (Inr False, _, p) \<Rightarrow>
             (if h_notify header = 1 then build (with_id (h_id header) builder)
              else error (''plugin `'' @ pg_name plugin @ ''` returned no response to a request that expects one''), p)
         | (Inl err, _, p) \<Rightarrow> (error (host_error_display (\<lambda>_. []) (\<lambda>_. []) (\<lambda>_. []) err), p))"

definition plugin_handle ::
    "('p, 's) host_env \<Rightarrow> 'p Plugin \<Rightarrow> nat \<Rightarrow> Message \<Rightarrow> 'p \<Rightarrow> ('p, 's) outcome" where
  "plugin_handle env plugin t req p =
     (if \<not> host_claims plugin (case query_str req of Inr q \<Rightarrow> q | Inl _ \<Rightarrow> [])
      then (Inr (disclaim (h_id (m_header req)) (m_query req)), p)
      else (case message_write_to vec_write_all req [] of
              Some (Inr _, frame) \<Rightarrow> apfst Inr (host_forward env plugin t (m_header req) (m_query req) frame p)
            | Some (Inl err, _) \<Rightarrow> (Inl (RE_Io err), p)
            | None \<Rightarrow> (Inl (RE_Io UnexpectedEof), p)))"

definition plugin_handle_view ::
    "('p, 's) host_env \<Rightarrow> 'p Plugin \<Rightarrow> nat \<Rightarrow> MessageView \<Rightarrow> CallContext \<Rightarrow> 'p \<Rightarrow> ('p, 's) outcome" where
  "plugin_handle_view env plugin t view ctx p =
     (if \<not> host_claims plugin (case from_utf8 (v_query view) of Inr q \<Rightarrow> q | Inl _ \<Rightarrow> [])
      then (Inr (disclaim (h_id (v_header view)) (v_query view)), p)
      else (case write_message_streaming vec_write_all (v_header view) (v_query view) (of_nat (length (v_body view)))
                   (io_from (vec_write_all (v_body view))) [] :: (('s RepeError + unit) \<times> bytes) option of
              Some (Inr _, frame) \<Rightarrow> apfst Inr (host_forward env plugin t (v_header view) (v_query view) frame p)
            | Some (Inl err, _) \<Rightarrow> (Inl err, p)
            | None \<Rightarrow> (Inl (RE_Io UnexpectedEof), p)))"

definition plugin_handler :: "('p, 's) host_env \<Rightarrow> 'p Plugin \<Rightarrow> nat \<Rightarrow> ('p, 's) Handler" where
  "plugin_handler env plugin t =
     \<lparr>hd_handle = plugin_handle env plugin t,
      hd_handle_with_ctx = (\<lambda>req ctx. plugin_handle env plugin t req),
      hd_handle_view = plugin_handle_view env plugin t,
      hd_execution = Inline\<rparr>"

end
