(* ===== verification/Plugin_Serving.thy ===== *)
theory Plugin_Serving
  imports Plugin_Host
begin

text \<open>
  Both sides of the plugin interface together: the exports of the \<^verbatim>\<open>#[repe::plugin]\<close> attribute of \<^verbatim>\<open>repe-derive\<close>, the handshake
  that loads them, calls through the host as calls of the router behind the plugin, and the plugin as the fallback of the host's router.
\<close>

section \<open>The exported symbols\<close>

record PluginArgs =
  pa_name :: "string option"
  pa_version :: "string option"
  pa_root :: "string option"

text \<open>What the attribute looks at in the function it is put on.\<close>

record plugin_fn =
  pf_inputs :: nat
  pf_generics :: nat
  pf_async :: bool

definition reject_interior_nul :: "string \<Rightarrow> string \<Rightarrow> string + unit" where
  "reject_interior_nul field literal =
     (if CHR 0x00 \<in> set literal
      then Inl (''`'' @ field @ ''` cannot contain a nul byte: it is handed to the host as a C string and would be truncated there'')
      else Inr ())"

text \<open>The bytes a host reads from \<^verbatim>\<open>concat!(s, "\0")\<close>.\<close>

definition c_string :: "string \<Rightarrow> bytes" where
  "c_string s = takeWhile (\<lambda>b. b \<noteq> 0) (as_bytes s @ [0])"

text \<open>The metadata of the expansion; \<open>pkg_name\<close> and \<open>pkg_version\<close> are those of the manifest.\<close>

definition expand_plugin :: "string \<Rightarrow> string \<Rightarrow> PluginArgs \<Rightarrow> plugin_fn \<Rightarrow> string + RepePluginData" where
  "expand_plugin pkg_name pkg_version args item_fn =
     (case pa_root args of
        None \<Rightarrow> Inl (''`#[repe::plugin]` needs a `root` path prefix, e.g. `#[repe::plugin(root = '' @ [CHR 0x22] @ ''/calculator'' @ [CHR 0x22] @ '')]`'')
      | Some root \<Rightarrow>
          res_bind (reject_interior_nul ''root'' root) (\<lambda>_.
          if \<not> starts_with root ''/''
          then Inl ''`root` must be an absolute JSON Pointer prefix, so it has to start with `/`''
          else if length root > 1 \<and> last root = CHR ''/''
          then Inl (''`root` must not end with `/`: hosts prefix-match this against request paths, and the ''
                    @ ''trailing separator is not part of the prefix'')
          else res_bind (case pa_name args of
                  Some name \<Rightarrow> res_bind (reject_interior_nul ''name'' name) (\<lambda>_. Inr name)
                | None \<Rightarrow> Inr pkg_name) (\<lambda>name.
               res_bind (case pa_version args of
                  Some version \<Rightarrow> res_bind (reject_interior_nul ''version'' version) (\<lambda>_. Inr version)
                | None \<Rightarrow> Inr pkg_version) (\<lambda>version.
               if pf_inputs item_fn \<noteq> 0
               then Inl (''`#[repe::plugin]` applies to a function taking no arguments: the host calls it ''
                         @ ''through a C ABI that has nothing to pass'')
               else if pf_generics item_fn \<noteq> 0
               then Inl (''`#[repe::plugin]` applies to a non-generic function: the exports are one fixed              set ''
                         @ ''of symbols, so there is no parameter for the host to choose'')
               else if pf_async item_fn
               then Inl (''`#[repe::plugin]` cannot be applied to an `async fn`: `repe_plugin_call` is ''
                         @ ''synchronous, with no runtime on the host side of the ABI to drive a future'')
               else Inr \<lparr>pd_name = Some (c_string name), pd_version = Some (c_string version), pd_root_path = Some (c_string root)\<rparr>))))"

definition exported_abi :: "('w, 's) plugin_env \<Rightarrow> RepePluginData \<Rightarrow> ('w, 's) PluginRuntime PluginAbi" where
  "exported_abi env info =
     \<lparr>ab_interface_version = (\<lambda>rt. (REPE_PLUGIN_INTERFACE_VERSION, rt)),
      ab_info = (\<lambda>rt. (Some info, rt)),
      ab_init = Some (\<lambda>rt. apfst repe_result_code (plugin_init env rt)),
      ab_shutdown = Some plugin_shutdown,
      ab_call = plugin_call env\<rparr>"

section \<open>Loading what was exported\<close>

lemma c_string_plain: "CHR 0x00 \<notin> set s \<Longrightarrow> c_string s = as_bytes s"
proof -
  assume nul: "CHR 0x00 \<notin> set s"
  have "b \<noteq> 0" if "b \<in> set (as_bytes s)" for b
  proof
    assume "b = 0"
    with that obtain c where "c \<in> set s" and "(of_char c :: u8) = 0" by (auto simp: as_bytes_def)
    then have "(of_char c :: nat) = 0" using unat_of_char_byte [of c] by simp
    then have "c = char_of (0 :: nat)" by (metis char_of_char)
    then have "c = CHR 0x00" by (simp add: char_of_def)
    with \<open>c \<in> set s\<close> nul show False by simp
  qed
  then show ?thesis unfolding c_string_def by (subst takeWhile_append2) auto
qed

definition plain_str :: "string \<Rightarrow> bool" where
  "plain_str s \<longleftrightarrow> CHR 0x00 \<notin> set s \<and> from_utf8 (as_bytes s) = Inr s"

definition root_ok :: "string \<Rightarrow> bool" where
  "root_ok root \<longleftrightarrow> starts_with root ''/'' \<and> (length root > 1 \<longrightarrow> last root \<noteq> CHR ''/'')"

definition plugin_info :: "string \<Rightarrow> string \<Rightarrow> string \<Rightarrow> RepePluginData" where
  "plugin_info name version root =
     \<lparr>pd_name = Some (as_bytes name), pd_version = Some (as_bytes version), pd_root_path = Some (as_bytes root)\<rparr>"

lemma reject_interior_nul_Inr [simp]: "reject_interior_nul field s = Inr u \<longleftrightarrow> CHR 0x00 \<notin> set s"
  by (simp add: reject_interior_nul_def)

lemma expand_plugin_Inr:
  assumes "CHR 0x00 \<notin> set pkg_name" and "CHR 0x00 \<notin> set pkg_version"
  shows "expand_plugin pkg_name pkg_version args f = Inr info \<longleftrightarrow>
    (\<exists>root. pa_root args = Some root \<and> root_ok root
       \<and> CHR 0x00 \<notin> set root \<and> CHR 0x00 \<notin> set (case_option pkg_name id (pa_name args))
       \<and> CHR 0x00 \<notin> set (case_option pkg_version id (pa_version args))
       \<and> pf_inputs f = 0 \<and> pf_generics f = 0 \<and> \<not> pf_async f
       \<and> info = plugin_info (case_option pkg_name id (pa_name args)) (case_option pkg_version id (pa_version args)) root)"
  using assms
  by (auto simp: expand_plugin_def res_bind_Inr_iff root_ok_def plugin_info_def c_string_plain split: option.splits if_splits)

definition exported_plugin ::
    "('w, 's) plugin_env \<Rightarrow> string \<Rightarrow> LoadOrigin \<Rightarrow> string \<Rightarrow> string \<Rightarrow> string \<Rightarrow> ('w, 's) PluginRuntime Plugin" where
  "exported_plugin env path origin name version root =
     \<lparr>pg_path = path, pg_origin = origin, pg_interface_version = REPE_PLUGIN_INTERFACE_VERSION, pg_name = name,
      pg_version = version, pg_root_path = root, pg_call = plugin_call env, pg_shutdown = Some plugin_shutdown\<rparr>"

lemma from_abi_exported:
  assumes "plain_str name" and "plain_str version" and "plain_str root" and "root_ok root"
  shows "from_abi debug_str path (exported_abi env (plugin_info name version root)) origin rt =
    (case plugin_init env rt of
       (RR_InitFailed, rt) \<Rightarrow> (Inl (HE_InitFailed path 1), rt)
     | (_, rt) \<Rightarrow> (Inr (exported_plugin env path origin name version root), rt))"
proof -
  have "supported_interface_versions REPE_PLUGIN_INTERFACE_VERSION"
    by (simp add: supported_interface_versions_def MIN_SUPPORTED_INTERFACE_VERSION_def REPE_PLUGIN_INTERFACE_VERSION_def)
  with assms show ?thesis
    by (auto simp: from_abi_def exported_abi_def exported_plugin_def plugin_info_def string_field_def plain_str_def root_ok_def apfst_def
        split: prod.split RepeResult.split)
qed

section \<open>Calls through the host\<close>

text \<open>
  The host's request buffers lie in an address range of their own, \<open>lo\<close> to \<open>hi\<close>; the allocator gives the plugin's response buffers
  addresses outside it, other than null and the static frame's.
\<close>

definition outside :: "nat \<Rightarrow> nat \<Rightarrow> nat \<Rightarrow> nat \<Rightarrow> bool" where
  "outside lo hi base capacity \<longleftrightarrow> base + capacity \<le> lo \<or> hi \<le> base"

definition memory_ok :: "('w, 's) plugin_env \<Rightarrow> nat \<Rightarrow> nat \<Rightarrow> bool" where
  "memory_ok env lo hi \<longleftrightarrow>
     0 < lo \<and> pv_usize_max env < 2 ^ 64 \<and> pv_static env \<noteq> 0
     \<and> (\<forall>base need. case pv_grow env base need of (b, c) \<Rightarrow> b \<noteq> 0 \<and> b \<noteq> pv_static env \<and> outside lo hi b c)"

definition cell_ok :: "('w, 's) plugin_env \<Rightarrow> nat \<Rightarrow> nat \<Rightarrow> cell \<Rightarrow> bool" where
  "cell_ok env lo hi c \<longleftrightarrow>
     ce_status c = Cell_Free \<and> ce_base c \<noteq> 0 \<and> ce_base c \<noteq> pv_static env \<and> outside lo hi (ce_base c) (ce_capacity c)"

lemma cell_fill_ok: "memory_ok env lo hi \<Longrightarrow> cell_ok env lo hi c \<Longrightarrow> cell_ok env lo hi (cell_fill env bs c)"
  by (auto simp: memory_ok_def cell_ok_def cell_fill_def Let_def split: prod.split)
    (metis (mono_tags, lifting) case_prod_conv)+

lemma cell_fill_bytes [simp]: "ce_bytes (cell_fill env bs c) = bs"
  by (simp add: cell_fill_def Let_def split: prod.split)

definition serving :: "('w, 's) plugin_env \<Rightarrow> nat \<Rightarrow> nat \<Rightarrow> ('w, 's) Router \<Rightarrow> ('w, 's) PluginRuntime \<Rightarrow> bool" where
  "serving env lo hi r rt \<longleftrightarrow> pl_router rt = Some r \<and> \<not> pl_shutdown rt \<and> (\<forall>t. cell_ok env lo hi (pl_cells rt t))"

definition request_in :: "nat \<Rightarrow> nat \<Rightarrow> nat \<Rightarrow> bytes \<Rightarrow> bool" where
  "request_in lo hi addr request \<longleftrightarrow> lo \<le> addr \<and> addr + length request \<le> hi"

text \<open>The reference: what the router answers, or the guard when a handler panics.\<close>

definition notify_frame :: "('w, 's) plugin_env \<Rightarrow> bytes \<Rightarrow> bool" where
  "notify_frame env request =
     (length request \<ge> HEADER_SIZE
      \<and> (case header_decode (pv_usize_max env) (take HEADER_SIZE request) :: 's RepeError + Header of
           Inr header \<Rightarrow> h_notify header \<noteq> 0
         | Inl _ \<Rightarrow> False))"

definition panic_frame :: bytes where
  "panic_frame = message_to_vec (create_error_message EC_InternalError ''repe plugin: handler panicked while serving the request'')"

definition plugin_answer :: "('w, 's) plugin_env \<Rightarrow> ('w, 's) Router \<Rightarrow> bytes \<Rightarrow> 'w \<Rightarrow> bytes option \<times> 'w" where
  "plugin_answer env r request w =
     (case pv_panics env r request w of
        Some (_, w) \<Rightarrow> (if notify_frame env request then None else Some panic_frame, w)
      | None \<Rightarrow>
          (case router_call (pv_usize_max env) (pv_show env) r request w of
             Some (response, w) \<Rightarrow> (response, w)
           | None \<Rightarrow> (None, w)))"

fun plugin_answers ::
    "('w, 's) plugin_env \<Rightarrow> ('w, 's) Router \<Rightarrow> (nat \<times> nat \<times> bytes) list \<Rightarrow> 'w \<Rightarrow> bytes option list \<times> 'w" where
  "plugin_answers env r [] w = ([], w)"
| "plugin_answers env r ((t, addr, request) # calls) w =
     (case plugin_answer env r request w of
        (answer, w) \<Rightarrow> (case plugin_answers env r calls w of (answers, w) \<Rightarrow> (answer # answers, w)))"

fun host_calls ::
    "('p, 's) host_env \<Rightarrow> 'p Plugin \<Rightarrow> (nat \<times> nat \<times> bytes) list \<Rightarrow> 'p \<Rightarrow> (unit HostError + bytes option) list \<times> 'p" where
  "host_calls henv plugin [] p = ([], p)"
| "host_calls henv plugin ((t, addr, request) # calls) p =
     (case host_call henv plugin t addr request p of
        (outcome, p) \<Rightarrow> (case host_calls henv plugin calls p of (outcomes, p) \<Rightarrow> (outcome # outcomes, p)))"

definition host_env_of :: "('w, 's) plugin_env \<Rightarrow> nat \<Rightarrow> (('w, 's) PluginRuntime \<Rightarrow> nat) \<Rightarrow> (('w, 's) PluginRuntime, 's) host_env" where
  "host_env_of env anchor frame =
     \<lparr>hv_usize_max = pv_usize_max env, hv_read = borrowed_bytes env, hv_anchor = anchor, hv_frame = frame, hv_show = pv_show env\<rparr>"

lemma router_call_some: "\<exists>response w'. router_call usize_max show_err r request w = Some (response, w')"
  by (auto simp: router_call_def call_into_runs split: sum.split prod.split option.split)

lemma call_into_router:
  "call_into usize_max show_err r request out w =
     (case router_call usize_max show_err r request w of
        Some (Some response, w) \<Rightarrow> Some (True, response, w)
      | Some (None, w) \<Rightarrow> Some (False, [], w)
      | None \<Rightarrow> None)"
  by (auto simp: router_call_def call_into_runs split: sum.split prod.split option.split)

lemma to_vec_nonempty: "message_to_vec m \<noteq> []"
proof
  assume "message_to_vec m = []"
  then have "serialized_len m = 0" by (metis length_to_vec list.size(3))
  then show False by (simp add: serialized_len_def HEADER_SIZE_def)
qed

lemma router_response_nonempty: "router_call usize_max show_err r request w = Some (Some response, w') \<Longrightarrow> response \<noteq> []"
  by (auto simp: router_call_def call_into_runs to_vec_nonempty split: sum.splits prod.splits option.splits if_splits)

lemma panic_frame_nonempty: "panic_frame \<noteq> []"
  by (simp add: panic_frame_def to_vec_nonempty)

lemma requested_notify_frame:
  assumes "length request \<le> isize_max (pv_usize_max env)" and "pv_usize_max env < 2 ^ 64" and "addr \<noteq> 0"
  shows "requested_notify env \<lparr>rw_addr = addr, rw_size = of_nat (length request), rw_bytes = request\<rparr> = notify_frame env request"
proof -
  have "length request < 2 ^ 64" using assms by (simp add: isize_max_def)
  then have "unat (of_nat (length request) :: u64) = length request" by (simp add: unat_of_nat)
  moreover have "\<not> length request > pv_usize_max env" using assms(1) by (simp add: isize_max_def)
  ultimately show ?thesis
    using assms by (auto simp: requested_notify_def notify_frame_def Let_def HEADER_SIZE_def)
qed

definition raw_of :: "nat \<Rightarrow> nat \<Rightarrow> bytes \<Rightarrow> raw_request" where
  "raw_of anchor addr request =
     \<lparr>rw_addr = (if request = [] then anchor else addr), rw_size = of_nat (length request), rw_bytes = request\<rparr>"

lemma serving_set_cell:
  "serving env lo hi r rt \<Longrightarrow> cell_ok env lo hi c \<Longrightarrow> serving env lo hi r (set_cell t c (rt\<lparr>pl_world := w\<rparr>))"
  by (simp add: serving_def set_cell_def)

lemma with_buffer_free:
  assumes "memory_ok env lo hi" and "serving env lo hi r rt" and "bs \<noteq> []"
  shows "\<exists>rt'. with_response_buffer env t bs rt = (\<lparr>bu_data = ce_base (pl_cells rt' t), bu_size = of_nat (length bs)\<rparr>, rt')
    \<and> serving env lo hi r rt' \<and> pl_world rt' = pl_world rt \<and> ce_bytes (pl_cells rt' t) = bs"
proof -
  have c: "cell_ok env lo hi (pl_cells rt t)" using assms(2) by (simp add: serving_def)
  let ?c = "cell_fill env bs (pl_cells rt t)"
  have "serving env lo hi r (set_cell t ?c (rt\<lparr>pl_world := pl_world rt\<rparr>))"
    by (rule serving_set_cell [OF assms(2) cell_fill_ok [OF assms(1) c]])
  moreover have "ce_status (pl_cells rt t) = Cell_Free" using c by (simp add: cell_ok_def)
  ultimately show ?thesis
    using assms(3) by (intro exI [of _ "set_cell t ?c rt"]) (simp add: with_response_buffer_def borrowing_def set_cell_def Let_def)
qed

lemma call_unguarded_serving:
  assumes "memory_ok env lo hi" and "serving env lo hi r rt" and "request_in lo hi addr request"
    and "length request \<le> isize_max (pv_usize_max env)"
  shows "call_unguarded env t (raw_of anchor addr request) rt = dispatch_into env t r request rt"
proof -
  let ?c = "pl_cells rt t"
  have "pv_usize_max env < 2 ^ 64" using assms(1) by (simp add: memory_ok_def)
  with assms(4) have "length request < 2 ^ 64" by (simp add: isize_max_def)
  then have size: "unat (of_nat (length request) :: u64) = length request" by (simp add: unat_of_nat)
  have small: "\<not> length request > pv_usize_max env" using assms(4) by (simp add: isize_max_def)
  have c: "cell_ok env lo hi ?c" using assms(2) by (simp add: serving_def)
  have "0 < lo" using assms(1) by (simp add: memory_ok_def)
  then have addr: "addr \<noteq> 0" using assms(3) by (simp add: request_in_def)
  have "\<not> aliases_response_buffer (if length request = 0 then 1 else addr) (length request) ?c"
    using c assms(3) by (auto simp: aliases_response_buffer_def cell_ok_def outside_def request_in_def)
  then show ?thesis
    using assms(2,4) small addr by (auto simp: call_unguarded_def raw_of_def size serving_def get_or_build_def Let_def)
qed

lemma dispatch_serving:
  assumes "memory_ok env lo hi" and "serving env lo hi r rt" and "pv_panics env r request (pl_world rt) = None"
    and "router_call (pv_usize_max env) (pv_show env) r request (pl_world rt) = Some (answer, w')"
  shows "\<exists>rt'. dispatch_into env t r request rt =
      (Some (case answer of None \<Rightarrow> buffer_empty env
         | Some bs \<Rightarrow> \<lparr>bu_data = ce_base (pl_cells rt' t), bu_size = of_nat (length bs)\<rparr>), rt')
    \<and> serving env lo hi r rt' \<and> pl_world rt' = w' \<and> (\<forall>bs. answer = Some bs \<longrightarrow> ce_bytes (pl_cells rt' t) = bs)"
proof -
  have c: "cell_ok env lo hi (pl_cells rt t)" using assms(2) by (simp add: serving_def)
  have free: "ce_status (pl_cells rt t) = Cell_Free" using c by (simp add: cell_ok_def)
  define bs where "bs = (case answer of None \<Rightarrow> [] | Some bs \<Rightarrow> bs)"
  define rt' where "rt' = set_cell t (cell_fill env bs (pl_cells rt t)) (rt\<lparr>pl_world := w'\<rparr>)"
  have srv: "serving env lo hi r rt'"
    unfolding rt'_def by (rule serving_set_cell [OF assms(2) cell_fill_ok [OF assms(1) c]])
  have rt': "pl_world rt' = w'" "pl_cells rt' t = cell_fill env bs (pl_cells rt t)" by (simp_all add: rt'_def set_cell_def)
  have "call_into (pv_usize_max env) (pv_show env) r request (ce_bytes (pl_cells rt t)) (pl_world rt) = Some (answer \<noteq> None, bs, w')"
    unfolding call_into_router assms(4) bs_def by (cases answer) simp_all
  then have run: "dispatch_into env t r request rt =
      (Some (if answer \<noteq> None then borrowing env (ce_base (pl_cells rt' t)) bs else buffer_empty env), rt')"
    by (simp add: dispatch_into_def free assms(3) rt' Let_def) (simp add: rt'_def)
  show ?thesis
  proof (cases answer)
    case None
    with run srv rt' show ?thesis by (intro exI [of _ rt']) simp
  next
    case (Some response)
    then have "response \<noteq> []" by (intro router_response_nonempty [OF assms(4) [unfolded Some]])
    with Some run srv rt' show ?thesis by (intro exI [of _ rt']) (simp add: borrowing_def bs_def)
  qed
qed

lemma plugin_call_serving:
  assumes mem: "memory_ok env lo hi" and srv: "serving env lo hi r rt" and req: "request_in lo hi addr request"
    and len: "length request \<le> isize_max (pv_usize_max env)" and "anchor \<noteq> 0"
    and answer: "plugin_answer env r request (pl_world rt) = (answer, w')"
  shows "\<exists>rt'. plugin_call env t (raw_of anchor addr request) rt =
      (case answer of None \<Rightarrow> buffer_empty env | Some bs \<Rightarrow> \<lparr>bu_data = ce_base (pl_cells rt' t), bu_size = of_nat (length bs)\<rparr>, rt')
    \<and> serving env lo hi r rt' \<and> pl_world rt' = w' \<and> (\<forall>bs. answer = Some bs \<longrightarrow> ce_bytes (pl_cells rt' t) = bs \<and> bs \<noteq> [])"
proof (cases "pv_panics env r request (pl_world rt)")
  case None
  obtain response w1 where router: "router_call (pv_usize_max env) (pv_show env) r request (pl_world rt) = Some (response, w1)"
    using router_call_some [of "pv_usize_max env" "pv_show env" r request "pl_world rt"] by blast
  with None answer have eq: "answer = response" "w' = w1" by (simp_all add: plugin_answer_def)
  have "bs \<noteq> []" if "response = Some bs" for bs by (rule router_response_nonempty [OF router [unfolded that]])
  with dispatch_serving [OF mem srv None router, of t] show ?thesis
    by (auto simp: plugin_call_def call_unguarded_serving [OF mem srv req len] eq)
next
  case (Some left)
  obtain partial w1 where left: "left = (partial, w1)" by (cases left)
  let ?rt = "set_cell t (cell_fill env partial (pl_cells rt t)) (rt\<lparr>pl_world := w1\<rparr>)"
  have free: "cell_ok env lo hi (pl_cells rt t)" using srv by (simp add: serving_def)
  have srv1: "serving env lo hi r ?rt" by (rule serving_set_cell [OF srv cell_fill_ok [OF mem free]])
  have addr: "(if request = [] then anchor else addr) \<noteq> 0"
    using mem req \<open>anchor \<noteq> 0\<close> by (auto simp: memory_ok_def request_in_def)
  have notify: "requested_notify env (raw_of anchor addr request) = notify_frame env request"
    unfolding raw_of_def using requested_notify_frame [OF len _ addr] mem by (simp add: memory_ok_def)
  have "dispatch_into env t r request rt = (None, ?rt)"
    using Some left free by (simp add: dispatch_into_def cell_ok_def)
  then have call: "plugin_call env t (raw_of anchor addr request) rt =
      (if notify_frame env request then (buffer_empty env, ?rt) else with_response_buffer env t panic_frame ?rt)"
    by (simp add: plugin_call_def call_unguarded_serving [OF mem srv req len] notify error_response_def panic_frame_def)
  have w1: "pl_world ?rt = w1" by (simp add: set_cell_def)
  show ?thesis
  proof (cases "notify_frame env request")
    case True
    then show ?thesis using Some left answer srv1 w1 by (auto simp: call plugin_answer_def)
  next
    case False
    then show ?thesis
      using with_buffer_free [OF mem srv1 panic_frame_nonempty, of t] Some left answer w1 panic_frame_nonempty
      by (auto simp: call plugin_answer_def)
  qed
qed

lemma host_call_serving:
  assumes mem: "memory_ok env lo hi" and srv: "serving env lo hi r rt" and req: "request_in lo hi addr request"
    and len: "length request \<le> isize_max (pv_usize_max env)" and anchor: "anchor \<noteq> 0"
    and answer: "plugin_answer env r request (pl_world rt) = (answer, w')"
    and fits: "\<And>bs. answer = Some bs \<Longrightarrow> length bs \<le> isize_max (pv_usize_max env)"
    and plugin: "pg_call plugin = plugin_call env"
  shows "\<exists>rt'. host_call_into (host_env_of env anchor frame) plugin t addr request rt =
      (Inr (answer \<noteq> None), case answer of None \<Rightarrow> [] | Some bs \<Rightarrow> bs, rt')
    \<and> host_call (host_env_of env anchor frame) plugin t addr request rt = (Inr answer, rt')
    \<and> serving env lo hi r rt' \<and> pl_world rt' = w'"
proof -
  obtain rt' where call: "plugin_call env t (raw_of anchor addr request) rt =
      (case answer of None \<Rightarrow> buffer_empty env | Some bs \<Rightarrow> \<lparr>bu_data = ce_base (pl_cells rt' t), bu_size = of_nat (length bs)\<rparr>, rt')"
    and srv': "serving env lo hi r rt'" and w': "pl_world rt' = w'"
    and bytes: "\<forall>bs. answer = Some bs \<longrightarrow> ce_bytes (pl_cells rt' t) = bs \<and> bs \<noteq> []"
    using plugin_call_serving [OF mem srv req len anchor answer, of t] by blast
  have raw: "\<lparr>rw_addr = (if request = [] then anchor else addr), rw_size = of_nat (length request), rw_bytes = request\<rparr>
      = raw_of anchor addr request"
    by (simp add: raw_of_def)
  have into: "host_call_into (host_env_of env anchor frame) plugin t addr request rt =
      (Inr (answer \<noteq> None), case answer of None \<Rightarrow> [] | Some bs \<Rightarrow> bs, rt')"
  proof (cases answer)
    case None
    with call show ?thesis
      by (simp add: host_call_into_def plugin host_env_of_def raw buffer_empty_def Let_def del: if_split cong: if_cong)
  next
    case (Some bs)
    have small: "length bs \<le> isize_max (pv_usize_max env)" using fits Some by blast
    have "pv_usize_max env < 2 ^ 64" using mem by (simp add: memory_ok_def)
    with small have "length bs < 2 ^ 64" by (simp add: isize_max_def)
    then have size: "unat (of_nat (length bs) :: u64) = length bs" by (simp add: unat_of_nat)
    have "bs \<noteq> []" and content: "ce_bytes (pl_cells rt' t) = bs" using bytes Some by simp_all
    then have pos: "(of_nat (length bs) :: u64) \<noteq> 0" using size by (metis length_0_conv unat_0)
    have cell: "ce_base (pl_cells rt' t) \<noteq> 0" "ce_base (pl_cells rt' t) \<noteq> pv_static env"
      using srv' by (simp_all add: serving_def cell_ok_def)
    have usize: "\<not> length bs > pv_usize_max env" using small by (simp add: isize_max_def)
    have call': "plugin_call env t (raw_of anchor addr request) rt = (\<lparr>bu_data = ce_base (pl_cells rt' t), bu_size = of_nat (length bs)\<rparr>, rt')"
      using call Some by simp
    show ?thesis
      using Some small usize cell
      by (simp add: host_call_into_def plugin host_env_of_def raw call' size pos Let_def borrowed_bytes_def content del: if_split cong: if_cong)
  qed
  moreover have "host_call (host_env_of env anchor frame) plugin t addr request rt = (Inr answer, rt')"
    by (cases answer) (simp_all add: host_call_def into)
  ultimately show ?thesis using srv' w' by blast
qed

lemma host_calls_serving:
  assumes mem: "memory_ok env lo hi" and srv: "serving env lo hi r rt" and anchor: "anchor \<noteq> 0" and plugin: "pg_call plugin = plugin_call env"
    and reqs: "\<forall>(t, addr, request) \<in> set calls. request_in lo hi addr request \<and> length request \<le> isize_max (pv_usize_max env)"
    and fits: "\<forall>bs. Some bs \<in> set (fst (plugin_answers env r calls (pl_world rt))) \<longrightarrow> length bs \<le> isize_max (pv_usize_max env)"
  shows "\<exists>rt'. host_calls (host_env_of env anchor frame) plugin calls rt = (map Inr (fst (plugin_answers env r calls (pl_world rt))), rt')
    \<and> pl_world rt' = snd (plugin_answers env r calls (pl_world rt)) \<and> serving env lo hi r rt'"
  using srv reqs fits
proof (induction calls arbitrary: rt)
  case (Cons call calls)
  obtain t addr request where call: "call = (t, addr, request)" by (cases call)
  obtain answer w1 where answer: "plugin_answer env r request (pl_world rt) = (answer, w1)" by fastforce
  have req: "request_in lo hi addr request" "length request \<le> isize_max (pv_usize_max env)"
    using Cons.prems(2) by (simp_all add: call)
  have fit: "length bs \<le> isize_max (pv_usize_max env)" if "answer = Some bs" for bs
    using Cons.prems(3) that by (simp add: call answer split: prod.splits)
  obtain rt1 where one: "host_call (host_env_of env anchor frame) plugin t addr request rt = (Inr answer, rt1)"
    and srv1: "serving env lo hi r rt1" and w1: "pl_world rt1 = w1"
    using host_call_serving [OF mem Cons.prems(1) req anchor answer fit plugin, of frame t] by blast
  have reqs1: "\<forall>(t, addr, request) \<in> set calls. request_in lo hi addr request \<and> length request \<le> isize_max (pv_usize_max env)"
    using Cons.prems(2) by simp
  have fits1: "\<forall>bs. Some bs \<in> set (fst (plugin_answers env r calls (pl_world rt1))) \<longrightarrow> length bs \<le> isize_max (pv_usize_max env)"
    using Cons.prems(3) by (simp add: call answer w1 split: prod.splits)
  obtain rt2 where rest: "host_calls (host_env_of env anchor frame) plugin calls rt1 = (map Inr (fst (plugin_answers env r calls (pl_world rt1))), rt2)"
    and w2: "pl_world rt2 = snd (plugin_answers env r calls (pl_world rt1))" and srv2: "serving env lo hi r rt2"
    using Cons.IH [OF srv1 reqs1 fits1] by blast
  show ?case
    by (rule exI [of _ rt2]) (simp add: call answer one rest w1 [symmetric] w2 srv2 split: prod.split)
qed simp

end
