(* ===== verification/Plugin_Mounted.thy ===== *)
theory Plugin_Mounted
  imports Plugin_Serving
begin

text \<open>
  The properties of plugins: the router built once whatever threads race, an exported plugin loaded and called, a plugin behind the
  router of its host, and what is left after shutdown.
\<close>

section \<open>Behind the host's router\<close>

lemma framed_again: "framed_response (framed_response x q) q = framed_response x q"
  by (simp add: framed_response_echo response_echo_query_def)

lemma route_view_notify:
  "route_request_view show_err r view w = (resp, w') \<Longrightarrow> resp = None \<longleftrightarrow> h_notify (v_header view) = 1"
  by (auto simp: route_request_view_def route_def dispatch_view_def Let_def
      split: if_splits QueryFormat.splits sum.splits option.splits prod.splits)

lemma streamed_frame:
  assumes "wf_message usize_max m"
  shows "write_message_streaming vec_write_all (m_header m) (m_query m) (of_nat (length (m_body m))) (io_from (vec_write_all (m_body m))) []
    = (Some (Inr (), message_to_vec m) :: (('s RepeError + unit) \<times> bytes) option)"
proof -
  have len: "of_nat (length (m_query m)) = h_query_length (m_header m)" "of_nat (length (m_body m)) = h_body_length (m_header m)"
  proof -
    have "length (m_query m) = unat (h_query_length (m_header m))" "length (m_body m) = unat (h_body_length (m_header m))"
      using assms by (simp_all add: wf_message_def)
    then show "of_nat (length (m_query m)) = h_query_length (m_header m)" "of_nat (length (m_body m)) = h_body_length (m_header m)" by simp_all
  qed
  have "h_length (m_header m) = of_nat (unat (h_length (m_header m)))" by simp
  also have "\<dots> = of_nat (framed_total (m_header m))" using assms by (simp only: wf_message_def wf_header_def)
  also have "\<dots> = of_nat HEADER_SIZE + h_query_length (m_header m) + h_body_length (m_header m)"
    by (simp add: framed_total_def)
  finally have "m_header m = (m_header m)\<lparr>h_query_length := h_query_length (m_header m), h_body_length := h_body_length (m_header m),
      h_length := of_nat HEADER_SIZE + h_query_length (m_header m) + h_body_length (m_header m)\<rparr>"
    by simp
  then show ?thesis
    by (simp add: write_message_streaming_def len Let_def io_bind_def io_from_def io_result_def vec_write_all_def to_vec_append)
qed

lemma fallback_routes:
  assumes "h_version (m_header m) = REPE_VERSION" and "h_query_format (m_header m) = query_format_u16 QF_JsonPointer"
    and "from_utf8 (m_query m) = Inr path"
  shows "route (register_fallback_blocking h router_new) (m_header m) (m_query m) = RO_Dispatch (off_reader h) (h_notify (m_header m) = 1) path"
  using assms by (simp add: route_def query_format_cases router_get_def register_fallback_blocking_def register_fallback_def
      rebuild_mount_dispatch_def router_new_def wrap_with_middlewares_def Let_def)

lemma router_frame_parsed:
  assumes "wf_message usize_max m" and "router_call usize_max show_err r (message_to_vec m) w = Some (Some bs, w')"
    and "message_from_slice usize_max bs = (Inr resp :: 's RepeError + Message)" and "length bs < 2 ^ 64"
  shows "message_to_vec (framed_response resp (m_query m)) = bs"
proof -
  obtain x where bs: "bs = message_to_vec (framed_response x (m_query m))"
    using assms(2) by (cases "route_request_view show_err r (message_view m) w") (auto simp: router_call_frame [OF assms(1)])
  obtain rest where wf: "wf_message usize_max resp" and rest: "bs = message_to_vec resp @ rest"
    using assms(3) by (auto simp: message_from_slice_Inr_iff)
  let ?f = "framed_response x (m_query m)"
  have "header_encode (m_header ?f) @ m_query ?f @ m_body ?f = header_encode (m_header resp) @ m_query resp @ m_body resp @ rest"
    using bs rest by (simp add: to_vec_append)
  then have enc: "header_encode (m_header ?f) = header_encode (m_header resp)" and tail: "m_query ?f @ m_body ?f = m_query resp @ m_body resp @ rest"
    by (simp_all add: append_eq_append_conv)
  have hdr: "m_header ?f = m_header resp"
    using header_fields_encode [of "m_header ?f" "[]"] header_fields_encode [of "m_header resp" "[]"] enc by simp
  have total: "length (m_query ?f) < 2 ^ 64" "length (m_body ?f) < 2 ^ 64"
    using assms(4) by (simp_all add: bs serialized_len_def)
  have "length (m_query resp) = unat (h_query_length (m_header ?f))" and "length (m_body resp) = unat (h_body_length (m_header ?f))"
    using wf by (simp_all add: wf_message_def hdr)
  then have lens: "length (m_query resp) = length (m_query ?f)" "length (m_body resp) = length (m_body ?f)"
    using total by (simp_all add: framed_response_echo unat_of_nat)
  have "m_query resp = m_query ?f" and "m_body resp = m_body ?f" using tail lens by (simp_all add: append_eq_append_conv)
  with hdr have "resp = ?f" by simp
  then show ?thesis by (simp add: framed_again bs)
qed

lemma plugin_view_forwards:
  assumes "wf_message usize_max m" and "from_utf8 (m_query m) = Inr path" and "host_claims plugin path"
  shows "plugin_handle_view henv plugin t (message_view m) ctx p = apfst Inr (host_forward henv plugin t (m_header m) (m_query m) (message_to_vec m) p)"
  using assms(2,3) by (simp add: plugin_handle_view_def message_view_def streamed_frame [OF assms(1)])

lemma plugin_mounted:
  fixes env :: "('w, 's) plugin_env"
  assumes mem: "memory_ok env lo hi" and srv: "serving env lo hi r rt" and plugin: "pg_call plugin = plugin_call env" and anchor: "anchor \<noteq> 0"
    and wf: "wf_message (pv_usize_max env) m" and header: "h_version (m_header m) = REPE_VERSION" "h_query_format (m_header m) = query_format_u16 QF_JsonPointer"
    and path: "from_utf8 (m_query m) = Inr path" "host_claims plugin path"
    and req: "request_in lo hi (frame rt) (message_to_vec m)" "length (message_to_vec m) \<le> isize_max (pv_usize_max env)"
    and quiet: "pv_panics env r (message_to_vec m) (pl_world rt) = None"
    and router: "router_call (pv_usize_max env) (pv_show env) r (message_to_vec m) (pl_world rt) = Some (answer, w')"
    and fits: "\<forall>bs. answer = Some bs \<longrightarrow> length bs \<le> isize_max (pv_usize_max env)
                 \<and> (\<exists>resp. message_from_slice (pv_usize_max env) bs = (Inr resp :: 's RepeError + Message))"
  shows "\<exists>rt'. router_call (pv_usize_max env) show_err
      (register_fallback_blocking (plugin_handler (host_env_of env anchor frame) plugin t) router_new) (message_to_vec m) rt = Some (answer, rt')
    \<and> pl_world rt' = w' \<and> serving env lo hi r rt'"
proof -
  let ?henv = "host_env_of env anchor frame" and ?view = "message_view m"
  have ans: "plugin_answer env r (message_to_vec m) (pl_world rt) = (answer, w')" by (simp add: plugin_answer_def quiet router)
  have small: "length bs \<le> isize_max (pv_usize_max env)" if "answer = Some bs" for bs using fits that by blast
  obtain rt' where call: "host_call_into ?henv plugin t (frame rt) (message_to_vec m) rt = (Inr (answer \<noteq> None), case answer of None \<Rightarrow> [] | Some bs \<Rightarrow> bs, rt')"
    and srv': "serving env lo hi r rt'" and w': "pl_world rt' = w'"
    using host_call_serving [OF mem srv req anchor ans small plugin, of frame t] by blast
  have henv: "hv_frame ?henv = frame" "hv_usize_max ?henv = pv_usize_max env" by (simp_all add: host_env_of_def)
  obtain resp w1 where rv: "route_request_view (pv_show env) r ?view (pl_world rt) = (resp, w1)" by fastforce
  then have "answer = map_option (\<lambda>x. message_to_vec (framed_response x (m_query m))) resp" using router by (simp add: router_call_frame [OF wf])
  with route_view_notify [OF rv] have notify: "answer = None \<longleftrightarrow> h_notify (m_header m) = 1" by (simp add: message_view_def)
  define reply where "reply = fst (host_forward ?henv plugin t (m_header m) (m_query m) (message_to_vec m) rt)"
  have forward: "host_forward ?henv plugin t (m_header m) (m_query m) (message_to_vec m) rt = (reply, rt')"
    unfolding reply_def by (cases answer) (simp_all add: host_forward_def henv call Let_def)
  have route: "route_request_view show_err (register_fallback_blocking (plugin_handler ?henv plugin t) router_new) ?view rt
      = (if h_notify (m_header m) = 1 then None else Some reply, rt')"
    using fallback_routes [OF header path(1), of "plugin_handler ?henv plugin t"] plugin_view_forwards [OF wf path, of ?henv t _ rt]
    by (simp add: route_request_view_def dispatch_view_def message_view_def off_reader_def plugin_handler_def forward)
  have "map_option (\<lambda>x. message_to_vec (framed_response x (m_query m))) (if h_notify (m_header m) = 1 then None else Some reply) = answer"
  proof (cases answer)
    case None
    then show ?thesis using notify by simp
  next
    case (Some bs)
    then obtain parsed where parsed: "message_from_slice (pv_usize_max env) bs = (Inr parsed :: 's RepeError + Message)" and len: "length bs \<le> isize_max (pv_usize_max env)"
      using fits by blast
    then have "reply = parsed" unfolding reply_def by (simp add: host_forward_def henv call Some Let_def)
    have "pv_usize_max env < 2 ^ 64" using mem by (simp add: memory_ok_def)
    with len have "length bs < 2 ^ 64" by (simp add: isize_max_def)
    from router_frame_parsed [OF wf router [unfolded Some] parsed this] \<open>reply = parsed\<close> show ?thesis using Some notify by simp
  qed
  then show ?thesis using router_call_frame [OF wf route] srv' w' by simp
qed

lemma panic_reply_unaddressed:
  fixes env :: "('w, 's) plugin_env"
  assumes mem: "memory_ok env lo hi" and srv: "serving env lo hi r rt" and plugin: "pg_call plugin = plugin_call env" and anchor: "anchor \<noteq> 0"
    and req: "request_in lo hi (frame rt) request" "length request \<le> isize_max (pv_usize_max env)"
    and panic: "pv_panics env r request (pl_world rt) = Some left" "\<not> notify_frame env request"
    and fits: "length panic_frame \<le> isize_max (pv_usize_max env)"
      "wf_message (pv_usize_max env) (create_error_message EC_InternalError ''repe plugin: handler panicked while serving the request'')"
  shows "\<exists>rt'. host_forward (host_env_of env anchor frame) plugin t header query request rt
      = (create_error_message EC_InternalError ''repe plugin: handler panicked while serving the request'', rt')"
proof -
  have ans: "plugin_answer env r request (pl_world rt) = (Some panic_frame, snd left)"
    using panic by (simp add: plugin_answer_def split: prod.split)
  obtain rt' where "host_call_into (host_env_of env anchor frame) plugin t (frame rt) request rt = (Inr True, panic_frame, rt')"
    using host_call_serving [OF mem srv req anchor ans _ plugin, of frame t] fits(1) by auto
  moreover have "message_from_slice (pv_usize_max env) panic_frame = (Inr (create_error_message EC_InternalError
      ''repe plugin: handler panicked while serving the request'') :: 's RepeError + Message)"
    unfolding message_from_slice_Inr_iff panic_frame_def using fits(2) by simp
  ultimately show ?thesis by (simp add: host_forward_def host_env_of_def Let_def)
qed

lemma panic_reply_id: "h_id (m_header (create_error_message code msg)) = 0"
  by (simp add: create_error_message_def build_def builder_defs Let_def)

section \<open>After shutdown\<close>

definition shutdown_frame :: bytes where
  "shutdown_frame = message_to_vec (create_error_message EC_InternalError ''repe plugin: repe_plugin_call after repe_plugin_shutdown'')"

lemma shutdown_call:
  assumes "memory_ok env lo hi" and "\<forall>t. cell_ok env lo hi (pl_cells rt t)" and "pl_shutdown rt" and "pg_call plugin = plugin_call env"
    and "length shutdown_frame \<le> isize_max (pv_usize_max env)"
  shows "\<exists>rt'. host_call (host_env_of env anchor frame) plugin t addr request rt = (Inr (Some shutdown_frame), rt')
    \<and> pl_world rt' = pl_world rt \<and> pl_shutdown rt' \<and> (\<forall>t. cell_ok env lo hi (pl_cells rt' t))"
proof -
  let ?c = "cell_fill env shutdown_frame (pl_cells rt t)" and ?raw = "raw_of anchor addr request"
  have c: "cell_ok env lo hi ?c" using cell_fill_ok [OF assms(1)] assms(2) by blast
  have free: "ce_status (pl_cells rt t) = Cell_Free" using assms(2) by (simp add: cell_ok_def)
  have ne: "shutdown_frame \<noteq> []" by (simp add: shutdown_frame_def to_vec_nonempty)
  have call: "plugin_call env t ?raw rt = (\<lparr>bu_data = ce_base ?c, bu_size = of_nat (length shutdown_frame)\<rparr>, set_cell t ?c rt)"
    using assms(3) free ne unfolding plugin_call_def call_unguarded_def error_response_def with_response_buffer_def
    by (simp add: borrowing_def Let_def apfst_def flip: shutdown_frame_def)
  have "pv_usize_max env < 2 ^ 64" using assms(1) by (simp add: memory_ok_def)
  with assms(5) have "length shutdown_frame < 2 ^ 64" by (simp add: isize_max_def)
  then have size: "unat (of_nat (length shutdown_frame) :: u64) = length shutdown_frame" by (simp add: unat_of_nat)
  then have pos: "(of_nat (length shutdown_frame) :: u64) \<noteq> 0" using ne by (metis length_0_conv unat_0)
  have raw: "\<lparr>rw_addr = (if request = [] then anchor else addr), rw_size = of_nat (length request), rw_bytes = request\<rparr> = ?raw"
    by (simp add: raw_of_def)
  have usize: "\<not> length shutdown_frame > pv_usize_max env" using assms(5) by (simp add: isize_max_def)
  have "host_call (host_env_of env anchor frame) plugin t addr request rt = (Inr (Some shutdown_frame), set_cell t ?c rt)"
    using c assms(5) usize
    by (simp add: host_call_def host_call_into_def assms(4) host_env_of_def raw call size pos Let_def borrowed_bytes_def cell_ok_def set_cell_def
        del: if_split cong: if_cong)
  moreover have "\<forall>u. cell_ok env lo hi (pl_cells (set_cell t ?c rt) u)" using c assms(2) by (simp add: set_cell_def)
  ultimately show ?thesis using assms(3) by (intro exI [of _ "set_cell t ?c rt"]) (simp add: set_cell_def)
qed

lemma shutdown_calls:
  assumes "memory_ok env lo hi" and "\<forall>t. cell_ok env lo hi (pl_cells rt t)" and "pl_shutdown rt" and "pg_call plugin = plugin_call env"
    and "length shutdown_frame \<le> isize_max (pv_usize_max env)"
  shows "\<exists>rt'. host_calls (host_env_of env anchor frame) plugin calls rt = (replicate (length calls) (Inr (Some shutdown_frame)), rt')
    \<and> pl_world rt' = pl_world rt \<and> pl_shutdown rt'"
  using assms(2,3)
proof (induction calls arbitrary: rt)
  case (Cons call calls)
  obtain t addr request where call: "call = (t, addr, request)" by (cases call)
  obtain rt1 where one: "host_call (host_env_of env anchor frame) plugin t addr request rt = (Inr (Some shutdown_frame), rt1)"
    and rt1: "pl_world rt1 = pl_world rt" "pl_shutdown rt1" "\<forall>t. cell_ok env lo hi (pl_cells rt1 t)"
    using shutdown_call [OF assms(1) Cons.prems assms(4,5), of anchor frame t addr request] by blast
  obtain rt2 where "host_calls (host_env_of env anchor frame) plugin calls rt1 = (replicate (length calls) (Inr (Some shutdown_frame)), rt2)"
    and "pl_world rt2 = pl_world rt1" "pl_shutdown rt2"
    using Cons.IH [OF rt1(3,2)] by blast
  with one rt1(1) show ?case by (intro exI [of _ rt2]) (simp add: call)
qed simp

section \<open>Threads racing\<close>

lemma race_progress:
  assumes "race_inv s" and "\<forall>x. rc_phase s t \<noteq> BP_Done x"
  shows "\<exists>s'. build_step env s s'"
proof (cases "rc_lock s")
  case (Some u)
  then have u: "rc_phase s u = BP_Building" using assms(1) by (auto simp: race_inv_def)
  obtain built w where "pv_build env (rc_world s) = (built, w)" by fastforce
  with u show ?thesis by (cases built) (blast intro: construct construct_panic)+
next
  case None
  then have "rc_phase s t \<noteq> BP_Building" using assms(1) by (auto simp: race_inv_def)
  with assms(2) None show ?thesis
    by (cases "rc_phase s t"; cases "rc_router s"; cases "rc_failed s") (auto intro: build_step.intros)
qed

section \<open>Roots\<close>

text \<open>A plugin claims its root and what is below it, with the separator: disjoint roots have disjoint claims.\<close>

lemma claims_iff: "host_claims plugin q \<longleftrightarrow> q = pg_root_path plugin \<or> (\<exists>rest. q = pg_root_path plugin @ CHR ''/'' # rest)"
proof (cases "strip_prefix q (pg_root_path plugin)")
  case None
  then have "q \<noteq> pg_root_path plugin @ r" for r by auto
  from this [of "[]"] this show ?thesis using None by (simp add: host_claims_def)
next
  case (Some r)
  then have "q = pg_root_path plugin @ r" by (simp add: strip_prefix_Some_iff)
  then show ?thesis using Some by (simp add: host_claims_def starts_with_iff)
qed

lemma claims_nested:
  assumes "host_claims a q" and "host_claims b q" and "length (pg_root_path a) \<le> length (pg_root_path b)"
  shows "host_claims a (pg_root_path b)"
proof -
  obtain x where x: "q = pg_root_path a @ x" "x = [] \<or> (\<exists>rest. x = CHR ''/'' # rest)" using assms(1) unfolding claims_iff by auto
  obtain y where y: "q = pg_root_path b @ y" using assms(2) unfolding claims_iff by auto
  have "pg_root_path b = take (length (pg_root_path b)) q" by (simp add: y)
  also have "\<dots> = pg_root_path a @ take (length (pg_root_path b) - length (pg_root_path a)) x" using assms(3) by (simp add: x(1))
  finally have b: "pg_root_path b = pg_root_path a @ take (length (pg_root_path b) - length (pg_root_path a)) x" .
  have "take k x = [] \<or> (\<exists>rest. take k x = CHR ''/'' # rest)" for k using x(2) by (cases k) auto
  with b show ?thesis unfolding claims_iff by (metis append_Nil2)
qed

lemma claims_disjoint:
  assumes "\<not> host_claims a (pg_root_path b)" and "\<not> host_claims b (pg_root_path a)"
  shows "\<not> (host_claims a q \<and> host_claims b q)"
  using assms claims_nested [of a q b] claims_nested [of b q a] by (meson nat_le_linear)

text \<open>The root \<^verbatim>\<open>/\<close>, which both sides accept, claims no path of one or more named segments.\<close>

lemma slash_root_claims_nothing:
  "pg_root_path plugin = ''/'' \<Longrightarrow> c \<noteq> CHR ''/'' \<Longrightarrow> root_ok ''/'' \<and> \<not> host_claims plugin (CHR ''/'' # c # rest)"
  by (simp add: claims_iff root_ok_def starts_with_def)

section \<open>Properties\<close>

definition example_build :: "nat \<Rightarrow> (nat, unit) Router option \<times> nat" where
  "example_build w = (Some example_router, Suc w)"

definition example_plugin_env :: "(nat, unit) plugin_env" where
  "example_plugin_env =
     \<lparr>pv_usize_max = 65535, pv_show = (\<lambda>_. []), pv_build = example_build, pv_panics = (\<lambda>_ _ _. None),
      pv_grow = (\<lambda>base need. (5000, need)), pv_anchor = 7, pv_static = 9\<rparr>"

definition example_cells :: "nat \<Rightarrow> cell" where
  "example_cells t = \<lparr>ce_status = Cell_Free, ce_base = 1, ce_capacity = 0, ce_bytes = []\<rparr>"

definition plugin_message :: Message where
  "plugin_message = build (with_query_str ''/a'' (with_query_format QF_JsonPointer (with_body_utf8 ''hi'' builder)))"

lemma wf_plugin_message: "wf_message 65535 plugin_message"
  unfolding plugin_message_def by (rule build_wf) (simp_all add: builder_defs HEADER_SIZE_def as_bytes_def)

lemma example_memory: "memory_ok example_plugin_env 1000 3000" "cell_ok example_plugin_env 1000 3000 (example_cells t)"
  by (simp_all add: memory_ok_def cell_ok_def example_plugin_env_def example_cells_def outside_def)

lemma example_call:
  "router_call 65535 show_err example_router (message_to_vec plugin_message) w = Some (Some (message_to_vec plugin_message), Suc w)"
proof -
  have get: "router_get example_router ''/a'' = Some echo_handler"
    by (simp add: example_router_def router_get_def insert_route_def wrap_with_middlewares_def router_new_def with_erased_handler_def Let_def)
  have m: "h_version (m_header plugin_message) = REPE_VERSION" "h_query_format (m_header plugin_message) = query_format_u16 QF_JsonPointer"
      "h_notify (m_header plugin_message) = 0" "m_query plugin_message = as_bytes ''/a''"
    by (simp_all add: plugin_message_def build_def builder_defs Let_def)
  have "from_utf8 (as_bytes ''/a'') = Inr ''/a''" by (rule from_utf8_ascii) (simp add: ascii_str_def)
  then have "route_request_view show_err example_router (message_view plugin_message) w = (Some plugin_message, Suc w)"
    by (simp add: route_request_view_def route_def message_view_def m query_format_cases get dispatch_view_def echo_handler_def
        plain_handler_def to_message_def Let_def)
  moreover have "framed_response plugin_message (m_query plugin_message) = plugin_message"
    by (simp add: framed_response_echo response_echo_query_def plugin_message_def build_def builder_defs as_bytes_def HEADER_SIZE_def Let_def)
  ultimately show ?thesis using router_call_frame [OF wf_plugin_message, of show_err example_router w] by simp
qed

text \<open>
  C37. A plugin built with the attribute loads and carries calls: the metadata the attribute writes passes the host's
  handshake under the root it names, the constructor runs, and every frame the host then sends, from any threads in any order, is answered
  with exactly what the plugin's router answers in process, nothing for a notify, and an error frame instead of a panic; the copy the host takes
  is never of another call's response.
\<close>

theorem plugin_carries_calls:
  fixes env :: "('w, 's) plugin_env"
  assumes "expand_plugin pkg_name pkg_version args f = Inr info" and "plain_str pkg_name" and "plain_str pkg_version"
    and "\<forall>s \<in> set_option (pa_name args) \<union> set_option (pa_version args) \<union> set_option (pa_root args). from_utf8 (as_bytes s) = Inr s"
    and "pv_build env w = (Some r, w0)" and "memory_ok env lo hi" and "\<forall>t. cell_ok env lo hi (cells t)" and "anchor \<noteq> 0"
    and "\<forall>(t, addr, request) \<in> set calls. request_in lo hi addr request \<and> length request \<le> isize_max (pv_usize_max env)"
    and "\<forall>bs. Some bs \<in> set (fst (plugin_answers env r calls w0)) \<longrightarrow> length bs \<le> isize_max (pv_usize_max env)"
  shows "\<exists>plugin rt rt'. from_abi debug_str path (exported_abi env info) origin (runtime_new cells w) = (Inr plugin, rt)
    \<and> pa_root args = Some (pg_root_path plugin)
    \<and> host_calls (host_env_of env anchor frame) plugin calls rt = (map Inr (fst (plugin_answers env r calls w0)), rt')
    \<and> pl_world rt' = snd (plugin_answers env r calls w0)"
proof -
  let ?name = "case_option pkg_name id (pa_name args)" and ?version = "case_option pkg_version id (pa_version args)"
  have nul: "CHR 0x00 \<notin> set pkg_name" "CHR 0x00 \<notin> set pkg_version" using assms(2,3) by (simp_all add: plain_str_def)
  obtain root where root: "pa_root args = Some root" "root_ok root" "CHR 0x00 \<notin> set root" "CHR 0x00 \<notin> set ?name" "CHR 0x00 \<notin> set ?version"
      and info: "info = plugin_info ?name ?version root"
    using assms(1) unfolding expand_plugin_Inr [OF nul] by blast
  have plain: "plain_str ?name" "plain_str ?version" "plain_str root"
    using root assms(2-4) by (auto simp: plain_str_def split: option.splits)
  let ?plugin = "exported_plugin env path origin ?name ?version root"
  let ?rt = "(runtime_new cells w)\<lparr>pl_router := Some r, pl_world := w0\<rparr>"
  have "plugin_init env (runtime_new cells w) = (RR_Ok, ?rt)"
    using assms(5) by (simp add: plugin_init_def runtime_new_def get_or_build_def)
  then have load: "from_abi debug_str path (exported_abi env info) origin (runtime_new cells w) = (Inr ?plugin, ?rt)"
    unfolding info from_abi_exported [OF plain root(2)] by simp
  have srv: "serving env lo hi r ?rt" using assms(7) by (simp add: serving_def runtime_new_def)
  have w0: "pl_world ?rt = w0" by simp
  have call: "pg_call ?plugin = plugin_call env" by (simp add: exported_plugin_def)
  obtain rt' where "host_calls (host_env_of env anchor frame) ?plugin calls ?rt = (map Inr (fst (plugin_answers env r calls w0)), rt')"
    and "pl_world rt' = snd (plugin_answers env r calls w0)"
    using host_calls_serving [OF assms(6) srv assms(8) call assms(9), of frame] assms(10) unfolding w0 by blast
  with load root(1) show ?thesis by (intro exI [of _ ?plugin] exI [of _ ?rt] exI [of _ rt']) (simp add: exported_plugin_def)
qed

definition example_args :: PluginArgs where
  "example_args = \<lparr>pa_name = None, pa_version = Some ''1'', pa_root = Some ''/a''\<rparr>"

definition example_fn :: plugin_fn where
  "example_fn = \<lparr>pf_inputs = 0, pf_generics = 0, pf_async = False\<rparr>"

lemma example_answer: "plugin_answer example_plugin_env example_router (message_to_vec plugin_message) w = (Some (message_to_vec plugin_message), Suc w)"
  by (simp add: plugin_answer_def example_plugin_env_def example_call)

lemma example_frame_length: "length (message_to_vec plugin_message) = 52"
  by (simp add: serialized_len_def HEADER_SIZE_def plugin_message_def build_def builder_defs as_bytes_def Let_def)

lemma example_isize: "isize_max (pv_usize_max example_plugin_env) = 32767"
  by (simp add: isize_max_def example_plugin_env_def)

theorem plugin_carries_calls_witness:
  "\<exists>info plugin rt rt'. expand_plugin ''calc'' ''0'' example_args example_fn = Inr info
    \<and> from_abi (\<lambda>s. s) ''p.so'' (exported_abi example_plugin_env info) LO_Mapped (runtime_new example_cells 3) = (Inr plugin, rt)
    \<and> host_calls (host_env_of example_plugin_env 8 (\<lambda>_. 1000)) plugin
        [(0, 1000, message_to_vec plugin_message), (1, 2000, message_to_vec plugin_message)] rt
      = ([Inr (Some (message_to_vec plugin_message)), Inr (Some (message_to_vec plugin_message))], rt') \<and> pl_world rt' = 6"
proof -
  let ?calls = "[(0, 1000, message_to_vec plugin_message), (1, 2000, message_to_vec plugin_message)]"
  have plain: "plain_str ''calc''" "plain_str ''0''" and utf8: "from_utf8 (as_bytes ''1'') = Inr ''1''" "from_utf8 (as_bytes ''/a'') = Inr ''/a''"
    by (auto simp: plain_str_def ascii_str_def intro!: from_utf8_ascii)
  obtain info where info: "expand_plugin ''calc'' ''0'' example_args example_fn = Inr info"
    by (simp add: expand_plugin_def example_args_def example_fn_def reject_interior_nul_def starts_with_def)
  have utf8s: "\<forall>s \<in> set_option (pa_name example_args) \<union> set_option (pa_version example_args) \<union> set_option (pa_root example_args). from_utf8 (as_bytes s) = Inr s"
    using utf8 by (simp add: example_args_def)
  have build: "pv_build example_plugin_env 3 = (Some example_router, 4)" by (simp add: example_plugin_env_def example_build_def)
  have answers: "plugin_answers example_plugin_env example_router ?calls 4 = ([Some (message_to_vec plugin_message), Some (message_to_vec plugin_message)], 6)"
    by (simp add: example_answer)
  have reqs: "\<forall>(t, addr, request) \<in> set ?calls. request_in 1000 3000 addr request \<and> length request \<le> isize_max (pv_usize_max example_plugin_env)"
    using example_frame_length by (simp add: request_in_def example_isize del: length_to_vec)
  have fits: "\<forall>bs. Some bs \<in> set (fst (plugin_answers example_plugin_env example_router ?calls 4)) \<longrightarrow> length bs \<le> isize_max (pv_usize_max example_plugin_env)"
    unfolding answers fst_conv example_isize using example_frame_length by (auto simp del: length_to_vec)
  have cells: "\<forall>t. cell_ok example_plugin_env 1000 3000 (example_cells t)" using example_memory(2) by blast
  note run = plugin_carries_calls [OF info plain utf8s build example_memory(1) cells _ reqs fits,
      where anchor = 8 and debug_str = "\<lambda>s. s" and path = "''p.so''" and origin = LO_Mapped and frame = "\<lambda>_. 1000"]
  from run [unfolded answers] show ?thesis using info by (auto simp del: host_calls.simps)
qed



text \<open>
  C38. A plugin mounted behind a router is transparent: for a request under the plugin's root the host's router
  answers, byte for byte, what the plugin's own router answers to that frame, with the same effect, and nothing for a notify.
\<close>

theorem plugin_mounted_exact:
  fixes env :: "('w, 's) plugin_env"
  assumes "memory_ok env lo hi" and "serving env lo hi r rt" and "pg_call plugin = plugin_call env" and "anchor \<noteq> 0"
    and "wf_message (pv_usize_max env) m" and "h_version (m_header m) = REPE_VERSION" and "h_query_format (m_header m) = query_format_u16 QF_JsonPointer"
    and "from_utf8 (m_query m) = Inr path" and "host_claims plugin path"
    and "request_in lo hi (frame rt) (message_to_vec m)" and "length (message_to_vec m) \<le> isize_max (pv_usize_max env)"
    and "pv_panics env r (message_to_vec m) (pl_world rt) = None"
    and "router_call (pv_usize_max env) (pv_show env) r (message_to_vec m) (pl_world rt) = Some (answer, w')"
    and "\<forall>bs. answer = Some bs \<longrightarrow> length bs \<le> isize_max (pv_usize_max env)
           \<and> (\<exists>resp. message_from_slice (pv_usize_max env) bs = (Inr resp :: 's RepeError + Message))"
  shows "\<exists>rt'. router_call (pv_usize_max env) show_err
      (register_fallback_blocking (plugin_handler (host_env_of env anchor frame) plugin t) router_new) (message_to_vec m) rt = Some (answer, rt')
    \<and> pl_world rt' = w' \<and> serving env lo hi r rt'"
  by (rule plugin_mounted [where frame = frame, OF assms])

definition example_runtime :: "(nat, unit) PluginRuntime" where
  "example_runtime = (runtime_new example_cells 4)\<lparr>pl_router := Some example_router\<rparr>"

lemma example_serving: "serving example_plugin_env 1000 3000 example_router example_runtime"
  using example_memory(2) by (simp add: serving_def example_runtime_def runtime_new_def)

theorem plugin_mounted_exact_witness:
  "\<exists>rt'. router_call 65535 (\<lambda>_. []) (register_fallback_blocking
      (plugin_handler (host_env_of example_plugin_env 8 (\<lambda>_. 1000)) (exported_plugin example_plugin_env [] LO_Mapped [] [] ''/a'') 0) router_new)
      (message_to_vec plugin_message) example_runtime = Some (Some (message_to_vec plugin_message), rt') \<and> pl_world rt' = 5"
proof -
  let ?plugin = "exported_plugin example_plugin_env [] LO_Mapped [] [] ''/a''"
  have usize: "pv_usize_max example_plugin_env = 65535" and show_err: "pv_show example_plugin_env = (\<lambda>_. [])"
    by (simp_all add: example_plugin_env_def)
  have call: "pg_call ?plugin = plugin_call example_plugin_env" by (simp add: exported_plugin_def)
  have wf: "wf_message (pv_usize_max example_plugin_env) plugin_message" using wf_plugin_message by (simp add: usize)
  have m: "h_version (m_header plugin_message) = REPE_VERSION" "h_query_format (m_header plugin_message) = query_format_u16 QF_JsonPointer"
      "m_query plugin_message = as_bytes ''/a''"
    by (simp_all add: plugin_message_def build_def builder_defs Let_def)
  have path: "from_utf8 (m_query plugin_message) = Inr ''/a''" unfolding m(3) by (rule from_utf8_ascii) (simp add: ascii_str_def)
  have claims: "host_claims ?plugin ''/a''" by (simp add: claims_iff exported_plugin_def)
  have len: "length (message_to_vec plugin_message) \<le> isize_max (pv_usize_max example_plugin_env)"
    unfolding example_frame_length example_isize by simp
  have place: "request_in 1000 3000 ((\<lambda>_. 1000) example_runtime) (message_to_vec plugin_message)"
    unfolding request_in_def example_frame_length by simp
  have quiet: "pv_panics example_plugin_env example_router (message_to_vec plugin_message) (pl_world example_runtime) = None"
    by (simp add: example_plugin_env_def)
  have world: "pl_world example_runtime = 4" by (simp add: example_runtime_def runtime_new_def)
  have router: "router_call (pv_usize_max example_plugin_env) (pv_show example_plugin_env) example_router (message_to_vec plugin_message)
      (pl_world example_runtime) = Some (Some (message_to_vec plugin_message), 5)"
    unfolding usize world using example_call [of "pv_show example_plugin_env" 4] by simp
  have parses: "message_from_slice (pv_usize_max example_plugin_env) (message_to_vec plugin_message) = (Inr plugin_message :: unit RepeError + Message)"
    unfolding message_from_slice_Inr_iff using wf by simp
  have fits: "\<forall>bs. Some (message_to_vec plugin_message) = Some bs \<longrightarrow> length bs \<le> isize_max (pv_usize_max example_plugin_env)
      \<and> (\<exists>resp. message_from_slice (pv_usize_max example_plugin_env) bs = (Inr resp :: unit RepeError + Message))"
    using len parses by (metis option.inject)
  note run = plugin_mounted_exact [where frame = "\<lambda>_. 1000" and anchor = 8 and show_err = "\<lambda>_. []" and t = 0,
      OF example_memory(1) example_serving call _ wf m(1,2) path claims place len quiet router fits]
  have "(8 :: nat) \<noteq> 0" by simp
  from run [OF this] show ?thesis unfolding usize by blast
qed

text \<open>
  C40. Shutdown is final: after the host has shut a plugin down, every call through any handle of it, from any thread,
  is answered with the same error frame and has no effect, and loading the library again is refused.
\<close>

theorem plugin_retired:
  assumes "memory_ok env lo hi" and "\<forall>t. cell_ok env lo hi (pl_cells rt t)" and "plugin = exported_plugin env path origin name version root"
    and "plain_str name" and "plain_str version" and "plain_str root" and "root_ok root" and "length shutdown_frame \<le> isize_max (pv_usize_max env)"
  shows "\<exists>rt'. host_calls (host_env_of env anchor frame) plugin calls (host_shutdown plugin rt) = (replicate (length calls) (Inr (Some shutdown_frame)), rt')
    \<and> pl_world rt' = pl_world rt
    \<and> from_abi debug_str path' (exported_abi env (plugin_info name version root)) origin' rt' = (Inl (HE_InitFailed path' 1), rt')"
proof -
  let ?rt = "host_shutdown plugin rt"
  have rt: "pl_world ?rt = pl_world rt" "pl_shutdown ?rt" "\<forall>t. cell_ok env lo hi (pl_cells ?rt t)"
    using assms(2) by (simp_all add: host_shutdown_def assms(3) exported_plugin_def plugin_shutdown_def)
  have "pg_call plugin = plugin_call env" by (simp add: assms(3) exported_plugin_def)
  then obtain rt' where calls: "host_calls (host_env_of env anchor frame) plugin calls ?rt = (replicate (length calls) (Inr (Some shutdown_frame)), rt')"
      and rt': "pl_world rt' = pl_world ?rt" "pl_shutdown rt'"
    using shutdown_calls [OF assms(1) rt(3,2) _ assms(8), of plugin anchor frame calls] by blast
  have "plugin_init env rt' = (RR_InitFailed, rt')" using rt'(2) by (simp add: plugin_init_def)
  then have "from_abi debug_str path' (exported_abi env (plugin_info name version root)) origin' rt' = (Inl (HE_InitFailed path' 1), rt')"
    unfolding from_abi_exported [OF assms(4-7)] by simp
  with calls rt'(1) rt(1) show ?thesis by auto
qed

theorem plugin_retired_witness:
  "\<exists>rt'. host_calls (host_env_of example_plugin_env 8 (\<lambda>_. 1000)) (exported_plugin example_plugin_env [] LO_Mapped ''n'' ''1'' ''/a'')
      [(0, 1000, message_to_vec plugin_message)] (host_shutdown (exported_plugin example_plugin_env [] LO_Mapped ''n'' ''1'' ''/a'') example_runtime)
    = ([Inr (Some shutdown_frame)], rt') \<and> pl_world rt' = 4"
proof -
  have plain: "plain_str ''n''" "plain_str ''1''" "plain_str ''/a''" by (auto simp: plain_str_def ascii_str_def intro!: from_utf8_ascii)
  have cells: "\<forall>t. cell_ok example_plugin_env 1000 3000 (pl_cells example_runtime t)" using example_serving by (simp add: serving_def)
  have root: "root_ok ''/a''" by (simp add: root_ok_def starts_with_def)
  have len: "length shutdown_frame \<le> isize_max (pv_usize_max example_plugin_env)"
    unfolding example_isize shutdown_frame_def by (simp add: serialized_len_def HEADER_SIZE_def create_error_message_def build_def builder_defs as_bytes_def Let_def)
  have "pl_world example_runtime = 4" by (simp add: example_runtime_def runtime_new_def)
  with plugin_retired [OF example_memory(1) cells refl plain root len, where anchor = 8 and frame = "\<lambda>_. 1000"
      and calls = "[(0, 1000, message_to_vec plugin_message)]" and path = "[]" and origin = LO_Mapped]
  show ?thesis by (simp del: host_calls.simps) blast
qed

end
