(* ===== verification/Async_Server.thy ===== *)
theory Async_Server
  imports Router
begin

text \<open>
  The asynchronous TCP server, \<^verbatim>\<open>src/async_server.rs\<close>. The connection task is a loop over turns; each turn says which of
  its timers run out first and, for a write or a flush that is abandoned, what state it leaves the writer in. Accepting connections is one
  spawn of this task per connection.
\<close>

record ('w, 's) AsyncServer =
  as_router :: "('w, 's) Router"
  as_read_timeout :: "nat option"
  as_write_timeout :: "nat option"

definition async_server_new :: "('w, 's) Router \<Rightarrow> ('w, 's) AsyncServer" where
  "async_server_new router = \<lparr>as_router = router, as_read_timeout = None, as_write_timeout = None\<rparr>"

definition async_read_timeout :: "nat option \<Rightarrow> ('w, 's) AsyncServer \<Rightarrow> ('w, 's) AsyncServer" where
  "async_read_timeout d server = server\<lparr>as_read_timeout := d\<rparr>"

definition async_write_timeout :: "nat option \<Rightarrow> ('w, 's) AsyncServer \<Rightarrow> ('w, 's) AsyncServer" where
  "async_write_timeout d server = server\<lparr>as_write_timeout := d\<rparr>"

definition write_view_response_async ::
    "(bytes \<Rightarrow> ('o, io_error, unit) io) \<Rightarrow> Message \<Rightarrow> bytes \<Rightarrow> ('o, 's RepeError, unit) io" where
  "write_view_response_async write_all resp query =
     (let header = m_header resp;
          header = header\<lparr>h_query_length := of_nat (length query)\<rparr>;
          header = header\<lparr>h_length := of_nat HEADER_SIZE + h_query_length header + h_body_length header\<rparr>
      in io_bind (io_from (write_all (header_encode header))) (\<lambda>_.
         io_bind (if query \<noteq> [] then io_from (write_all query) else io_result (Inr ())) (\<lambda>_.
         io_bind (if m_body resp \<noteq> [] then io_from (write_all (m_body resp)) else io_result (Inr ())) (\<lambda>_.
         io_result (Inr ())))))"

record 'o turn =
  tu_read_expired :: bool
  tu_write_cut :: "('o \<Rightarrow> 'o) option"
  tu_flush_cut :: "('o \<Rightarrow> 'o) option"

text \<open>\<^verbatim>\<open>timeout(dur, f).await.ok()\<close>: whether \<open>f\<close> finished, failed or was abandoned, only its effect is left.\<close>

definition limited :: "('o, 'e, unit) io \<Rightarrow> ('o \<Rightarrow> 'o) option \<Rightarrow> 'o \<Rightarrow> 'o option" where
  "limited f abandoned writer =
     (case abandoned of
        Some left \<Rightarrow> Some (left writer)
      | None \<Rightarrow> (case f writer of Some (_, writer) \<Rightarrow> Some writer | None \<Rightarrow> None))"

text \<open>\<open>Inr True\<close> says that the turns are used up with the connection still open; \<open>None\<close> is a panic.\<close>

fun async_connection ::
    "nat \<Rightarrow> ('s RepeError \<Rightarrow> string) \<Rightarrow> ('w, 's) AsyncServer \<Rightarrow> (nat \<Rightarrow> ('r, io_error, bytes) io)
      \<Rightarrow> (bytes \<Rightarrow> ('o, io_error, unit) io) \<Rightarrow> ('o, io_error, unit) io \<Rightarrow> 'o turn list \<Rightarrow> 'r \<Rightarrow> 'o \<Rightarrow> 'w
      \<Rightarrow> (('s RepeError + bool) \<times> 'r \<times> 'o \<times> 'w) option" where
  "async_connection usize_max show_err server rx write_all flush [] reader writer w = Some (Inr True, reader, writer, w)"
| "async_connection usize_max show_err server rx write_all flush (turn # later) reader writer w =
     (if as_read_timeout server \<noteq> None \<and> tu_read_expired turn then Some (Inr False, reader, writer, w)
      else (case read_message_into_async usize_max rx reader of
              None \<Rightarrow> None
            | Some (Inl err, reader) \<Rightarrow> Some (Inl err, reader, writer, w)
            | Some (Inr buf, reader) \<Rightarrow>
                (case view_from_slice usize_max buf of
                   Inl err \<Rightarrow> Some (Inl err, reader, writer, w)
                 | Inr view \<Rightarrow>
                     (case route_request_view show_err (as_router server) view w of
                        (None, w) \<Rightarrow> async_connection usize_max show_err server rx write_all flush later reader writer w
                      | (Some resp, w) \<Rightarrow>
                          (let echo = response_echo_query resp (v_query view);
                               write = (write_view_response_async write_all resp echo :: ('o, 's RepeError, unit) io)
                           in if as_write_timeout server \<noteq> None
                              then (case Option.bind (limited write (tu_write_cut turn) writer) (limited flush (tu_flush_cut turn)) of
                                      None \<Rightarrow> None
                                    | Some writer \<Rightarrow> async_connection usize_max show_err server rx write_all flush later reader writer w)
                              else (case io_bind write (\<lambda>_. io_from flush) writer of
                                      None \<Rightarrow> None
                                    | Some (Inl err, writer) \<Rightarrow> Some (Inl err, reader, writer, w)
                                    | Some (Inr _, writer) \<Rightarrow>
                                        async_connection usize_max show_err server rx write_all flush later reader writer w))))))"

section \<open>Agreement with the blocking server\<close>

text \<open>The answers' headers carry the length of their bodies, and writing nothing does nothing.\<close>

definition lengths_right :: "('s RepeError \<Rightarrow> string) \<Rightarrow> ('w, 's) Router \<Rightarrow> bool" where
  "lengths_right show_err r \<longleftrightarrow>
     (\<forall>view w resp w'. route_request_view show_err r view w = (Some resp, w') \<longrightarrow> h_body_length (m_header resp) = of_nat (length (m_body resp)))"

lemma write_view_agrees:
  assumes "h_body_length (m_header resp) = of_nat (length (m_body resp))" and "\<And>x. write_all [] x = Some (Inr (), x)"
  shows "(write_view_response_async write_all resp (response_echo_query resp q) :: ('o, 's RepeError, unit) io) = write_view_response write_all resp q"
proof -
  have body: "(if m_body resp \<noteq> [] then io_from (write_all (m_body resp)) else io_result (Inr ())) = (io_from (write_all (m_body resp)) :: ('o, 's RepeError, unit) io)"
    using assms(2) by (auto simp: fun_eq_iff io_result_def io_from_def)
  have hdr: "(m_header resp)\<lparr>h_query_length := x, h_body_length := of_nat (length (m_body resp)), h_length := l\<rparr>
      = (m_header resp)\<lparr>h_query_length := x, h_length := l\<rparr>" for x l
    using assms(1) by simp
  show ?thesis
    unfolding write_view_response_async_def write_view_response_def write_message_streaming_def Let_def body
    by (simp add: assms(1) hdr)
qed

fun ended :: "('s RepeError + bool) \<Rightarrow> 's RepeError + unit" where
  "ended (Inr _) = Inr ()"
| "ended (Inl err) = (if is_io_kind K_UnexpectedEof err then Inr () else Inl err)"

lemma async_agrees:
  fixes show_err :: "'s RepeError \<Rightarrow> string"
  assumes "as_read_timeout server = None" and "as_write_timeout server = None" and "lengths_right show_err (as_router server)"
    and "\<And>x. write_all [] x = Some (Inr (), x)"
  shows "map_option (apfst ended) (async_connection usize_max show_err server (read_exact rd) write_all flush turns reader writer w)
    = map_option (apfst ended \<circ> apfst (map_sum id (\<lambda>_. True)))
        (connection_loop usize_max show_err (as_router server) rd write_all flush (replicate (length turns) True) reader writer w)"
proof (induction turns arbitrary: reader writer w)
  case (Cons turn turns)
  note IH = Cons.IH
  show ?case
  proof (cases "read_message_into usize_max rd reader :: (('s RepeError + bytes) \<times> _) option")
    case None
    then show ?thesis using assms(1) by (simp add: read_message_into_as_async)
  next
    case (Some result)
    obtain res reader1 where result: "result = (res, reader1)" by (cases result)
    show ?thesis
    proof (cases res)
      case (Inl err)
      then show ?thesis using Some result assms(1) by (simp add: read_message_into_as_async)
    next
      case (Inr buf)
      show ?thesis
      proof (cases "view_from_slice usize_max buf :: 's RepeError + MessageView")
        case (Inl err)
        then show ?thesis using Some result Inr assms(1) by (simp add: read_message_into_as_async)
      next
        case view: (Inr view)
        obtain resp w1 where resp: "route_request_view show_err (as_router server) view w = (resp, w1)" by fastforce
        have agrees: "(write_view_response_async write_all x (response_echo_query x (v_query view)) :: ('b, 's RepeError, unit) io)
            = write_view_response write_all x (v_query view)" if "resp = Some x" for x
          using assms(3) resp that by (intro write_view_agrees assms(4)) (auto simp: lengths_right_def)
        show ?thesis
          using Some result Inr view resp agrees assms(1,2) IH
          by (cases resp) (simp_all add: read_message_into_as_async Let_def split: option.split prod.split sum.split)
      qed
    qed
  qed
qed simp

text \<open>With a write timeout, a response that was abandoned in the middle does not end the connection: the next one follows what was sent of it.\<close>

lemma abandoned_write_goes_on:
  fixes show_err :: "'s RepeError \<Rightarrow> string"
  assumes "as_read_timeout server = None" and "as_write_timeout server = Some d"
    and "read_message_into_async usize_max rx reader = Some (Inr buf :: 's RepeError + bytes, reader')"
    and "view_from_slice usize_max buf = (Inr view :: 's RepeError + MessageView)"
    and "route_request_view show_err (as_router server) view w = (Some resp, w')"
    and "tu_write_cut turn = Some left" and "tu_flush_cut turn = Some left'"
  shows "async_connection usize_max show_err server rx write_all flush (turn # later) reader writer w
    = async_connection usize_max show_err server rx write_all flush later reader' (left' (left writer)) w'"
  using assms by (simp add: limited_def Let_def)

end
