(* ===== verification/Spec2Isabelle.thy ===== *)
theory Spec2Isabelle
  imports Bulk_Transfer Async_Client Wasm_Client Uniudp_Fleet Async_Fleet Websocket_Serving Value_Service Rest_Service Plugin_Mounted Async_Server
begin

text \<open>
  \<^bold>\<open>A verification of repe-rs.\<close> The crate implements the REPE remote procedure call protocol: a message is a 48-byte header, a
  query naming a path and a body. This library models the protocol types, the clients, the servers and what is built on them, translated
  from the Rust sources, and proves what each part promises. File names below are relative to the crate: \<^verbatim>\<open>src/\<close> is the crate itself,
  \<^verbatim>\<open>repe-core/src/\<close> and \<^verbatim>\<open>repe-derive/src/\<close> its companion crates.

  \<^bold>\<open>How the parts interact.\<close> A client builds a message, registers a channel under its id, writes the frame and waits; its response
  loop reads frames and hands each to the channel of its id. A server reads frames, the router resolves the query to a handler (fixed route,
  mounted registry, mounted struct, fallback) and the handler's answer is framed and written back. The same router serves TCP, WebSocket, a C plugin
  interface and streamed values; the function registry is also served over HTTP. Fleets are named clients with retries and broadcasts.

  \<^bold>\<open>Conventions.\<close> Machine integers are words, \<^verbatim>\<open>usize\<close> is a natural number below an argument \<open>usize_max\<close>; bytes are lists of 8-bit words and a
  \<^verbatim>\<open>str\<close> is the list of its UTF-8 bytes as characters. A \<^verbatim>\<open>Result\<close> is a sum with the error left, the question mark operator is \<open>res_bind\<close>. An I/O action maps the state of the
  stream to an optional result and state; \<open>None\<close> is a panic or a call that does not return, as each theory says. What is not the crate's own code stands as an
  argument: the \<^verbatim>\<open>structio\<close> codecs (their errors are the type parameter \<open>'s\<close>), sockets, clocks, tokio, tungstenite, hyper, uniudp, zstandard, the file system, the dynamic
  loader and the allocator. The state of the program around handlers and of the outside world is the type parameter \<open>'w\<close>. A function under one mutex is one
  atomic update; code that releases locks or awaits is a step relation whose steps end there.

  \<^bold>\<open>Protocol.\<close> \<^verbatim>\<open>Prelude\<close> and \<^verbatim>\<open>Rust_Text\<close> hold the shared vocabulary and the interfaces of codecs, transition systems and keyed tables.
  \<^verbatim>\<open>Constants\<close> (\<^verbatim>\<open>repe-core/src/constants.rs\<close>), \<^verbatim>\<open>Repe_Error\<close> (\<^verbatim>\<open>error.rs\<close>), \<^verbatim>\<open>Wire_Header\<close> (\<^verbatim>\<open>header.rs\<close>), \<^verbatim>\<open>Message\<close> (\<^verbatim>\<open>message.rs\<close>), \<^verbatim>\<open>Framing_IO\<close>
  (\<^verbatim>\<open>io.rs\<close>, \<^verbatim>\<open>async_io.rs\<close>) and \<^verbatim>\<open>Json_Pointer\<close> (\<^verbatim>\<open>json_pointer.rs\<close>): parsers accept exactly the encodings of well-formed values, and reading a stream in pieces of any
  size finds the frames that were written.

  \<^bold>\<open>Servers.\<close> \<^verbatim>\<open>Served_Structs\<close> (\<^verbatim>\<open>repe-core/src/structs.rs\<close>), \<^verbatim>\<open>Peer\<close> (\<^verbatim>\<open>peer.rs\<close>), \<^verbatim>\<open>Registry\<close> (\<^verbatim>\<open>registry.rs\<close>), \<^verbatim>\<open>Handlers\<close> and \<^verbatim>\<open>Router\<close>
  (\<^verbatim>\<open>server.rs\<close>, \<^verbatim>\<open>server_request.rs\<close>), \<^verbatim>\<open>Async_Server\<close> (\<^verbatim>\<open>async_server.rs\<close>), \<^verbatim>\<open>Websocket_Limits\<close>, \<^verbatim>\<open>Websocket_Upgrade\<close>, \<^verbatim>\<open>Websocket_Server\<close> and \<^verbatim>\<open>Websocket_Serving\<close>
  (\<^verbatim>\<open>websocket_limits.rs\<close>, \<^verbatim>\<open>websocket_server.rs\<close>), \<^verbatim>\<open>Bulk_Transfer\<close> (\<^verbatim>\<open>stream.rs\<close>). Resolution is what the registrations say, a TCP connection carries the answers of
  \<^verbatim>\<open>Router::call\<close> on its frames, the asynchronous server agrees with the blocking one, a WebSocket connection answers each request once and in order, and flow
  control keeps the bytes in flight within the window and replays exactly what is missing.

  \<^bold>\<open>Clients.\<close> \<^verbatim>\<open>Client_Core\<close>, \<^verbatim>\<open>Client_Table\<close>, \<^verbatim>\<open>Buffered_Writer\<close> and \<^verbatim>\<open>Client\<close> (\<^verbatim>\<open>client.rs\<close>), \<^verbatim>\<open>Async_Client\<close> (\<^verbatim>\<open>async_client.rs\<close>), \<^verbatim>\<open>Notify_Slot\<close> (\<^verbatim>\<open>notify_slot.rs\<close>),
  \<^verbatim>\<open>Websocket_Client\<close> (\<^verbatim>\<open>websocket_client.rs\<close>), \<^verbatim>\<open>Wasm_Client\<close> (\<^verbatim>\<open>wasm_client.rs\<close>), \<^verbatim>\<open>Udp_Client\<close> (\<^verbatim>\<open>udp_client.rs\<close>), \<^verbatim>\<open>Fleet\<close> (\<^verbatim>\<open>fleet.rs\<close>), \<^verbatim>\<open>Async_Fleet\<close> (\<^verbatim>\<open>async_fleet.rs\<close>) and
  \<^verbatim>\<open>Uniudp_Fleet\<close> (\<^verbatim>\<open>uniudp_fleet.rs\<close>). The blocking, asynchronous and WebSocket clients fill the one interface of \<^verbatim>\<open>Client_Core\<close>; its contract gives that a
  response is the call's own and that a failed connection wakes every call.

  \<^bold>\<open>Streamed values.\<close> \<^verbatim>\<open>Value_Stream\<close> (producer, sessions and handlers) and \<^verbatim>\<open>Value_Pull\<close> (pulls, files, trailers) model \<^verbatim>\<open>value_stream.rs\<close>;
  \<^verbatim>\<open>Value_Transfer\<close> holds the interfaces of a source of chunks, \<^verbatim>\<open>Value_Files\<close> that a file appears complete or not at all and only after its
  verification, \<^verbatim>\<open>Value_Service\<close> that what a producer wrote arrives through router, frames and client.

  \<^bold>\<open>REST gateway.\<close> \<^verbatim>\<open>Rest_Gateway\<close> models \<^verbatim>\<open>rest.rs\<close>. \<^verbatim>\<open>Rest_Paths\<close> shows that a path's segments arrive as they were encoded and cannot be split, \<^verbatim>\<open>Rest_Service\<close>
  that a registered function is served, that safe methods carry no body, that revalidation is exact, that every response is well-formed, and that the accept
  loop keeps its limits.

  \<^bold>\<open>Plugins.\<close> \<^verbatim>\<open>Plugin_Runtime\<close> (\<^verbatim>\<open>plugin.rs\<close>), \<^verbatim>\<open>Plugin_Host\<close> (\<^verbatim>\<open>plugin/host.rs\<close>) and \<^verbatim>\<open>Plugin_Serving\<close> (the \<^verbatim>\<open>plugin\<close> attribute of \<^verbatim>\<open>repe-derive\<close>). \<^verbatim>\<open>Plugin_Mounted\<close> shows that an exported
  plugin loads and carries the calls of its router, that it is transparent behind the host's router, that racing threads build one router, and that shutdown is final.

  \<^bold>\<open>This theory\<close> follows one request from a registered function through mount, router and frames to the bytes of its response.

  \<^bold>\<open>Bounds.\<close> Loops that end are total functions, with termination proofs where recursion is not structural. Loops of servers and waits run over a list of turns, flags or
  wake-ups, as long as the run considered; theorems quantify over every such list, or are about a list that is long enough. A loop that can fail to end is a
  partial function, and that it returns is part of the theorem.

  \<^bold>\<open>Abstractions.\<close> A write under the writer's lock is one step, so a cancelled future is dropped between steps and never in the middle of a write, except where a
  timeout is modelled as cutting one. Dropping a client is not a step. Calls on one node of a fleet are sequential. A notify a WebSocket handler pushes is a step of its
  own; a handler's panic is a choice of the environment. A value stream's session holds the messages its producer will send; the asynchronous pull loop runs when its consumer
  needs a chunk. A failed file operation changes nothing.

  \<^bold>\<open>Not modelled.\<close> The derive and endpoint macros of \<^verbatim>\<open>repe-derive\<close> generate Rust source from token trees; the implementations of \<^verbatim>\<open>RepeStruct\<close> they produce are arguments
  here. \<^verbatim>\<open>src/bin/repe.rs\<close> is terminal input and output around the clients. Accepting sockets, spawning threads and tasks and \<^verbatim>\<open>Debug\<close> output are left out, as are the decoding
  of method arguments and the smart-pointer implementations of \<^verbatim>\<open>repe-core/src/structs.rs\<close>. \<^verbatim>\<open>src/lib.rs\<close> and \<^verbatim>\<open>repe-core/src/lib.rs\<close> are re-exports.
\<close>

section \<open>From a registered function to the bytes of its response\<close>

lemma mount_pointer:
  assumes "starts_with p ''/''"
  shows "pointer_for pre (pre @ p) = Some p" and "mount_matches pre (pre @ p)"
  using assms by (auto simp: pointer_for_def mount_matches_def starts_with_def)

lemma single_mount_get:
  assumes "starts_with p ''/''"
  shows "router_get (register_registry pre registry router_new) (normalize_mount pre @ p)
    = Some (registered_registry pre registry)"
  using mount_pointer(2) [OF assms]
  by (simp add: router_get_def register_registry_def push_registry_def router_new_def mount_dispatched_def
      wrap_with_middlewares_def registry_entry_matches_def)

text \<open>
  C9. End to end over the registry, the router and the framing: once a function is
  registered under a path and the registry is mounted at a prefix, a well-formed
  request frame for the prefix followed by the path runs that function on the
  request's body and context, and the response frame holds the bytes the function
  wrote, in the format it wrote them, under the request's id with its query echoed.
\<close>

theorem mounted_function_served:
  fixes registry :: "'w \<Rightarrow> 'w Registry" and show_err :: "'s RepeError \<Rightarrow> string"
  assumes "register_function path f state = Inr (registry w)"
    and "wf_message usize_max m" and "h_version (m_header m) = REPE_VERSION"
    and "h_notify (m_header m) \<noteq> 1" and "h_query_format (m_header m) = query_format_u16 QF_JsonPointer"
    and "from_utf8 (m_query m) = Inr (normalize_mount pre @ registration_pointer path)"
    and "body_format_try_from (h_body_format (m_header m)) = Inr format"
    and "f (call_context_detached (normalize_mount pre @ registration_pointer path))
           (if m_body m = [] then None else Some \<lparr>rq_bytes = m_body m, rq_format = format\<rparr>)
           (response_body_with_format [] format) w = (Inr (), out, w')"
  shows "router_call usize_max show_err (register_registry pre registry router_new) (message_to_vec m) w
    = Some (Some (message_to_vec (framed_response
        (create_body_response_unstamped m (rb_buf out) (rb_format out)) (m_query m))), w')"
proof -
  let ?p = "registration_pointer path"
  let ?path = "normalize_mount pre @ ?p"
  let ?r = "register_registry pre registry router_new :: ('w, 's) Router"
  note slash = registration_pointer_absolute [of path]
  have get: "router_get ?r ?path
      = Some (registered_registry pre registry)"
    by (rule single_mount_get [OF slash])
  have route: "route ?r (m_header m) (m_query m)
      = RO_Dispatch (registered_registry pre registry) False ?path"
    using assms(3-6) get by (simp add: route_def Let_def query_format_cases)
  have query: "query_or_empty (to_message (message_view m)) = ?path"
    using assms(6) by (simp add: query_or_empty_def query_str_def message_view_def)
  have call: "registry_call ?p params ctx (registry w) buf w =
      (case f ctx params buf w of (r, buf, w) \<Rightarrow> (res_map_err (\<lambda>(code, msg). RGE_Execution code msg) r, buf, w))"
    for params ctx buf
    using register_function_Inr [OF assms(1)] by (simp add: registry_call_def)
  have mv: "to_message (message_view m) = m" by (simp add: to_message_def message_view_def)
  have "registry_dispatch (normalize_mount pre) registry m (call_context_detached ?path) w
      = (create_body_response_unstamped m (rb_buf out) (rb_format out), w')"
    using assms(7,8) query mount_pointer(1) [OF slash, of "normalize_mount pre"]
    by (cases "m_body m = []") (simp_all add: registry_dispatch_def mv body_of_def call response_buffer_def)
  then have "hd_handle_view (registered_registry pre registry :: ('w, 's) Handler) (message_view m)
      (call_context_detached ?path) w
      = (Inr (create_body_response_unstamped m (rb_buf out) (rb_format out)), w')"
    by (simp add: registered_registry_def Let_def mv)
  moreover have "v_header (message_view m) = m_header m" "v_query (message_view m) = m_query m"
    by (simp_all add: message_view_def)
  ultimately have "route_request_view show_err ?r (message_view m) w
      = (Some (create_body_response_unstamped m (rb_buf out) (rb_format out)), w')"
    using route by (simp add: route_request_view_def dispatch_view_def)
  from router_call_frame [OF assms(2) this] show ?thesis by simp
qed

definition example_function :: "nat RegistryFunction" where
  "example_function ctx params out w = (Inr (), out\<lparr>rb_buf := rb_buf out @ [0x34, 0x32]\<rparr>, Suc w)"

definition example_request :: Message where
  "example_request =
     build (with_id 9 (with_query_str ''/r/a'' (with_query_format QF_JsonPointer
       (with_body_utf8 ''hi'' builder))))"

theorem mounted_function_served_witness:
  "\<exists>frame. router_call 65535 (\<lambda>_ :: unit RepeError. [])
      (register_registry ''r/'' (\<lambda>_. registry_empty(''/a'' \<mapsto> example_function)) router_new)
      (message_to_vec example_request) 3 = Some (Some frame, 4)"
proof -
  have reg: "register_function ''a'' example_function registry_empty
      = Inr ((\<lambda>_. registry_empty(''/a'' \<mapsto> example_function)) (3 :: nat))"
    by (simp add: register_function_def starts_with_def addresses_root_def canonical_key_def validate_escapes_def)
  have wf: "wf_message 65535 example_request"
    unfolding example_request_def by (rule build_wf) (simp_all add: builder_defs as_bytes_def HEADER_SIZE_def)
  have mount: "normalize_mount ''r/'' = ''/r''"
    by (simp add: normalize_mount_def starts_with_def trim_end_matches_def)
  have path: "registration_pointer ''a'' = ''/a''" by (simp add: registration_pointer_def starts_with_def)
  have hdr: "h_version (m_header example_request) = REPE_VERSION" "h_notify (m_header example_request) \<noteq> 1"
    "h_query_format (m_header example_request) = query_format_u16 QF_JsonPointer"
    "body_format_try_from (h_body_format (m_header example_request)) = Inr BF_Utf8"
    "m_body example_request \<noteq> []"
    by (simp_all add: example_request_def build_def builder_defs REPE_VERSION_def body_format_try_from_def
        as_bytes_def Let_def)
  have "from_utf8 (m_query example_request) = Inr ''/r/a''"
    unfolding example_request_def by (simp add: builder_defs) code_simp
  then have query: "from_utf8 (m_query example_request) = Inr (normalize_mount ''r/'' @ registration_pointer ''a'')"
    by (simp add: mount path)
  show ?thesis
    by (rule exI, rule mounted_function_served [OF reg wf hdr(1-3) query hdr(4)])
      (simp add: example_function_def hdr(5))
qed

end
